(* ===== verification/Prelude.thy ===== *)
theory Prelude
  imports
    Main
    "HOL-Library.Word"
    "HOL-Library.List_Lexorder"
    "HOL-Library.Product_Lexorder"
    "HOL-Library.Multiset"
    "HOL-Library.Char_ord"
begin

text \<open>
  Shared vocabulary of the development: Rust's \<^verbatim>\<open>Result\<close> as a sum type with its monadic
  plumbing, checked and saturating unsigned 64-bit arithmetic on naturals, adjacent
  pairs (\<^verbatim>\<open>slice::windows(2)\<close>), ordered association lists (\<^verbatim>\<open>BTreeMap\<close>) and the generic list
  lemmas the components use.  Arbitrary-precision \<^verbatim>\<open>BigUint\<close> values are \<^typ>\<open>nat\<close>; a Rust
  \<^verbatim>\<open>u64\<close> is a \<^typ>\<open>nat\<close> below \<open>2 ^ 64\<close> and each arithmetic step on it writes out
  what the source does at the bound.
\<close>

section \<open>Results\<close>

type_synonym ('e, 'a) result = "'e + 'a"
type_synonym byte = "8 word"
type_synonym bytes = "byte list"
type_synonym biguint = nat
type_synonym u64 = nat

abbreviation Ok :: "'a \<Rightarrow> ('e, 'a) result" where
  "Ok \<equiv> Inr"

abbreviation Err :: "'e \<Rightarrow> ('e, 'a) result" where
  "Err \<equiv> Inl"

named_theorems result_simps \<open>unfolding of the result monad\<close>
named_theorems result_elims \<open>inversion of successful results\<close>

text \<open>The question-mark operator: propagate the error, continue with the value.\<close>

definition bindR :: "('e, 'a) result \<Rightarrow> ('a \<Rightarrow> ('e, 'b) result) \<Rightarrow> ('e, 'b) result" where
  "bindR m f = (case m of Inl e \<Rightarrow> Inl e | Inr x \<Rightarrow> f x)"

definition ok_or :: "'e \<Rightarrow> 'a option \<Rightarrow> ('e, 'a) result" where
  "ok_or e o' = (case o' of None \<Rightarrow> Inl e | Some x \<Rightarrow> Inr x)"

definition map_errR :: "('e \<Rightarrow> 'f) \<Rightarrow> ('e, 'a) result \<Rightarrow> ('f, 'a) result" where
  "map_errR g m = (case m of Inl e \<Rightarrow> Inl (g e) | Inr x \<Rightarrow> Inr x)"

text \<open>A guard that returns early with an error when the condition holds.\<close>

definition failR_if :: "bool \<Rightarrow> 'e \<Rightarrow> ('e, unit) result" where
  "failR_if b e = (if b then Inl e else Inr ())"

text \<open>\<^verbatim>\<open>iter().map(f).collect::<Result<Vec<_>, _>>()\<close>: stop at the first error.\<close>

fun mapR :: "('a \<Rightarrow> ('e, 'b) result) \<Rightarrow> 'a list \<Rightarrow> ('e, 'b list) result" where
  "mapR f [] = Inr []"
| "mapR f (x # xs) = bindR (f x) (\<lambda>y. bindR (mapR f xs) (\<lambda>ys. Inr (y # ys)))"

text \<open>A loop over a sequence that threads an accumulator and may fail.\<close>

fun foldR :: "('s \<Rightarrow> 'a \<Rightarrow> ('e, 's) result) \<Rightarrow> 's \<Rightarrow> 'a list \<Rightarrow> ('e, 's) result" where
  "foldR f s [] = Inr s"
| "foldR f s (x # xs) = bindR (f s x) (\<lambda>s'. foldR f s' xs)"

lemma bindR_Inl [simp, result_simps]: "bindR (Inl e) f = Inl e"
  by (simp add: bindR_def)

lemma bindR_Inr [simp, result_simps]: "bindR (Inr x) f = f x"
  by (simp add: bindR_def)

lemma bindR_assoc: "bindR (bindR m f) g = bindR m (\<lambda>x. bindR (f x) g)"
  by (simp add: bindR_def split: sum.splits)

lemma bindR_eq_Inr: "bindR m f = Inr y \<longleftrightarrow> (\<exists>x. m = Inr x \<and> f x = Inr y)"
  by (cases m) auto

lemma bindR_eq_Inl: "bindR m f = Inl e \<longleftrightarrow> m = Inl e \<or> (\<exists>x. m = Inr x \<and> f x = Inl e)"
  by (cases m) auto

lemma bindR_OkE [elim!, result_elims]:
  assumes "bindR m f = Inr y"
  obtains x where "m = Inr x" "f x = Inr y"
  using assms by (auto simp: bindR_eq_Inr)

lemma failR_if_simps [simp]:
  "failR_if b e = Inr u \<longleftrightarrow> \<not> b"
  "failR_if True e = Inl e"
  "failR_if False e = Inr ()"
  by (auto simp: failR_if_def)

lemma bindR_failR_if [simp]:
  "bindR (failR_if b e) f = (if b then Inl e else f ())"
  by (simp add: failR_if_def)

lemma ok_or_simps [simp]:
  "ok_or e None = Inl e"
  "ok_or e (Some x) = Inr x"
  "ok_or e m = Inr x \<longleftrightarrow> m = Some x"
  by (auto simp: ok_or_def split: option.splits)

lemma map_errR_simps [simp]:
  "map_errR g (Inl e) = Inl (g e)"
  "map_errR g (Inr x) = Inr x"
  "map_errR g m = Inr x \<longleftrightarrow> m = Inr x"
  by (auto simp: map_errR_def split: sum.splits)

lemma mapR_OkD: "mapR f xs = Inr ys \<Longrightarrow> list_all2 (\<lambda>x y. f x = Inr y) xs ys"
  by (induction xs arbitrary: ys) auto

lemma mapR_eq_Inr: "mapR f xs = Inr ys \<longleftrightarrow> list_all2 (\<lambda>x y. f x = Inr y) xs ys"
proof
  assume "list_all2 (\<lambda>x y. f x = Inr y) xs ys"
  then show "mapR f xs = Inr ys" by induction auto
qed (rule mapR_OkD)

lemma mapR_length: "mapR f xs = Inr ys \<Longrightarrow> length ys = length xs"
  by (auto dest!: mapR_OkD list_all2_lengthD)

lemma mapR_total: "(\<And>x. x \<in> set xs \<Longrightarrow> f x = Inr (g x)) \<Longrightarrow> mapR f xs = Inr (map g xs)"
  by (induction xs) auto

lemma mapR_total_cong:
  "(\<And>x. x \<in> set xs \<Longrightarrow> \<exists>y. f x = Inr y) \<Longrightarrow> \<exists>ys. mapR f xs = Inr ys"
proof (induction xs)
  case (Cons x xs)
  then obtain y ys where "f x = Inr y" "mapR f xs = Inr ys" by force
  then show ?case by simp
qed simp

lemma foldR_append: "foldR f s (xs @ ys) = bindR (foldR f s xs) (\<lambda>s'. foldR f s' ys)"
  by (induction xs arbitrary: s) (auto simp: bindR_assoc)

section \<open>Unsigned 64-bit arithmetic on naturals\<close>

definition u64_max :: nat where
  "u64_max = 2 ^ 64 - 1"

definition checked_add64 :: "nat \<Rightarrow> nat \<Rightarrow> nat option" where
  "checked_add64 a b = (if a + b \<le> u64_max then Some (a + b) else None)"

definition checked_mul64 :: "nat \<Rightarrow> nat \<Rightarrow> nat option" where
  "checked_mul64 a b = (if a * b \<le> u64_max then Some (a * b) else None)"

definition checked_sub64 :: "nat \<Rightarrow> nat \<Rightarrow> nat option" where
  "checked_sub64 a b = (if b \<le> a then Some (a - b) else None)"

definition saturating_add64 :: "nat \<Rightarrow> nat \<Rightarrow> nat" where
  "saturating_add64 a b = min (a + b) u64_max"

definition saturating_mul64 :: "nat \<Rightarrow> nat \<Rightarrow> nat" where
  "saturating_mul64 a b = min (a * b) u64_max"

definition div_ceil :: "nat \<Rightarrow> nat \<Rightarrow> nat" where
  "div_ceil a b = (a + b - 1) div b"

lemma checked_add64_Some [simp]:
  "checked_add64 a b = Some c \<longleftrightarrow> a + b \<le> u64_max \<and> c = a + b"
  by (auto simp: checked_add64_def)

lemma checked_mul64_Some [simp]:
  "checked_mul64 a b = Some c \<longleftrightarrow> a * b \<le> u64_max \<and> c = a * b"
  by (auto simp: checked_mul64_def)

lemma checked_sub64_Some [simp]:
  "checked_sub64 a b = Some c \<longleftrightarrow> b \<le> a \<and> c = a - b"
  by (auto simp: checked_sub64_def)

lemma saturating_add64_exact: "a + b \<le> u64_max \<Longrightarrow> saturating_add64 a b = a + b"
  by (simp add: saturating_add64_def)

lemma div_ceil_mult_ge: "0 < b \<Longrightarrow> a \<le> div_ceil a b * b"
proof -
  assume b: "0 < b"
  let ?n = "a + b - 1"
  have "?n = ?n div b * b + ?n mod b" by simp
  moreover have "?n mod b < b" using b by simp
  ultimately show ?thesis unfolding div_ceil_def using b by linarith
qed

lemma div_ceil_mult_less: "0 < b \<Longrightarrow> div_ceil a b * b < a + b"
proof -
  assume b: "0 < b"
  have "div_ceil a b * b \<le> a + b - 1" unfolding div_ceil_def by simp
  then show ?thesis using b by linarith
qed

section \<open>Adjacent pairs\<close>

definition windows2 :: "'a list \<Rightarrow> ('a \<times> 'a) list" where
  "windows2 xs = zip xs (tl xs)"

lemma windows2_simps [simp]:
  "windows2 [] = []"
  "windows2 [x] = []"
  "windows2 (x # y # ys) = (x, y) # windows2 (y # ys)"
  by (simp_all add: windows2_def)

lemma windows2_no_descent:
  fixes f :: "'a \<Rightarrow> 'b::linorder"
  shows "list_ex (\<lambda>(a, b). f b \<le> f a) (windows2 xs) \<longleftrightarrow> \<not> sorted_wrt (<) (map f xs)"
proof (induction xs rule: induct_list012)
  case (3 x y zs)
  have "sorted_wrt (<) (map f (x # y # zs)) \<longleftrightarrow> f x < f y \<and> sorted_wrt (<) (map f (y # zs))"
    by (auto intro: less_trans)
  with 3 show ?case by (auto simp: not_less)
qed auto

lemma windows2_sorted_distinct:
  fixes f :: "'a \<Rightarrow> 'b::linorder"
  assumes "sorted (map f xs)"
  shows "list_ex (\<lambda>(a, b). f a = f b) (windows2 xs) \<longleftrightarrow> \<not> distinct (map f xs)"
  using assms
proof (induction xs rule: induct_list012)
  case (3 x y zs)
  have "distinct (map f (x # y # zs)) \<longleftrightarrow> f x \<noteq> f y \<and> distinct (map f (y # zs))"
    using 3(3) by force
  with 3 show ?case by auto
qed auto

lemma list_all2_map_self: "list_all2 P xs (map f xs) \<longleftrightarrow> (\<forall>x \<in> set xs. P x (f x))"
  by (induction xs) auto

section \<open>Sums over lists and intervals\<close>

lemma sum_list_map_mono:
  fixes f g :: "'a \<Rightarrow> nat"
  shows "(\<And>x. x \<in> set xs \<Longrightarrow> f x \<le> g x) \<Longrightarrow> sum_list (map f xs) \<le> sum_list (map g xs)"
  by (rule sum_list_mono)

lemma sum_list_map_const_mult:
  fixes f :: "'a \<Rightarrow> nat"
  shows "sum_list (map (\<lambda>x. c * f x) xs) = c * sum_list (map f xs)"
  by (simp add: sum_list_const_mult)

lemma sum_list_div_le:
  fixes f :: "'a \<Rightarrow> nat"
  shows "sum_list (map (\<lambda>x. f x div c) xs) \<le> sum_list (map f xs) div c"
proof (induction xs)
  case (Cons x xs)
  have "f x div c + sum_list (map f xs) div c \<le> (f x + sum_list (map f xs)) div c"
    using div_add1_eq [of "f x" "sum_list (map f xs)" c] by linarith
  with Cons show ?case by simp
qed simp

lemma sum_atLeastLessThan_split:
  fixes f :: "nat \<Rightarrow> nat"
  assumes "a \<le> b" "b \<le> c"
  shows "(\<Sum>i\<in>{a..<c}. f i) = (\<Sum>i\<in>{a..<b}. f i) + (\<Sum>i\<in>{b..<c}. f i)"
  using assms by (simp add: sum.atLeastLessThan_concat)

lemma sum_atLeastLessThan_const:
  fixes f :: "nat \<Rightarrow> nat"
  assumes "\<And>i. a \<le> i \<Longrightarrow> i < b \<Longrightarrow> f i = c"
  shows "(\<Sum>i\<in>{a..<b}. f i) = c * (b - a)"
proof -
  have "(\<Sum>i\<in>{a..<b}. f i) = (\<Sum>i\<in>{a..<b}. c)"
    using assms by (intro sum.cong) auto
  then show ?thesis by (simp add: mult.commute)
qed

end
