(* ===== verification/Encoding.thy ===== *)
theory Encoding
  imports Prelude
begin

text \<open>
  Byte-level representations of \<^verbatim>\<open>offchain-rust/src/lib.rs\<close>: hexadecimal text, decimal text,
  big-endian 256-bit words, addresses and the kernel's error type.  A Rust string is the
  list of its UTF-8 bytes (\<^typ>\<open>string\<close>), a byte array is a list of 8-bit words.  The
  Keccak-256 hash is a parameter of every definition that uses it.
\<close>

section \<open>Decimal text\<close>

definition digit_char :: "nat \<Rightarrow> char" where
  "digit_char n = char_of (48 + n)"

text \<open>\<^verbatim>\<open>to_string()\<close> of an unsigned integer.\<close>

fun show_nat :: "nat \<Rightarrow> string" where
  "show_nat n = (if n < 10 then [digit_char n] else show_nat (n div 10) @ [digit_char (n mod 10)])"

declare show_nat.simps [simp del]

definition is_ascii_digit :: "char \<Rightarrow> bool" where
  "is_ascii_digit c \<longleftrightarrow> 48 \<le> (of_char c :: nat) \<and> (of_char c :: nat) \<le> 57"

definition digit_val :: "char \<Rightarrow> nat" where
  "digit_val c = of_char c - 48"

definition decimal_value :: "string \<Rightarrow> nat" where
  "decimal_value = foldl (\<lambda>a c. a * 10 + digit_val c) 0"

lemma digit_char_props [simp]:
  assumes "n < 10"
  shows "is_ascii_digit (digit_char n)" "digit_val (digit_char n) = n"
  using assms by (simp_all add: is_ascii_digit_def digit_val_def digit_char_def of_char_of)

lemma decimal_value_snoc: "decimal_value (s @ [c]) = decimal_value s * 10 + digit_val c"
  by (simp add: decimal_value_def)

lemma show_nat_nonempty [simp]: "show_nat n \<noteq> []"
  by (subst show_nat.simps) simp

lemma show_nat_digits: "list_all is_ascii_digit (show_nat n)"
proof (induction n rule: show_nat.induct)
  case (1 n)
  then show ?case by (subst show_nat.simps) simp
qed

lemma decimal_value_show_nat [simp]: "decimal_value (show_nat n) = n"
proof (induction n rule: show_nat.induct)
  case (1 n)
  show ?case
  proof (cases "n < 10")
    case True
    then show ?thesis by (subst show_nat.simps) (simp add: decimal_value_def)
  next
    case False
    then show ?thesis using 1 by (subst show_nat.simps) (simp add: decimal_value_snoc)
  qed
qed

lemma show_nat_inj: "show_nat m = show_nat n \<longleftrightarrow> m = n"
  using decimal_value_show_nat by metis

lemma show_nat_no_leading_zero:
  "hd (show_nat n) = CHR ''0'' \<longleftrightarrow> n = 0"
proof (induction n rule: show_nat.induct)
  case (1 n)
  show ?case
  proof (cases "n < 10")
    case True
    have "digit_char n = CHR ''0'' \<longleftrightarrow> n = 0"
    proof
      assume "digit_char n = CHR ''0''"
      then have "digit_val (digit_char n) = 0" by (simp add: digit_val_def)
      with True show "n = 0" by simp
    next
      have "digit_char 0 = CHR ''0''" by code_simp
      then show "n = 0 \<Longrightarrow> digit_char n = CHR ''0''" by simp
    qed
    then show ?thesis using True by (subst show_nat.simps) simp
  next
    case False
    then show ?thesis using 1 by (subst show_nat.simps) simp
  qed
qed

section \<open>Hexadecimal text\<close>

definition hex_char :: "nat \<Rightarrow> char" where
  "hex_char n = char_of (if n < 10 then 48 + n else 87 + n)"

text \<open>The digit table of the \<^verbatim>\<open>hex\<close> crate and of \<^verbatim>\<open>from_str_radix\<close>: both cases are accepted.\<close>

definition hex_val :: "char \<Rightarrow> nat option" where
  "hex_val c = (let n = (of_char c :: nat) in
     if 48 \<le> n \<and> n \<le> 57 then Some (n - 48)
     else if 65 \<le> n \<and> n \<le> 70 then Some (n - 55)
     else if 97 \<le> n \<and> n \<le> 102 then Some (n - 87)
     else None)"

definition to_ascii_lowercase :: "string \<Rightarrow> string" where
  "to_ascii_lowercase = map (\<lambda>c. let n = (of_char c :: nat) in
     if 65 \<le> n \<and> n \<le> 90 then char_of (n + 32) else c)"

fun hex_encode :: "bytes \<Rightarrow> string" where
  "hex_encode [] = []"
| "hex_encode (b # bs) = hex_char (unat b div 16) # hex_char (unat b mod 16) # hex_encode bs"

fun hex_decode :: "string \<Rightarrow> bytes option" where
  "hex_decode [] = Some []"
| "hex_decode [c] = None"
| "hex_decode (c # d # cs) =
     (case (hex_val c, hex_val d) of
        (Some h, Some l) \<Rightarrow> map_option ((#) (word_of_nat (16 * h + l))) (hex_decode cs)
      | _ \<Rightarrow> None)"

lemma hex_val_hex_char [simp]: "n < 16 \<Longrightarrow> hex_val (hex_char n) = Some n"
  by (auto simp: hex_val_def hex_char_def of_char_of Let_def)

lemma hex_val_less: "hex_val c = Some n \<Longrightarrow> n < 16"
  by (auto simp: hex_val_def Let_def split: if_splits)

lemma unat_byte_less: "unat (b :: byte) < 256"
  by (rule less_le_trans [OF unsigned_less]) simp

lemma unat_byte_of_nat [simp]: "n < 256 \<Longrightarrow> unat (word_of_nat n :: byte) = n"
  by (simp add: unsigned_of_nat take_bit_nat_eq_self)

lemma byte_of_nibbles: "word_of_nat (16 * (unat b div 16) + unat b mod 16) = (b :: byte)"
  by (simp add: mult.commute)

lemma hex_decode_encode [simp]: "hex_decode (hex_encode bs) = Some bs"
proof (induction bs)
  case (Cons b bs)
  have "unat b div 16 < 16" "unat b mod 16 < 16" using unat_byte_less [of b] by auto
  with Cons show ?case by (simp add: byte_of_nibbles)
qed simp

lemma hex_encode_inj: "hex_encode xs = hex_encode ys \<longleftrightarrow> xs = ys"
  using hex_decode_encode by (metis option.inject)

lemma length_hex_encode [simp]: "length (hex_encode bs) = 2 * length bs"
  by (induction bs) auto

lemma length_hex_decode: "hex_decode s = Some bs \<Longrightarrow> length s = 2 * length bs"
  by (induction s arbitrary: bs rule: hex_decode.induct) (auto split: option.splits)

lemma hex_char_lower: "hex_val c = Some n \<Longrightarrow> to_ascii_lowercase [c] = [hex_char n]"
  by (auto simp: hex_val_def hex_char_def to_ascii_lowercase_def Let_def split: if_splits)

lemma to_ascii_lowercase_Cons: "to_ascii_lowercase (c # cs) = to_ascii_lowercase [c] @ to_ascii_lowercase cs"
  by (simp add: to_ascii_lowercase_def)

lemma hex_encode_decode: "hex_decode s = Some bs \<Longrightarrow> hex_encode bs = to_ascii_lowercase s"
proof (induction s arbitrary: bs rule: hex_decode.induct)
  case (3 c d cs)
  then obtain h l r where hl: "hex_val c = Some h" "hex_val d = Some l" "hex_decode cs = Some r"
    "bs = word_of_nat (16 * h + l) # r" by (auto split: option.splits)
  have lt: "h < 16" "l < 16" using hex_val_less [OF hl(1)] hex_val_less [OF hl(2)] by auto
  have u: "unat (word_of_nat (16 * h + l) :: byte) = 16 * h + l"
    using lt by (intro unat_byte_of_nat) simp
  have "hex_encode bs = [hex_char h] @ [hex_char l] @ hex_encode r" using hl u lt by simp
  also have "\<dots> = to_ascii_lowercase [c] @ to_ascii_lowercase [d] @ to_ascii_lowercase cs"
    using 3 hl hex_char_lower by simp
  also have "\<dots> = to_ascii_lowercase (c # d # cs)"
    by (simp add: to_ascii_lowercase_def)
  finally show ?case .
qed (auto simp: to_ascii_lowercase_def)

lemma lower_hex_encode [simp]: "to_ascii_lowercase (hex_encode bs) = hex_encode bs"
  using hex_encode_decode [OF hex_decode_encode] by simp

lemma lower_0x [simp]: "to_ascii_lowercase (CHR ''0'' # CHR ''x'' # s) = CHR ''0'' # CHR ''x'' # to_ascii_lowercase s"
  by (simp add: to_ascii_lowercase_def)

text \<open>\<^verbatim>\<open>u64::from_str_radix(text, 16)\<close>: an optional leading plus, at least one digit, no overflow.\<close>

definition strip_prefix :: "string \<Rightarrow> string \<Rightarrow> string option" where
  "strip_prefix p s = (if take (length p) s = p then Some (drop (length p) s) else None)"

fun hex_value_from :: "nat \<Rightarrow> string \<Rightarrow> nat option" where
  "hex_value_from a [] = Some a"
| "hex_value_from a (c # cs) =
     (case hex_val c of None \<Rightarrow> None
      | Some d \<Rightarrow> if a * 16 + d \<le> u64_max then hex_value_from (a * 16 + d) cs else None)"

definition u64_from_str_radix16 :: "string \<Rightarrow> nat option" where
  "u64_from_str_radix16 s =
     (let digits = (case s of c # cs \<Rightarrow> if c = CHR ''+'' then cs else s | [] \<Rightarrow> [])
      in if digits = [] then None else hex_value_from 0 digits)"

lemma strip_prefix_append [simp]: "strip_prefix p (p @ s) = Some s"
  by (simp add: strip_prefix_def)

lemma strip_prefix_Some: "strip_prefix p s = Some r \<longleftrightarrow> s = p @ r"
  unfolding strip_prefix_def by (metis append_eq_conv_conj append_take_drop_id option.distinct(1) option.inject)

section \<open>Big-endian numbers\<close>

text \<open>\<^verbatim>\<open>BigUint::to_bytes_be\<close>: minimal length, a single zero byte for zero.\<close>

fun to_bytes_be :: "nat \<Rightarrow> bytes" where
  "to_bytes_be n = (if n < 256 then [word_of_nat n] else to_bytes_be (n div 256) @ [word_of_nat (n mod 256)])"

declare to_bytes_be.simps [simp del]

definition of_bytes_be :: "bytes \<Rightarrow> nat" where
  "of_bytes_be = foldl (\<lambda>a b. a * 256 + unat b) 0"

text \<open>\<^verbatim>\<open>to_be_bytes\<close> of a fixed-width unsigned integer of \<open>k\<close> bytes.\<close>

fun be_bytes :: "nat \<Rightarrow> nat \<Rightarrow> bytes" where
  "be_bytes 0 n = []"
| "be_bytes (Suc k) n = be_bytes k (n div 256) @ [word_of_nat (n mod 256)]"

lemma of_bytes_be_simps [simp]:
  "of_bytes_be [] = 0"
  "of_bytes_be (bs @ [b]) = of_bytes_be bs * 256 + unat b"
  by (simp_all add: of_bytes_be_def)

lemma of_bytes_be_replicate [simp]: "of_bytes_be (replicate k 0 @ bs) = of_bytes_be bs"
proof -
  have "foldl (\<lambda>a b. a * 256 + unat b) 0 (replicate k (0 :: byte)) = 0" by (induction k) auto
  then show ?thesis by (simp add: of_bytes_be_def)
qed

lemma of_to_bytes_be [simp]: "of_bytes_be (to_bytes_be n) = n"
proof (induction n rule: to_bytes_be.induct)
  case (1 n)
  show ?case
  proof (cases "n < 256")
    case True
    then show ?thesis using of_bytes_be_simps(2) [of "[]"] by (subst to_bytes_be.simps) simp
  next
    case False
    then show ?thesis using 1 by (subst to_bytes_be.simps) simp
  qed
qed

lemma of_bytes_be_less: "of_bytes_be bs < 256 ^ length bs"
proof (induction bs rule: rev_induct)
  case (snoc b bs)
  have "of_bytes_be bs * 256 + unat b < (of_bytes_be bs + 1) * 256" using unat_byte_less [of b] by simp
  also have "\<dots> \<le> 256 ^ length bs * 256" using snoc by (intro mult_right_mono) auto
  finally show ?case by (simp add: mult.commute)
qed simp

lemma of_bytes_be_inj:
  "length xs = length ys \<Longrightarrow> of_bytes_be xs = of_bytes_be ys \<Longrightarrow> xs = ys"
proof (induction xs arbitrary: ys rule: rev_induct)
  case (snoc x xs)
  then obtain y ys' where ys: "ys = ys' @ [y]" by (cases ys rule: rev_cases) auto
  have e: "of_bytes_be xs * 256 + unat x = of_bytes_be ys' * 256 + unat y" using snoc.prems ys by simp
  have "unat x = unat y" using arg_cong [OF e, of "\<lambda>n. n mod 256"] unat_byte_less [of x] unat_byte_less [of y] by simp
  with e have "x = y" "of_bytes_be xs = of_bytes_be ys'" by (simp_all add: unsigned_word_eqI)
  with snoc ys show ?case by simp
qed simp

lemma length_to_bytes_be: "length (to_bytes_be n) \<le> k \<longleftrightarrow> 0 < k \<and> n < 256 ^ k"
proof (induction k arbitrary: n)
  case 0
  then show ?case by (subst to_bytes_be.simps) simp
next
  case (Suc k)
  show ?case
  proof (cases "n < 256")
    case True
    have "(1::nat) \<le> 256 ^ k" by simp
    then have "n < 256 * 256 ^ k" using True by linarith
    with True show ?thesis by (subst to_bytes_be.simps) simp
  next
    case False
    have "n div 256 < 256 ^ k \<longleftrightarrow> n < 256 * 256 ^ k"
      by (simp add: div_less_iff_less_mult mult.commute)
    moreover have "k = 0 \<Longrightarrow> \<not> n div 256 < 256 ^ k" using False by simp
    ultimately show ?thesis using False Suc [of "n div 256"] by (subst to_bytes_be.simps) auto
  qed
qed

lemma length_be_bytes [simp]: "length (be_bytes k n) = k"
  by (induction k arbitrary: n) auto

lemma of_be_bytes [simp]: "of_bytes_be (be_bytes k n) = n mod 256 ^ k"
proof (induction k arbitrary: n)
  case (Suc k)
  have "n div 256 mod 256 ^ k * 256 + n mod 256 = n mod (256 * 256 ^ k)"
    by (simp add: mod_mult2_eq)
  with Suc show ?case by simp
qed simp

section \<open>Addresses\<close>

text \<open>
  \<^verbatim>\<open>Address([u8; 20])\<close>.  The derived order compares the bytes lexicographically, which is the
  order of \<^typ>\<open>bytes\<close>; \<open>wf_address\<close> is the array length.
\<close>

datatype address = Address (as_slice: bytes)

definition wf_address :: "address \<Rightarrow> bool" where
  "wf_address a \<longleftrightarrow> length (as_slice a) = 20"

instantiation address :: linorder
begin

definition less_eq_address :: "address \<Rightarrow> address \<Rightarrow> bool" where
  "a \<le> b \<longleftrightarrow> as_slice a \<le> as_slice b"

definition less_address :: "address \<Rightarrow> address \<Rightarrow> bool" where
  "a < b \<longleftrightarrow> as_slice a < as_slice b"

instance
  by standard (auto simp: less_eq_address_def less_address_def address.expand)

end

definition is_zero :: "address \<Rightarrow> bool" where
  "is_zero a \<longleftrightarrow> as_slice a = replicate 20 0"

definition abi_word :: "address \<Rightarrow> bytes" where
  "abi_word a = replicate 12 0 @ as_slice a"

definition address_from_str :: "string \<Rightarrow> address option" where
  "address_from_str v =
     (case strip_prefix ''0x'' v of None \<Rightarrow> None
      | Some hex \<Rightarrow> if length hex \<noteq> 40 then None
                   else map_option Address (hex_decode hex))"

definition address_to_string :: "address \<Rightarrow> string" where
  "address_to_string a = ''0x'' @ hex_encode (as_slice a)"

lemma address_from_str_wf: "address_from_str v = Some a \<Longrightarrow> wf_address a"
  by (auto simp: address_from_str_def wf_address_def split: option.splits if_splits dest!: length_hex_decode)

lemma address_roundtrip: "wf_address a \<Longrightarrow> address_from_str (address_to_string a) = Some a"
  by (simp add: address_from_str_def address_to_string_def wf_address_def strip_prefix_def)

lemma address_canonical: "address_from_str v = Some a \<Longrightarrow> address_to_string a = to_ascii_lowercase v"
  by (auto simp: address_from_str_def address_to_string_def strip_prefix_Some to_ascii_lowercase_def
      dest!: hex_encode_decode split: option.splits if_splits)

lemma address_to_string_inj: "address_to_string a = address_to_string b \<longleftrightarrow> a = b"
  by (auto simp: address_to_string_def hex_encode_inj address.expand)

lemma abi_word_inj: "abi_word a = abi_word b \<longleftrightarrow> a = b"
  by (auto simp: abi_word_def address.expand)

section \<open>Kernel errors and 256-bit words\<close>

datatype kernel_error =
    JsonError string
  | InvalidDecimal string string
  | InvalidAddress string string
  | Uint256Overflow
  | DuplicateInputUser address
  | DuplicateClaim biguint
  | MissingClaim biguint
  | EmptyMerkleTree
  | DuplicateRegistration biguint
  | UnknownCancellation biguint
  | DuplicateCancellation biguint
  | DuplicateResolvedClaim biguint
  | MissingResolvedClaim biguint
  | UnexpectedResolvedClaim biguint
  | ResolvedClaimMismatch biguint
  | EventOrder u64 u64 u64 u64
  | InvalidPolicy string

type_synonym hash = bytes

definition ZERO_HASH :: hash where
  "ZERO_HASH = replicate 32 0"

definition pow10 :: "nat \<Rightarrow> biguint" where
  "pow10 decimals = 10 ^ decimals"

definition uint256_word :: "biguint \<Rightarrow> (kernel_error, hash) result" where
  "uint256_word v =
     (let bs = to_bytes_be v in
      if length bs > 32 then Err Uint256Overflow
      else Ok (replicate (32 - length bs) 0 @ bs))"

definition usize_word :: "nat \<Rightarrow> hash" where
  "usize_word v = replicate 24 0 @ be_bytes 8 v"

definition hash_hex :: "hash \<Rightarrow> string" where
  "hash_hex h = ''0x'' @ hex_encode h"

lemma pow256_32: "(256::nat) ^ 32 = 2 ^ 256"
  by (simp flip: power_mult add: power_mult [of 2 8 32, simplified])

text \<open>The range of a Solidity \<^verbatim>\<open>uint256\<close>.\<close>

definition fits :: "biguint \<Rightarrow> bool" where
  "fits v \<longleftrightarrow> v < 2 ^ 256"

lemma uint256_word_cases:
  "uint256_word v = (if fits v then Ok (be_bytes 32 v) else Err Uint256Overflow)"
proof (cases "v < 2 ^ 256")
  case True
  then have le: "length (to_bytes_be v) \<le> 32" by (simp only: length_to_bytes_be pow256_32) simp
  have "replicate (32 - length (to_bytes_be v)) 0 @ to_bytes_be v = be_bytes 32 v"
    by (rule of_bytes_be_inj) (use le True in \<open>simp_all only: of_bytes_be_replicate of_to_bytes_be
        of_be_bytes pow256_32 mod_less length_append length_replicate length_be_bytes le_add_diff_inverse2\<close>)
  with le True show ?thesis by (simp add: uint256_word_def Let_def not_less fits_def)
next
  case False
  then have "\<not> length (to_bytes_be v) \<le> 32" by (simp only: length_to_bytes_be pow256_32) simp
  with False show ?thesis by (simp add: uint256_word_def Let_def not_less fits_def)
qed

lemma uint256_word_Ok:
  "uint256_word v = Ok w \<longleftrightarrow> length w = 32 \<and> of_bytes_be w = v"
proof
  assume "uint256_word v = Ok w"
  then have "v < 2 ^ 256" "w = be_bytes 32 v" by (auto simp only: uint256_word_cases fits_def split: if_splits)
  then show "length w = 32 \<and> of_bytes_be w = v" using mod_less [of v "256 ^ 32"]
    by (simp only: length_be_bytes of_be_bytes pow256_32)
next
  assume w: "length w = 32 \<and> of_bytes_be w = v"
  then have lt: "v < 2 ^ 256" using of_bytes_be_less [of w] by (simp only: pow256_32)
  have "be_bytes 32 v = w"
    by (rule of_bytes_be_inj) (use w lt in \<open>simp_all only: length_be_bytes of_be_bytes pow256_32 mod_less\<close>)
  with lt show "uint256_word v = Ok w" by (simp only: uint256_word_cases fits_def if_True)
qed

lemma be_bytes_32_inj: "be_bytes 32 a = be_bytes 32 b \<Longrightarrow> fits a \<Longrightarrow> fits b \<Longrightarrow> a = b"
  by (metis of_be_bytes pow256_32 fits_def mod_less)

lemma uint256_word_inj: "uint256_word a = Ok w \<Longrightarrow> uint256_word b = Ok w \<Longrightarrow> a = b"
  by (simp add: uint256_word_Ok)

lemma uint256_word_length: "uint256_word a = Ok w \<Longrightarrow> length w = 32"
  by (simp add: uint256_word_Ok)

lemma mapR_uint256_word:
  "mapR (\<lambda>x. uint256_word (f x)) xs = Ok ws \<longleftrightarrow>
     list_all (\<lambda>x. fits (f x)) xs \<and> ws = map (\<lambda>x. be_bytes 32 (f x)) xs"
  by (induction xs arbitrary: ws) (auto simp: uint256_word_cases bindR_eq_Inr simp del: be_bytes.simps)

lemma length_usize_word [simp]: "length (usize_word n) = 32"
  by (simp add: usize_word_def)

lemma length_abi_word: "wf_address a \<Longrightarrow> length (abi_word a) = 32"
  by (simp add: abi_word_def wf_address_def)

lemma of_bytes_usize_word: "n \<le> u64_max \<Longrightarrow> of_bytes_be (usize_word n) = n"
  by (simp add: usize_word_def u64_max_def)

lemma usize_word_inj: "usize_word m = usize_word n \<Longrightarrow> m \<le> u64_max \<Longrightarrow> n \<le> u64_max \<Longrightarrow> m = n"
  using of_bytes_usize_word by metis

lemma hash_hex_inj: "hash_hex a = hash_hex b \<longleftrightarrow> a = b"
  by (simp add: hash_hex_def hex_encode_inj)

end
