(* ===== verification/Effects.thy ===== *)
theory Effects
  imports Encoding
begin

text \<open>
  Effects of the off-chain engine: JSON documents with the accessors the code uses, hexadecimal
  quantities, and a state-and-error monad.  The outside world (the RPC provider, the clock,
  the file system) is a type parameter \<open>'w\<close> that every call threads; an action may
  change it also when it fails.
\<close>

section \<open>JSON documents\<close>

text \<open>
  A JSON number is an integer or a floating-point literal that no accessor of the code accepts.
  An object is an association list with distinct keys.
\<close>

datatype json =
    JNull
  | JBool bool
  | JInt int
  | JFloat string
  | JStr string
  | JArr "json list"
  | JObj "(string \<times> json) list"

fun as_str :: "json \<Rightarrow> string option" where
  "as_str (JStr s) = Some s"
| "as_str _ = None"

fun as_bool :: "json \<Rightarrow> bool option" where
  "as_bool (JBool b) = Some b"
| "as_bool _ = None"

fun as_array :: "json \<Rightarrow> json list option" where
  "as_array (JArr xs) = Some xs"
| "as_array _ = None"

fun as_u64 :: "json \<Rightarrow> u64 option" where
  "as_u64 (JInt i) = (if 0 \<le> i \<and> nat i \<le> u64_max then Some (nat i) else None)"
| "as_u64 _ = None"

fun as_i64 :: "json \<Rightarrow> int option" where
  "as_i64 (JInt i) = (if - (2 ^ 63) \<le> i \<and> i < 2 ^ 63 then Some i else None)"
| "as_i64 _ = None"

text \<open>\<^verbatim>\<open>value.get(key)\<close> and \<^verbatim>\<open>value[key]\<close>: the latter yields null for an absent key.\<close>

fun json_get :: "json \<Rightarrow> string \<Rightarrow> json option" where
  "json_get (JObj kvs) k = map_of kvs k"
| "json_get _ k = None"

definition json_index :: "json \<Rightarrow> string \<Rightarrow> json" where
  "json_index v k = (case json_get v k of Some x \<Rightarrow> x | None \<Rightarrow> JNull)"

section \<open>Hexadecimal quantities\<close>

text \<open>\<^verbatim>\<open>format!("{n:x}")\<close> and \<^verbatim>\<open>format!("0x{n:x}")\<close>.\<close>

fun show_hex :: "nat \<Rightarrow> string" where
  "show_hex n = (if n < 16 then [hex_char n] else show_hex (n div 16) @ [hex_char (n mod 16)])"

declare show_hex.simps [simp del]

definition hex_tag :: "nat \<Rightarrow> string" where
  "hex_tag n = ''0x'' @ show_hex n"

lemma hex_value_from_append:
  "hex_value_from a (s @ t) = (case hex_value_from a s of None \<Rightarrow> None | Some b \<Rightarrow> hex_value_from b t)"
  by (induction s arbitrary: a) (auto split: option.splits)

lemma hex_value_show_hex: "hex_value_from 0 (show_hex n) = (if n \<le> u64_max then Some n else None)"
proof (induction n rule: show_hex.induct)
  case (1 n)
  show ?case
  proof (cases "n < 16")
    case True
    then have "n \<le> u64_max" by (simp add: u64_max_def)
    with True show ?thesis by (subst show_hex.simps) simp
  next
    case False
    have "n \<le> u64_max \<Longrightarrow> n div 16 \<le> u64_max" by (meson div_le_dividend le_trans)
    with 1 False show ?thesis by (subst show_hex.simps) (auto simp: hex_value_from_append)
  qed
qed

lemma show_hex_head: "\<exists>d r. show_hex n = hex_char d # r \<and> d < 16"
proof (induction n rule: show_hex.induct)
  case (1 n)
  show ?case
  proof (cases "n < 16")
    case True
    then show ?thesis by (subst show_hex.simps) auto
  next
    case False
    with 1 show ?thesis by (subst show_hex.simps) force
  qed
qed

lemma hex_val_plus: "hex_val CHR ''+'' = None"
  by code_simp

lemma hex_parse_show: "u64_from_str_radix16 (show_hex n) = (if n \<le> u64_max then Some n else None)"
proof -
  obtain d r where s: "show_hex n = hex_char d # r" "d < 16" using show_hex_head by blast
  have "hex_char d \<noteq> CHR ''+''" using hex_val_hex_char [OF s(2)] hex_val_plus by auto
  then show ?thesis using hex_value_show_hex [of n] s(1) by (simp add: u64_from_str_radix16_def)
qed

lemma hex_roundtrip: "n \<le> u64_max \<Longrightarrow> u64_from_str_radix16 (show_hex n) = Some n"
  by (simp add: hex_parse_show)

section \<open>Actions\<close>

type_synonym ('w, 'e, 'a) act = "'w \<Rightarrow> ('e + 'a) \<times> 'w"

definition retA :: "'a \<Rightarrow> ('w, 'e, 'a) act" where
  "retA x = (\<lambda>w. (Inr x, w))"

definition failA :: "'e \<Rightarrow> ('w, 'e, 'a) act" where
  "failA e = (\<lambda>w. (Inl e, w))"

definition bindA :: "('w, 'e, 'a) act \<Rightarrow> ('a \<Rightarrow> ('w, 'e, 'b) act) \<Rightarrow> ('w, 'e, 'b) act" where
  "bindA m f = (\<lambda>w. case m w of (Inl e, w') \<Rightarrow> (Inl e, w') | (Inr x, w') \<Rightarrow> f x w')"

definition liftR :: "('e, 'a) result \<Rightarrow> ('w, 'e, 'a) act" where
  "liftR r = (\<lambda>w. (r, w))"

text \<open>\<^verbatim>\<open>?\<close> with a \<^verbatim>\<open>From\<close> conversion of the error, and inspection of the outcome by \<^verbatim>\<open>match\<close>.\<close>

definition map_errA :: "('e \<Rightarrow> 'f) \<Rightarrow> ('w, 'e, 'a) act \<Rightarrow> ('w, 'f, 'a) act" where
  "map_errA g m = (\<lambda>w. case m w of (r, w') \<Rightarrow> (map_errR g r, w'))"

definition tryA :: "('w, 'e, 'a) act \<Rightarrow> ('w, 'f, 'e + 'a) act" where
  "tryA m = (\<lambda>w. case m w of (r, w') \<Rightarrow> (Inr r, w'))"

definition getsA :: "('w \<Rightarrow> 'a) \<Rightarrow> ('w, 'e, 'a) act" where
  "getsA f = (\<lambda>w. (Inr (f w), w))"

definition guardA :: "bool \<Rightarrow> 'e \<Rightarrow> ('w, 'e, unit) act" where
  "guardA b e = (if b then failA e else retA ())"

fun mapA :: "('a \<Rightarrow> ('w, 'e, 'b) act) \<Rightarrow> 'a list \<Rightarrow> ('w, 'e, 'b list) act" where
  "mapA f [] = retA []"
| "mapA f (x # xs) = bindA (f x) (\<lambda>y. bindA (mapA f xs) (\<lambda>ys. retA (y # ys)))"

fun foldA :: "('s \<Rightarrow> 'a \<Rightarrow> ('w, 'e, 's) act) \<Rightarrow> 's \<Rightarrow> 'a list \<Rightarrow> ('w, 'e, 's) act" where
  "foldA f s [] = retA s"
| "foldA f s (x # xs) = bindA (f s x) (\<lambda>s'. foldA f s' xs)"

named_theorems act_simps \<open>evaluation of actions in a world\<close>

lemma retA_apply [simp, act_simps]: "retA x w = (Inr x, w)"
  by (simp add: retA_def)

lemma failA_apply [simp, act_simps]: "failA e w = (Inl e, w)"
  by (simp add: failA_def)

lemma liftR_apply [simp, act_simps]: "liftR r w = (r, w)"
  by (simp add: liftR_def)

lemma getsA_apply [simp, act_simps]: "getsA f w = (Inr (f w), w)"
  by (simp add: getsA_def)

lemma guardA_apply [simp, act_simps]: "guardA b e w = (if b then Inl e else Inr (), w)"
  by (simp add: guardA_def)

lemma bindA_apply: "bindA m f w = (case m w of (Inl e, w') \<Rightarrow> (Inl e, w') | (Inr x, w') \<Rightarrow> f x w')"
  by (simp add: bindA_def)

lemma bindA_Inr [simp]: "m w = (Inr x, w') \<Longrightarrow> bindA m f w = f x w'"
  by (simp add: bindA_def)

lemma bindA_Inl [simp]: "m w = (Inl e, w') \<Longrightarrow> bindA m f w = (Inl e, w')"
  by (simp add: bindA_def)

lemma bindA_simps [simp, act_simps]:
  "bindA (retA x) f = f x"
  "bindA (failA e) f = failA e"
  "bindA (liftR (Inr x)) f = f x"
  "bindA (liftR (Inl e)) f = failA e"
  "bindA (getsA g) f = (\<lambda>w. f (g w) w)"
  by (auto simp: bindA_def fun_eq_iff)

lemma bindA_guardA [simp, act_simps]: "bindA (guardA b e) f = (if b then failA e else f ())"
  by (simp add: guardA_def)

lemma bindA_OkE [elim!]:
  assumes "bindA m f w = (Inr y, w'')"
  obtains x w' where "m w = (Inr x, w')" "f x w' = (Inr y, w'')"
  using assms by (auto simp: bindA_def split: prod.splits sum.splits)

lemma snd_bindA_liftR [simp]: "snd (bindA m (\<lambda>x. liftR (f x)) w) = snd (m w)"
  by (auto simp: bindA_def split: prod.splits sum.splits)

lemma map_errA_Inr [simp]: "map_errA g m w = (Inr x, w') \<longleftrightarrow> m w = (Inr x, w')"
  by (auto simp: map_errA_def split: prod.splits)

lemma map_errA_Inl: "map_errA g m w = (Inl e, w') \<longleftrightarrow> (\<exists>e'. m w = (Inl e', w') \<and> e = g e')"
  by (auto simp: map_errA_def map_errR_def split: prod.splits sum.splits)

lemma tryA_apply [simp]: "tryA m w = (Inr (fst (m w)), snd (m w))"
  by (simp add: tryA_def split: prod.splits)

text \<open>An answer some call of the computation received.\<close>

definition observed :: "('w, 'e, 'a) act \<Rightarrow> 'a \<Rightarrow> bool" where
  "observed m x \<longleftrightarrow> (\<exists>w w'. m w = (Ok x, w'))"

lemma observedI: "m w = (Ok x, w') \<Longrightarrow> observed m x"
  by (auto simp: observed_def)

text \<open>Inversion of the elementary actions.\<close>

lemma act_Ok:
  "guardA b e w = (Ok u, w') \<longleftrightarrow> \<not> b \<and> w' = w"
  "liftR r w = (Ok x, w') \<longleftrightarrow> r = Ok x \<and> w' = w"
  "retA y w = (Ok x, w') \<longleftrightarrow> x = y \<and> w' = w"
  by (auto simp: guardA_def)

text \<open>
  Actions that do not depend on the world: a pure answer in every world.  A provider that serves
  one fixed chain state is of this kind, and such actions compose like results.
\<close>

definition answers :: "('w, 'e, 'a) act \<Rightarrow> ('e, 'a) result \<Rightarrow> bool" where
  "answers m r \<longleftrightarrow> (\<forall>w. fst (m w) = r)"

lemma answers_retA [simp]: "answers (retA x) (Inr x)"
  by (simp add: answers_def)

lemma answers_Pair [simp]: "answers (Pair r) r' \<longleftrightarrow> r = r'"
  by (simp add: answers_def)

lemma answers_failA [simp]: "answers (failA e) (Inl e)"
  by (simp add: answers_def)

lemma answers_liftR [simp]: "answers (liftR r) r"
  by (simp add: answers_def)

lemma answers_guardA [simp]: "answers (guardA b e) (if b then Inl e else Inr ())"
  by (simp add: answers_def)

lemma answers_bindA:
  assumes "answers m r" "\<And>x. r = Inr x \<Longrightarrow> answers (f x) (g x)"
  shows "answers (bindA m f) (bindR r g)"
  unfolding answers_def
proof
  fix w
  obtain r' w' where m: "m w = (r', w')" by (cases "m w")
  with assms(1) have r': "r' = r" by (auto simp: answers_def dest: spec [of _ w])
  show "fst (bindA m f w) = bindR r g"
    using assms(2) m r' by (cases r) (auto simp: answers_def)
qed

lemma answers_bindA_Inr:
  "answers m (Inr x) \<Longrightarrow> answers (f x) r \<Longrightarrow> answers (bindA m f) r"
  using answers_bindA [of m "Inr x" f "\<lambda>_. r"] by simp

lemma answers_bindA_Inl: "answers m (Inl e) \<Longrightarrow> answers (bindA m f) (Inl e)"
  using answers_bindA [of m "Inl e" f "\<lambda>_. Inl e"] by simp

lemma answers_map_errA: "answers m r \<Longrightarrow> answers (map_errA g m) (map_errR g r)"
  by (simp add: answers_def map_errA_def split_def)

lemma answers_mapA:
  "(\<And>x. x \<in> set xs \<Longrightarrow> answers (f x) (g x)) \<Longrightarrow> answers (mapA f xs) (mapR g xs)"
  by (induction xs) (auto intro!: answers_bindA)

lemma answers_foldA:
  "(\<And>s x. x \<in> set xs \<Longrightarrow> answers (f s x) (g s x)) \<Longrightarrow> answers (foldA f s xs) (foldR g s xs)"
  by (induction xs arbitrary: s) (auto intro!: answers_bindA)

lemma answers_unique: "answers m r \<Longrightarrow> answers m r' \<Longrightarrow> r = r'"
  by (auto simp: answers_def)

text \<open>
  Actions that succeed in every world with a value that satisfies a predicate; the value may depend on
  the world (timings, counters).
\<close>

definition yields :: "('w, 'e, 'a) act \<Rightarrow> ('a \<Rightarrow> bool) \<Rightarrow> bool" where
  "yields m P \<longleftrightarrow> (\<forall>w. \<exists>x w'. m w = (Inr x, w') \<and> P x)"

lemma yields_retA [simp]: "yields (retA x) P \<longleftrightarrow> P x"
  by (simp add: yields_def)

lemma yields_Pair [simp]: "yields (Pair (Inr x)) P \<longleftrightarrow> P x"
  by (simp add: yields_def)

lemma yields_liftR [simp]: "yields (liftR r) P \<longleftrightarrow> (\<exists>x. r = Inr x \<and> P x)"
  by (auto simp: yields_def)

lemma yields_bindA:
  assumes "yields m P" "\<And>x. P x \<Longrightarrow> yields (f x) Q"
  shows "yields (bindA m f) Q"
  unfolding yields_def
proof
  fix w
  from assms(1) obtain x w' where "m w = (Inr x, w')" "P x" unfolding yields_def by blast
  moreover from assms(2) [OF \<open>P x\<close>] obtain y w'' where "f x w' = (Inr y, w'')" "Q y" unfolding yields_def by blast
  ultimately show "\<exists>y w''. bindA m f w = (Inr y, w'') \<and> Q y" by auto
qed

lemma yields_mono: "yields m P \<Longrightarrow> (\<And>x. P x \<Longrightarrow> Q x) \<Longrightarrow> yields m Q"
  unfolding yields_def by blast

lemma yields_foldA:
  assumes "I s []" "\<And>s ys x zs. xs = ys @ x # zs \<Longrightarrow> I s ys \<Longrightarrow> yields (f s x) (\<lambda>s'. I s' (ys @ [x]))"
  shows "yields (foldA f s xs) (\<lambda>s'. I s' xs)"
proof -
  have "yields (foldA f s zs) (\<lambda>s'. I s' (ys @ zs))" if "xs = ys @ zs" "I s ys" for s ys zs
    using that
  proof (induction zs arbitrary: s ys)
    case (Cons x zs)
    have "yields (foldA f s' zs) (\<lambda>s'. I s' (ys @ x # zs))" if "I s' (ys @ [x])" for s'
      using Cons.IH [of "ys @ [x]" s'] Cons.prems(1) that by simp
    then show ?case using yields_bindA [OF assms(2) [OF Cons.prems], of "\<lambda>s'. foldA f s' zs"] by simp
  qed simp
  from this [of "[]" xs s] assms(1) show ?thesis by simp
qed

lemma answers_yields: "answers m (Inr x) \<Longrightarrow> yields m ((=) x)"
  unfolding answers_def yields_def by (metis prod.collapse)

end
