(* ===== verification/Rpc.thy ===== *)
theory Rpc
  imports Effects
begin

text \<open>
  The log queries of \<^verbatim>\<open>offchain-rust/src/rpc.rs\<close>: strict parsing of provider logs, canonical filters,
  the block-receipt fallback and \<^verbatim>\<open>get_logs_chunked\<close>, which splits a range into chunks and bisects a
  chunk whenever the provider may have truncated its answer.  The provider, its transport
  counter and the clock are parameters (the record \<open>rpc\<close>); the lemmas show that a
  successful query is complete, in order and free of duplicates.
\<close>

section \<open>Errors, metrics and the provider interface\<close>

text \<open>
  \<^verbatim>\<open>RpcPanic\<close> is not a value of the Rust enum: it stands for a panic, which unwinds the caller
  like an error.
\<close>

datatype rpc_error =
    UnsupportedBatch
  | InvalidBatch
  | InvalidEndpoint
  | UnsupportedScheme
  | UntrustedDrpcEndpoint
  | InvalidTimeout nat
  | InvalidRetryPolicy
  | InvalidResponseLimit nat
  | InvalidDrpcKey
  | Transport string string
  | HttpStatus string nat
  | InvalidResponse string string
  | ResponseTooLarge string nat
  | JsonRpc int string
  | InvalidLog string
  | LogCompleteness nat nat u64
  | InvalidLogPolicy
  | LogBudgetExceeded string
  | RpcPanic string

record rpc_metrics =
  logical_requests :: u64
  transport_attempts :: u64
  transport_responses :: u64
  transport_retries :: u64

record log_metrics =
  lm_requests :: u64
  lm_bisections :: u64
  lm_errors :: u64
  lm_elapsed_ms :: u64

definition default_log_metrics :: log_metrics where
  "default_log_metrics = \<lparr>lm_requests = 0, lm_bisections = 0, lm_errors = 0, lm_elapsed_ms = 0\<rparr>"

text \<open>The trait \<^verbatim>\<open>Rpc\<close> together with the clock the log queries read.\<close>

record 'w rpc =
  rpc_request :: "string \<Rightarrow> json \<Rightarrow> ('w, rpc_error, json) act"
  rpc_batch_request :: "string \<Rightarrow> json list \<Rightarrow> ('w, rpc_error, json list) act"
  rpc_metrics_of :: "'w \<Rightarrow> rpc_metrics"
  rpc_clock_ms :: "'w \<Rightarrow> nat"

definition MAX_INITIAL_LOG_RANGE :: nat where "MAX_INITIAL_LOG_RANGE = 5000"
definition MAX_LOG_REQUESTS_PER_CHUNK :: nat where "MAX_LOG_REQUESTS_PER_CHUNK = 4096"
definition MAX_LOG_BISECTIONS_PER_CHUNK :: nat where "MAX_LOG_BISECTIONS_PER_CHUNK = 2048"
definition MAX_RPC_RETRIES :: nat where "MAX_RPC_RETRIES = 8"
definition MAX_LOG_TRANSPORT_ATTEMPTS_PER_CHUNK :: nat where
  "MAX_LOG_TRANSPORT_ATTEMPTS_PER_CHUNK = MAX_LOG_REQUESTS_PER_CHUNK * (MAX_RPC_RETRIES + 1)"
definition MAX_LOG_CHUNK_DURATION_MS :: nat where "MAX_LOG_CHUNK_DURATION_MS = 300000"
definition MAX_TOPIC_OPTIONS :: nat where "MAX_TOPIC_OPTIONS = 64"
definition MAX_LOG_RESULT_CAP :: nat where "MAX_LOG_RESULT_CAP = 1000"

section \<open>Logs and filters\<close>

record rpc_log =
  log_address :: string
  log_topics :: "string list"
  log_data :: string
  log_block_number :: u64
  log_transaction_hash :: string
  log_log_index :: u64

record log_filter =
  lf_address :: string
  lf_topics :: "json list"

definition hex_quantity :: "string \<Rightarrow> json \<Rightarrow> (rpc_error, u64) result" where
  "hex_quantity field value =
     bindR (ok_or (InvalidLog (''missing '' @ field))
       (case as_str value of None \<Rightarrow> None
        | Some t \<Rightarrow> (case strip_prefix ''0x'' t of None \<Rightarrow> None
                    | Some t' \<Rightarrow> if t' = [] then None else Some t'))) (\<lambda>text.
     ok_or (InvalidLog (''invalid '' @ field)) (u64_from_str_radix16 text))"

definition exact_hex :: "string \<Rightarrow> json \<Rightarrow> nat \<Rightarrow> (rpc_error, string) result" where
  "exact_hex field value n =
     bindR (ok_or (InvalidLog (''missing '' @ field)) (as_str value)) (\<lambda>text.
     bindR (ok_or (InvalidLog (''invalid '' @ field))
       (case strip_prefix ''0x'' text of None \<Rightarrow> None
        | Some raw \<Rightarrow> if length raw = saturating_mul64 n 2 then Some raw else None)) (\<lambda>raw.
     bindR (ok_or (InvalidLog (''invalid '' @ field)) (hex_decode raw)) (\<lambda>_.
       Ok (to_ascii_lowercase text))))"

definition indexed :: "string \<Rightarrow> nat \<Rightarrow> string" where
  "indexed name i = name @ ''['' @ show_nat i @ '']''"

definition canonical_topic_filter :: "json \<Rightarrow> nat \<Rightarrow> (rpc_error, json) result" where
  "canonical_topic_filter value index =
     (let name = indexed ''filter topics'' index in
      case value of
        JNull \<Rightarrow> Ok JNull
      | JStr _ \<Rightarrow> bindR (exact_hex name value 32) (\<lambda>s. Ok (JStr s))
      | JArr options \<Rightarrow>
          if options \<noteq> [] \<and> length options \<le> MAX_TOPIC_OPTIONS
          then bindR (mapR (\<lambda>(i, v). bindR (exact_hex (indexed name i) v 32) (\<lambda>s. Ok (JStr s)))
                        (enumerate 0 options)) (\<lambda>vs. Ok (JArr vs))
          else Err (InvalidLog (''invalid '' @ name))
      | _ \<Rightarrow> Err (InvalidLog (''invalid '' @ name)))"

definition canonical_filter :: "log_filter \<Rightarrow> (rpc_error, log_filter) result" where
  "canonical_filter f =
     (if length (lf_topics f) > 4 then Err (InvalidLog ''filter has more than four topics'')
      else bindR (exact_hex ''filter address'' (JStr (lf_address f)) 20) (\<lambda>a.
           bindR (mapR (\<lambda>(i, t). canonical_topic_filter t i) (enumerate 0 (lf_topics f))) (\<lambda>ts.
             Ok \<lparr>lf_address = a, lf_topics = ts\<rparr>)))"

fun topic_matches :: "json \<Rightarrow> string \<Rightarrow> bool" where
  "topic_matches JNull topic = True"
| "topic_matches (JStr e) topic = (e = topic)"
| "topic_matches (JArr options) topic = list_ex (\<lambda>e. as_str e = Some topic) options"
| "topic_matches _ topic = False"

definition log_matches_filter :: "rpc_log \<Rightarrow> log_filter \<Rightarrow> bool" where
  "log_matches_filter log f \<longleftrightarrow>
     list_all (\<lambda>(i, e). i < length (log_topics log) \<and> topic_matches e (log_topics log ! i))
       (enumerate 0 (lf_topics f))"

definition parse_log :: "json \<Rightarrow> (rpc_error, rpc_log) result" where
  "parse_log value =
     bindR (case (case json_get value ''removed'' of None \<Rightarrow> None | Some v \<Rightarrow> as_bool v) of
              Some False \<Rightarrow> Ok ()
            | Some True \<Rightarrow> Err (InvalidLog ''removed log returned for pinned range'')
            | None \<Rightarrow> Err (InvalidLog ''missing removed flag'')) (\<lambda>_.
     bindR (exact_hex ''address'' (json_index value ''address'') 20) (\<lambda>address.
     bindR (ok_or (InvalidLog ''missing topics'') (as_array (json_index value ''topics''))) (\<lambda>topic_values.
     if length topic_values > 4 then Err (InvalidLog ''log has more than four topics'')
     else bindR (mapR (\<lambda>(i, t). exact_hex (indexed ''topics'' i) t 32) (enumerate 0 topic_values)) (\<lambda>topics.
     bindR (ok_or (InvalidLog ''invalid data'')
       (case as_str (json_index value ''data'') of None \<Rightarrow> None
        | Some d \<Rightarrow> (case strip_prefix ''0x'' d of None \<Rightarrow> None
                    | Some raw \<Rightarrow> if even (length raw) \<and> hex_decode raw \<noteq> None then Some d else None))) (\<lambda>data.
     bindR (hex_quantity ''blockNumber'' (json_index value ''blockNumber'')) (\<lambda>block_number.
     bindR (exact_hex ''transactionHash'' (json_index value ''transactionHash'') 32) (\<lambda>tx.
     bindR (hex_quantity ''logIndex'' (json_index value ''logIndex'')) (\<lambda>log_index.
       Ok \<lparr>log_address = address, log_topics = topics, log_data = to_ascii_lowercase data,
           log_block_number = block_number, log_transaction_hash = tx, log_log_index = log_index\<rparr>))))))))"

section \<open>Fetching\<close>

definition log_request :: "log_filter \<Rightarrow> u64 \<Rightarrow> u64 \<Rightarrow> json" where
  "log_request f from_b to_b =
     JArr [JObj ([(''address'', JStr (lf_address f)), (''fromBlock'', JStr (hex_tag from_b)),
                  (''toBlock'', JStr (hex_tag to_b))]
                 @ (if lf_topics f = [] then [] else [(''topics'', JArr (lf_topics f))]))]"

definition check_log :: "log_filter \<Rightarrow> u64 \<Rightarrow> u64 \<Rightarrow> json \<Rightarrow> (rpc_error, rpc_log) result" where
  "check_log f from_b to_b value =
     bindR (parse_log value) (\<lambda>log.
       if log_block_number log < from_b \<or> log_block_number log > to_b
       then Err (InvalidLog (''log at block '' @ show_nat (log_block_number log) @ '' is outside requested range ''
              @ show_nat from_b @ ''..='' @ show_nat to_b))
       else if log_address log \<noteq> lf_address f then Err (InvalidLog ''log does not match requested address'')
       else if \<not> log_matches_filter log f then Err (InvalidLog ''log does not match requested topics'')
       else Ok log)"

definition fetch_logs ::
  "('w, 'z) rpc_scheme \<Rightarrow> log_filter \<Rightarrow> u64 \<Rightarrow> u64 \<Rightarrow> ('w, rpc_error, rpc_log list) act" where
  "fetch_logs rpc f from_b to_b =
     bindA (rpc_request rpc ''eth_getLogs'' (log_request f from_b to_b)) (\<lambda>result.
       case result of
         JArr values \<Rightarrow> liftR (mapR (check_log f from_b to_b) values)
       | _ \<Rightarrow> failA (InvalidResponse ''eth_getLogs'' ''result is not an array''))"

text \<open>Indexing a \<^verbatim>\<open>serde_json::Map\<close> (not a \<^verbatim>\<open>Value\<close>) with an absent key panics.\<close>

definition map_index :: "(string \<times> json) list \<Rightarrow> string \<Rightarrow> (rpc_error, json) result" where
  "map_index kvs k = ok_or (RpcPanic ''no entry found for key'') (map_of kvs k)"

definition receipt_log ::
  "log_filter \<Rightarrow> u64 \<Rightarrow> string \<Rightarrow> string \<Rightarrow> rpc_log list \<Rightarrow> json \<Rightarrow> (rpc_error, rpc_log list) result" where
  "receipt_log f block block_hash tx output value =
     bindR (exact_hex ''log blockHash'' (json_index value ''blockHash'') 32) (\<lambda>h.
     if h \<noteq> block_hash then Err (InvalidLog ''receipt log block hash mismatch'')
     else bindR (parse_log value) (\<lambda>log.
       if log_block_number log \<noteq> block \<or> log_transaction_hash log \<noteq> tx
       then Err (InvalidLog ''receipt log position does not match its receipt'')
       else Ok (if log_address log = lf_address f \<and> log_matches_filter log f then output @ [log] else output)))"

text \<open>The four comparisons are evaluated left to right and stop at the first that differs.\<close>

definition receipt_matches :: "u64 \<Rightarrow> string \<Rightarrow> nat \<Rightarrow> string \<Rightarrow> json \<Rightarrow> (rpc_error, bool) result" where
  "receipt_matches block block_hash index tx receipt =
     bindR (hex_quantity ''receipt blockNumber'' (json_index receipt ''blockNumber'')) (\<lambda>n.
     if n \<noteq> block then Ok False
     else bindR (exact_hex ''receipt blockHash'' (json_index receipt ''blockHash'') 32) (\<lambda>h.
     if h \<noteq> block_hash then Ok False
     else bindR (hex_quantity ''receipt transactionIndex'' (json_index receipt ''transactionIndex'')) (\<lambda>i.
     if i \<noteq> index then Ok False
     else bindR (exact_hex ''receipt transactionHash'' (json_index receipt ''transactionHash'') 32) (\<lambda>t.
       Ok (t = tx)))))"

definition receipt_step ::
  "log_filter \<Rightarrow> u64 \<Rightarrow> string \<Rightarrow> string list \<Rightarrow> rpc_log list \<Rightarrow> nat \<times> json \<Rightarrow> (rpc_error, rpc_log list) result" where
  "receipt_step f block block_hash txs output indexed_receipt =
     (let (index, receipt) = indexed_receipt; tx = txs ! index in
      bindR (receipt_matches block block_hash index tx receipt) (\<lambda>same.
      if \<not> same then Err (InvalidLog ''receipt does not match the requested canonical block'')
      else bindR (ok_or (InvalidResponse ''eth_getBlockReceipts'' ''receipt logs is not an array'')
                   (as_array (json_index receipt ''logs''))) (\<lambda>values.
        foldR (receipt_log f block block_hash tx) output values)))"

definition block_transactions :: "u64 \<Rightarrow> json \<Rightarrow> (rpc_error, string \<times> string list) result" where
  "block_transactions block block_value =
     (case block_value of
        JObj obj \<Rightarrow>
          bindR (map_index obj ''number'') (\<lambda>number_value.
          bindR (hex_quantity ''block number'' number_value) (\<lambda>number.
          if number \<noteq> block then Err (InvalidLog ''block response does not match requested number'')
          else bindR (map_index obj ''hash'') (\<lambda>hash_value.
          bindR (exact_hex ''block hash'' hash_value 32) (\<lambda>block_hash.
          bindR (map_index obj ''transactions'') (\<lambda>transactions_value.
          bindR (ok_or (InvalidResponse ''eth_getBlockByNumber'' ''transactions is not an array'')
                   (as_array transactions_value)) (\<lambda>values.
          bindR (mapR (\<lambda>(i, h). exact_hex (indexed ''transactions'' i) h 32) (enumerate 0 values)) (\<lambda>txs.
          if \<not> distinct txs then Err (InvalidLog ''block contains duplicate transaction hashes'')
          else Ok (block_hash, txs))))))))
      | _ \<Rightarrow> Err (InvalidResponse ''eth_getBlockByNumber'' ''result is not an object''))"

definition fetch_block_receipt_logs ::
  "('w, 'z) rpc_scheme \<Rightarrow> log_filter \<Rightarrow> u64 \<Rightarrow> ('w, rpc_error, rpc_log list) act" where
  "fetch_block_receipt_logs rpc f block =
     bindA (rpc_request rpc ''eth_getBlockByNumber'' (JArr [JStr (hex_tag block), JBool False])) (\<lambda>block_value.
     bindA (liftR (block_transactions block block_value)) (\<lambda>(block_hash, txs).
     bindA (rpc_request rpc ''eth_getBlockReceipts'' (JArr [JStr (hex_tag block)])) (\<lambda>receipts_value.
     bindA (liftR (ok_or (InvalidResponse ''eth_getBlockReceipts'' ''result is not an array'')
              (as_array receipts_value))) (\<lambda>receipts.
     if length receipts \<noteq> length txs
     then failA (InvalidLog (''receipt count '' @ show_nat (length receipts)
            @ '' does not match block transaction count '' @ show_nat (length txs)))
     else liftR (foldR (receipt_step f block block_hash txs) [] (enumerate 0 receipts))))))"

definition contains :: "string \<Rightarrow> string \<Rightarrow> bool" where
  "contains text needle \<longleftrightarrow> list_ex (\<lambda>i. take (length needle) (drop i text) = needle) [0..<Suc (length text)]"

definition range_needles :: "string list" where
  "range_needles = [''block range'', ''range too large'', ''range is too large'', ''range too wide'',
     ''range is too wide'', ''too many results'', ''result size'', ''results size'', ''result set size'',
     ''result limit'', ''results limit'', ''response size'', ''response too large'']"

definition range_limited :: "rpc_error \<Rightarrow> bool" where
  "range_limited e =
     (case e of
        ResponseTooLarge _ _ \<Rightarrow> True
      | JsonRpc _ message \<Rightarrow> list_ex (contains (to_ascii_lowercase message)) range_needles
      | _ \<Rightarrow> False)"

section \<open>Chunked log queries\<close>

record log_loop_state =
  ls_output :: "rpc_log list"
  ls_metrics :: log_metrics
  ls_bisections :: nat

definition deadline_left :: "('w, 'z) rpc_scheme \<Rightarrow> nat \<Rightarrow> ('w, rpc_error, nat) act" where
  "deadline_left rpc started =
     bindA (getsA (rpc_clock_ms rpc)) (\<lambda>now.
       if now - started > MAX_LOG_CHUNK_DURATION_MS then failA (LogBudgetExceeded ''deadline'')
       else retA (MAX_LOG_CHUNK_DURATION_MS - (now - started)))"

text \<open>\<^verbatim>\<open>tokio::time::timeout\<close>: the outcome of the future, or the deadline error when it took longer.\<close>

definition timeoutA ::
  "('w, 'z) rpc_scheme \<Rightarrow> nat \<Rightarrow> ('w, rpc_error, 'a) act \<Rightarrow> ('w, rpc_error, rpc_error + 'a) act" where
  "timeoutA rpc remaining m =
     bindA (getsA (rpc_clock_ms rpc)) (\<lambda>began.
     bindA (tryA m) (\<lambda>r.
     bindA (getsA (rpc_clock_ms rpc)) (\<lambda>now.
       if now - began > remaining then failA (LogBudgetExceeded ''deadline'') else retA r)))"

definition attempts_used :: "('w, 'z) rpc_scheme \<Rightarrow> u64 \<Rightarrow> 'w \<Rightarrow> u64" where
  "attempts_used rpc started w = transport_attempts (rpc_metrics_of rpc w) - started"

definition count_requests :: "nat \<Rightarrow> log_loop_state \<Rightarrow> log_loop_state" where
  "count_requests n st = st\<lparr>ls_metrics := (ls_metrics st)\<lparr>lm_requests := lm_requests (ls_metrics st) + n\<rparr>\<rparr>"

definition count_error :: "log_loop_state \<Rightarrow> log_loop_state" where
  "count_error st = st\<lparr>ls_metrics := (ls_metrics st)\<lparr>lm_errors := lm_errors (ls_metrics st) + 1\<rparr>\<rparr>"

definition count_bisection :: "log_loop_state \<Rightarrow> log_loop_state" where
  "count_bisection st = st\<lparr>ls_bisections := ls_bisections st + 1,
     ls_metrics := (ls_metrics st)\<lparr>lm_bisections := lm_bisections (ls_metrics st) + 1\<rparr>\<rparr>"

definition add_logs :: "rpc_log list \<Rightarrow> log_loop_state \<Rightarrow> log_loop_state" where
  "add_logs logs st = st\<lparr>ls_output := ls_output st @ logs\<rparr>"

text \<open>The receipt fallback for a single block, shared by the two places that use it.\<close>

definition receipts_in_time ::
  "('w, 'z) rpc_scheme \<Rightarrow> log_filter \<Rightarrow> nat \<Rightarrow> u64 \<Rightarrow> ('w, rpc_error, rpc_log list) act" where
  "receipts_in_time rpc f started block =
     bindA (deadline_left rpc started) (\<lambda>remaining.
     bindA (timeoutA rpc remaining (fetch_block_receipt_logs rpc f block)) liftR)"

text \<open>
  The ways an iteration of the loop over \<^verbatim>\<open>pending\<close> can go on after its fetch.  \<open>left\<close> is
  \<^verbatim>\<open>MAX_LOG_REQUESTS_PER_CHUNK - chunk_requests\<close> after the iteration's own request.  The result names the
  additional requests spent, the ranges pushed (top of the stack first) and the new state.
\<close>

type_synonym log_step_result = "nat \<times> (u64 \<times> u64) list \<times> log_loop_state"

definition log_by_receipts ::
  "('w, 'z) rpc_scheme \<Rightarrow> log_filter \<Rightarrow> nat \<Rightarrow> u64 \<Rightarrow> nat \<Rightarrow> bool \<Rightarrow> u64 \<Rightarrow> log_loop_state
    \<Rightarrow> ('w, rpc_error, log_step_result) act" where
  "log_by_receipts rpc f started attempts left recheck block st =
     (if left < 2 then failA (LogBudgetExceeded ''logical-request'')
      else bindA (receipts_in_time rpc f started block) (\<lambda>logs.
           bindA (getsA (attempts_used rpc attempts)) (\<lambda>used.
           bindA (guardA (recheck \<and> used > MAX_LOG_TRANSPORT_ATTEMPTS_PER_CHUNK)
                    (LogBudgetExceeded ''transport-attempt'')) (\<lambda>_.
             retA (2, [], add_logs logs (count_requests 2 st))))))"

definition log_bisect :: "u64 \<Rightarrow> u64 \<Rightarrow> log_loop_state \<Rightarrow> ('w, rpc_error, log_step_result) act" where
  "log_bisect from_b to_b st =
     (if ls_bisections st \<ge> MAX_LOG_BISECTIONS_PER_CHUNK then failA (LogBudgetExceeded ''bisection'')
      else let middle = from_b + (to_b - from_b) div 2
           in retA (0, [(from_b, middle), (middle + 1, to_b)], count_bisection st))"

definition log_decide ::
  "('w, 'z) rpc_scheme \<Rightarrow> log_filter \<Rightarrow> nat \<Rightarrow> nat \<Rightarrow> u64 \<Rightarrow> nat \<Rightarrow> u64 \<Rightarrow> u64 \<Rightarrow> log_loop_state
    \<Rightarrow> rpc_error + rpc_log list \<Rightarrow> ('w, rpc_error, log_step_result) act" where
  "log_decide rpc f cap started attempts left from_b to_b st fetched =
     (case fetched of
        Inl error \<Rightarrow>
          if range_limited error \<and> from_b = to_b
          then log_by_receipts rpc f started attempts left False from_b (count_error st)
          else if range_limited error \<and> from_b < to_b then log_bisect from_b to_b (count_error st)
          else failA error
      | Inr logs \<Rightarrow>
          if length logs \<ge> cap
          then (if from_b = to_b then log_by_receipts rpc f started attempts left True from_b st
                else log_bisect from_b to_b st)
          else retA (0, [], add_logs logs st))"

definition log_step ::
  "('w, 'z) rpc_scheme \<Rightarrow> log_filter \<Rightarrow> nat \<Rightarrow> nat \<Rightarrow> u64 \<Rightarrow> nat \<Rightarrow> u64 \<times> u64 \<Rightarrow> log_loop_state
    \<Rightarrow> ('w, rpc_error, log_step_result) act" where
  "log_step rpc f cap started attempts left bounds st =
     (let (from_b, to_b) = bounds in
      bindA (deadline_left rpc started) (\<lambda>remaining.
      bindA (getsA (attempts_used rpc attempts)) (\<lambda>used.
      bindA (guardA (used \<ge> MAX_LOG_TRANSPORT_ATTEMPTS_PER_CHUNK) (LogBudgetExceeded ''transport-attempt'')) (\<lambda>_.
      bindA (timeoutA rpc remaining (fetch_logs rpc f from_b to_b)) (\<lambda>fetched.
      bindA (getsA (attempts_used rpc attempts)) (\<lambda>used.
      bindA (guardA (used > MAX_LOG_TRANSPORT_ATTEMPTS_PER_CHUNK) (LogBudgetExceeded ''transport-attempt'')) (\<lambda>_.
        log_decide rpc f cap started attempts left from_b to_b (count_requests 1 st) fetched)))))))"

fun log_loop ::
  "('w, 'z) rpc_scheme \<Rightarrow> log_filter \<Rightarrow> nat \<Rightarrow> nat \<Rightarrow> u64 \<Rightarrow> nat \<Rightarrow> (u64 \<times> u64) list \<Rightarrow> log_loop_state
    \<Rightarrow> ('w, rpc_error, log_loop_state) act" where
  "log_loop rpc f cap started attempts budget [] st = retA st"
| "log_loop rpc f cap started attempts 0 (_ # _) st = failA (LogBudgetExceeded ''logical-request'')"
| "log_loop rpc f cap started attempts (Suc left) (bounds # pending) st =
     bindA (log_step rpc f cap started attempts left bounds st) (\<lambda>(extra, pushed, st').
       log_loop rpc f cap started attempts (left - extra) (pushed @ pending) st')"

text \<open>The chunk boundaries; the loop stops early at the largest block number.\<close>

function chunk_ranges :: "u64 \<Rightarrow> u64 \<Rightarrow> u64 \<Rightarrow> (u64 \<times> u64) list" where
  "chunk_ranges chunk_start to_block max_range =
     (if chunk_start \<le> to_block
      then let chunk_end = min (saturating_add64 chunk_start (max_range - 1)) to_block
           in (chunk_start, chunk_end)
              # (if chunk_end = u64_max then [] else chunk_ranges (chunk_end + 1) to_block max_range)
      else [])"
  by pat_completeness auto
termination
  by (relation "measure (\<lambda>(s, t, _). Suc t - s)") (auto simp: saturating_add64_def min_def split: if_splits)

declare chunk_ranges.simps [simp del]

definition log_chunk ::
  "('w, 'z) rpc_scheme \<Rightarrow> log_filter \<Rightarrow> nat \<Rightarrow> rpc_log list \<times> log_metrics \<Rightarrow> u64 \<times> u64
    \<Rightarrow> ('w, rpc_error, rpc_log list \<times> log_metrics) act" where
  "log_chunk rpc f cap acc bounds =
     bindA (getsA (rpc_clock_ms rpc)) (\<lambda>started.
     bindA (getsA (\<lambda>w. transport_attempts (rpc_metrics_of rpc w))) (\<lambda>attempts.
     bindA (log_loop rpc f cap started attempts MAX_LOG_REQUESTS_PER_CHUNK [bounds]
              \<lparr>ls_output = fst acc, ls_metrics = snd acc, ls_bisections = 0\<rparr>) (\<lambda>st.
       retA (ls_output st, ls_metrics st))))"

definition log_position :: "rpc_log \<Rightarrow> u64 \<times> u64" where
  "log_position log = (log_block_number log, log_log_index log)"

fun check_positions :: "(u64 \<times> u64) set \<Rightarrow> rpc_log list \<Rightarrow> (rpc_error, unit) result" where
  "check_positions seen [] = Ok ()"
| "check_positions seen (log # logs) =
     (if log_position log \<in> seen
      then Err (InvalidLog (''duplicate log position '' @ show_nat (log_block_number log) @ '':'' @ show_nat (log_log_index log)))
      else check_positions (insert (log_position log) seen) logs)"

definition get_logs_chunked ::
  "('w, 'z) rpc_scheme \<Rightarrow> log_filter \<Rightarrow> u64 \<Rightarrow> u64 \<Rightarrow> u64 \<Rightarrow> nat
    \<Rightarrow> ('w, rpc_error, rpc_log list \<times> log_metrics) act" where
  "get_logs_chunked rpc f0 from_block to_block max_range result_cap =
     (if max_range = 0 \<or> max_range > MAX_INITIAL_LOG_RANGE \<or> result_cap = 0 \<or> result_cap > MAX_LOG_RESULT_CAP
      then failA InvalidLogPolicy
      else bindA (liftR (canonical_filter f0)) (\<lambda>f.
        if from_block > to_block then retA ([], default_log_metrics)
        else bindA (getsA (rpc_clock_ms rpc)) (\<lambda>started.
        bindA (foldA (log_chunk rpc f result_cap) ([], default_log_metrics)
                 (chunk_ranges from_block to_block max_range)) (\<lambda>(output, metrics).
        let sorted = sort_key log_position output in
        bindA (liftR (check_positions {} sorted)) (\<lambda>_.
        bindA (getsA (rpc_clock_ms rpc)) (\<lambda>now.
          retA (sorted, metrics\<lparr>lm_elapsed_ms := min (now - started) u64_max\<rparr>)))))))"

section \<open>Completeness of a successful query\<close>

definition logs_in :: "rpc_log list \<Rightarrow> u64 \<Rightarrow> u64 \<Rightarrow> rpc_log list" where
  "logs_in truth a b = filter (\<lambda>l. a \<le> log_block_number l \<and> log_block_number l \<le> b) truth"

definition receipt_values :: "json \<Rightarrow> json list" where
  "receipt_values r = (case as_array (json_index r ''logs'') of Some vs \<Rightarrow> vs | None \<Rightarrow> [])"

definition selects :: "log_filter \<Rightarrow> rpc_log \<Rightarrow> bool" where
  "selects f l \<longleftrightarrow> log_address l = lf_address f \<and> log_matches_filter l f"

text \<open>
  The documented contract of the provider for a filter whose matching logs are \<open>truth\<close>: an
  \<^verbatim>\<open>eth_getLogs\<close> answer below the provider's result cap is complete for its range, and the receipts of a block
  carry all logs of the block.  An answer at or above the cap may be truncated, and any request
  may fail.
\<close>

definition complete_provider :: "('w, 'z) rpc_scheme \<Rightarrow> log_filter \<Rightarrow> nat \<Rightarrow> rpc_log list \<Rightarrow> bool" where
  "complete_provider rpc f cap truth \<longleftrightarrow>
     (\<forall>a b w w' vs logs. rpc_request rpc ''eth_getLogs'' (log_request f a b) w = (Inr (JArr vs), w') \<longrightarrow>
        length vs < cap \<longrightarrow> mapR parse_log vs = Ok logs \<longrightarrow> mset logs = mset (logs_in truth a b)) \<and>
     (\<forall>b w w' rs logs. rpc_request rpc ''eth_getBlockReceipts'' (JArr [JStr (hex_tag b)]) w = (Inr (JArr rs), w') \<longrightarrow>
        mapR parse_log (concat (map receipt_values rs)) = Ok logs \<longrightarrow>
        mset (filter (selects f) logs) = mset (logs_in truth b b))"

lemma check_log_parse: "check_log f a b v = Ok l \<Longrightarrow> parse_log v = Ok l \<and> a \<le> log_block_number l \<and> log_block_number l \<le> b \<and> selects f l"
  by (auto simp: check_log_def selects_def split: if_splits)

lemma mapR_weaken:
  "mapR f xs = Ok ys \<Longrightarrow> (\<And>x y. x \<in> set xs \<Longrightarrow> f x = Ok y \<Longrightarrow> g x = Ok y) \<Longrightarrow> mapR g xs = Ok ys"
  by (induction xs arbitrary: ys) auto

lemma mapR_append: "mapR f (xs @ ys) = bindR (mapR f xs) (\<lambda>as. bindR (mapR f ys) (\<lambda>bs. Ok (as @ bs)))"
  by (induction xs) (auto simp: bindR_def split: sum.splits)

lemma fetch_logs_Ok:
  assumes "fetch_logs rpc f a b w = (Inr logs, w')"
  obtains vs where "rpc_request rpc ''eth_getLogs'' (log_request f a b) w = (Inr (JArr vs), w')"
    "mapR parse_log vs = Ok logs" "length vs = length logs"
proof -
  from assms obtain vs where vs: "rpc_request rpc ''eth_getLogs'' (log_request f a b) w = (Inr (JArr vs), w')"
    "mapR (check_log f a b) vs = Ok logs"
    by (auto simp: fetch_logs_def split: json.splits)
  have "mapR parse_log vs = Ok logs" using vs(2) by (rule mapR_weaken) (auto dest: check_log_parse)
  with vs that show thesis by (simp add: mapR_length)
qed

lemma receipt_log_Ok:
  assumes "receipt_log f blk h tx out v = Ok out'"
  shows "\<exists>l. parse_log v = Ok l \<and> out' = out @ filter (selects f) [l]"
proof -
  from assms obtain l where "parse_log v = Ok l" "out' = (if selects f l then out @ [l] else out)"
    by (auto simp: receipt_log_def selects_def split: if_splits)
  then show ?thesis by auto
qed

lemma receipt_logs_Ok:
  "foldR (receipt_log f blk h tx) out vs = Ok out' \<Longrightarrow>
     \<exists>logs. mapR parse_log vs = Ok logs \<and> out' = out @ filter (selects f) logs"
proof (induction vs arbitrary: out)
  case (Cons v vs)
  then obtain o1 where o1: "receipt_log f blk h tx out v = Ok o1" "foldR (receipt_log f blk h tx) o1 vs = Ok out'" by auto
  from receipt_log_Ok [OF o1(1)] Cons.IH [OF o1(2)] show ?case by auto
qed simp

lemma receipt_steps_Ok:
  "foldR (receipt_step f blk h txs) out (enumerate n rs) = Ok out' \<Longrightarrow>
     \<exists>logs. mapR parse_log (concat (map receipt_values rs)) = Ok logs \<and> out' = out @ filter (selects f) logs"
proof (induction rs arbitrary: out n)
  case (Cons r rs)
  then obtain o1 where o1: "receipt_step f blk h txs out (n, r) = Ok o1"
    "foldR (receipt_step f blk h txs) o1 (enumerate (Suc n) rs) = Ok out'" by auto
  from o1(1) obtain vs where "as_array (json_index r ''logs'') = Some vs"
    "foldR (receipt_log f blk h (txs ! n)) out vs = Ok o1"
    by (auto simp: receipt_step_def Let_def split: if_splits)
  then obtain l1 where "mapR parse_log (receipt_values r) = Ok l1" "o1 = out @ filter (selects f) l1"
    using receipt_logs_Ok by (fastforce simp: receipt_values_def)
  with Cons.IH [OF o1(2)] show ?case by (auto simp: mapR_append)
qed simp

lemma fetch_block_receipt_logs_Ok:
  assumes "fetch_block_receipt_logs rpc f b w = (Inr logs, w')"
  obtains w0 w0' rs ls where
    "rpc_request rpc ''eth_getBlockReceipts'' (JArr [JStr (hex_tag b)]) w0 = (Inr (JArr rs), w0')"
    "mapR parse_log (concat (map receipt_values rs)) = Ok ls" "logs = filter (selects f) ls"
proof -
  from assms obtain w0 w0' v rs h txs where
    v: "rpc_request rpc ''eth_getBlockReceipts'' (JArr [JStr (hex_tag b)]) w0 = (Inr v, w0')"
    "as_array v = Some rs" "foldR (receipt_step f b h txs) [] (enumerate 0 rs) = Ok logs"
    by (fastforce simp: fetch_block_receipt_logs_def split: if_splits prod.splits)
  have "v = JArr rs" using v(2) by (cases v) auto
  with v receipt_steps_Ok [OF v(3)] that show thesis by auto
qed

lemma logs_in_split:
  "a \<le> m \<Longrightarrow> m < b \<Longrightarrow> mset (logs_in truth a b) = mset (logs_in truth a m) + mset (logs_in truth (m + 1) b)"
  unfolding logs_in_def by (induction truth) auto

text \<open>What a successful iteration did.\<close>

inductive log_iteration ::
  "('w, 'z) rpc_scheme \<Rightarrow> log_filter \<Rightarrow> nat \<Rightarrow> u64 \<Rightarrow> u64 \<Rightarrow> (u64 \<times> u64) list \<Rightarrow> rpc_log list \<Rightarrow> bool"
  for rpc f cap a b where
  fetched: "fetch_logs rpc f a b w = (Inr logs, w') \<Longrightarrow> length logs < cap \<Longrightarrow> log_iteration rpc f cap a b [] logs"
| receipts: "fetch_block_receipt_logs rpc f a w = (Inr logs, w') \<Longrightarrow> a = b \<Longrightarrow> log_iteration rpc f cap a b [] logs"
| bisected: "a \<noteq> b \<Longrightarrow> m = a + (b - a) div 2 \<Longrightarrow> log_iteration rpc f cap a b [(a, m), (m + 1, b)] []"

lemma timeoutA_Ok: "timeoutA rpc r m w = (Inr x, w') \<Longrightarrow> m w = (x, w')"
  by (auto simp: timeoutA_def split: if_splits)

lemma receipts_in_time_Ok:
  "receipts_in_time rpc f t b w = (Inr logs, w') \<Longrightarrow> \<exists>w0. fetch_block_receipt_logs rpc f b w0 = (Inr logs, w')"
  by (auto simp: receipts_in_time_def dest!: timeoutA_Ok)

lemma ls_output_simps [simp]:
  "ls_output (count_requests n st) = ls_output st"
  "ls_output (count_error st) = ls_output st"
  "ls_output (count_bisection st) = ls_output st"
  "ls_output (add_logs logs st) = ls_output st @ logs"
  by (simp_all add: count_requests_def count_error_def count_bisection_def add_logs_def)

lemma log_decide_Ok:
  assumes "log_decide rpc f cap t0 a0 left a b st fetched w = (Inr (extra, pushed, st'), w')"
    "fetch_logs rpc f a b w0 = (fetched, w1)"
  shows "\<exists>logs. log_iteration rpc f cap a b pushed logs \<and> ls_output st' = ls_output st @ logs"
proof -
  have by_receipts: "\<exists>logs. log_iteration rpc f cap a b pushed logs \<and> ls_output st' = ls_output s @ logs"
    if "log_by_receipts rpc f t0 a0 left rc a s w = (Inr (extra, pushed, st'), w')" "a = b" for rc s
  proof -
    from that(1) obtain logs w2 where "receipts_in_time rpc f t0 a w = (Inr logs, w2)" "pushed = []"
      "st' = add_logs logs (count_requests 2 s)"
      by (auto simp: log_by_receipts_def split: if_splits)
    moreover from receipts_in_time_Ok [OF this(1)] obtain w3
      where "fetch_block_receipt_logs rpc f a w3 = (Inr logs, w2)" by auto
    ultimately show ?thesis using that(2) by (auto intro: log_iteration.receipts)
  qed
  have bisect: "\<exists>logs. log_iteration rpc f cap a b pushed logs \<and> ls_output st' = ls_output s @ logs"
    if "log_bisect a b s w = (Inr (extra, pushed, st'), w')" "a \<noteq> b" for s
    using that by (auto simp: log_bisect_def Let_def split: if_splits intro!: log_iteration.bisected [where m = "a + (b - a) div 2", simplified])
  show ?thesis
  proof (cases fetched)
    case (Inl e)
    then show ?thesis
      using assms(1) by_receipts [of False "count_error st"] bisect [of "count_error st"]
      by (auto simp: log_decide_def split: if_splits)
  next
    case (Inr logs)
    then show ?thesis
      using assms by_receipts [of True st] bisect [of st]
      by (auto simp: log_decide_def split: if_splits intro!: log_iteration.fetched)
  qed
qed

lemma log_step_Ok:
  assumes "log_step rpc f cap t0 a0 left (a, b) st w = (Inr (extra, pushed, st'), w')"
  shows "\<exists>logs. log_iteration rpc f cap a b pushed logs \<and> ls_output st' = ls_output st @ logs"
proof -
  from assms obtain remaining w1 w2 fetched where
    "timeoutA rpc remaining (fetch_logs rpc f a b) w1 = (Inr fetched, w2)"
    "log_decide rpc f cap t0 a0 left a b (count_requests 1 st) fetched w2 = (Inr (extra, pushed, st'), w')"
    by (auto simp: log_step_def split: if_splits)
  from log_decide_Ok [OF this(2) timeoutA_Ok [OF this(1)]] show ?thesis by simp
qed

definition bounds_logs :: "rpc_log list \<Rightarrow> (u64 \<times> u64) list \<Rightarrow> rpc_log multiset" where
  "bounds_logs truth p = sum_list (map (\<lambda>(a, b). mset (logs_in truth a b)) p)"

lemma bounds_logs_simps [simp]:
  "bounds_logs truth [] = {#}"
  "bounds_logs truth ((a, b) # p) = mset (logs_in truth a b) + bounds_logs truth p"
  "bounds_logs truth (p @ q) = bounds_logs truth p + bounds_logs truth q"
  by (simp_all add: bounds_logs_def)

definition well_ranged :: "(u64 \<times> u64) list \<Rightarrow> bool" where
  "well_ranged p \<longleftrightarrow> (\<forall>(a, b) \<in> set p. a \<le> b)"

lemma log_iteration_complete:
  assumes "log_iteration rpc f cap a b pushed logs" "complete_provider rpc f cap truth" "a \<le> b"
  shows "mset logs + bounds_logs truth pushed = mset (logs_in truth a b)" "well_ranged pushed"
proof -
  from assms(1) have "mset logs + bounds_logs truth pushed = mset (logs_in truth a b) \<and> well_ranged pushed"
  proof cases
    case (fetched w w')
    from fetch_logs_Ok [OF fetched(2)] obtain vs where
      "rpc_request rpc ''eth_getLogs'' (log_request f a b) w = (Inr (JArr vs), w')"
      "mapR parse_log vs = Ok logs" "length vs = length logs" .
    with fetched assms(2) show ?thesis by (auto simp: complete_provider_def well_ranged_def)
  next
    case (receipts w w')
    then obtain w0 w0' rs ls where
      "rpc_request rpc ''eth_getBlockReceipts'' (JArr [JStr (hex_tag a)]) w0 = (Inr (JArr rs), w0')"
      "mapR parse_log (concat (map receipt_values rs)) = Ok ls" "logs = filter (selects f) ls"
      using fetch_block_receipt_logs_Ok by metis
    with receipts assms(2) show ?thesis by (auto simp: complete_provider_def well_ranged_def)
  next
    case (bisected m)
    have "a \<le> m" "m < b" using bisected assms(3) by auto
    with bisected logs_in_split [of a m b truth] show ?thesis by (simp add: well_ranged_def)
  qed
  then show "mset logs + bounds_logs truth pushed = mset (logs_in truth a b)" "well_ranged pushed" by auto
qed

lemma log_loop_complete:
  assumes "complete_provider rpc f cap truth"
  shows "log_loop rpc f cap t0 a0 n p st w = (Inr st', w') \<Longrightarrow> well_ranged p \<Longrightarrow>
    mset (ls_output st') = mset (ls_output st) + bounds_logs truth p"
proof (induction n arbitrary: p st w rule: less_induct)
  case (less n)
  show ?case
  proof (cases p)
    case Nil
    with less.prems show ?thesis by (cases n) auto
  next
    case (Cons ab p')
    obtain a b where ab: "ab = (a, b)" by (cases ab)
    obtain left where n: "n = Suc left" using less.prems Cons by (cases n) auto
    from less.prems(1) obtain extra pushed st1 w1 where
      step: "log_step rpc f cap t0 a0 left (a, b) st w = (Inr (extra, pushed, st1), w1)"
      and rest: "log_loop rpc f cap t0 a0 (left - extra) (pushed @ p') st1 w1 = (Inr st', w')"
      unfolding n Cons ab log_loop.simps by (elim bindA_OkE) (auto split: prod.splits)
    from log_step_Ok [OF step] obtain logs where it: "log_iteration rpc f cap a b pushed logs"
      and out: "ls_output st1 = ls_output st @ logs" by auto
    have ranged: "a \<le> b" "well_ranged p'" using less.prems(2) Cons ab by (auto simp: well_ranged_def)
    note c = log_iteration_complete [OF it assms ranged(1)]
    have wr: "well_ranged (pushed @ p')" using c(2) ranged(2) by (auto simp: well_ranged_def)
    have "left - extra < n" using n by simp
    from less.IH [OF this rest wr] out c(1) show ?thesis unfolding Cons ab bounds_logs_simps mset_append
      by (simp add: ac_simps flip: c(1))
  qed
qed

lemma log_chunks_complete:
  assumes "complete_provider rpc f cap truth"
  shows "foldA (log_chunk rpc f cap) acc rs w = (Inr (out, m), w') \<Longrightarrow> well_ranged rs \<Longrightarrow>
    mset out = mset (fst acc) + bounds_logs truth rs"
proof (induction rs arbitrary: acc w)
  case (Cons r rs)
  then obtain o1 m1 w1 where c: "log_chunk rpc f cap acc r w = (Inr (o1, m1), w1)"
    "foldA (log_chunk rpc f cap) (o1, m1) rs w1 = (Inr (out, m), w')" by fastforce
  from c(1) obtain t0 a0 st w2 where
    "log_loop rpc f cap t0 a0 MAX_LOG_REQUESTS_PER_CHUNK [r] \<lparr>ls_output = fst acc, ls_metrics = snd acc, ls_bisections = 0\<rparr> w
      = (Inr st, w2)" "o1 = ls_output st"
    by (auto simp: log_chunk_def)
  from log_loop_complete [OF assms this(1)] this(2) Cons.prems(2)
  have "mset o1 = mset (fst acc) + bounds_logs truth [r]" by (auto simp: well_ranged_def)
  with Cons.IH [OF c(2)] Cons.prems(2) show ?case by (cases r) (auto simp: well_ranged_def)
qed simp

lemma chunk_ranges_cover:
  assumes "a \<le> Suc b" "b \<le> u64_max"
  shows "bounds_logs truth (chunk_ranges a b k) = mset (logs_in truth a b) \<and> well_ranged (chunk_ranges a b k)"
  using assms
proof (induction a b k rule: chunk_ranges.induct)
  case (1 a b k)
  show ?case
  proof (cases "a \<le> b")
    case False
    then have "logs_in truth a b = []" by (auto simp: logs_in_def filter_empty_conv)
    with False show ?thesis by (simp add: chunk_ranges.simps well_ranged_def)
  next
    case True
    let ?e = "min (saturating_add64 a (k - 1)) b"
    have e: "a \<le> ?e" "?e \<le> b" using True 1(3) by (auto simp: saturating_add64_def)
    show ?thesis
    proof (cases "?e = u64_max")
      case full: True
      with e 1(3) have "b = ?e" by simp
      with True full e show ?thesis by (subst (1 2) chunk_ranges.simps) (simp add: Let_def well_ranged_def)
    next
      case False
      have IH: "bounds_logs truth (chunk_ranges (?e + 1) b k) = mset (logs_in truth (?e + 1) b)
          \<and> well_ranged (chunk_ranges (?e + 1) b k)"
        using 1(1) [OF True refl False] e(2) 1(3) by simp
      have "mset (logs_in truth a b) = mset (logs_in truth a ?e) + mset (logs_in truth (?e + 1) b)"
      proof (cases "?e = b")
        case True
        then have "logs_in truth (?e + 1) b = []" by (auto simp: logs_in_def filter_empty_conv)
        with True show ?thesis by simp
      qed (use e logs_in_split [of a ?e b truth] in simp)
      with IH True False e show ?thesis
        by (subst (1 2) chunk_ranges.simps) (simp add: Let_def well_ranged_def)
    qed
  qed
qed

lemma check_positions_Ok: "check_positions seen logs = Ok () \<longleftrightarrow> distinct (map log_position logs) \<and> log_position ` set logs \<inter> seen = {}"
  by (induction logs arbitrary: seen) auto

section \<open>Claims\<close>

text \<open>
  C21.  Completeness of log queries: when \<^verbatim>\<open>get_logs_chunked\<close> succeeds against a provider that keeps its documented
  contract (answers below the cap are complete, receipts are complete, anything may be truncated at
  the cap or fail), it has returned exactly the matching logs of the requested range, strictly
  ordered by block and log index, whatever chunking, bisection and fallback happened on the way.
\<close>
theorem get_logs_chunked_complete:
  assumes "get_logs_chunked rpc f0 from_block to_block max_range cap w = (Inr (logs, metrics), w')"
    "canonical_filter f0 = Ok f" "complete_provider rpc f cap truth" "to_block \<le> u64_max"
  shows "mset logs = mset (logs_in truth from_block to_block) \<and> sorted_wrt (<) (map log_position logs)"
proof (cases "from_block > to_block")
  case True
  then have "logs_in truth from_block to_block = []" by (auto simp: logs_in_def filter_empty_conv)
  with True assms(1,2) show ?thesis by (auto simp: get_logs_chunked_def split: if_splits)
next
  case False
  with assms(1,2) obtain out m w1 w2 where
    c: "foldA (log_chunk rpc f cap) ([], default_log_metrics) (chunk_ranges from_block to_block max_range) w1 = (Inr (out, m), w2)"
    and d: "check_positions {} (sort_key log_position out) = Ok ()" and l: "logs = sort_key log_position out"
    by (auto simp: get_logs_chunked_def Let_def split: if_splits prod.splits)
  have cover: "bounds_logs truth (chunk_ranges from_block to_block max_range) = mset (logs_in truth from_block to_block)"
    "well_ranged (chunk_ranges from_block to_block max_range)"
    using chunk_ranges_cover [of from_block to_block truth max_range] False assms(4) by auto
  from log_chunks_complete [OF assms(3) c cover(2)] cover(1)
  have "mset logs = mset (logs_in truth from_block to_block)" by (simp add: l)
  moreover have "sorted_wrt (<) (map log_position logs)"
    using d by (simp add: l check_positions_Ok strict_sorted_iff)
  ultimately show ?thesis by simp
qed

definition demo_log_json :: json where
  "demo_log_json = JObj [(''removed'', JBool False), (''address'', JStr (hash_hex (replicate 20 7))),
     (''topics'', JArr []), (''data'', JStr ''0x''), (''blockNumber'', JStr (hex_tag 5)),
     (''transactionHash'', JStr (hash_hex (replicate 32 1))), (''logIndex'', JStr (hex_tag 2))]"

definition demo_log :: rpc_log where
  "demo_log = \<lparr>log_address = hash_hex (replicate 20 7), log_topics = [], log_data = ''0x'', log_block_number = 5,
     log_transaction_hash = hash_hex (replicate 32 1), log_log_index = 2\<rparr>"

definition demo_filter :: log_filter where
  "demo_filter = \<lparr>lf_address = hash_hex (replicate 20 7), lf_topics = []\<rparr>"

fun demo_bound :: "string \<Rightarrow> json \<Rightarrow> nat option" where
  "demo_bound k (JArr [obj]) = (case as_str (json_index obj k) of None \<Rightarrow> None | Some s \<Rightarrow> u64_from_str_radix16 (drop 2 s))"
| "demo_bound k _ = None"

definition demo_logs_request :: "string \<Rightarrow> json \<Rightarrow> (unit, rpc_error, json) act" where
  "demo_logs_request method params =
     (case (demo_bound ''fromBlock'' params, demo_bound ''toBlock'' params) of
        (Some a, Some b) \<Rightarrow> if method = ''eth_getLogs'' then retA (JArr (if a \<le> 5 \<and> 5 \<le> b then [demo_log_json] else []))
                           else failA (JsonRpc 0 ''unknown method'')
      | _ \<Rightarrow> failA (JsonRpc 0 ''invalid parameters''))"

definition demo_rpc :: "unit rpc" where
  "demo_rpc = \<lparr>rpc_request = demo_logs_request, rpc_batch_request = (\<lambda>_ _. failA UnsupportedBatch),
     rpc_metrics_of = (\<lambda>_. \<lparr>logical_requests = 0, transport_attempts = 0, transport_responses = 0, transport_retries = 0\<rparr>),
     rpc_clock_ms = (\<lambda>_. 0)\<rparr>"

lemma exact_hex_canonical:
  "length bs = n \<Longrightarrow> n * 2 \<le> u64_max \<Longrightarrow> exact_hex field (JStr (hash_hex bs)) n = Ok (hash_hex bs)"
  by (simp add: exact_hex_def hash_hex_def strip_prefix_def saturating_mul64_def)

lemma hex_quantity_tag: "n \<le> u64_max \<Longrightarrow> hex_quantity field (JStr (hex_tag n)) = Ok n"
  using show_hex_head [of n] by (auto simp: hex_quantity_def hex_tag_def strip_prefix_def hex_roundtrip)

lemma demo_parse: "parse_log demo_log_json = Ok demo_log"
  by (simp add: parse_log_def demo_log_json_def demo_log_def json_index_def exact_hex_canonical hex_quantity_tag
      strip_prefix_def u64_max_def) (simp add: to_ascii_lowercase_def)

lemma demo_canonical: "canonical_filter demo_filter = Ok demo_filter"
  by (simp add: canonical_filter_def demo_filter_def exact_hex_canonical u64_max_def)

lemma demo_logs_answer:
  "rpc_request demo_rpc ''eth_getLogs'' (log_request f a b) w =
     (if a \<le> u64_max \<and> b \<le> u64_max then Inr (JArr (if a \<le> 5 \<and> 5 \<le> b then [demo_log_json] else []))
      else Inl (JsonRpc 0 ''invalid parameters''), w)"
proof -
  have "demo_bound ''fromBlock'' (log_request f a b) = u64_from_str_radix16 (show_hex a)"
    "demo_bound ''toBlock'' (log_request f a b) = u64_from_str_radix16 (show_hex b)"
    by (simp_all add: log_request_def json_index_def hex_tag_def)
  then show ?thesis by (simp add: demo_rpc_def demo_logs_request_def hex_parse_show)
qed

lemma demo_provider: "complete_provider demo_rpc demo_filter 10 [demo_log]"
proof -
  have "mset logs = mset (logs_in [demo_log] a b)"
    if "rpc_request demo_rpc ''eth_getLogs'' (log_request demo_filter a b) w = (Inr (JArr vs), w')"
      "mapR parse_log vs = Ok logs" for a b w w' vs logs
    using that demo_parse by (auto simp: demo_logs_answer logs_in_def demo_log_def split: if_splits)
  moreover have "rpc_request demo_rpc ''eth_getBlockReceipts'' p w \<noteq> (Inr v, w')" for p w v w'
    by (auto simp: demo_rpc_def demo_logs_request_def split: option.splits)
  ultimately show ?thesis unfolding complete_provider_def by blast
qed

lemma demo_fetch:
  assumes "a \<le> b" "b \<le> 100"
  shows "fetch_logs demo_rpc demo_filter a b w = (Inr (if a \<le> 5 \<and> 5 \<le> b then [demo_log] else []), w)"
proof -
  have "a \<le> u64_max" "b \<le> u64_max" using assms by (simp_all add: u64_max_def)
  moreover have "selects demo_filter demo_log" by (simp add: selects_def demo_filter_def demo_log_def log_matches_filter_def)
  ultimately show ?thesis
    using assms demo_parse
    by (auto simp: fetch_logs_def bindA_apply demo_logs_answer check_log_def selects_def demo_log_def)
qed

lemma demo_step:
  assumes "a \<le> b" "b \<le> 100"
  shows "log_step demo_rpc demo_filter 10 0 0 left (a, b) st w
    = (Inr (0, [], add_logs (if a \<le> 5 \<and> 5 \<le> b then [demo_log] else []) (count_requests 1 st)), w)"
  using demo_fetch [OF assms]
  by (simp add: log_step_def deadline_left_def demo_rpc_def attempts_used_def timeoutA_def log_decide_def bindA_apply
      MAX_LOG_TRANSPORT_ATTEMPTS_PER_CHUNK_def MAX_LOG_REQUESTS_PER_CHUNK_def MAX_RPC_RETRIES_def)

lemma demo_chunk:
  assumes "a \<le> b" "b \<le> 100"
  shows "\<exists>m'. log_chunk demo_rpc demo_filter 10 (out, m) (a, b) w
    = (Inr (out @ (if a \<le> 5 \<and> 5 \<le> b then [demo_log] else []), m'), w)"
proof -
  obtain n where n: "MAX_LOG_REQUESTS_PER_CHUNK = Suc n"
    by (metis MAX_LOG_REQUESTS_PER_CHUNK_def numeral_eq_Suc)
  have loop: "log_loop demo_rpc demo_filter 10 0 0 (Suc n) [(a, b)] st w
      = (Inr (add_logs (if a \<le> 5 \<and> 5 \<le> b then [demo_log] else []) (count_requests 1 st)), w)" for st w
    by (simp add: bindA_apply demo_step [OF assms])
  have "rpc_clock_ms demo_rpc w = 0" "transport_attempts (rpc_metrics_of demo_rpc w) = 0" for w
    by (simp_all add: demo_rpc_def)
  then show ?thesis by (simp add: log_chunk_def n bindA_apply loop del: log_loop.simps)
qed

lemma demo_query: "\<exists>m. get_logs_chunked demo_rpc demo_filter 1 8 4 10 () = (Inr ([demo_log], m), ())"
proof -
  have "chunk_ranges 1 8 4 = [(1, 4), (5, 8)]"
    by (simp add: chunk_ranges.simps saturating_add64_def u64_max_def)
  moreover obtain m1 where m1: "log_chunk demo_rpc demo_filter 10 ([], default_log_metrics) (1, 4) () = (Inr ([], m1), ())"
    using demo_chunk [of 1 4 "[]" default_log_metrics "()"] by auto
  moreover obtain m2 where "log_chunk demo_rpc demo_filter 10 ([], m1) (5, 8) () = (Inr ([demo_log], m2), ())"
    using demo_chunk [of 5 8 "[]" m1 "()"] by auto
  ultimately show ?thesis
    by (simp add: get_logs_chunked_def demo_canonical bindA_apply MAX_INITIAL_LOG_RANGE_def MAX_LOG_RESULT_CAP_def Let_def)
qed

theorem get_logs_chunked_complete_witness:
  "\<exists>m. get_logs_chunked demo_rpc demo_filter 1 8 4 10 () = (Inr ([demo_log], m), ())
     \<and> mset [demo_log] = mset (logs_in [demo_log] 1 8) \<and> sorted_wrt (<) (map log_position [demo_log])"
proof -
  obtain m where m: "get_logs_chunked demo_rpc demo_filter 1 8 4 10 () = (Inr ([demo_log], m), ())"
    using demo_query by blast
  have "(8::nat) \<le> u64_max" by (simp add: u64_max_def)
  from get_logs_chunked_complete [OF m demo_canonical demo_provider this] m show ?thesis by blast
qed

end
