(* ===== verification/Http_Rpc.thy ===== *)
theory Http_Rpc
  imports Rpc
begin

text \<open>
  The JSON-RPC client of \<^verbatim>\<open>offchain-rust/src/rpc.rs\<close>: endpoint and policy validation, bounded response
  bodies, the retry loop, single requests and batches.  The network, the JSON codec, the URL
  parser and the HTTP client builder are parameters (the record \<open>transport\<close>).
\<close>

section \<open>Endpoints and policy\<close>

record url =
  url_scheme :: string
  url_host :: "string option"
  url_port :: "nat option"
  url_username :: string
  url_password :: "string option"

definition TRUSTED_DRPC_HOSTS :: "string list" where
  "TRUSTED_DRPC_HOSTS = [''lb.drpc.org'', ''lb.drpc.live'']"

definition MAX_RPC_TIMEOUT_MS :: nat where "MAX_RPC_TIMEOUT_MS = 120000"
definition MAX_RPC_RETRY_DELAY_MS :: nat where "MAX_RPC_RETRY_DELAY_MS = 10000"
definition DEFAULT_RPC_RESPONSE_BYTE_CAP :: nat where "DEFAULT_RPC_RESPONSE_BYTE_CAP = 16 * 1024 * 1024"

definition validate_rpc_endpoint ::
  "(string \<Rightarrow> url option) \<Rightarrow> string \<Rightarrow> bool \<Rightarrow> (rpc_error, url) result" where
  "validate_rpc_endpoint url_parse endpoint has_drpc_key =
     bindR (ok_or InvalidEndpoint (url_parse endpoint)) (\<lambda>u.
       if url_scheme u \<noteq> ''http'' \<and> url_scheme u \<noteq> ''https'' then Err UnsupportedScheme
       else if has_drpc_key \<and>
            \<not> (url_scheme u = ''https''
               \<and> (case url_host u of Some h \<Rightarrow> h \<in> set TRUSTED_DRPC_HOSTS | None \<Rightarrow> False)
               \<and> (case url_port u of None \<Rightarrow> True | Some p \<Rightarrow> p = 443)
               \<and> url_username u = [] \<and> url_password u = None)
       then Err UntrustedDrpcEndpoint
       else Ok u)"

datatype net_failure = NetTimeout | NetConnect | NetBody | NetOther

record http_response =
  hr_status :: nat
  hr_content_length :: "nat option"
  hr_chunks :: "(net_failure + bytes) list"

text \<open>
  \<^verbatim>\<open>tr_post\<close> sends a body; the other parameters are the URL parser, the check of a header value, the
  client builder, \<^verbatim>\<open>serde_json\<close> and the timer.
\<close>

record 'w transport =
  tr_url_parse :: "string \<Rightarrow> url option"
  tr_header_value :: "string \<Rightarrow> bool"
  tr_build_client :: "nat \<Rightarrow> string option \<Rightarrow> (rpc_error, unit) result"
  tr_post :: "url \<Rightarrow> string option \<Rightarrow> json \<Rightarrow> 'w \<Rightarrow> (net_failure + http_response) \<times> 'w"
  tr_from_slice :: "bytes \<Rightarrow> json option"
  tr_encoded_bytes :: "json \<Rightarrow> nat"
  tr_sleep_ms :: "nat \<Rightarrow> 'w \<Rightarrow> 'w"

record http_config =
  hc_endpoint :: url
  hc_drpc_key :: "string option"
  hc_retry_count :: nat
  hc_retry_delay_ms :: nat
  hc_response_byte_cap :: nat

text \<open>The mutable part of \<^verbatim>\<open>HttpRpc\<close> (its atomics) beside the outside world.\<close>

record 'w http_world =
  hw_next_id :: u64
  hw_metrics :: rpc_metrics
  hw_net :: 'w

definition http_new_inner ::
  "'w transport \<Rightarrow> string \<Rightarrow> string option \<Rightarrow> nat \<Rightarrow> nat \<Rightarrow> nat \<Rightarrow> nat \<Rightarrow> string option
    \<Rightarrow> (rpc_error, http_config) result" where
  "http_new_inner tr endpoint drpc_key timeout_ms retry_count retry_delay_ms response_byte_cap proxy_url =
     (if timeout_ms = 0 \<or> timeout_ms > MAX_RPC_TIMEOUT_MS then Err (InvalidTimeout MAX_RPC_TIMEOUT_MS)
      else if retry_count > MAX_RPC_RETRIES \<or> retry_delay_ms > MAX_RPC_RETRY_DELAY_MS then Err InvalidRetryPolicy
      else if response_byte_cap = 0 \<or> response_byte_cap > DEFAULT_RPC_RESPONSE_BYTE_CAP
      then Err (InvalidResponseLimit DEFAULT_RPC_RESPONSE_BYTE_CAP)
      else bindR (validate_rpc_endpoint (tr_url_parse tr) endpoint (drpc_key \<noteq> None)) (\<lambda>u.
        bindR (case drpc_key of None \<Rightarrow> Ok () | Some k \<Rightarrow> if tr_header_value tr k then Ok () else Err InvalidDrpcKey) (\<lambda>_.
        bindR (tr_build_client tr timeout_ms proxy_url) (\<lambda>_.
          Ok \<lparr>hc_endpoint = u, hc_drpc_key = drpc_key, hc_retry_count = retry_count,
              hc_retry_delay_ms = retry_delay_ms, hc_response_byte_cap = response_byte_cap\<rparr>))))"

definition http_initial :: "'w \<Rightarrow> 'w http_world" where
  "http_initial net = \<lparr>hw_next_id = 1,
     hw_metrics = \<lparr>logical_requests = 0, transport_attempts = 0, transport_responses = 0, transport_retries = 0\<rparr>,
     hw_net = net\<rparr>"

section \<open>One attempt\<close>

text \<open>\<^verbatim>\<open>AtomicU64::fetch_add\<close> wraps around.\<close>

definition wrap_add64 :: "nat \<Rightarrow> nat \<Rightarrow> nat" where
  "wrap_add64 a b = (a + b) mod 2 ^ 64"

definition transport_error :: "string \<Rightarrow> net_failure \<Rightarrow> rpc_error" where
  "transport_error mth e = Transport mth
     (case e of NetTimeout \<Rightarrow> ''request timed out'' | NetConnect \<Rightarrow> ''connection failed''
      | NetBody \<Rightarrow> ''response body failed'' | NetOther \<Rightarrow> ''request failed'')"

definition bump :: "((nat \<Rightarrow> nat) \<Rightarrow> rpc_metrics \<Rightarrow> rpc_metrics) \<Rightarrow> nat \<Rightarrow> 'w http_world \<Rightarrow> 'w http_world" where
  "bump upd n w = w\<lparr>hw_metrics := upd (\<lambda>x. wrap_add64 x n) (hw_metrics w)\<rparr>"

definition send_attempt ::
  "'w transport \<Rightarrow> http_config \<Rightarrow> string \<Rightarrow> json \<Rightarrow> ('w http_world, rpc_error, http_response) act" where
  "send_attempt tr cfg mth body w0 =
     (let w = bump transport_attempts_update 1 w0;
          (r, net) = tr_post tr (hc_endpoint cfg) (hc_drpc_key cfg) body (hw_net w);
          w' = w\<lparr>hw_net := net\<rparr>
      in case r of
           Inl e \<Rightarrow> (Inl (transport_error mth e), w')
         | Inr response \<Rightarrow> (Inr response, bump transport_responses_update 1 w'))"

fun read_body :: "nat \<Rightarrow> string \<Rightarrow> bytes \<Rightarrow> (net_failure + bytes) list \<Rightarrow> (rpc_error, bytes) result" where
  "read_body cap mth acc [] = Ok acc"
| "read_body cap mth acc (Inl e # cs) = Err (transport_error mth e)"
| "read_body cap mth acc (Inr c # cs) =
     (if length acc + length c \<le> cap then read_body cap mth (acc @ c) cs
      else Err (ResponseTooLarge mth cap))"

definition complete_attempt ::
  "'w transport \<Rightarrow> http_config \<Rightarrow> string \<Rightarrow> json \<Rightarrow> ('w http_world, rpc_error, json) act" where
  "complete_attempt tr cfg mth body =
     bindA (send_attempt tr cfg mth body) (\<lambda>response.
     liftR (
       if \<not> (200 \<le> hr_status response \<and> hr_status response < 300) then Err (HttpStatus mth (hr_status response))
       else if (case hr_content_length response of Some n \<Rightarrow> n > hc_response_byte_cap cfg | None \<Rightarrow> False)
       then Err (ResponseTooLarge mth (hc_response_byte_cap cfg))
       else bindR (read_body (hc_response_byte_cap cfg) mth [] (hr_chunks response)) (\<lambda>bytes.
         ok_or (InvalidResponse mth ''body is not valid JSON'') (tr_from_slice tr bytes))))"

section \<open>Retries\<close>

definition retryable :: "rpc_error \<Rightarrow> bool" where
  "retryable e =
     (case e of
        Transport _ _ \<Rightarrow> True
      | HttpStatus _ status \<Rightarrow> status = 408 \<or> status = 429 \<or> (500 \<le> status \<and> status \<le> 504)
      | _ \<Rightarrow> False)"

text \<open>The retry loop; \<open>left\<close> is \<^verbatim>\<open>retry_count - attempt\<close>.\<close>

fun request_loop ::
  "'w transport \<Rightarrow> http_config \<Rightarrow> string \<Rightarrow> json \<Rightarrow> nat \<Rightarrow> nat \<Rightarrow> ('w http_world, rpc_error, json) act" where
  "request_loop tr cfg mth body attempt 0 = complete_attempt tr cfg mth body"
| "request_loop tr cfg mth body attempt (Suc left) =
     bindA (tryA (complete_attempt tr cfg mth body)) (\<lambda>result.
       case result of
         Inr value \<Rightarrow> retA value
       | Inl error \<Rightarrow>
           if retryable error
           then (\<lambda>w. request_loop tr cfg mth body (attempt + 1) left
                   ((bump transport_retries_update 1 w)
                     \<lparr>hw_net := tr_sleep_ms tr (saturating_mul64 (hc_retry_delay_ms cfg) (2 ^ min attempt 10)) (hw_net w)\<rparr>))
           else failA error)"

definition complete_request ::
  "'w transport \<Rightarrow> http_config \<Rightarrow> string \<Rightarrow> json \<Rightarrow> ('w http_world, rpc_error, json) act" where
  "complete_request tr cfg mth body = request_loop tr cfg mth body 0 (hc_retry_count cfg)"

section \<open>Requests\<close>

definition request_body :: "nat \<Rightarrow> string \<Rightarrow> json \<Rightarrow> json" where
  "request_body i mth params =
     JObj [(''jsonrpc'', JStr ''2.0''), (''id'', JInt (int i)), (''method'', JStr mth), (''params'', params)]"

definition get_str :: "json \<Rightarrow> string \<Rightarrow> string option" where
  "get_str v k = (case json_get v k of None \<Rightarrow> None | Some x \<Rightarrow> as_str x)"

definition get_u64 :: "json \<Rightarrow> string \<Rightarrow> u64 option" where
  "get_u64 v k = (case json_get v k of None \<Rightarrow> None | Some x \<Rightarrow> as_u64 x)"

definition get_i64 :: "json \<Rightarrow> string \<Rightarrow> int option" where
  "get_i64 v k = (case json_get v k of None \<Rightarrow> None | Some x \<Rightarrow> as_i64 x)"

definition check_response :: "string \<Rightarrow> u64 \<Rightarrow> json \<Rightarrow> (rpc_error, json) result" where
  "check_response mth i value =
     (if get_str value ''jsonrpc'' \<noteq> Some ''2.0'' then Err (InvalidResponse mth ''jsonrpc is not 2.0'')
      else if get_u64 value ''id'' \<noteq> Some i then Err (InvalidResponse mth ''response id does not match request'')
      else case json_get value ''error'' of
        Some error \<Rightarrow>
          bindR (ok_or (InvalidResponse mth ''error object lacks integer code'') (get_i64 error ''code'')) (\<lambda>code.
            Err (JsonRpc code (case get_str error ''message'' of Some m \<Rightarrow> m | None \<Rightarrow> ''unspecified provider error'')))
      | None \<Rightarrow> ok_or (InvalidResponse mth ''missing result'') (json_get value ''result''))"

definition http_request ::
  "'w transport \<Rightarrow> http_config \<Rightarrow> string \<Rightarrow> json \<Rightarrow> ('w http_world, rpc_error, json) act" where
  "http_request tr cfg mth params w0 =
     (let w1 = bump logical_requests_update 1 w0;
          i = hw_next_id w1;
          w2 = w1\<lparr>hw_next_id := wrap_add64 i 1\<rparr>
      in bindA (complete_request tr cfg mth (request_body i mth params))
           (\<lambda>value. liftR (check_response mth i value)) w2)"

section \<open>Batches\<close>

definition batch_invalid :: "string \<Rightarrow> rpc_error" where
  "batch_invalid mth = InvalidResponse mth ''invalid batch response envelope or member''"

definition batch_member ::
  "string \<Rightarrow> u64 \<Rightarrow> nat \<Rightarrow> json option list \<Rightarrow> json \<Rightarrow> (rpc_error, json option list) result" where
  "batch_member mth first cnt results member =
     bindR (ok_or (batch_invalid mth) (get_u64 member ''id'')) (\<lambda>i.
     bindR (ok_or (batch_invalid mth)
       (case checked_sub64 i first of None \<Rightarrow> None | Some d \<Rightarrow> if d < cnt then Some d else None)) (\<lambda>index.
     if results ! index \<noteq> None \<or> get_str member ''jsonrpc'' \<noteq> Some ''2.0'' then Err (batch_invalid mth)
     else case json_get member ''error'' of
       Some error \<Rightarrow>
         if json_get member ''result'' \<noteq> None then Err (batch_invalid mth)
         else bindR (ok_or (batch_invalid mth) (get_i64 error ''code'')) (\<lambda>code.
              bindR (ok_or (batch_invalid mth) (get_str error ''message'')) (\<lambda>_.
                Err (JsonRpc code ''batch member failed'')))
     | None \<Rightarrow>
         bindR (ok_or (batch_invalid mth) (json_get member ''result'')) (\<lambda>r.
           Ok (results[index := Some r]))))"

definition batch_results :: "string \<Rightarrow> u64 \<Rightarrow> nat \<Rightarrow> json \<Rightarrow> (rpc_error, json list) result" where
  "batch_results mth first cnt value =
     bindR (ok_or (batch_invalid mth)
       (case as_array value of None \<Rightarrow> None | Some ms \<Rightarrow> if length ms = cnt then Some ms else None)) (\<lambda>members.
     bindR (foldR (batch_member mth first cnt) (replicate cnt None) members) (\<lambda>results.
       mapR (ok_or (batch_invalid mth)) results))"

definition http_batch_request ::
  "'w transport \<Rightarrow> http_config \<Rightarrow> string \<Rightarrow> json list \<Rightarrow> ('w http_world, rpc_error, json list) act" where
  "http_batch_request tr cfg mth params w0 =
     (if params = [] \<or> length params > 256 then (Inl InvalidBatch, w0)
      else let cnt = length params; first = hw_next_id w0 in
        case checked_add64 first cnt of
          None \<Rightarrow> (Inl InvalidBatch, w0)
        | Some next_id \<Rightarrow>
            let w1 = w0\<lparr>hw_next_id := next_id\<rparr>;
                body = JArr (map (\<lambda>(index, p). request_body (first + index) mth p) (enumerate 0 params))
            in if tr_encoded_bytes tr body > 1024 * 1024 then (Inl InvalidBatch, w1)
               else bindA (complete_request tr cfg mth body)
                      (\<lambda>value. liftR (batch_results mth first cnt value))
                      (bump logical_requests_update cnt w1))"

text \<open>The client as an instance of the provider interface.\<close>

definition http_rpc :: "'w transport \<Rightarrow> http_config \<Rightarrow> ('w \<Rightarrow> nat) \<Rightarrow> 'w http_world rpc" where
  "http_rpc tr cfg clock_ms =
     \<lparr>rpc_request = http_request tr cfg, rpc_batch_request = http_batch_request tr cfg,
      rpc_metrics_of = hw_metrics, rpc_clock_ms = (\<lambda>w. clock_ms (hw_net w))\<rparr>"

section \<open>Attempts are bounded\<close>

abbreviation attempts_of :: "'w http_world \<Rightarrow> nat" where
  "attempts_of w \<equiv> transport_attempts (hw_metrics w)"

lemma complete_attempt_count: "attempts_of (snd (complete_attempt tr cfg mth body w)) = wrap_add64 (attempts_of w) 1"
  by (auto simp: complete_attempt_def bindA_def send_attempt_def bump_def Let_def split: prod.splits sum.splits)

lemma request_loop_attempts:
  "attempts_of w + left + 1 < 2 ^ 64 \<Longrightarrow>
     attempts_of (snd (request_loop tr cfg mth body attempt left w)) \<in> {attempts_of w + 1 .. attempts_of w + left + 1}"
proof (induction left arbitrary: attempt w)
  case 0
  then show ?case by (simp add: complete_attempt_count wrap_add64_def)
next
  case (Suc left)
  obtain r w1 where r: "complete_attempt tr cfg mth body w = (r, w1)" by (cases "complete_attempt tr cfg mth body w")
  have a1: "attempts_of w1 = attempts_of w + 1"
    using complete_attempt_count [of tr cfg mth body w] r Suc.prems by (simp add: wrap_add64_def)
  show ?case
  proof (cases r)
    case (Inr v)
    with r a1 show ?thesis by (simp add: bindA_apply)
  next
    case (Inl e)
    let ?w2 = "(bump transport_retries_update 1 w1)
       \<lparr>hw_net := tr_sleep_ms tr (saturating_mul64 (hc_retry_delay_ms cfg) (2 ^ min attempt 10)) (hw_net w1)\<rparr>"
    have "attempts_of ?w2 = attempts_of w + 1" using a1 by (simp add: bump_def)
    with Inl r a1 Suc.IH [of ?w2 "attempt + 1"] Suc.prems show ?thesis
      by (auto simp: bindA_apply)
  qed
qed

lemma http_request_attempts:
  assumes "attempts_of w + hc_retry_count cfg + 1 < 2 ^ 64"
  shows "attempts_of (snd (http_request tr cfg mth params w)) \<le> attempts_of w + hc_retry_count cfg + 1"
proof -
  let ?w = "(bump logical_requests_update 1 w)\<lparr>hw_next_id := wrap_add64 (hw_next_id w) 1\<rparr>"
  let ?m = "complete_request tr cfg mth (request_body (hw_next_id w) mth params)"
  have "attempts_of ?w = attempts_of w" by (simp add: bump_def)
  with request_loop_attempts [of ?w "hc_retry_count cfg" tr cfg mth "request_body (hw_next_id w) mth params" 0] assms
  have "attempts_of (snd (?m ?w)) \<le> attempts_of w + hc_retry_count cfg + 1" by (simp add: complete_request_def)
  moreover have "hw_next_id (bump logical_requests_update 1 w) = hw_next_id w" by (simp add: bump_def)
  ultimately show ?thesis by (simp add: http_request_def Let_def)
qed

section \<open>Batch answers are paired with their requests\<close>

definition answers_member :: "u64 \<Rightarrow> json list \<Rightarrow> nat \<Rightarrow> json \<Rightarrow> bool" where
  "answers_member first members i r \<longleftrightarrow> list_ex (\<lambda>m. get_u64 m ''id'' = Some (first + i) \<and> get_str m ''jsonrpc'' = Some ''2.0''
     \<and> json_get m ''error'' = None \<and> json_get m ''result'' = Some r) members"

lemma batch_member_Ok:
  assumes "batch_member mth first n results m = Ok results'"
  shows "\<exists>i r. i < n \<and> results ! i = None \<and> results' = results[i := Some r] \<and> answers_member first [m] i r"
proof -
  from assms obtain x r where "get_u64 m ''id'' = Some x" "first \<le> x" "x - first < n" "results ! (x - first) = None"
    "get_str m ''jsonrpc'' = Some ''2.0''" "json_get m ''error'' = None" "json_get m ''result'' = Some r"
    "results' = results[x - first := Some r]"
    by (auto simp: batch_member_def split: if_splits option.splits)
  then show ?thesis by (intro exI [of _ "x - first"] exI [of _ r]) (simp add: answers_member_def)
qed

lemma batch_members_Ok:
  assumes "foldR (batch_member mth first n) rs ms = Ok rs'" "length rs = n"
    "\<And>i r. i < n \<Longrightarrow> rs ! i = Some r \<Longrightarrow> answers_member first ms0 i r"
  shows "length rs' = n \<and> (\<forall>i < n. \<forall>r. rs' ! i = Some r \<longrightarrow> answers_member first (ms0 @ ms) i r)"
  using assms
proof (induction ms arbitrary: rs ms0)
  case (Cons m ms)
  then obtain r1 where r1: "batch_member mth first n rs m = Ok r1" "foldR (batch_member mth first n) r1 ms = Ok rs'" by auto
  from batch_member_Ok [OF r1(1)] obtain j v where
    j: "j < n" "r1 = rs[j := Some v]" "answers_member first [m] j v" by blast
  have "answers_member first (ms0 @ [m]) i r" if "i < n" "r1 ! i = Some r" for i r
  proof (cases "i = j")
    case True
    with j that Cons.prems(2) show ?thesis by (simp add: answers_member_def)
  next
    case False
    with j that Cons.prems(3) [of i r] show ?thesis by (simp add: answers_member_def)
  qed
  with Cons.IH [OF r1(2), of "ms0 @ [m]"] j(2) Cons.prems(2) show ?case by simp
qed simp

lemma batch_results_Ok:
  assumes "batch_results mth first n value = Ok rs"
  shows "\<exists>ms. value = JArr ms \<and> length ms = n \<and> length rs = n \<and> (\<forall>i < n. answers_member first ms i (rs ! i))"
proof -
  from assms obtain ms results where m: "as_array value = Some ms" "length ms = n"
    "foldR (batch_member mth first n) (replicate n None) ms = Ok results"
    "mapR (ok_or (batch_invalid mth)) results = Ok rs"
    by (auto simp: batch_results_def split: option.splits if_splits)
  have r: "results = map Some rs"
    using mapR_OkD [OF m(4)] by (auto simp: list_all2_conv_all_nth intro: nth_equalityI)
  from batch_members_Ok [OF m(3), of "[]"] r have "length rs = n \<and> (\<forall>i < n. answers_member first ms i (rs ! i))" by simp
  moreover have "value = JArr ms" using m(1) by (cases "value") auto
  ultimately show ?thesis using m(2) by blast
qed

section \<open>Claims\<close>

text \<open>
  Transport attempts are bounded: whatever the network does, one request of a client built by
  \<^verbatim>\<open>HttpRpc::new_inner\<close> makes at most nine transport attempts (the first and up to eight retries), and it always
  returns; this is the factor the log budget assumes per request.
\<close>
theorem http_request_bounded:
  assumes "http_new_inner tr endpoint key timeout_ms retries delay cap proxy = Ok cfg" "attempts_of w + 9 < 2 ^ 64"
  shows "attempts_of (snd (http_request tr cfg mth params w)) \<le> attempts_of w + 9
    \<and> MAX_LOG_TRANSPORT_ATTEMPTS_PER_CHUNK = MAX_LOG_REQUESTS_PER_CHUNK * 9"
proof -
  have "hc_retry_count cfg \<le> 8"
    using assms(1) by (auto simp: http_new_inner_def MAX_RPC_RETRIES_def split: if_splits)
  with http_request_attempts [of w cfg tr mth params] assms(2) show ?thesis
    by (simp add: MAX_LOG_TRANSPORT_ATTEMPTS_PER_CHUNK_def MAX_RPC_RETRIES_def)
qed

definition demo_url :: url where
  "demo_url = \<lparr>url_scheme = ''https'', url_host = Some ''lb.drpc.org'', url_port = None, url_username = [], url_password = None\<rparr>"

definition demo_transport :: "unit transport" where
  "demo_transport = \<lparr>tr_url_parse = (\<lambda>_. Some demo_url), tr_header_value = (\<lambda>_. True), tr_build_client = (\<lambda>_ _. Ok ()),
     tr_post = (\<lambda>_ _ _ w. (Inl NetTimeout, w)), tr_from_slice = (\<lambda>_. None), tr_encoded_bytes = (\<lambda>_. 0), tr_sleep_ms = (\<lambda>_ w. w)\<rparr>"

theorem http_request_bounded_witness:
  "\<exists>cfg. http_new_inner demo_transport ''https://lb.drpc.org'' (Some ''k'') 1000 8 200 1024 None = Ok cfg
     \<and> attempts_of (snd (http_request demo_transport cfg ''eth_chainId'' (JArr []) (http_initial ()))) \<le> 9"
proof -
  have new: "http_new_inner demo_transport ''https://lb.drpc.org'' (Some ''k'') 1000 8 200 1024 None
      = Ok \<lparr>hc_endpoint = demo_url, hc_drpc_key = Some ''k'', hc_retry_count = 8, hc_retry_delay_ms = 200, hc_response_byte_cap = 1024\<rparr>"
    by (simp add: http_new_inner_def demo_transport_def demo_url_def validate_rpc_endpoint_def TRUSTED_DRPC_HOSTS_def
        MAX_RPC_TIMEOUT_MS_def MAX_RPC_RETRIES_def MAX_RPC_RETRY_DELAY_MS_def DEFAULT_RPC_RESPONSE_BYTE_CAP_def)
  have "attempts_of (http_initial ()) + 9 < 2 ^ 64" by (simp add: http_initial_def)
  from http_request_bounded [OF new this] new show ?thesis by (auto simp: http_initial_def)
qed

text \<open>
   Batch answers are paired with their requests: a successful batch returns one result for each request, and the
  result at position \<open>i\<close> is the result member of an error-free answer that carries the id of request \<open>i\<close>,
  in whatever order the provider listed them.
\<close>
theorem batch_results_paired:
  assumes "batch_results mth first n value = Ok rs"
  shows "\<exists>ms. value = JArr ms \<and> length ms = n \<and> length rs = n \<and> (\<forall>i < n. answers_member first ms i (rs ! i))"
  by (rule batch_results_Ok [OF assms])

definition demo_member :: "int \<Rightarrow> string \<Rightarrow> json" where
  "demo_member i r = JObj [(''jsonrpc'', JStr ''2.0''), (''id'', JInt i), (''result'', JStr r)]"

theorem batch_results_paired_witness:
  "batch_results ''m'' 7 2 (JArr [demo_member 8 ''b'', demo_member 7 ''a'']) = Ok [JStr ''a'', JStr ''b'']
   \<and> answers_member 7 [demo_member 8 ''b'', demo_member 7 ''a''] 0 (JStr ''a'')"
proof -
  have two_none: "replicate 2 None = [None, None]" by (simp add: numeral_2_eq_2)
  have ok: "batch_results ''m'' 7 2 (JArr [demo_member 8 ''b'', demo_member 7 ''a'']) = Ok [JStr ''a'', JStr ''b'']"
    by (simp add: batch_results_def batch_member_def demo_member_def get_u64_def get_str_def checked_sub64_def u64_max_def
        two_none)
  from batch_results_paired [OF ok] ok show ?thesis by force
qed

text \<open>
  The provider key only goes to a trusted endpoint: a client that carries a key talks https on the default port to one
  of the two allowed hosts, without credentials in the URL.
\<close>
theorem drpc_key_confined:
  assumes "http_new_inner tr endpoint (Some key) timeout_ms retries delay cap proxy = Ok cfg"
  shows "hc_drpc_key cfg = Some key \<and> url_scheme (hc_endpoint cfg) = ''https''
    \<and> url_host (hc_endpoint cfg) \<in> {Some ''lb.drpc.org'', Some ''lb.drpc.live''}
    \<and> url_port (hc_endpoint cfg) \<in> {None, Some 443}
    \<and> url_username (hc_endpoint cfg) = [] \<and> url_password (hc_endpoint cfg) = None"
  using assms
  by (auto simp: http_new_inner_def validate_rpc_endpoint_def TRUSTED_DRPC_HOSTS_def split: if_splits option.splits)

theorem drpc_key_confined_witness:
  "\<exists>cfg. http_new_inner demo_transport ''https://lb.drpc.org'' (Some ''k'') 1000 8 200 1024 None = Ok cfg
     \<and> url_scheme (hc_endpoint cfg) = ''https''"
proof -
  obtain cfg where "http_new_inner demo_transport ''https://lb.drpc.org'' (Some ''k'') 1000 8 200 1024 None = Ok cfg"
    by (simp add: http_new_inner_def demo_transport_def demo_url_def validate_rpc_endpoint_def TRUSTED_DRPC_HOSTS_def
        MAX_RPC_TIMEOUT_MS_def MAX_RPC_RETRIES_def MAX_RPC_RETRY_DELAY_MS_def DEFAULT_RPC_RESPONSE_BYTE_CAP_def)
  with drpc_key_confined [OF this] show ?thesis by blast
qed

end
