(* ===== verification/Chain_Blocks.thy ===== *)
theory Chain_Blocks
  imports Rpc
begin

text \<open>
  Blocks and anchors of \<^verbatim>\<open>offchain-rust/src/chain.rs\<close>: parsing of quantities and blocks, the search for the last
  block at or before a timestamp, the settlement anchors and the check that no anchor was
  reorganised away.
\<close>

section \<open>Errors and anchors\<close>

record block_anchor =
  ba_number :: u64
  ba_timestamp :: u64
  ba_hash :: string

record settlement_anchors =
  sa_reference :: block_anchor
  sa_open :: block_anchor
  sa_window_end :: block_anchor
  sa_finalized_head :: block_anchor

text \<open>\<^verbatim>\<open>ChainPanic\<close> stands for a panic and is not a value of the Rust enum.\<close>

datatype chain_error =
    ChainRpc rpc_error
  | InvalidQuantity string
  | InvalidBlock string
  | WindowNotFinalized u64 u64 u64
  | AnchorNotFinalized u64 u64 u64
  | AnchorChanged string u64 string string
  | MissingCode string string u64
  | AbiError string string
  | InvalidCallResult string
  | ChainUint256Overflow string
  | InvalidConfiguration string
  | InvalidPoolTopology string
  | PoolAssetMismatch address address address
  | InvalidOracle address string
  | InvalidConversion address string
  | EventDecode string u64 u64 string
  | ReplayUnderflow address u64 u64
  | BalanceReplayMismatch address biguint biguint u64
  | BatchLengthMismatch
  | ChainPanic string

section \<open>Parsing\<close>

definition quantity :: "json \<Rightarrow> string \<Rightarrow> (chain_error, u64) result" where
  "quantity value field =
     bindR (ok_or (InvalidQuantity field)
       (case as_str value of None \<Rightarrow> None
        | Some t \<Rightarrow> (case strip_prefix ''0x'' t of None \<Rightarrow> None
                    | Some t' \<Rightarrow> if t' = [] then None else Some t'))) (\<lambda>raw.
     ok_or (InvalidQuantity field) (u64_from_str_radix16 raw))"

definition block_hash :: "json \<Rightarrow> (chain_error, string) result" where
  "block_hash value =
     bindR (ok_or (InvalidBlock ''missing or malformed hash'')
       (case as_str value of None \<Rightarrow> None
        | Some t \<Rightarrow> (case strip_prefix ''0x'' t of None \<Rightarrow> None
                    | Some h \<Rightarrow> if length h = 64 \<and> hex_decode h \<noteq> None then Some h else None))) (\<lambda>h.
     Ok (''0x'' @ to_ascii_lowercase h))"

definition parse_block :: "string \<Rightarrow> u64 option \<Rightarrow> json \<Rightarrow> (chain_error, block_anchor) result" where
  "parse_block tag expected_number value =
     (if value = JNull then Err (InvalidBlock (''block '' @ tag @ '' not found''))
      else bindR (quantity (json_index value ''number'') ''block.number'') (\<lambda>number.
        if (case expected_number of None \<Rightarrow> False | Some e \<Rightarrow> e \<noteq> number)
        then Err (InvalidBlock (''requested block '' @ show_nat (the expected_number)
               @ '' but provider returned '' @ show_nat number))
        else bindR (quantity (json_index value ''timestamp'') ''block.timestamp'') (\<lambda>timestamp.
             bindR (block_hash (json_index value ''hash'')) (\<lambda>h.
               Ok \<lparr>ba_number = number, ba_timestamp = timestamp, ba_hash = h\<rparr>))))"

definition block_at ::
  "('w, 'z) rpc_scheme \<Rightarrow> string \<Rightarrow> u64 option \<Rightarrow> ('w, chain_error, block_anchor) act" where
  "block_at rpc tag expected_number =
     bindA (map_errA ChainRpc (rpc_request rpc ''eth_getBlockByNumber'' (JArr [JStr tag, JBool False])))
       (\<lambda>value. liftR (parse_block tag expected_number value))"

definition block_by_number :: "('w, 'z) rpc_scheme \<Rightarrow> u64 \<Rightarrow> ('w, chain_error, block_anchor) act" where
  "block_by_number rpc number = block_at rpc (hex_tag number) (Some number)"

definition finalized_block :: "('w, 'z) rpc_scheme \<Rightarrow> ('w, chain_error, block_anchor) act" where
  "finalized_block rpc = block_at rpc ''finalized'' None"

definition latest_block :: "('w, 'z) rpc_scheme \<Rightarrow> ('w, chain_error, block_anchor) act" where
  "latest_block rpc = block_at rpc ''latest'' None"

definition chain_id :: "('w, 'z) rpc_scheme \<Rightarrow> ('w, chain_error, u64) act" where
  "chain_id rpc =
     bindA (map_errA ChainRpc (rpc_request rpc ''eth_chainId'' (JArr []))) (\<lambda>value. liftR (quantity value ''chainId''))"

section \<open>Search by timestamp\<close>

text \<open>The loop \<^verbatim>\<open>while low < high\<close>.\<close>

function timestamp_search :: "('w, 'z) rpc_scheme \<Rightarrow> u64 \<Rightarrow> u64 \<Rightarrow> u64 \<Rightarrow> ('w, chain_error, u64) act" where
  "timestamp_search rpc timestamp low high =
     (if low < high
      then let middle = low + div_ceil (high - low) 2
           in bindA (block_by_number rpc middle) (\<lambda>candidate.
                if ba_timestamp candidate \<le> timestamp then timestamp_search rpc timestamp middle high
                else timestamp_search rpc timestamp low (middle - 1))
      else retA low)"
  by pat_completeness auto
termination
proof (relation "measure (\<lambda>(rpc, timestamp, low, high). high - low)", goal_cases)
  case (2 rpc timestamp low high middle candidate)
  then show ?case using div_ceil_mult_ge [of 2 "high - low"] by simp
next
  case (3 rpc timestamp low high middle candidate)
  then show ?case using div_ceil_mult_less [of 2 "high - low"] by simp
qed simp

declare timestamp_search.simps [simp del]

definition block_at_or_before_timestamp ::
  "('w, 'z) rpc_scheme \<Rightarrow> u64 \<Rightarrow> u64 \<Rightarrow> ('w, chain_error, u64) act" where
  "block_at_or_before_timestamp rpc timestamp upper_bound =
     bindA (block_by_number rpc upper_bound) (\<lambda>head.
       if ba_timestamp head < timestamp
       then failA (WindowNotFinalized timestamp (ba_number head) (ba_timestamp head))
       else timestamp_search rpc timestamp 1 upper_bound)"

section \<open>Anchors\<close>

definition finalized_settlement_anchors ::
  "('w, 'z) rpc_scheme \<Rightarrow> u64 \<Rightarrow> u64 \<Rightarrow> u64 \<Rightarrow> ('w, chain_error, settlement_anchors) act" where
  "finalized_settlement_anchors rpc reference_block open_block window_end_timestamp =
     bindA (finalized_block rpc) (\<lambda>finalized.
       if ba_timestamp finalized < window_end_timestamp
       then failA (WindowNotFinalized window_end_timestamp (ba_number finalized) (ba_timestamp finalized))
       else if reference_block > ba_number finalized \<or> open_block > ba_number finalized
       then failA (AnchorNotFinalized reference_block open_block (ba_number finalized))
       else bindA (block_at_or_before_timestamp rpc window_end_timestamp (ba_number finalized)) (\<lambda>window_end_block.
            bindA (block_by_number rpc reference_block) (\<lambda>reference.
            bindA (block_by_number rpc open_block) (\<lambda>opened.
            bindA (block_by_number rpc window_end_block) (\<lambda>window_end.
              retA \<lparr>sa_reference = reference, sa_open = opened, sa_window_end = window_end,
                    sa_finalized_head = finalized\<rparr>)))))"

definition assert_anchor :: "('w, 'z) rpc_scheme \<Rightarrow> string \<times> block_anchor \<Rightarrow> ('w, chain_error, unit) act" where
  "assert_anchor rpc named =
     (let (name, expected) = named in
      bindA (block_by_number rpc (ba_number expected)) (\<lambda>actual.
        guardA (ba_hash actual \<noteq> ba_hash expected)
          (AnchorChanged name (ba_number expected) (ba_hash expected) (ba_hash actual))))"

definition assert_anchors_unchanged ::
  "('w, 'z) rpc_scheme \<Rightarrow> settlement_anchors \<Rightarrow> ('w, chain_error, unit) act" where
  "assert_anchors_unchanged rpc anchors =
     foldA (\<lambda>_ named. assert_anchor rpc named) ()
       [(''reference'', sa_reference anchors), (''open'', sa_open anchors),
        (''windowEnd'', sa_window_end anchors), (''finalizedHead'', sa_finalized_head anchors)]"

definition assert_contract_code_at ::
  "('w, 'z) rpc_scheme \<Rightarrow> string \<Rightarrow> string \<Rightarrow> u64 \<Rightarrow> ('w, chain_error, unit) act" where
  "assert_contract_code_at rpc addr label block_number =
     bindA (map_errA ChainRpc (rpc_request rpc ''eth_getCode'' (JArr [JStr addr, JStr (hex_tag block_number)]))) (\<lambda>code.
       guardA (case as_str code of None \<Rightarrow> True | Some c \<Rightarrow> c = ''0x'' \<or> c = [])
         (MissingCode label addr block_number))"

section \<open>Correctness of the search\<close>

text \<open>A provider that serves one chain up to block \<open>head\<close>.\<close>

definition serves_blocks :: "('w, 'z) rpc_scheme \<Rightarrow> (u64 \<Rightarrow> block_anchor) \<Rightarrow> u64 \<Rightarrow> bool" where
  "serves_blocks rpc blk head \<longleftrightarrow>
     (\<forall>n \<le> head. \<exists>v. answers (rpc_request rpc ''eth_getBlockByNumber'' (JArr [JStr (hex_tag n), JBool False])) (Inr v)
        \<and> parse_block (hex_tag n) (Some n) v = Ok (blk n))"

lemma serves_block_by_number:
  assumes "serves_blocks rpc blk head" "n \<le> head"
  shows "answers (block_by_number rpc n) (Ok (blk n))"
proof -
  from assms obtain v where
    v: "answers (rpc_request rpc ''eth_getBlockByNumber'' (JArr [JStr (hex_tag n), JBool False])) (Inr v)"
    "parse_block (hex_tag n) (Some n) v = Ok (blk n)" by (auto simp: serves_blocks_def)
  from answers_map_errA [OF v(1), of ChainRpc] v(2) show ?thesis
    unfolding block_by_number_def block_at_def by (auto intro: answers_bindA_Inr)
qed

lemma serves_blocks_number: "serves_blocks rpc blk head \<Longrightarrow> n \<le> head \<Longrightarrow> ba_number (blk n) = n"
proof -
  assume "serves_blocks rpc blk head" "n \<le> head"
  then obtain v where "parse_block (hex_tag n) (Some n) v = Ok (blk n)" by (auto simp: serves_blocks_def)
  then have "\<exists>t h. blk n = \<lparr>ba_number = n, ba_timestamp = t, ba_hash = h\<rparr>"
    by (auto simp: parse_block_def split: if_splits) metis
  then show "ba_number (blk n) = n" by auto
qed

lemma timestamp_search_correct:
  assumes "serves_blocks rpc blk head" "\<And>a b. a \<le> b \<Longrightarrow> b \<le> head \<Longrightarrow> ba_timestamp (blk a) \<le> ba_timestamp (blk b)"
    "low \<le> high" "high \<le> head" "ba_timestamp (blk low) \<le> timestamp"
    "\<And>b. high < b \<Longrightarrow> b \<le> head \<Longrightarrow> timestamp < ba_timestamp (blk b)"
  shows "\<exists>b. answers (timestamp_search rpc timestamp low high) (Ok b) \<and> low \<le> b \<and> b \<le> high
    \<and> ba_timestamp (blk b) \<le> timestamp \<and> (\<forall>c. b < c \<longrightarrow> c \<le> head \<longrightarrow> timestamp < ba_timestamp (blk c))"
  using assms(3-6)
proof (induction "high - low" arbitrary: low high rule: less_induct)
  case less
  show ?case
  proof (cases "low < high")
    case False
    with less.prems show ?thesis by (intro exI [of _ low]) (auto simp: timestamp_search.simps)
  next
    case True
    define m where "m = low + div_ceil (high - low) 2"
    have m: "low < m" "m \<le> high"
      using True div_ceil_mult_ge [of 2 "high - low"] div_ceil_mult_less [of 2 "high - low"] by (auto simp: m_def)
    have unfold: "timestamp_search rpc timestamp low high = bindA (block_by_number rpc m) (\<lambda>candidate.
        if ba_timestamp candidate \<le> timestamp then timestamp_search rpc timestamp m high
        else timestamp_search rpc timestamp low (m - 1))"
      unfolding m_def by (subst timestamp_search.simps) (simp only: Let_def True if_True)
    have served: "answers (block_by_number rpc m) (Ok (blk m))"
      using serves_block_by_number [OF assms(1)] m less.prems(2) by simp
    show ?thesis
    proof (cases "ba_timestamp (blk m) \<le> timestamp")
      case early: True
      have "high - m < high - low" using m by simp
      from less.hyps [OF this m(2) less.prems(2) early less.prems(4)] obtain b where
        "answers (timestamp_search rpc timestamp m high) (Ok b)" "m \<le> b" "b \<le> high" "ba_timestamp (blk b) \<le> timestamp"
        "\<forall>c. b < c \<longrightarrow> c \<le> head \<longrightarrow> timestamp < ba_timestamp (blk c)" by auto
      with served early m show ?thesis unfolding unfold
        by (intro exI [of _ b]) (auto intro!: answers_bindA_Inr)
    next
      case late: False
      have above: "timestamp < ba_timestamp (blk c)" if "m - 1 < c" "c \<le> head" for c
        using that late assms(2) [of m c] m by fastforce
      have "m - 1 - low < high - low" "low \<le> m - 1" "m - 1 \<le> head" using m less.prems(2) by simp_all
      from less.hyps [OF this less.prems(3) above] obtain b where
        "answers (timestamp_search rpc timestamp low (m - 1)) (Ok b)" "low \<le> b" "b \<le> m - 1" "ba_timestamp (blk b) \<le> timestamp"
        "\<forall>c. b < c \<longrightarrow> c \<le> head \<longrightarrow> timestamp < ba_timestamp (blk c)" by auto
      with served late m show ?thesis unfolding unfold
        by (intro exI [of _ b]) (auto intro!: answers_bindA_Inr)
    qed
  qed
qed

text \<open>
  C23.  Against a provider that serves one chain whose timestamps do not decrease, the binary search
  for a timestamp succeeds and returns the last block at or before it among the blocks
  \<open>1\<close> to \<open>upper_bound\<close>, provided the upper bound is not older than the timestamp and the
  first block is not younger; if the upper bound is older, the error says that the window is not
  final yet.\<close>

theorem block_at_or_before_timestamp_correct:
  assumes "serves_blocks rpc blk upper_bound"
    "\<And>a b. a \<le> b \<Longrightarrow> b \<le> upper_bound \<Longrightarrow> ba_timestamp (blk a) \<le> ba_timestamp (blk b)"
    "1 \<le> upper_bound" "ba_timestamp (blk 1) \<le> timestamp"
  shows "if ba_timestamp (blk upper_bound) < timestamp
    then answers (block_at_or_before_timestamp rpc timestamp upper_bound)
      (Err (WindowNotFinalized timestamp upper_bound (ba_timestamp (blk upper_bound))))
    else \<exists>b. answers (block_at_or_before_timestamp rpc timestamp upper_bound) (Ok b)
      \<and> 1 \<le> b \<and> b \<le> upper_bound \<and> ba_timestamp (blk b) \<le> timestamp
      \<and> (\<forall>c. b < c \<longrightarrow> c \<le> upper_bound \<longrightarrow> timestamp < ba_timestamp (blk c))"
proof -
  note head = serves_block_by_number [OF assms(1) order.refl]
  show ?thesis
  proof (cases "ba_timestamp (blk upper_bound) < timestamp")
    case True
    with serves_blocks_number [OF assms(1) order.refl] show ?thesis
      unfolding block_at_or_before_timestamp_def by (auto intro!: answers_bindA_Inr [OF head])
  next
    case False
    from timestamp_search_correct [OF assms(1,2,3) order.refl assms(4)] obtain b where
      b: "answers (timestamp_search rpc timestamp 1 upper_bound) (Ok b)" "1 \<le> b" "b \<le> upper_bound"
        "ba_timestamp (blk b) \<le> timestamp"
        "\<forall>c. b < c \<longrightarrow> c \<le> upper_bound \<longrightarrow> timestamp < ba_timestamp (blk c)" by auto
    have "answers (block_at_or_before_timestamp rpc timestamp upper_bound) (Ok b)"
      unfolding block_at_or_before_timestamp_def using False b(1) by (auto intro!: answers_bindA_Inr [OF head])
    with False b(2-) show ?thesis by auto
  qed
qed

lemma assert_anchor_answers:
  assumes "serves_blocks rpc blk head" "ba_number a \<le> head"
  shows "answers (assert_anchor rpc (name, a))
    (if ba_hash (blk (ba_number a)) = ba_hash a then Ok ()
     else Err (AnchorChanged name (ba_number a) (ba_hash a) (ba_hash (blk (ba_number a)))))"
  unfolding assert_anchor_def
  by (auto simp: guardA_def intro!: answers_bindA_Inr [OF serves_block_by_number [OF assms]])

text \<open>
   Against a provider that serves one chain containing the four anchor blocks, the final anchor
  check passes exactly when the chain still has the recorded hash at each of the four anchors.\<close>

theorem assert_anchors_unchanged_iff:
  assumes "serves_blocks rpc blk head"
    "\<forall>a \<in> {sa_reference anchors, sa_open anchors, sa_window_end anchors, sa_finalized_head anchors}. ba_number a \<le> head"
  shows "answers (assert_anchors_unchanged rpc anchors) (Ok ()) \<longleftrightarrow>
    (\<forall>a \<in> {sa_reference anchors, sa_open anchors, sa_window_end anchors, sa_finalized_head anchors}.
       ba_hash (blk (ba_number a)) = ba_hash a)"
proof -
  define check where "check = (\<lambda>(_::unit) (name :: string, a :: block_anchor).
    if ba_hash (blk (ba_number a)) = ba_hash a then Ok ()
    else Err (AnchorChanged name (ba_number a) (ba_hash a) (ba_hash (blk (ba_number a)))))"
  have "answers (assert_anchors_unchanged rpc anchors) (foldR check ()
      [(''reference'', sa_reference anchors), (''open'', sa_open anchors),
       (''windowEnd'', sa_window_end anchors), (''finalizedHead'', sa_finalized_head anchors)])"
    (is "answers _ ?r")
    unfolding assert_anchors_unchanged_def
    using assms(2) by (intro answers_foldA) (auto simp: check_def intro!: assert_anchor_answers [OF assms(1), THEN back_subst [of "answers _"]])
  moreover have "?r = Ok () \<longleftrightarrow>
    (\<forall>a \<in> {sa_reference anchors, sa_open anchors, sa_window_end anchors, sa_finalized_head anchors}.
       ba_hash (blk (ba_number a)) = ba_hash a)" by (auto simp: check_def split: if_splits)
  ultimately show ?thesis using answers_unique by metis
qed

section \<open>A small chain\<close>

definition demo_block_json :: "nat \<Rightarrow> json" where
  "demo_block_json n = JObj [(''number'', JStr (hex_tag n)), (''timestamp'', JStr (hex_tag (12 * n))),
     (''hash'', JStr (hash_hex (be_bytes 32 n)))]"

definition demo_block :: "nat \<Rightarrow> block_anchor" where
  "demo_block n = \<lparr>ba_number = n, ba_timestamp = 12 * n, ba_hash = hash_hex (be_bytes 32 n)\<rparr>"

definition demo_chain :: "unit rpc" where
  "demo_chain = demo_rpc\<lparr>rpc_request := (\<lambda>method params. case params of
       JArr [JStr tag, _] \<Rightarrow> (case u64_from_str_radix16 (drop 2 tag) of
           Some n \<Rightarrow> retA (demo_block_json n) | None \<Rightarrow> failA (JsonRpc 0 ''unknown block''))
     | _ \<Rightarrow> failA (JsonRpc 0 ''invalid parameters''))\<rparr>"

lemma quantity_tag: "n \<le> u64_max \<Longrightarrow> quantity (JStr (hex_tag n)) field = Ok n"
  using show_hex_head [of n] by (auto simp: quantity_def hex_tag_def strip_prefix_def hex_roundtrip)

lemma block_hash_canonical: "length h = 32 \<Longrightarrow> block_hash (JStr (hash_hex h)) = Ok (hash_hex h)"
  by (simp add: block_hash_def hash_hex_def strip_prefix_def)

lemma demo_chain_serves: "12 * head \<le> u64_max \<Longrightarrow> serves_blocks demo_chain demo_block head"
proof -
  assume "12 * head \<le> u64_max"
  then have *: "n \<le> head \<Longrightarrow> n \<le> u64_max \<and> 12 * n \<le> u64_max" for n by simp
  have "parse_block (hex_tag n) (Some n) (demo_block_json n) = Ok (demo_block n)" if "n \<le> head" for n
    using * [OF that]
    by (simp add: parse_block_def demo_block_json_def demo_block_def json_index_def quantity_tag block_hash_canonical
        del: be_bytes.simps)
  moreover have "rpc_request demo_chain ''eth_getBlockByNumber'' (JArr [JStr (hex_tag n), JBool False])
      = retA (demo_block_json n)" if "n \<le> head" for n
    using * [OF that] by (simp add: demo_chain_def hex_tag_def hex_roundtrip)
  ultimately show ?thesis unfolding serves_blocks_def
    by (intro allI impI, intro exI [of _ "demo_block_json n" for n] conjI) (simp_all add: answers_def)
qed

theorem block_at_or_before_timestamp_correct_witness:
  "answers (block_at_or_before_timestamp demo_chain 30 5) (Ok 2)
    \<and> answers (block_at_or_before_timestamp demo_chain 61 5) (Err (WindowNotFinalized 61 5 60))"
proof -
  note inst = block_at_or_before_timestamp_correct [OF demo_chain_serves, of 5]
  have "\<exists>b. answers (block_at_or_before_timestamp demo_chain 30 5) (Ok b) \<and> 1 \<le> b \<and> b \<le> 5
      \<and> 12 * b \<le> 30 \<and> (\<forall>c. b < c \<longrightarrow> c \<le> 5 \<longrightarrow> 30 < 12 * c)"
    using inst [of 30] by (simp add: demo_block_def u64_max_def)
  then obtain b where b: "answers (block_at_or_before_timestamp demo_chain 30 5) (Ok b)" "12 * b \<le> 30"
    "\<forall>c. b < c \<longrightarrow> c \<le> 5 \<longrightarrow> 30 < 12 * c" by blast
  from b(2) b(3) [rule_format, of 2] have "b = 2" by (cases "b < 2") auto
  with b(1) inst [of 61] show ?thesis by (simp add: demo_block_def u64_max_def)
qed

theorem assert_anchors_unchanged_iff_witness:
  "answers (assert_anchors_unchanged demo_chain \<lparr>sa_reference = demo_block 2, sa_open = demo_block 3,
     sa_window_end = demo_block 4, sa_finalized_head = demo_block 5\<rparr>) (Ok ())
   \<and> \<not> answers (assert_anchors_unchanged demo_chain \<lparr>sa_reference = (demo_block 2)\<lparr>ba_hash := ''0x''\<rparr>, sa_open = demo_block 3,
     sa_window_end = demo_block 4, sa_finalized_head = demo_block 5\<rparr>) (Ok ())"
proof -
  have served: "serves_blocks demo_chain demo_block 5" by (rule demo_chain_serves) (simp add: u64_max_def)
  have "ba_hash (demo_block 2) \<noteq> ''0x''"
    using length_hex_encode [of "be_bytes 32 2"] by (auto simp: demo_block_def hash_hex_def simp del: be_bytes.simps length_hex_encode)
  then show ?thesis
    by (simp add: assert_anchors_unchanged_iff [OF served] demo_block_def del: be_bytes.simps)
qed

end
