(* ===== verification/Ordered_Map.thy ===== *)
theory Ordered_Map
  imports Prelude
begin

text \<open>
  Rust's \<^verbatim>\<open>BTreeMap\<close> and \<^verbatim>\<open>BTreeSet\<close>, whose iteration order the program relies on (commitments,
  checkpoints and read plans list their keys in order).  A map is an association list with strictly
  ascending keys; a set is its ascending list of elements.  The locale \<open>ordered_map\<close> states the
  contract the clients use: what a lookup returns after an insertion, and that a map is determined by
  its lookups.
\<close>

locale ordered_map =
  fixes empty :: 'm
    and get :: "'m \<Rightarrow> 'k \<Rightarrow> 'v option"
    and insert :: "'k \<Rightarrow> 'v \<Rightarrow> 'm \<Rightarrow> 'm"
    and wf :: "'m \<Rightarrow> bool"
  assumes get_empty: "get empty k = None"
    and get_insert: "wf m \<Longrightarrow> get (insert k v m) k' = (if k' = k then Some v else get m k')"
    and wf_empty: "wf empty"
    and wf_insert: "wf m \<Longrightarrow> wf (insert k v m)"
    and extensional: "wf m \<Longrightarrow> wf m' \<Longrightarrow> (\<And>k. get m k = get m' k) \<Longrightarrow> m = m'"
begin

lemma insert_commute:
  "wf m \<Longrightarrow> k \<noteq> k' \<Longrightarrow> insert k v (insert k' v' m) = insert k' v' (insert k v m)"
  by (rule extensional) (auto simp: wf_insert get_insert)

lemma insert_overwrite: "wf m \<Longrightarrow> insert k v (insert k v' m) = insert k v m"
  by (rule extensional) (auto simp: wf_insert get_insert)

lemma wf_fold: "wf m \<Longrightarrow> wf (fold (\<lambda>(k, v). insert k v) kvs m)"
  by (induction kvs arbitrary: m) (auto simp: wf_insert)

lemma get_fold:
  "wf m \<Longrightarrow> get (fold (\<lambda>(k, v). insert k v) kvs m) k
     = (case map_of (rev kvs) k of Some v \<Rightarrow> Some v | None \<Rightarrow> get m k)"
  by (induction kvs arbitrary: m) (auto simp: wf_insert get_insert map_add_def split: option.splits)

lemma fold_perm:
  assumes "distinct (map fst kvs)" "mset kvs = mset kvs'"
  shows "fold (\<lambda>(k, v). insert k v) kvs empty = fold (\<lambda>(k, v). insert k v) kvs' empty"
proof (rule extensional)
  fix k
  have d': "distinct (map fst kvs')" using assms by (metis mset_eq_imp_distinct_iff mset_map)
  have "map_of (rev kvs) = map_of (rev kvs')"
    using assms d' by (intro map_of_eqI) (auto simp: rev_map [symmetric] map_of_eq_Some_iff dest: mset_eq_setD)
  then show "get (fold (\<lambda>(k, v). insert k v) kvs empty) k = get (fold (\<lambda>(k, v). insert k v) kvs' empty) k"
    by (simp add: get_fold wf_empty)
qed (simp_all add: wf_fold wf_empty)

end

section \<open>Association lists with ascending keys\<close>

type_synonym ('k, 'v) btree_map = "('k \<times> 'v) list"

fun om_insert :: "'k::linorder \<Rightarrow> 'v \<Rightarrow> ('k, 'v) btree_map \<Rightarrow> ('k, 'v) btree_map" where
  "om_insert k v [] = [(k, v)]"
| "om_insert k v ((k', v') # m) =
     (if k < k' then (k, v) # (k', v') # m
      else if k = k' then (k, v) # m
      else (k', v') # om_insert k v m)"

definition om_wf :: "('k::linorder, 'v) btree_map \<Rightarrow> bool" where
  "om_wf m \<longleftrightarrow> sorted_wrt (<) (map fst m)"

lemma om_insert_keys: "set (map fst (om_insert k v m)) = insert k (set (map fst m))"
proof (induction m)
  case (Cons a m)
  then show ?case by (cases a) (auto simp del: set_map split: if_splits)
qed simp

lemma om_insert_subset: "set (om_insert k v m) \<subseteq> insert (k, v) (set m)"
  by (induction m) (auto split: if_splits)

lemma om_insert_forall: "(\<forall>(a, b) \<in> set m. P a b) \<Longrightarrow> P k v \<Longrightarrow> (\<forall>(a, b) \<in> set (om_insert k v m). P a b)"
  using om_insert_subset [of k v m] by auto

lemma om_wf_Nil [simp]: "om_wf []"
  by (simp add: om_wf_def)

lemma om_wf_Cons: "om_wf ((k, v) # m) \<longleftrightarrow> (\<forall>k' \<in> set (map fst m). k < k') \<and> om_wf m"
  by (simp add: om_wf_def)

lemma om_wf_insert: "om_wf m \<Longrightarrow> om_wf (om_insert k v m)"
proof (induction m)
  case (Cons a m)
  obtain k' v' where a: "a = (k', v')" by (cases a)
  show ?case
  proof (cases "k' < k")
    case True
    with Cons a om_insert_keys [of k v m] show ?thesis by (auto simp: om_wf_Cons)
  next
    case False
    with Cons.prems a show ?thesis by (auto simp: om_wf_Cons)
  qed
qed (simp add: om_wf_Cons)

lemma om_get_insert: "om_wf m \<Longrightarrow> map_of (om_insert k v m) k' = (if k' = k then Some v else map_of m k')"
  by (induction m) (auto simp: om_wf_Cons)

lemma om_wf_distinct: "om_wf m \<Longrightarrow> distinct (map fst m)"
  by (simp add: om_wf_def strict_sorted_iff)

lemma om_extensional: "om_wf m \<Longrightarrow> om_wf m' \<Longrightarrow> (\<And>k. map_of m k = map_of m' k) \<Longrightarrow> m = m'"
proof -
  assume wf: "om_wf m" "om_wf m'" and eq: "\<And>k. map_of m k = map_of m' k"
  have "map_of m = map_of m'" using eq by blast
  then have "set m = set m'" by (metis map_of_eq_Some_iff om_wf_distinct subrelI subset_antisym wf)
  then have "map fst m = map fst m'"
    using wf by (metis om_wf_def set_map strict_sorted_equal)
  moreover have canon: "m = map (\<lambda>k. (k, the (map_of m k))) (map fst m)" if "om_wf m" for m :: "('a \<times> 'b) list"
    unfolding map_map comp_def
    by (rule map_idI [symmetric]) (use om_wf_distinct [OF that] in \<open>auto simp: map_of_eq_Some_iff\<close>)
  ultimately show "m = m'" using canon [OF wf(1)] canon [OF wf(2)] \<open>map_of m = map_of m'\<close> by simp
qed

interpretation btree: ordered_map "[] :: ('k::linorder, 'v) btree_map" map_of om_insert om_wf
  by unfold_locales (auto simp: om_get_insert om_wf_insert intro: om_extensional)

definition om_of :: "('k::linorder \<times> 'v) list \<Rightarrow> ('k, 'v) btree_map" where
  "om_of kvs = fold (\<lambda>(k, v). om_insert k v) kvs []"

lemmas om_of_wf = btree.wf_fold [OF btree.wf_empty, folded om_of_def]

lemma om_of_get: "map_of (om_of kvs) k = map_of (rev kvs) k"
  using btree.get_fold [OF btree.wf_empty, of kvs k] by (simp add: om_of_def split: option.splits)

lemmas om_of_perm = btree.fold_perm [folded om_of_def]

text \<open>\<^verbatim>\<open>iter().collect::<BTreeSet<_>>()\<close>\<close>

definition set_of :: "'a::linorder list \<Rightarrow> 'a list" where
  "set_of xs = sort (remdups xs)"

lemma set_of_props [simp]: "set (set_of xs) = set xs" "distinct (set_of xs)" "sorted (set_of xs)"
  by (simp_all add: set_of_def)

end
