(* ===== verification/Config.thy ===== *)
theory Config
  imports Encoding Effects Ordered_Map
begin

text \<open>
  The derived bootstrap configuration of \<^verbatim>\<open>offchain-rust/src/config.rs\<close>: its validation, the
  canonical commitment document and the configuration hash.  The JSON printer and Keccak-256 are
  parameters.  The constants are those of the default build (the \<^verbatim>\<open>sepolia\<close> feature only changes
  the chain identifier).
\<close>

definition CONFIG_VERSION :: string where "CONFIG_VERSION = ''5.0.0''"
definition CHAIN_ID :: u64 where "CHAIN_ID = 1"
definition MAX_LOG_RANGE :: u64 where "MAX_LOG_RANGE = 1000"
definition LOG_RESULT_CAP :: nat where "LOG_RESULT_CAP = 1000"

datatype config_error =
    ZeroRegistry
  | ZeroDefiInsurance
  | InvalidBoosterBoostBps u64
  | InvalidOracleStaleness
  | MissingAssetFeed address

record bootstrap_config =
  bc_version :: string
  bc_chain_id :: u64
  bc_registry :: address
  bc_defi_insurance :: address
  bc_booster_id :: u64
  bc_booster_boost_bps :: u64
  bc_asset_usd_feed :: "(address, address) btree_map"
  bc_max_oracle_staleness :: u64

definition derived ::
  "address \<Rightarrow> address \<Rightarrow> u64 \<Rightarrow> u64 \<Rightarrow> (address, address) btree_map \<Rightarrow> u64
    \<Rightarrow> (config_error, bootstrap_config) result" where
  "derived registry defi_insurance booster_id booster_boost_bps asset_usd_feed max_oracle_staleness =
     (if is_zero registry then Err ZeroRegistry
      else if is_zero defi_insurance then Err ZeroDefiInsurance
      else if booster_boost_bps = 0 \<or> booster_boost_bps > 65535 then Err (InvalidBoosterBoostBps booster_boost_bps)
      else if max_oracle_staleness = 0 then Err InvalidOracleStaleness
      else case find (\<lambda>(asset, feed). is_zero feed) asset_usd_feed of
        Some (asset, feed) \<Rightarrow> Err (MissingAssetFeed asset)
      | None \<Rightarrow> Ok \<lparr>bc_version = CONFIG_VERSION, bc_chain_id = CHAIN_ID, bc_registry = registry,
          bc_defi_insurance = defi_insurance, bc_booster_id = booster_id, bc_booster_boost_bps = booster_boost_bps,
          bc_asset_usd_feed = asset_usd_feed, bc_max_oracle_staleness = max_oracle_staleness\<rparr>)"

definition commitment :: "bootstrap_config \<Rightarrow> json" where
  "commitment c = JObj [
     (''version'', JStr (bc_version c)),
     (''chainId'', JStr (show_nat (bc_chain_id c))),
     (''registry'', JStr (address_to_string (bc_registry c))),
     (''defiInsurance'', JStr (address_to_string (bc_defi_insurance c))),
     (''boosterId'', JStr (show_nat (bc_booster_id c))),
     (''boosterBoostBps'', JStr (show_nat (bc_booster_boost_bps c))),
     (''assetUsdFeed'', JArr (map (\<lambda>(asset, feed). JArr [JStr (address_to_string asset), JStr (address_to_string feed)])
        (bc_asset_usd_feed c))),
     (''maxOracleStaleness'', JStr (show_nat (bc_max_oracle_staleness c))),
     (''maxLogRange'', JStr (show_nat MAX_LOG_RANGE)),
     (''logResultCap'', JStr (show_nat LOG_RESULT_CAP))]"

definition config_commitment_json :: "(json \<Rightarrow> string) \<Rightarrow> bootstrap_config \<Rightarrow> string" where
  "config_commitment_json print_json c = print_json (commitment c)"

text \<open>\<^verbatim>\<open>as_bytes\<close> of a text whose characters are single bytes.\<close>

definition text_bytes :: "string \<Rightarrow> bytes" where
  "text_bytes s = map of_char s"

definition config_hash :: "(bytes \<Rightarrow> hash) \<Rightarrow> (json \<Rightarrow> string) \<Rightarrow> bootstrap_config \<Rightarrow> string" where
  "config_hash keccak print_json c = hash_hex (keccak (text_bytes (config_commitment_json print_json c)))"

definition asset_feed :: "bootstrap_config \<Rightarrow> address \<Rightarrow> (config_error, address) result" where
  "asset_feed c asset = ok_or (MissingAssetFeed asset) (map_of (bc_asset_usd_feed c) asset)"

fun config_error_text :: "config_error \<Rightarrow> string" where
  "config_error_text ZeroRegistry = ''registry address is zero''"
| "config_error_text ZeroDefiInsurance = ''defiInsurance address is zero''"
| "config_error_text (InvalidBoosterBoostBps n) = ''booster boostBps must be a nonzero uint16: '' @ show_nat n"
| "config_error_text InvalidOracleStaleness = ''maxOracleStaleness must be positive''"
| "config_error_text (MissingAssetFeed a) = ''no on-chain USD feed configured for pool asset '' @ address_to_string a"

section \<open>Validation and commitment\<close>

definition valid_config :: "bootstrap_config \<Rightarrow> bool" where
  "valid_config c \<longleftrightarrow> \<not> is_zero (bc_registry c) \<and> \<not> is_zero (bc_defi_insurance c)
     \<and> bc_booster_boost_bps c \<in> {1..65535} \<and> bc_max_oracle_staleness c > 0
     \<and> (\<forall>(asset, feed) \<in> set (bc_asset_usd_feed c). \<not> is_zero feed)"

lemma find_feed_None: "find (\<lambda>(asset, feed). is_zero feed) fs = None \<longleftrightarrow> (\<forall>(asset, feed) \<in> set fs. \<not> is_zero feed)"
  by (auto simp: find_None_iff)

lemma derived_valid: "derived r d b bb fs st = Ok c \<Longrightarrow> valid_config c \<and> bc_asset_usd_feed c = fs
    \<and> bc_registry c = r \<and> bc_defi_insurance c = d \<and> bc_booster_id c = b \<and> bc_booster_boost_bps c = bb
    \<and> bc_max_oracle_staleness c = st"
  unfolding derived_def
  by (auto simp: valid_config_def find_feed_None split: if_splits option.splits)

lemma asset_feed_nonzero: "valid_config c \<Longrightarrow> asset_feed c a = Ok f \<Longrightarrow> \<not> is_zero f"
  by (auto simp: asset_feed_def valid_config_def dest: map_of_SomeD)

lemma commitment_inj:
  assumes "commitment c = commitment c'" "bc_version c = bc_version c'"
  shows "c = c'"
proof -
  have inj: "inj (\<lambda>(asset, feed). JArr [JStr (address_to_string asset), JStr (address_to_string feed)])"
    by (auto simp: inj_def address_to_string_inj)
  from assms(1) have "bc_chain_id c = bc_chain_id c'" "bc_registry c = bc_registry c'"
    "bc_defi_insurance c = bc_defi_insurance c'" "bc_booster_id c = bc_booster_id c'"
    "bc_booster_boost_bps c = bc_booster_boost_bps c'" "bc_max_oracle_staleness c = bc_max_oracle_staleness c'"
    "bc_asset_usd_feed c = bc_asset_usd_feed c'"
    by (auto simp: commitment_def show_nat_inj address_to_string_inj inj_map_eq_map [OF inj])
  with assms(2) show ?thesis by simp
qed

end
