(* ===== verification/Score_Core.thy ===== *)
theory Score_Core
  imports Prelude
begin

text \<open>
  The score accumulator of \<^verbatim>\<open>offchain-rust/score-core/src/lib.rs\<close>: an account's balance is
  integrated block by block inside each segment of an append-only rate history; a segment's
  integral is normalised to 18 decimals and weighted with its rate when the segment closes.
  The second half gives the history-level specification and shows that the accumulator's
  state is a function of the balance history alone, so that the order and the number of
  advances do not matter.
\<close>

section \<open>Data and operations\<close>

definition SCORE_SCALE :: nat where
  "SCORE_SCALE = 1000000000000000000"

record rate_point =
  from_block :: u64
  rate :: biguint

record account_score_state =
  balance :: biguint
  last_block :: u64
  completed_numerator :: biguint
  active_segment_from :: "u64 option"
  active_integral :: biguint

text \<open>\<^verbatim>\<open>#[derive(Default)]\<close> of \<^verbatim>\<open>AccountScoreState\<close>.\<close>

definition default_account :: account_score_state where
  "default_account = \<lparr>balance = 0, last_block = 0, completed_numerator = 0,
     active_segment_from = None, active_integral = 0\<rparr>"

datatype score_core_error =
    RatesNotAscending
  | Backward u64 u64
  | MissingRate u64
  | BalanceUnderflow u64

definition validate_rates :: "rate_point list \<Rightarrow> (score_core_error, unit) result" where
  "validate_rates rates =
     (if list_ex (\<lambda>(a, b). from_block b \<le> from_block a) (windows2 rates)
      then Err RatesNotAscending else Ok ())"

definition scaled_integral :: "biguint \<Rightarrow> nat \<Rightarrow> biguint" where
  "scaled_integral integral decimals =
     (if decimals \<le> 18 then integral * 10 ^ (18 - decimals)
      else integral div 10 ^ (decimals - 18))"

definition rate_for :: "rate_point list \<Rightarrow> u64 \<Rightarrow> (score_core_error, biguint) result" where
  "rate_for rates fb =
     ok_or (MissingRate fb) (map_option rate (find (\<lambda>point. from_block point = fb) rates))"

definition finalize_active ::
  "account_score_state \<Rightarrow> rate_point list \<Rightarrow> nat \<Rightarrow> (score_core_error, account_score_state) result" where
  "finalize_active state rates decimals =
     (case active_segment_from state of
        None \<Rightarrow> Ok state
      | Some fb \<Rightarrow>
          bindR (rate_for rates fb) (\<lambda>r.
            Ok (state\<lparr>completed_numerator := completed_numerator state
                       + scaled_integral (active_integral state) decimals * r,
                     active_segment_from := None,
                     active_integral := 0\<rparr>)))"

text \<open>
  The loop of \<^verbatim>\<open>advance_account\<close> over \<^verbatim>\<open>rates.iter().enumerate()\<close>; the remaining points are
  the recursion argument, so \<^verbatim>\<open>rates.get(index + 1)\<close> is the head of the rest.
\<close>

definition next_from :: "rate_point list \<Rightarrow> u64 option" where
  "next_from rest = (case rest of [] \<Rightarrow> None | n # _ \<Rightarrow> Some (from_block n))"

fun advance_segments ::
  "rate_point list \<Rightarrow> nat \<Rightarrow> u64 \<Rightarrow> rate_point list \<Rightarrow> account_score_state
    \<Rightarrow> (score_core_error, account_score_state) result" where
  "advance_segments rates decimals to_block [] state = Ok state"
| "advance_segments rates decimals to_block (point # rest) state =
     (let nxt = next_from rest;
          overlap_from = max (last_block state) (from_block point);
          overlap_to = (case nxt of None \<Rightarrow> to_block | Some n \<Rightarrow> min n to_block)
      in if overlap_from \<ge> overlap_to
         then advance_segments rates decimals to_block rest state
         else bindR
           (if active_segment_from state \<noteq> Some (from_block point)
            then bindR (finalize_active state rates decimals) (\<lambda>s.
                   Ok (s\<lparr>active_segment_from := Some (from_block point), active_integral := 0\<rparr>))
            else Ok state) (\<lambda>s1.
           let s2 = s1\<lparr>active_integral :=
                         active_integral s1 + balance s1 * (overlap_to - overlap_from)\<rparr>
           in bindR
             (if (case nxt of None \<Rightarrow> False | Some n \<Rightarrow> overlap_to = n \<and> n \<le> to_block)
              then finalize_active s2 rates decimals else Ok s2) (\<lambda>s3.
             advance_segments rates decimals to_block rest s3)))"

definition advance_account ::
  "account_score_state \<Rightarrow> u64 \<Rightarrow> rate_point list \<Rightarrow> nat \<Rightarrow> (score_core_error, account_score_state) result" where
  "advance_account state to_block rates decimals =
     bindR (validate_rates rates) (\<lambda>_.
       if to_block < last_block state then Err (Backward (last_block state) to_block)
       else if to_block = last_block state then Ok state
       else bindR (advance_segments rates decimals to_block rates state) (\<lambda>s.
              Ok (s\<lparr>last_block := to_block\<rparr>)))"

definition apply_transfer ::
  "account_score_state \<Rightarrow> u64 \<Rightarrow> biguint \<Rightarrow> biguint \<Rightarrow> rate_point list \<Rightarrow> nat
    \<Rightarrow> (score_core_error, account_score_state) result" where
  "apply_transfer state block inflow outflow rates decimals =
     bindR (advance_account state block rates decimals) (\<lambda>s.
       if inflow \<ge> outflow then Ok (s\<lparr>balance := balance s + (inflow - outflow)\<rparr>)
       else let decrease = outflow - inflow in
         if decrease > balance s then Err (BalanceUnderflow block)
         else Ok (s\<lparr>balance := balance s - decrease\<rparr>))"

definition projected_numerator ::
  "account_score_state \<Rightarrow> u64 \<Rightarrow> rate_point list \<Rightarrow> nat \<Rightarrow> (score_core_error, biguint) result" where
  "projected_numerator state to_block rates decimals =
     bindR (advance_account state to_block rates decimals) (\<lambda>projected.
       case active_segment_from projected of
         None \<Rightarrow> Ok (completed_numerator projected)
       | Some fb \<Rightarrow>
           bindR (rate_for rates fb) (\<lambda>r.
             Ok (completed_numerator projected
                 + scaled_integral (active_integral projected) decimals * r)))"

definition gross_score :: "biguint \<Rightarrow> biguint" where
  "gross_score numerator = numerator div SCORE_SCALE"

section \<open>Rate histories\<close>

definition rates_ascending :: "rate_point list \<Rightarrow> bool" where
  "rates_ascending rates \<longleftrightarrow> sorted_wrt (<) (map from_block rates)"

lemma validate_rates_iff: "validate_rates rates = Ok () \<longleftrightarrow> rates_ascending rates"
  unfolding validate_rates_def rates_ascending_def
  by (simp add: windows2_no_descent [where f = from_block])

lemma validate_rates_cases:
  "validate_rates rates = (if rates_ascending rates then Ok () else Err RatesNotAscending)"
  unfolding validate_rates_def rates_ascending_def
  by (simp add: windows2_no_descent [where f = from_block])

lemma rates_ascending_distinct: "rates_ascending rates \<Longrightarrow> distinct (map from_block rates)"
  by (simp add: rates_ascending_def strict_sorted_iff)

lemma rates_ascending_Cons:
  "rates_ascending (p # rest) \<longleftrightarrow> (\<forall>q \<in> set rest. from_block p < from_block q) \<and> rates_ascending rest"
  by (auto simp: rates_ascending_def)

lemma rates_ascending_append:
  "rates_ascending (xs @ ys) \<longleftrightarrow> rates_ascending xs \<and> rates_ascending ys
     \<and> (\<forall>p \<in> set xs. \<forall>q \<in> set ys. from_block p < from_block q)"
  by (auto simp: rates_ascending_def sorted_wrt_append)

lemma find_unique:
  "distinct (map f xs) \<Longrightarrow> x \<in> set xs \<Longrightarrow> find (\<lambda>y. f y = f x) xs = Some x"
  by (induction xs) (auto simp: image_iff)

lemma rate_for_member:
  assumes "rates_ascending rates" "p \<in> set rates"
  shows "rate_for rates (from_block p) = Ok (rate p)"
  using assms by (simp add: rate_for_def find_unique rates_ascending_distinct)

section \<open>Specification over balance histories\<close>

text \<open>
  A history gives the balance held during each block.  \<open>seg_end\<close> is the block where the
  segment before \<open>rest\<close> ends, as far as block \<open>t\<close> is concerned; \<open>score_spec\<close> is the numerator the
  protocol defines: for every rate segment, the normalised sum of the balances held in it
  from block \<open>start\<close> up to (excluding) block \<open>t\<close>, weighted with the segment's rate.
\<close>

type_synonym history = "nat \<Rightarrow> biguint"

definition seg_end :: "rate_point list \<Rightarrow> u64 \<Rightarrow> u64" where
  "seg_end rest t = (case next_from rest of None \<Rightarrow> t | Some n \<Rightarrow> min n t)"

definition seg_integral :: "history \<Rightarrow> u64 \<Rightarrow> rate_point \<Rightarrow> u64 \<Rightarrow> biguint" where
  "seg_integral bal start p e = (\<Sum>b\<in>{max start (from_block p)..<e}. bal b)"

fun score_spec :: "history \<Rightarrow> u64 \<Rightarrow> nat \<Rightarrow> u64 \<Rightarrow> rate_point list \<Rightarrow> biguint" where
  "score_spec bal start d t [] = 0"
| "score_spec bal start d t (p # rest) =
     scaled_integral (seg_integral bal start p (seg_end rest t)) d * rate p
     + score_spec bal start d t rest"

text \<open>
  The abstraction function's pieces: a segment is closed at \<open>t\<close> when the next one has started;
  it is open at \<open>t\<close> when it has a started, non-empty part and no successor has started.
\<close>

definition closed_at :: "rate_point list \<Rightarrow> u64 \<Rightarrow> bool" where
  "closed_at rest t \<longleftrightarrow> (case next_from rest of None \<Rightarrow> False | Some n \<Rightarrow> n \<le> t)"

fun closed_sum :: "history \<Rightarrow> u64 \<Rightarrow> nat \<Rightarrow> u64 \<Rightarrow> rate_point list \<Rightarrow> biguint" where
  "closed_sum bal start d t [] = 0"
| "closed_sum bal start d t (p # rest) =
     (if closed_at rest t
      then scaled_integral (seg_integral bal start p (seg_end rest t)) d * rate p else 0)
     + closed_sum bal start d t rest"

fun open_seg :: "u64 \<Rightarrow> u64 \<Rightarrow> rate_point list \<Rightarrow> rate_point option" where
  "open_seg start t [] = None"
| "open_seg start t (p # rest) =
     (if max start (from_block p) < t \<and> \<not> closed_at rest t then Some p
      else open_seg start t rest)"

definition score_state ::
  "history \<Rightarrow> u64 \<Rightarrow> nat \<Rightarrow> rate_point list \<Rightarrow> u64 \<Rightarrow> biguint \<Rightarrow> account_score_state" where
  "score_state bal start d rates t b =
     \<lparr>balance = b, last_block = t,
      completed_numerator = closed_sum bal start d t rates,
      active_segment_from = map_option from_block (open_seg start t rates),
      active_integral = (case open_seg start t rates of None \<Rightarrow> 0
                          | Some p \<Rightarrow> seg_integral bal start p t)\<rparr>"


section \<open>The accumulator computes the specification\<close>

lemma scaled_integral_0 [simp]: "scaled_integral 0 d = 0"
  by (simp add: scaled_integral_def)

lemma seg_integral_empty [simp]: "e \<le> max start (from_block p) \<Longrightarrow> seg_integral bal start p e = 0"
  by (simp add: seg_integral_def)

lemma seg_integral_extend:
  assumes "max start (from_block p) \<le> m" "m \<le> e" "\<And>b. m \<le> b \<Longrightarrow> b < e \<Longrightarrow> bal b = c"
  shows "seg_integral bal start p e = seg_integral bal start p m + c * (e - m)"
proof -
  have "seg_integral bal start p e = seg_integral bal start p m + (\<Sum>b\<in>{m..<e}. bal b)"
    unfolding seg_integral_def by (rule sum_atLeastLessThan_split [OF assms(1,2)])
  also have "(\<Sum>b\<in>{m..<e}. bal b) = c * (e - m)"
    by (rule sum_atLeastLessThan_const) (rule assms(3))
  finally show ?thesis .
qed

text \<open>Segments that start at or after block \<open>t\<close> contribute nothing at \<open>t\<close>.\<close>

lemma future_segments:
  assumes "rates_ascending pts" "\<forall>q \<in> set pts. t \<le> from_block q"
  shows "closed_sum bal start d t pts = 0 \<and> open_seg start t pts = None
    \<and> score_spec bal start d t pts = 0"
  using assms
proof (induction pts)
  case (Cons p rest)
  then have IH: "closed_sum bal start d t rest = 0" "open_seg start t rest = None"
    "score_spec bal start d t rest = 0"
    by (auto simp: rates_ascending_Cons)
  have "seg_end rest t \<le> max start (from_block p)"
    using Cons.prems by (auto simp: seg_end_def next_from_def split: list.splits)
  moreover have "\<not> closed_at rest t"
    using Cons.prems
    by (cases rest) (auto simp: closed_at_def next_from_def rates_ascending_Cons)
  ultimately show ?case using IH Cons.prems by auto
qed simp

lemma advance_segments_future:
  assumes "\<forall>q \<in> set pts. t \<le> from_block q"
  shows "advance_segments rates d t pts s = Ok s"
  using assms
proof (induction pts)
  case (Cons p rest)
  have "(case next_from rest of None \<Rightarrow> t | Some n \<Rightarrow> min n t) \<le> max (last_block s) (from_block p)"
    using Cons.prems by (auto split: option.splits)
  with Cons show ?case by (simp add: Let_def)
qed simp

text \<open>The fields the loop writes, at one point of the loop.\<close>

definition loop_state ::
  "history \<Rightarrow> u64 \<Rightarrow> nat \<Rightarrow> rate_point list \<Rightarrow> u64 \<Rightarrow> biguint \<Rightarrow> account_score_state \<Rightarrow> account_score_state" where
  "loop_state bal start d pts t c s = s\<lparr>
      completed_numerator := c + closed_sum bal start d t pts,
      active_segment_from := map_option from_block (open_seg start t pts),
      active_integral := (case open_seg start t pts of None \<Rightarrow> 0
                           | Some p \<Rightarrow> seg_integral bal start p t)\<rparr>"

lemma not_closed_future:
  assumes "rates_ascending (p # rest)" "\<not> closed_at rest t"
  shows "\<forall>q \<in> set rest. t < from_block q"
  using assms
  by (cases rest) (auto simp: closed_at_def next_from_def rates_ascending_Cons)

lemma closed_at_not_open:
  assumes "rates_ascending (p # rest)" "\<not> closed_at rest t"
  shows "open_seg start t rest = None" "closed_sum bal start d t rest = 0"
  using future_segments [of rest t bal start d] not_closed_future [OF assms] assms(1)
  by (auto simp: rates_ascending_Cons intro: less_imp_le)

lemma advance_segments_loop:
  assumes "rates_ascending rates" "set pts \<subseteq> set rates" "rates_ascending pts"
    and "start \<le> l" "l < t" "\<And>b. l \<le> b \<Longrightarrow> b < t \<Longrightarrow> bal b = balance s" "last_block s = l"
  shows "advance_segments rates d t pts (loop_state bal start d pts l c s)
    = Ok (loop_state bal start d pts t c s)"
  using assms
proof (induction pts arbitrary: c)
  case Nil
  then show ?case by (simp add: loop_state_def)
next
  case (Cons p rest)
  note asc = Cons.prems(3)
  have IH: "advance_segments rates d t rest (loop_state bal start d rest l c' s)
    = Ok (loop_state bal start d rest t c' s)" for c'
    by (rule Cons.IH) (use Cons.prems in \<open>auto simp: rates_ascending_Cons\<close>)
  let ?ot = "case next_from rest of None \<Rightarrow> t | Some n \<Rightarrow> min n t"
  have ot: "?ot = seg_end rest t" by (simp add: seg_end_def)
  have rf: "rate_for rates (from_block p) = Ok (rate p)"
    by (rule rate_for_member) (use Cons.prems in auto)
  consider (closed) "closed_at rest l" | (future) "t \<le> from_block p"
    | (live) "\<not> closed_at rest l" "from_block p < t" by linarith
  then show ?case
  proof cases
    case closed
    then obtain n where n: "next_from rest = Some n" "n \<le> l"
      by (auto simp: closed_at_def split: option.splits)
    have same: "seg_end rest t = seg_end rest l" "closed_at rest t"
      using n Cons.prems(5) by (auto simp: seg_end_def closed_at_def)
    have skip: "seg_end rest t \<le> max l (from_block p)"
      using n by (simp add: seg_end_def)
    define c' where "c' = c + scaled_integral (seg_integral bal start p (seg_end rest l)) d * rate p"
    have "loop_state bal start d (p # rest) l c s = loop_state bal start d rest l c' s"
      and "loop_state bal start d (p # rest) t c s = loop_state bal start d rest t c' s"
      using closed same by (simp_all add: loop_state_def c'_def)
    then show ?thesis
      using IH [of c'] skip Cons.prems(7) by (simp add: ot loop_state_def)
  next
    case future
    then have all: "\<forall>q \<in> set (p # rest). t \<le> from_block q"
      using asc by (auto simp: rates_ascending_Cons)
    then have all_l: "\<forall>q \<in> set (p # rest). l \<le> from_block q"
      using Cons.prems(5) by auto
    have "loop_state bal start d (p # rest) l c s = loop_state bal start d (p # rest) t c s"
      unfolding loop_state_def
      by (simp only: future_segments [OF asc all] future_segments [OF asc all_l] option.case)
    then show ?thesis by (simp only: advance_segments_future [OF all])
  next
    case live
    have none: "open_seg start l rest = None" "closed_sum bal start d l rest = 0"
      using closed_at_not_open [OF asc live(1)] by auto
    have enter: "max l (from_block p) < seg_end rest t" "seg_end rest t \<le> t"
      using live Cons.prems(5) asc
      by (auto simp: seg_end_def closed_at_def next_from_def rates_ascending_Cons split: list.splits)
    define g where "g = (if max start (from_block p) < l then seg_integral bal start p l else 0)"
    have g: "g + balance s * (seg_end rest t - max l (from_block p)) = seg_integral bal start p (seg_end rest t)"
    proof (cases "max start (from_block p) < l")
      case True
      then have "seg_integral bal start p (seg_end rest t)
          = seg_integral bal start p l + balance s * (seg_end rest t - l)"
        by (intro seg_integral_extend) (use enter Cons.prems(6) in auto)
      with True show ?thesis by (simp add: g_def)
    next
      case False
      then have eq: "max l (from_block p) = max start (from_block p)"
        using Cons.prems(4) by auto
      have "seg_integral bal start p (seg_end rest t)
          = seg_integral bal start p (max l (from_block p)) + balance s * (seg_end rest t - max l (from_block p))"
        by (intro seg_integral_extend) (use enter eq Cons.prems(6) in auto)
      with False eq show ?thesis by (simp add: g_def)
    qed
    define s2 where "s2 = s\<lparr>completed_numerator := c, active_segment_from := Some (from_block p),
      active_integral := seg_integral bal start p (seg_end rest t)\<rparr>"
    have ls: "last_block (loop_state bal start d (p # rest) l c s) = l"
      using Cons.prems(7) by (simp add: loop_state_def)
    have step: "advance_segments rates d t (p # rest) (loop_state bal start d (p # rest) l c s)
      = bindR (if closed_at rest t then finalize_active s2 rates d else Ok s2)
          (advance_segments rates d t rest)"
    proof -
      have fin: "(case next_from rest of None \<Rightarrow> False | Some n \<Rightarrow> ?ot = n \<and> n \<le> t)
          = closed_at rest t"
        by (auto simp: closed_at_def split: option.splits)
      have skip: "\<not> seg_end rest t \<le> max l (from_block p)" using enter(1) by linarith
      show ?thesis
      proof (cases "max start (from_block p) < l")
        case True
        then have "loop_state bal start d (p # rest) l c s = s\<lparr>completed_numerator := c,
            active_segment_from := Some (from_block p), active_integral := g\<rparr>"
          using live(1) none by (simp add: loop_state_def g_def)
        then show ?thesis using Cons.prems(7) skip g
          by (simp add: ot fin Let_def s2_def)
      next
        case False
        then have "loop_state bal start d (p # rest) l c s = s\<lparr>completed_numerator := c,
            active_segment_from := None, active_integral := 0\<rparr>" and "g = 0"
          using live(1) none by (auto simp: loop_state_def g_def)
        then show ?thesis using Cons.prems(7) skip g
          by (simp add: ot fin Let_def s2_def finalize_active_def)
      qed
    qed
    show ?thesis
    proof (cases "closed_at rest t")
      case True
      define c' where "c' = c + scaled_integral (seg_integral bal start p (seg_end rest t)) d * rate p"
      have "finalize_active s2 rates d = Ok (loop_state bal start d rest l c' s)"
        using rf none by (simp add: finalize_active_def s2_def loop_state_def c'_def)
      then show ?thesis
        using step IH [of c'] True by (simp add: loop_state_def c'_def add.assoc)
    next
      case False
      have fut: "\<forall>q \<in> set rest. t \<le> from_block q"
        using not_closed_future [OF asc False] by auto
      have e: "seg_end rest t = t"
        using False by (auto simp: seg_end_def closed_at_def split: option.splits)
      have "max start (from_block p) < t" using enter e Cons.prems(4) by auto
      then have "loop_state bal start d (p # rest) t c s = s2"
        using closed_at_not_open [OF asc False] False e
        by (simp add: loop_state_def s2_def)
      then show ?thesis using step False advance_segments_future [OF fut] by simp
    qed
  qed
qed

lemma score_state_loop:
  "score_state bal start d rates t b
     = loop_state bal start d rates t 0 (score_state bal start d rates t b)"
  by (simp add: score_state_def loop_state_def)

lemma advance_account_refines:
  assumes "rates_ascending rates" "start \<le> l" "l \<le> t" "\<And>x. l \<le> x \<Longrightarrow> x < t \<Longrightarrow> bal x = b"
  shows "advance_account (score_state bal start d rates l b) t rates d
     = Ok (score_state bal start d rates t b)"
proof (cases "l = t")
  case True
  then show ?thesis using assms(1) by (simp add: advance_account_def validate_rates_cases score_state_def)
next
  case False
  let ?s = "score_state bal start d rates l b"
  have "advance_segments rates d t rates (loop_state bal start d rates l 0 ?s)
      = Ok (loop_state bal start d rates t 0 ?s)"
    by (rule advance_segments_loop) (use assms False in \<open>auto simp: score_state_def\<close>)
  then have "advance_segments rates d t rates ?s = Ok (loop_state bal start d rates t 0 ?s)"
    by (simp only: score_state_loop [symmetric])
  then show ?thesis
    using assms False
    by (simp add: advance_account_def validate_rates_cases) (simp add: score_state_def loop_state_def)
qed

lemma closed_plus_open:
  assumes "rates_ascending rates" "start \<le> t"
  shows "closed_sum bal start d t rates
      + (case open_seg start t rates of None \<Rightarrow> 0
         | Some p \<Rightarrow> scaled_integral (seg_integral bal start p t) d * rate p)
    = score_spec bal start d t rates"
  using assms
proof (induction rates)
  case (Cons p rest)
  then have IH: "closed_sum bal start d t rest
      + (case open_seg start t rest of None \<Rightarrow> 0
         | Some p \<Rightarrow> scaled_integral (seg_integral bal start p t) d * rate p)
    = score_spec bal start d t rest" by (simp add: rates_ascending_Cons)
  show ?case
  proof (cases "closed_at rest t")
    case True
    with IH show ?thesis by simp
  next
    case False
    have fut: "closed_sum bal start d t rest = 0" "open_seg start t rest = None"
      "score_spec bal start d t rest = 0"
      using future_segments [of rest t bal start d] not_closed_future [OF Cons.prems(1) False] Cons.prems(1)
      by (auto simp: rates_ascending_Cons intro: less_imp_le)
    have "seg_end rest t = t"
      using False by (auto simp: seg_end_def closed_at_def split: option.splits)
    with False fut show ?thesis by auto
  qed
qed simp

lemma open_seg_member: "open_seg start t rates = Some p \<Longrightarrow> p \<in> set rates"
  by (induction rates) (auto split: if_splits)

lemma projected_numerator_refines:
  assumes "rates_ascending rates" "start \<le> l" "l \<le> t" "\<And>x. l \<le> x \<Longrightarrow> x < t \<Longrightarrow> bal x = b"
  shows "projected_numerator (score_state bal start d rates l b) t rates d
     = Ok (score_spec bal start d t rates)"
proof -
  have "start \<le> t" using assms(2,3) by simp
  note split = closed_plus_open [OF assms(1) this, of bal d]
  show ?thesis
  proof (cases "open_seg start t rates")
    case None
    with split show ?thesis
      using advance_account_refines [OF assms, where d = d]
      by (simp add: projected_numerator_def score_state_def)
  next
    case (Some p)
    then have "rate_for rates (from_block p) = Ok (rate p)"
      by (intro rate_for_member assms(1) open_seg_member)
    with Some split show ?thesis
      using advance_account_refines [OF assms, where d = d]
      by (simp add: projected_numerator_def score_state_def)
  qed
qed

section \<open>Replaying transfers\<close>

text \<open>
  A transfer is a block with an inflow and an outflow.  \<open>history_of b ts\<close> is the balance
  history a token ledger produces from balance \<open>b\<close>; \<open>covered\<close> says that no transfer takes more
  than the account holds.
\<close>

type_synonym transfer = "u64 \<times> biguint \<times> biguint"

fun history_of :: "biguint \<Rightarrow> transfer list \<Rightarrow> history" where
  "history_of b [] x = b"
| "history_of b ((blk, i, u) # ts) x = (if x < blk then b else history_of (b + i - u) ts x)"

fun covered :: "biguint \<Rightarrow> transfer list \<Rightarrow> bool" where
  "covered b [] \<longleftrightarrow> True"
| "covered b ((blk, i, u) # ts) \<longleftrightarrow> u \<le> b + i \<and> covered (b + i - u) ts"

fun final_balance :: "biguint \<Rightarrow> transfer list \<Rightarrow> biguint" where
  "final_balance b [] = b"
| "final_balance b ((blk, i, u) # ts) = final_balance (b + i - u) ts"

definition replay_account ::
  "account_score_state \<Rightarrow> transfer list \<Rightarrow> rate_point list \<Rightarrow> nat \<Rightarrow> (score_core_error, account_score_state) result" where
  "replay_account s ts rates d =
     foldR (\<lambda>s (blk, i, u). apply_transfer s blk i u rates d) s ts"

definition fresh_account :: "u64 \<Rightarrow> biguint \<Rightarrow> account_score_state" where
  "fresh_account start b = default_account\<lparr>balance := b, last_block := start\<rparr>"

lemma seg_integral_cong:
  "(\<And>x. x < e \<Longrightarrow> bal x = bal' x) \<Longrightarrow> seg_integral bal start p e = seg_integral bal' start p e"
  unfolding seg_integral_def by (intro sum.cong) auto

lemma seg_end_le: "seg_end rest t \<le> t"
  by (simp add: seg_end_def split: option.splits)

lemma closed_sum_cong:
  assumes "\<And>x. x < t \<Longrightarrow> bal x = bal' x"
  shows "closed_sum bal start d t pts = closed_sum bal' start d t pts"
proof (induction pts)
  case (Cons p rest)
  have "seg_integral bal start p (seg_end rest t) = seg_integral bal' start p (seg_end rest t)"
    by (rule seg_integral_cong) (use assms seg_end_le [of rest t] in auto)
  with Cons show ?case by simp
qed simp

lemma score_spec_cong:
  assumes "\<And>x. x < t \<Longrightarrow> bal x = bal' x"
  shows "score_spec bal start d t pts = score_spec bal' start d t pts"
proof (induction pts)
  case (Cons p rest)
  have "seg_integral bal start p (seg_end rest t) = seg_integral bal' start p (seg_end rest t)"
    by (rule seg_integral_cong) (use assms seg_end_le [of rest t] in auto)
  with Cons show ?case by simp
qed simp

lemma score_state_cong:
  assumes "\<And>x. x < t \<Longrightarrow> bal x = bal' x"
  shows "score_state bal start d rates t b = score_state bal' start d rates t b"
  using closed_sum_cong [OF assms] seg_integral_cong [OF assms]
  by (simp add: score_state_def split: option.splits)

lemma closed_sum_at_start: "closed_sum bal start d start pts = 0"
proof (induction pts)
  case (Cons p rest)
  have "seg_end rest start \<le> max start (from_block p)" using seg_end_le [of rest start] by simp
  with Cons show ?case by simp
qed simp

lemma open_seg_at_start: "open_seg start start pts = None"
  by (induction pts) auto

lemma fresh_account_state: "fresh_account start b = score_state bal start d rates start b"
  by (simp add: fresh_account_def score_state_def default_account_def closed_sum_at_start open_seg_at_start)

lemma apply_transfer_refines:
  assumes "rates_ascending rates" "start \<le> l" "l \<le> blk" "\<And>x. l \<le> x \<Longrightarrow> x < blk \<Longrightarrow> bal x = b"
  shows "apply_transfer (score_state bal start d rates l b) blk i u rates d
    = (if u \<le> b + i then Ok (score_state bal start d rates blk (b + i - u))
       else Err (BalanceUnderflow blk))"
  using advance_account_refines [OF assms, where d = d]
  by (auto simp: apply_transfer_def score_state_def Let_def)

definition extend_history :: "history \<Rightarrow> u64 \<Rightarrow> biguint \<Rightarrow> transfer list \<Rightarrow> history" where
  "extend_history bal l b ts x = (if x < l then bal x else history_of b ts x)"

lemma sorted_Cons_le_last: "sorted (x # xs) \<Longrightarrow> x \<le> last (x # xs)"
  using last_in_set [of xs] by (cases "xs = []") auto

lemma history_of_late:
  "sorted (l # map fst ts) \<Longrightarrow> last (l # map fst ts) \<le> x \<Longrightarrow> history_of b ts x = final_balance b ts"
proof (induction ts arbitrary: b l)
  case (Cons tr ts)
  obtain blk i u where tr: "tr = (blk, i, u)" by (cases tr)
  have "blk \<le> last (blk # map fst ts)"
    using Cons.prems(1) tr by (intro sorted_Cons_le_last) simp
  with Cons.prems have "blk \<le> x" by (simp add: tr)
  with Cons.IH [of blk "b + i - u"] Cons.prems show ?case by (simp add: tr)
qed simp

lemma replay_account_refines:
  assumes "rates_ascending rates" "start \<le> l" "sorted (l # map fst ts)" "covered b ts"
  shows "replay_account (score_state bal start d rates l b) ts rates d
    = Ok (score_state (extend_history bal l b ts) start d rates (last (l # map fst ts)) (final_balance b ts))"
  using assms(2-4)
proof (induction ts arbitrary: bal l b)
  case Nil
  have "score_state bal start d rates l b = score_state (extend_history bal l b []) start d rates l b"
    by (rule score_state_cong) (simp add: extend_history_def)
  then show ?case by (simp add: replay_account_def)
next
  case (Cons tr ts)
  obtain blk i u where tr: "tr = (blk, i, u)" by (cases tr)
  from Cons.prems tr have u: "u \<le> b + i" and lb: "l \<le> blk" and srt: "sorted (blk # map fst ts)"
    and cov: "covered (b + i - u) ts" by auto
  let ?bal = "extend_history bal l b (tr # ts)"
  have "score_state bal start d rates l b = score_state ?bal start d rates l b"
    by (rule score_state_cong) (simp add: extend_history_def)
  moreover have "apply_transfer (score_state ?bal start d rates l b) blk i u rates d
      = Ok (score_state ?bal start d rates blk (b + i - u))"
    using apply_transfer_refines [OF assms(1) Cons.prems(1) lb, of ?bal b d i u] u
    by (simp add: extend_history_def tr)
  moreover have "replay_account (score_state ?bal start d rates blk (b + i - u)) ts rates d
      = Ok (score_state (extend_history ?bal blk (b + i - u) ts) start d rates (last (blk # map fst ts)) (final_balance (b + i - u) ts))"
    using Cons.IH [of blk "b + i - u" ?bal] Cons.prems(1) lb srt cov by simp
  moreover have "extend_history ?bal blk (b + i - u) ts = ?bal"
    using lb by (auto simp: extend_history_def tr)
  ultimately show ?case by (simp add: replay_account_def tr)
qed

text \<open>The first transfer that takes more than the account holds.\<close>

fun first_uncovered :: "biguint \<Rightarrow> transfer list \<Rightarrow> u64 option" where
  "first_uncovered b [] = None"
| "first_uncovered b ((blk, i, u) # ts) =
     (if u \<le> b + i then first_uncovered (b + i - u) ts else Some blk)"

lemma first_uncovered_None: "first_uncovered b ts = None \<longleftrightarrow> covered b ts"
  by (induction b ts rule: first_uncovered.induct) auto

lemma replay_account_uncovered:
  assumes "rates_ascending rates" "start \<le> l" "sorted (l # map fst ts)" "first_uncovered b ts = Some blk"
  shows "replay_account (score_state bal start d rates l b) ts rates d = Err (BalanceUnderflow blk)"
  using assms(2-4)
proof (induction ts arbitrary: bal l b)
  case (Cons tr ts)
  obtain x i u where tr: "tr = (x, i, u)" by (cases tr)
  let ?bal = "extend_history bal l b (tr # ts)"
  have st: "score_state bal start d rates l b = score_state ?bal start d rates l b"
    by (rule score_state_cong) (simp add: extend_history_def)
  from Cons.prems tr have lx: "l \<le> x" and srt: "sorted (x # map fst ts)" by auto
  have step: "apply_transfer (score_state ?bal start d rates l b) x i u rates d
      = (if u \<le> b + i then Ok (score_state ?bal start d rates x (b + i - u)) else Err (BalanceUnderflow x))"
    by (rule apply_transfer_refines [OF assms(1) Cons.prems(1) lx]) (simp add: extend_history_def tr)
  show ?case
    using Cons.IH [of x "b + i - u" ?bal] Cons.prems lx srt step
    by (auto simp: replay_account_def tr st split: if_splits)
qed simp

lemma replay_projection:
  assumes "rates_ascending rates" "sorted (start # map fst ts)" "last (start # map fst ts) \<le> t" "covered b ts"
  shows "bindR (replay_account (fresh_account start b) ts rates d) (\<lambda>s. projected_numerator s t rates d)
    = Ok (score_spec (history_of b ts) start d t rates)"
proof -
  let ?bal = "extend_history (\<lambda>_. 0) start b ts"
  let ?l = "last (start # map fst ts)"
  have rep: "replay_account (fresh_account start b) ts rates d
      = Ok (score_state ?bal start d rates ?l (final_balance b ts))"
    using replay_account_refines [OF assms(1) order_refl assms(2,4)] fresh_account_state by metis
  have le: "start \<le> ?l" using assms(2) by (rule sorted_Cons_le_last)
  have "projected_numerator (score_state ?bal start d rates ?l (final_balance b ts)) t rates d
      = Ok (score_spec ?bal start d t rates)"
    by (rule projected_numerator_refines [OF assms(1) le assms(3)])
       (use assms(2) le history_of_late in \<open>auto simp: extend_history_def\<close>)
  moreover have "score_spec ?bal start d t rates = score_spec (history_of b ts) start d t rates"
  proof (induction rates)
    case (Cons p rest)
    have "seg_integral ?bal start p e = seg_integral (history_of b ts) start p e" for e
      unfolding seg_integral_def by (intro sum.cong) (auto simp: extend_history_def)
    with Cons show ?case by simp
  qed simp
  ultimately show ?thesis using rep by simp
qed

section \<open>Properties of the score\<close>

lemma scaled_integral_mono: "x \<le> y \<Longrightarrow> scaled_integral x d \<le> scaled_integral y d"
  by (simp add: scaled_integral_def div_le_mono)

lemma seg_integral_mono: "e \<le> e' \<Longrightarrow> seg_integral bal start p e \<le> seg_integral bal start p e'"
  unfolding seg_integral_def by (intro sum_mono2) auto

lemma seg_end_mono: "t \<le> t' \<Longrightarrow> seg_end rest t \<le> seg_end rest t'"
  by (auto simp: seg_end_def split: option.splits)

lemma score_spec_mono: "t \<le> t' \<Longrightarrow> score_spec bal start d t rates \<le> score_spec bal start d t' rates"
  by (induction rates)
     (auto intro!: add_mono mult_right_mono scaled_integral_mono seg_integral_mono seg_end_mono)

lemma advance_account_split:
  assumes "rates_ascending rates" "start \<le> l" "l \<le> m" "m \<le> t" "\<And>x. l \<le> x \<Longrightarrow> x < t \<Longrightarrow> bal x = b"
  shows "bindR (advance_account (score_state bal start d rates l b) m rates d)
      (\<lambda>s. advance_account s t rates d) = advance_account (score_state bal start d rates l b) t rates d"
  using assms advance_account_refines [of rates start l m bal b d]
    advance_account_refines [of rates start l t bal b d] advance_account_refines [of rates start m t bal b d]
  by simp

section \<open>Claims\<close>

text \<open>
  C4.  Replaying any block-ordered list of transfers with \<^verbatim>\<open>apply_transfer\<close> from a fresh account and
  projecting the numerator to a later block yields exactly the protocol's score: for every rate segment
  the normalised block integral of the balances the transfers leave, weighted with the segment's
  rate.  The only failure is the underflow error, at the first transfer the balance does
  not cover.
\<close>
theorem replay_projection_exact:
  assumes "rates_ascending rates" "sorted (start # map fst ts)" "last (start # map fst ts) \<le> t"
  shows "bindR (replay_account (fresh_account start b) ts rates d) (\<lambda>s. projected_numerator s t rates d)
    = (case first_uncovered b ts of
         None \<Rightarrow> Ok (score_spec (history_of b ts) start d t rates)
       | Some blk \<Rightarrow> Err (BalanceUnderflow blk))"
proof (cases "first_uncovered b ts")
  case None
  then have "covered b ts" by (simp only: first_uncovered_None)
  with None show ?thesis using replay_projection [OF assms] by simp
next
  case (Some blk)
  have "replay_account (fresh_account start b) ts rates d = Err (BalanceUnderflow blk)"
    unfolding fresh_account_state [where bal = "\<lambda>_. 0" and d = d and rates = rates]
    by (rule replay_account_uncovered [OF assms(1) order_refl assms(2) Some])
  with Some show ?thesis by simp
qed

definition demo_rates :: "rate_point list" where
  "demo_rates = [\<lparr>from_block = 10, rate = 2\<rparr>, \<lparr>from_block = 20, rate = 5\<rparr>]"

theorem replay_projection_exact_witness:
  "bindR (replay_account (fresh_account 12 100) [(15, 50, 0), (22, 0, 150)] demo_rates 18)
     (\<lambda>s. projected_numerator s 30 demo_rates 18)
   = Ok ((100 * 3 + 150 * 5) * 2 + (150 * 2) * 5)"
  using replay_projection_exact [of demo_rates 12 "[(15, 50, 0), (22, 0, 150)]" 30 100 18]
  by (simp add: demo_rates_def rates_ascending_def seg_integral_def seg_end_def next_from_def
      scaled_integral_def numeral_eq_Suc atLeastLessThanSuc)

text \<open>
  Scores never expire: for a replayed account the projected numerator, and with it the gross score,
  does not decrease as the projection block moves forward.
\<close>
theorem gross_score_monotone:
  assumes "rates_ascending rates" "sorted (start # map fst ts)" "last (start # map fst ts) \<le> t" "t \<le> t'"
    "covered b ts" "replay_account (fresh_account start b) ts rates d = Ok s"
  shows "\<exists>n n'. projected_numerator s t rates d = Ok n \<and> projected_numerator s t' rates d = Ok n'
    \<and> n \<le> n' \<and> gross_score n \<le> gross_score n'"
proof -
  have "projected_numerator s x rates d = Ok (score_spec (history_of b ts) start d x rates)" if "t \<le> x" for x
    using replay_projection [OF assms(1,2) _ assms(5), of x d] assms(3,6) that by simp
  moreover have "score_spec (history_of b ts) start d t rates \<le> score_spec (history_of b ts) start d t' rates"
    by (rule score_spec_mono [OF assms(4)])
  ultimately show ?thesis using assms(4) by (simp add: gross_score_def div_le_mono)
qed

lemma demo_replay:
  "replay_account (fresh_account 12 100) [(15, 50, 0)] demo_rates 18
   = Ok \<lparr>balance = 150, last_block = 15, completed_numerator = 0,
          active_segment_from = Some 10, active_integral = 300\<rparr>"
  by code_simp

theorem gross_score_monotone_witness:
  "\<exists>n n'. projected_numerator \<lparr>balance = 150, last_block = 15, completed_numerator = 0,
          active_segment_from = Some 10, active_integral = 300\<rparr> 18 demo_rates 18 = Ok n
    \<and> projected_numerator \<lparr>balance = 150, last_block = 15, completed_numerator = 0,
          active_segment_from = Some 10, active_integral = 300\<rparr> 40 demo_rates 18 = Ok n'
    \<and> n \<le> n' \<and> gross_score n \<le> gross_score n'"
  by (rule gross_score_monotone [OF _ _ _ _ _ demo_replay]) (simp_all add: demo_rates_def rates_ascending_def)

text \<open>
   Advancing is insensitive to intermediate stops: for a replayed account, advancing to a block
  \<open>m\<close> and from there to \<open>t\<close> gives the very state of advancing to \<open>t\<close> at once.  A checkpoint taken
  at any block therefore loses nothing.
\<close>
theorem advance_account_stops:
  assumes "rates_ascending rates" "sorted (start # map fst ts)" "last (start # map fst ts) \<le> m" "m \<le> t"
    "covered b ts" "replay_account (fresh_account start b) ts rates d = Ok s"
  shows "bindR (advance_account s m rates d) (\<lambda>s'. advance_account s' t rates d) = advance_account s t rates d"
proof -
  let ?bal = "extend_history (\<lambda>_. 0) start b ts" and ?l = "last (start # map fst ts)"
  have s: "s = score_state ?bal start d rates ?l (final_balance b ts)"
    using replay_account_refines [OF assms(1) order_refl assms(2,5), of "\<lambda>_. 0" d] assms(6)
      fresh_account_state [of start b "\<lambda>_. 0" d rates] by simp
  have le: "start \<le> ?l" using assms(2) by (rule sorted_Cons_le_last)
  show ?thesis unfolding s
    by (rule advance_account_split [OF assms(1) le assms(3,4)])
       (use assms(2) le history_of_late in \<open>auto simp: extend_history_def\<close>)
qed

theorem advance_account_stops_witness:
  "bindR (advance_account \<lparr>balance = 150, last_block = 15, completed_numerator = 0,
          active_segment_from = Some 10, active_integral = 300\<rparr> 20 demo_rates 18)
     (\<lambda>s'. advance_account s' 33 demo_rates 18)
   = advance_account \<lparr>balance = 150, last_block = 15, completed_numerator = 0,
          active_segment_from = Some 10, active_integral = 300\<rparr> 33 demo_rates 18"
  by (rule advance_account_stops [OF _ _ _ _ _ demo_replay]) (simp_all add: demo_rates_def rates_ascending_def)

end
