(* ===== verification/Chain_Reads.thy ===== *)
theory Chain_Reads
  imports Chain_Blocks Config Score_Core
begin

text \<open>
  Contract reads of \<^verbatim>\<open>offchain-rust/src/chain.rs\<close>: direct calls, Multicall3 aggregation, and every getter
  the engine uses, with its validation.  The Solidity codec that \<^verbatim>\<open>sol!\<close> generates for the interfaces of
  \<^verbatim>\<open>abi.rs\<close> is a parameter (\<open>abi\<close>): one \<open>sol_call\<close> per function, with the argument and
  return types of its declaration.  Solidity addresses and unsigned integers are \<^typ>\<open>address\<close> and \<^typ>\<open>nat\<close>.
\<close>

section \<open>The Solidity interfaces\<close>

record ('a, 'r) sol_call =
  sc_signature :: string
  sc_encode :: "'a \<Rightarrow> bytes"
  sc_decode_returns :: "bytes \<Rightarrow> string + 'r"
  sc_encode_returns :: "'r \<Rightarrow> bytes"

record call3 =
  c3_target :: address
  c3_allow_failure :: bool
  c3_call_data :: bytes

record mc_result =
  mr_success :: bool
  mr_return_data :: bytes

record insured_token_ret =
  it_max_coverage_bps :: nat
  it_underlying_price_oracle :: address
  it_conversion_address :: address
  it_conversion_call_data :: bytes

record incidents_ret =
  ir_insured_token :: address
  ir_resolved_at :: u64
  ir_reference_block :: u64
  ir_open_block :: u64
  ir_phase_deadline :: u64
  ir_root :: hash
  ir_unresolved_claims :: nat
  ir_claim_set_hash :: hash
  ir_tee_pcr_hash :: hash
  ir_protocol_fee_share_bps :: nat

record settlement_params_ret =
  sp_twap_lookback_blocks :: u64
  sp_min_holding_required :: u64
  sp_sample_step_blocks :: u64

record booster_config_ret =
  bo_collection :: address
  bo_token_id :: u64
  bo_boost_bps :: nat

record round_data_ret =
  rd_round_id :: nat
  rd_answer :: int
  rd_started_at :: nat
  rd_updated_at :: nat
  rd_answered_in_round :: nat

record timing_config_ret =
  tc_phase_window :: u64
  tc_max_reference_block_age :: u64

record open_price_config_ret =
  op_twap_blocks :: u64
  op_sample_step_blocks :: u64
  op_minimum_drop_bps :: nat

record abi =
  aggregate3 :: "(call3 list, mc_result list) sol_call"
  incidents :: "(nat, incidents_ret) sol_call"
  getInsuredToken :: "(address, insured_token_ret) sol_call"
  settlementParams :: "(unit, settlement_params_ret) sol_call"
  nextIncidentId :: "(unit, u64) sol_call"
  incidentPhaseWindow :: "(nat, u64) sol_call"
  incidentPools :: "(nat, address list) sol_call"
  isTeeSigner :: "(address, bool) sol_call"
  incidentOpenEligibilityHash :: "(address, hash) sol_call"
  registry_of :: "(unit, address) sol_call"
  coverPools :: "(unit, address list \<times> address list) sol_call"
  coverPoolsLength :: "(unit, nat) sol_call"
  getScoredTokens :: "(unit, address list) sol_call"
  getScoredRateHistory :: "(address, (u64 \<times> nat) list) sol_call"
  maxCoverPoolPayoutBps :: "(unit, nat) sol_call"
  scoreSpent :: "(address, nat) sol_call"
  defiInsurance :: "(unit, address) sol_call"
  assetUsdFeed :: "(address, address) sol_call"
  maxOracleStaleness :: "(unit, u64) sol_call"
  boosterConfig :: "(unit, booster_config_ret) sol_call"
  registry_teePcrHash :: "(unit, hash) sol_call"
  incidentTimingConfig :: "(unit, timing_config_ret) sol_call"
  incidentOpenPriceConfig :: "(unit, open_price_config_ret) sol_call"
  pool_asset :: "(unit, address) sol_call"
  totalAssets :: "(unit, nat) sol_call"
  latestRoundData :: "(unit, round_data_ret) sol_call"
  feed_decimals :: "(unit, nat) sol_call"
  balanceOf :: "(address, nat) sol_call"
  decimals_of :: "(unit, nat) sol_call"
  erc1155_balanceOf :: "(address \<times> nat, nat) sol_call"

section \<open>Records of the module\<close>

record incident =
  in_insured_token :: address
  in_resolved_at :: u64
  in_reference_block :: u64
  in_open_block :: u64
  in_phase_deadline :: u64
  in_root :: string
  in_unresolved_claims :: biguint
  in_claim_set_hash :: string
  in_tee_pcr_hash :: string
  in_protocol_fee_share_bps :: biguint

record settlement_params =
  twap_lookback_blocks :: u64
  holding_margin_blocks :: u64
  sample_step_blocks :: u64

record scored_token =
  st_token :: address
  st_decimals :: nat
  st_rates :: "rate_point list"

record score_config =
  scf_params :: settlement_params
  scf_scored_tokens :: "scored_token list"

record incident_config =
  ic_coverage_bps :: biguint
  ic_underlying_price_oracle :: address
  ic_conversion_address :: address
  ic_conversion_call_data :: bytes
  ic_params :: settlement_params
  ic_scored_tokens :: "scored_token list"

record pool_topology =
  pt_assets :: "address list"
  pt_pool_addrs :: "address list"

record pool_state =
  ps_asset :: address
  ps_pool :: address
  ps_balance :: biguint
  ps_asset_usd :: biguint
  ps_asset_decimals :: nat

definition u256_to_u64 :: "nat \<Rightarrow> string \<Rightarrow> (chain_error, u64) result" where
  "u256_to_u64 v field = (if v \<le> u64_max then Ok v else Err (ChainUint256Overflow field))"

definition big_to_u256 :: "biguint \<Rightarrow> string \<Rightarrow> (chain_error, nat) result" where
  "big_to_u256 v field =
     (let bs = to_bytes_be v in if length bs > 32 then Err (ChainUint256Overflow field) else Ok (of_bytes_be bs))"

definition decode_call_result :: "json \<Rightarrow> (chain_error, bytes) result" where
  "decode_call_result value =
     bindR (ok_or (InvalidCallResult ''result is not 0x-prefixed even-length hex'')
       (case as_str value of None \<Rightarrow> None
        | Some t \<Rightarrow> (case strip_prefix ''0x'' t of None \<Rightarrow> None
                    | Some e \<Rightarrow> if even (length e) then Some e else None))) (\<lambda>encoded.
     ok_or (InvalidCallResult ''result is not valid hex'') (hex_decode encoded))"

definition call_params :: "address \<Rightarrow> bytes \<Rightarrow> string \<Rightarrow> json" where
  "call_params to data tag =
     JArr [JObj [(''to'', JStr (address_to_string to)), (''data'', JStr (hash_hex data))], JStr tag]"

definition raw_call ::
  "('w, 'z) rpc_scheme \<Rightarrow> address \<Rightarrow> bytes \<Rightarrow> u64 option \<Rightarrow> ('w, chain_error, bytes) act" where
  "raw_call rpc to data block_number =
     (let tag = (case block_number of Some n \<Rightarrow> hex_tag n | None \<Rightarrow> ''latest'') in
      bindA (map_errA ChainRpc (rpc_request rpc ''eth_call'' (call_params to data tag)))
        (\<lambda>value. liftR (decode_call_result value)))"

definition contract_call ::
  "('w, 'z) rpc_scheme \<Rightarrow> address \<Rightarrow> ('a, 'r) sol_call \<Rightarrow> 'a \<Rightarrow> u64 option \<Rightarrow> ('w, chain_error, 'r) act" where
  "contract_call rpc to call args block_number =
     bindA (raw_call rpc to (sc_encode call args) block_number) (\<lambda>data.
       liftR (map_errR (AbiError (sc_signature call)) (sc_decode_returns call data)))"

definition MULTICALL3 :: address where
  "MULTICALL3 = Address [0xca, 0x11, 0xbd, 0xe0, 0x59, 0x77, 0xb3, 0x63, 0x11, 0x67,
     0x02, 0x88, 0x62, 0xbe, 0x2a, 0x17, 0x39, 0x76, 0xca, 0x11]"

definition read_call :: "address \<Rightarrow> ('a, 'r) sol_call \<Rightarrow> 'a \<Rightarrow> call3" where
  "read_call target call args = \<lparr>c3_target = target, c3_allow_failure = False, c3_call_data = sc_encode call args\<rparr>"

definition decode_read :: "('a, 'r) sol_call \<Rightarrow> bytes \<Rightarrow> (chain_error, 'r) result" where
  "decode_read call data =
     bindR (map_errR (AbiError (sc_signature call)) (sc_decode_returns call data)) (\<lambda>v.
       if sc_encode_returns call v \<noteq> data
       then Err (AbiError (sc_signature call) ''non-canonical or trailing return data'')
       else Ok v)"

section \<open>Aggregated reads\<close>

definition MAX_CALLS :: nat where "MAX_CALLS = 64"
definition MAX_INPUT_BYTES :: nat where "MAX_INPUT_BYTES = 32 * 1024"

text \<open>\<^verbatim>\<open>slice::chunks\<close>\<close>

function chunks :: "nat \<Rightarrow> 'a list \<Rightarrow> 'a list list" where
  "chunks n xs = (if xs = [] \<or> n = 0 then [] else take n xs # chunks n (drop n xs))"
  by pat_completeness auto
termination
  by (relation "measure (\<lambda>(n, xs). length xs)") auto

declare chunks.simps [simp del]

definition plan_chunk :: "abi \<Rightarrow> call3 list \<Rightarrow> (chain_error, call3 list \<times> bytes) result" where
  "plan_chunk abi chunk =
     (let data = sc_encode (aggregate3 abi) chunk in
      if length data > MAX_INPUT_BYTES then Err (InvalidCallResult ''Multicall3 request byte cap exceeded'')
      else Ok (chunk, data))"

definition subcall_error :: "call3 \<Rightarrow> chain_error" where
  "subcall_error input = InvalidCallResult (''Multicall3 failed or empty subcall to '' @ address_to_string (c3_target input)
     @ '' selector 0x'' @ hex_encode (take 4 (c3_call_data input)))"

definition subcall_data :: "mc_result \<times> call3 \<Rightarrow> (chain_error, bytes) result" where
  "subcall_data ri =
     (let (result, input) = ri in
      if \<not> mr_success result \<or> mr_return_data result = [] then Err (subcall_error input)
      else Ok (mr_return_data result))"

definition read_chunk ::
  "('w, 'z) rpc_scheme \<Rightarrow> abi \<Rightarrow> u64 \<Rightarrow> bytes list \<Rightarrow> call3 list \<times> bytes \<Rightarrow> ('w, chain_error, bytes list) act" where
  "read_chunk rpc abi block output plan =
     (let (calls, encoded) = plan in
      if length calls = 1
      then let input = hd calls in
        bindA (raw_call rpc (c3_target input) (c3_call_data input) (Some block)) (\<lambda>data.
          if data = [] then failA (InvalidCallResult ''empty required read'')
          else retA (output @ [data]))
      else bindA (raw_call rpc MULTICALL3 encoded (Some block)) (\<lambda>data.
           bindA (liftR (decode_read (aggregate3 abi) data)) (\<lambda>results.
             if length results \<noteq> length calls then failA (InvalidCallResult ''Multicall3 result count mismatch'')
             else bindA (liftR (mapR subcall_data (zip results calls))) (\<lambda>ds. retA (output @ ds)))))"

definition aggregate_reads ::
  "('w, 'z) rpc_scheme \<Rightarrow> abi \<Rightarrow> call3 list \<Rightarrow> u64 \<Rightarrow> ('w, chain_error, bytes list) act" where
  "aggregate_reads rpc abi calls block =
     (if list_ex (\<lambda>c. c3_allow_failure c \<or> length (c3_call_data c) < 4) calls
      then failA (InvalidCallResult ''invalid required read plan'')
      else bindA (liftR (mapR (plan_chunk abi) (chunks MAX_CALLS calls))) (\<lambda>plans.
           foldA (read_chunk rpc abi block) [] plans))"

section \<open>Protocol getters\<close>

definition defi_insurance_at ::
  "('w, 'z) rpc_scheme \<Rightarrow> abi \<Rightarrow> address \<Rightarrow> u64 option \<Rightarrow> ('w, chain_error, address) act" where
  "defi_insurance_at rpc abi registry block_number = contract_call rpc registry (defiInsurance abi) () block_number"

definition protocol_bindings_at ::
  "('w, 'z) rpc_scheme \<Rightarrow> abi \<Rightarrow> address \<Rightarrow> address \<Rightarrow> u64 \<Rightarrow> ('w, chain_error, address \<times> address) act" where
  "protocol_bindings_at rpc abi registry defi_insurance block =
     bindA (aggregate_reads rpc abi [read_call registry (defiInsurance abi) (),
              read_call defi_insurance (registry_of abi) ()] block) (\<lambda>reads.
     bindA (liftR (decode_read (defiInsurance abi) (reads ! 0))) (\<lambda>d.
     bindA (liftR (decode_read (registry_of abi) (reads ! 1))) (\<lambda>r.
       retA (d, r))))"

definition incident_pools_and_signer_at ::
  "('w, 'z) rpc_scheme \<Rightarrow> abi \<Rightarrow> address \<Rightarrow> biguint \<Rightarrow> address \<Rightarrow> u64 \<Rightarrow> ('w, chain_error, address list \<times> bool) act" where
  "incident_pools_and_signer_at rpc abi defi_insurance incident_id signer block =
     bindA (liftR (big_to_u256 incident_id ''incidentId'')) (\<lambda>i.
     bindA (aggregate_reads rpc abi [read_call defi_insurance (incidentPools abi) i,
              read_call defi_insurance (isTeeSigner abi) signer] block) (\<lambda>reads.
     bindA (liftR (decode_read (incidentPools abi) (reads ! 0))) (\<lambda>pools.
     bindA (liftR (decode_read (isTeeSigner abi) (reads ! 1))) (\<lambda>ok.
       retA (pools, ok)))))"

text \<open>The loop that pairs each pool asset with its decoded feed.\<close>

definition feed_step ::
  "abi \<Rightarrow> (address, address) btree_map \<Rightarrow> address \<times> bytes \<Rightarrow> (chain_error, (address, address) btree_map) result" where
  "feed_step abi feeds ad =
     (let (asset, data) = ad in
      bindR (decode_read (assetUsdFeed abi) data) (\<lambda>feed. Ok (om_insert asset feed feeds)))"

definition derive_bootstrap_config_at ::
  "('w, 'z) rpc_scheme \<Rightarrow> abi \<Rightarrow> address \<Rightarrow> address \<Rightarrow> u64 \<Rightarrow> ('w, chain_error, bootstrap_config) act" where
  "derive_bootstrap_config_at rpc abi registry expected_defi_insurance block_number =
     bindA (defi_insurance_at rpc abi registry (Some block_number)) (\<lambda>defi_insurance.
     if defi_insurance \<noteq> expected_defi_insurance
     then failA (InvalidConfiguration (''Registry defiInsurance changed at block '' @ show_nat block_number
            @ '': expected '' @ address_to_string expected_defi_insurance @ '', got '' @ address_to_string defi_insurance))
     else
     bindA (aggregate_reads rpc abi [read_call defi_insurance (registry_of abi) (),
              read_call registry (boosterConfig abi) (), read_call registry (coverPools abi) (),
              read_call registry (maxOracleStaleness abi) ()] block_number) (\<lambda>reads.
     bindA (liftR (decode_read (registry_of abi) (reads ! 0))) (\<lambda>reverse_registry.
     if reverse_registry \<noteq> registry
     then failA (InvalidConfiguration (''DefiInsurance registry mismatch: expected '' @ address_to_string registry
            @ '', got '' @ address_to_string reverse_registry))
     else
     bindA (liftR (decode_read (boosterConfig abi) (reads ! 1))) (\<lambda>booster.
     bindA (liftR (decode_read (coverPools abi) (reads ! 2))) (\<lambda>(assets, _).
     bindA (liftR (decode_read (maxOracleStaleness abi) (reads ! 3))) (\<lambda>max_oracle_staleness.
     bindA (aggregate_reads rpc abi (map (read_call registry (assetUsdFeed abi)) assets) block_number) (\<lambda>feed_reads.
     bindA (liftR (foldR (feed_step abi) [] (zip assets feed_reads))) (\<lambda>feeds.
       liftR (map_errR (\<lambda>e. InvalidConfiguration (config_error_text e))
         (derived registry defi_insurance (bo_token_id booster) (bo_boost_bps booster) feeds
            max_oracle_staleness))))))))))"

definition incident_at ::
  "('w, 'z) rpc_scheme \<Rightarrow> abi \<Rightarrow> address \<Rightarrow> biguint \<Rightarrow> u64 option \<Rightarrow> ('w, chain_error, incident) act" where
  "incident_at rpc abi defi_insurance incident_id block_number =
     bindA (liftR (big_to_u256 incident_id ''incidentId'')) (\<lambda>i.
     bindA (contract_call rpc defi_insurance (incidents abi) i block_number) (\<lambda>result.
       retA \<lparr>in_insured_token = ir_insured_token result, in_resolved_at = ir_resolved_at result,
             in_reference_block = ir_reference_block result, in_open_block = ir_open_block result,
             in_phase_deadline = ir_phase_deadline result, in_root = hash_hex (ir_root result),
             in_unresolved_claims = ir_unresolved_claims result,
             in_claim_set_hash = hash_hex (ir_claim_set_hash result),
             in_tee_pcr_hash = hash_hex (ir_tee_pcr_hash result),
             in_protocol_fee_share_bps = ir_protocol_fee_share_bps result\<rparr>))"

definition incident_claim_deadline_at ::
  "('w, 'z) rpc_scheme \<Rightarrow> abi \<Rightarrow> address \<Rightarrow> biguint \<Rightarrow> u64 \<Rightarrow> ('w, chain_error, u64) act" where
  "incident_claim_deadline_at rpc abi defi_insurance incident_id open_block =
     bindA (liftR (big_to_u256 incident_id ''incidentId'')) (\<lambda>i.
     bindA (contract_call rpc defi_insurance (incidentPhaseWindow abi) i (Some open_block)) (\<lambda>phase_window.
     bindA (block_by_number rpc open_block) (\<lambda>opened.
       liftR (ok_or (InvalidConfiguration (''claim deadline overflow: open timestamp '' @ show_nat (ba_timestamp opened)
                @ '', phase window '' @ show_nat phase_window))
         (checked_add64 (ba_timestamp opened) phase_window)))))"

definition decimals_at :: "('w, 'z) rpc_scheme \<Rightarrow> abi \<Rightarrow> address \<Rightarrow> u64 \<Rightarrow> ('w, chain_error, nat) act" where
  "decimals_at rpc abi token block_number = contract_call rpc token (decimals_of abi) () (Some block_number)"

definition balance_of_at ::
  "('w, 'z) rpc_scheme \<Rightarrow> abi \<Rightarrow> address \<Rightarrow> address \<Rightarrow> u64 \<Rightarrow> ('w, chain_error, biguint) act" where
  "balance_of_at rpc abi token account block_number = contract_call rpc token (balanceOf abi) account (Some block_number)"

definition erc1155_balance_of_at ::
  "('w, 'z) rpc_scheme \<Rightarrow> abi \<Rightarrow> address \<Rightarrow> address \<Rightarrow> biguint \<Rightarrow> u64 \<Rightarrow> ('w, chain_error, biguint) act" where
  "erc1155_balance_of_at rpc abi collection account token_id block_number =
     bindA (liftR (big_to_u256 token_id ''ERC1155 id'')) (\<lambda>i.
       contract_call rpc collection (erc1155_balanceOf abi) (account, i) (Some block_number))"

definition spent_score_at ::
  "('w, 'z) rpc_scheme \<Rightarrow> abi \<Rightarrow> address \<Rightarrow> address \<Rightarrow> u64 \<Rightarrow> ('w, chain_error, biguint) act" where
  "spent_score_at rpc abi registry account block_number = contract_call rpc registry (scoreSpent abi) account (Some block_number)"

definition spent_scores_at ::
  "('w, 'z) rpc_scheme \<Rightarrow> abi \<Rightarrow> address \<Rightarrow> address list \<Rightarrow> u64 \<Rightarrow> ('w, chain_error, (address, biguint) btree_map) act" where
  "spent_scores_at rpc abi registry accounts block_number =
     bindA (aggregate_reads rpc abi (map (read_call registry (scoreSpent abi)) accounts) block_number) (\<lambda>reads.
       liftR (bindR (mapR (\<lambda>(account, data). bindR (decode_read (scoreSpent abi) data) (\<lambda>v. Ok (account, v)))
                (zip accounts reads)) (\<lambda>kvs. Ok (om_of kvs))))"

definition incident_tee_pcr_hash_at ::
  "('w, 'z) rpc_scheme \<Rightarrow> abi \<Rightarrow> address \<Rightarrow> biguint \<Rightarrow> u64 \<Rightarrow> ('w, chain_error, string) act" where
  "incident_tee_pcr_hash_at rpc abi defi_insurance incident_id block_number =
     bindA (incident_at rpc abi defi_insurance incident_id (Some block_number)) (\<lambda>inc.
       if in_tee_pcr_hash inc = ''0x'' @ replicate 64 CHR ''0''
       then failA (InvalidConfiguration ''incident teePcrHash is zero'')
       else retA (in_tee_pcr_hash inc))"

definition max_cover_pool_payout_bps_at ::
  "('w, 'z) rpc_scheme \<Rightarrow> abi \<Rightarrow> address \<Rightarrow> u64 \<Rightarrow> ('w, chain_error, biguint) act" where
  "max_cover_pool_payout_bps_at rpc abi registry block_number =
     contract_call rpc registry (maxCoverPoolPayoutBps abi) () (Some block_number)"

section \<open>Score and incident configuration\<close>

definition ascending_error :: "address \<Rightarrow> chain_error" where
  "ascending_error token = InvalidConfiguration (''rate history for '' @ address_to_string token @ '' is not strictly ascending'')"

fun checked_rates :: "address \<Rightarrow> u64 option \<Rightarrow> (u64 \<times> nat) list \<Rightarrow> (chain_error, rate_point list) result" where
  "checked_rates token previous [] = Ok []"
| "checked_rates token previous ((fb, r) # points) =
     (if (case previous of None \<Rightarrow> False | Some b \<Rightarrow> fb \<le> b) then Err (ascending_error token)
      else bindR (checked_rates token (Some fb) points) (\<lambda>rs. Ok (\<lparr>from_block = fb, rate = r\<rparr> # rs)))"

definition scored_step ::
  "('w, 'z) rpc_scheme \<Rightarrow> abi \<Rightarrow> u64 \<Rightarrow> address set \<times> scored_token list \<Rightarrow> address \<times> bytes
    \<Rightarrow> ('w, chain_error, address set \<times> scored_token list) act" where
  "scored_step rpc abi block_number acc td =
     (let (seen, scored_tokens) = acc; (token, data) = td in
      if token \<in> seen then failA (InvalidConfiguration (''duplicate scored token '' @ address_to_string token))
      else bindA (liftR (decode_read (getScoredRateHistory abi) data)) (\<lambda>points.
        if points = []
        then failA (InvalidConfiguration (''scored token '' @ address_to_string token @ '' has no rate history''))
        else bindA (liftR (checked_rates token None points)) (\<lambda>rates.
             bindA (decimals_at rpc abi token block_number) (\<lambda>decimals.
               retA (insert token seen,
                 scored_tokens @ [\<lparr>st_token = token, st_decimals = decimals, st_rates = rates\<rparr>])))))"

definition complete_score_config ::
  "('w, 'z) rpc_scheme \<Rightarrow> abi \<Rightarrow> address \<Rightarrow> u64 \<Rightarrow> settlement_params_ret \<Rightarrow> address list
    \<Rightarrow> ('w, chain_error, score_config) act" where
  "complete_score_config rpc abi registry block_number params token_addresses =
     (if sp_sample_step_blocks params = 0 then failA (InvalidConfiguration ''sampleStepBlocks is zero'')
      else bindA (aggregate_reads rpc abi (map (read_call registry (getScoredRateHistory abi)) token_addresses)
                    block_number) (\<lambda>histories.
           bindA (foldA (scored_step rpc abi block_number) ({}, []) (zip token_addresses histories)) (\<lambda>(_, scored_tokens).
             retA \<lparr>scf_params = \<lparr>twap_lookback_blocks = sp_twap_lookback_blocks params,
                                 holding_margin_blocks = sp_min_holding_required params,
                                 sample_step_blocks = sp_sample_step_blocks params\<rparr>,
                   scf_scored_tokens = scored_tokens\<rparr>)))"

definition incident_config_at ::
  "('w, 'z) rpc_scheme \<Rightarrow> abi \<Rightarrow> bootstrap_config \<Rightarrow> address \<Rightarrow> u64 \<Rightarrow> ('w, chain_error, incident_config) act" where
  "incident_config_at rpc abi config insured_token open_block =
     bindA (aggregate_reads rpc abi [read_call (bc_defi_insurance config) (getInsuredToken abi) insured_token,
              read_call (bc_defi_insurance config) (settlementParams abi) (),
              read_call (bc_registry config) (getScoredTokens abi) ()] open_block) (\<lambda>reads.
     bindA (liftR (decode_read (getInsuredToken abi) (reads ! 0))) (\<lambda>insured.
     if it_max_coverage_bps insured = 0 \<or> it_max_coverage_bps insured > 10000
     then failA (InvalidConfiguration ''maxCoverageBps must be in 1..=10000 at open block'')
     else if is_zero (it_underlying_price_oracle insured)
     then failA (InvalidConfiguration ''underlyingPriceOracle is zero'')
     else bindA (liftR (decode_read (settlementParams abi) (reads ! 1))) (\<lambda>params.
          bindA (liftR (decode_read (getScoredTokens abi) (reads ! 2))) (\<lambda>tokens.
          bindA (complete_score_config rpc abi (bc_registry config) open_block params tokens) (\<lambda>sc.
            retA \<lparr>ic_coverage_bps = it_max_coverage_bps insured,
                  ic_underlying_price_oracle = it_underlying_price_oracle insured,
                  ic_conversion_address = it_conversion_address insured,
                  ic_conversion_call_data = it_conversion_call_data insured,
                  ic_params = scf_params sc, ic_scored_tokens = scf_scored_tokens sc\<rparr>)))))"

definition score_config_at ::
  "('w, 'z) rpc_scheme \<Rightarrow> abi \<Rightarrow> address \<Rightarrow> address \<Rightarrow> u64 \<Rightarrow> ('w, chain_error, score_config) act" where
  "score_config_at rpc abi registry defi_insurance block_number =
     bindA (aggregate_reads rpc abi [read_call defi_insurance (settlementParams abi) (),
              read_call registry (getScoredTokens abi) ()] block_number) (\<lambda>reads.
     bindA (liftR (decode_read (settlementParams abi) (reads ! 0))) (\<lambda>params.
     bindA (liftR (decode_read (getScoredTokens abi) (reads ! 1))) (\<lambda>tokens.
       complete_score_config rpc abi registry block_number params tokens)))"

definition score_config_and_spent_at ::
  "('w, 'z) rpc_scheme \<Rightarrow> abi \<Rightarrow> address \<Rightarrow> address \<Rightarrow> address \<Rightarrow> u64
    \<Rightarrow> ('w, chain_error, score_config \<times> biguint) act" where
  "score_config_and_spent_at rpc abi registry defi_insurance account block_number =
     bindA (aggregate_reads rpc abi [read_call defi_insurance (settlementParams abi) (),
              read_call registry (getScoredTokens abi) (), read_call registry (scoreSpent abi) account] block_number) (\<lambda>reads.
     bindA (liftR (decode_read (scoreSpent abi) (reads ! 2))) (\<lambda>spent.
     bindA (liftR (decode_read (settlementParams abi) (reads ! 0))) (\<lambda>params.
     bindA (liftR (decode_read (getScoredTokens abi) (reads ! 1))) (\<lambda>tokens.
     bindA (complete_score_config rpc abi registry block_number params tokens) (\<lambda>config.
       retA (config, spent))))))"

section \<open>Pools\<close>

record pool_policy =
  pp_topology :: pool_topology
  pp_max_payout_bps :: biguint
  pp_booster :: "booster_config_ret option"

definition decode_pool_topology :: "address list \<times> address list \<Rightarrow> (chain_error, pool_topology) result" where
  "decode_pool_topology result =
     (let (assets, pool_addrs) = result in
      if length assets \<noteq> length pool_addrs
      then Err (InvalidPoolTopology (show_nat (length assets) @ '' assets but '' @ show_nat (length pool_addrs) @ '' pools''))
      else if card (set assets) \<noteq> length assets \<or> card (set pool_addrs) \<noteq> length pool_addrs
      then Err (InvalidPoolTopology ''duplicate asset or pool'')
      else Ok \<lparr>pt_assets = assets, pt_pool_addrs = pool_addrs\<rparr>)"

definition pool_policy_at ::
  "('w, 'z) rpc_scheme \<Rightarrow> abi \<Rightarrow> bootstrap_config \<Rightarrow> u64 \<Rightarrow> bool \<Rightarrow> ('w, chain_error, pool_policy) act" where
  "pool_policy_at rpc abi config block include_booster =
     bindA (aggregate_reads rpc abi ([read_call (bc_registry config) (coverPools abi) (),
              read_call (bc_registry config) (maxCoverPoolPayoutBps abi) ()]
              @ (if include_booster then [read_call (bc_registry config) (boosterConfig abi) ()] else [])) block) (\<lambda>reads.
     bindA (liftR (decode_read (coverPools abi) (reads ! 0))) (\<lambda>pools.
     bindA (liftR (decode_pool_topology pools)) (\<lambda>topology.
     bindA (liftR (decode_read (maxCoverPoolPayoutBps abi) (reads ! 1))) (\<lambda>bps.
     bindA (if include_booster
            then bindA (liftR (decode_read (boosterConfig abi) (reads ! 2))) (\<lambda>b. retA (Some b))
            else retA None) (\<lambda>booster.
       retA \<lparr>pp_topology = topology, pp_max_payout_bps = bps, pp_booster = booster\<rparr>)))))"

definition pools_at ::
  "('w, 'z) rpc_scheme \<Rightarrow> abi \<Rightarrow> bootstrap_config \<Rightarrow> u64 \<Rightarrow> ('w, chain_error, pool_topology) act" where
  "pools_at rpc abi config block_number =
     bindA (contract_call rpc (bc_registry config) (coverPools abi) () (Some block_number)) (\<lambda>result.
       liftR (decode_pool_topology result))"

section \<open>Conversion ratios and prices\<close>

definition ONE_1E18 :: nat where "ONE_1E18 = 1000000000000000000"

definition decode_ratio :: "address \<Rightarrow> bytes \<Rightarrow> (chain_error, biguint) result" where
  "decode_ratio conversion_address result =
     (if length result \<noteq> 32 then Err (InvalidConversion conversion_address ''returned malformed uint256 data'')
      else let ratio = of_bytes_be result in
        if ratio = 0 then Err (InvalidConversion conversion_address ''returned non-positive ratio'')
        else Ok ratio)"

definition ratios_at ::
  "('w, 'z) rpc_scheme \<Rightarrow> address \<Rightarrow> bytes \<Rightarrow> u64 list \<Rightarrow> ('w, chain_error, biguint list) act" where
  "ratios_at rpc conversion_address conversion_call_data blocks =
     (if is_zero conversion_address then retA (replicate (length blocks) ONE_1E18)
      else if blocks = [] \<or> length blocks > 256 \<or> length conversion_call_data > 16 * 1024
      then failA (ChainRpc InvalidBatch)
      else bindA (map_errA ChainRpc (rpc_batch_request rpc ''eth_call''
             (map (\<lambda>b. call_params conversion_address conversion_call_data (hex_tag b)) blocks))) (\<lambda>results.
        if length results \<noteq> length blocks
        then failA (ChainRpc (InvalidResponse ''eth_call'' ''conversion batch result count mismatch''))
        else liftR (mapR (\<lambda>result. bindR (decode_call_result result) (decode_ratio conversion_address)) results)))"

definition ratio_at ::
  "('w, 'z) rpc_scheme \<Rightarrow> address \<Rightarrow> bytes \<Rightarrow> u64 \<Rightarrow> ('w, chain_error, biguint) act" where
  "ratio_at rpc conversion_address conversion_call_data block_number =
     (if is_zero conversion_address then retA ONE_1E18
      else bindA (raw_call rpc conversion_address conversion_call_data (Some block_number)) (\<lambda>result.
             liftR (decode_ratio conversion_address result)))"

definition check_round :: "address \<Rightarrow> round_data_ret \<Rightarrow> (chain_error, u64) result" where
  "check_round oracle round =
     (if rd_answer round \<le> 0 then Err (InvalidOracle oracle ''returned non-positive price'')
      else bindR (u256_to_u64 (rd_started_at round) ''oracle.startedAt'') (\<lambda>started_at.
           bindR (u256_to_u64 (rd_updated_at round) ''oracle.updatedAt'') (\<lambda>updated_at.
        if started_at = 0 \<or> updated_at = 0 then Err (InvalidOracle oracle ''round incomplete'')
        else if started_at > updated_at
        then Err (InvalidOracle oracle (''startedAt '' @ show_nat started_at @ '' is after updatedAt '' @ show_nat updated_at))
        else if rd_answered_in_round round < rd_round_id round
        then Err (InvalidOracle oracle ''answeredInRound is older than roundId'')
        else Ok updated_at)))"

definition normalize_price :: "address \<Rightarrow> nat \<Rightarrow> nat \<Rightarrow> (chain_error, biguint) result" where
  "normalize_price oracle answer decimals =
     (let scaled = (if decimals \<le> 18 then answer * 10 ^ (18 - decimals) else answer div 10 ^ (decimals - 18)) in
      if scaled = 0 then Err (InvalidOracle oracle ''normalized price rounds to zero'') else Ok scaled)"

definition price_usd_1e18 ::
  "('w, 'z) rpc_scheme \<Rightarrow> abi \<Rightarrow> address \<Rightarrow> u64 \<Rightarrow> u64 \<Rightarrow> ('w, chain_error, biguint) act" where
  "price_usd_1e18 rpc abi oracle block_number max_staleness =
     bindA (contract_call rpc oracle (latestRoundData abi) () (Some block_number)) (\<lambda>round.
     bindA (liftR (check_round oracle round)) (\<lambda>updated_at.
     bindA (block_by_number rpc block_number) (\<lambda>pinned.
     if updated_at > ba_timestamp pinned
     then failA (InvalidOracle oracle (''updatedAt '' @ show_nat updated_at @ '' is later than pinned block ts ''
            @ show_nat (ba_timestamp pinned)))
     else if ba_timestamp pinned - updated_at > max_staleness
     then failA (InvalidOracle oracle (''stale at pinned block timestamp '' @ show_nat (ba_timestamp pinned)))
     else bindA (contract_call rpc oracle (feed_decimals abi) () (Some block_number)) (\<lambda>decimals.
            liftR (normalize_price oracle (nat \<bar>rd_answer round\<bar>) decimals)))))"

text \<open>\<^verbatim>\<open>chunks_exact(2)\<close>\<close>

fun pairs_of :: "'a list \<Rightarrow> ('a \<times> 'a) list" where
  "pairs_of (a # b # xs) = (a, b) # pairs_of xs"
| "pairs_of _ = []"

definition pool_step ::
  "('w, 'z) rpc_scheme \<Rightarrow> abi \<Rightarrow> bootstrap_config \<Rightarrow> u64 \<Rightarrow> pool_state list \<Rightarrow> (address \<times> address) \<times> bytes \<times> bytes
    \<Rightarrow> ('w, chain_error, pool_state list) act" where
  "pool_step rpc abi config block_number states entry =
     (let ((asset, pool), (asset_data, total_data)) = entry in
      bindA (liftR (decode_read (pool_asset abi) asset_data)) (\<lambda>actual_asset.
      if actual_asset \<noteq> asset then failA (PoolAssetMismatch pool actual_asset asset)
      else bindA (liftR (decode_read (totalAssets abi) total_data)) (\<lambda>total.
           bindA (liftR (map_errR (\<lambda>_. InvalidPoolTopology (''missing USD feed for '' @ address_to_string asset))
                    (asset_feed config asset))) (\<lambda>feed.
           bindA (price_usd_1e18 rpc abi feed block_number (bc_max_oracle_staleness config)) (\<lambda>usd.
           bindA (decimals_at rpc abi asset block_number) (\<lambda>decimals.
             retA (states @ [\<lparr>ps_asset = asset, ps_pool = pool, ps_balance = total, ps_asset_usd = usd,
                              ps_asset_decimals = decimals\<rparr>])))))))"

definition pool_states_at ::
  "('w, 'z) rpc_scheme \<Rightarrow> abi \<Rightarrow> bootstrap_config \<Rightarrow> (address \<times> address) list \<Rightarrow> u64
    \<Rightarrow> ('w, chain_error, pool_state list) act" where
  "pool_states_at rpc abi config pools block_number =
     bindA (aggregate_reads rpc abi (concat (map (\<lambda>(_, pool). [read_call pool (pool_asset abi) (),
              read_call pool (totalAssets abi) ()]) pools)) block_number) (\<lambda>reads.
       foldA (pool_step rpc abi config block_number) [] (zip pools (pairs_of reads)))"

definition pool_state_at ::
  "('w, 'z) rpc_scheme \<Rightarrow> abi \<Rightarrow> bootstrap_config \<Rightarrow> address \<Rightarrow> address \<Rightarrow> u64 \<Rightarrow> ('w, chain_error, pool_state) act" where
  "pool_state_at rpc abi config asset pool block_number =
     bindA (pool_states_at rpc abi config [(asset, pool)] block_number) (\<lambda>states.
       case states of s # _ \<Rightarrow> retA s | [] \<Rightarrow> failA (ChainPanic ''removal index should be < len''))"

section \<open>Facts about the reads\<close>

lemma decode_read_exact: "decode_read call data = Ok v \<Longrightarrow> sc_encode_returns call v = data"
  by (auto simp: decode_read_def split: if_splits)

lemma concat_chunks: "n > 0 \<Longrightarrow> concat (chunks n xs) = xs"
  by (induction n xs rule: chunks.induct) (simp add: chunks.simps)

lemma mapR_plan: "mapR (plan_chunk abi) cs = Ok plans \<Longrightarrow> plans = map (\<lambda>c. (c, sc_encode (aggregate3 abi) c)) cs"
  by (induction cs arbitrary: plans) (auto simp: plan_chunk_def Let_def split: if_splits)

lemma read_chunk_length:
  "read_chunk rpc abi block out (calls, enc) w = (Ok out', w') \<Longrightarrow> length out' = length out + length calls"
  by (auto simp: read_chunk_def Let_def split: if_splits dest!: mapR_length)

lemma fold_read_length:
  "foldA (read_chunk rpc abi block) out plans w = (Ok out', w')
    \<Longrightarrow> length out' = length out + sum_list (map (length \<circ> fst) plans)"
proof (induction plans arbitrary: out w)
  case (Cons p plans)
  then show ?case by (cases p) (auto dest!: read_chunk_length)
qed simp

lemma aggregate_reads_length:
  assumes "aggregate_reads rpc abi calls block w = (Ok reads, w')"
  shows "length reads = length calls"
proof -
  from assms obtain plans where plans: "mapR (plan_chunk abi) (chunks MAX_CALLS calls) = Ok plans"
    and run: "foldA (read_chunk rpc abi block) [] plans w = (Ok reads, w')"
    by (auto simp: aggregate_reads_def split: if_splits)
  have "sum_list (map (length \<circ> fst) plans) = length (concat (chunks MAX_CALLS calls))"
    unfolding mapR_plan [OF plans] by (simp add: length_concat comp_def)
  with fold_read_length [OF run] show ?thesis by (simp add: concat_chunks MAX_CALLS_def)
qed

definition call_view :: "(address \<Rightarrow> bytes \<Rightarrow> bytes) \<Rightarrow> call3 \<Rightarrow> bytes" where
  "call_view view c = view (c3_target c) (c3_call_data c)"

definition subcall_results :: "(address \<Rightarrow> bytes \<Rightarrow> bytes) \<Rightarrow> call3 list \<Rightarrow> mc_result list" where
  "subcall_results view calls = map (\<lambda>c. \<lparr>mr_success = True, mr_return_data = call_view view c\<rparr>) calls"

text \<open>
  The contract of the chain at one block: each target answers its own call data, and the Multicall3
  contract answers an \<^verbatim>\<open>aggregate3\<close> of the required calls with the individual answers, encoded by the
  interface codec, whose decoder inverts its encoder on them.
\<close>

definition serves_calls ::
  "('w, 'z) rpc_scheme \<Rightarrow> abi \<Rightarrow> u64 \<Rightarrow> (address \<Rightarrow> bytes \<Rightarrow> bytes) \<Rightarrow> call3 list \<Rightarrow> bool" where
  "serves_calls rpc abi block view calls \<longleftrightarrow>
     (\<forall>to data. answers (raw_call rpc to data (Some block)) (Ok (view to data)))
     \<and> (\<forall>chunk \<in> set (chunks MAX_CALLS calls).
          view MULTICALL3 (sc_encode (aggregate3 abi) chunk) = sc_encode_returns (aggregate3 abi) (subcall_results view chunk)
          \<and> sc_decode_returns (aggregate3 abi) (sc_encode_returns (aggregate3 abi) (subcall_results view chunk))
              = Ok (subcall_results view chunk))"

lemma answers_read_chunk:
  assumes "serves_calls rpc abi block view all" "calls \<in> set (chunks MAX_CALLS all)"
    "\<forall>c \<in> set calls. call_view view c \<noteq> []"
  shows "answers (read_chunk rpc abi block out (calls, sc_encode (aggregate3 abi) calls)) (Ok (out @ map (call_view view) calls))"
proof (cases "length calls = 1")
  case True
  then obtain c where c: "calls = [c]" by (auto simp: length_Suc_conv)
  have "answers (raw_call rpc (c3_target c) (c3_call_data c) (Some block)) (Ok (call_view view c))"
    using assms(1) by (simp add: serves_calls_def call_view_def)
  with assms(3) show ?thesis by (auto simp: read_chunk_def c intro!: answers_bindA_Inr)
next
  case False
  define rs where "rs = subcall_results view calls"
  from assms(1,2) have raw: "answers (raw_call rpc MULTICALL3 (sc_encode (aggregate3 abi) calls) (Some block))
      (Ok (sc_encode_returns (aggregate3 abi) rs))"
    and codec: "sc_decode_returns (aggregate3 abi) (sc_encode_returns (aggregate3 abi) rs) = Ok rs"
    unfolding serves_calls_def rs_def by metis+
  have dec: "decode_read (aggregate3 abi) (sc_encode_returns (aggregate3 abi) rs) = Ok rs"
    by (simp add: codec decode_read_def)
  have sub: "mapR subcall_data (zip rs calls) = Ok (map (call_view view) calls)"
    unfolding rs_def subcall_results_def using assms(3) by (induction calls) (auto simp: subcall_data_def)
  have len: "length rs = length calls" by (simp add: rs_def subcall_results_def)
  have cond: "(length calls = 1) = False" using False by simp
  show ?thesis unfolding read_chunk_def Let_def prod.case cond if_False
    by (rule answers_bindA_Inr [OF raw]) (simp add: dec sub len answers_def)
qed

lemma aggregate_reads_direct:
  assumes "serves_calls rpc abi block view calls"
    "\<forall>c \<in> set calls. \<not> c3_allow_failure c \<and> 4 \<le> length (c3_call_data c) \<and> call_view view c \<noteq> []"
    "\<forall>c \<in> set (chunks MAX_CALLS calls). length (sc_encode (aggregate3 abi) c) \<le> MAX_INPUT_BYTES"
  shows "answers (aggregate_reads rpc abi calls block) (Ok (map (call_view view) calls))"
proof -
  define plans where "plans = map (\<lambda>c. (c, sc_encode (aggregate3 abi) c)) (chunks MAX_CALLS calls)"
  have plan: "mapR (plan_chunk abi) (chunks MAX_CALLS calls) = Ok plans"
    unfolding plans_def using assms(3) by (intro mapR_total) (simp add: plan_chunk_def Let_def not_less)
  have in_calls: "set c \<subseteq> set calls" if "c \<in> set (chunks MAX_CALLS calls)" for c
    using concat_chunks [of MAX_CALLS calls] that by (metis MAX_CALLS_def UN_upper set_concat zero_less_numeral)
  have "answers (foldA (read_chunk rpc abi block) out (map (\<lambda>c. (c, sc_encode (aggregate3 abi) c)) cs))
      (Ok (out @ map (call_view view) (concat cs)))" if "set cs \<subseteq> set (chunks MAX_CALLS calls)" for out cs
    using that
  proof (induction cs arbitrary: out)
    case (Cons c cs)
    have "answers (read_chunk rpc abi block out (c, sc_encode (aggregate3 abi) c)) (Ok (out @ map (call_view view) c))"
      using Cons.prems assms(2) in_calls
      by (intro answers_read_chunk [OF assms(1)]) auto
    moreover have "answers (foldA (read_chunk rpc abi block) (out @ map (call_view view) c)
        (map (\<lambda>c. (c, sc_encode (aggregate3 abi) c)) cs)) (Ok (out @ map (call_view view) (concat (c # cs))))"
      using Cons.IH [of "out @ map (call_view view) c"] Cons.prems by simp
    ultimately show ?case by (auto intro: answers_bindA_Inr)
  qed simp
  from this [of "chunks MAX_CALLS calls" "[]"]
  have "answers (foldA (read_chunk rpc abi block) [] plans) (Ok (map (call_view view) calls))"
    by (simp add: plans_def concat_chunks MAX_CALLS_def)
  moreover have "\<not> list_ex (\<lambda>c. c3_allow_failure c \<or> length (c3_call_data c) < 4) calls"
    using assms(2) by (auto simp: list_ex_iff)
  ultimately show ?thesis by (simp add: aggregate_reads_def plan)
qed

text \<open>
  C22.  Aggregation is transparent: against one chain state, a plan of required reads (no call may fail,
  each call data has a selector, each answer is non-empty, no chunk exceeds the request cap)
  returns exactly the answers of the individual direct calls, in order, whatever its length and
  however it is cut into Multicall3 chunks.\<close>

theorem aggregate_reads_transparent:
  assumes "serves_calls rpc abi block view calls"
    "\<forall>c \<in> set calls. \<not> c3_allow_failure c \<and> 4 \<le> length (c3_call_data c) \<and> call_view view c \<noteq> []"
    "\<forall>c \<in> set (chunks MAX_CALLS calls). length (sc_encode (aggregate3 abi) c) \<le> MAX_INPUT_BYTES"
  shows "answers (aggregate_reads rpc abi calls block) (Ok (map (call_view view) calls))"
  by (rule aggregate_reads_direct [OF assms])

section \<open>A small contract state\<close>

definition demo_view :: "address \<Rightarrow> bytes \<Rightarrow> bytes" where
  "demo_view to data = (if to = MULTICALL3 then data else replicate 31 0 @ [of_nat (length data)])"

definition demo_calls :: "call3 list" where
  "demo_calls = [\<lparr>c3_target = Address (replicate 20 1), c3_allow_failure = False, c3_call_data = [1, 2, 3, 4]\<rparr>,
     \<lparr>c3_target = Address (replicate 20 2), c3_allow_failure = False, c3_call_data = [1, 2, 3, 4, 5]\<rparr>]"

text \<open>A codec for plans over \<open>demo_view\<close>: the request carries the concatenated answers.\<close>

definition demo_aggregate3 :: "(call3 list, mc_result list) sol_call" where
  "demo_aggregate3 = \<lparr>sc_signature = ''aggregate3'', sc_encode = (\<lambda>cs. concat (map (call_view demo_view) cs)),
     sc_decode_returns = (\<lambda>bs. Ok (map (\<lambda>d. \<lparr>mr_success = True, mr_return_data = d\<rparr>) (chunks 32 bs))),
     sc_encode_returns = (\<lambda>rs. concat (map mr_return_data rs))\<rparr>"

definition demo_call_request :: "string \<Rightarrow> json \<Rightarrow> (unit, rpc_error, json) act" where
  "demo_call_request method params =
     (case params of
        JArr [obj, _] \<Rightarrow> (case (as_str (json_index obj ''to''), as_str (json_index obj ''data'')) of
            (Some t, Some d) \<Rightarrow> (case (hex_decode (drop 2 t), hex_decode (drop 2 d)) of
               (Some to, Some data) \<Rightarrow> retA (JStr (hash_hex (demo_view (Address to) data)))
             | _ \<Rightarrow> failA (JsonRpc 0 ''invalid parameters''))
          | _ \<Rightarrow> failA (JsonRpc 0 ''invalid parameters''))
      | _ \<Rightarrow> failA (JsonRpc 0 ''invalid parameters''))"

definition demo_call_rpc :: "unit rpc" where
  "demo_call_rpc = demo_rpc\<lparr>rpc_request := demo_call_request\<rparr>"

lemma decode_call_result_hex: "decode_call_result (JStr (hash_hex d)) = Ok d"
  by (simp add: decode_call_result_def hash_hex_def strip_prefix_def)

lemma demo_call_raw: "answers (raw_call demo_call_rpc to data (Some block)) (Ok (demo_view to data))"
proof -
  have "rpc_request demo_call_rpc ''eth_call'' (call_params to data tag) = retA (JStr (hash_hex (demo_view to data)))" for tag
    by (simp add: demo_call_rpc_def demo_call_request_def call_params_def json_index_def address_to_string_def hash_hex_def)
  then show ?thesis by (simp add: raw_call_def Let_def answers_def map_errA_def bindA_apply decode_call_result_hex)
qed

definition const_call :: "string \<Rightarrow> 'r \<Rightarrow> ('a, 'r) sol_call" where
  "const_call name r = \<lparr>sc_signature = name, sc_encode = (\<lambda>_. [1, 2, 3, 4]), sc_decode_returns = (\<lambda>_. Ok r),
     sc_encode_returns = (\<lambda>_. replicate 31 0 @ [4])\<rparr>"

definition demo_abi :: abi where
  "demo_abi = \<lparr>aggregate3 = demo_aggregate3,
     incidents = const_call ''incidents'' \<lparr>ir_insured_token = Address (replicate 20 3), ir_resolved_at = 0, ir_reference_block = 10, ir_open_block = 20,
       ir_phase_deadline = 90, ir_root = replicate 32 0, ir_unresolved_claims = 1, ir_claim_set_hash = replicate 32 9,
       ir_tee_pcr_hash = replicate 32 9, ir_protocol_fee_share_bps = 500\<rparr>,
     getInsuredToken = const_call ''getInsuredToken'' \<lparr>it_max_coverage_bps = 8000, it_underlying_price_oracle = Address (replicate 20 3),
       it_conversion_address = Address (replicate 20 0), it_conversion_call_data = []\<rparr>,
     settlementParams = const_call ''settlementParams'' \<lparr>sp_twap_lookback_blocks = 100, sp_min_holding_required = 10, sp_sample_step_blocks = 10\<rparr>,
     nextIncidentId = const_call ''nextIncidentId'' 1,
     incidentPhaseWindow = const_call ''incidentPhaseWindow'' 60,
     incidentPools = const_call ''incidentPools'' [],
     isTeeSigner = const_call ''isTeeSigner'' True,
     incidentOpenEligibilityHash = const_call ''incidentOpenEligibilityHash'' (replicate 32 9),
     registry_of = const_call ''registry_of'' (Address (replicate 20 3)),
     coverPools = const_call ''coverPools'' ([], []),
     coverPoolsLength = const_call ''coverPoolsLength'' 0,
     getScoredTokens = const_call ''getScoredTokens'' [],
     getScoredRateHistory = const_call ''getScoredRateHistory'' [],
     maxCoverPoolPayoutBps = const_call ''maxCoverPoolPayoutBps'' 5000,
     scoreSpent = const_call ''scoreSpent'' 0,
     defiInsurance = const_call ''defiInsurance'' (Address (replicate 20 3)),
     assetUsdFeed = const_call ''assetUsdFeed'' (Address (replicate 20 3)),
     maxOracleStaleness = const_call ''maxOracleStaleness'' 3600,
     boosterConfig = const_call ''boosterConfig'' \<lparr>bo_collection = Address (replicate 20 3), bo_token_id = 1, bo_boost_bps = 100\<rparr>,
     registry_teePcrHash = const_call ''registry_teePcrHash'' (replicate 32 9),
     incidentTimingConfig = const_call ''incidentTimingConfig'' \<lparr>tc_phase_window = 60, tc_max_reference_block_age = 100\<rparr>,
     incidentOpenPriceConfig = const_call ''incidentOpenPriceConfig'' \<lparr>op_twap_blocks = 100, op_sample_step_blocks = 10, op_minimum_drop_bps = 500\<rparr>,
     pool_asset = const_call ''pool_asset'' (Address (replicate 20 3)),
     totalAssets = const_call ''totalAssets'' 0,
     latestRoundData = const_call ''latestRoundData'' \<lparr>rd_round_id = 1, rd_answer = 100, rd_started_at = 1, rd_updated_at = 2, rd_answered_in_round = 1\<rparr>,
     feed_decimals = const_call ''feed_decimals'' 8,
     balanceOf = const_call ''balanceOf'' 0,
     decimals_of = const_call ''decimals_of'' 18,
     erc1155_balanceOf = const_call ''erc1155_balanceOf'' 0\<rparr>"

lemma demo_chunks: "chunks MAX_CALLS demo_calls = [demo_calls]"
  by (simp add: chunks.simps demo_calls_def MAX_CALLS_def)

lemma replicate_not_MULTICALL3: "a \<noteq> 0xca \<Longrightarrow> Address (replicate 20 a) \<noteq> MULTICALL3"
proof
  assume "a \<noteq> 0xca" "Address (replicate 20 a) = MULTICALL3"
  then have "hd (replicate 20 a) = 0xca" by (simp add: MULTICALL3_def)
  with \<open>a \<noteq> 0xca\<close> show False by (simp add: hd_replicate)
qed

lemma demo_call_views: "map (call_view demo_view) demo_calls = [replicate 31 0 @ [4], replicate 31 0 @ [5]]"
  by (simp add: demo_calls_def call_view_def demo_view_def replicate_not_MULTICALL3)

lemma demo_serves_calls: "serves_calls demo_call_rpc demo_abi 7 demo_view demo_calls"
proof -
  have results: "subcall_results demo_view demo_calls
      = map (\<lambda>d. \<lparr>mr_success = True, mr_return_data = d\<rparr>) [replicate 31 0 @ [4], replicate 31 0 @ [5]]"
    unfolding demo_call_views [symmetric] by (simp add: subcall_results_def)
  have "chunks 32 ((replicate 31 0 @ [4]) @ (replicate 31 0 @ [5 :: byte])) = [replicate 31 0 @ [4], replicate 31 0 @ [5]]"
    by (simp add: chunks.simps)
  moreover have "demo_view MULTICALL3 data = data" for data by (simp add: demo_view_def)
  ultimately show ?thesis unfolding serves_calls_def demo_chunks
    by (simp add: demo_call_raw results demo_abi_def demo_aggregate3_def demo_call_views)
qed

theorem aggregate_reads_transparent_witness:
  "answers (aggregate_reads demo_call_rpc demo_abi demo_calls 7) (Ok [replicate 31 0 @ [4], replicate 31 0 @ [5]])"
proof -
  have "\<forall>c \<in> set demo_calls. \<not> c3_allow_failure c \<and> 4 \<le> length (c3_call_data c) \<and> call_view demo_view c \<noteq> []"
    by (simp add: demo_calls_def call_view_def demo_view_def replicate_not_MULTICALL3)
  moreover have "\<forall>c \<in> set (chunks MAX_CALLS demo_calls). length (sc_encode (aggregate3 demo_abi) c) \<le> MAX_INPUT_BYTES"
    by (simp add: demo_chunks demo_abi_def demo_aggregate3_def demo_call_views MAX_INPUT_BYTES_def)
  ultimately show ?thesis
    using aggregate_reads_transparent [OF demo_serves_calls] by (simp only: demo_call_views)
qed

end
