(* ===== verification/Claim_Set.thy ===== *)
theory Claim_Set
  imports Encoding
begin

text \<open>
  The commitments over the claim stream (\<^verbatim>\<open>settlement_input_hash\<close>, \<^verbatim>\<open>claim_set_hash\<close> and
  \<^verbatim>\<open>replay_claim_set\<close> of \<^verbatim>\<open>offchain-rust/src/lib.rs\<close>).  The rolling hash is an instance of a
  generic hash chain, whose binding lemma is proved once in the locale \<open>hash_chain\<close>.
\<close>

section \<open>Data and operations\<close>

datatype event_kind = Register | Cancel

record claim_event =
  ev_kind :: event_kind
  ev_claim_id :: biguint
  ev_user :: address
  ev_amount :: biguint
  ev_score_to_spend :: biguint
  ev_booster_amount :: biguint
  ev_block_number :: u64
  ev_log_index :: u64

definition settlement_input_hash ::
  "(bytes \<Rightarrow> hash) \<Rightarrow> (address \<times> biguint) list \<Rightarrow> (kernel_error, string) result" where
  "settlement_input_hash keccak256 rows =
     (let canonical = sort_key fst rows in
      case find (\<lambda>(a, b). fst a = fst b) (windows2 canonical) of
        Some (a, b) \<Rightarrow> Err (DuplicateInputUser (fst b))
      | None \<Rightarrow>
          bindR (ok_or Uint256Overflow (checked_mul64 (length canonical) 32)) (\<lambda>array_bytes.
          bindR (ok_or Uint256Overflow (checked_add64 96 array_bytes)) (\<lambda>second_offset.
          bindR (mapR (\<lambda>(_, score). uint256_word score) canonical) (\<lambda>scores.
            Ok (hash_hex (keccak256 (usize_word 64 @ usize_word second_offset
                 @ usize_word (length canonical) @ concat (map (\<lambda>(user, _). abi_word user) canonical)
                 @ usize_word (length canonical) @ concat scores)))))))"

text \<open>One step of the rolling hash: the preimage of the next accumulator.\<close>

definition event_preimage :: "hash \<Rightarrow> claim_event \<Rightarrow> (kernel_error, bytes) result" where
  "event_preimage accumulator event =
     bindR (uint256_word (ev_claim_id event)) (\<lambda>cid.
       case ev_kind event of
         Cancel \<Rightarrow> Ok (accumulator @ cid)
       | Register \<Rightarrow>
           bindR (uint256_word (ev_amount event)) (\<lambda>amount.
           bindR (uint256_word (ev_score_to_spend event)) (\<lambda>score.
           bindR (uint256_word (ev_booster_amount event)) (\<lambda>booster.
             Ok (accumulator @ cid @ abi_word (ev_user event) @ amount @ score @ booster)))))"

definition claim_set_accumulator ::
  "(bytes \<Rightarrow> hash) \<Rightarrow> hash \<Rightarrow> claim_event list \<Rightarrow> (kernel_error, hash) result" where
  "claim_set_accumulator keccak256 =
     foldR (\<lambda>accumulator event. bindR (event_preimage accumulator event) (\<lambda>p. Ok (keccak256 p)))"

definition claim_set_hash :: "(bytes \<Rightarrow> hash) \<Rightarrow> claim_event list \<Rightarrow> (kernel_error, string) result" where
  "claim_set_hash keccak256 events =
     bindR (claim_set_accumulator keccak256 ZERO_HASH events) (\<lambda>h. Ok (hash_hex h))"

record claim_set_replay =
  replay_hash :: string
  unresolved_claims :: nat
  live_claim_ids :: "biguint list"

record replay_state =
  rs_registrations :: "biguint set"
  rs_order :: "biguint list"
  rs_cancelled :: "biguint set"
  rs_previous :: "(u64 \<times> u64) option"

definition replay_init :: replay_state where
  "replay_init = \<lparr>rs_registrations = {}, rs_order = [], rs_cancelled = {}, rs_previous = None\<rparr>"

definition replay_step :: "replay_state \<Rightarrow> claim_event \<Rightarrow> (kernel_error, replay_state) result" where
  "replay_step s event =
     (let pos = (ev_block_number event, ev_log_index event); cid = ev_claim_id event in
      bindR
        (case rs_previous s of
           Some (pb, pi) \<Rightarrow> if pos \<le> (pb, pi) then Err (EventOrder pb pi (fst pos) (snd pos)) else Ok ()
         | None \<Rightarrow> Ok ()) (\<lambda>_.
      let s = s\<lparr>rs_previous := Some pos\<rparr> in
      case ev_kind event of
        Register \<Rightarrow>
          if cid \<in> rs_registrations s then Err (DuplicateRegistration cid)
          else Ok (s\<lparr>rs_registrations := insert cid (rs_registrations s), rs_order := rs_order s @ [cid]\<rparr>)
      | Cancel \<Rightarrow>
          if cid \<notin> rs_registrations s then Err (UnknownCancellation cid)
          else if cid \<in> rs_cancelled s then Err (DuplicateCancellation cid)
          else Ok (s\<lparr>rs_cancelled := insert cid (rs_cancelled s)\<rparr>)))"

definition replay_claim_set ::
  "(bytes \<Rightarrow> hash) \<Rightarrow> claim_event list \<Rightarrow> (kernel_error, claim_set_replay) result" where
  "replay_claim_set keccak256 events =
     bindR (foldR replay_step replay_init events) (\<lambda>s.
       let live = filter (\<lambda>c. c \<notin> rs_cancelled s) (rs_order s) in
       bindR (claim_set_hash keccak256 events) (\<lambda>h.
         Ok \<lparr>replay_hash = h, unresolved_claims = length live, live_claim_ids = live\<rparr>))"

section \<open>What the replay computes\<close>

definition ids_of :: "event_kind \<Rightarrow> claim_event list \<Rightarrow> biguint list" where
  "ids_of k es = map ev_claim_id (filter (\<lambda>e. ev_kind e = k) es)"

definition ev_position :: "claim_event \<Rightarrow> u64 \<times> u64" where
  "ev_position e = (ev_block_number e, ev_log_index e)"

text \<open>
  A well-formed stream: strictly increasing log positions, every id registered at most once and
  cancelled at most once, and every cancellation preceded by its registration.
\<close>

definition valid_stream :: "claim_event list \<Rightarrow> bool" where
  "valid_stream es \<longleftrightarrow>
     sorted_wrt (<) (map ev_position es) \<and> distinct (ids_of Register es) \<and> distinct (ids_of Cancel es)
     \<and> (\<forall>i < length es. ev_kind (es ! i) = Cancel \<longrightarrow> ev_claim_id (es ! i) \<in> set (ids_of Register (take i es)))"

definition state_of :: "claim_event list \<Rightarrow> replay_state" where
  "state_of es = \<lparr>rs_registrations = set (ids_of Register es), rs_order = ids_of Register es,
     rs_cancelled = set (ids_of Cancel es),
     rs_previous = (if es = [] then None else Some (ev_position (last es)))\<rparr>"

lemma ids_of_simps [simp]:
  "ids_of k [] = []"
  "ids_of k (es @ [e]) = ids_of k es @ (if ev_kind e = k then [ev_claim_id e] else [])"
  by (simp_all add: ids_of_def)

lemma sorted_wrt_snoc_last:
  fixes xs :: "'a::linorder list"
  shows "sorted_wrt (<) (xs @ [x]) \<longleftrightarrow> sorted_wrt (<) xs \<and> (xs = [] \<or> last xs < x)"
proof (cases xs rule: rev_cases)
  case (snoc ys y)
  then show ?thesis by (auto simp: sorted_wrt_append)
qed simp

lemma valid_stream_snoc:
  "valid_stream (es @ [e]) \<longleftrightarrow> valid_stream es \<and> (es = [] \<or> ev_position (last es) < ev_position e)
     \<and> (case ev_kind e of Register \<Rightarrow> ev_claim_id e \<notin> set (ids_of Register es)
        | Cancel \<Rightarrow> ev_claim_id e \<in> set (ids_of Register es) - set (ids_of Cancel es))"
proof -
  have pos: "sorted_wrt (<) (map ev_position (es @ [e])) \<longleftrightarrow>
      sorted_wrt (<) (map ev_position es) \<and> (es = [] \<or> ev_position (last es) < ev_position e)"
    using sorted_wrt_snoc_last [of "map ev_position es" "ev_position e"] by (cases "es = []") (auto simp: last_map)
  have pre: "(\<forall>i < length (es @ [e]). ev_kind ((es @ [e]) ! i) = Cancel \<longrightarrow>
        ev_claim_id ((es @ [e]) ! i) \<in> set (ids_of Register (take i (es @ [e])))) \<longleftrightarrow>
      (\<forall>i < length es. ev_kind (es ! i) = Cancel \<longrightarrow> ev_claim_id (es ! i) \<in> set (ids_of Register (take i es)))
      \<and> (ev_kind e = Cancel \<longrightarrow> ev_claim_id e \<in> set (ids_of Register es))"
    by (auto simp: nth_append less_Suc_eq)
  show ?thesis
    unfolding valid_stream_def pos pre by (cases "ev_kind e") auto
qed

lemma replay_step_state_of:
  "replay_step (state_of es) e = Ok s \<longleftrightarrow>
     (es = [] \<or> ev_position (last es) < ev_position e)
     \<and> (case ev_kind e of Register \<Rightarrow> ev_claim_id e \<notin> set (ids_of Register es)
        | Cancel \<Rightarrow> ev_claim_id e \<in> set (ids_of Register es) - set (ids_of Cancel es))
     \<and> s = state_of (es @ [e])"
  by (cases "ev_kind e")
     (auto simp: replay_step_def state_of_def ev_position_def Let_def not_le split: if_splits)

lemma replay_loop: "foldR replay_step replay_init es = Ok s \<longleftrightarrow> valid_stream es \<and> s = state_of es"
proof (induction es arbitrary: s rule: rev_induct)
  case Nil
  then show ?case by (auto simp: valid_stream_def replay_init_def state_of_def)
next
  case (snoc e es)
  have "foldR replay_step replay_init (es @ [e]) = Ok s \<longleftrightarrow>
      valid_stream es \<and> replay_step (state_of es) e = Ok s"
    using snoc by (auto simp: foldR_append bindR_eq_Inr)
  then show ?case by (simp only: replay_step_state_of valid_stream_snoc) auto
qed

definition live_ids :: "claim_event list \<Rightarrow> biguint list" where
  "live_ids es = filter (\<lambda>c. c \<notin> set (ids_of Cancel es)) (ids_of Register es)"

lemma replay_claim_set_Ok:
  "replay_claim_set keccak es = Ok r \<longleftrightarrow>
     valid_stream es \<and> claim_set_hash keccak es = Ok (replay_hash r)
     \<and> live_claim_ids r = live_ids es \<and> unresolved_claims r = length (live_ids es)"
  by (cases r) (auto simp: replay_claim_set_def bindR_eq_Inr replay_loop Let_def live_ids_def state_of_def)

lemma valid_stream_cancel_subset: "valid_stream es \<Longrightarrow> set (ids_of Cancel es) \<subseteq> set (ids_of Register es)"
proof (induction es rule: rev_induct)
  case (snoc e es)
  then show ?case by (cases "ev_kind e") (auto simp: valid_stream_snoc)
qed simp

lemma length_live_ids:
  assumes "valid_stream es"
  shows "length (live_ids es) = length (ids_of Register es) - length (ids_of Cancel es)"
proof -
  have d: "distinct (ids_of Register es)" "distinct (ids_of Cancel es)"
    using assms by (auto simp: valid_stream_def)
  have "length (live_ids es) = card (set (ids_of Register es) - set (ids_of Cancel es))"
    using d(1) distinct_card [of "live_ids es"] by (simp add: live_ids_def set_diff_eq)
  then show ?thesis
    using valid_stream_cancel_subset [OF assms] d by (simp add: card_Diff_subset distinct_card)
qed

section \<open>The settlement input hash does not depend on row order\<close>

lemma windows2_map: "windows2 (map f xs) = map (map_prod f f) (windows2 xs)"
  by (simp add: windows2_def zip_map_map map_tl map_prod_def split_def flip: map_tl)

lemma find_map: "find P (map f xs) = map_option f (find (P \<circ> f) xs)"
  by (induction xs) auto

definition first_duplicate :: "'a list \<Rightarrow> 'a option" where
  "first_duplicate xs = map_option snd (find (\<lambda>(a, b). a = b) (windows2 xs))"

lemma first_duplicate_map:
  "map_option (\<lambda>(a, b). f b) (find (\<lambda>(a, b). f a = f b) (windows2 xs)) = first_duplicate (map f xs)"
  by (simp add: first_duplicate_def windows2_map find_map comp_def option.map_comp split_def)

lemma first_duplicate_None:
  fixes xs :: "'a::linorder list"
  assumes "sorted xs"
  shows "first_duplicate xs = None \<longleftrightarrow> distinct xs"
  using windows2_sorted_distinct [of "\<lambda>x. x" xs] assms
  by (auto simp: first_duplicate_def find_None_iff list_ex_iff)

lemma sort_key_mset_unique:
  assumes "mset xs = mset ys" "distinct (map f xs)"
  shows "sort_key f xs = sort_key f ys"
  using assms by (intro sort_key_inj_key_eq) (auto simp: distinct_map)

lemma map_sort_key: "map f (sort_key f xs) = sort (map f xs)"
  by (rule properties_for_sort [symmetric]) simp_all

lemma settlement_input_hash_duplicate:
  "settlement_input_hash keccak rows =
     (case first_duplicate (sort (map fst rows)) of
        Some u \<Rightarrow> Err (DuplicateInputUser u)
      | None \<Rightarrow> settlement_input_hash keccak rows)"
proof -
  have "first_duplicate (sort (map fst rows))
      = map_option (\<lambda>(a, b). fst b) (find (\<lambda>(a, b). fst a = fst b) (windows2 (sort_key fst rows)))"
    unfolding first_duplicate_map by (simp add: map_sort_key)
  then show ?thesis
    by (cases "find (\<lambda>(a, b). fst a = fst b) (windows2 (sort_key fst rows))")
       (auto simp: settlement_input_hash_def Let_def)
qed

lemma settlement_input_hash_permute:
  assumes "mset rows = mset rows'"
  shows "settlement_input_hash keccak rows = settlement_input_hash keccak rows'"
proof (cases "first_duplicate (sort (map fst rows))")
  case None
  then have "distinct (map fst rows)" by (simp add: first_duplicate_None)
  then have "sort_key fst rows = sort_key fst rows'" by (rule sort_key_mset_unique [OF assms])
  then show ?thesis by (simp add: settlement_input_hash_def)
next
  case (Some u)
  have "sort (map fst rows) = sort (map fst rows')"
    using assms by (intro properties_for_sort) simp_all
  with Some show ?thesis
    using settlement_input_hash_duplicate [of keccak rows] settlement_input_hash_duplicate [of keccak rows'] by simp
qed

lemma settlement_input_hash_Ok_distinct:
  "settlement_input_hash keccak rows = Ok h \<Longrightarrow> distinct (map fst rows)"
  using settlement_input_hash_duplicate [of keccak rows] first_duplicate_None [of "sort (map fst rows)"]
  by (auto split: option.splits)

lemma settlement_input_hash_success:
  "(\<exists>h. settlement_input_hash keccak rows = Ok h) \<longleftrightarrow>
     distinct (map fst rows) \<and> list_all (\<lambda>r. fits (snd r)) rows \<and> 96 + length rows * 32 \<le> u64_max"
proof (cases "first_duplicate (sort (map fst rows))")
  case None
  then have d: "distinct (map fst rows)" by (simp add: first_duplicate_None)
  have f: "find (\<lambda>(a, b). fst a = fst b) (windows2 (sort_key fst rows)) = None"
    using first_duplicate_map [of fst "sort_key fst rows"] None by (simp add: map_sort_key)
  have "list_all P (sort_key fst rows) = list_all P rows" for P :: "_ \<Rightarrow> bool" by (simp add: list_all_iff)
  then show ?thesis
    using d f by (auto simp: settlement_input_hash_def Let_def bindR_eq_Inr split_def mapR_uint256_word [of snd])
next
  case (Some u)
  then have "\<not> distinct (map fst rows)"
    using first_duplicate_None [of "sort (map fst rows)"] by auto
  then show ?thesis using settlement_input_hash_duplicate [of keccak rows] Some by simp
qed

section \<open>Hash chains\<close>

text \<open>
  A rolling commitment: each item is encoded together with the previous accumulator and hashed.
  The only demand on a provider is that the encoding is injective on well-formed
  accumulators and items.  Nothing is assumed of the hash but the shape of its outputs:
  two different streams with the same commitment exhibit a collision among the very
  preimages the two runs hash, or a preimage of the initial accumulator.
\<close>

locale hash_chain =
  fixes enc :: "'h \<Rightarrow> 'a \<Rightarrow> 'p" and good :: "'h \<Rightarrow> bool" and valid :: "'a \<Rightarrow> bool"
  assumes enc_inj:
    "good h \<Longrightarrow> good h' \<Longrightarrow> valid a \<Longrightarrow> valid a' \<Longrightarrow> enc h a = enc h' a' \<Longrightarrow> h = h' \<and> a = a'"
begin

definition chain :: "('p \<Rightarrow> 'h) \<Rightarrow> 'h \<Rightarrow> 'a list \<Rightarrow> 'h" where
  "chain H = foldl (\<lambda>h a. H (enc h a))"

fun preimages :: "('p \<Rightarrow> 'h) \<Rightarrow> 'h \<Rightarrow> 'a list \<Rightarrow> 'p set" where
  "preimages H h [] = {}"
| "preimages H h (a # as) = insert (enc h a) (preimages H (H (enc h a)) as)"

lemma chain_snoc: "chain H h (as @ [a]) = H (enc (chain H h as) a)"
  by (simp add: chain_def)

lemma preimages_snoc: "preimages H h (as @ [a]) = insert (enc (chain H h as) a) (preimages H h as)"
  by (induction as arbitrary: h) (auto simp: chain_def)

lemma chain_good: "good h \<Longrightarrow> (\<And>p. good (H p)) \<Longrightarrow> good (chain H h as)"
  by (cases as rule: rev_cases) (auto simp: chain_def)

lemma chain_binding:
  assumes "good h0" "\<And>p. good (H p)"
    "\<forall>a \<in> set as. valid a" "\<forall>b \<in> set bs. valid b" "chain H h0 as = chain H h0 bs"
  shows "as = bs \<or> (\<exists>p \<in> preimages H h0 as \<union> preimages H h0 bs. H p = h0)
    \<or> (\<exists>p \<in> preimages H h0 as. \<exists>q \<in> preimages H h0 bs. p \<noteq> q \<and> H p = H q)"
  using assms(3-5)
proof (induction as arbitrary: bs rule: rev_induct)
  case Nil
  then show ?case
    by (cases bs rule: rev_cases) (auto simp: chain_snoc preimages_snoc, simp add: chain_def)
next
  case (snoc a as)
  show ?case
  proof (cases bs rule: rev_cases)
    case Nil
    with snoc.prems show ?thesis by (auto simp: chain_snoc preimages_snoc) (simp add: chain_def)
  next
    case (snoc bs' b)
    let ?p = "enc (chain H h0 as) a" and ?q = "enc (chain H h0 bs') b"
    show ?thesis
    proof (cases "?p = ?q")
      case True
      have "chain H h0 as = chain H h0 bs' \<and> a = b"
        by (rule enc_inj [OF _ _ _ _ True]) (use snoc snoc.prems assms(1,2) \<open>\<forall>a\<in>set (as @ [a]). valid a\<close>
            \<open>\<forall>b\<in>set bs. valid b\<close> in \<open>auto intro: chain_good\<close>)
      then show ?thesis
        using snoc.IH [of bs'] \<open>\<forall>a\<in>set (as @ [a]). valid a\<close> \<open>\<forall>b\<in>set bs. valid b\<close> snoc
        by (auto simp: preimages_snoc)
    next
      case False
      with snoc \<open>chain H h0 (as @ [a]) = chain H h0 bs\<close> show ?thesis
        by (auto simp: chain_snoc preimages_snoc)
    qed
  qed
qed

end

section \<open>The claim-set hash is a hash chain\<close>

text \<open>What an event commits to, and its encoding for values that fit in 256 bits.\<close>

datatype commitment =
    RegisterCommit biguint address biguint biguint biguint
  | CancelCommit biguint

fun commit_of :: "claim_event \<Rightarrow> commitment" where
  "commit_of e = (case ev_kind e of
     Register \<Rightarrow> RegisterCommit (ev_claim_id e) (ev_user e) (ev_amount e) (ev_score_to_spend e) (ev_booster_amount e)
   | Cancel \<Rightarrow> CancelCommit (ev_claim_id e))"

fun commit_enc :: "hash \<Rightarrow> commitment \<Rightarrow> bytes" where
  "commit_enc h (RegisterCommit c u a s b) =
     h @ be_bytes 32 c @ abi_word u @ be_bytes 32 a @ be_bytes 32 s @ be_bytes 32 b"
| "commit_enc h (CancelCommit c) = h @ be_bytes 32 c"

fun valid_commit :: "commitment \<Rightarrow> bool" where
  "valid_commit (RegisterCommit c u a s b) \<longleftrightarrow> fits c \<and> wf_address u \<and> fits a \<and> fits s \<and> fits b"
| "valid_commit (CancelCommit c) \<longleftrightarrow> fits c"

fun commit_size :: "commitment \<Rightarrow> nat" where
  "commit_size (RegisterCommit c u a s b) = 192"
| "commit_size (CancelCommit c) = 64"

lemma length_commit_enc: "length h = 32 \<Longrightarrow> valid_commit c \<Longrightarrow> length (commit_enc h c) = commit_size c"
  by (cases c) (simp_all add: length_abi_word del: be_bytes.simps)

lemma commit_enc_inj:
  assumes "length h = 32" "length h' = 32" "valid_commit c" "valid_commit c'" "commit_enc h c = commit_enc h' c'"
  shows "h = h' \<and> c = c'"
proof -
  have len: "commit_size c = commit_size c'"
    using assms(5) length_commit_enc [OF assms(1,3)] length_commit_enc [OF assms(2,4)] by simp
  show ?thesis
  proof (cases c)
    case c: (RegisterCommit a1 a2 a3 a4 a5)
    with len obtain b1 b2 b3 b4 b5 where c': "c' = RegisterCommit b1 b2 b3 b4 b5"
      by (cases c') auto
    show ?thesis using assms unfolding c c'
      by (auto simp: length_abi_word abi_word_inj simp del: be_bytes.simps dest!: be_bytes_32_inj)
  next
    case c: (CancelCommit a1)
    with len obtain b1 where c': "c' = CancelCommit b1"
      by (cases c') auto
    show ?thesis using assms unfolding c c'
      by (auto simp del: be_bytes.simps dest!: be_bytes_32_inj)
  qed
qed

interpretation claim_chain: hash_chain commit_enc "\<lambda>h. length h = 32" valid_commit
  by unfold_locales (rule commit_enc_inj)

text \<open>The byte strings a run of \<^verbatim>\<open>claim_set_hash\<close> feeds to the hash, in order.\<close>

fun hashed_preimages :: "(bytes \<Rightarrow> hash) \<Rightarrow> hash \<Rightarrow> claim_event list \<Rightarrow> bytes list" where
  "hashed_preimages keccak256 h [] = []"
| "hashed_preimages keccak256 h (e # es) =
     (case event_preimage h e of Inl _ \<Rightarrow> []
      | Inr p \<Rightarrow> p # hashed_preimages keccak256 (keccak256 p) es)"

lemma event_preimage_Ok:
  assumes "event_preimage h e = Ok p" "wf_address (ev_user e)"
  shows "p = commit_enc h (commit_of e) \<and> valid_commit (commit_of e)"
  using assms by (cases "ev_kind e")
    (auto simp: event_preimage_def uint256_word_cases split: if_splits simp del: be_bytes.simps)

lemma claim_set_accumulator_chain:
  assumes "claim_set_accumulator keccak h es = Ok r" "\<forall>e \<in> set es. wf_address (ev_user e)"
  shows "r = claim_chain.chain keccak h (map commit_of es) \<and> (\<forall>c \<in> set (map commit_of es). valid_commit c)
    \<and> set (hashed_preimages keccak h es) = claim_chain.preimages keccak h (map commit_of es)"
  using assms
proof (induction es arbitrary: h)
  case Nil
  then show ?case by (simp add: claim_set_accumulator_def claim_chain.chain_def)
next
  case (Cons e es)
  then obtain p where p: "event_preimage h e = Ok p" "claim_set_accumulator keccak (keccak p) es = Ok r"
    by (auto simp: claim_set_accumulator_def)
  have "p = commit_enc h (commit_of e) \<and> valid_commit (commit_of e)"
    using event_preimage_Ok [OF p(1)] Cons.prems(2) by simp
  with Cons.IH [OF p(2)] Cons.prems(2) p(1) show ?case
    by (auto simp: claim_chain.chain_def simp del: commit_of.simps)
qed

definition event_fits :: "claim_event \<Rightarrow> bool" where
  "event_fits e \<longleftrightarrow> fits (ev_claim_id e) \<and> (ev_kind e = Register \<longrightarrow>
     fits (ev_amount e) \<and> fits (ev_score_to_spend e) \<and> fits (ev_booster_amount e))"

lemma event_preimage_success: "(\<exists>p. event_preimage h e = Ok p) \<longleftrightarrow> event_fits e"
  by (cases "ev_kind e")
     (auto simp: event_preimage_def event_fits_def uint256_word_cases bindR_eq_Inr simp del: be_bytes.simps)

lemma claim_set_accumulator_success: "(\<exists>h. claim_set_accumulator keccak h0 es = Ok h) \<longleftrightarrow> list_all event_fits es"
proof (induction es arbitrary: h0)
  case (Cons e es)
  show ?case
  proof (cases "event_preimage h0 e")
    case (Inl err)
    then have "\<not> event_fits e" using event_preimage_success [of h0 e] by auto
    with Inl show ?thesis by (simp add: claim_set_accumulator_def)
  next
    case (Inr p)
    then have "event_fits e" using event_preimage_success [of h0 e] by auto
    with Inr Cons [of "keccak p"] show ?thesis by (simp add: claim_set_accumulator_def)
  qed
qed (simp add: claim_set_accumulator_def)

lemma claim_set_hash_success: "(\<exists>h. claim_set_hash keccak es = Ok h) \<longleftrightarrow> list_all event_fits es"
  using claim_set_accumulator_success [of keccak ZERO_HASH es] by (auto simp: claim_set_hash_def bindR_eq_Inr)

lemma claim_set_hash_commitments:
  assumes "claim_set_hash keccak es = Ok h" "claim_set_hash keccak es' = Ok h" "\<And>x. length (keccak x) = 32"
    "\<forall>e \<in> set (es @ es'). wf_address (ev_user e)"
  shows "map commit_of es = map commit_of es'
    \<or> (\<exists>p \<in> set (hashed_preimages keccak ZERO_HASH es @ hashed_preimages keccak ZERO_HASH es'). keccak p = ZERO_HASH)
    \<or> (\<exists>p \<in> set (hashed_preimages keccak ZERO_HASH es). \<exists>q \<in> set (hashed_preimages keccak ZERO_HASH es').
          p \<noteq> q \<and> keccak p = keccak q)"
proof -
  obtain r where r: "claim_set_accumulator keccak ZERO_HASH es = Ok r" "claim_set_accumulator keccak ZERO_HASH es' = Ok r"
    using assms(1,2) by (auto simp: claim_set_hash_def hash_hex_inj)
  have z: "length ZERO_HASH = 32" by (simp add: ZERO_HASH_def)
  note a = claim_set_accumulator_chain [OF r(1)] and b = claim_set_accumulator_chain [OF r(2)]
  have "claim_chain.chain keccak ZERO_HASH (map commit_of es) = claim_chain.chain keccak ZERO_HASH (map commit_of es')"
    using a b assms(4) by simp
  from claim_chain.chain_binding [of ZERO_HASH keccak, OF z assms(3) _ _ this] a b assms(4) show ?thesis
    by auto
qed

section \<open>Claims\<close>

text \<open>
  C17.  \<^verbatim>\<open>replay_claim_set\<close> accepts exactly the well-formed streams whose values fit in 256 bits, and then
  reports the registered, uncancelled ids in registration order: they are distinct and their
  number is the registrations less the cancellations.
\<close>
theorem replay_claim_set_exact:
  "replay_claim_set keccak es = Ok r \<longleftrightarrow>
     valid_stream es \<and> claim_set_hash keccak es = Ok (replay_hash r)
     \<and> live_claim_ids r = filter (\<lambda>c. c \<notin> set (ids_of Cancel es)) (ids_of Register es)
     \<and> distinct (live_claim_ids r)
     \<and> unresolved_claims r = length (live_claim_ids r)
     \<and> unresolved_claims r = length (ids_of Register es) - length (ids_of Cancel es)"
  using length_live_ids [of es]
  by (auto simp: replay_claim_set_Ok live_ids_def valid_stream_def)

definition demo_event :: "event_kind \<Rightarrow> nat \<Rightarrow> nat \<Rightarrow> claim_event" where
  "demo_event k c b = \<lparr>ev_kind = k, ev_claim_id = c, ev_user = Address (replicate 20 (word_of_nat c)),
     ev_amount = 100 * c, ev_score_to_spend = 7, ev_booster_amount = 1, ev_block_number = b, ev_log_index = 0\<rparr>"

definition demo_keccak :: "bytes \<Rightarrow> hash" where
  "demo_keccak bs = take 32 (rev bs @ replicate 32 1)"

text \<open>
  C18.  The claim-set hash binds the stream: if two streams have the same hash, then they commit to
  the same registrations and cancellations in the same order, or the two runs exhibit a collision
  of the hash function (or a preimage of the zero accumulator) among the byte strings
  they hash.
\<close>
theorem claim_set_hash_binding:
  assumes "claim_set_hash keccak es = Ok h" "claim_set_hash keccak es' = Ok h" "\<And>x. length (keccak x) = 32"
    "\<forall>e \<in> set (es @ es'). wf_address (ev_user e)"
  shows "map commit_of es = map commit_of es'
    \<or> (\<exists>p \<in> set (hashed_preimages keccak ZERO_HASH es @ hashed_preimages keccak ZERO_HASH es'). keccak p = ZERO_HASH)
    \<or> (\<exists>p \<in> set (hashed_preimages keccak ZERO_HASH es). \<exists>q \<in> set (hashed_preimages keccak ZERO_HASH es').
          p \<noteq> q \<and> keccak p = keccak q)"
  by (rule claim_set_hash_commitments [OF assms])

lemma demo_claim_set_hash:
  "claim_set_hash demo_keccak [demo_event Register 1 5] = claim_set_hash demo_keccak [demo_event Register 1 6]"
  by (simp add: claim_set_hash_def claim_set_accumulator_def event_preimage_def demo_event_def)

lemma demo_claim_set_hash_Ok: "\<exists>h. claim_set_hash demo_keccak [demo_event Register 1 5] = Ok h"
  by (simp add: claim_set_hash_def claim_set_accumulator_def event_preimage_def demo_event_def
      uint256_word_cases fits_def del: be_bytes.simps)

theorem claim_set_hash_binding_witness:
  "let es = [demo_event Register 1 5]; es' = [demo_event Register 1 6] in
   map commit_of es = map commit_of es'
    \<or> (\<exists>p \<in> set (hashed_preimages demo_keccak ZERO_HASH es @ hashed_preimages demo_keccak ZERO_HASH es').
          demo_keccak p = ZERO_HASH)
    \<or> (\<exists>p \<in> set (hashed_preimages demo_keccak ZERO_HASH es). \<exists>q \<in> set (hashed_preimages demo_keccak ZERO_HASH es').
          p \<noteq> q \<and> demo_keccak p = demo_keccak q)"
proof -
  obtain h where h: "claim_set_hash demo_keccak [demo_event Register 1 5] = Ok h"
    using demo_claim_set_hash_Ok by blast
  have wf: "\<forall>e \<in> set ([demo_event Register 1 5] @ [demo_event Register 1 6]). wf_address (ev_user e)"
    by (simp add: demo_event_def wf_address_def)
  show ?thesis unfolding Let_def
    by (rule claim_set_hash_binding [OF h h [unfolded demo_claim_set_hash] _ wf])
       (simp add: demo_keccak_def)
qed

text \<open>
   \<^verbatim>\<open>settlement_input_hash\<close> is a function of the set of rows: it does not depend on their order (also
  not in the error it returns), and it succeeds only when no user occurs twice.
\<close>
theorem settlement_input_hash_order:
  "(mset rows = mset rows' \<longrightarrow> settlement_input_hash keccak rows = settlement_input_hash keccak rows')
   \<and> (settlement_input_hash keccak rows = Ok h \<longrightarrow> distinct (map fst rows))"
  using settlement_input_hash_permute settlement_input_hash_Ok_distinct by blast

theorem settlement_input_hash_order_witness:
  "settlement_input_hash demo_keccak [(Address (replicate 20 2), 9), (Address (replicate 20 1), 4)]
   = settlement_input_hash demo_keccak [(Address (replicate 20 1), 4), (Address (replicate 20 2), 9)]
   \<and> distinct (map fst [(Address (replicate 20 2), 9 :: nat), (Address (replicate 20 1), 4)])"
  using settlement_input_hash_order [of "[(Address (replicate 20 2), 9), (Address (replicate 20 1), 4)]"
      "[(Address (replicate 20 1), 4), (Address (replicate 20 2), 9)]" demo_keccak]
    settlement_input_hash_success [of demo_keccak "[(Address (replicate 20 2), 9), (Address (replicate 20 1), 4)]"]
  by (simp add: fits_def u64_max_def)

end
