(* ===== verification/History.thy ===== *)
theory History
  imports Chain_Reads Claim_Set
begin

text \<open>
  Event histories of \<^verbatim>\<open>offchain-rust/src/chain.rs\<close>: the claim stream of an incident, minimum balances
  over a window, block-by-block balance integrals, earned scores and the time-weighted conversion
  ratio.  The event decoders that \<^verbatim>\<open>sol!\<close> generates are parameters (\<open>events\<close>).
\<close>

section \<open>Events\<close>

record 'e sol_event =
  ev_signature :: string
  ev_signature_hash :: hash
  ev_decode_raw_log :: "hash list \<Rightarrow> bytes \<Rightarrow> string + 'e"

record claim_registered =
  cr_claim_id :: nat
  cr_incident_id :: nat
  cr_user :: address
  cr_insured_token_amount :: nat
  cr_score_to_spend :: nat
  cr_booster_amount :: nat

record claim_cancelled =
  cc_claim_id :: nat
  cc_user :: address

record transfer_event =
  te_from :: address
  te_to :: address
  te_value :: nat

record transfer_single =
  ts_from :: address
  ts_to :: address
  ts_id :: nat
  ts_value :: nat

record transfer_batch =
  tb_from :: address
  tb_to :: address
  tb_ids :: "nat list"
  tb_values :: "nat list"

text \<open>The error texts of the hexadecimal parsers are parameters too.\<close>

record events =
  b256_from_str :: "string \<Rightarrow> string + hash"
  hex_error_text :: "string \<Rightarrow> string"
  ClaimRegistered :: "claim_registered sol_event"
  ClaimCancelled :: "claim_cancelled sol_event"
  Transfer :: "transfer_event sol_event"
  TransferSingle :: "transfer_single sol_event"
  TransferBatch :: "transfer_batch sol_event"

definition topic_hash :: "hash \<Rightarrow> json" where
  "topic_hash v = JStr (hash_hex v)"

definition uint_topic :: "biguint \<Rightarrow> string \<Rightarrow> (chain_error, json) result" where
  "uint_topic v field = bindR (big_to_u256 v field) (\<lambda>word. Ok (JStr (hash_hex (be_bytes 32 word))))"

definition address_topic :: "address \<Rightarrow> json" where
  "address_topic a = JStr (hash_hex (abi_word a))"

text \<open>\<^verbatim>\<open>trim_start_matches("0x")\<close> removes every leading occurrence.\<close>

fun trim_0x :: "string \<Rightarrow> string" where
  "trim_0x (a # b # s) = (if a = CHR ''0'' \<and> b = CHR ''x'' then trim_0x s else a # b # s)"
| "trim_0x s = s"

definition decode_event :: "events \<Rightarrow> 'e sol_event \<Rightarrow> rpc_log \<Rightarrow> (chain_error, 'e) result" where
  "decode_event ev event log =
     (let err = EventDecode (ev_signature event) (log_block_number log) (log_log_index log) in
      bindR (map_errR err (mapR (b256_from_str ev) (log_topics log))) (\<lambda>topics.
      bindR (let body = trim_0x (log_data log) in ok_or (err (hex_error_text ev body)) (hex_decode body)) (\<lambda>data.
        map_errR err (ev_decode_raw_log event topics data))))"

definition merge_log_metrics :: "log_metrics \<Rightarrow> log_metrics \<Rightarrow> log_metrics" where
  "merge_log_metrics l r =
     \<lparr>lm_requests = saturating_add64 (lm_requests l) (lm_requests r),
      lm_bisections = saturating_add64 (lm_bisections l) (lm_bisections r),
      lm_errors = saturating_add64 (lm_errors l) (lm_errors r),
      lm_elapsed_ms = saturating_add64 (lm_elapsed_ms l) (lm_elapsed_ms r)\<rparr>"

text \<open>A query through \<^verbatim>\<open>?\<close>, which converts the error.\<close>

definition query_logs ::
  "('w, 'z) rpc_scheme \<Rightarrow> log_filter \<Rightarrow> u64 \<Rightarrow> u64 \<Rightarrow> u64 \<Rightarrow> nat \<Rightarrow> ('w, chain_error, rpc_log list \<times> log_metrics) act" where
  "query_logs rpc f from_b to_b max_range result_cap =
     map_errA ChainRpc (get_logs_chunked rpc f from_b to_b max_range result_cap)"

section \<open>The claim stream\<close>

definition registration_step ::
  "events \<Rightarrow> biguint set \<times> claim_event list \<Rightarrow> rpc_log \<Rightarrow> (chain_error, biguint set \<times> claim_event list) result" where
  "registration_step ev acc log =
     bindR (decode_event ev (ClaimRegistered ev) log) (\<lambda>d.
       Ok (insert (cr_claim_id d) (fst acc),
           snd acc @ [\<lparr>ev_kind = Register, ev_claim_id = cr_claim_id d, ev_user = cr_user d,
             ev_amount = cr_insured_token_amount d, ev_score_to_spend = cr_score_to_spend d,
             ev_booster_amount = cr_booster_amount d, ev_block_number = log_block_number log,
             ev_log_index = log_log_index log\<rparr>]))"

definition cancellation_step ::
  "events \<Rightarrow> biguint set \<Rightarrow> claim_event list \<Rightarrow> rpc_log \<Rightarrow> (chain_error, claim_event list) result" where
  "cancellation_step ev claim_ids es log =
     bindR (decode_event ev (ClaimCancelled ev) log) (\<lambda>d.
       Ok (if cc_claim_id d \<in> claim_ids
           then es @ [\<lparr>ev_kind = Cancel, ev_claim_id = cc_claim_id d, ev_user = cc_user d,
             ev_amount = 0, ev_score_to_spend = 0, ev_booster_amount = 0,
             ev_block_number = log_block_number log, ev_log_index = log_log_index log\<rparr>]
           else es))"

definition event_position :: "claim_event \<Rightarrow> u64 \<times> u64" where
  "event_position e = (ev_block_number e, ev_log_index e)"

definition registration_filter :: "events \<Rightarrow> address \<Rightarrow> json \<Rightarrow> log_filter" where
  "registration_filter ev defi_insurance incident_topic =
     \<lparr>lf_address = address_to_string defi_insurance,
      lf_topics = [topic_hash (ev_signature_hash (ClaimRegistered ev)), JNull, incident_topic]\<rparr>"

definition cancellation_filter :: "events \<Rightarrow> address \<Rightarrow> log_filter" where
  "cancellation_filter ev defi_insurance =
     \<lparr>lf_address = address_to_string defi_insurance,
      lf_topics = [topic_hash (ev_signature_hash (ClaimCancelled ev))]\<rparr>"

definition read_input_events ::
  "('w, 'z) rpc_scheme \<Rightarrow> events \<Rightarrow> address \<Rightarrow> biguint \<Rightarrow> u64 \<Rightarrow> u64 \<Rightarrow> u64 \<Rightarrow> nat
    \<Rightarrow> ('w, chain_error, claim_event list \<times> log_metrics) act" where
  "read_input_events rpc ev defi_insurance incident_id from_b to_b max_range result_cap =
     bindA (liftR (uint_topic incident_id ''incidentId'')) (\<lambda>topic.
     bindA (query_logs rpc (registration_filter ev defi_insurance topic) from_b to_b max_range result_cap)
       (\<lambda>(registration_logs, registration_metrics).
     bindA (liftR (foldR (registration_step ev) ({}, []) registration_logs)) (\<lambda>(claim_ids, es).
     bindA (query_logs rpc (cancellation_filter ev defi_insurance) from_b to_b max_range result_cap)
       (\<lambda>(cancellation_logs, cancellation_metrics).
     bindA (liftR (foldR (cancellation_step ev claim_ids) es cancellation_logs)) (\<lambda>es'.
       retA (sort_key event_position es', merge_log_metrics registration_metrics cancellation_metrics))))))"

section \<open>Net deltas\<close>

record net_delta =
  inflow :: biguint
  outflow :: biguint

definition default_delta :: net_delta where
  "default_delta = \<lparr>inflow = 0, outflow = 0\<rparr>"

type_synonym deltas = "(u64 \<times> u64, net_delta) btree_map"

text \<open>\<^verbatim>\<open>entry(key).or_default()\<close> followed by an update in place.\<close>

definition om_update :: "'v \<Rightarrow> 'k::linorder \<Rightarrow> ('v \<Rightarrow> 'v) \<Rightarrow> ('k, 'v) btree_map \<Rightarrow> ('k, 'v) btree_map" where
  "om_update d k f m = om_insert k (f (case map_of m k of Some v \<Rightarrow> v | None \<Rightarrow> d)) m"

definition bump_delta :: "biguint \<Rightarrow> bool \<Rightarrow> net_delta \<Rightarrow> net_delta" where
  "bump_delta v is_inflow d =
     (if is_inflow then d\<lparr>inflow := inflow d + v\<rparr> else d\<lparr>outflow := outflow d + v\<rparr>)"

definition add_delta :: "deltas \<Rightarrow> rpc_log \<Rightarrow> biguint \<Rightarrow> bool \<Rightarrow> deltas" where
  "add_delta ds log v is_inflow =
     om_update default_delta (log_block_number log, log_log_index log) (bump_delta v is_inflow) ds"

text \<open>One delta on a balance: \<open>None\<close> when it would fall below zero.\<close>

definition delta_balance :: "biguint \<Rightarrow> net_delta \<Rightarrow> biguint option" where
  "delta_balance bal d =
     (if inflow d \<ge> outflow d then Some (bal + (inflow d - outflow d))
      else let decrease = outflow d - inflow d in if decrease > bal then None else Some (bal - decrease))"

definition delta_step ::
  "address \<Rightarrow> biguint \<times> biguint \<Rightarrow> (u64 \<times> u64) \<times> net_delta \<Rightarrow> (chain_error, biguint \<times> biguint) result" where
  "delta_step asset acc entry =
     (let (minimum, bal) = acc; ((blk, index), d) = entry in
      case delta_balance bal d of
        None \<Rightarrow> Err (ReplayUnderflow asset blk index)
      | Some bal' \<Rightarrow> Ok (if inflow d \<ge> outflow d then minimum else if bal' < minimum then bal' else minimum, bal'))"

definition apply_deltas :: "address \<Rightarrow> biguint \<Rightarrow> deltas \<Rightarrow> (chain_error, biguint \<times> biguint) result" where
  "apply_deltas asset bal ds = foldR (delta_step asset) (bal, bal) ds"

section \<open>Transfers\<close>

record token_transfer =
  tt_from :: address
  tt_to :: address
  tt_value :: biguint
  tt_block_number :: u64
  tt_log_index :: u64

definition tt_position :: "token_transfer \<Rightarrow> u64 \<times> u64" where
  "tt_position t = (tt_block_number t, tt_log_index t)"

definition decode_transfer :: "events \<Rightarrow> rpc_log \<Rightarrow> (chain_error, token_transfer) result" where
  "decode_transfer ev log =
     bindR (decode_event ev (Transfer ev) log) (\<lambda>e.
       Ok \<lparr>tt_from = te_from e, tt_to = te_to e, tt_value = te_value e,
           tt_block_number = log_block_number log, tt_log_index = log_log_index log\<rparr>)"

definition unique_step ::
  "(u64 \<times> u64, rpc_log) btree_map \<Rightarrow> rpc_log \<Rightarrow> (chain_error, (u64 \<times> u64, rpc_log) btree_map) result" where
  "unique_step unique log =
     (let key = log_position log in
      if (case map_of unique key of None \<Rightarrow> False | Some previous \<Rightarrow> previous \<noteq> log)
      then Err (InvalidConfiguration (''conflicting duplicate transfer log at '' @ show_nat (fst key) @ '':'' @ show_nat (snd key)))
      else Ok (om_insert key log unique))"

definition outgoing_filter :: "events \<Rightarrow> address \<Rightarrow> json \<Rightarrow> log_filter" where
  "outgoing_filter ev token topic =
     \<lparr>lf_address = address_to_string token, lf_topics = [topic_hash (ev_signature_hash (Transfer ev)), topic]\<rparr>"

definition incoming_filter :: "events \<Rightarrow> address \<Rightarrow> json \<Rightarrow> log_filter" where
  "incoming_filter ev token topic =
     \<lparr>lf_address = address_to_string token, lf_topics = [topic_hash (ev_signature_hash (Transfer ev)), JNull, topic]\<rparr>"

text \<open>The two queries of \<^verbatim>\<open>try_join!\<close> are modelled one after the other.\<close>

definition transfer_batch_step ::
  "('w, 'z) rpc_scheme \<Rightarrow> events \<Rightarrow> address \<Rightarrow> u64 \<Rightarrow> u64 \<Rightarrow> u64 \<Rightarrow> nat
    \<Rightarrow> (u64 \<times> u64, rpc_log) btree_map \<times> log_metrics \<Rightarrow> json list
    \<Rightarrow> ('w, chain_error, (u64 \<times> u64, rpc_log) btree_map \<times> log_metrics) act" where
  "transfer_batch_step rpc ev token from_b to_b max_range result_cap acc batch =
     (let options = JArr batch; (unique, metrics) = acc in
      bindA (query_logs rpc (outgoing_filter ev token options) from_b to_b max_range result_cap) (\<lambda>(outgoing, om).
      bindA (query_logs rpc (incoming_filter ev token options) from_b to_b max_range result_cap) (\<lambda>(incoming, im).
      bindA (liftR (foldR unique_step unique outgoing)) (\<lambda>unique'.
      bindA (liftR (foldR unique_step unique' incoming)) (\<lambda>unique''.
        retA (unique'', merge_log_metrics (merge_log_metrics metrics om) im))))))"

definition erc20_transfers_for_accounts ::
  "('w, 'z) rpc_scheme \<Rightarrow> events \<Rightarrow> address \<Rightarrow> address list \<Rightarrow> u64 \<Rightarrow> u64 \<Rightarrow> u64 \<Rightarrow> nat
    \<Rightarrow> ('w, chain_error, token_transfer list \<times> log_metrics) act" where
  "erc20_transfers_for_accounts rpc ev token accounts from_b to_b max_range result_cap =
     (if to_b < from_b \<or> accounts = [] then retA ([], default_log_metrics)
      else bindA (foldA (transfer_batch_step rpc ev token from_b to_b max_range result_cap) ([], default_log_metrics)
                    (chunks 64 (map address_topic accounts))) (\<lambda>(unique, metrics).
           bindA (liftR (mapR (\<lambda>(_, log). decode_transfer ev log) unique)) (\<lambda>transfers.
             retA (transfers, metrics))))"

definition transfer_filter :: "events \<Rightarrow> address \<Rightarrow> log_filter" where
  "transfer_filter ev token = \<lparr>lf_address = address_to_string token, lf_topics = [topic_hash (ev_signature_hash (Transfer ev))]\<rparr>"

definition erc20_transfers ::
  "('w, 'z) rpc_scheme \<Rightarrow> events \<Rightarrow> address \<Rightarrow> u64 \<Rightarrow> u64 \<Rightarrow> u64 \<Rightarrow> nat
    \<Rightarrow> ('w, chain_error, token_transfer list \<times> log_metrics) act" where
  "erc20_transfers rpc ev token from_b to_b max_range result_cap =
     (if to_b < from_b then retA ([], default_log_metrics)
      else bindA (query_logs rpc (transfer_filter ev token) from_b to_b max_range result_cap) (\<lambda>(logs, metrics).
           bindA (liftR (mapR (decode_transfer ev) logs)) (\<lambda>transfers.
             retA (sort_key tt_position transfers, metrics))))"

section \<open>Minimum balances\<close>

definition account_delta ::
  "address \<Rightarrow> u64 \<times> u64 \<Rightarrow> biguint \<Rightarrow> bool \<Rightarrow> (address, deltas) btree_map \<Rightarrow> (address, deltas) btree_map" where
  "account_delta account position v is_inflow m =
     om_update [] account (om_update default_delta position (bump_delta v is_inflow)) m"

definition collect_transfer ::
  "address list \<Rightarrow> (address, deltas) btree_map \<Rightarrow> token_transfer \<Rightarrow> (address, deltas) btree_map" where
  "collect_transfer accounts m transfer =
     (let position = tt_position transfer;
          m' = (if tt_from transfer \<in> set accounts then account_delta (tt_from transfer) position (tt_value transfer) False m else m)
      in if tt_to transfer \<in> set accounts then account_delta (tt_to transfer) position (tt_value transfer) True m' else m')"

definition minimum_step ::
  "('w, 'z) rpc_scheme \<Rightarrow> abi \<Rightarrow> address \<Rightarrow> u64 \<Rightarrow> (address, deltas) btree_map \<Rightarrow> (address, biguint) btree_map
    \<Rightarrow> address \<times> biguint \<Rightarrow> ('w, chain_error, (address, biguint) btree_map) act" where
  "minimum_step rpc abi token to_b account_deltas minimums entry =
     (let (account, starting_balance) = entry;
          ds = (case map_of account_deltas account of Some ds \<Rightarrow> ds | None \<Rightarrow> [])
      in bindA (liftR (apply_deltas token starting_balance ds)) (\<lambda>(minimum, replayed).
         bindA (balance_of_at rpc abi token account to_b) (\<lambda>actual.
           if actual \<noteq> replayed then failA (BalanceReplayMismatch token replayed actual to_b)
           else retA (om_insert account minimum minimums))))"

definition starting_balances ::
  "('w, 'z) rpc_scheme \<Rightarrow> abi \<Rightarrow> address \<Rightarrow> address list \<Rightarrow> u64 \<Rightarrow> ('w, chain_error, (address, biguint) btree_map) act" where
  "starting_balances rpc abi token accounts from_b =
     foldA (\<lambda>m account. bindA (balance_of_at rpc abi token account from_b) (\<lambda>b. retA (om_insert account b m))) [] accounts"

definition min_balances_over ::
  "('w, 'z) rpc_scheme \<Rightarrow> abi \<Rightarrow> events \<Rightarrow> address \<Rightarrow> address list \<Rightarrow> u64 \<Rightarrow> u64 \<Rightarrow> u64 \<Rightarrow> nat
    \<Rightarrow> ('w, chain_error, (address, biguint) btree_map \<times> log_metrics) act" where
  "min_balances_over rpc abi ev token accounts from_b to_b max_range result_cap =
     bindA (starting_balances rpc abi token accounts from_b) (\<lambda>starting.
     if to_b \<le> from_b then retA (starting, default_log_metrics)
     else bindA (erc20_transfers_for_accounts rpc ev token accounts (from_b + 1) to_b max_range result_cap)
            (\<lambda>(transfers, metrics).
          bindA (foldA (minimum_step rpc abi token to_b (foldl (collect_transfer accounts) [] transfers)) [] starting)
            (\<lambda>minimums. retA (minimums, metrics))))"

definition min_balance_over ::
  "('w, 'z) rpc_scheme \<Rightarrow> abi \<Rightarrow> events \<Rightarrow> address \<Rightarrow> address \<Rightarrow> u64 \<Rightarrow> u64 \<Rightarrow> u64 \<Rightarrow> nat
    \<Rightarrow> ('w, chain_error, biguint \<times> log_metrics) act" where
  "min_balance_over rpc abi ev token account from_b to_b max_range result_cap =
     bindA (min_balances_over rpc abi ev token [account] from_b to_b max_range result_cap) (\<lambda>(minimums, metrics).
     bindA (liftR (ok_or (InvalidConfiguration ''missing replayed account minimum'') (map_of minimums account))) (\<lambda>minimum.
       retA (minimum, metrics)))"

definition values_for_id :: "nat list \<Rightarrow> nat list \<Rightarrow> nat \<Rightarrow> (chain_error, biguint) result" where
  "values_for_id ids values wanted =
     (if length ids \<noteq> length values then Err BatchLengthMismatch
      else Ok (foldl (\<lambda>acc (_, v). acc + v) 0 (filter (\<lambda>(i, _). i = wanted) (zip ids values))))"

definition erc1155_queries :: "events \<Rightarrow> address \<Rightarrow> address \<Rightarrow> (log_filter \<times> bool \<times> bool) list" where
  "erc1155_queries ev collection account =
     (let topic = address_topic account;
          q = (\<lambda>sig_hash rest is_inflow batch.
                 (\<lparr>lf_address = address_to_string collection, lf_topics = topic_hash sig_hash # rest\<rparr>, is_inflow, batch));
          single = ev_signature_hash (TransferSingle ev);
          batch = ev_signature_hash (TransferBatch ev)
      in [q single [JNull, topic] False False,
          q single [JNull, JNull, topic] True False,
          q batch [JNull, topic] False True,
          q batch [JNull, JNull, topic] True True])"

definition erc1155_value :: "events \<Rightarrow> nat \<Rightarrow> bool \<Rightarrow> rpc_log \<Rightarrow> (chain_error, biguint) result" where
  "erc1155_value ev wanted batch log =
     (if batch
      then bindR (decode_event ev (TransferBatch ev) log) (\<lambda>e. values_for_id (tb_ids e) (tb_values e) wanted)
      else bindR (decode_event ev (TransferSingle ev) log) (\<lambda>e. Ok (if ts_id e = wanted then ts_value e else 0)))"

definition erc1155_log_step ::
  "events \<Rightarrow> nat \<Rightarrow> bool \<Rightarrow> bool \<Rightarrow> deltas \<Rightarrow> rpc_log \<Rightarrow> (chain_error, deltas) result" where
  "erc1155_log_step ev wanted is_inflow batch ds log =
     bindR (erc1155_value ev wanted batch log) (\<lambda>v. Ok (if v \<noteq> 0 then add_delta ds log v is_inflow else ds))"

definition erc1155_query_step ::
  "('w, 'z) rpc_scheme \<Rightarrow> events \<Rightarrow> nat \<Rightarrow> u64 \<Rightarrow> u64 \<Rightarrow> u64 \<Rightarrow> nat \<Rightarrow> deltas \<times> log_metrics
    \<Rightarrow> log_filter \<times> bool \<times> bool \<Rightarrow> ('w, chain_error, deltas \<times> log_metrics) act" where
  "erc1155_query_step rpc ev wanted from_b to_b max_range result_cap acc query =
     (let (ds, metrics) = acc; (f, is_inflow, batch) = query in
      bindA (query_logs rpc f (from_b + 1) to_b max_range result_cap) (\<lambda>(logs, query_metrics).
      bindA (liftR (foldR (erc1155_log_step ev wanted is_inflow batch) ds logs)) (\<lambda>ds'.
        retA (ds', merge_log_metrics metrics query_metrics))))"

definition min_erc1155_balance_over ::
  "('w, 'z) rpc_scheme \<Rightarrow> abi \<Rightarrow> events \<Rightarrow> address \<Rightarrow> address \<Rightarrow> biguint \<Rightarrow> u64 \<Rightarrow> u64 \<Rightarrow> u64 \<Rightarrow> nat
    \<Rightarrow> ('w, chain_error, biguint \<times> log_metrics) act" where
  "min_erc1155_balance_over rpc abi ev collection account token_id from_b to_b max_range result_cap =
     bindA (erc1155_balance_of_at rpc abi collection account token_id from_b) (\<lambda>starting_balance.
     if to_b \<le> from_b then retA (starting_balance, default_log_metrics)
     else bindA (liftR (big_to_u256 token_id ''ERC1155 id'')) (\<lambda>wanted.
          bindA (foldA (erc1155_query_step rpc ev wanted from_b to_b max_range result_cap) ([], default_log_metrics)
                   (erc1155_queries ev collection account)) (\<lambda>(ds, metrics).
          bindA (liftR (apply_deltas collection starting_balance ds)) (\<lambda>(minimum, replayed).
          bindA (erc1155_balance_of_at rpc abi collection account token_id to_b) (\<lambda>actual.
            if actual \<noteq> replayed then failA (BalanceReplayMismatch collection replayed actual to_b)
            else retA (minimum, metrics))))))"

section \<open>Balance integrals and scores\<close>

record integral_state =
  is_accumulator :: biguint
  is_balance :: biguint
  is_cursor :: u64

definition integral_step ::
  "address \<Rightarrow> integral_state \<Rightarrow> (u64 \<times> u64) \<times> net_delta \<Rightarrow> (chain_error, integral_state) result" where
  "integral_step token s entry =
     (let ((blk, index), d) = entry;
          acc = is_accumulator s + is_balance s * (blk - is_cursor s)
      in case delta_balance (is_balance s) d of
           None \<Rightarrow> Err (ReplayUnderflow token blk index)
         | Some bal \<Rightarrow> Ok \<lparr>is_accumulator = acc, is_balance = bal, is_cursor = blk\<rparr>)"

definition transfer_delta_step :: "events \<Rightarrow> bool \<Rightarrow> deltas \<Rightarrow> rpc_log \<Rightarrow> (chain_error, deltas) result" where
  "transfer_delta_step ev is_inflow ds log =
     bindR (decode_event ev (Transfer ev) log) (\<lambda>e. Ok (add_delta ds log (te_value e) is_inflow))"

definition transfer_deltas :: "events \<Rightarrow> rpc_log list \<Rightarrow> rpc_log list \<Rightarrow> (chain_error, deltas) result" where
  "transfer_deltas ev outgoing incoming =
     bindR (foldR (transfer_delta_step ev False) [] outgoing) (\<lambda>ds. foldR (transfer_delta_step ev True) ds incoming)"

definition integrate_deltas ::
  "address \<Rightarrow> biguint \<Rightarrow> u64 \<Rightarrow> u64 \<Rightarrow> deltas \<Rightarrow> (chain_error, biguint \<times> biguint) result" where
  "integrate_deltas token bal from_b to_b ds =
     bindR (foldR (integral_step token) \<lparr>is_accumulator = 0, is_balance = bal, is_cursor = from_b\<rparr> ds) (\<lambda>s.
       Ok (is_accumulator s + is_balance s * (to_b - is_cursor s), is_balance s))"

definition token_block_integral ::
  "('w, 'z) rpc_scheme \<Rightarrow> abi \<Rightarrow> events \<Rightarrow> address \<Rightarrow> address \<Rightarrow> u64 \<Rightarrow> u64 \<Rightarrow> u64 \<Rightarrow> nat
    \<Rightarrow> ('w, chain_error, biguint \<times> log_metrics) act" where
  "token_block_integral rpc abi ev token account from_b to_b max_range result_cap =
     (if to_b \<le> from_b then retA (0, default_log_metrics)
      else bindA (balance_of_at rpc abi token account from_b) (\<lambda>bal.
           bindA (query_logs rpc (outgoing_filter ev token (address_topic account)) (from_b + 1) to_b max_range result_cap)
             (\<lambda>(outgoing, outgoing_metrics).
           bindA (query_logs rpc (incoming_filter ev token (address_topic account)) (from_b + 1) to_b max_range result_cap)
             (\<lambda>(incoming, incoming_metrics).
           bindA (liftR (transfer_deltas ev outgoing incoming)) (\<lambda>ds.
           bindA (liftR (integrate_deltas token bal from_b to_b ds)) (\<lambda>(accumulator, replayed).
           bindA (balance_of_at rpc abi token account to_b) (\<lambda>actual.
             if actual \<noteq> replayed then failA (BalanceReplayMismatch token replayed actual to_b)
             else retA (accumulator, merge_log_metrics outgoing_metrics incoming_metrics))))))))"

definition segment_to :: "rate_point list \<Rightarrow> nat \<Rightarrow> u64 \<Rightarrow> u64" where
  "segment_to rates index as_of_block =
     min (if index + 1 < length rates then from_block (rates ! (index + 1)) else as_of_block) as_of_block"

definition score_segment_step ::
  "('w, 'z) rpc_scheme \<Rightarrow> abi \<Rightarrow> events \<Rightarrow> scored_token \<Rightarrow> address \<Rightarrow> u64 \<Rightarrow> u64 \<Rightarrow> nat
    \<Rightarrow> biguint \<times> log_metrics \<Rightarrow> nat \<times> rate_point \<Rightarrow> ('w, chain_error, biguint \<times> log_metrics) act" where
  "score_segment_step rpc abi ev scored account as_of_block max_range result_cap acc ip =
     (let (numerator, metrics) = acc; (index, point) = ip; to_b = segment_to (st_rates scored) index as_of_block in
      if rate point = 0 \<or> from_block point \<ge> to_b then retA acc
      else bindA (token_block_integral rpc abi ev (st_token scored) account (from_block point) to_b max_range result_cap)
             (\<lambda>(integral, segment_metrics).
               retA (numerator + scaled_integral integral (st_decimals scored) * rate point,
                     merge_log_metrics metrics segment_metrics)))"

definition score_token_step ::
  "('w, 'z) rpc_scheme \<Rightarrow> abi \<Rightarrow> events \<Rightarrow> address \<Rightarrow> u64 \<Rightarrow> u64 \<Rightarrow> nat
    \<Rightarrow> biguint \<times> log_metrics \<Rightarrow> scored_token \<Rightarrow> ('w, chain_error, biguint \<times> log_metrics) act" where
  "score_token_step rpc abi ev account as_of_block max_range result_cap acc scored =
     foldA (score_segment_step rpc abi ev scored account as_of_block max_range result_cap) acc
       (enumerate 0 (st_rates scored))"

definition earned_score_of ::
  "('w, 'z) rpc_scheme \<Rightarrow> abi \<Rightarrow> events \<Rightarrow> scored_token list \<Rightarrow> address \<Rightarrow> u64 \<Rightarrow> u64 \<Rightarrow> nat
    \<Rightarrow> ('w, chain_error, biguint \<times> log_metrics) act" where
  "earned_score_of rpc abi ev scored_tokens account as_of_block max_range result_cap =
     bindA (foldA (score_token_step rpc abi ev account as_of_block max_range result_cap) (0, default_log_metrics) scored_tokens)
       (\<lambda>(numerator, metrics). retA (numerator div ONE_1E18, metrics))"

section \<open>Time-weighted ratio\<close>

text \<open>The sampling loop; its caller has rejected a zero step.\<close>

function twap_loop ::
  "('w, 'z) rpc_scheme \<Rightarrow> address \<Rightarrow> bytes \<Rightarrow> u64 \<Rightarrow> u64 \<Rightarrow> biguint \<Rightarrow> u64 \<Rightarrow> u64 \<Rightarrow> ('w, chain_error, biguint \<times> u64) act" where
  "twap_loop rpc conversion call_data reference_block step sum_r samples blk =
     (if blk \<le> reference_block \<and> 0 < step
      then bindA (ratio_at rpc conversion call_data blk) (\<lambda>ratio.
           case checked_add64 samples 1 of
             None \<Rightarrow> failA (InvalidConfiguration ''TWAP sample count overflow'')
           | Some samples' \<Rightarrow>
               (case checked_add64 blk step of
                 None \<Rightarrow> retA (sum_r + ratio, samples')
               | Some next_blk \<Rightarrow> twap_loop rpc conversion call_data reference_block step (sum_r + ratio) samples' next_blk))
      else retA (sum_r, samples))"
  by pat_completeness auto
termination
  by (relation "measure (\<lambda>(_, _, _, reference_block, step, _, _, blk). Suc reference_block - blk)")
    (auto simp: checked_add64_def split: if_splits)

declare twap_loop.simps [simp del]

definition twap_start :: "settlement_params \<Rightarrow> u64 \<Rightarrow> u64" where
  "twap_start params reference_block =
     (if reference_block > twap_lookback_blocks params then reference_block - twap_lookback_blocks params else 1)"

definition twap_ratio_before ::
  "('w, 'z) rpc_scheme \<Rightarrow> incident_config \<Rightarrow> u64 \<Rightarrow> ('w, chain_error, biguint) act" where
  "twap_ratio_before rpc config reference_block =
     (let step = sample_step_blocks (ic_params config) in
      if step = 0 then failA (InvalidConfiguration ''sampleStepBlocks is zero'')
      else bindA (twap_loop rpc (ic_conversion_address config) (ic_conversion_call_data config) reference_block step 0 0
                    (twap_start (ic_params config) reference_block)) (\<lambda>(sum_r, samples).
             retA (if samples = 0 then 0 else sum_r div samples)))"

end
