(* ===== verification/History_Spec.thy ===== *)
theory History_Spec
  imports History
begin

text \<open>
  Correctness of the event histories.  The ground truth of a token is the list of its transfers in log
  order; an account's ledger is the part that touches it.  Net deltas, minimum balances and
  block integrals computed by the chain reader are functions of that ledger, and the earned score is
  the score specification of the score accumulator.
\<close>

section \<open>Ledgers\<close>

definition ledger :: "address \<Rightarrow> token_transfer list \<Rightarrow> deltas" where
  "ledger a ts = map (\<lambda>t. (tt_position t, \<lparr>inflow = (if tt_to t = a then tt_value t else 0),
       outflow = (if tt_from t = a then tt_value t else 0)\<rparr>))
     (filter (\<lambda>t. tt_from t = a \<or> tt_to t = a) ts)"

definition ordered_transfers :: "token_transfer list \<Rightarrow> bool" where
  "ordered_transfers ts \<longleftrightarrow> sorted_wrt (<) (map tt_position ts)"

text \<open>A ledger as the score accumulator's list of block transfers.\<close>

definition ledger_transfers :: "deltas \<Rightarrow> transfer list" where
  "ledger_transfers ds = map (\<lambda>((b, _), d). (b, inflow d, outflow d)) ds"

definition at_position :: "token_transfer list \<Rightarrow> u64 \<times> u64 \<Rightarrow> token_transfer option" where
  "at_position ts = map_of (map (\<lambda>t. (tt_position t, t)) ts)"

lemma sorted_wrt_map_filter: "sorted_wrt r (map f xs) \<Longrightarrow> sorted_wrt r (map f (filter P xs))"
  by (induction xs) auto

lemma ordered_transfers_distinct: "ordered_transfers ts \<Longrightarrow> distinct (map tt_position ts)"
  by (simp add: ordered_transfers_def strict_sorted_iff)

lemma ledger_wf: "ordered_transfers ts \<Longrightarrow> om_wf (ledger a ts)"
  using sorted_wrt_map_filter [of "(<)" tt_position ts]
  by (simp add: om_wf_def ledger_def ordered_transfers_def comp_def)

lemma at_position_filter:
  "distinct (map tt_position ts) \<Longrightarrow>
     at_position (filter P ts) p = (case at_position ts p of Some t \<Rightarrow> if P t then Some t else None | None \<Rightarrow> None)"
proof (induction ts)
  case (Cons t ts)
  then have "at_position ts (tt_position t) = None"
    by (auto simp: at_position_def map_of_eq_None_iff image_iff comp_def)
  with Cons show ?case by (auto simp: at_position_def split: option.splits)
qed (simp add: at_position_def)

lemma map_of_ledger:
  "distinct (map tt_position ts) \<Longrightarrow> map_of (ledger a ts) p =
     (case at_position ts p of
        Some t \<Rightarrow> if tt_from t = a \<or> tt_to t = a
                 then Some \<lparr>inflow = (if tt_to t = a then tt_value t else 0),
                            outflow = (if tt_from t = a then tt_value t else 0)\<rparr> else None
      | None \<Rightarrow> None)"
proof (induction ts)
  case (Cons t ts)
  then have "at_position ts (tt_position t) = None"
    by (auto simp: at_position_def map_of_eq_None_iff image_iff comp_def)
  with Cons show ?case by (auto simp: at_position_def ledger_def split: option.splits)
qed (simp add: at_position_def ledger_def)

section \<open>Collecting net deltas\<close>

definition bump_all :: "bool \<Rightarrow> token_transfer list \<Rightarrow> deltas \<Rightarrow> deltas" where
  "bump_all is_inflow ts ds =
     fold (\<lambda>t. om_update default_delta (tt_position t) (bump_delta (tt_value t) is_inflow)) ts ds"

lemma om_update_wf: "om_wf m \<Longrightarrow> om_wf (om_update d k f m)"
  by (simp add: om_update_def om_wf_insert)

lemma om_update_get:
  "om_wf m \<Longrightarrow> map_of (om_update d k f m) k'
     = (if k' = k then Some (f (case map_of m k of Some v \<Rightarrow> v | None \<Rightarrow> d)) else map_of m k')"
  by (simp add: om_update_def om_get_insert)

lemma bump_all_wf: "om_wf ds \<Longrightarrow> om_wf (bump_all is_inflow ts ds)"
  unfolding bump_all_def by (induction ts arbitrary: ds) (auto simp: om_update_wf)

lemma bump_all_get:
  assumes "om_wf ds" "distinct (map tt_position ts)"
  shows "map_of (bump_all is_inflow ts ds) p =
    (case at_position ts p of None \<Rightarrow> map_of ds p
     | Some t \<Rightarrow> Some (bump_delta (tt_value t) is_inflow (case map_of ds p of Some d \<Rightarrow> d | None \<Rightarrow> default_delta)))"
  using assms
proof (induction ts arbitrary: ds)
  case (Cons t ts)
  then have "at_position ts (tt_position t) = None"
    by (auto simp: at_position_def map_of_eq_None_iff image_iff comp_def)
  with Cons show ?case by (auto simp: bump_all_def at_position_def om_update_wf om_update_get split: option.splits)
qed (simp add: bump_all_def at_position_def)

lemma transfer_delta_step_decode:
  "decode_transfer ev log = Ok t \<Longrightarrow> transfer_delta_step ev is_inflow ds log
     = Ok (om_update default_delta (tt_position t) (bump_delta (tt_value t) is_inflow) ds)"
  by (auto simp: decode_transfer_def transfer_delta_step_def add_delta_def tt_position_def)

lemma fold_transfer_delta:
  "mapR (decode_transfer ev) logs = Ok ts \<Longrightarrow> foldR (transfer_delta_step ev is_inflow) ds logs = Ok (bump_all is_inflow ts ds)"
  by (induction logs arbitrary: ts ds) (auto simp: bump_all_def transfer_delta_step_decode)

lemma transfer_deltas_ledger:
  assumes "ordered_transfers ts"
    "mapR (decode_transfer ev) outgoing = Ok (filter (\<lambda>t. tt_from t = a) ts)"
    "mapR (decode_transfer ev) incoming = Ok (filter (\<lambda>t. tt_to t = a) ts)"
  shows "transfer_deltas ev outgoing incoming = Ok (ledger a ts)"
proof -
  let ?ds = "bump_all False (filter (\<lambda>t. tt_from t = a) ts) []"
  let ?ds' = "bump_all True (filter (\<lambda>t. tt_to t = a) ts) ?ds"
  note d = ordered_transfers_distinct [OF assms(1)]
  have dist: "distinct (map tt_position (filter P ts))" for P
    using d by (simp add: distinct_map_filter)
  have "?ds' = ledger a ts"
  proof (rule om_extensional)
    fix p
    show "map_of ?ds' p = map_of (ledger a ts) p"
      by (auto simp: bump_all_get bump_all_wf dist at_position_filter [OF d] map_of_ledger [OF d] bump_delta_def
          default_delta_def split: option.splits)
  qed (simp_all add: bump_all_wf ledger_wf assms(1))
  then show ?thesis using fold_transfer_delta [OF assms(2)] fold_transfer_delta [OF assms(3)]
    by (simp add: transfer_deltas_def)
qed

section \<open>Integrals and minima of a ledger\<close>

lemma delta_balance_cases:
  "delta_balance b d = (if outflow d \<le> b + inflow d then Some (b + inflow d - outflow d) else None)"
  by (auto simp: delta_balance_def Let_def)

definition ledger_ordered :: "deltas \<Rightarrow> bool" where
  "ledger_ordered ds \<longleftrightarrow> sorted (map (fst \<circ> fst) ds)"

lemma om_wf_ledger_ordered: "om_wf ds \<Longrightarrow> ledger_ordered ds"
proof (induction ds)
  case (Cons e ds)
  then have "om_wf ds" "\<forall>e' \<in> set ds. fst e < fst e'" by (auto simp: om_wf_def)
  with Cons.IH show ?case by (auto simp: ledger_ordered_def less_prod_def)
qed (simp add: ledger_ordered_def)

lemma integral_loop:
  assumes "ledger_ordered ds" "\<forall>e \<in> set ds. cur \<le> fst (fst e) \<and> fst (fst e) \<le> t" "cur \<le> t"
    "covered b (ledger_transfers ds)"
  shows "bindR (foldR (integral_step token) \<lparr>is_accumulator = acc, is_balance = b, is_cursor = cur\<rparr> ds) (\<lambda>s.
       Ok (is_accumulator s + is_balance s * (t - is_cursor s), is_balance s))
    = Ok (acc + (\<Sum>x\<in>{cur..<t}. history_of b (ledger_transfers ds) x), final_balance b (ledger_transfers ds))"
  using assms
proof (induction ds arbitrary: acc b cur)
  case Nil
  then show ?case by (simp add: ledger_transfers_def)
next
  case (Cons e ds)
  obtain blk i d where e: "e = ((blk, i), d)" by (metis surj_pair)
  let ?b = "b + inflow d - outflow d"
  have cov: "outflow d \<le> b + inflow d" "covered ?b (ledger_transfers ds)" and blk: "cur \<le> blk" "blk \<le> t"
    using Cons.prems by (auto simp: ledger_transfers_def e)
  have "(\<Sum>x\<in>{cur..<t}. history_of b (ledger_transfers (e # ds)) x)
      = (\<Sum>x\<in>{cur..<blk}. history_of b (ledger_transfers (e # ds)) x)
        + (\<Sum>x\<in>{blk..<t}. history_of b (ledger_transfers (e # ds)) x)"
    by (rule sum_atLeastLessThan_split [OF blk])
  also have "(\<Sum>x\<in>{cur..<blk}. history_of b (ledger_transfers (e # ds)) x) = b * (blk - cur)"
    by (rule sum_atLeastLessThan_const) (simp add: ledger_transfers_def e)
  also have "(\<Sum>x\<in>{blk..<t}. history_of b (ledger_transfers (e # ds)) x)
      = (\<Sum>x\<in>{blk..<t}. history_of ?b (ledger_transfers ds) x)"
    by (intro sum.cong) (auto simp: ledger_transfers_def e)
  finally have sum: "(\<Sum>x\<in>{cur..<t}. history_of b (ledger_transfers (e # ds)) x)
      = b * (blk - cur) + (\<Sum>x\<in>{blk..<t}. history_of ?b (ledger_transfers ds) x)" .
  have "ledger_ordered ds" "\<forall>e' \<in> set ds. blk \<le> fst (fst e') \<and> fst (fst e') \<le> t"
    using Cons.prems(1,2) by (auto simp: ledger_ordered_def e)
  note IH = Cons.IH [OF this blk(2) cov(2)]
  have step: "integral_step token \<lparr>is_accumulator = acc, is_balance = b, is_cursor = cur\<rparr> e
      = Ok \<lparr>is_accumulator = acc + b * (blk - cur), is_balance = ?b, is_cursor = blk\<rparr>"
    by (simp add: integral_step_def e delta_balance_cases cov(1))
  have final: "final_balance b (ledger_transfers (e # ds)) = final_balance ?b (ledger_transfers ds)"
    by (simp add: ledger_transfers_def e)
  show ?case unfolding foldR.simps step bindR_Inr IH sum final by simp
qed

lemma integrate_deltas_exact:
  assumes "om_wf ds" "\<forall>e \<in> set ds. from_b \<le> fst (fst e) \<and> fst (fst e) \<le> to_b" "from_b \<le> to_b"
    "covered b (ledger_transfers ds)"
  shows "integrate_deltas token b from_b to_b ds
    = Ok (\<Sum>x\<in>{from_b..<to_b}. history_of b (ledger_transfers ds) x, final_balance b (ledger_transfers ds))"
  using integral_loop [OF om_wf_ledger_ordered [OF assms(1)] assms(2-4), of token 0] by (simp add: integrate_deltas_def)

text \<open>The balances an account holds one after the other.\<close>

fun running :: "biguint \<Rightarrow> transfer list \<Rightarrow> biguint list" where
  "running b [] = [b]"
| "running b ((_, i, u) # ts) = b # running (b + i - u) ts"

lemma running_nonempty: "running b ts \<noteq> []"
  by (induction b ts rule: running.induct) auto

lemma apply_deltas_loop:
  assumes "covered b (ledger_transfers ds)" "m \<le> b"
  shows "foldR (delta_step asset) (m, b) ds
    = Ok (Min (insert m (set (running b (ledger_transfers ds)))), final_balance b (ledger_transfers ds))"
  using assms
proof (induction ds arbitrary: m b)
  case Nil
  then show ?case by (simp add: ledger_transfers_def min_def)
next
  case (Cons e ds)
  obtain blk i d where e: "e = ((blk, i), d)" by (metis surj_pair)
  let ?b = "b + inflow d - outflow d"
  have cov: "outflow d \<le> b + inflow d" "covered ?b (ledger_transfers ds)"
    using Cons.prems by (auto simp: ledger_transfers_def e)
  have step: "delta_step asset (m, b) e = Ok (min m ?b, ?b)"
    using Cons.prems(2) by (auto simp: delta_step_def e delta_balance_cases cov(1) min_def)
  have set_eq: "set (running b (ledger_transfers (e # ds))) = insert b (set (running ?b (ledger_transfers ds)))"
    by (simp add: ledger_transfers_def e)
  have mem: "?b \<in> set (running ?b (ledger_transfers ds))" by (cases ds) (auto simp: ledger_transfers_def split_def)
  have "Min (insert (min m ?b) (set (running ?b (ledger_transfers ds))))
      = Min (insert m (insert b (set (running ?b (ledger_transfers ds)))))"
    using Cons.prems(2) mem running_nonempty [of ?b "ledger_transfers ds"]
    by (simp add: Min_insert2 min.absorb1 min.left_commute min.assoc [symmetric])
      (metis List.finite_set Min_le min.absorb2 min.assoc min.commute)
  with Cons.IH [OF cov(2), of "min m ?b"] step set_eq show ?case
    by (simp add: ledger_transfers_def e)
qed

lemma apply_deltas_exact:
  assumes "covered b (ledger_transfers ds)"
  shows "apply_deltas asset b ds
    = Ok (Min (set (running b (ledger_transfers ds))), final_balance b (ledger_transfers ds))"
proof -
  have "b \<in> set (running b (ledger_transfers ds))" by (cases ds) (auto simp: ledger_transfers_def split_def)
  then show ?thesis using apply_deltas_loop [OF assms order.refl, of asset] by (simp add: apply_deltas_def insert_absorb)
qed

section \<open>Windows of a ledger\<close>

definition in_window :: "u64 \<Rightarrow> u64 \<Rightarrow> token_transfer \<Rightarrow> bool" where
  "in_window x y t \<longleftrightarrow> x \<le> tt_block_number t \<and> tt_block_number t \<le> y"

definition account_ledger :: "address \<Rightarrow> token_transfer list \<Rightarrow> transfer list" where
  "account_ledger a ts = ledger_transfers (ledger a ts)"

definition account_balance :: "address \<Rightarrow> token_transfer list \<Rightarrow> history" where
  "account_balance a ts = history_of 0 (account_ledger a ts)"

definition window_ledger :: "address \<Rightarrow> token_transfer list \<Rightarrow> u64 \<Rightarrow> u64 \<Rightarrow> transfer list" where
  "window_ledger a ts from_b to_b = filter (\<lambda>(blk, _, _). from_b < blk \<and> blk \<le> to_b) (account_ledger a ts)"

lemma history_before: "\<forall>tr \<in> set ts. x < fst tr \<Longrightarrow> history_of b ts x = b"
  by (cases ts) auto

lemma history_window:
  assumes "sorted (map fst ts)" "from_b \<le> x" "x \<le> to_b"
  shows "history_of b ts x = history_of (history_of b ts from_b) (filter (\<lambda>(blk, _, _). from_b < blk \<and> blk \<le> to_b) ts) x"
  using assms(1)
proof (induction ts arbitrary: b)
  case (Cons tr ts)
  obtain blk i u where tr: "tr = (blk, i, u)" by (cases tr)
  have later: "history_of b' ts from_b = b'" if "from_b < blk" for b'
    by (rule history_before) (use Cons.prems tr that in auto)
  have none: "filter (\<lambda>(blk, _, _). from_b < blk \<and> blk \<le> to_b) ts = []" if "to_b < blk"
    using Cons.prems tr that by (auto simp: filter_empty_conv)
  from Cons.IH [of "b + i - u"] Cons.prems assms(2,3) later none show ?case by (auto simp: tr)
qed simp

lemma covered_window:
  assumes "sorted (map fst ts)" "covered b ts"
  shows "covered (history_of b ts from_b) (filter (\<lambda>(blk, _, _). from_b < blk \<and> blk \<le> to_b) ts)"
  using assms
proof (induction ts arbitrary: b)
  case (Cons tr ts)
  obtain blk i u where tr: "tr = (blk, i, u)" by (cases tr)
  have later: "history_of b' ts from_b = b'" if "from_b < blk" for b'
    by (rule history_before) (use Cons.prems tr that in auto)
  have none: "filter (\<lambda>(blk, _, _). from_b < blk \<and> blk \<le> to_b) ts = []" if "to_b < blk"
    using Cons.prems tr that by (auto simp: filter_empty_conv)
  from Cons.IH [of "b + i - u"] Cons.prems later none show ?case by (auto simp: tr)
qed simp

lemma final_window:
  assumes "sorted (map fst ts)" "from_b \<le> to_b"
  shows "final_balance (history_of b ts from_b) (filter (\<lambda>(blk, _, _). from_b < blk \<and> blk \<le> to_b) ts) = history_of b ts to_b"
proof -
  let ?w = "filter (\<lambda>(blk, _, _). from_b < blk \<and> blk \<le> to_b) ts"
  have "sorted (map fst ?w)" using assms(1) sorted_wrt_map_filter [of "(\<le>)" fst ts] by blast
  moreover have "\<forall>x \<in> set (map fst ?w). from_b \<le> x \<and> x \<le> to_b" by auto
  ultimately have srt: "sorted (from_b # map fst ?w)" unfolding sorted_wrt.simps by blast
  have "last (from_b # map fst ?w) \<in> insert from_b (set (map fst ?w))"
    using last_in_set [of "from_b # map fst ?w"] by simp
  then have "last (from_b # map fst ?w) \<le> to_b" using assms(2) by auto
  from history_of_late [OF srt this, of "history_of b ts from_b"] history_window [OF assms(1,2) order.refl, of b]
  show ?thesis by simp
qed

lemma history_prefix:
  assumes "sorted (map fst ts)" "x \<le> t"
  shows "history_of b (filter (\<lambda>(blk, _). blk \<le> t) ts) x = history_of b ts x"
  using assms
proof (induction ts arbitrary: b)
  case (Cons tr ts)
  obtain blk i u where tr: "tr = (blk, i, u)" by (cases tr)
  have none: "filter (\<lambda>(blk, _). blk \<le> t) ts = []" if "t < blk"
    using Cons.prems tr that by (auto simp: filter_empty_conv)
  from Cons none show ?case by (auto simp: tr)
qed simp

lemma covered_prefix:
  assumes "sorted (map fst ts)" "covered b ts"
  shows "covered b (filter (\<lambda>(blk, _). blk \<le> t) ts)"
  using assms
proof (induction ts arbitrary: b)
  case (Cons tr ts)
  obtain blk i u where tr: "tr = (blk, i, u)" by (cases tr)
  have none: "filter (\<lambda>(blk, _). blk \<le> t) ts = []" if "t < blk"
    using Cons.prems tr that by (auto simp: filter_empty_conv)
  from Cons none show ?case by (auto simp: tr)
qed simp

lemma account_ledger_sorted: "ordered_transfers ts \<Longrightarrow> sorted (map fst (account_ledger a ts))"
  using om_wf_ledger_ordered [OF ledger_wf, of ts a]
  by (simp add: account_ledger_def ledger_transfers_def ledger_ordered_def comp_def split_def)

lemma ordered_transfers_filter: "ordered_transfers ts \<Longrightarrow> ordered_transfers (filter P ts)"
  unfolding ordered_transfers_def by (rule sorted_wrt_map_filter)

lemma window_ledger_eq:
  "account_ledger a (filter (in_window (Suc from_b) to_b) ts) = window_ledger a ts from_b to_b"
  by (simp add: window_ledger_def account_ledger_def ledger_transfers_def ledger_def filter_map comp_def in_window_def
      tt_position_def Suc_le_eq conj_commute conj_left_commute)

lemmas window_facts =
  history_window [OF account_ledger_sorted, where b = 0, folded account_balance_def window_ledger_def]
  covered_window [OF account_ledger_sorted, where b = 0, folded account_balance_def window_ledger_def]
  final_window [OF account_ledger_sorted, where b = 0, folded account_balance_def window_ledger_def]

section \<open>A provider that serves a token's history\<close>

definition select_logs :: "(token_transfer \<Rightarrow> bool) \<Rightarrow> rpc_log list \<Rightarrow> token_transfer list \<Rightarrow> rpc_log list" where
  "select_logs P logs ts = map fst (filter (\<lambda>(l, t). P t) (zip logs ts))"

definition topic_for :: "address list \<Rightarrow> json \<Rightarrow> bool" where
  "topic_for as topic \<longleftrightarrow> as \<noteq> [] \<and> length as \<le> 64 \<and> list_all wf_address as
     \<and> (topic = JArr (map address_topic as) \<or> (\<exists>a. as = [a] \<and> topic = address_topic a))"

text \<open>
  The provider's log queries return the token's transfer logs by sender and by recipient; its state
  queries agree with the transfers for the accounts in question, which never overdraw.
\<close>

definition serves_transfers ::
  "('w, 'z) rpc_scheme \<Rightarrow> events \<Rightarrow> address \<Rightarrow> u64 \<Rightarrow> nat \<Rightarrow> u64 \<Rightarrow> rpc_log list \<Rightarrow> token_transfer list \<Rightarrow> bool" where
  "serves_transfers rpc ev token max_range cap head logs ts \<longleftrightarrow>
     ordered_transfers ts \<and> mapR (decode_transfer ev) logs = Ok ts
     \<and> (\<forall>as topic x y. topic_for as topic \<longrightarrow> x \<le> y \<longrightarrow> y \<le> head \<longrightarrow>
          yields (query_logs rpc (outgoing_filter ev token topic) x y max_range cap)
            (\<lambda>(out, _). out = select_logs (\<lambda>t. tt_from t \<in> set as \<and> in_window x y t) logs ts)
          \<and> yields (query_logs rpc (incoming_filter ev token topic) x y max_range cap)
            (\<lambda>(inc, _). inc = select_logs (\<lambda>t. tt_to t \<in> set as \<and> in_window x y t) logs ts))"

definition serves_balances ::
  "('w, 'z) rpc_scheme \<Rightarrow> abi \<Rightarrow> address \<Rightarrow> u64 \<Rightarrow> token_transfer list \<Rightarrow> address set \<Rightarrow> bool" where
  "serves_balances rpc abi token head ts accounts \<longleftrightarrow>
     (\<forall>a \<in> accounts. wf_address a \<and> covered 0 (account_ledger a ts)
        \<and> (\<forall>b \<le> head. yields (balance_of_at rpc abi token a b) ((=) (account_balance a ts b))))"

lemma mapR_select:
  "mapR f xs = Ok ys \<Longrightarrow> mapR f (map fst (filter (\<lambda>(x, y). P y) (zip xs ys))) = Ok (filter P ys)"
  by (induction xs arbitrary: ys) auto

lemma select_decode:
  "mapR (decode_transfer ev) logs = Ok ts \<Longrightarrow> mapR (decode_transfer ev) (select_logs P logs ts) = Ok (filter P ts)"
  unfolding select_logs_def by (rule mapR_select)

lemma token_block_integral_yields:
  assumes "serves_transfers rpc ev token max_range cap head logs ts" "serves_balances rpc abi token head ts {a}"
    "to_b \<le> head"
  shows "yields (token_block_integral rpc abi ev token a from_b to_b max_range cap)
    (\<lambda>(v, _). v = (\<Sum>b\<in>{from_b..<to_b}. account_balance a ts b))"
proof (cases "to_b \<le> from_b")
  case True
  then show ?thesis by (simp add: token_block_integral_def)
next
  case False
  then have le: "from_b \<le> to_b" "Suc from_b \<le> to_b" by simp_all
  have topic: "topic_for [a] (address_topic a)" using assms(2) by (simp add: topic_for_def serves_balances_def)
  from assms(1) have ord: "ordered_transfers ts" and dec: "mapR (decode_transfer ev) logs = Ok ts"
    and out: "yields (query_logs rpc (outgoing_filter ev token (address_topic a)) (Suc from_b) to_b max_range cap)
      (\<lambda>(out, _). out = select_logs (\<lambda>t. tt_from t \<in> set [a] \<and> in_window (Suc from_b) to_b t) logs ts)"
    and inc: "yields (query_logs rpc (incoming_filter ev token (address_topic a)) (Suc from_b) to_b max_range cap)
      (\<lambda>(inc, _). inc = select_logs (\<lambda>t. tt_to t \<in> set [a] \<and> in_window (Suc from_b) to_b t) logs ts)"
    unfolding serves_transfers_def using topic le(2) assms(3) by blast+
  let ?w = "filter (in_window (Suc from_b) to_b) ts"
  have filt: "filter (\<lambda>t. P t \<and> in_window (Suc from_b) to_b t) ts = filter P ?w" for P
    by (simp add: conj_commute)
  have deltas: "transfer_deltas ev (select_logs (\<lambda>t. tt_from t \<in> set [a] \<and> in_window (Suc from_b) to_b t) logs ts)
      (select_logs (\<lambda>t. tt_to t \<in> set [a] \<and> in_window (Suc from_b) to_b t) logs ts) = Ok (ledger a ?w)"
    by (rule transfer_deltas_ledger [OF ordered_transfers_filter [OF ord]])
      (simp_all only: select_decode [OF dec] filt, simp_all)
  have bal: "yields (balance_of_at rpc abi token a b) ((=) (account_balance a ts b))" if "b \<le> head" for b
    using assms(2) that by (simp add: serves_balances_def)
  have led: "ledger_transfers (ledger a ?w) = window_ledger a ts from_b to_b"
    using window_ledger_eq [of a from_b to_b ts] by (simp add: account_ledger_def)
  have "covered (account_balance a ts from_b) (window_ledger a ts from_b to_b)"
    using window_facts(2) [OF ord] assms(2) by (simp add: serves_balances_def)
  moreover have "\<forall>e \<in> set (ledger a ?w). from_b \<le> fst (fst e) \<and> fst (fst e) \<le> to_b"
    by (auto simp: ledger_def in_window_def tt_position_def)
  moreover have "(\<Sum>b\<in>{from_b..<to_b}. history_of (account_balance a ts from_b) (window_ledger a ts from_b to_b) b)
      = (\<Sum>b\<in>{from_b..<to_b}. account_balance a ts b)"
    by (intro sum.cong refl window_facts(1) [OF ord, symmetric]) auto
  ultimately have "integrate_deltas token (account_balance a ts from_b) from_b to_b (ledger a ?w)
      = Ok (\<Sum>b\<in>{from_b..<to_b}. account_balance a ts b, account_balance a ts to_b)"
    using integrate_deltas_exact [OF ledger_wf [OF ordered_transfers_filter [OF ord]], of a "in_window (Suc from_b) to_b"
        from_b to_b "account_balance a ts from_b" token] le(1) window_facts(3) [OF ord le(1), of a]
    by (simp add: led)
  with False deltas show ?thesis
    by (auto simp: token_block_integral_def intro!: yields_bindA [OF bal [OF order.trans [OF le(1) assms(3)]]] yields_bindA [OF bal [OF assms(3)]]
        yields_bindA [OF out] yields_bindA [OF inc])
qed

section \<open>Earned scores\<close>

lemma score_segments_yield:
  assumes "serves_transfers rpc ev (st_token scored) max_range cap head logs ts"
    "serves_balances rpc abi (st_token scored) head ts {a}" "t \<le> head"
    "st_rates scored = pre @ rest"
  shows "yields (foldA (score_segment_step rpc abi ev scored a t max_range cap) acc (enumerate (length pre) rest))
    (\<lambda>(v, _). v = fst acc + score_spec (account_balance a ts) 0 (st_decimals scored) t rest)"
  using assms(4)
proof (induction rest arbitrary: pre acc)
  case Nil
  then show ?case by (cases acc) simp
next
  case (Cons p rest)
  let ?bal = "account_balance a ts"
  let ?e = "segment_to (st_rates scored) (length pre) t"
  have e: "?e = seg_end rest t"
    by (cases rest) (simp_all add: segment_to_def Cons.prems seg_end_def next_from_def nth_append)
  have seg: "yields (score_segment_step rpc abi ev scored a t max_range cap acc (length pre, p))
    (\<lambda>(v, _). v = fst acc + scaled_integral (seg_integral ?bal 0 p (seg_end rest t)) (st_decimals scored) * rate p)"
  proof (cases "rate p = 0 \<or> from_block p \<ge> ?e")
    case True
    then show ?thesis using e by (cases acc) (auto simp: score_segment_step_def)
  next
    case False
    have "seg_end rest t \<le> head" using seg_end_le [of rest t] assms(3) by simp
    note int = token_block_integral_yields [OF assms(1,2) this, of "from_block p"]
    show ?thesis using False e
      by (cases acc) (auto simp: score_segment_step_def seg_integral_def intro!: yields_bindA [OF int])
  qed
  have later: "yields (foldA (score_segment_step rpc abi ev scored a t max_range cap) acc' (enumerate (Suc (length pre)) rest))
      (\<lambda>(v, _). v = fst acc' + score_spec ?bal 0 (st_decimals scored) t rest)" for acc'
    using Cons.IH [of "pre @ [p]" acc'] Cons.prems by simp
  show ?case unfolding enumerate_simps foldA.simps
  proof (rule yields_bindA [OF seg])
    fix x :: "nat \<times> log_metrics"
    assume "case x of (v, _) \<Rightarrow>
      v = fst acc + scaled_integral (seg_integral ?bal 0 p (seg_end rest t)) (st_decimals scored) * rate p"
    then show "yields (foldA (score_segment_step rpc abi ev scored a t max_range cap) x (enumerate (Suc (length pre)) rest))
      (\<lambda>(v, _). v = fst acc + score_spec ?bal 0 (st_decimals scored) t (p # rest))"
      using later [of x] by (cases x) (simp add: add.assoc)
  qed
qed

lemma earned_score_yields:
  assumes "\<forall>s \<in> set scored. \<exists>logs. serves_transfers rpc ev (st_token s) max_range cap head logs (T (st_token s))"
    "\<forall>s \<in> set scored. serves_balances rpc abi (st_token s) head (T (st_token s)) {a}" "t \<le> head"
  shows "yields (earned_score_of rpc abi ev scored a t max_range cap)
    (\<lambda>(v, _). v = (\<Sum>s\<leftarrow>scored. score_spec (account_balance a (T (st_token s))) 0 (st_decimals s) t (st_rates s)) div ONE_1E18)"
proof -
  have "yields (foldA (score_token_step rpc abi ev a t max_range cap) (0, default_log_metrics) scored)
    (\<lambda>s'. fst s' = (\<Sum>s\<leftarrow>scored. score_spec (account_balance a (T (st_token s))) 0 (st_decimals s) t (st_rates s)))"
  proof (rule yields_foldA)
    fix acc :: "nat \<times> log_metrics" and ys x zs
    assume "scored = ys @ x # zs"
      and inv: "fst acc = (\<Sum>s\<leftarrow>ys. score_spec (account_balance a (T (st_token s))) 0 (st_decimals s) t (st_rates s))"
    then have "x \<in> set scored" by simp
    with assms obtain logs where "serves_transfers rpc ev (st_token x) max_range cap head logs (T (st_token x))"
      "serves_balances rpc abi (st_token x) head (T (st_token x)) {a}" by blast
    from score_segments_yield [OF this assms(3), of "[]" "st_rates x" acc] inv
    show "yields (score_token_step rpc abi ev a t max_range cap acc x)
      (\<lambda>s'. fst s' = (\<Sum>s\<leftarrow>ys @ [x]. score_spec (account_balance a (T (st_token s))) 0 (st_decimals s) t (st_rates s)))"
      by (auto simp: score_token_step_def elim!: yields_mono)
  qed simp
  then show ?thesis unfolding earned_score_of_def by (auto intro!: yields_bindA)
qed

section \<open>Transfers of a set of accounts\<close>

lemma decode_transfer_position: "decode_transfer ev log = Ok t \<Longrightarrow> tt_position t = log_position log"
  by (auto simp: decode_transfer_def tt_position_def log_position_def)

lemma decoded_positions: "mapR (decode_transfer ev) logs = Ok ts \<Longrightarrow> map tt_position ts = map log_position logs"
  by (induction logs arbitrary: ts) (auto simp: decode_transfer_position)

definition indexed_logs :: "rpc_log list \<Rightarrow> (u64 \<times> u64, rpc_log) btree_map" where
  "indexed_logs logs = map (\<lambda>l. (log_position l, l)) logs"

lemma om_wf_mem: "om_wf m \<Longrightarrow> (p, x) \<in> set m \<longleftrightarrow> map_of m p = Some x"
  by (simp add: om_wf_distinct)

lemma unique_fold:
  assumes "om_wf m" "\<forall>(p, l) \<in> set m. l \<in> L \<and> p = log_position l" "set new \<subseteq> L" "inj_on log_position L"
  shows "\<exists>m'. foldR unique_step m new = Ok m' \<and> om_wf m' \<and> (\<forall>(p, l) \<in> set m'. l \<in> L \<and> p = log_position l)
    \<and> snd ` set m' = snd ` set m \<union> set new"
  using assms(1-3)
proof (induction new arbitrary: m)
  case (Cons l new)
  let ?m = "om_insert (log_position l) l m"
  have same: "previous = l" if "map_of m (log_position l) = Some previous" for previous
  proof -
    have "(log_position l, previous) \<in> set m" using that by (rule map_of_SomeD)
    with Cons.prems(2) have "previous \<in> L" "log_position l = log_position previous" by auto
    with assms(4) Cons.prems(3) show ?thesis by (auto dest: inj_onD)
  qed
  have step: "unique_step m l = Ok ?m" using same by (auto simp: unique_step_def Let_def split: option.splits)
  have wf: "om_wf ?m" by (rule om_wf_insert [OF Cons.prems(1)])
  have entries: "(p, x) \<in> set ?m \<longleftrightarrow> (p, x) = (log_position l, l) \<or> p \<noteq> log_position l \<and> (p, x) \<in> set m" for p x
    unfolding om_wf_mem [OF wf] om_wf_mem [OF Cons.prems(1)] om_get_insert [OF Cons.prems(1)] by auto
  have inv: "\<forall>(p, l) \<in> set ?m. l \<in> L \<and> p = log_position l" using Cons.prems(2,3) entries by auto
  moreover have "snd ` set ?m = insert l (snd ` set m)"
  proof -
    have old: "x \<in> snd ` set m \<longleftrightarrow> (log_position x, x) \<in> set m" for x using Cons.prems(2) by force
    have new: "x \<in> snd ` set ?m \<longleftrightarrow> (log_position x, x) \<in> set ?m" for x
      using inv by force
    have kept: "(log_position l, x) \<in> set m \<Longrightarrow> x = l" for x
      using same by (simp add: om_wf_mem [OF Cons.prems(1)])
    have "x \<in> snd ` set ?m \<longleftrightarrow> x = l \<or> x \<in> snd ` set m" for x
      unfolding old new entries using kept [of x] by auto
    then show ?thesis by blast
  qed
  ultimately obtain m' where "foldR unique_step ?m new = Ok m'" "om_wf m'"
    "\<forall>(p, l) \<in> set m'. l \<in> L \<and> p = log_position l" "snd ` set m' = insert l (snd ` set m) \<union> set new"
    using Cons.IH [OF wf] Cons.prems(3) by auto
  with step show ?case by auto
qed auto

lemma indexed_logs_eq:
  assumes "om_wf m" "\<forall>(p, l) \<in> set m. l \<in> set logs \<and> p = log_position l" "sorted_wrt (<) (map log_position logs)"
    "snd ` set m = {l \<in> set logs. P l}"
  shows "m = indexed_logs (filter P logs)"
proof -
  have wf: "om_wf (indexed_logs (filter P logs))"
    using sorted_wrt_map_filter [OF assms(3)] by (simp add: om_wf_def indexed_logs_def comp_def)
  have "set m = set (indexed_logs (filter P logs))"
    using assms(2,4) by (force simp: indexed_logs_def image_iff set_eq_iff)
  then have "map_of m k = Some x \<longleftrightarrow> map_of (indexed_logs (filter P logs)) k = Some x" for k x
    by (simp flip: om_wf_mem [OF assms(1)] om_wf_mem [OF wf])
  then have "map_of m k = map_of (indexed_logs (filter P logs)) k" for k by (metis not_Some_eq)
  then show ?thesis by (rule om_extensional [OF assms(1) wf])
qed

definition decodes_to :: "events \<Rightarrow> (token_transfer \<Rightarrow> bool) \<Rightarrow> rpc_log \<Rightarrow> bool" where
  "decodes_to ev P l \<longleftrightarrow> (case decode_transfer ev l of Inr t \<Rightarrow> P t | Inl _ \<Rightarrow> False)"

lemma select_logs_filter:
  "mapR (decode_transfer ev) logs = Ok ts \<Longrightarrow> select_logs P logs ts = filter (decodes_to ev P) logs"
  unfolding select_logs_def by (induction logs arbitrary: ts) (auto simp: decodes_to_def)

lemma decodes_to_disj: "decodes_to ev P l \<or> decodes_to ev Q l \<longleftrightarrow> decodes_to ev (\<lambda>t. P t \<or> Q t) l"
  by (auto simp: decodes_to_def split: sum.splits)

lemma chunks_map: "chunks n (map f xs) = map (map f) (chunks n xs)"
proof (induction n xs rule: chunks.induct)
  case (1 n xs)
  then show ?case by (cases "xs = [] \<or> n = 0") (simp_all add: chunks.simps take_map drop_map)
qed

lemma chunks_member: "c \<in> set (chunks n xs) \<Longrightarrow> c \<noteq> [] \<and> length c \<le> n \<and> set c \<subseteq> set xs"
proof (induction n xs rule: chunks.induct)
  case (1 n xs)
  show ?case
  proof (cases "xs = [] \<or> n = 0")
    case True
    with "1.prems" show ?thesis by (simp add: chunks.simps)
  next
    case False
    then have "chunks n xs = take n xs # chunks n (drop n xs)" by (subst chunks.simps) simp
    with "1.prems" consider "c = take n xs" | "c \<in> set (chunks n (drop n xs))" by auto
    then show ?thesis
    proof cases
      case 2
      with 1 False set_drop_subset [of n xs] show ?thesis by blast
    qed (use False set_take_subset [of n xs] in auto)
  qed
qed

text \<open>The transfers that touch one of the accounts in a window of blocks.\<close>

definition touches :: "address set \<Rightarrow> u64 \<Rightarrow> u64 \<Rightarrow> token_transfer \<Rightarrow> bool" where
  "touches A x y t \<longleftrightarrow> (tt_from t \<in> A \<or> tt_to t \<in> A) \<and> in_window x y t"

definition unique_inv ::
  "events \<Rightarrow> rpc_log list \<Rightarrow> u64 \<Rightarrow> u64 \<Rightarrow> (u64 \<times> u64, rpc_log) btree_map \<times> log_metrics \<Rightarrow> address list list \<Rightarrow> bool" where
  "unique_inv ev logs x y acc done \<longleftrightarrow> om_wf (fst acc)
     \<and> (\<forall>(p, l) \<in> set (fst acc). l \<in> set logs \<and> p = log_position l)
     \<and> snd ` set (fst acc) = {l \<in> set logs. decodes_to ev (touches (set (concat done)) x y) l}"

lemma transfer_batch_yields:
  assumes "serves_transfers rpc ev token max_range cap head logs ts" "x \<le> y" "y \<le> head"
    "as \<noteq> []" "length as \<le> 64" "list_all wf_address as" "unique_inv ev logs x y acc done"
  shows "yields (transfer_batch_step rpc ev token x y max_range cap acc (map address_topic as))
    (\<lambda>acc'. unique_inv ev logs x y acc' (done @ [as]))"
proof -
  let ?topic = "JArr (map address_topic as)"
  let ?out = "filter (decodes_to ev (\<lambda>t. tt_from t \<in> set as \<and> in_window x y t)) logs"
  let ?inc = "filter (decodes_to ev (\<lambda>t. tt_to t \<in> set as \<and> in_window x y t)) logs"
  have topic: "topic_for as ?topic" using assms(4-6) by (simp add: topic_for_def)
  from assms(1) have ord: "ordered_transfers ts" and dec: "mapR (decode_transfer ev) logs = Ok ts"
    by (auto simp: serves_transfers_def)
  from assms(1-3) topic
  have out: "yields (query_logs rpc (outgoing_filter ev token ?topic) x y max_range cap) (\<lambda>(out, _). out = ?out)"
    and inc: "yields (query_logs rpc (incoming_filter ev token ?topic) x y max_range cap) (\<lambda>(inc, _). inc = ?inc)"
    unfolding serves_transfers_def select_logs_filter [OF dec] by blast+
  have inj: "inj_on log_position (set logs)"
    using ordered_transfers_distinct [OF ord] decoded_positions [OF dec] by (simp add: distinct_map)
  note inv = assms(7) [unfolded unique_inv_def]
  obtain m1 where m1: "foldR unique_step (fst acc) ?out = Ok m1" "om_wf m1"
    "\<forall>(p, l) \<in> set m1. l \<in> set logs \<and> p = log_position l" "snd ` set m1 = snd ` set (fst acc) \<union> set ?out"
    using unique_fold [of "fst acc" "set logs" ?out] inv inj by auto
  obtain m2 where m2: "foldR unique_step m1 ?inc = Ok m2" "om_wf m2"
    "\<forall>(p, l) \<in> set m2. l \<in> set logs \<and> p = log_position l" "snd ` set m2 = snd ` set m1 \<union> set ?inc"
    using unique_fold [of m1 "set logs" ?inc] m1 inj by auto
  have "snd ` set m2 = {l \<in> set logs. decodes_to ev (touches (set (concat (done @ [as]))) x y) l}"
    unfolding m2(4) m1(4) using inv by (auto simp: decodes_to_def touches_def split: sum.splits)
  with m2 have "unique_inv ev logs x y (m2, metrics) (done @ [as])" for metrics
    by (simp add: unique_inv_def)
  with m1(1) m2(1) show ?thesis
    by (cases acc) (auto simp: transfer_batch_step_def Let_def intro!: yields_bindA [OF out] yields_bindA [OF inc])
qed

lemma erc20_transfers_yields:
  assumes "serves_transfers rpc ev token max_range cap head logs ts" "x \<le> y" "y \<le> head" "list_all wf_address accounts"
  shows "yields (erc20_transfers_for_accounts rpc ev token accounts x y max_range cap)
    (\<lambda>(r, _). r = filter (touches (set accounts) x y) ts)"
proof (cases "accounts = []")
  case True
  then show ?thesis using assms(2) by (simp add: erc20_transfers_for_accounts_def touches_def)
next
  case False
  let ?bs = "chunks 64 accounts"
  from assms(1) have ord: "ordered_transfers ts" and dec: "mapR (decode_transfer ev) logs = Ok ts"
    by (auto simp: serves_transfers_def)
  have all: "concat ?bs = accounts" by (simp add: concat_chunks)
  have run: "yields (foldA (transfer_batch_step rpc ev token x y max_range cap) ([], default_log_metrics)
      (map (map address_topic) ?bs)) (\<lambda>s'. unique_inv ev logs x y s' ?bs)"
  proof -
    have "yields (foldA (\<lambda>acc as. transfer_batch_step rpc ev token x y max_range cap acc (map address_topic as))
        ([], default_log_metrics) ?bs) (\<lambda>s'. unique_inv ev logs x y s' ?bs)"
    proof (rule yields_foldA)
      show "unique_inv ev logs x y ([], default_log_metrics) []"
        by (auto simp: unique_inv_def touches_def decodes_to_def split: sum.splits)
    next
      fix s ys as zs
      assume split: "?bs = ys @ as # zs" and inv: "unique_inv ev logs x y s ys"
      then have "as \<in> set ?bs" by simp
      from chunks_member [OF this] assms(4) have "as \<noteq> []" "length as \<le> 64" "list_all wf_address as"
        by (auto simp: list_all_iff)
      from transfer_batch_yields [OF assms(1-3) this inv]
      show "yields (transfer_batch_step rpc ev token x y max_range cap s (map address_topic as))
        (\<lambda>s'. unique_inv ev logs x y s' (ys @ [as]))" .
    qed
    moreover have "foldA (\<lambda>acc as. transfer_batch_step rpc ev token x y max_range cap acc (map address_topic as)) s bs
      = foldA (transfer_batch_step rpc ev token x y max_range cap) s (map (map address_topic) bs)" for s bs
      by (induction bs arbitrary: s) auto
    ultimately show ?thesis by simp
  qed
  have decoded: "mapR (\<lambda>(_, log). decode_transfer ev log) (fst acc) = Ok (filter (touches (set accounts) x y) ts)"
    if "unique_inv ev logs x y acc ?bs" for acc
  proof -
    have "sorted_wrt (<) (map log_position logs)"
      using ord decoded_positions [OF dec] by (simp add: ordered_transfers_def)
    with that all have "fst acc = indexed_logs (filter (decodes_to ev (touches (set accounts) x y)) logs)"
      by (intro indexed_logs_eq) (auto simp: unique_inv_def)
    moreover have "mapR (\<lambda>(_, log). decode_transfer ev log) (indexed_logs ls) = mapR (decode_transfer ev) ls" for ls
      by (induction ls) (simp_all add: indexed_logs_def)
    ultimately show ?thesis using select_decode [OF dec] by (simp add: select_logs_filter [OF dec])
  qed
  have guard: "(y < x \<or> accounts = []) = False" using False assms(2) by simp
  show ?thesis unfolding erc20_transfers_for_accounts_def guard if_False chunks_map
  proof (rule yields_bindA [OF run], goal_cases)
    case (1 acc)
    then show ?case using decoded [of acc] by (cases acc) simp
  qed
qed

text \<open>The provider's unfiltered query returns all transfer logs of the token.\<close>

definition serves_all_transfers ::
  "('w, 'z) rpc_scheme \<Rightarrow> events \<Rightarrow> address \<Rightarrow> u64 \<Rightarrow> nat \<Rightarrow> u64 \<Rightarrow> rpc_log list \<Rightarrow> token_transfer list \<Rightarrow> bool" where
  "serves_all_transfers rpc ev token max_range cap head logs ts \<longleftrightarrow>
     ordered_transfers ts \<and> mapR (decode_transfer ev) logs = Ok ts
     \<and> (\<forall>x y. x \<le> y \<longrightarrow> y \<le> head \<longrightarrow>
          yields (query_logs rpc (transfer_filter ev token) x y max_range cap) (\<lambda>(out, _). out = select_logs (in_window x y) logs ts))"

lemma erc20_all_transfers_yields:
  assumes "serves_all_transfers rpc ev token max_range cap head logs ts" "x \<le> y" "y \<le> head"
  shows "yields (erc20_transfers rpc ev token x y max_range cap) (\<lambda>(r, _). r = filter (in_window x y) ts)"
proof -
  from assms(1) have ord: "ordered_transfers ts" and dec: "mapR (decode_transfer ev) logs = Ok ts"
    and served: "yields (query_logs rpc (transfer_filter ev token) x y max_range cap) (\<lambda>(out, _). out = select_logs (in_window x y) logs ts)"
    using assms(2,3) by (auto simp: serves_all_transfers_def)
  have "sorted (map tt_position (filter (in_window x y) ts))"
    using ordered_transfers_filter [OF ord] by (simp add: ordered_transfers_def strict_sorted_imp_sorted)
  then have "sort_key tt_position (filter (in_window x y) ts) = filter (in_window x y) ts" by (rule sort_key_id_if_sorted)
  then show ?thesis
    using assms(2) select_decode [OF dec, of "in_window x y"]
    by (auto simp: erc20_transfers_def intro!: yields_bindA [OF served])
qed

section \<open>Minimum balances\<close>

lemma om_insert_last: "\<forall>k' \<in> fst ` set m. k' < k \<Longrightarrow> om_insert k v m = m @ [(k, v)]"
  by (induction m) auto

lemma ledger_append: "ledger a (ts @ us) = ledger a ts @ ledger a us"
  by (simp add: ledger_def)

definition deltas_for :: "(address, deltas) btree_map \<Rightarrow> address \<Rightarrow> deltas" where
  "deltas_for m a = (case map_of m a of Some ds \<Rightarrow> ds | None \<Rightarrow> [])"

lemma account_delta_get:
  "om_wf m \<Longrightarrow> deltas_for (account_delta b pos v is_inflow m) a
     = (if a = b then om_update default_delta pos (bump_delta v is_inflow) (deltas_for m a) else deltas_for m a)"
  by (auto simp: account_delta_def deltas_for_def om_update_get)

lemma account_delta_wf: "om_wf m \<Longrightarrow> om_wf (account_delta b pos v is_inflow m)"
  by (simp add: account_delta_def om_update_wf)

definition bump_if :: "bool \<Rightarrow> token_transfer \<Rightarrow> bool \<Rightarrow> deltas \<Rightarrow> deltas" where
  "bump_if c t is_inflow ds =
     (if c then om_update default_delta (tt_position t) (bump_delta (tt_value t) is_inflow) ds else ds)"

lemma ledger_snoc:
  assumes "ordered_transfers (ts @ [t])"
  shows "bump_if (tt_to t = a) t True (bump_if (tt_from t = a) t False (ledger a ts)) = ledger a (ts @ [t])"
proof (rule om_extensional)
  have wf: "om_wf (ledger a ts)"
    by (rule ledger_wf) (use assms(1) in \<open>simp add: ordered_transfers_def sorted_wrt_append\<close>)
  then show "om_wf (bump_if (tt_to t = a) t True (bump_if (tt_from t = a) t False (ledger a ts)))" by (simp add: bump_if_def om_update_wf)
  show "om_wf (ledger a (ts @ [t]))" by (rule ledger_wf [OF assms(1)])
  have new: "map_of (ledger a ts) (tt_position t) = None"
    using assms(1) by (auto simp: map_of_eq_None_iff ledger_def ordered_transfers_def sorted_wrt_append)
  show "map_of (bump_if (tt_to t = a) t True (bump_if (tt_from t = a) t False (ledger a ts))) k = map_of (ledger a (ts @ [t])) k" for k
    unfolding ledger_append map_of_append map_add_def
    by (auto simp: bump_if_def om_update_get om_update_wf wf new ledger_def [of a "[t]"] bump_delta_def
        default_delta_def split: option.splits)
qed

lemma collect_transfers:
  assumes "ordered_transfers ts"
  shows "om_wf (foldl (collect_transfer accounts) [] ts)
    \<and> (\<forall>a \<in> set accounts. deltas_for (foldl (collect_transfer accounts) [] ts) a = ledger a ts)"
  using assms
proof (induction ts rule: rev_induct)
  case Nil
  then show ?case by (simp add: deltas_for_def ledger_def)
next
  case (snoc t ts)
  let ?m = "foldl (collect_transfer accounts) [] ts"
  have ord: "ordered_transfers ts" using snoc.prems by (simp add: ordered_transfers_def sorted_wrt_append)
  with snoc.IH have wf: "om_wf ?m" and get: "\<forall>a \<in> set accounts. deltas_for ?m a = ledger a ts" by auto
  have "deltas_for (collect_transfer accounts ?m t) a = ledger a (ts @ [t])" if "a \<in> set accounts" for a
    using get that wf ledger_snoc [OF snoc.prems, of a]
    by (auto simp: collect_transfer_def Let_def account_delta_get account_delta_wf bump_if_def split: if_splits)
  moreover have "om_wf (collect_transfer accounts ?m t)"
    using wf by (simp add: collect_transfer_def Let_def account_delta_wf)
  ultimately show ?case by simp
qed

definition minimum_balance :: "address \<Rightarrow> token_transfer list \<Rightarrow> u64 \<Rightarrow> u64 \<Rightarrow> biguint" where
  "minimum_balance a ts from_b to_b = Min (set (running (account_balance a ts from_b) (window_ledger a ts from_b to_b)))"

lemma starting_balances_yields:
  assumes "serves_balances rpc abi token head ts (set accounts)" "from_b \<le> head" "sorted_wrt (<) accounts"
  shows "yields (starting_balances rpc abi token accounts from_b) ((=) (map (\<lambda>a. (a, account_balance a ts from_b)) accounts))"
proof -
  have "yields (starting_balances rpc abi token accounts from_b) (\<lambda>m. m = map (\<lambda>a. (a, account_balance a ts from_b)) accounts)"
    unfolding starting_balances_def
  proof (rule yields_foldA)
    fix m ys a zs
    assume split: "accounts = ys @ a # zs" and m: "m = map (\<lambda>a. (a, account_balance a ts from_b)) ys"
    have bal: "yields (balance_of_at rpc abi token a from_b) ((=) (account_balance a ts from_b))"
      using assms(1,2) split by (simp add: serves_balances_def)
    have "\<forall>k' \<in> fst ` set m. k' < a" using assms(3) split m by (auto simp: sorted_wrt_append)
    from om_insert_last [OF this] m
    show "yields (bindA (balance_of_at rpc abi token a from_b) (\<lambda>b. retA (om_insert a b m)))
      (\<lambda>s'. s' = map (\<lambda>a. (a, account_balance a ts from_b)) (ys @ [a]))"
      by (auto intro!: yields_bindA [OF bal])
  qed simp
  then show ?thesis by (auto elim: yields_mono)
qed

lemma minimum_step_yields:
  assumes "serves_balances rpc abi token head ts (set accounts)" "from_b \<le> to_b" "to_b \<le> head" "ordered_transfers ts"
    "a \<in> set accounts" "deltas_for m a = ledger a (filter (in_window (Suc from_b) to_b) ts)"
    "\<forall>k' \<in> fst ` set mins. k' < a"
  shows "yields (minimum_step rpc abi token to_b m mins (a, account_balance a ts from_b))
    ((=) (mins @ [(a, minimum_balance a ts from_b to_b)]))"
proof -
  have led: "ledger_transfers (deltas_for m a) = window_ledger a ts from_b to_b"
    using window_ledger_eq [of a from_b to_b ts] assms(6) by (simp add: account_ledger_def)
  have "covered (account_balance a ts from_b) (window_ledger a ts from_b to_b)"
    using window_facts(2) [OF assms(4)] assms(1,5) by (simp add: serves_balances_def)
  then have "apply_deltas token (account_balance a ts from_b) (deltas_for m a)
      = Ok (minimum_balance a ts from_b to_b, account_balance a ts to_b)"
    using apply_deltas_exact [of "account_balance a ts from_b" "deltas_for m a" token] window_facts(3) [OF assms(4,2), of a]
    by (simp add: led minimum_balance_def)
  moreover have bal: "yields (balance_of_at rpc abi token a to_b) ((=) (account_balance a ts to_b))"
    using assms(1,3,5) by (simp add: serves_balances_def)
  ultimately show ?thesis using om_insert_last [OF assms(7)]
    by (auto simp: minimum_step_def Let_def deltas_for_def [symmetric] intro!: yields_bindA [OF bal])
qed

lemma min_balances_yields:
  assumes "serves_transfers rpc ev token max_range cap head logs ts"
    "serves_balances rpc abi token head ts (set accounts)" "sorted_wrt (<) accounts" "from_b \<le> head" "to_b \<le> head"
  shows "yields (min_balances_over rpc abi ev token accounts from_b to_b max_range cap)
    (\<lambda>(m, _). m = map (\<lambda>a. (a, minimum_balance a ts from_b to_b)) accounts)"
proof (cases "to_b \<le> from_b")
  case True
  have "window_ledger a ts from_b to_b = []" for a
    using True by (auto simp: window_ledger_def filter_empty_conv)
  then have "minimum_balance a ts from_b to_b = account_balance a ts from_b" for a
    by (simp add: minimum_balance_def)
  with True show ?thesis
    by (auto simp: min_balances_over_def intro!: yields_bindA [OF starting_balances_yields [OF assms(2,4,3)]])
next
  case False
  from assms(1) have ord: "ordered_transfers ts" by (simp add: serves_transfers_def)
  let ?tr = "filter (touches (set accounts) (Suc from_b) to_b) ts"
  let ?m = "foldl (collect_transfer accounts) [] ?tr"
  have trans: "yields (erc20_transfers_for_accounts rpc ev token accounts (Suc from_b) to_b max_range cap) (\<lambda>(r, _). r = ?tr)"
    by (rule erc20_transfers_yields [OF assms(1)]) (use False assms(2,5) in \<open>auto simp: serves_balances_def list_all_iff\<close>)
  have "ledger a ?tr = ledger a (filter (in_window (Suc from_b) to_b) ts)" if "a \<in> set accounts" for a
    unfolding ledger_def filter_filter
    by (rule arg_cong [where f = "map _"], rule filter_cong) (use that in \<open>auto simp: touches_def\<close>)
  with collect_transfers [OF ordered_transfers_filter [OF ord]]
  have get: "deltas_for ?m a = ledger a (filter (in_window (Suc from_b) to_b) ts)" if "a \<in> set accounts" for a
    using that by simp
  have "yields (foldA (minimum_step rpc abi token to_b ?m) [] (map (\<lambda>a. (a, account_balance a ts from_b)) accounts))
      (\<lambda>s'. s' = map (\<lambda>(a, _). (a, minimum_balance a ts from_b to_b)) (map (\<lambda>a. (a, account_balance a ts from_b)) accounts))"
  proof (rule yields_foldA)
    fix mins ys e zs
    assume split: "map (\<lambda>a. (a, account_balance a ts from_b)) accounts = ys @ e # zs"
      and inv: "mins = map (\<lambda>(a, _). (a, minimum_balance a ts from_b to_b)) ys"
    obtain ys' a zs' where acc: "accounts = ys' @ a # zs'" and ys: "ys = map (\<lambda>a. (a, account_balance a ts from_b)) ys'"
      and e: "e = (a, account_balance a ts from_b)"
      using split by (auto simp: map_eq_append_conv map_eq_Cons_conv)
    have "\<forall>k' \<in> fst ` set mins. k' < a" using assms(3) by (auto simp: acc inv ys sorted_wrt_append)
    from minimum_step_yields [OF assms(2) _ assms(5) ord _ get this] False acc inv
    show "yields (minimum_step rpc abi token to_b ?m mins e)
      (\<lambda>s'. s' = map (\<lambda>(a, _). (a, minimum_balance a ts from_b to_b)) (ys @ [e]))"
      by (auto simp: e elim: yields_mono)
  qed simp
  then have run: "yields (foldA (minimum_step rpc abi token to_b ?m) [] (map (\<lambda>a. (a, account_balance a ts from_b)) accounts))
      (\<lambda>s'. s' = map (\<lambda>a. (a, minimum_balance a ts from_b to_b)) accounts)"
    by (simp add: comp_def)
  have guard: "(to_b \<le> from_b) = False" using False by simp
  show ?thesis unfolding min_balances_over_def
    by (auto simp: guard intro!: yields_bindA [OF starting_balances_yields [OF assms(2,4,3)]] yields_bindA [OF trans]
        yields_bindA [OF run])
qed

section \<open>Time-weighted ratio\<close>

definition sample_count :: "u64 \<Rightarrow> u64 \<Rightarrow> u64 \<Rightarrow> nat" where
  "sample_count reference_block step blk = (if blk \<le> reference_block then (reference_block - blk) div step + 1 else 0)"

lemma sample_count_step:
  assumes "0 < step" "blk \<le> r"
  shows "sample_count r step blk = Suc (sample_count r step (blk + step))"
proof (cases "blk + step \<le> r")
  case True
  then have "(r - blk) div step = Suc ((r - (blk + step)) div step)"
    using assms(1) le_div_geq [of step "r - blk"] by (simp add: diff_diff_left)
  with True assms(2) show ?thesis by (simp add: sample_count_def)
qed (use assms in \<open>simp add: sample_count_def\<close>)

lemma twap_loop_yields:
  assumes "0 < step" "r \<le> u64_max" "\<And>b. b \<le> r \<Longrightarrow> yields (ratio_at rpc c d b) ((=) (R b))"
    "samples + (Suc r - blk) \<le> u64_max"
  shows "yields (twap_loop rpc c d r step acc samples blk)
    ((=) (acc + (\<Sum>k\<in>{..<sample_count r step blk}. R (blk + k * step)), samples + sample_count r step blk))"
  using assms(4)
proof (induction "Suc r - blk" arbitrary: acc samples blk rule: less_induct)
  case less
  show ?case
  proof (cases "blk \<le> r")
    case False
    then show ?thesis by (subst twap_loop.simps) (simp add: sample_count_def)
  next
    case True
    let ?n = "sample_count r step (blk + step)"
    have n: "sample_count r step blk = Suc ?n" by (rule sample_count_step [OF assms(1) True])
    have sum: "(\<Sum>k\<in>{..<Suc ?n}. R (blk + k * step)) = R blk + (\<Sum>k\<in>{..<?n}. R (blk + step + k * step))"
      by (subst sum.lessThan_Suc_shift) (simp add: algebra_simps)
    have samples: "checked_add64 samples (Suc 0) = Some (Suc samples)" using less.prems True by (simp add: checked_add64_def)
    have rest: "yields (case checked_add64 blk step of None \<Rightarrow> retA (acc + R blk, Suc samples)
        | Some next_blk \<Rightarrow> twap_loop rpc c d r step (acc + R blk) (Suc samples) next_blk)
      ((=) (acc + R blk + (\<Sum>k\<in>{..<?n}. R (blk + step + k * step)), Suc samples + ?n))"
    proof (cases "checked_add64 blk step")
      case None
      then have "?n = 0" using assms(2) by (auto simp: checked_add64_def sample_count_def split: if_splits)
      with None show ?thesis by simp
    next
      case (Some b)
      then have b: "b = blk + step" by (simp add: checked_add64_def split: if_splits)
      have "Suc r - b < Suc r - blk" "Suc samples + (Suc r - b) \<le> u64_max" using less.prems True assms(1) b by auto
      from less.hyps [OF this, of "acc + R blk"] show ?thesis unfolding Some option.case b .
    qed
    show ?thesis unfolding n sum
      by (subst twap_loop.simps)
        (use True assms(1) rest in \<open>auto simp: samples add.assoc intro!: yields_bindA [OF assms(3) [OF True]]\<close>)
  qed
qed

end
