(* ===== verification/Ledger_Node.thy ===== *)
theory Ledger_Node
  imports History_Spec
begin

text \<open>
  A reference node: a provider that answers log and balance queries from a stored list of transfers.
  It shows that the provider contracts of the history theorems can be met by every ledger, through the
  complete path from \<^verbatim>\<open>eth_getLogs\<close> answers over strict parsing, chunking and event decoding; the witnesses
  of those theorems run against it.
\<close>

section \<open>Queries against a prompt provider\<close>

text \<open>A provider whose clock and attempt counter stand still and whose answers stay below the result cap.\<close>

definition prompt :: "('w, 'z) rpc_scheme \<Rightarrow> bool" where
  "prompt rpc \<longleftrightarrow> (\<forall>w. rpc_clock_ms rpc w = 0 \<and> transport_attempts (rpc_metrics_of rpc w) = 0)"

lemma length_logs_in: "length (logs_in truth a b) \<le> length truth"
  by (simp add: logs_in_def)

lemma prompt_step:
  assumes "prompt rpc" "fetch_logs rpc f a b w = (Ok logs, w)" "length logs < cap"
  shows "log_step rpc f cap 0 0 left (a, b) st w = (Ok (0, [], add_logs logs (count_requests 1 st)), w)"
  using assms
  by (simp add: log_step_def deadline_left_def prompt_def attempts_used_def timeoutA_def log_decide_def bindA_apply
      MAX_LOG_TRANSPORT_ATTEMPTS_PER_CHUNK_def MAX_LOG_REQUESTS_PER_CHUNK_def MAX_RPC_RETRIES_def)

lemma prompt_chunk:
  assumes "prompt rpc" "fetch_logs rpc f a b w = (Ok logs, w)" "length logs < cap"
  shows "\<exists>m'. log_chunk rpc f cap (out, m) (a, b) w = (Ok (out @ logs, m'), w)"
proof -
  obtain n where n: "MAX_LOG_REQUESTS_PER_CHUNK = Suc n"
    by (metis MAX_LOG_REQUESTS_PER_CHUNK_def numeral_eq_Suc)
  have "log_loop rpc f cap 0 0 (Suc n) [(a, b)] st w = (Ok (add_logs logs (count_requests 1 st)), w)" for st
    by (simp add: bindA_apply prompt_step [OF assms])
  moreover have "rpc_clock_ms rpc w = 0" "transport_attempts (rpc_metrics_of rpc w) = 0"
    using assms(1) by (simp_all add: prompt_def)
  ultimately show ?thesis by (simp add: log_chunk_def n bindA_apply del: log_loop.simps)
qed

lemma prompt_chunks:
  assumes "prompt rpc" "\<forall>(a, b) \<in> set rs. fetch_logs rpc f a b w = (Ok (logs_in truth a b), w)" "length truth < cap"
  shows "\<exists>out' m'. foldA (log_chunk rpc f cap) (out, m) rs w = (Ok (out', m'), w)
    \<and> mset out' = mset out + bounds_logs truth rs"
  using assms(2)
proof (induction rs arbitrary: out m)
  case (Cons r rs)
  obtain a b where r: "r = (a, b)" by (cases r)
  have "length (logs_in truth a b) < cap" using length_logs_in [of truth a b] assms(3) by simp
  with prompt_chunk [OF assms(1)] Cons.prems r obtain m1 where
    "log_chunk rpc f cap (out, m) (a, b) w = (Ok (out @ logs_in truth a b, m1), w)" by fastforce
  with Cons.IH [of "out @ logs_in truth a b" m1] Cons.prems show ?case by (auto simp: r)
qed simp

lemma chunk_ranges_within:
  "b \<le> u64_max \<Longrightarrow> (c, d) \<in> set (chunk_ranges a b k) \<Longrightarrow> a \<le> c \<and> c \<le> d \<and> d \<le> b"
proof (induction a b k rule: chunk_ranges.induct)
  case (1 a b k)
  let ?e = "min (saturating_add64 a (k - 1)) b"
  show ?case
  proof (cases "a \<le> b")
    case True
    with "1.prems"(1) have e: "a \<le> ?e" "?e \<le> b" by (auto simp: saturating_add64_def)
    from "1.prems"(2) True consider "(c, d) = (a, ?e)" | "?e \<noteq> u64_max" "(c, d) \<in> set (chunk_ranges (?e + 1) b k)"
      by (subst (asm) chunk_ranges.simps) (auto simp: Let_def split: if_splits)
    then show ?thesis
    proof cases
      case 2
      from "1.IH" [OF True refl 2(1) "1.prems"(1) 2(2)] e(1) show ?thesis by linarith
    qed (use e in simp)
  next
    case False
    with "1.prems"(2) show ?thesis by (simp add: chunk_ranges.simps)
  qed
qed

lemma logs_in_sorted: "sorted_wrt (<) (map log_position truth) \<Longrightarrow> sorted_wrt (<) (map log_position (logs_in truth a b))"
  unfolding logs_in_def by (rule sorted_wrt_map_filter)

lemma prompt_query:
  assumes "prompt rpc" "canonical_filter f0 = Ok f" "0 < max_range" "max_range \<le> MAX_INITIAL_LOG_RANGE"
    "length truth < cap" "cap \<le> MAX_LOG_RESULT_CAP" "sorted_wrt (<) (map log_position truth)" "x \<le> y" "y \<le> u64_max"
    "\<And>a b. x \<le> a \<Longrightarrow> a \<le> b \<Longrightarrow> b \<le> y \<Longrightarrow> fetch_logs rpc f a b w = (Ok (logs_in truth a b), w)"
  shows "\<exists>m. get_logs_chunked rpc f0 x y max_range cap w = (Ok (logs_in truth x y, m), w)"
proof -
  have "\<forall>(a, b) \<in> set (chunk_ranges x y max_range). fetch_logs rpc f a b w = (Ok (logs_in truth a b), w)"
    using assms(10) chunk_ranges_within [OF assms(9)] by blast
  from prompt_chunks [OF assms(1) this assms(5), of "[]" default_log_metrics] obtain out m where
    run: "foldA (log_chunk rpc f cap) ([], default_log_metrics) (chunk_ranges x y max_range) w = (Ok (out, m), w)"
    and out: "mset out = bounds_logs truth (chunk_ranges x y max_range)" by auto
  have ms: "mset out = mset (logs_in truth x y)"
    using out chunk_ranges_cover [of x y truth max_range] assms(8,9) by simp
  let ?l = "logs_in truth x y"
  have srt: "sorted_wrt (<) (map log_position ?l)" by (rule logs_in_sorted [OF assms(7)])
  then have dist: "distinct (map log_position ?l)" "sorted (map log_position ?l)" by (simp_all add: strict_sorted_iff)
  have "sort_key log_position ?l = sort_key log_position out"
    using sort_key_mset_unique [OF ms [symmetric] dist(1)] .
  moreover have "sort_key log_position ?l = ?l" by (rule sort_key_id_if_sorted [OF dist(2)])
  ultimately have "sort_key log_position out = ?l" by simp
  with assms(1-6,8) run dist(1) check_positions_Ok [of "{}" ?l] show ?thesis
    by (simp add: get_logs_chunked_def bindA_apply Let_def prompt_def not_less)
qed

section \<open>The node\<close>

definition node_sig :: hash where "node_sig = replicate 32 5"
definition node_tx :: hash where "node_tx = replicate 32 1"

definition node_log :: "address \<Rightarrow> token_transfer \<Rightarrow> rpc_log" where
  "node_log token t = \<lparr>log_address = hash_hex (as_slice token),
     log_topics = [hash_hex node_sig, hash_hex (abi_word (tt_from t)), hash_hex (abi_word (tt_to t))],
     log_data = hash_hex (be_bytes 32 (tt_value t)), log_block_number = tt_block_number t,
     log_transaction_hash = hash_hex node_tx, log_log_index = tt_log_index t\<rparr>"

definition node_log_json :: "address \<Rightarrow> token_transfer \<Rightarrow> json" where
  "node_log_json token t = (let l = node_log token t in
     JObj [(''removed'', JBool False), (''address'', JStr (log_address l)), (''topics'', JArr (map JStr (log_topics l))),
       (''data'', JStr (log_data l)), (''blockNumber'', JStr (hex_tag (log_block_number l))),
       (''transactionHash'', JStr (log_transaction_hash l)), (''logIndex'', JStr (hex_tag (log_log_index l)))])"

definition node_transfers :: "address \<Rightarrow> token_transfer list \<Rightarrow> log_filter \<Rightarrow> token_transfer list" where
  "node_transfers token ts f = filter (\<lambda>t. selects f (node_log token t)) ts"

definition node_get_logs :: "address \<Rightarrow> token_transfer list \<Rightarrow> json \<Rightarrow> json option" where
  "node_get_logs token ts obj =
     (case (as_str (json_index obj ''address''), demo_bound ''fromBlock'' (JArr [obj]), demo_bound ''toBlock'' (JArr [obj])) of
        (Some addr, Some a, Some b) \<Rightarrow>
          let f = \<lparr>lf_address = addr, lf_topics = (case as_array (json_index obj ''topics'') of Some tps \<Rightarrow> tps | None \<Rightarrow> [])\<rparr>
          in Some (JArr (map (node_log_json token) (filter (in_window a b) (node_transfers token ts f))))
      | _ \<Rightarrow> None)"

definition node_call :: "token_transfer list \<Rightarrow> json \<Rightarrow> json \<Rightarrow> json option" where
  "node_call ts obj tag =
     (case (as_str (json_index obj ''data''), as_str tag) of
        (Some d, Some tg) \<Rightarrow> (case (hex_decode (drop 2 d), u64_from_str_radix16 (drop 2 tg)) of
             (Some a, Some b) \<Rightarrow> Some (JStr (hash_hex (be_bytes 32 (account_balance (Address a) ts b))))
           | _ \<Rightarrow> None)
      | _ \<Rightarrow> None)"

definition node_block :: "json \<Rightarrow> json option" where
  "node_block tag = (case as_str tag of None \<Rightarrow> None | Some t \<Rightarrow> map_option demo_block_json (u64_from_str_radix16 (drop 2 t)))"

definition node_request :: "address \<Rightarrow> token_transfer list \<Rightarrow> string \<Rightarrow> json \<Rightarrow> (unit, rpc_error, json) act" where
  "node_request token ts mth params = liftR (ok_or (JsonRpc 0 ''invalid request'')
     (case params of
        JArr [] \<Rightarrow> if mth = ''eth_chainId'' then Some (JStr (hex_tag 1)) else None
      | JArr [obj] \<Rightarrow> if mth = ''eth_getLogs'' then node_get_logs token ts obj else None
      | JArr [obj, tag] \<Rightarrow>
          if mth = ''eth_call'' then node_call ts obj tag
          else if mth = ''eth_getBlockByNumber'' then node_block obj else None
      | _ \<Rightarrow> None))"

definition ledger_node :: "address \<Rightarrow> token_transfer list \<Rightarrow> unit rpc" where
  "ledger_node token ts = demo_rpc\<lparr>rpc_request := node_request token ts\<rparr>"

definition node_abi :: abi where
  "node_abi = demo_abi\<lparr>balanceOf := \<lparr>sc_signature = ''balanceOf(address)'', sc_encode = as_slice,
     sc_decode_returns = (\<lambda>bs. Ok (of_bytes_be bs)), sc_encode_returns = be_bytes 32\<rparr>\<rparr>"

definition unsupported :: "string \<Rightarrow> 'e sol_event" where
  "unsupported name = \<lparr>ev_signature = name, ev_signature_hash = replicate 32 6, ev_decode_raw_log = (\<lambda>_ _. Err ''unsupported'')\<rparr>"

definition node_b256 :: "string \<Rightarrow> string + hash" where
  "node_b256 s = ok_or ''invalid'' (case strip_prefix ''0x'' s of None \<Rightarrow> None | Some h \<Rightarrow> hex_decode h)"

definition node_events :: events where
  "node_events = \<lparr>b256_from_str = node_b256, hex_error_text = (\<lambda>_. ''invalid hex''),
     ClaimRegistered = unsupported ''ClaimRegistered'', ClaimCancelled = unsupported ''ClaimCancelled'',
     Transfer = \<lparr>ev_signature = ''Transfer(address,address,uint256)'', ev_signature_hash = node_sig,
       ev_decode_raw_log = (\<lambda>topics data. case topics of
          [_, f, t] \<Rightarrow> Ok \<lparr>te_from = Address (drop 12 f), te_to = Address (drop 12 t), te_value = of_bytes_be data\<rparr>
        | _ \<Rightarrow> Err ''topics'')\<rparr>,
     TransferSingle = unsupported ''TransferSingle'', TransferBatch = unsupported ''TransferBatch''\<rparr>"

text \<open>The ledgers the node can serve.\<close>

definition servable :: "u64 \<Rightarrow> nat \<Rightarrow> token_transfer list \<Rightarrow> bool" where
  "servable head cap ts \<longleftrightarrow> ordered_transfers ts \<and> length ts < cap \<and> cap \<le> MAX_LOG_RESULT_CAP \<and> head \<le> u64_max
     \<and> (\<forall>t \<in> set ts. wf_address (tt_from t) \<and> wf_address (tt_to t) \<and> fits (tt_value t)
          \<and> tt_block_number t \<le> u64_max \<and> tt_log_index t \<le> u64_max)"

lemma length_abi_word_wf: "wf_address a \<Longrightarrow> length (abi_word a) = 32"
  by (simp add: abi_word_def wf_address_def)

lemma enumerate_map_JStr: "enumerate n (map f xs) = map (\<lambda>(i, x). (i, f x)) (enumerate n xs)"
  by (induction xs arbitrary: n) auto

lemma node_parse:
  assumes "wf_address token" "wf_address (tt_from t)" "wf_address (tt_to t)" "tt_block_number t \<le> u64_max" "tt_log_index t \<le> u64_max"
  shows "parse_log (node_log_json token t) = Ok (node_log token t)"
proof -
  have len: "length (as_slice token) = 20" "length node_sig = 32" "length node_tx = 32"
    using assms(1) by (simp_all add: wf_address_def node_sig_def node_tx_def)
  have "to_ascii_lowercase (hash_hex bs) = hash_hex bs" for bs
    by (simp add: hash_hex_def to_ascii_lowercase_def) (metis lower_hex_encode to_ascii_lowercase_def)
  moreover have "strip_prefix ''0x'' (hash_hex bs) = Some (hex_encode bs)" for bs by (simp add: hash_hex_def strip_prefix_def)
  moreover have "(64::nat) \<le> u64_max" "(40::nat) \<le> u64_max" by (simp_all add: u64_max_def)
  ultimately show ?thesis using assms len
    by (simp add: parse_log_def node_log_json_def node_log_def Let_def json_index_def exact_hex_canonical hex_quantity_tag
        length_abi_word_wf del: be_bytes.simps)
qed

lemma trim_0x_hash_hex: "length bs > 0 \<Longrightarrow> trim_0x (hash_hex bs) = hex_encode bs"
proof -
  assume "length bs > 0"
  then obtain b bs' where bs: "bs = b # bs'" by (cases bs) auto
  have "hex_val CHR ''x'' = None" by code_simp
  then have "hex_char (unat b mod 16) \<noteq> CHR ''x''"
    using hex_val_hex_char [of "unat b mod 16"] by (metis mod_less_divisor option.distinct(1) zero_less_numeral)
  then show ?thesis by (simp add: hash_hex_def bs)
qed

lemma node_decode:
  assumes "wf_address (tt_from t)" "wf_address (tt_to t)" "fits (tt_value t)"
  shows "decode_transfer node_events (node_log token t) = Ok t"
proof -
  have b256: "node_b256 (hash_hex h) = Ok h" for h by (simp add: node_b256_def hash_hex_def strip_prefix_def)
  have trim: "trim_0x (hash_hex (be_bytes 32 (tt_value t))) = hex_encode (be_bytes 32 (tt_value t))"
    by (rule trim_0x_hash_hex) simp
  have v: "of_bytes_be (be_bytes 32 (tt_value t)) = tt_value t"
    using assms(3) by (simp only: of_be_bytes pow256_32 fits_def mod_less)
  have "Address (drop 12 (abi_word a)) = a" for a by (simp add: abi_word_def)
  then show ?thesis
    by (simp add: decode_transfer_def decode_event_def node_events_def node_log_def Let_def b256 trim v
        del: be_bytes.simps of_be_bytes)
qed

lemma node_logs_in: "logs_in (map (node_log token) us) a b = map (node_log token) (filter (in_window a b) us)"
proof -
  have "in_window a b = (\<lambda>t. a \<le> tt_block_number t \<and> tt_block_number t \<le> b)" by (simp add: in_window_def fun_eq_iff)
  then show ?thesis by (simp add: logs_in_def filter_map comp_def node_log_def)
qed

lemma filter_eta: "\<lparr>lf_address = lf_address f, lf_topics = lf_topics f\<rparr> = (f :: log_filter)"
  by simp

lemma node_fetch:
  assumes "wf_address token" "servable head cap ts" "a \<le> u64_max" "b \<le> u64_max"
  shows "fetch_logs (ledger_node token ts) f a b w
    = (Ok (logs_in (map (node_log token) (node_transfers token ts f)) a b), w)"
proof -
  let ?sel = "filter (in_window a b) (node_transfers token ts f)"
  obtain obj where obj: "log_request f a b = JArr [obj]" by (simp add: log_request_def)
  have fields: "demo_bound ''fromBlock'' (JArr [obj]) = Some a" "demo_bound ''toBlock'' (JArr [obj]) = Some b"
    "as_str (json_index obj ''address'') = Some (lf_address f)"
    "(case as_array (json_index obj ''topics'') of Some tps \<Rightarrow> tps | None \<Rightarrow> []) = lf_topics f"
    using obj assms(3,4) by (auto simp: log_request_def json_index_def hex_tag_def hex_parse_show)
  have req: "rpc_request (ledger_node token ts) ''eth_getLogs'' (log_request f a b) w
      = (Ok (JArr (map (node_log_json token) ?sel)), w)"
    unfolding obj by (simp add: ledger_node_def node_request_def node_get_logs_def fields Let_def filter_eta
        del: demo_bound.simps)
  have "mapR (check_log f a b) (map (node_log_json token) ?sel) = Ok (map (node_log token) ?sel)"
  proof -
    have "check_log f a b (node_log_json token t) = Ok (node_log token t)" if "t \<in> set ?sel" for t
    proof -
      from that have "t \<in> set ts" "selects f (node_log token t)" "in_window a b t" by (auto simp: node_transfers_def)
      with assms(2) node_parse [OF assms(1), of t] show ?thesis
        by (auto simp: check_log_def servable_def selects_def in_window_def node_log_def)
    qed
    then have "mapR (\<lambda>t. check_log f a b (node_log_json token t)) ?sel = Ok (map (node_log token) ?sel)"
      by (rule mapR_total)
    moreover have "mapR g (map h xs) = mapR (\<lambda>x. g (h x)) xs"
      for g :: "json \<Rightarrow> (rpc_error, rpc_log) result" and h :: "token_transfer \<Rightarrow> json" and xs
      by (induction xs) auto
    ultimately show ?thesis by simp
  qed
  then show ?thesis unfolding fetch_logs_def bindA_apply req by (simp add: node_logs_in)
qed

lemma node_log_position: "log_position (node_log token t) = tt_position t"
  by (simp add: log_position_def tt_position_def node_log_def)

lemma node_prompt: "prompt (ledger_node token ts)"
  by (simp add: prompt_def ledger_node_def demo_rpc_def)

lemma node_query:
  assumes "wf_address token" "servable head cap ts" "canonical_filter f0 = Ok f" "0 < max_range"
    "max_range \<le> MAX_INITIAL_LOG_RANGE" "x \<le> y" "y \<le> head"
  shows "yields (query_logs (ledger_node token ts) f0 x y max_range cap)
    (\<lambda>(out, _). out = map (node_log token) (filter (in_window x y) (node_transfers token ts f)))"
  unfolding yields_def
proof
  fix w
  let ?truth = "map (node_log token) (node_transfers token ts f)"
  have srt: "sorted_wrt (<) (map log_position ?truth)"
    using assms(2) sorted_wrt_map_filter [of "(<)" tt_position ts "\<lambda>t. selects f (node_log token t)"]
    by (simp add: servable_def ordered_transfers_def node_transfers_def comp_def node_log_position)
  have len: "length ?truth < cap"
    using assms(2) by (auto simp: servable_def node_transfers_def intro: le_less_trans [OF length_filter_le])
  have y: "y \<le> u64_max" "cap \<le> MAX_LOG_RESULT_CAP" using assms(2,7) by (auto simp: servable_def)
  have "fetch_logs (ledger_node token ts) f a b w = (Ok (logs_in ?truth a b), w)" if "x \<le> a" "a \<le> b" "b \<le> y" for a b
    using node_fetch [OF assms(1,2)] that y by simp
  from prompt_query [OF node_prompt assms(3,4,5) len y(2) srt assms(6) y(1) this] obtain m where
    "get_logs_chunked (ledger_node token ts) f0 x y max_range cap w = (Ok (logs_in ?truth x y, m), w)" by blast
  moreover have "logs_in ?truth x y = map (node_log token) (filter (in_window x y) (node_transfers token ts f))"
    by (simp add: node_logs_in)
  ultimately show "\<exists>r w'. query_logs (ledger_node token ts) f0 x y max_range cap w = (Ok r, w')
      \<and> (case r of (out, _) \<Rightarrow> out = map (node_log token) (filter (in_window x y) (node_transfers token ts f)))"
    by (auto simp: query_logs_def)
qed

section \<open>The node keeps the contracts\<close>

lemma address_to_string_hash: "address_to_string a = hash_hex (as_slice a)"
  by (simp add: address_to_string_def hash_hex_def)

lemma canonical_options:
  "list_all wf_address as \<Longrightarrow> mapR (\<lambda>(i, v). bindR (exact_hex (indexed name i) v 32) (\<lambda>s. Ok (JStr s)))
     (enumerate n (map address_topic as)) = Ok (map address_topic as)"
proof (induction as arbitrary: n)
  case (Cons a as)
  have "(64 :: nat) \<le> u64_max" by (simp add: u64_max_def)
  with Cons show ?case by (simp add: address_topic_def exact_hex_canonical length_abi_word_wf)
qed simp

lemma canonical_account_topic: "topic_for as topic \<Longrightarrow> canonical_topic_filter topic i = Ok topic"
proof -
  assume "topic_for as topic"
  then consider "topic = JArr (map address_topic as)" "as \<noteq> []" "length as \<le> 64" "list_all wf_address as"
    | a where "topic = address_topic a" "wf_address a" by (auto simp: topic_for_def)
  then show ?thesis
  proof cases
    case 1
    then show ?thesis by (simp add: canonical_topic_filter_def Let_def canonical_options MAX_TOPIC_OPTIONS_def)
  next
    case (2 a)
    have "(64 :: nat) \<le> u64_max" by (simp add: u64_max_def)
    with 2 show ?thesis by (simp add: canonical_topic_filter_def Let_def address_topic_def exact_hex_canonical length_abi_word_wf)
  qed
qed

lemma canonical_sig: "canonical_topic_filter (JStr (hash_hex node_sig)) i = Ok (JStr (hash_hex node_sig))"
proof -
  have "(64 :: nat) \<le> u64_max" by (simp add: u64_max_def)
  then show ?thesis by (simp add: canonical_topic_filter_def Let_def exact_hex_canonical node_sig_def)
qed

lemma topic_sig: "topic_hash (ev_signature_hash (Transfer node_events)) = JStr (hash_hex node_sig)"
  by (simp add: topic_hash_def node_events_def)

lemma canonical_transfer_filters:
  assumes "wf_address token" "topic_for as topic"
  shows "canonical_filter (outgoing_filter node_events token topic) = Ok (outgoing_filter node_events token topic)"
    "canonical_filter (incoming_filter node_events token topic) = Ok (incoming_filter node_events token topic)"
proof -
  have "(40 :: nat) \<le> u64_max" "length (as_slice token) = 20" using assms(1) by (simp_all add: u64_max_def wf_address_def)
  then have addr: "exact_hex field (JStr (address_to_string token)) 20 = Ok (address_to_string token)" for field
    by (simp add: address_to_string_hash exact_hex_canonical)
  have null: "canonical_topic_filter JNull i = Ok JNull" for i by (simp add: canonical_topic_filter_def Let_def)
  show "canonical_filter (outgoing_filter node_events token topic) = Ok (outgoing_filter node_events token topic)"
    "canonical_filter (incoming_filter node_events token topic) = Ok (incoming_filter node_events token topic)"
    by (simp_all add: canonical_filter_def outgoing_filter_def incoming_filter_def topic_sig addr null canonical_sig
        canonical_account_topic [OF assms(2)])
qed

lemma account_topic_matches:
  assumes "topic_for as topic"
  shows "topic_matches topic (hash_hex (abi_word b)) \<longleftrightarrow> b \<in> set as"
  using assms by (auto simp: topic_for_def address_topic_def list_ex_iff hash_hex_inj abi_word_inj)

lemma node_selects:
  assumes "topic_for as topic"
  shows "selects (outgoing_filter node_events token topic) (node_log token t) \<longleftrightarrow> tt_from t \<in> set as"
    "selects (incoming_filter node_events token topic) (node_log token t) \<longleftrightarrow> tt_to t \<in> set as"
  by (simp_all add: selects_def outgoing_filter_def incoming_filter_def log_matches_filter_def topic_sig node_log_def
      address_to_string_hash account_topic_matches [OF assms])

lemma node_serves_transfers:
  assumes "wf_address token" "servable head cap ts" "0 < max_range" "max_range \<le> MAX_INITIAL_LOG_RANGE"
  shows "serves_transfers (ledger_node token ts) node_events token max_range cap head (map (node_log token) ts) ts"
proof -
  have dec: "mapR (decode_transfer node_events) (map (node_log token) us) = Ok us" if "set us \<subseteq> set ts" for us
    using that assms(2) by (induction us) (auto simp: servable_def node_decode)
  have sel: "select_logs P (map (node_log token) us) us = map (node_log token) (filter P us)" for P us
    by (induction us) (simp_all add: select_logs_def)
  have "yields (query_logs (ledger_node token ts) (outgoing_filter node_events token topic) x y max_range cap)
      (\<lambda>(out, _). out = select_logs (\<lambda>t. tt_from t \<in> set as \<and> in_window x y t) (map (node_log token) ts) ts)
    \<and> yields (query_logs (ledger_node token ts) (incoming_filter node_events token topic) x y max_range cap)
      (\<lambda>(inc, _). inc = select_logs (\<lambda>t. tt_to t \<in> set as \<and> in_window x y t) (map (node_log token) ts) ts)"
    if "topic_for as topic" "x \<le> y" "y \<le> head" for as topic x y
    using node_query [OF assms(1,2) canonical_transfer_filters(1) [OF assms(1) that(1)] assms(3,4) that(2,3)]
      node_query [OF assms(1,2) canonical_transfer_filters(2) [OF assms(1) that(1)] assms(3,4) that(2,3)]
    by (simp add: sel node_transfers_def node_selects [OF that(1)])
  with dec [of ts] assms(2) show ?thesis unfolding serves_transfers_def servable_def by blast
qed

lemma node_serves_all_transfers:
  assumes "wf_address token" "servable head cap ts" "0 < max_range" "max_range \<le> MAX_INITIAL_LOG_RANGE"
  shows "serves_all_transfers (ledger_node token ts) node_events token max_range cap head (map (node_log token) ts) ts"
proof -
  have "mapR (decode_transfer node_events) (map (node_log token) us) = Ok us" if "set us \<subseteq> set ts" for us
    using that assms(2) by (induction us) (auto simp: servable_def node_decode)
  moreover have "select_logs P (map (node_log token) us) us = map (node_log token) (filter P us)" for P us
    by (induction us) (simp_all add: select_logs_def)
  moreover have "(40 :: nat) \<le> u64_max" "length (as_slice token) = 20" using assms(1) by (simp_all add: u64_max_def wf_address_def)
  then have canon: "canonical_filter (transfer_filter node_events token) = Ok (transfer_filter node_events token)"
    by (simp add: canonical_filter_def transfer_filter_def topic_sig address_to_string_hash exact_hex_canonical canonical_sig)
  moreover have "selects (transfer_filter node_events token) (node_log token t)" for t
    by (simp add: selects_def transfer_filter_def log_matches_filter_def topic_sig node_log_def address_to_string_hash)
  ultimately show ?thesis
    using node_query [OF assms(1,2) canon assms(3,4)] assms(2)
    by (simp add: serves_all_transfers_def servable_def node_transfers_def)
qed

lemma node_serves_blocks:
  assumes "12 * head \<le> u64_max"
  shows "serves_blocks (ledger_node token ts) demo_block head"
proof -
  have "rpc_request (ledger_node token ts) ''eth_getBlockByNumber'' (JArr [JStr (hex_tag n), JBool False])
      = rpc_request demo_chain ''eth_getBlockByNumber'' (JArr [JStr (hex_tag n), JBool False])" if "n \<le> head" for n
    using that assms
    by (simp add: ledger_node_def demo_chain_def node_request_def node_block_def hex_tag_def hex_roundtrip fun_eq_iff)
  then show ?thesis using demo_chain_serves [OF assms] by (simp add: serves_blocks_def)
qed

lemma node_chain_id: "answers (chain_id (ledger_node token ts)) (Ok 1)"
proof -
  have "quantity (JStr (hex_tag 1)) field = Ok 1" for field by (rule quantity_tag) (simp add: u64_max_def)
  then show ?thesis
    by (simp add: chain_id_def ledger_node_def node_request_def answers_def bindA_apply map_errA_def)
qed

lemma node_serves_balances:
  assumes "head \<le> u64_max" "\<forall>a \<in> accounts. wf_address a \<and> covered 0 (account_ledger a ts)
    \<and> (\<forall>b \<le> head. fits (account_balance a ts b))"
  shows "serves_balances (ledger_node token ts) node_abi token head ts accounts"
proof -
  have "yields (balance_of_at (ledger_node token ts) node_abi token a b) ((=) (account_balance a ts b))"
    if "b \<le> head" "fits (account_balance a ts b)" for a b
  proof -
    let ?v = "be_bytes 32 (account_balance a ts b)"
    have "b \<le> u64_max" using that assms(1) by simp
    then have "rpc_request (ledger_node token ts) ''eth_call'' (call_params token (as_slice a) (hex_tag b)) w
        = (Ok (JStr (hash_hex ?v)), w)" for w
      by (simp add: ledger_node_def node_request_def call_params_def node_call_def json_index_def hash_hex_def hex_tag_def
          hex_roundtrip del: be_bytes.simps)
    moreover have "of_bytes_be ?v = account_balance a ts b"
      using that(2) by (simp only: of_be_bytes pow256_32 fits_def mod_less)
    ultimately show ?thesis
      by (simp add: yields_def balance_of_at_def contract_call_def raw_call_def Let_def bindA_apply map_errA_def
          decode_call_result_hex node_abi_def del: be_bytes.simps of_be_bytes)
  qed
  with assms(2) show ?thesis unfolding serves_balances_def by blast
qed

end
