(* ===== verification/History_Claims.thy ===== *)
theory History_Claims
  imports Ledger_Node
begin

text \<open>
  The claims about event histories and their witnesses, which run against the reference node on a ledger with a mint
  and a transfer.
\<close>

definition demo_token :: address where "demo_token = Address (replicate 20 7)"
definition demo_alice :: address where "demo_alice = Address (replicate 20 1)"
definition demo_bob :: address where "demo_bob = Address (replicate 20 2)"

definition demo_ledger :: "token_transfer list" where
  "demo_ledger = [\<lparr>tt_from = Address (replicate 20 0), tt_to = demo_alice, tt_value = 100, tt_block_number = 10, tt_log_index = 3\<rparr>,
     \<lparr>tt_from = demo_alice, tt_to = demo_bob, tt_value = 40, tt_block_number = 20, tt_log_index = 0\<rparr>]"

definition demo_node :: "unit rpc" where "demo_node = ledger_node demo_token demo_ledger"

lemma demo_distinct [simp]:
  "demo_alice \<noteq> demo_bob" "demo_bob \<noteq> demo_alice" "Address (replicate 20 0) \<noteq> demo_alice" "Address (replicate 20 0) \<noteq> demo_bob"
  by (simp_all add: demo_alice_def demo_bob_def replicate_eq_replicate)

lemma demo_wf [simp]: "wf_address demo_token" "wf_address demo_alice" "wf_address demo_bob"
  by (simp_all add: wf_address_def demo_token_def demo_alice_def demo_bob_def)

lemma demo_accounts_ledger:
  "account_ledger demo_alice demo_ledger = [(10, 100, 0), (20, 0, 40)]"
  "account_ledger demo_bob demo_ledger = [(20, 40, 0)]"
  by (simp_all add: account_ledger_def ledger_transfers_def ledger_def demo_ledger_def tt_position_def)

lemma demo_balances:
  "account_balance demo_alice demo_ledger x = (if x < 10 then 0 else if x < 20 then 100 else 60)"
  "account_balance demo_bob demo_ledger x = (if x < 20 then 0 else 40)"
  by (simp_all add: account_balance_def demo_accounts_ledger)

lemma demo_serves_transfers:
  "serves_transfers demo_node node_events demo_token 1000 50 100 (map (node_log demo_token) demo_ledger) demo_ledger"
proof -
  have "servable 100 50 demo_ledger"
    by (simp add: servable_def ordered_transfers_def demo_ledger_def tt_position_def MAX_LOG_RESULT_CAP_def u64_max_def
        fits_def wf_address_def demo_alice_def demo_bob_def)
  then show ?thesis unfolding demo_node_def
    by (intro node_serves_transfers) (simp_all add: MAX_INITIAL_LOG_RANGE_def)
qed

lemma demo_serves_balances: "serves_balances demo_node node_abi demo_token 100 demo_ledger {demo_alice, demo_bob}"
  unfolding demo_node_def
  by (rule node_serves_balances) (simp_all add: u64_max_def demo_accounts_ledger demo_balances fits_def)

section \<open>Block integrals and scores\<close>

text \<open>
  The block integral is the integral of the true balance: against a provider that serves a token's
  complete transfer logs and the balances they imply, \<^verbatim>\<open>token_block_integral\<close> succeeds and returns the sum of the
  account's balances at the blocks \<open>from_b\<close> to \<open>to_b - 1\<close>, self-transfers and several transfers
  per block included.\<close>

theorem token_block_integral_exact:
  assumes "serves_transfers rpc ev token max_range cap head logs ts" "serves_balances rpc abi token head ts {a}"
    "to_b \<le> head"
  shows "yields (token_block_integral rpc abi ev token a from_b to_b max_range cap)
    (\<lambda>(v, _). v = (\<Sum>b\<in>{from_b..<to_b}. account_balance a ts b))"
  by (rule token_block_integral_yields [OF assms])

theorem token_block_integral_exact_witness:
  "yields (token_block_integral demo_node node_abi node_events demo_token demo_alice 15 25 1000 50)
    (\<lambda>(v, _). v = 5 * 100 + 5 * 60)"
proof -
  have "serves_balances demo_node node_abi demo_token 100 demo_ledger {demo_alice}"
    using demo_serves_balances by (simp add: serves_balances_def)
  moreover have "(\<Sum>b\<in>{15..<25}. account_balance demo_alice demo_ledger b) = 5 * 100 + 5 * 60"
    by (simp add: demo_balances numeral_eq_Suc atLeastLessThanSuc)
  ultimately show ?thesis
    using token_block_integral_exact [OF demo_serves_transfers, of node_abi demo_alice 25 15] by simp
qed

text \<open>
  C20.  Scores read directly from the chain and scores accumulated incrementally agree: against a provider that serves
  the scored tokens' histories, \<^verbatim>\<open>earned_score_of\<close> succeeds and returns the gross score of the numerators that the score
  accumulator of \<^verbatim>\<open>score-core\<close> computes by replaying each account ledger and projecting it to the same block.\<close>

theorem earned_score_matches_accumulator:
  assumes "\<forall>s \<in> set scored. \<exists>logs. serves_transfers rpc ev (st_token s) max_range cap head logs (T (st_token s))"
    "\<forall>s \<in> set scored. serves_balances rpc abi (st_token s) head (T (st_token s)) {a}" "t \<le> head"
    "\<forall>s \<in> set scored. rates_ascending (st_rates s)"
  shows "\<exists>numerators. list_all2 (\<lambda>s n. bindR (replay_account (fresh_account 0 0)
        (filter (\<lambda>(b, _). b \<le> t) (account_ledger a (T (st_token s)))) (st_rates s) (st_decimals s))
        (\<lambda>st. projected_numerator st t (st_rates s) (st_decimals s)) = Ok n) scored numerators
    \<and> yields (earned_score_of rpc abi ev scored a t max_range cap) (\<lambda>(v, _). v = gross_score (sum_list numerators))"
proof (intro exI conjI)
  let ?n = "\<lambda>s. score_spec (account_balance a (T (st_token s))) 0 (st_decimals s) t (st_rates s)"
  show "yields (earned_score_of rpc abi ev scored a t max_range cap) (\<lambda>(v, _). v = gross_score (sum_list (map ?n scored)))"
    using earned_score_yields [OF assms(1-3)] by (simp add: gross_score_def SCORE_SCALE_def ONE_1E18_def)
  have "bindR (replay_account (fresh_account 0 0) (filter (\<lambda>(b, _). b \<le> t) (account_ledger a (T (st_token s))))
      (st_rates s) (st_decimals s)) (\<lambda>st. projected_numerator st t (st_rates s) (st_decimals s)) = Ok (?n s)"
    if s: "s \<in> set scored" for s
  proof -
    let ?l = "account_ledger a (T (st_token s))"
    let ?f = "filter (\<lambda>(b, _). b \<le> t) ?l"
    have ord: "ordered_transfers (T (st_token s))" using assms(1) s by (auto simp: serves_transfers_def)
    have cov: "covered 0 ?l" using assms(2) s by (simp add: serves_balances_def)
    have srt: "sorted (map fst ?l)" by (rule account_ledger_sorted [OF ord])
    then have "sorted (0 # map fst ?f)" using sorted_wrt_map_filter [of "(\<le>)" fst ?l] by simp
    moreover have "last (0 # map fst ?f) \<le> t" using last_in_set [of "0 # map fst ?f"] by (auto split: if_splits)
    moreover have "covered 0 ?f" by (rule covered_prefix [OF srt cov])
    ultimately have "bindR (replay_account (fresh_account 0 0) ?f (st_rates s) (st_decimals s))
        (\<lambda>st. projected_numerator st t (st_rates s) (st_decimals s))
      = Ok (score_spec (history_of 0 ?f) 0 (st_decimals s) t (st_rates s))"
      using replay_projection assms(4) s by blast
    also have "score_spec (history_of 0 ?f) 0 (st_decimals s) t (st_rates s) = ?n s"
      unfolding account_balance_def by (rule score_spec_cong) (simp add: history_prefix [OF srt])
    finally show ?thesis .
  qed
  then show "list_all2 (\<lambda>s n. bindR (replay_account (fresh_account 0 0)
        (filter (\<lambda>(b, _). b \<le> t) (account_ledger a (T (st_token s)))) (st_rates s) (st_decimals s))
        (\<lambda>st. projected_numerator st t (st_rates s) (st_decimals s)) = Ok n) scored (map ?n scored)"
    by (simp add: list_all2_map2 list.rel_refl_strong)
qed

definition demo_scored :: scored_token where
  "demo_scored = \<lparr>st_token = demo_token, st_decimals = 0, st_rates = demo_rates\<rparr>"

lemma demo_accumulated:
  "bindR (replay_account (fresh_account 0 0) [(10, 100, 0), (20, 0, 40)] demo_rates 0)
     (\<lambda>st. projected_numerator st 30 demo_rates 0) = Ok (5000 * SCORE_SCALE)"
proof -
  let ?h = "history_of 0 [(10, 100, 0), (20, 0, 40)]"
  have "(\<Sum>b\<in>{10..<20}. ?h b) = 100 * (20 - 10)" by (rule sum_atLeastLessThan_const) simp
  moreover have "(\<Sum>b\<in>{20..<30}. ?h b) = 60 * (30 - 20)" by (rule sum_atLeastLessThan_const) simp
  ultimately have "score_spec ?h 0 0 30 demo_rates = 5000 * SCORE_SCALE"
    by (simp add: demo_rates_def seg_integral_def seg_end_def next_from_def scaled_integral_def SCORE_SCALE_def
        del: history_of.simps)
  then show ?thesis
    using replay_projection [of demo_rates 0 "[(10, 100, 0), (20, 0, 40)]" 30 0 0]
    by (simp add: demo_rates_def rates_ascending_def del: history_of.simps)
qed

theorem earned_score_matches_accumulator_witness:
  "yields (earned_score_of demo_node node_abi node_events [demo_scored] demo_alice 30 1000 50) (\<lambda>(v, _). v = 5000)"
proof -
  have ledger: "filter (\<lambda>(b, _). b \<le> 30) (account_ledger demo_alice demo_ledger) = [(10, 100, 0), (20, 0, 40)]"
    by (simp add: demo_accounts_ledger)
  have "\<exists>numerators. list_all2 (\<lambda>s n. bindR (replay_account (fresh_account 0 0)
        (filter (\<lambda>(b, _). b \<le> 30) (account_ledger demo_alice demo_ledger)) (st_rates s) (st_decimals s))
        (\<lambda>st. projected_numerator st 30 (st_rates s) (st_decimals s)) = Ok n) [demo_scored] numerators
    \<and> yields (earned_score_of demo_node node_abi node_events [demo_scored] demo_alice 30 1000 50)
        (\<lambda>(v, _). v = gross_score (sum_list numerators))"
    using demo_serves_transfers demo_serves_balances
    by (intro earned_score_matches_accumulator [where T = "\<lambda>_. demo_ledger" and head = 100])
      (auto simp: demo_scored_def serves_balances_def demo_rates_def rates_ascending_def)
  then have "yields (earned_score_of demo_node node_abi node_events [demo_scored] demo_alice 30 1000 50)
      (\<lambda>(v, _). v = gross_score (5000 * SCORE_SCALE))"
    by (auto simp: list_all2_Cons1 ledger demo_scored_def demo_accumulated)
  then show ?thesis by (simp add: gross_score_def SCORE_SCALE_def)
qed

section \<open>Minimum balances\<close>

text \<open>
  Minimum holdings over a window are exact: against a provider that serves a token's history, \<^verbatim>\<open>min_balances_over\<close> returns,
  for every requested account, the least balance the account held from block \<open>from_b\<close> to block \<open>to_b\<close>, counting the
  balance after every single transfer; transfers are fetched in batches of 64 accounts and seen once even when sender and
  recipient are both requested.\<close>

theorem min_balances_over_exact:
  assumes "serves_transfers rpc ev token max_range cap head logs ts"
    "serves_balances rpc abi token head ts (set accounts)" "sorted_wrt (<) accounts" "from_b \<le> head" "to_b \<le> head"
  shows "yields (min_balances_over rpc abi ev token accounts from_b to_b max_range cap)
    (\<lambda>(m, _). map fst m = accounts \<and> (\<forall>a \<in> set accounts. map_of m a
       = Some (Min (set (running (account_balance a ts from_b)
           (filter (\<lambda>(b, _, _). from_b < b \<and> b \<le> to_b) (account_ledger a ts)))))))"
  using min_balances_yields [OF assms]
  by (rule yields_mono) (auto simp: comp_def minimum_balance_def window_ledger_def map_of_map_restrict)

theorem min_balances_over_exact_witness:
  "yields (min_balances_over demo_node node_abi node_events demo_token [demo_alice, demo_bob] 12 30 1000 50)
    (\<lambda>(m, _). map_of m demo_alice = Some 60 \<and> map_of m demo_bob = Some 0)"
proof -
  have "sorted_wrt (<) [demo_alice, demo_bob]"
    by (simp add: less_address_def demo_alice_def demo_bob_def eval_nat_numeral)
  then have "yields (min_balances_over demo_node node_abi node_events demo_token [demo_alice, demo_bob] 12 30 1000 50)
    (\<lambda>(m, _). map fst m = [demo_alice, demo_bob] \<and> (\<forall>a \<in> set [demo_alice, demo_bob]. map_of m a
       = Some (Min (set (running (account_balance a demo_ledger 12)
           (filter (\<lambda>(b, _, _). 12 < b \<and> b \<le> 30) (account_ledger a demo_ledger)))))))"
    using demo_serves_balances by (intro min_balances_over_exact [OF demo_serves_transfers]) simp_all
  then show ?thesis
    by (rule yields_mono) (auto simp: demo_accounts_ledger demo_balances)
qed

section \<open>Time-weighted ratio\<close>

text \<open>
  C24.  The time-weighted ratio is the average it claims to be: against a provider that serves the conversion ratio at every
  block, \<^verbatim>\<open>twap_ratio_before\<close> terminates without overflow and returns the integer mean of the ratios at the blocks
  \<open>s, s + step, s + 2 step, ...\<close> up to the reference block, where \<open>s\<close> is the lookback start (at least block 1); a zero
  step is rejected.\<close>

theorem twap_ratio_before_mean:
  assumes "r \<le> u64_max" "1 \<le> r"
    "\<And>b. b \<le> r \<Longrightarrow> yields (ratio_at rpc (ic_conversion_address config) (ic_conversion_call_data config) b) ((=) (R b))"
  shows "let step = sample_step_blocks (ic_params config); s = twap_start (ic_params config) r; n = (r - s) div step + 1 in
    if step = 0 then answers (twap_ratio_before rpc config r) (Err (InvalidConfiguration ''sampleStepBlocks is zero''))
    else yields (twap_ratio_before rpc config r) ((=) ((\<Sum>k<n. R (s + k * step)) div n))"
proof (cases "sample_step_blocks (ic_params config) = 0")
  case True
  then show ?thesis by (simp add: twap_ratio_before_def)
next
  case False
  let ?s = "twap_start (ic_params config) r"
  have s: "1 \<le> ?s" "?s \<le> r" using assms(2) by (auto simp: twap_start_def)
  then have "0 + (Suc r - ?s) \<le> u64_max" using assms(1) by simp
  with False have "yields (twap_loop rpc (ic_conversion_address config) (ic_conversion_call_data config) r
      (sample_step_blocks (ic_params config)) 0 0 ?s)
    ((=) (0 + (\<Sum>k\<in>{..<sample_count r (sample_step_blocks (ic_params config)) ?s}. R (?s + k * sample_step_blocks (ic_params config))),
      0 + sample_count r (sample_step_blocks (ic_params config)) ?s))"
    using assms(1,3) by (intro twap_loop_yields) auto
  note loop = this [unfolded add_0]
  show ?thesis using False s(2)
    by (auto simp: twap_ratio_before_def Let_def sample_count_def intro!: yields_bindA [OF loop])
qed

definition demo_incident_config :: incident_config where
  "demo_incident_config = \<lparr>ic_coverage_bps = 8000, ic_underlying_price_oracle = demo_token,
     ic_conversion_address = Address (replicate 20 0), ic_conversion_call_data = [],
     ic_params = \<lparr>twap_lookback_blocks = 10, holding_margin_blocks = 5, sample_step_blocks = 4\<rparr>, ic_scored_tokens = []\<rparr>"

theorem twap_ratio_before_mean_witness:
  "yields (twap_ratio_before demo_node demo_incident_config 50) ((=) ONE_1E18)"
proof -
  have "yields (ratio_at demo_node (ic_conversion_address demo_incident_config)
      (ic_conversion_call_data demo_incident_config) b) ((=) ONE_1E18)" for b
    by (simp add: ratio_at_def demo_incident_config_def is_zero_def)
  with twap_ratio_before_mean [of 50 demo_node demo_incident_config "\<lambda>_. ONE_1E18"]
  show ?thesis by (simp add: demo_incident_config_def u64_max_def twap_start_def ONE_1E18_def Let_def)
qed

end
