(* ===== verification/Checkpoint.thy ===== *)
theory Checkpoint
  imports History
begin

text \<open>
  The score checkpoint of \<^verbatim>\<open>offchain-rust/src/checkpoint.rs\<close>: the persisted index of token transfers, its
  authenticated file format, the exclusive lock, incremental advance of a token's accounts and the two score
  sources built on it (the resumable checkpoint and the fresh claimant-filtered replay).  Serde's JSON
  encoding of the persisted records, HMAC-SHA256, the file system and path manipulation are parameters.
\<close>

section \<open>State and persisted form\<close>

definition SCHEMA_VERSION :: nat where "SCHEMA_VERSION = 1"
definition ZERO_HASH :: string where "ZERO_HASH = ''0x'' @ replicate 64 CHR ''0''"
definition MAX_CHECKPOINT_BYTES :: u64 where "MAX_CHECKPOINT_BYTES = 128 * 1024 * 1024"

datatype io_error = IoNotFound | IoAlreadyExists | IoOther string

text \<open>\<^verbatim>\<open>CpDiverges\<close> is not a value of the Rust enum: it stands for a loop that does not end.\<close>

datatype checkpoint_error =
    CpChain chain_error
  | CpIo string io_error
  | CpJson string
  | CpAuthentication string
  | CpInvalid string
  | CpLocked string
  | CpDiverges

record checkpoint_metadata =
  cm_path :: string
  cm_as_of_block :: u64
  cm_as_of_block_hash :: string
  cm_indexed_transfers :: nat
  cm_indexed_tokens :: nat
  cm_log_metrics :: log_metrics

record bulk_metadata =
  bm_as_of_block :: u64
  bm_as_of_block_hash :: string
  bm_indexed_transfers :: nat
  bm_indexed_tokens :: nat
  bm_tracked_accounts :: nat
  bm_log_metrics :: log_metrics

record token_state =
  ts_decimals :: nat
  ts_cursor_block :: u64
  ts_cursor_block_hash :: string
  ts_rates :: "rate_point list"
  ts_accounts :: "(address, account_score_state) btree_map"

record checkpoint_state =
  cs_chain_id :: u64
  cs_tokens :: "(address, token_state) btree_map"

record persisted_account =
  pa_balance :: string
  pa_last_block :: string
  pa_completed_numerator :: string
  pa_active_segment_from :: "string option"
  pa_active_integral :: string

record persisted_rate =
  pr_from_block :: string
  pr_rate :: string

record persisted_token =
  pk_decimals :: nat
  pk_cursor_block :: string
  pk_cursor_block_hash :: string
  pk_rates :: "persisted_rate list"
  pk_accounts :: "(string, persisted_account) btree_map"

record persisted_checkpoint =
  pc_schema_version :: nat
  pc_chain_id :: u64
  pc_tokens :: "(string, persisted_token) btree_map"

record authenticated_checkpoint = persisted_checkpoint +
  ac_authentication :: string

definition checkpoint_of :: "authenticated_checkpoint \<Rightarrow> persisted_checkpoint" where
  "checkpoint_of e = \<lparr>pc_schema_version = pc_schema_version e, pc_chain_id = pc_chain_id e, pc_tokens = pc_tokens e\<rparr>"

section \<open>Parameters\<close>

text \<open>Opening a file for reading yields its recorded length and its contents.\<close>

record 'w files =
  fs_open_read :: "string \<Rightarrow> ('w, io_error, u64 \<times> bytes) act"
  fs_create_dir_all :: "string \<Rightarrow> ('w, io_error, unit) act"
  fs_create_new :: "string \<Rightarrow> ('w, io_error, unit) act"
  fs_write_sync :: "string \<Rightarrow> bytes \<Rightarrow> ('w, io_error, unit) act"
  fs_remove :: "string \<Rightarrow> ('w, io_error, unit) act"
  fs_rename :: "string \<Rightarrow> string \<Rightarrow> ('w, io_error, unit) act"
  fs_sync_dir :: "string \<Rightarrow> ('w, io_error, unit) act"
  fs_now_nanos :: "'w \<Rightarrow> nat option"
  fs_process_id :: nat
  fs_parent :: "string \<Rightarrow> string"
  fs_with_extension :: "string \<Rightarrow> string \<Rightarrow> string"
  fs_absolute :: "string \<Rightarrow> ('w, io_error, string) act"

record checkpoint_codec =
  cc_checkpoint_to_vec :: "persisted_checkpoint \<Rightarrow> bytes"
  cc_envelope_to_vec :: "authenticated_checkpoint \<Rightarrow> bytes"
  cc_envelope_from_slice :: "bytes \<Rightarrow> string + authenticated_checkpoint"
  cc_hmac :: "bytes \<Rightarrow> (bytes \<Rightarrow> bytes) option"

section \<open>Bounded reads\<close>

definition lock_path_for_checkpoint :: "string \<Rightarrow> string" where
  "lock_path_for_checkpoint path = path @ ''.lock''"

definition ensure_checkpoint_size :: "u64 \<Rightarrow> u64 \<Rightarrow> (checkpoint_error, unit) result" where
  "ensure_checkpoint_size len limit =
     failR_if (len > limit) (CpInvalid (''checkpoint file exceeds '' @ show_nat limit @ ''-byte limit''))"

definition read_checkpoint_bytes_with_limit ::
  "('w, 'z) files_scheme \<Rightarrow> string \<Rightarrow> u64 \<Rightarrow> ('w, checkpoint_error, bytes option) act" where
  "read_checkpoint_bytes_with_limit fs path limit =
     bindA (tryA (fs_open_read fs path)) (\<lambda>opened.
       case opened of
         Inl IoNotFound \<Rightarrow> retA None
       | Inl e \<Rightarrow> failA (CpIo path e)
       | Inr (len, contents) \<Rightarrow>
           bindA (liftR (ensure_checkpoint_size len limit)) (\<lambda>_.
           let bs = take (saturating_add64 limit 1) contents in
           bindA (liftR (ensure_checkpoint_size (length bs) limit)) (\<lambda>_.
             retA (Some bs))))"

definition verify_checkpoint_bytes ::
  "('w, 'z) files_scheme \<Rightarrow> string \<Rightarrow> bytes \<Rightarrow> ('w, checkpoint_error, unit) act" where
  "verify_checkpoint_bytes fs path expected =
     bindA (read_checkpoint_bytes_with_limit fs path MAX_CHECKPOINT_BYTES) (\<lambda>r.
     bindA (liftR (ok_or (CpInvalid ''checkpoint read-back is missing'') r)) (\<lambda>persisted.
       guardA (persisted \<noteq> expected) (CpInvalid ''checkpoint read-back differs from serialized bytes'')))"

section \<open>Canonical text\<close>

definition decimal :: "string \<Rightarrow> string \<Rightarrow> (checkpoint_error, biguint) result" where
  "decimal v field =
     (if v = [] \<or> (length v > 1 \<and> hd v = CHR ''0'') \<or> \<not> list_all is_ascii_digit v
      then Err (CpInvalid (''non-canonical bigint '' @ field))
      else Ok (decimal_value v))"

definition decimal_u64 :: "string \<Rightarrow> string \<Rightarrow> (checkpoint_error, u64) result" where
  "decimal_u64 v field =
     bindR (decimal v field) (\<lambda>n.
       if n \<le> u64_max then Ok n else Err (CpInvalid (''checkpoint integer '' @ field @ '' exceeds u64'')))"

definition valid_hash :: "string \<Rightarrow> bool" where
  "valid_hash h \<longleftrightarrow> length h = 66 \<and> take 2 h = ''0x'' \<and> list_all (\<lambda>c. hex_val c \<noteq> None) (drop 2 h)"

fun score_core_text :: "score_core_error \<Rightarrow> string" where
  "score_core_text RatesNotAscending = ''score rate history must be strictly ascending''"
| "score_core_text (Backward a b) = ''cannot move score account backward from '' @ show_nat a @ '' to '' @ show_nat b"
| "score_core_text (MissingRate n) = ''active score rate segment '' @ show_nat n @ '' is absent from rate history''"
| "score_core_text (BalanceUnderflow b) = ''score transfer produces a negative balance at block '' @ show_nat b"

definition core :: "score_core_error \<Rightarrow> checkpoint_error" where
  "core e = CpInvalid (score_core_text e)"

text \<open>\<open>find_map\<close> over the enumerated rate points; the rest of the list gives the next point.\<close>

fun first_contributing :: "rate_point list \<Rightarrow> u64 \<Rightarrow> u64 option" where
  "first_contributing [] as_of_block = None"
| "first_contributing (point # rest) as_of_block =
     (let nxt = (case rest of [] \<Rightarrow> as_of_block | n # _ \<Rightarrow> from_block n) in
      if rate point \<noteq> 0 \<and> from_block point < min nxt as_of_block then Some (from_block point)
      else first_contributing rest as_of_block)"

definition first_contributing_block :: "scored_token \<Rightarrow> u64 \<Rightarrow> u64 option" where
  "first_contributing_block scored as_of_block = first_contributing (st_rates scored) as_of_block"

definition contributes_at :: "scored_token \<Rightarrow> u64 \<Rightarrow> bool" where
  "contributes_at scored as_of_block \<longleftrightarrow> first_contributing_block scored as_of_block \<noteq> None"

section \<open>Serialisation\<close>

definition persist_account :: "account_score_state \<Rightarrow> persisted_account" where
  "persist_account v = \<lparr>pa_balance = show_nat (balance v), pa_last_block = show_nat (last_block v),
     pa_completed_numerator = show_nat (completed_numerator v),
     pa_active_segment_from = map_option show_nat (active_segment_from v),
     pa_active_integral = show_nat (active_integral v)\<rparr>"

definition persist_rate :: "rate_point \<Rightarrow> persisted_rate" where
  "persist_rate r = \<lparr>pr_from_block = show_nat (from_block r), pr_rate = show_nat (rate r)\<rparr>"

definition persist_token :: "token_state \<Rightarrow> persisted_token" where
  "persist_token t = \<lparr>pk_decimals = ts_decimals t, pk_cursor_block = show_nat (ts_cursor_block t),
     pk_cursor_block_hash = ts_cursor_block_hash t, pk_rates = map persist_rate (ts_rates t),
     pk_accounts = om_of (map (\<lambda>(a, v). (address_to_string a, persist_account v)) (ts_accounts t))\<rparr>"

definition serialize_state :: "checkpoint_state \<Rightarrow> persisted_checkpoint" where
  "serialize_state s = \<lparr>pc_schema_version = SCHEMA_VERSION, pc_chain_id = cs_chain_id s,
     pc_tokens = om_of (map (\<lambda>(a, t). (address_to_string a, persist_token t)) (cs_tokens s))\<rparr>"

definition dotted :: "address \<Rightarrow> string \<Rightarrow> string" where
  "dotted a name = address_to_string a @ ''.'' @ name"

definition parse_address :: "string \<Rightarrow> string \<Rightarrow> (checkpoint_error, address) result" where
  "parse_address what txt =
     bindR (ok_or (CpInvalid (''invalid '' @ what @ '' address '' @ txt)) (address_from_str txt)) (\<lambda>a.
       if address_to_string a \<noteq> to_ascii_lowercase txt
       then Err (CpInvalid (''non-canonical '' @ what @ '' address '' @ txt)) else Ok a)"

definition parse_rate :: "address \<Rightarrow> nat \<times> persisted_rate \<Rightarrow> (checkpoint_error, rate_point) result" where
  "parse_rate token ir =
     (let (index, r) = ir; name = dotted token (''rates['' @ show_nat index @ ''].'') in
      bindR (decimal_u64 (pr_from_block r) (name @ ''fromBlock'')) (\<lambda>fb.
      bindR (decimal (pr_rate r) (name @ ''rate'')) (\<lambda>v.
        Ok \<lparr>from_block = fb, rate = v\<rparr>)))"

definition parse_segment ::
  "address \<Rightarrow> address \<Rightarrow> rate_point list \<Rightarrow> persisted_account \<Rightarrow> (checkpoint_error, u64 option) result" where
  "parse_segment token account rates v =
     bindR (case pa_active_segment_from v of
              None \<Rightarrow> Ok None
            | Some raw \<Rightarrow> bindR (decimal_u64 raw (dotted token (dotted account ''activeSegmentFrom''))) (\<lambda>n. Ok (Some n)))
       (\<lambda>seg. case seg of
          Some fb \<Rightarrow> if \<not> list_ex (\<lambda>r. from_block r = fb) rates
             then Err (CpInvalid (''account '' @ address_to_string account @ '' references absent rate segment '' @ show_nat fb))
             else Ok seg
        | None \<Rightarrow> if pa_active_integral v \<noteq> ''0''
             then Err (CpInvalid (''account '' @ address_to_string account @ '' has inactive nonzero integral''))
             else Ok seg)"

definition parse_account ::
  "address \<Rightarrow> u64 \<Rightarrow> rate_point list \<Rightarrow> (address, account_score_state) btree_map \<Rightarrow> string \<times> persisted_account
    \<Rightarrow> (checkpoint_error, (address, account_score_state) btree_map) result" where
  "parse_account token cursor_block rates accounts kv =
     (let (account_text, v) = kv in
      bindR (parse_address ''account'' account_text) (\<lambda>account.
      bindR (decimal_u64 (pa_last_block v) (dotted token (dotted account ''lastBlock''))) (\<lambda>last.
      if last > cursor_block
      then Err (CpInvalid (''account '' @ address_to_string account @ '' is ahead of token cursor '' @ show_nat cursor_block))
      else bindR (parse_segment token account rates v) (\<lambda>seg.
           bindR (decimal (pa_balance v) (dotted token (dotted account ''balance''))) (\<lambda>bal.
           bindR (decimal (pa_completed_numerator v) (dotted token (dotted account ''completedNumerator''))) (\<lambda>num.
           bindR (decimal (pa_active_integral v) (dotted token (dotted account ''activeIntegral''))) (\<lambda>integral.
             Ok (om_insert account \<lparr>balance = bal, last_block = last, completed_numerator = num,
                   active_segment_from = seg, active_integral = integral\<rparr> accounts))))))))"

definition parse_token ::
  "(address, token_state) btree_map \<Rightarrow> string \<times> persisted_token \<Rightarrow> (checkpoint_error, (address, token_state) btree_map) result" where
  "parse_token tokens kv =
     (let (token_text, raw) = kv in
      bindR (parse_address ''token'' token_text) (\<lambda>token.
      if \<not> valid_hash (pk_cursor_block_hash raw)
      then Err (CpInvalid (''invalid cursor block hash for '' @ address_to_string token))
      else bindR (decimal_u64 (pk_cursor_block raw) (dotted token ''cursorBlock'')) (\<lambda>cursor_block.
      if cursor_block = 0 \<and> to_ascii_lowercase (pk_cursor_block_hash raw) \<noteq> to_ascii_lowercase ZERO_HASH
      then Err (CpInvalid (''nonzero genesis cursor hash for '' @ address_to_string token))
      else bindR (mapR (parse_rate token) (enumerate 0 (pk_rates raw))) (\<lambda>rates.
           bindR (map_errR core (validate_rates rates)) (\<lambda>_.
           bindR (foldR (parse_account token cursor_block rates) [] (pk_accounts raw)) (\<lambda>accounts.
             if map_of tokens token \<noteq> None
             then Err (CpInvalid (''duplicate token address '' @ address_to_string token))
             else Ok (om_insert token \<lparr>ts_decimals = pk_decimals raw, ts_cursor_block = cursor_block,
                    ts_cursor_block_hash = to_ascii_lowercase (pk_cursor_block_hash raw), ts_rates = rates,
                    ts_accounts = accounts\<rparr> tokens)))))))"

definition parse_state :: "persisted_checkpoint \<Rightarrow> (checkpoint_error, checkpoint_state) result" where
  "parse_state persisted =
     (if pc_schema_version persisted \<noteq> SCHEMA_VERSION
      then Err (CpInvalid (''unsupported schema version '' @ show_nat (pc_schema_version persisted)))
      else bindR (foldR parse_token [] (pc_tokens persisted)) (\<lambda>tokens.
             Ok \<lparr>cs_chain_id = pc_chain_id persisted, cs_tokens = tokens\<rparr>))"

section \<open>Authenticated files\<close>

text \<open>
  \<open>cleanupA m c\<close> runs \<open>c\<close> when \<open>m\<close> fails and \<open>finallyA m c\<close> runs it in every case, as the \<^verbatim>\<open>let _ = ...\<close>
  statements of error branches and the destructor of the lock guard do: the outcome of \<open>c\<close> is ignored.
\<close>

definition cleanupA :: "('w, 'e, 'a) act \<Rightarrow> ('w, 'f, 'b) act \<Rightarrow> ('w, 'e, 'a) act" where
  "cleanupA m c = (\<lambda>w. case m w of (Inl e, w') \<Rightarrow> (Inl e, snd (c w')) | (Inr x, w') \<Rightarrow> (Inr x, w'))"

definition finallyA :: "('w, 'e, 'a) act \<Rightarrow> ('w, 'f, 'b) act \<Rightarrow> ('w, 'e, 'a) act" where
  "finallyA m c = (\<lambda>w. case m w of (r, w') \<Rightarrow> (r, snd (c w')))"

definition authentication :: "checkpoint_codec \<Rightarrow> persisted_checkpoint \<Rightarrow> bytes \<Rightarrow> (checkpoint_error, bytes) result" where
  "authentication cc checkpoint integrity_key =
     bindR (ok_or (CpInvalid ''invalid HMAC key'') (cc_hmac cc integrity_key)) (\<lambda>mac.
       Ok (mac (cc_checkpoint_to_vec cc checkpoint)))"

definition supplied_authentication :: "string \<Rightarrow> bytes option" where
  "supplied_authentication txt =
     (case strip_prefix ''0x'' txt of
        Some v \<Rightarrow> if length v = 64 then hex_decode v else None
      | None \<Rightarrow> None)"

definition decode_checkpoint ::
  "checkpoint_codec \<Rightarrow> u64 \<Rightarrow> bytes \<Rightarrow> bytes \<Rightarrow> (checkpoint_error, checkpoint_state) result" where
  "decode_checkpoint cc expected_chain_id integrity_key bs =
     bindR (map_errR CpJson (cc_envelope_from_slice cc bs)) (\<lambda>envelope.
     bindR (ok_or (CpAuthentication ''missing or malformed HMAC'') (supplied_authentication (ac_authentication envelope)))
       (\<lambda>supplied.
     bindR (authentication cc (checkpoint_of envelope) integrity_key) (\<lambda>expected.
       if expected \<noteq> supplied then Err (CpAuthentication ''HMAC mismatch'')
       else bindR (parse_state (checkpoint_of envelope)) (\<lambda>state.
         if cs_chain_id state \<noteq> expected_chain_id
         then Err (CpInvalid (''checkpoint chain '' @ show_nat (cs_chain_id state) @ '' does not match RPC chain ''
                @ show_nat expected_chain_id))
         else Ok state))))"

definition load_checkpoint ::
  "('w, 'z) files_scheme \<Rightarrow> checkpoint_codec \<Rightarrow> string \<Rightarrow> u64 \<Rightarrow> bytes \<Rightarrow> ('w, checkpoint_error, checkpoint_state) act" where
  "load_checkpoint fs cc path expected_chain_id integrity_key =
     bindA (read_checkpoint_bytes_with_limit fs path MAX_CHECKPOINT_BYTES) (\<lambda>r.
       case r of
         None \<Rightarrow> retA \<lparr>cs_chain_id = expected_chain_id, cs_tokens = []\<rparr>
       | Some bs \<Rightarrow> liftR (decode_checkpoint cc expected_chain_id integrity_key bs))"

definition encode_checkpoint :: "checkpoint_codec \<Rightarrow> checkpoint_state \<Rightarrow> bytes \<Rightarrow> (checkpoint_error, bytes) result" where
  "encode_checkpoint cc state integrity_key =
     (let checkpoint = serialize_state state in
      bindR (authentication cc checkpoint integrity_key) (\<lambda>mac.
      let envelope = \<lparr>pc_schema_version = pc_schema_version checkpoint, pc_chain_id = pc_chain_id checkpoint,
                      pc_tokens = pc_tokens checkpoint, ac_authentication = ''0x'' @ hex_encode mac\<rparr>;
          bs = cc_envelope_to_vec cc envelope @ [10]
      in bindR (ensure_checkpoint_size (length bs) MAX_CHECKPOINT_BYTES) (\<lambda>_. Ok bs)))"

definition save_checkpoint ::
  "('w, 'z) files_scheme \<Rightarrow> checkpoint_codec \<Rightarrow> string \<Rightarrow> checkpoint_state \<Rightarrow> bytes \<Rightarrow> ('w, checkpoint_error, unit) act" where
  "save_checkpoint fs cc path state integrity_key =
     (let parent = fs_parent fs path in
      bindA (map_errA (CpIo parent) (fs_create_dir_all fs parent)) (\<lambda>_.
      bindA (liftR (encode_checkpoint cc state integrity_key)) (\<lambda>bs.
      bindA (getsA (fs_now_nanos fs)) (\<lambda>now.
      bindA (liftR (ok_or (CpInvalid ''system clock before Unix epoch'') now)) (\<lambda>nonce.
      let temporary = fs_with_extension fs path (show_nat (fs_process_id fs) @ ''.'' @ show_nat nonce @ ''.tmp'') in
      bindA (map_errA (CpIo temporary) (fs_create_new fs temporary)) (\<lambda>_.
      bindA (cleanupA (map_errA (CpIo temporary) (fs_write_sync fs temporary bs)) (fs_remove fs temporary)) (\<lambda>_.
      bindA (cleanupA (verify_checkpoint_bytes fs temporary bs) (fs_remove fs temporary)) (\<lambda>_.
      bindA (cleanupA (map_errA (CpIo path) (fs_rename fs temporary path)) (fs_remove fs temporary)) (\<lambda>_.
      bindA (map_errA (CpIo parent) (fs_sync_dir fs parent)) (\<lambda>_.
        verify_checkpoint_bytes fs path bs))))))))))"

section \<open>The lock\<close>

text \<open>A held lock is its path; dropping the guard removes the file and ignores the outcome.\<close>

record lock_guard =
  lg_path :: string

definition acquire :: "('w, 'z) files_scheme \<Rightarrow> string \<Rightarrow> ('w, checkpoint_error, lock_guard) act" where
  "acquire fs path =
     (let parent = fs_parent fs path in
      bindA (map_errA (CpIo parent) (fs_create_dir_all fs parent)) (\<lambda>_.
      bindA (tryA (fs_create_new fs path)) (\<lambda>r.
        case r of
          Inr _ \<Rightarrow>
            bindA (cleanupA (map_errA (CpIo path)
                     (fs_write_sync fs path (text_bytes (show_nat (fs_process_id fs) @ [CHR 0x0A])))) (fs_remove fs path)) (\<lambda>_.
              retA \<lparr>lg_path = path\<rparr>)
        | Inl IoAlreadyExists \<Rightarrow> failA (CpLocked path)
        | Inl e \<Rightarrow> failA (CpIo path e))))"

definition drop_lock :: "('w, 'z) files_scheme \<Rightarrow> lock_guard \<Rightarrow> ('w, io_error, unit) act" where
  "drop_lock fs lock = fs_remove fs (lg_path lock)"

end
