(* ===== verification/Score_Sources.thy ===== *)
theory Score_Sources
  imports Checkpoint
begin

text \<open>
  The score sources of \<^verbatim>\<open>offchain-rust/src/checkpoint.rs\<close>: the incremental replay of a token's transfers
  into its account states, the resumable checkpoint source with its lock and its commit, and the bulk source
  that replays a fixed claimant set from the first block that can earn score.
\<close>

section \<open>Replay of one token\<close>

definition validate_stored_token :: "token_state \<Rightarrow> scored_token \<Rightarrow> (checkpoint_error, unit) result" where
  "validate_stored_token stored current =
     (let name = address_to_string (st_token current); n = length (ts_rates stored) in
      if ts_decimals stored \<noteq> st_decimals current
      then Err (CpInvalid (''decimals mismatch for '' @ name @ '': '' @ show_nat (ts_decimals stored) @ '' != ''
             @ show_nat (st_decimals current)))
      else if length (st_rates current) < n then Err (CpInvalid (''rate history shrank for '' @ name))
      else case find (\<lambda>i. ts_rates stored ! i \<noteq> st_rates current ! i) [0..<n] of
        Some i \<Rightarrow> Err (CpInvalid (''rate history mismatch for '' @ name @ '' at index '' @ show_nat i))
      | None \<Rightarrow>
          failR_if (list_ex (\<lambda>r. from_block r \<le> ts_cursor_block stored) (drop n (st_rates current)))
            (CpInvalid (''new rate for '' @ name @ '' begins at/before checkpoint block '' @ show_nat (ts_cursor_block stored))))"

definition merge_metrics :: "log_metrics \<Rightarrow> log_metrics \<Rightarrow> log_metrics" where
  "merge_metrics l r =
     \<lparr>lm_requests = saturating_add64 (lm_requests l) (lm_requests r),
      lm_bisections = saturating_add64 (lm_bisections l) (lm_bisections r),
      lm_errors = saturating_add64 (lm_errors l) (lm_errors r),
      lm_elapsed_ms = saturating_add64 (lm_elapsed_ms l) (lm_elapsed_ms r)\<rparr>"

definition outflow_error :: "address \<Rightarrow> u64 \<Rightarrow> score_core_error \<Rightarrow> checkpoint_error" where
  "outflow_error a blk e =
     (case e of
        BalanceUnderflow _ \<Rightarrow>
          CpInvalid (''Transfer index produced negative balance for '' @ address_to_string a @ '' at block '' @ show_nat blk)
      | other \<Rightarrow> core other)"

definition account_of :: "(address, account_score_state) btree_map \<Rightarrow> address \<Rightarrow> account_score_state" where
  "account_of accounts a = (case map_of accounts a of Some s \<Rightarrow> s | None \<Rightarrow> default_account)"

definition apply_transfer_delta ::
  "rate_point list \<Rightarrow> address list option \<Rightarrow> token_state \<Rightarrow> address \<Rightarrow> u64 \<Rightarrow> biguint \<Rightarrow> bool
    \<Rightarrow> (checkpoint_error, token_state) result" where
  "apply_transfer_delta rates tracked token a blk v is_inflow =
     (if is_zero a \<or> (case tracked of None \<Rightarrow> False | Some accounts \<Rightarrow> a \<notin> set accounts) then Ok token
      else let account = account_of (ts_accounts token) a in
        bindR (if is_inflow
               then map_errR core (apply_transfer account blk v 0 rates (ts_decimals token))
               else map_errR (outflow_error a blk) (apply_transfer account blk 0 v rates (ts_decimals token))) (\<lambda>account'.
          Ok (token\<lparr>ts_accounts := om_insert a account' (ts_accounts token)\<rparr>)))"

definition apply_token_transfer ::
  "rate_point list \<Rightarrow> address list option \<Rightarrow> token_state \<Rightarrow> token_transfer \<Rightarrow> (checkpoint_error, token_state) result" where
  "apply_token_transfer rates tracked token transfer =
     bindR (apply_transfer_delta rates tracked token (tt_from transfer) (tt_block_number transfer) (tt_value transfer) False)
       (\<lambda>token'. apply_transfer_delta rates tracked token' (tt_to transfer) (tt_block_number transfer) (tt_value transfer) True)"

text \<open>\<^verbatim>\<open>usize::saturating_add\<close> on a 64-bit target is the saturating addition of \<^verbatim>\<open>u64\<close>.\<close>

record slice_replay =
  rs_token :: token_state
  rs_indexed :: nat
  rs_metrics :: log_metrics

definition slice_transfers ::
  "('w, 'z) rpc_scheme \<Rightarrow> events \<Rightarrow> address \<Rightarrow> address list option \<Rightarrow> u64 \<Rightarrow> u64 \<Rightarrow> u64 \<Rightarrow> nat
    \<Rightarrow> ('w, checkpoint_error, token_transfer list \<times> log_metrics) act" where
  "slice_transfers rpc ev token tracked slice_from slice_to max_range result_cap =
     map_errA CpChain (case tracked of
       Some accounts \<Rightarrow> erc20_transfers_for_accounts rpc ev token accounts slice_from slice_to max_range result_cap
     | None \<Rightarrow> erc20_transfers rpc ev token slice_from slice_to max_range result_cap)"

definition slice_end :: "u64 \<Rightarrow> u64 \<Rightarrow> u64 \<Rightarrow> u64" where
  "slice_end slice_from max_range target_block = min (saturating_add64 slice_from (max_range - 1)) target_block"

definition replay_slice ::
  "('w, 'z) rpc_scheme \<Rightarrow> events \<Rightarrow> scored_token \<Rightarrow> address list option \<Rightarrow> u64 \<Rightarrow> nat \<Rightarrow> u64 \<Rightarrow> u64
    \<Rightarrow> slice_replay \<Rightarrow> ('w, checkpoint_error, slice_replay) act" where
  "replay_slice rpc ev scored tracked max_range result_cap slice_from slice_to s =
     bindA (slice_transfers rpc ev (st_token scored) tracked slice_from slice_to max_range result_cap)
       (\<lambda>(transfers, slice_metrics).
     bindA (liftR (foldR (apply_token_transfer (st_rates scored) tracked) (rs_token s) transfers)) (\<lambda>token.
       retA \<lparr>rs_token = token, rs_indexed = saturating_add64 (rs_indexed s) (length transfers),
             rs_metrics = merge_metrics (rs_metrics s) slice_metrics\<rparr>))"

text \<open>
  The loop \<^verbatim>\<open>while slice_from <= target_block\<close>.  The next slice starts at \<^verbatim>\<open>slice_to.saturating_add(1)\<close>, so that at
  the last representable block the loop reads the same slice again and again: \<open>CpDiverges\<close>.
\<close>

function replay_slices ::
  "('w, 'z) rpc_scheme \<Rightarrow> events \<Rightarrow> scored_token \<Rightarrow> address list option \<Rightarrow> u64 \<Rightarrow> nat \<Rightarrow> u64 \<Rightarrow> u64
    \<Rightarrow> slice_replay \<Rightarrow> ('w, checkpoint_error, slice_replay) act" where
  "replay_slices rpc ev scored tracked max_range result_cap target_block slice_from s =
     (if slice_from \<le> target_block
      then let slice_to = slice_end slice_from max_range target_block; nxt = saturating_add64 slice_to 1 in
           bindA (replay_slice rpc ev scored tracked max_range result_cap slice_from slice_to s) (\<lambda>s'.
             if nxt > slice_from then replay_slices rpc ev scored tracked max_range result_cap target_block nxt s'
             else failA CpDiverges)
      else retA s)"
  by pat_completeness auto
termination
  by (relation "measure (\<lambda>(_, _, _, _, _, _, target_block, slice_from, _). Suc target_block - slice_from)") auto

declare replay_slices.simps [simp del]

definition advance_token ::
  "('w, 'z) rpc_scheme \<Rightarrow> events \<Rightarrow> scored_token \<Rightarrow> token_state \<Rightarrow> u64 \<Rightarrow> u64 \<Rightarrow> nat \<Rightarrow> address list option
    \<Rightarrow> ('w, checkpoint_error, token_state \<times> nat \<times> log_metrics) act" where
  "advance_token rpc ev scored token target_block max_range result_cap tracked =
     (if target_block < ts_cursor_block token
      then failA (CpInvalid (''checkpoint for '' @ address_to_string (st_token scored) @ '' is ahead of requested block ''
             @ show_nat target_block))
      else if target_block = ts_cursor_block token then retA (token, 0, default_log_metrics)
      else if max_range = 0 then failA (CpInvalid ''score replay max range must be nonzero'')
      else bindA (replay_slices rpc ev scored tracked max_range result_cap target_block (ts_cursor_block token + 1)
                    \<lparr>rs_token = token, rs_indexed = 0, rs_metrics = default_log_metrics\<rparr>) (\<lambda>s.
           bindA (map_errA CpChain (block_by_number rpc target_block)) (\<lambda>target.
             retA ((rs_token s)\<lparr>ts_cursor_block := target_block, ts_cursor_block_hash := ba_hash target,
                     ts_rates := st_rates scored\<rparr>, rs_indexed s, rs_metrics s))))"

section \<open>The checkpoint source\<close>

record checkpoint_score_source =
  css_config :: incident_config
  css_as_of_block :: u64
  css_state :: checkpoint_state
  css_lock :: lock_guard
  css_metadata :: checkpoint_metadata

record index_progress =
  ip_tokens :: "(address, token_state) btree_map"
  ip_indexed :: nat
  ip_metrics :: log_metrics

definition initial_token_state :: "scored_token \<Rightarrow> token_state" where
  "initial_token_state scored = \<lparr>ts_decimals = st_decimals scored, ts_cursor_block = 0, ts_cursor_block_hash = ZERO_HASH,
     ts_rates = st_rates scored, ts_accounts = []\<rparr>"

text \<open>The token as loaded, after its checks against the chain and the configuration, or a new one.\<close>

definition resume_token ::
  "('w, 'z) rpc_scheme \<Rightarrow> (address, token_state) btree_map \<Rightarrow> scored_token \<Rightarrow> ('w, checkpoint_error, token_state) act" where
  "resume_token rpc tokens scored =
     (case map_of tokens (st_token scored) of
        None \<Rightarrow> retA (initial_token_state scored)
      | Some stored \<Rightarrow>
          bindA (liftR (validate_stored_token stored scored)) (\<lambda>_.
          if ts_cursor_block stored = 0 then retA stored
          else bindA (map_errA CpChain (block_by_number rpc (ts_cursor_block stored))) (\<lambda>anchor.
                 if to_ascii_lowercase (ba_hash anchor) \<noteq> to_ascii_lowercase (ts_cursor_block_hash stored)
                 then failA (CpInvalid (''checkpoint block hash mismatch for '' @ address_to_string (st_token scored)
                        @ '' at '' @ show_nat (ts_cursor_block stored) @ '': '' @ ts_cursor_block_hash stored
                        @ '' != '' @ ba_hash anchor))
                 else retA stored)))"

definition index_token ::
  "('w, 'z) rpc_scheme \<Rightarrow> events \<Rightarrow> u64 \<Rightarrow> u64 \<Rightarrow> nat \<Rightarrow> index_progress \<Rightarrow> scored_token
    \<Rightarrow> ('w, checkpoint_error, index_progress) act" where
  "index_token rpc ev as_of_block max_range result_cap p scored =
     bindA (liftR (map_errR core (validate_rates (st_rates scored)))) (\<lambda>_.
     bindA (resume_token rpc (ip_tokens p) scored) (\<lambda>token.
     bindA (advance_token rpc ev scored token as_of_block max_range result_cap None) (\<lambda>(token', n, metrics).
       retA \<lparr>ip_tokens = om_insert (st_token scored) token' (ip_tokens p), ip_indexed = saturating_add64 (ip_indexed p) n,
             ip_metrics = merge_metrics (ip_metrics p) metrics\<rparr>)))"

definition check_chain :: "('w, 'z) rpc_scheme \<Rightarrow> u64 \<Rightarrow> ('w, checkpoint_error, unit) act" where
  "check_chain rpc expected_chain_id =
     bindA (map_errA CpChain (chain_id rpc)) (\<lambda>actual.
       guardA (actual \<noteq> expected_chain_id)
         (CpInvalid (''RPC chain '' @ show_nat actual @ '' does not match expected chain '' @ show_nat expected_chain_id)))"

definition checkpoint_open_locked ::
  "('w, 'z) rpc_scheme \<Rightarrow> events \<Rightarrow> ('w, 'y) files_scheme \<Rightarrow> checkpoint_codec \<Rightarrow> incident_config \<Rightarrow> u64 \<Rightarrow> string \<Rightarrow> u64
    \<Rightarrow> bytes \<Rightarrow> u64 \<Rightarrow> nat \<Rightarrow> lock_guard \<Rightarrow> ('w, checkpoint_error, checkpoint_score_source) act" where
  "checkpoint_open_locked rpc ev fs cc config as_of_block path expected_chain_id integrity_key max_range result_cap lock =
     bindA (check_chain rpc expected_chain_id) (\<lambda>_.
     bindA (load_checkpoint fs cc path expected_chain_id integrity_key) (\<lambda>state.
     let active = filter (\<lambda>scored. contributes_at scored as_of_block) (ic_scored_tokens config) in
     bindA (foldA (index_token rpc ev as_of_block max_range result_cap)
              \<lparr>ip_tokens = cs_tokens state, ip_indexed = 0, ip_metrics = default_log_metrics\<rparr> active) (\<lambda>p.
     bindA (map_errA CpChain (block_by_number rpc as_of_block)) (\<lambda>anchor.
       retA \<lparr>css_config = config, css_as_of_block = as_of_block, css_state = state\<lparr>cs_tokens := ip_tokens p\<rparr>,
             css_lock = lock,
             css_metadata = \<lparr>cm_path = path, cm_as_of_block = as_of_block, cm_as_of_block_hash = ba_hash anchor,
               cm_indexed_transfers = ip_indexed p, cm_indexed_tokens = length active, cm_log_metrics = ip_metrics p\<rparr>\<rparr>))))"

definition short_key_error :: checkpoint_error where
  "short_key_error = CpInvalid ''integrity key must be at least 32 bytes''"

text \<open>Once the lock is taken, every error drops it.\<close>

definition checkpoint_open ::
  "('w, 'z) rpc_scheme \<Rightarrow> events \<Rightarrow> ('w, 'y) files_scheme \<Rightarrow> checkpoint_codec \<Rightarrow> incident_config \<Rightarrow> u64 \<Rightarrow> string \<Rightarrow> u64
    \<Rightarrow> bytes \<Rightarrow> u64 \<Rightarrow> nat \<Rightarrow> ('w, checkpoint_error, checkpoint_score_source) act" where
  "checkpoint_open rpc ev fs cc config as_of_block checkpoint_path expected_chain_id integrity_key max_range result_cap =
     bindA (guardA (length integrity_key < 32) short_key_error) (\<lambda>_.
     bindA (map_errA (CpIo ''.'') (fs_absolute fs checkpoint_path)) (\<lambda>path.
     bindA (acquire fs (lock_path_for_checkpoint path)) (\<lambda>lock.
       cleanupA (checkpoint_open_locked rpc ev fs cc config as_of_block path expected_chain_id integrity_key max_range result_cap lock)
         (drop_lock fs lock))))"

text \<open>\<^verbatim>\<open>commit\<close> consumes the source, and its lock with it.\<close>

definition commit ::
  "('w, 'y) files_scheme \<Rightarrow> checkpoint_codec \<Rightarrow> bytes \<Rightarrow> checkpoint_score_source \<Rightarrow> ('w, checkpoint_error, unit) act" where
  "commit fs cc integrity_key source =
     finallyA
       (if length integrity_key < 32 then failA short_key_error
        else save_checkpoint fs cc (cm_path (css_metadata source)) (css_state source) integrity_key)
       (drop_lock fs (css_lock source))"

definition missing_token :: "scored_token \<Rightarrow> checkpoint_error" where
  "missing_token scored = CpInvalid (''missing token '' @ address_to_string (st_token scored))"

definition balance_semantics_error :: "address \<Rightarrow> address \<Rightarrow> u64 \<Rightarrow> biguint \<Rightarrow> biguint \<Rightarrow> checkpoint_error" where
  "balance_semantics_error token user as_of_block indexed_bal actual =
     CpInvalid (''unsupported token balance semantics for '' @ address_to_string token @ '': indexed balance ''
       @ show_nat indexed_bal @ '', balanceOf('' @ address_to_string user @ '') at block '' @ show_nat as_of_block
       @ '' is '' @ show_nat actual)"

definition checkpoint_score_step ::
  "('w, 'z) rpc_scheme \<Rightarrow> abi \<Rightarrow> checkpoint_score_source \<Rightarrow> address \<Rightarrow> biguint \<Rightarrow> scored_token
    \<Rightarrow> ('w, checkpoint_error, biguint) act" where
  "checkpoint_score_step rpc abi source user numerator scored =
     (if \<not> contributes_at scored (css_as_of_block source) then retA numerator
      else bindA (liftR (ok_or (missing_token scored) (map_of (cs_tokens (css_state source)) (st_token scored)))) (\<lambda>token.
           let account = account_of (ts_accounts token) user in
           bindA (map_errA CpChain (balance_of_at rpc abi (st_token scored) user (css_as_of_block source))) (\<lambda>actual.
             if actual \<noteq> balance account
             then failA (balance_semantics_error (st_token scored) user (css_as_of_block source) (balance account) actual)
             else bindA (liftR (map_errR core (projected_numerator account (css_as_of_block source) (st_rates scored)
                                  (st_decimals scored)))) (\<lambda>n. retA (numerator + n)))))"

definition checkpoint_gross_score_of ::
  "('w, 'z) rpc_scheme \<Rightarrow> abi \<Rightarrow> checkpoint_score_source \<Rightarrow> address \<Rightarrow> ('w, checkpoint_error, biguint) act" where
  "checkpoint_gross_score_of rpc abi source user =
     bindA (foldA (checkpoint_score_step rpc abi source user) 0 (ic_scored_tokens (css_config source))) (\<lambda>numerator.
       retA (gross_score numerator))"

section \<open>The bulk source\<close>

record bulk_score_source =
  bss_config :: incident_config
  bss_as_of_block :: u64
  bss_state :: checkpoint_state
  bss_tracked_accounts :: "address list"
  bss_metadata :: bulk_metadata

record bulk_progress = index_progress +
  bp_indexed_tokens :: "address list"

definition bulk_start_accounts ::
  "('w, 'z) rpc_scheme \<Rightarrow> abi \<Rightarrow> address \<Rightarrow> u64 \<Rightarrow> address list
    \<Rightarrow> ('w, checkpoint_error, (address, account_score_state) btree_map) act" where
  "bulk_start_accounts rpc abi token scoring_start tracked =
     foldA (\<lambda>m user.
       bindA (map_errA CpChain (balance_of_at rpc abi token user scoring_start)) (\<lambda>b.
         retA (om_insert user (default_account\<lparr>balance := b, last_block := scoring_start\<rparr>) m))) [] tracked"

definition bulk_index_token ::
  "('w, 'z) rpc_scheme \<Rightarrow> abi \<Rightarrow> events \<Rightarrow> u64 \<Rightarrow> address list \<Rightarrow> u64 \<Rightarrow> nat \<Rightarrow> bulk_progress \<Rightarrow> scored_token
    \<Rightarrow> ('w, checkpoint_error, bulk_progress) act" where
  "bulk_index_token rpc abi ev as_of_block tracked max_range result_cap p scored =
     (let name = address_to_string (st_token scored) in
      bindA (liftR (map_errR core (validate_rates (st_rates scored)))) (\<lambda>_.
      if st_token scored \<in> set (bp_indexed_tokens p)
      then bindA (liftR (ok_or (CpInvalid (''bulk token '' @ name @ '' disappeared'')) (map_of (ip_tokens p) (st_token scored))))
             (\<lambda>stored.
               if ts_decimals stored \<noteq> st_decimals scored \<or> ts_rates stored \<noteq> st_rates scored
               then failA (CpInvalid (''conflicting duplicate scored-token configuration for '' @ name))
               else retA p)
      else bindA (liftR (ok_or (CpInvalid (''bulk token '' @ name @ '' has no contributing rate segment''))
                    (first_contributing_block scored as_of_block))) (\<lambda>scoring_start.
           bindA (bulk_start_accounts rpc abi (st_token scored) scoring_start tracked) (\<lambda>accounts.
           bindA (advance_token rpc ev scored
                    \<lparr>ts_decimals = st_decimals scored, ts_cursor_block = scoring_start, ts_cursor_block_hash = ZERO_HASH,
                     ts_rates = st_rates scored, ts_accounts = accounts\<rparr> as_of_block max_range result_cap (Some tracked))
                 (\<lambda>(token, n, metrics).
             retA \<lparr>ip_tokens = om_insert (st_token scored) token (ip_tokens p),
                   ip_indexed = saturating_add64 (ip_indexed p) n, ip_metrics = merge_metrics (ip_metrics p) metrics,
                   bp_indexed_tokens = insort (st_token scored) (bp_indexed_tokens p)\<rparr>)))))"

definition check_indexed_balance ::
  "('w, 'z) rpc_scheme \<Rightarrow> abi \<Rightarrow> u64 \<Rightarrow> address \<Rightarrow> token_state \<Rightarrow> address \<Rightarrow> ('w, checkpoint_error, unit) act" where
  "check_indexed_balance rpc abi as_of_block token_address token user =
     (let indexed_bal = (case map_of (ts_accounts token) user of None \<Rightarrow> 0 | Some account \<Rightarrow> balance account) in
      bindA (map_errA CpChain (balance_of_at rpc abi token_address user as_of_block)) (\<lambda>actual.
        guardA (actual \<noteq> indexed_bal) (balance_semantics_error token_address user as_of_block indexed_bal actual)))"

definition check_indexed_token ::
  "('w, 'z) rpc_scheme \<Rightarrow> abi \<Rightarrow> u64 \<Rightarrow> address list \<Rightarrow> (address, token_state) btree_map \<Rightarrow> address
    \<Rightarrow> ('w, checkpoint_error, unit) act" where
  "check_indexed_token rpc abi as_of_block tracked tokens token_address =
     bindA (liftR (ok_or (CpInvalid (''missing token '' @ address_to_string token_address)) (map_of tokens token_address)))
       (\<lambda>token. bindA (mapA (check_indexed_balance rpc abi as_of_block token_address token) tracked) (\<lambda>_. retA ()))"

definition bulk_open ::
  "('w, 'z) rpc_scheme \<Rightarrow> abi \<Rightarrow> events \<Rightarrow> incident_config \<Rightarrow> u64 \<Rightarrow> address list \<Rightarrow> u64 \<Rightarrow> u64 \<Rightarrow> nat
    \<Rightarrow> ('w, checkpoint_error, bulk_score_source) act" where
  "bulk_open rpc abi ev config as_of_block tracked expected_chain_id max_range result_cap =
     bindA (guardA (list_ex is_zero tracked) (CpInvalid ''bulk score claimant set contains the zero address'')) (\<lambda>_.
     bindA (check_chain rpc expected_chain_id) (\<lambda>_.
     bindA (foldA (bulk_index_token rpc abi ev as_of_block tracked max_range result_cap)
              \<lparr>ip_tokens = [], ip_indexed = 0, ip_metrics = default_log_metrics, bp_indexed_tokens = []\<rparr>
              (filter (\<lambda>scored. contributes_at scored as_of_block) (ic_scored_tokens config))) (\<lambda>p.
     bindA (mapA (check_indexed_token rpc abi as_of_block tracked (ip_tokens p)) (bp_indexed_tokens p)) (\<lambda>_.
     bindA (map_errA CpChain (block_by_number rpc as_of_block)) (\<lambda>anchor.
       retA \<lparr>bss_config = config, bss_as_of_block = as_of_block,
             bss_state = \<lparr>cs_chain_id = expected_chain_id, cs_tokens = ip_tokens p\<rparr>,
             bss_tracked_accounts = tracked,
             bss_metadata = \<lparr>bm_as_of_block = as_of_block, bm_as_of_block_hash = ba_hash anchor,
               bm_indexed_transfers = ip_indexed p, bm_indexed_tokens = length (bp_indexed_tokens p),
               bm_tracked_accounts = length tracked, bm_log_metrics = ip_metrics p\<rparr>\<rparr>)))))"

definition bulk_score_step ::
  "bulk_score_source \<Rightarrow> address \<Rightarrow> biguint \<Rightarrow> scored_token \<Rightarrow> (checkpoint_error, biguint) result" where
  "bulk_score_step source user numerator scored =
     (if \<not> contributes_at scored (bss_as_of_block source) then Ok numerator
      else bindR (ok_or (missing_token scored) (map_of (cs_tokens (bss_state source)) (st_token scored))) (\<lambda>token.
           let account = account_of (ts_accounts token) user in
           bindR (map_errR core (projected_numerator account (bss_as_of_block source) (st_rates scored) (st_decimals scored)))
             (\<lambda>n. Ok (numerator + n))))"

definition bulk_gross_score_of :: "bulk_score_source \<Rightarrow> address \<Rightarrow> (checkpoint_error, biguint) result" where
  "bulk_gross_score_of source user =
     (if user \<notin> set (bss_tracked_accounts source)
      then Err (CpInvalid (''bulk score requested for untracked claimant '' @ address_to_string user))
      else bindR (foldR (bulk_score_step source user) 0 (ic_scored_tokens (bss_config source))) (\<lambda>numerator.
             Ok (gross_score numerator)))"

end
