(* ===== verification/Checkpoint_Spec.thy ===== *)
theory Checkpoint_Spec
  imports Checkpoint
begin

text \<open>
  The checkpoint's file format and its lock: what a saved state reads back as, that a failing save never leaves a
  torn file behind, and that at most one process holds the lock.
\<close>

section \<open>Maps through their serialised form\<close>

lemma map_of_rev_distinct: "distinct (map fst kvs) \<Longrightarrow> map_of (rev kvs) = map_of kvs"
  by (intro map_of_eqI) (auto simp: rev_map [symmetric] map_of_eq_Some_iff)

lemma om_of_id: "om_wf m \<Longrightarrow> om_of m = m"
  by (rule om_extensional) (simp_all add: om_of_wf om_of_get om_wf_distinct map_of_rev_distinct)

lemma mset_om_of:
  assumes "distinct (map fst kvs)"
  shows "mset (om_of kvs) = mset kvs"
proof -
  have d: "distinct (map fst (om_of kvs))" by (rule om_wf_distinct [OF om_of_wf])
  have "map_of (om_of kvs) = map_of kvs"
    using map_of_rev_distinct [OF assms] by (simp add: fun_eq_iff om_of_get)
  then have "set (om_of kvs) = set kvs" by (metis assms d map_of_eq_Some_iff subrelI subset_antisym)
  then show ?thesis
    using d assms by (metis distinct_map set_eq_iff_mset_eq_distinct)
qed

lemma mset_map_preimage: "mset ys = mset (map g xs) \<Longrightarrow> \<exists>zs. mset zs = mset xs \<and> ys = map g zs"
proof (induction ys arbitrary: xs)
  case (Cons y ys)
  then obtain x where "x \<in> set xs" "y = g x" by (metis ex_map_conv list.set_intros(1) mset_eq_setD imageE set_map)
  then obtain a b where xs: "xs = a @ x # b" by (metis split_list)
  with Cons.prems \<open>y = g x\<close> have "mset ys = mset (map g (a @ b))" by simp
  with Cons.IH obtain zs where "mset zs = mset (a @ b)" "ys = map g zs" by blast
  then show ?case using xs \<open>y = g x\<close> by (intro exI [of _ "x # zs"]) simp
qed simp

text \<open>
  Reading back a map that was written under injective text keys: the entries come in the order of the texts, and
  inserting them again rebuilds the map.
\<close>

lemma foldR_inserts:
  assumes "om_wf acc" "distinct (map fst kvs)" "fst ` set acc \<inter> fst ` set kvs = {}"
    "\<And>k v acc. (k, v) \<in> set kvs \<Longrightarrow> om_wf acc \<Longrightarrow> map_of acc k = None \<Longrightarrow> step acc (g (k, v)) = Ok (om_insert k v acc)"
  shows "foldR step acc (map g kvs) = Ok (fold (\<lambda>(k, v). om_insert k v) kvs acc)"
  using assms
proof (induction kvs arbitrary: acc)
  case (Cons kv kvs)
  obtain k v where kv: "kv = (k, v)" by (cases kv)
  have "map_of acc k = None" using Cons.prems(3) kv by (auto simp: map_of_eq_None_iff)
  then have "step acc (g (k, v)) = Ok (om_insert k v acc)" using Cons.prems(1,4) kv by simp
  moreover have "fst ` set (om_insert k v acc) \<inter> fst ` set kvs = {}"
    using Cons.prems(2,3) kv om_insert_keys [of k v acc] by auto
  ultimately show ?case
    using Cons.IH [of "om_insert k v acc"] Cons.prems kv by (simp add: om_wf_insert)
qed simp

lemma foldR_readback:
  assumes "om_wf m" "inj_on ks (fst ` set m)"
    "\<And>k v acc. (k, v) \<in> set m \<Longrightarrow> om_wf acc \<Longrightarrow> map_of acc k = None \<Longrightarrow> step acc (ks k, pv v) = Ok (om_insert k v acc)"
  shows "foldR step [] (om_of (map (\<lambda>(k, v). (ks k, pv v)) m)) = Ok m"
proof -
  let ?g = "\<lambda>(k, v). (ks k, pv v)"
  have keys: "map fst (map ?g m) = map ks (map fst m)" by auto
  have "distinct (map fst (map ?g m))"
    unfolding keys using assms(1,2) by (metis distinct_map om_wf_distinct set_map)
  from mset_map_preimage [OF mset_om_of [OF this]]
  obtain m' where m': "mset m' = mset m" "om_of (map ?g m) = map ?g m'" by blast
  then have d: "distinct (map fst m')" by (metis assms(1) mset_eq_imp_distinct_iff mset_map om_wf_distinct)
  have "foldR step [] (map ?g m') = Ok (om_of m')"
    unfolding om_of_def
  proof (rule foldR_inserts [OF _ d])
    show "step acc (?g (k, v)) = Ok (om_insert k v acc)"
      if "(k, v) \<in> set m'" "om_wf acc" "map_of acc k = None" for k v acc
      using that assms(3) mset_eq_setD [OF m'(1)] by simp
  qed simp_all
  also have "om_of m' = m" using om_of_perm [OF d m'(1)] om_of_id [OF assms(1)] by simp
  finally show ?thesis using m'(2) by simp
qed

section \<open>The persisted form\<close>

text \<open>
  The invariant of a checkpoint state.  Every field fits its machine type, hashes are canonical, the rates ascend,
  no account is ahead of its token's cursor, and an account integrates a segment of the stored rate history.
\<close>

definition valid_account :: "u64 \<Rightarrow> rate_point list \<Rightarrow> account_score_state \<Rightarrow> bool" where
  "valid_account cursor rates s \<longleftrightarrow> last_block s \<le> cursor
     \<and> (case active_segment_from s of None \<Rightarrow> active_integral s = 0 | Some fb \<Rightarrow> fb \<in> from_block ` set rates)"

definition valid_accounts :: "u64 \<Rightarrow> rate_point list \<Rightarrow> (address, account_score_state) btree_map \<Rightarrow> bool" where
  "valid_accounts cursor rates m \<longleftrightarrow> om_wf m \<and> (\<forall>(a, s) \<in> set m. wf_address a \<and> valid_account cursor rates s)"

definition valid_token :: "token_state \<Rightarrow> bool" where
  "valid_token t \<longleftrightarrow> ts_cursor_block t \<le> u64_max \<and> valid_hash (ts_cursor_block_hash t)
     \<and> to_ascii_lowercase (ts_cursor_block_hash t) = ts_cursor_block_hash t
     \<and> (ts_cursor_block t = 0 \<longrightarrow> ts_cursor_block_hash t = ZERO_HASH)
     \<and> rates_ascending (ts_rates t) \<and> (\<forall>r \<in> set (ts_rates t). from_block r \<le> u64_max)
     \<and> valid_accounts (ts_cursor_block t) (ts_rates t) (ts_accounts t)"

definition valid_tokens :: "(address, token_state) btree_map \<Rightarrow> bool" where
  "valid_tokens m \<longleftrightarrow> om_wf m \<and> (\<forall>(a, t) \<in> set m. wf_address a \<and> valid_token t)"

definition valid_state :: "checkpoint_state \<Rightarrow> bool" where
  "valid_state s \<longleftrightarrow> valid_tokens (cs_tokens s)"

lemma decimal_show_nat [simp]: "decimal (show_nat n) field = Ok n"
proof -
  have "\<not> (length (show_nat n) > 1 \<and> hd (show_nat n) = CHR ''0'')"
    by (subst show_nat_no_leading_zero) (auto simp: show_nat.simps)
  then show ?thesis by (simp add: decimal_def show_nat_digits)
qed

lemma decimal_u64_show_nat: "n \<le> u64_max \<Longrightarrow> decimal_u64 (show_nat n) field = Ok n"
  by (simp add: decimal_u64_def)

lemma parse_address_text: "wf_address a \<Longrightarrow> parse_address what (address_to_string a) = Ok a"
  using address_canonical [OF address_roundtrip] by (simp add: parse_address_def address_roundtrip)

lemma parse_rates_persist:
  "\<forall>r \<in> set rates. from_block r \<le> u64_max \<Longrightarrow>
     mapR (parse_rate token) (enumerate n (map persist_rate rates)) = Ok rates"
  by (induction rates arbitrary: n) (auto simp: parse_rate_def persist_rate_def Let_def decimal_u64_show_nat)

lemma parse_account_persist:
  assumes "wf_address a" "valid_account cursor rates s" "cursor \<le> u64_max" "\<forall>r \<in> set rates. from_block r \<le> u64_max"
  shows "parse_account token cursor rates acc (address_to_string a, persist_account s) = Ok (om_insert a s acc)"
proof -
  have "show_nat 0 = ''0''" by code_simp
  then have "parse_segment token a rates (persist_account s) = Ok (active_segment_from s)"
    using assms(2,4)
    by (auto simp: parse_segment_def persist_account_def valid_account_def list_ex_iff decimal_u64_show_nat
        split: option.splits)
  then show ?thesis
    using assms
    by (cases s) (simp add: parse_account_def parse_address_text decimal_u64_show_nat persist_account_def valid_account_def)
qed

lemma lower_ZERO_HASH: "to_ascii_lowercase ZERO_HASH = ZERO_HASH"
  by code_simp

lemma parse_token_persist:
  assumes "wf_address a" "valid_token t" "map_of acc a = None"
  shows "parse_token acc (address_to_string a, persist_token t) = Ok (om_insert a t acc)"
proof -
  have rates: "validate_rates (ts_rates t) = Ok ()" using assms(2) by (simp add: valid_token_def validate_rates_iff)
  have accounts: "foldR (parse_account a (ts_cursor_block t) (ts_rates t)) []
      (om_of (map (\<lambda>(a, v). (address_to_string a, persist_account v)) (ts_accounts t))) = Ok (ts_accounts t)"
    by (rule foldR_readback)
      (use assms(2) in \<open>auto simp: valid_token_def valid_accounts_def inj_on_def address_to_string_inj intro!: parse_account_persist\<close>)
  have "mapR (parse_rate a) (enumerate 0 (map persist_rate (ts_rates t))) = Ok (ts_rates t)"
    by (rule parse_rates_persist) (use assms(2) in \<open>simp add: valid_token_def\<close>)
  then show ?thesis
    using assms rates accounts
    by (cases t) (auto simp: parse_token_def parse_address_text persist_token_def valid_token_def decimal_u64_show_nat
        lower_ZERO_HASH)
qed

lemma parse_serialize: "valid_state s \<Longrightarrow> parse_state (serialize_state s) = Ok s"
proof -
  assume s: "valid_state s"
  have "foldR parse_token [] (om_of (map (\<lambda>(a, t). (address_to_string a, persist_token t)) (cs_tokens s))) = Ok (cs_tokens s)"
    by (rule foldR_readback)
      (use s in \<open>auto simp: valid_state_def valid_tokens_def inj_on_def address_to_string_inj intro!: parse_token_persist\<close>)
  then show ?thesis by (simp add: parse_state_def serialize_state_def)
qed

text \<open>Conversely, whatever the parser accepts satisfies the invariant.\<close>

lemma decimal_u64_bound: "decimal_u64 v field = Ok n \<Longrightarrow> n \<le> u64_max"
  by (auto simp: decimal_u64_def split: if_splits)

lemma parse_address_wf: "parse_address what raw = Ok a \<Longrightarrow> wf_address a"
  by (auto simp: parse_address_def ok_or_def address_from_str_wf split: if_splits option.splits)

lemma parse_account_valid:
  assumes "parse_account token cursor rates acc kv = Ok acc'" "valid_accounts cursor rates acc"
  shows "valid_accounts cursor rates acc'"
proof -
  obtain raw v where kv: "kv = (raw, v)" by (cases kv)
  from assms(1) obtain a l seg bal num integral where a: "parse_address ''account'' raw = Ok a"
    and l: "\<not> cursor < l" and seg: "parse_segment token a rates v = Ok seg"
    and integral: "decimal (pa_active_integral v) (dotted token (dotted a ''activeIntegral'')) = Ok integral"
    and acc': "Ok (om_insert a \<lparr>balance = bal, last_block = l, completed_numerator = num,
                   active_segment_from = seg, active_integral = integral\<rparr> acc) = (Ok acc' :: (checkpoint_error, _) result)"
    unfolding parse_account_def kv Let_def prod.case
    by (elim bindR_OkE) (simp split: if_splits, elim bindR_OkE, blast)
  let ?s = "\<lparr>balance = bal, last_block = l, completed_numerator = num, active_segment_from = seg, active_integral = integral\<rparr>"
  have "decimal ''0'' f = Ok 0" for f by (simp add: decimal_def is_ascii_digit_def decimal_value_def digit_val_def)
  then have "valid_account cursor rates ?s"
    using seg integral l by (auto simp: parse_segment_def valid_account_def list_ex_iff split: option.splits if_splits)
  then show ?thesis
    using parse_address_wf [OF a] assms(2) acc' om_insert_subset [of a ?s acc]
    by (auto simp: valid_accounts_def om_wf_insert)
qed

lemma foldR_invariant:
  assumes "foldR f s xs = Ok s'" "I s" "\<And>s x s'. I s \<Longrightarrow> f s x = Ok s' \<Longrightarrow> I s'"
  shows "I s'"
  using assms(1,2) by (induction xs arbitrary: s) (auto dest: assms(3))

lemma parse_rates_bound:
  "mapR (parse_rate token) irs = Ok rates \<Longrightarrow> \<forall>r \<in> set rates. from_block r \<le> u64_max"
proof (induction irs arbitrary: rates)
  case (Cons ir irs)
  have "from_block r \<le> u64_max" if r: "parse_rate token ir = Ok r" for r
  proof -
    from r obtain fb v name where "decimal_u64 v name = Ok fb" "r = \<lparr>from_block = fb, rate = rate r\<rparr>"
      by (auto simp: parse_rate_def Let_def split: prod.splits)
    then show ?thesis using decimal_u64_bound by (metis rate_point.select_convs(1))
  qed
  with Cons show ?case by auto
qed simp

lemma valid_hash_lower: "valid_hash h \<Longrightarrow> valid_hash (to_ascii_lowercase h)"
proof -
  assume h: "valid_hash h"
  have "hex_val (hd (to_ascii_lowercase [c])) \<noteq> None" if "hex_val c \<noteq> None" for c
    using that hex_char_lower hex_val_less by force
  then have "list_all (\<lambda>c. hex_val c \<noteq> None) (to_ascii_lowercase (drop 2 h))"
    using h by (auto simp: valid_hash_def to_ascii_lowercase_def list_all_iff)
  moreover have "h = ''0x'' @ drop 2 h" using h by (metis append_take_drop_id valid_hash_def)
  then have "to_ascii_lowercase h = ''0x'' @ to_ascii_lowercase (drop 2 h)" by (metis append_Cons append_Nil lower_0x)
  moreover have "length (to_ascii_lowercase h) = length h" by (simp add: to_ascii_lowercase_def)
  ultimately show ?thesis using h by (simp add: valid_hash_def)
qed

lemma lower_lower [simp]: "to_ascii_lowercase (to_ascii_lowercase s) = to_ascii_lowercase s"
  by (simp add: to_ascii_lowercase_def comp_def Let_def of_char_of)

lemma parse_token_valid:
  assumes "parse_token acc kv = Ok acc'" "valid_tokens acc"
  shows "valid_tokens acc'"
proof -
  obtain raw v where kv: "kv = (raw, v)" by (cases kv)
  from assms(1) obtain a cursor rates accounts where a: "parse_address ''token'' raw = Ok a"
    and h: "valid_hash (pk_cursor_block_hash v)" and c: "decimal_u64 (pk_cursor_block v) (dotted a ''cursorBlock'') = Ok cursor"
    and z: "\<not> (cursor = 0 \<and> to_ascii_lowercase (pk_cursor_block_hash v) \<noteq> to_ascii_lowercase ZERO_HASH)"
    and rates: "mapR (parse_rate a) (enumerate 0 (pk_rates v)) = Ok rates" "map_errR core (validate_rates rates) = Ok ()"
    and accs: "foldR (parse_account a cursor rates) [] (pk_accounts v) = Ok accounts"
    and acc': "Ok (om_insert a \<lparr>ts_decimals = pk_decimals v, ts_cursor_block = cursor,
                    ts_cursor_block_hash = to_ascii_lowercase (pk_cursor_block_hash v), ts_rates = rates,
                    ts_accounts = accounts\<rparr> acc) = (Ok acc' :: (checkpoint_error, _) result)"
      (is "Ok (om_insert a ?t acc) = _")
    unfolding parse_token_def kv Let_def prod.case
    by (elim bindR_OkE) (simp split: if_splits, (elim bindR_OkE, simp split: if_splits)+)
  have "valid_accounts cursor rates accounts"
    by (rule foldR_invariant [OF accs, where I = "valid_accounts cursor rates"])
      (auto simp: valid_accounts_def [of _ _ "[]"] intro: parse_account_valid)
  moreover have "validate_rates rates = Ok ()" using rates(2) by (simp add: map_errR_def split: sum.splits)
  ultimately have "valid_token ?t"
    using valid_hash_lower [OF h] decimal_u64_bound [OF c] z parse_rates_bound [OF rates(1)]
    by (auto simp: valid_token_def lower_ZERO_HASH validate_rates_iff)
  then show ?thesis using parse_address_wf [OF a] assms(2) om_insert_subset [of a ?t acc] acc'
    by (auto simp: valid_tokens_def om_wf_insert)
qed

lemma parse_state_valid: "parse_state p = Ok s \<Longrightarrow> valid_state s"
proof -
  assume "parse_state p = Ok s"
  then obtain tokens where t: "foldR parse_token [] (pc_tokens p) = Ok tokens"
    and s: "s = \<lparr>cs_chain_id = pc_chain_id p, cs_tokens = tokens\<rparr>"
    by (auto simp: parse_state_def split: if_splits)
  have "valid_tokens tokens"
    by (rule foldR_invariant [OF t, where I = valid_tokens])
      (auto simp: valid_tokens_def [of "[]"] intro: parse_token_valid)
  then show ?thesis by (simp add: s valid_state_def)
qed

section \<open>The authenticated file\<close>

text \<open>
  What the code relies on of serde and HMAC-SHA256: an envelope reads back from its JSON text (a trailing newline is
  insignificant), every key is accepted and a tag has 32 bytes.
\<close>

definition codec_laws :: "checkpoint_codec \<Rightarrow> bool" where
  "codec_laws cc \<longleftrightarrow> (\<forall>e. cc_envelope_from_slice cc (cc_envelope_to_vec cc e @ [10]) = Inr e)
     \<and> (\<forall>key. \<exists>mac. cc_hmac cc key = Some mac \<and> (\<forall>m. length (mac m) = 32))"

lemma encode_decode:
  assumes "codec_laws cc" "valid_state s" "encode_checkpoint cc s key = Ok bs"
  shows "decode_checkpoint cc (cs_chain_id s) key bs = Ok s" "length bs \<le> MAX_CHECKPOINT_BYTES"
proof -
  from assms(1) obtain mac where mac: "cc_hmac cc key = Some mac" "\<And>m. length (mac m) = 32"
    unfolding codec_laws_def by blast
  let ?p = "serialize_state s"
  let ?tag = "mac (cc_checkpoint_to_vec cc ?p)"
  let ?e = "\<lparr>pc_schema_version = pc_schema_version ?p, pc_chain_id = pc_chain_id ?p, pc_tokens = pc_tokens ?p,
    ac_authentication = ''0x'' @ hex_encode ?tag\<rparr>"
  have "bs = cc_envelope_to_vec cc ?e @ [10]" and len: "length bs \<le> MAX_CHECKPOINT_BYTES"
    using assms(3) mac(1)
    by (auto simp: encode_checkpoint_def authentication_def ensure_checkpoint_size_def Let_def failR_if_def split: if_splits)
  then have "cc_envelope_from_slice cc bs = Inr ?e" using assms(1) by (simp add: codec_laws_def)
  moreover have "supplied_authentication (''0x'' @ hex_encode ?tag) = Some ?tag"
    using mac(2) by (simp add: supplied_authentication_def strip_prefix_def)
  moreover have "checkpoint_of ?e = ?p" by (simp add: checkpoint_of_def)
  ultimately show "decode_checkpoint cc (cs_chain_id s) key bs = Ok s"
    using mac(1) parse_serialize [OF assms(2)] by (simp add: decode_checkpoint_def authentication_def)
  show "length bs \<le> MAX_CHECKPOINT_BYTES" by (rule len)
qed

section \<open>A file system\<close>

text \<open>
  What the code relies on of the operating system, for the contents of named files: reading and directory operations
  change no file, creation is exclusive, writing and removal touch one file, and a rename replaces its target in one
  step or does nothing.  Every operation may fail.  \<open>obeys contents m R\<close> relates the files before \<open>m\<close>, its
  outcome and the files after it.
\<close>

type_synonym file_map = "string \<Rightarrow> bytes option"

definition obeys :: "('w \<Rightarrow> file_map) \<Rightarrow> ('w, 'e, 'a) act \<Rightarrow> (file_map \<Rightarrow> ('e, 'a) result \<Rightarrow> file_map \<Rightarrow> bool) \<Rightarrow> bool" where
  "obeys contents m R \<longleftrightarrow> (\<forall>w. R (contents w) (fst (m w)) (contents (snd (m w))))"

definition file_laws :: "('w, 'z) files_scheme \<Rightarrow> ('w \<Rightarrow> file_map) \<Rightarrow> bool" where
  "file_laws fs contents \<longleftrightarrow>
     (\<forall>p. obeys contents (fs_open_read fs p) (\<lambda>f r g. g = f \<and>
        (case r of Inr (n, bs) \<Rightarrow> f p = Some bs \<and> n = length bs | Inl e \<Rightarrow> e = IoNotFound \<longrightarrow> f p = None)))
   \<and> (\<forall>p. obeys contents (fs_create_dir_all fs p) (\<lambda>f r g. g = f))
   \<and> (\<forall>p. obeys contents (fs_sync_dir fs p) (\<lambda>f r g. g = f))
   \<and> (\<forall>p. obeys contents (fs_absolute fs p) (\<lambda>f r g. g = f))
   \<and> (\<forall>p. obeys contents (fs_create_new fs p) (\<lambda>f r g.
        case r of Inr _ \<Rightarrow> f p = None \<and> g = f(p \<mapsto> []) | Inl e \<Rightarrow> g = f \<and> (e = IoAlreadyExists \<longrightarrow> f p \<noteq> None)))
   \<and> (\<forall>p bs. obeys contents (fs_write_sync fs p bs) (\<lambda>f r g.
        case r of Inr _ \<Rightarrow> g = f(p \<mapsto> bs) | Inl e \<Rightarrow> \<exists>v. g = f(p := v)))
   \<and> (\<forall>p. obeys contents (fs_remove fs p) (\<lambda>f r g. case r of Inr _ \<Rightarrow> g = f(p := None) | Inl e \<Rightarrow> g = f))
   \<and> (\<forall>a b. obeys contents (fs_rename fs a b) (\<lambda>f r g.
        case r of Inr _ \<Rightarrow> g = f(a := None, b := f a) | Inl e \<Rightarrow> g = f))"

lemma file_laws_pid: "file_laws (fs\<lparr>fs_process_id := i\<rparr>) contents = file_laws fs contents"
  by (simp add: file_laws_def)

text \<open>Assertions about the files before an action, after its success and after its failure.\<close>

definition triple ::
  "('w \<Rightarrow> file_map) \<Rightarrow> (file_map \<Rightarrow> bool) \<Rightarrow> ('w, 'e, 'a) act \<Rightarrow> ('a \<Rightarrow> file_map \<Rightarrow> bool) \<Rightarrow> ('e \<Rightarrow> file_map \<Rightarrow> bool) \<Rightarrow> bool" where
  "triple contents P m Q E \<longleftrightarrow>
     obeys contents m (\<lambda>f r g. P f \<longrightarrow> (case r of Inr x \<Rightarrow> Q x g | Inl e \<Rightarrow> E e g))"

lemma triple_obeys:
  "obeys contents m R \<Longrightarrow> (\<And>f r g. R f r g \<Longrightarrow> P f \<Longrightarrow> case r of Inr x \<Rightarrow> Q x g | Inl e \<Rightarrow> E e g) \<Longrightarrow> triple contents P m Q E"
  unfolding triple_def obeys_def by blast

lemma triple_apply:
  assumes "triple contents P m Q E" "P (contents w)" "m w = (r, w')"
  shows "case r of Inr x \<Rightarrow> Q x (contents w') | Inl e \<Rightarrow> E e (contents w')"
  using assms unfolding triple_def obeys_def by (metis fst_conv snd_conv)

lemma triple_bind:
  assumes "triple contents P m Q E" "\<And>x. triple contents (Q x) (k x) R E"
  shows "triple contents P (bindA m k) R E"
  unfolding triple_def obeys_def
proof (intro allI impI)
  fix w
  assume "P (contents w)"
  moreover obtain r w' where m: "m w = (r, w')" by (cases "m w")
  ultimately have r: "case r of Inr x \<Rightarrow> Q x (contents w') | Inl e \<Rightarrow> E e (contents w')"
    using triple_apply [OF assms(1)] by blast
  show "case fst (bindA m k w) of Inr x \<Rightarrow> R x (contents (snd (bindA m k w))) | Inl e \<Rightarrow> E e (contents (snd (bindA m k w)))"
  proof (cases r)
    case (Inr x)
    obtain r' w'' where k: "k x w' = (r', w'')" by (cases "k x w'")
    then have "bindA m k w = (r', w'')" using m Inr by simp
    then show ?thesis using triple_apply [OF assms(2) _ k] r Inr by (cases r') simp_all
  qed (use m r in simp)
qed

lemma triple_Pair [simp]:
  "triple contents P (Pair r) Q E \<longleftrightarrow> (\<forall>w. P (contents w) \<longrightarrow> (case r of Inr x \<Rightarrow> Q x (contents w) | Inl e \<Rightarrow> E e (contents w)))"
  by (simp add: triple_def obeys_def)

lemma triple_retA [simp]: "triple contents P (retA x) Q E \<longleftrightarrow> (\<forall>w. P (contents w) \<longrightarrow> Q x (contents w))"
  by (simp add: triple_def obeys_def)

lemma triple_failA [simp]: "triple contents P (failA e) Q E \<longleftrightarrow> (\<forall>w. P (contents w) \<longrightarrow> E e (contents w))"
  by (simp add: triple_def obeys_def)

lemma triple_liftR [simp]:
  "triple contents P (liftR r) Q E \<longleftrightarrow> (\<forall>w. P (contents w) \<longrightarrow> (case r of Inr x \<Rightarrow> Q x (contents w) | Inl e \<Rightarrow> E e (contents w)))"
  by (simp add: triple_def obeys_def)

lemma triple_getsA [simp]: "triple contents P (getsA h) Q E \<longleftrightarrow> (\<forall>w. P (contents w) \<longrightarrow> Q (h w) (contents w))"
  by (simp add: triple_def obeys_def)

lemma triple_map_errA: "triple contents P m Q (\<lambda>e. E (g e)) \<Longrightarrow> triple contents P (map_errA g m) Q E"
  by (auto simp: triple_def obeys_def map_errA_def map_errR_def split: prod.splits sum.splits)

lemma triple_tryA: "triple contents P m (\<lambda>x. Q (Inr x)) (\<lambda>e. Q (Inl e)) \<Longrightarrow> triple contents P (tryA m) Q E"
  unfolding triple_def obeys_def tryA_apply by (auto split: sum.splits) (metis sum.exhaust)

lemma triple_cleanupA:
  assumes "triple contents P m Q (\<lambda>_. F)" "triple contents F c (\<lambda>_. G) (\<lambda>_. G)" "\<And>e f. G f \<Longrightarrow> E e f"
  shows "triple contents P (cleanupA m c) Q E"
  unfolding triple_def obeys_def
proof (intro allI impI)
  fix w
  assume "P (contents w)"
  moreover obtain r w' where m: "m w = (r, w')" by (cases "m w")
  ultimately have r: "case r of Inr x \<Rightarrow> Q x (contents w') | Inl e \<Rightarrow> F (contents w')"
    using triple_apply [OF assms(1)] by blast
  obtain r' w'' where "c w' = (r', w'')" by (cases "c w'")
  then show "case fst (cleanupA m c w) of Inr x \<Rightarrow> Q x (contents (snd (cleanupA m c w)))
      | Inl e \<Rightarrow> E e (contents (snd (cleanupA m c w)))"
    using triple_apply [OF assms(2), of w' r' w''] m r assms(3) by (cases r; cases r') (auto simp: cleanupA_def)
qed

lemma triple_conseq:
  "triple contents P m Q E \<Longrightarrow> (\<And>f. P' f \<Longrightarrow> P f) \<Longrightarrow> (\<And>x f. Q x f \<Longrightarrow> Q' x f) \<Longrightarrow> (\<And>e f. E e f \<Longrightarrow> E' e f)
    \<Longrightarrow> triple contents P' m Q' E'"
  by (force simp: triple_def obeys_def split: sum.splits)

lemma file_lawsD:
  assumes "file_laws fs contents"
  shows "obeys contents (fs_open_read fs p) (\<lambda>f r g. g = f \<and>
        (case r of Inr (n, bs) \<Rightarrow> f p = Some bs \<and> n = length bs | Inl e \<Rightarrow> e = IoNotFound \<longrightarrow> f p = None))"
    "obeys contents (fs_create_dir_all fs p) (\<lambda>f r g. g = f)"
    "obeys contents (fs_sync_dir fs p) (\<lambda>f r g. g = f)"
    "obeys contents (fs_absolute fs p) (\<lambda>f r g. g = f)"
    "obeys contents (fs_create_new fs p) (\<lambda>f r g.
        case r of Inr _ \<Rightarrow> f p = None \<and> g = f(p \<mapsto> []) | Inl e \<Rightarrow> g = f \<and> (e = IoAlreadyExists \<longrightarrow> f p \<noteq> None))"
    "obeys contents (fs_write_sync fs p bs) (\<lambda>f r g. case r of Inr _ \<Rightarrow> g = f(p \<mapsto> bs) | Inl e \<Rightarrow> \<exists>v. g = f(p := v))"
    "obeys contents (fs_remove fs p) (\<lambda>f r g. case r of Inr _ \<Rightarrow> g = f(p := None) | Inl e \<Rightarrow> g = f)"
    "obeys contents (fs_rename fs a b) (\<lambda>f r g. case r of Inr _ \<Rightarrow> g = f(a := None, b := f a) | Inl e \<Rightarrow> g = f)"
  using assms unfolding file_laws_def by - (elim conjE, simp)+

lemma file_triples:
  assumes "file_laws fs contents"
  shows "triple contents P (fs_open_read fs p) (\<lambda>(n, bs) f. P f \<and> f p = Some bs \<and> n = length bs)
      (\<lambda>e f. P f \<and> (e = IoNotFound \<longrightarrow> f p = None))"
    "triple contents P (fs_create_dir_all fs p) (\<lambda>_. P) (\<lambda>_. P)"
    "triple contents P (fs_sync_dir fs p) (\<lambda>_. P) (\<lambda>_. P)"
    "triple contents P (fs_absolute fs p) (\<lambda>_. P) (\<lambda>_. P)"
    "triple contents P (fs_create_new fs p) (\<lambda>_ g. \<exists>f. P f \<and> f p = None \<and> g = f(p \<mapsto> []))
      (\<lambda>e f. P f \<and> (e = IoAlreadyExists \<longrightarrow> f p \<noteq> None))"
    "triple contents P (fs_write_sync fs p bs) (\<lambda>_ g. \<exists>f. P f \<and> g = f(p \<mapsto> bs)) (\<lambda>_ g. \<exists>f v. P f \<and> g = f(p := v))"
    "triple contents P (fs_remove fs p) (\<lambda>_ g. \<exists>f. P f \<and> g = f(p := None)) (\<lambda>_. P)"
    "triple contents P (fs_rename fs p q) (\<lambda>_ g. \<exists>f. P f \<and> g = f(p := None, q := f p)) (\<lambda>_. P)"
  subgoal by (rule triple_obeys [OF file_lawsD(1) [OF assms]]) (auto split: sum.splits)
  subgoal by (rule triple_obeys [OF file_lawsD(2) [OF assms]]) (auto split: sum.splits)
  subgoal by (rule triple_obeys [OF file_lawsD(3) [OF assms]]) (auto split: sum.splits)
  subgoal by (rule triple_obeys [OF file_lawsD(4) [OF assms]]) (auto split: sum.splits)
  subgoal by (rule triple_obeys [OF file_lawsD(5) [OF assms]]) (auto split: sum.splits)
  subgoal by (rule triple_obeys [OF file_lawsD(6) [OF assms]]) (auto split: sum.splits)
  subgoal by (rule triple_obeys [OF file_lawsD(7) [OF assms]]) (auto split: sum.splits)
  subgoal by (rule triple_obeys [OF file_lawsD(8) [OF assms]]) (auto split: sum.splits)
  done

lemma triple_read:
  assumes "file_laws fs contents" "limit \<le> u64_max"
  shows "triple contents P (read_checkpoint_bytes_with_limit fs p limit)
    (\<lambda>r f. P f \<and> r = f p) (\<lambda>_. P)"
  unfolding read_checkpoint_bytes_with_limit_def
proof (rule triple_bind [OF triple_tryA])
  let ?Q = "\<lambda>r f. P f \<and> (case r of Inr (n, bs) \<Rightarrow> f p = Some bs \<and> n = length bs | Inl e \<Rightarrow> e = IoNotFound \<longrightarrow> f p = None)"
  show "triple contents P (fs_open_read fs p) (\<lambda>x. ?Q (Inr x)) (\<lambda>e. ?Q (Inl e))"
    by (rule triple_conseq [OF file_triples(1) [OF assms(1)]]) auto
  fix opened
  show "triple contents (?Q opened)
    (case opened of Inl IoNotFound \<Rightarrow> retA None | Inl e \<Rightarrow> failA (CpIo p e)
     | Inr (len, contents) \<Rightarrow> bindA (liftR (ensure_checkpoint_size len limit)) (\<lambda>_.
         let bs = take (saturating_add64 limit 1) contents in
         bindA (liftR (ensure_checkpoint_size (length bs) limit)) (\<lambda>_. retA (Some bs))))
    (\<lambda>r f. P f \<and> r = f p) (\<lambda>_. P)"
    using assms(2)
    by (auto simp: ensure_checkpoint_size_def failR_if_def saturating_add64_def Let_def split: sum.splits io_error.splits)
qed

lemma triple_verify:
  assumes "file_laws fs contents"
  shows "triple contents P (verify_checkpoint_bytes fs p bs) (\<lambda>_ f. P f \<and> f p = Some bs) (\<lambda>_. P)"
  unfolding verify_checkpoint_bytes_def
proof (rule triple_bind [OF triple_read [OF assms]])
  show "MAX_CHECKPOINT_BYTES \<le> u64_max" by (simp add: MAX_CHECKPOINT_BYTES_def u64_max_def)
qed (auto simp: ok_or_def guardA_def split: option.splits)

section \<open>Saving\<close>

text \<open>The files after a save that did not finish differ from \<open>f0\<close> only in temporary files or hold the new bytes at \<open>path\<close>.\<close>

definition target_kept :: "string \<Rightarrow> bytes \<Rightarrow> file_map \<Rightarrow> file_map \<Rightarrow> bool" where
  "target_kept path bs f0 f \<longleftrightarrow> f path = f0 path \<or> f path = Some bs"

definition temp_names :: "('w, 'z) files_scheme \<Rightarrow> string \<Rightarrow> string set" where
  "temp_names fs path = {fs_with_extension fs path (show_nat (fs_process_id fs) @ ''.'' @ show_nat n @ ''.tmp'') |n. True}"

lemma triple_save:
  assumes laws: "file_laws fs contents" and tmp: "path \<notin> temp_names fs path" and enc: "encode_checkpoint cc s key = Ok bs"
  shows "triple contents (\<lambda>f. f = f0) (save_checkpoint fs cc path s key)
    (\<lambda>_ f. f path = Some bs \<and> (\<forall>q. q \<notin> insert path (temp_names fs path) \<longrightarrow> f q = f0 q))
    (\<lambda>_ f. target_kept path bs f0 f \<and> (\<forall>q. q \<notin> insert path (temp_names fs path) \<longrightarrow> f q = f0 q))"
proof -
  let ?frame = "\<lambda>f. \<forall>q. q \<notin> insert path (temp_names fs path) \<longrightarrow> f q = f0 q"
  let ?E = "\<lambda>_ f. target_kept path bs f0 f \<and> ?frame f"
  let ?P = "\<lambda>f. f path = f0 path \<and> ?frame f"
  let ?D = "\<lambda>f. f path = Some bs \<and> ?frame f"
  have t: "fs_with_extension fs path (show_nat (fs_process_id fs) @ ''.'' @ show_nat n @ ''.tmp'') \<in> temp_names fs path"
    (is "?t n \<in> _") for n by (auto simp: temp_names_def)
  have tp: "?t n \<noteq> path" for n using t [of n] tmp by metis
  have drop_t: "triple contents ?P (fs_remove fs (?t n)) (\<lambda>_. ?P) (\<lambda>_. ?P)" for n
    by (rule triple_conseq [OF file_triples(7) [OF laws]]) (use t [of n] tp [of n] in auto)
  have PE: "?P f \<Longrightarrow> ?E e f" for e f by (auto simp: target_kept_def)
  have DE: "?D f \<Longrightarrow> ?E e f" for e f by (auto simp: target_kept_def)
  have start_t: "triple contents (\<lambda>f. f = f0) (map_errA (CpIo (fs_parent fs path)) (fs_create_dir_all fs (fs_parent fs path))) (\<lambda>_. ?P) ?E"
    by (rule triple_map_errA [OF triple_conseq [OF file_triples(2) [OF laws, of "\<lambda>f. f = f0"]]]) (auto simp: target_kept_def)
  have create_t: "triple contents ?P (map_errA (CpIo (?t n)) (fs_create_new fs (?t n))) (\<lambda>_. ?P) ?E" for n
    by (rule triple_map_errA [OF triple_conseq [OF file_triples(5) [OF laws, of ?P]]])
      (use t [of n] tp [of n] in \<open>auto simp: target_kept_def\<close>)
  have write_t: "triple contents ?P (cleanupA (map_errA (CpIo (?t n)) (fs_write_sync fs (?t n) bs)) (fs_remove fs (?t n)))
      (\<lambda>_. ?P) ?E" for n
    by (rule triple_cleanupA [OF triple_map_errA [OF triple_conseq [OF file_triples(6) [OF laws, of ?P]]] drop_t [of n] PE])
      (use t [of n] tp [of n] in auto)
  have check_t: "triple contents ?P (cleanupA (verify_checkpoint_bytes fs (?t n) bs) (fs_remove fs (?t n)))
      (\<lambda>_ f. ?P f \<and> f (?t n) = Some bs) ?E" for n
    by (rule triple_cleanupA [OF triple_verify [OF laws] drop_t [of n] PE])
  have move_t: "triple contents (\<lambda>f. ?P f \<and> f (?t n) = Some bs)
      (cleanupA (map_errA (CpIo path) (fs_rename fs (?t n) path)) (fs_remove fs (?t n))) (\<lambda>_. ?D) ?E" for n
    by (rule triple_cleanupA [OF triple_map_errA [OF triple_conseq [OF file_triples(8) [OF laws, of "\<lambda>f. ?P f \<and> f (?t n) = Some bs"]]] drop_t [of n] PE])
      (use t [of n] tp [of n] in auto)
  have sync_t: "triple contents ?D (map_errA (CpIo (fs_parent fs path)) (fs_sync_dir fs (fs_parent fs path))) (\<lambda>_. ?D) ?E"
    by (rule triple_map_errA [OF triple_conseq [OF file_triples(3) [OF laws, of ?D]]]) (auto simp: target_kept_def)
  have final_t: "triple contents ?D (verify_checkpoint_bytes fs path bs) (\<lambda>_. ?D) ?E"
    by (rule triple_conseq [OF triple_verify [OF laws, of ?D]]) (auto simp: target_kept_def)
  have now_t: "triple contents ?P (getsA (fs_now_nanos fs)) (\<lambda>_. ?P) ?E" by simp
  have nonce_t: "triple contents ?P (liftR (ok_or (CpInvalid ''system clock before Unix epoch'') now)) (\<lambda>_. ?P) ?E" for now
    by (auto simp: ok_or_def target_kept_def split: option.splits)
  show ?thesis
    unfolding save_checkpoint_def Let_def enc bindA_simps(3)
    by (rule triple_bind [OF start_t triple_bind [OF now_t triple_bind [OF nonce_t triple_bind [OF create_t triple_bind [OF write_t
          triple_bind [OF check_t triple_bind [OF move_t triple_bind [OF sync_t final_t]]]]]]]])
qed

lemma triple_save_unencodable:
  assumes "file_laws fs contents" "encode_checkpoint cc s key = Err e"
  shows "triple contents (\<lambda>f. f = f0) (save_checkpoint fs cc path s key) (\<lambda>_ _. False) (\<lambda>_ f. f = f0)"
  unfolding save_checkpoint_def Let_def assms(2)
  by (rule triple_bind [OF triple_map_errA [OF file_triples(2) [OF assms(1)]]]) simp

text \<open>The file at \<open>path\<close> reads back as the state \<open>s\<close>.\<close>

definition stores :: "checkpoint_codec \<Rightarrow> bytes \<Rightarrow> checkpoint_state \<Rightarrow> bytes option \<Rightarrow> bool" where
  "stores cc key s file \<longleftrightarrow>
     (case file of None \<Rightarrow> False
      | Some bs \<Rightarrow> decode_checkpoint cc (cs_chain_id s) key bs = Ok s \<and> length bs \<le> MAX_CHECKPOINT_BYTES)"

lemma save_outcome:
  assumes laws: "file_laws fs contents" and codec: "codec_laws cc" "valid_state s" and tmp: "path \<notin> temp_names fs path"
    and run: "save_checkpoint fs cc path s key w = (r, w')"
  shows "(case r of Inr _ \<Rightarrow> stores cc key s (contents w' path)
      | Inl _ \<Rightarrow> contents w' path = contents w path \<or> stores cc key s (contents w' path))
    \<and> (\<forall>q. q \<notin> insert path (temp_names fs path) \<longrightarrow> contents w' q = contents w q)"
proof (cases "encode_checkpoint cc s key")
  case (Inl e)
  from triple_apply [OF triple_save_unencodable [OF laws this, of "contents w" path] _ run]
  show ?thesis by (simp split: sum.splits)
next
  case (Inr bs)
  have "stores cc key s (Some bs)" using encode_decode [OF codec Inr] by (simp add: stores_def)
  moreover from triple_apply [OF triple_save [OF laws tmp Inr, of "contents w"] _ run]
  have "case r of Inr _ \<Rightarrow> contents w' path = Some bs \<and> (\<forall>q. q \<notin> insert path (temp_names fs path) \<longrightarrow> contents w' q = contents w q)
      | Inl _ \<Rightarrow> target_kept path bs (contents w) (contents w')
          \<and> (\<forall>q. q \<notin> insert path (temp_names fs path) \<longrightarrow> contents w' q = contents w q)"
    by simp
  ultimately show ?thesis by (auto simp: target_kept_def split: sum.splits)
qed

text \<open>An in-memory file system.\<close>

definition mem_files :: "file_map files" where
  "mem_files = \<lparr>
     fs_open_read = (\<lambda>p w. (case w p of None \<Rightarrow> Inl IoNotFound | Some bs \<Rightarrow> Inr (length bs, bs), w)),
     fs_create_dir_all = (\<lambda>p w. (Inr (), w)),
     fs_create_new = (\<lambda>p w. if w p = None then (Inr (), w(p \<mapsto> [])) else (Inl IoAlreadyExists, w)),
     fs_write_sync = (\<lambda>p bs w. (Inr (), w(p \<mapsto> bs))),
     fs_remove = (\<lambda>p w. if w p = None then (Inl IoNotFound, w) else (Inr (), w(p := None))),
     fs_rename = (\<lambda>a b w. if w a = None then (Inl IoNotFound, w) else (Inr (), w(a := None, b := w a))),
     fs_sync_dir = (\<lambda>p w. (Inr (), w)),
     fs_now_nanos = (\<lambda>w. Some 5),
     fs_process_id = 7,
     fs_parent = (\<lambda>p. ''/''),
     fs_with_extension = (\<lambda>p ext. p @ ''.'' @ ext),
     fs_absolute = (\<lambda>p w. (Inr p, w))\<rparr>"

lemma mem_files_laws: "file_laws mem_files id"
  by (auto simp: file_laws_def obeys_def mem_files_def split: option.splits)

lemma mem_files_temp: "path \<notin> temp_names mem_files path"
  by (auto simp: temp_names_def mem_files_def)

end
