(* ===== verification/Source_Spec.thy ===== *)
theory Source_Spec
  imports Score_Sources History_Spec Checkpoint_Spec
begin

text \<open>
  What the score sources compute.  The replay of a token's transfers brings every account to the accumulator state
  that its balance history determines, in one pass or in many, so that the projected scores are those of the
  history-level specification and agree with scores read directly from the chain.
\<close>

section \<open>Flows of an account\<close>

text \<open>A transfer moves value out of one account and then into another; the accumulator sees both moves of a self-transfer.\<close>

type_synonym move = "address \<times> u64 \<times> biguint \<times> bool"

definition moves :: "token_transfer list \<Rightarrow> move list" where
  "moves us = concat (map (\<lambda>t. [(tt_from t, tt_block_number t, tt_value t, False), (tt_to t, tt_block_number t, tt_value t, True)]) us)"

definition flow :: "move \<Rightarrow> transfer" where
  "flow = (\<lambda>(_, blk, v, is_in). (blk, if is_in then v else 0, if is_in then 0 else v))"

definition flows :: "address \<Rightarrow> token_transfer list \<Rightarrow> transfer list" where
  "flows a us = map flow (filter (\<lambda>m. fst m = a) (moves us))"

lemma flows_simps [simp]:
  "flows a [] = []"
  "flows a (t # us) = (if tt_from t = a then [(tt_block_number t, 0, tt_value t)] else [])
     @ (if tt_to t = a then [(tt_block_number t, tt_value t, 0)] else []) @ flows a us"
  "flows a (us @ vs) = flows a us @ flows a vs"
  by (simp_all add: flows_def moves_def flow_def)

lemma account_ledger_Cons:
  "account_ledger a (t # us) = (if tt_from t = a \<or> tt_to t = a
     then [(tt_block_number t, if tt_to t = a then tt_value t else 0, if tt_from t = a then tt_value t else 0)] else [])
     @ account_ledger a us"
  by (simp add: account_ledger_def ledger_transfers_def ledger_def tt_position_def)

lemma flows_ledger:
  assumes "covered b (flows a us)"
  shows "history_of b (flows a us) x = history_of b (account_ledger a us) x" "covered b (account_ledger a us)"
proof -
  have "history_of b (flows a us) x = history_of b (account_ledger a us) x \<and> covered b (account_ledger a us)"
    using assms
  proof (induction us arbitrary: b)
    case Nil
    then show ?case by (simp add: account_ledger_def ledger_transfers_def ledger_def)
  next
    case (Cons t us)
    then show ?case by (cases "tt_from t = a"; cases "tt_to t = a") (simp_all add: account_ledger_Cons)
  qed
  then show "history_of b (flows a us) x = history_of b (account_ledger a us) x" "covered b (account_ledger a us)" by auto
qed

lemma flows_filter: "flows a (filter (in_window (Suc x) y) us) = filter (\<lambda>(blk, _, _). x < blk \<and> blk \<le> y) (flows a us)"
  by (induction us) (auto simp: in_window_def)

lemma flows_blocks: "tr \<in> set (flows a us) \<Longrightarrow> fst tr \<in> tt_block_number ` set us"
  by (induction us) (auto split: if_splits)

lemma ordered_blocks: "ordered_transfers us \<Longrightarrow> sorted (map tt_block_number us)"
  unfolding ordered_transfers_def
  by (induction us) (auto simp: tt_position_def less_prod_def)

lemma flows_sorted: "ordered_transfers us \<Longrightarrow> sorted (map fst (flows a us))"
proof -
  have "sorted (map fst (flows a us))" if "sorted (map tt_block_number us)"
    using that by (induction us) (auto dest!: flows_blocks)
  then show "ordered_transfers us \<Longrightarrow> sorted (map fst (flows a us))" using ordered_blocks by blast
qed

lemma filter_windows:
  assumes "ordered_transfers us" "s \<le> x" "x \<le> y"
  shows "filter (in_window (Suc s) y) us = filter (in_window (Suc s) x) us @ filter (in_window (Suc x) y) us"
  using ordered_blocks [OF assms(1)] assms(2,3)
proof (induction us)
  case (Cons t us)
  have "filter (\<lambda>t. Suc s \<le> tt_block_number t \<and> tt_block_number t \<le> x) us = []" if "x < tt_block_number t"
    using that Cons.prems(1) by (auto simp: filter_empty_conv in_window_def)
  with Cons show ?case by (auto simp: in_window_def)
qed simp

section \<open>The state an account has at a block\<close>

definition account_at :: "rate_point list \<Rightarrow> nat \<Rightarrow> u64 \<Rightarrow> token_transfer list \<Rightarrow> u64 \<Rightarrow> address \<Rightarrow> account_score_state" where
  "account_at rates d start ts x a = score_state (account_balance a ts) start d rates
     (last (start # map fst (flows a (filter (in_window (Suc start) x) ts)))) (account_balance a ts x)"

lemma account_at_balance [simp]: "balance (account_at rates d start ts x a) = account_balance a ts x"
  by (simp add: account_at_def score_state_def)

lemma last_flow_bounds:
  assumes "start \<le> x"
  shows "start \<le> last (start # map fst (flows a (filter (in_window (Suc start) x) ts)))"
    "last (start # map fst (flows a (filter (in_window (Suc start) x) ts))) \<le> x"
proof -
  let ?f = "flows a (filter (in_window (Suc start) x) ts)"
  have "fst tr \<in> {Suc start..x}" if "tr \<in> set ?f" for tr
    using flows_blocks [OF that] by (auto simp: in_window_def)
  moreover have "last (start # map fst ?f) = start \<or> last (start # map fst ?f) \<in> fst ` set ?f"
    by (cases "?f = []") (auto simp: last_map intro: last_in_set)
  ultimately show "start \<le> last (start # map fst ?f)" "last (start # map fst ?f) \<le> x" using assms by force+
qed

lemma last_flow_max:
  assumes "ordered_transfers ts" "tr \<in> set (flows a (filter (in_window (Suc start) x) ts))"
  shows "fst tr \<le> last (start # map fst (flows a (filter (in_window (Suc start) x) ts)))"
proof -
  have "sorted (map fst (flows a (filter (in_window (Suc start) x) ts)))"
    by (rule flows_sorted [OF ordered_transfers_filter [OF assms(1)]])
  with assms(2) show ?thesis by (auto simp: in_set_conv_nth last_conv_nth sorted_iff_nth_mono)
qed

lemma balance_flows: "covered 0 (flows a ts) \<Longrightarrow> account_balance a ts = history_of 0 (flows a ts)"
  by (simp add: fun_eq_iff account_balance_def flows_ledger(1))

lemma account_balance_still:
  assumes "ordered_transfers ts" "covered 0 (flows a ts)" "z \<le> x" "flows a (filter (in_window (Suc z) x) ts) = []"
  shows "account_balance a ts z = account_balance a ts x"
  using history_window [OF flows_sorted [OF assms(1)] assms(3) order_refl, of 0 a] assms(4)
  by (simp add: balance_flows [OF assms(2)] flows_filter)

lemma balance_after_last:
  assumes "ordered_transfers ts" "covered 0 (flows a ts)" "start \<le> x"
    "last (start # map fst (flows a (filter (in_window (Suc start) x) ts))) \<le> z" "z \<le> x"
  shows "account_balance a ts z = account_balance a ts x"
proof -
  let ?l = "last (start # map fst (flows a (filter (in_window (Suc start) x) ts)))"
  have sl: "start \<le> ?l" by (rule last_flow_bounds [OF assms(3)])
  have "fst tr \<le> ?l \<and> z < fst tr" if "tr \<in> set (flows a (filter (in_window (Suc z) x) ts))" for tr
    using that sl assms(4) last_flow_max [OF assms(1), of tr a start x] by (auto simp: flows_filter)
  then have "flows a (filter (in_window (Suc z) x) ts) = []"
    using assms(4) by (metis leD le_trans list.set_intros(1) neq_Nil_conv)
  then show ?thesis by (rule account_balance_still [OF assms(1,2,5)])
qed

lemma replay_window:
  assumes "rates_ascending rates" "ordered_transfers ts" "covered 0 (flows a ts)" "start \<le> x" "x \<le> y"
  shows "replay_account (account_at rates d start ts x a) (flows a (filter (in_window (Suc x) y) ts)) rates d
    = Ok (account_at rates d start ts y a)"
proof -
  let ?bal = "account_balance a ts"
  let ?l = "last (start # map fst (flows a (filter (in_window (Suc start) x) ts)))"
  let ?w = "flows a (filter (in_window (Suc x) y) ts)"
  have bal: "?bal = history_of 0 (flows a ts)" by (rule balance_flows [OF assms(3)])
  have srt: "sorted (map fst (flows a ts))" by (rule flows_sorted [OF assms(2)])
  have late: "x < fst tr" if "tr \<in> set ?w" for tr using flows_blocks [OF that] by (auto simp: in_window_def)
  have l: "start \<le> ?l" "?l \<le> x" by (rule last_flow_bounds [OF assms(4)])+
  have "sorted (?l # map fst ?w)"
    using flows_sorted [OF ordered_transfers_filter [OF assms(2)]] late l(2) by fastforce
  moreover have "covered (?bal x) ?w" unfolding bal flows_filter by (rule covered_window [OF srt assms(3)])
  ultimately have run: "replay_account (score_state ?bal start d rates ?l (?bal x)) ?w rates d
      = Ok (score_state (extend_history ?bal ?l (?bal x) ?w) start d rates (last (?l # map fst ?w)) (final_balance (?bal x) ?w))"
    by (rule replay_account_refines [OF assms(1) l(1)])
  have fin: "final_balance (?bal x) ?w = ?bal y" unfolding bal flows_filter by (rule final_window [OF srt assms(5)])
  have "filter (in_window (Suc start) y) ts = filter (in_window (Suc start) x) ts @ filter (in_window (Suc x) y) ts"
    by (rule filter_windows [OF assms(2,4,5)])
  then have lst: "last (start # map fst (flows a (filter (in_window (Suc start) y) ts))) = last (?l # map fst ?w)"
    by (simp add: last_append)
  have "last (?l # map fst ?w) \<le> y" using last_flow_bounds(2) [of start y a ts] assms(4,5) lst by simp
  then have "score_state (extend_history ?bal ?l (?bal x) ?w) start d rates (last (?l # map fst ?w)) (?bal y)
      = score_state ?bal start d rates (last (?l # map fst ?w)) (?bal y)"
  proof (intro score_state_cong)
    fix z
    assume "last (?l # map fst ?w) \<le> y" "z < last (?l # map fst ?w)"
    then have "z \<le> y" by simp
    consider "z < ?l" | "?l \<le> z" "z \<le> x" | "x \<le> z" by linarith
    then show "extend_history ?bal ?l (?bal x) ?w z = ?bal z"
    proof cases
      case 1
      then show ?thesis by (simp add: extend_history_def)
    next
      case 2
      have "?bal z = ?bal x" by (rule balance_after_last [OF assms(2-4) 2])
      moreover have "history_of (?bal x) ?w z = ?bal x" by (intro history_before) (use late 2(2) in \<open>blast intro: le_less_trans\<close>)
      ultimately show ?thesis using 2(1) by (simp add: extend_history_def)
    next
      case 3
      have "?bal z = history_of (?bal x) ?w z"
        unfolding bal flows_filter by (rule history_window [OF srt 3 \<open>z \<le> y\<close>])
      with 3 l(2) show ?thesis by (simp add: extend_history_def)
    qed
  qed
  with run fin lst show ?thesis by (simp add: account_at_def)
qed

section \<open>Replaying a list of transfers\<close>

definition relevant :: "address list option \<Rightarrow> address \<Rightarrow> bool" where
  "relevant tracked a \<longleftrightarrow> \<not> is_zero a \<and> (case tracked of None \<Rightarrow> True | Some accounts \<Rightarrow> a \<in> set accounts)"

definition apply_move ::
  "rate_point list \<Rightarrow> address list option \<Rightarrow> token_state \<Rightarrow> move \<Rightarrow> (checkpoint_error, token_state) result" where
  "apply_move rates tracked token = (\<lambda>(a, blk, v, is_in). apply_transfer_delta rates tracked token a blk v is_in)"

lemma bindR_ret: "bindR m Ok = m"
  by (cases m) simp_all

lemma fold_transfers_moves:
  "foldR (apply_token_transfer rates tracked) token us = foldR (apply_move rates tracked) token (moves us)"
proof (induction us arbitrary: token)
  case (Cons t us)
  have "apply_token_transfer rates tracked token t = foldR (apply_move rates tracked) token (moves [t])"
    by (simp add: apply_token_transfer_def apply_move_def moves_def bindR_ret)
  moreover have "moves (t # us) = moves [t] @ moves us" by (simp add: moves_def)
  ultimately show ?case using Cons by (simp add: foldR_append)
qed (simp add: moves_def)

lemma apply_move_ok:
  assumes "relevant tracked (fst m)"
    "replay_account (account_of (ts_accounts token) (fst m)) [flow m] rates (ts_decimals token) = Ok s"
  shows "apply_move rates tracked token m = Ok (token\<lparr>ts_accounts := om_insert (fst m) s (ts_accounts token)\<rparr>)"
proof -
  obtain a blk v is_in where m: "m = (a, blk, v, is_in)" by (cases m)
  with assms show ?thesis
    by (cases is_in) (auto simp: apply_move_def apply_transfer_delta_def relevant_def replay_account_def flow_def Let_def
        bindR_ret split: option.splits)
qed

lemma apply_move_skip: "\<not> relevant tracked (fst m) \<Longrightarrow> apply_move rates tracked token m = Ok token"
  by (cases m) (auto simp: apply_move_def apply_transfer_delta_def relevant_def split: option.splits)

lemma account_of_insert: "om_wf m \<Longrightarrow> account_of (om_insert a s m) b = (if b = a then s else account_of m b)"
  by (simp add: account_of_def om_get_insert)

definition moved :: "address \<Rightarrow> move list \<Rightarrow> transfer list" where
  "moved a ms = map flow (filter (\<lambda>m. fst m = a) ms)"

lemma apply_moves_ok:
  assumes "om_wf (ts_accounts token)"
    "\<forall>a. relevant tracked a \<longrightarrow> replay_account (account_of (ts_accounts token) a) (moved a ms) rates (ts_decimals token) = Ok (f a)"
  shows "\<exists>m. foldR (apply_move rates tracked) token ms = Ok (token\<lparr>ts_accounts := m\<rparr>) \<and> om_wf m
    \<and> (\<forall>a. relevant tracked a \<longrightarrow> account_of m a = f a)
    \<and> fst ` set m \<subseteq> fst ` set (ts_accounts token) \<union> {a \<in> fst ` set ms. relevant tracked a}"
  using assms
proof (induction ms arbitrary: token)
  case Nil
  then show ?case by (intro exI [of _ "ts_accounts token"]) (auto simp: replay_account_def moved_def)
next
  case (Cons x ms)
  show ?case
  proof (cases "relevant tracked (fst x)")
    case False
    then have "moved a (x # ms) = moved a ms" if "relevant tracked a" for a using that by (auto simp: moved_def)
    with Cons.prems have "\<forall>a. relevant tracked a \<longrightarrow>
        replay_account (account_of (ts_accounts token) a) (moved a ms) rates (ts_decimals token) = Ok (f a)" by simp
    from Cons.IH [OF Cons.prems(1) this] obtain m where m: "foldR (apply_move rates tracked) token ms = Ok (token\<lparr>ts_accounts := m\<rparr>)"
      "om_wf m" "\<forall>a. relevant tracked a \<longrightarrow> account_of m a = f a"
      "fst ` set m \<subseteq> fst ` set (ts_accounts token) \<union> {a \<in> fst ` set ms. relevant tracked a}" by blast
    then show ?thesis by (intro exI [of _ m]) (auto simp: apply_move_skip [OF False])
  next
    case True
    let ?a = "fst x"
    have cons: "replay_account st (flow x # l) rates d = bindR (replay_account st [flow x] rates d) (\<lambda>s. replay_account s l rates d)"
      for st l d by (cases "flow x") (simp add: replay_account_def bindR_ret)
    have "replay_account (account_of (ts_accounts token) ?a) (flow x # moved ?a ms) rates (ts_decimals token) = Ok (f ?a)"
      using Cons.prems(2) [rule_format, OF True] by (simp add: moved_def)
    then obtain s where s: "replay_account (account_of (ts_accounts token) ?a) [flow x] rates (ts_decimals token) = Ok s"
      "replay_account s (moved ?a ms) rates (ts_decimals token) = Ok (f ?a)" unfolding cons [of _ "moved ?a ms"] by auto
    let ?t = "token\<lparr>ts_accounts := om_insert ?a s (ts_accounts token)\<rparr>"
    have wf: "om_wf (ts_accounts ?t)" using Cons.prems(1) by (simp add: om_wf_insert)
    have "\<forall>a. relevant tracked a \<longrightarrow> replay_account (account_of (ts_accounts ?t) a) (moved a ms) rates (ts_decimals ?t) = Ok (f a)"
      using Cons.prems s(2) by (auto simp: account_of_insert moved_def)
    from Cons.IH [OF wf this] obtain m where m: "foldR (apply_move rates tracked) ?t ms = Ok (?t\<lparr>ts_accounts := m\<rparr>)"
      "om_wf m" "\<forall>a. relevant tracked a \<longrightarrow> account_of m a = f a"
      "fst ` set m \<subseteq> fst ` set (ts_accounts ?t) \<union> {a \<in> fst ` set ms. relevant tracked a}" by blast
    moreover have "fst ` set (ts_accounts ?t) = insert ?a (fst ` set (ts_accounts token))"
      using om_insert_keys [of ?a s "ts_accounts token"] by simp
    ultimately show ?thesis using True by (intro exI [of _ m]) (auto simp: apply_move_ok [OF True s(1)])
  qed
qed

lemma apply_transfers_ok:
  assumes "om_wf (ts_accounts token)"
    "\<forall>a. relevant tracked a \<longrightarrow> replay_account (account_of (ts_accounts token) a) (flows a us) rates (ts_decimals token) = Ok (f a)"
  obtains m where "foldR (apply_token_transfer rates tracked) token us = Ok (token\<lparr>ts_accounts := m\<rparr>)" "om_wf m"
    "\<forall>a. relevant tracked a \<longrightarrow> account_of m a = f a"
    "fst ` set m \<subseteq> fst ` set (ts_accounts token) \<union> {a \<in> tt_from ` set us \<union> tt_to ` set us. relevant tracked a}"
proof -
  have "fst ` set (moves us) \<subseteq> tt_from ` set us \<union> tt_to ` set us" by (auto simp: moves_def)
  then have keys: "{a \<in> fst ` set (moves us). relevant tracked a} \<subseteq> {a \<in> tt_from ` set us \<union> tt_to ` set us. relevant tracked a}" by blast
  have "\<forall>a. relevant tracked a \<longrightarrow>
      replay_account (account_of (ts_accounts token) a) (moved a (moves us)) rates (ts_decimals token) = Ok (f a)"
    using assms(2) by (simp add: flows_def moved_def)
  from apply_moves_ok [OF assms(1) this] keys that show ?thesis
    unfolding fold_transfers_moves by (meson Un_mono order_refl order_trans)
qed

section \<open>Slices\<close>

definition indexed_at ::
  "address list option \<Rightarrow> rate_point list \<Rightarrow> nat \<Rightarrow> u64 \<Rightarrow> token_transfer list \<Rightarrow> u64
    \<Rightarrow> (address, account_score_state) btree_map \<Rightarrow> bool" where
  "indexed_at tracked rates d start ts x m \<longleftrightarrow> om_wf m
     \<and> (\<forall>a. relevant tracked a \<longrightarrow> account_of m a = account_at rates d start ts x a)
     \<and> (\<forall>a \<in> fst ` set m. wf_address a \<and> relevant tracked a)"

text \<open>
  A ledger that a score source can replay: ordered, with well-formed addresses, and no relevant account ever spends
  more than it holds, not even in a transfer to itself.
\<close>

definition solvent :: "address list option \<Rightarrow> token_transfer list \<Rightarrow> bool" where
  "solvent tracked ts \<longleftrightarrow> ordered_transfers ts \<and> (\<forall>a. relevant tracked a \<longrightarrow> covered 0 (flows a ts))
     \<and> (\<forall>t \<in> set ts. wf_address (tt_from t) \<and> wf_address (tt_to t))"

definition serves_slices ::
  "('w, 'z) rpc_scheme \<Rightarrow> events \<Rightarrow> address \<Rightarrow> u64 \<Rightarrow> nat \<Rightarrow> u64 \<Rightarrow> address list option \<Rightarrow> token_transfer list \<Rightarrow> bool" where
  "serves_slices rpc ev token max_range cap head tracked ts \<longleftrightarrow>
     (\<exists>logs. case tracked of
        None \<Rightarrow> serves_all_transfers rpc ev token max_range cap head logs ts
      | Some accounts \<Rightarrow> serves_transfers rpc ev token max_range cap head logs ts \<and> list_all wf_address accounts)"

lemma flows_touches: "a \<in> A \<Longrightarrow> flows a (filter (touches A x y) ts) = flows a (filter (in_window x y) ts)"
  by (induction ts) (auto simp: touches_def)

lemma slice_transfers_yields:
  assumes "serves_slices rpc ev token max_range cap head tracked ts" "x \<le> y" "y \<le> head"
  shows "yields (slice_transfers rpc ev token tracked x y max_range cap) (\<lambda>(us, _).
    set us \<subseteq> set ts \<and> (\<forall>a. relevant tracked a \<longrightarrow> flows a us = flows a (filter (in_window x y) ts)))"
proof -
  have map_err: "yields (map_errA CpChain m) P" if "yields m P" for m :: "('w, chain_error, 'x) act" and P
    using that by (fastforce simp: yields_def)
  obtain logs where logs: "case tracked of
        None \<Rightarrow> serves_all_transfers rpc ev token max_range cap head logs ts
      | Some accounts \<Rightarrow> serves_transfers rpc ev token max_range cap head logs ts \<and> list_all wf_address accounts"
    using assms(1) unfolding serves_slices_def by blast
  show ?thesis
  proof (cases tracked)
    case None
    with logs have "yields (erc20_transfers rpc ev token x y max_range cap) (\<lambda>(r, _). r = filter (in_window x y) ts)"
      using erc20_all_transfers_yields assms(2,3) by fastforce
    then show ?thesis unfolding slice_transfers_def None option.case
      by (intro map_err) (auto elim!: yields_mono)
  next
    case (Some accounts)
    with logs have "yields (erc20_transfers_for_accounts rpc ev token accounts x y max_range cap)
        (\<lambda>(r, _). r = filter (touches (set accounts) x y) ts)"
      using erc20_transfers_yields assms(2,3) by fastforce
    then show ?thesis unfolding slice_transfers_def Some option.case
      by (intro map_err) (auto elim!: yields_mono simp: relevant_def flows_touches)
  qed
qed

lemma replay_slice_yields:
  assumes served: "serves_slices rpc ev (st_token scored) max_range cap head tracked ts" "solvent tracked ts"
    and rates: "rates_ascending (st_rates scored)" and range: "start \<le> x" "x < y" "y \<le> head"
    and s: "indexed_at tracked (st_rates scored) (ts_decimals t0) start ts x (ts_accounts (rs_token s))"
      "rs_token s = t0\<lparr>ts_accounts := ts_accounts (rs_token s)\<rparr>"
  shows "yields (replay_slice rpc ev scored tracked max_range cap (Suc x) y s) (\<lambda>s'.
    indexed_at tracked (st_rates scored) (ts_decimals t0) start ts y (ts_accounts (rs_token s'))
    \<and> rs_token s' = t0\<lparr>ts_accounts := ts_accounts (rs_token s')\<rparr>)"
  unfolding replay_slice_def
proof (rule yields_bindA [OF slice_transfers_yields [OF served(1)]], goal_cases)
  case (3 p)
  obtain us mt where p: "p = (us, mt)" by (cases p)
  let ?m = "ts_accounts (rs_token s)" and ?d = "ts_decimals t0" and ?r = "st_rates scored"
  have d: "ts_decimals (rs_token s) = ?d" using s(2) by (metis token_state.select_convs(1) token_state.surjective token_state.update_convs(5))
  have "replay_account (account_of ?m a) (flows a us) ?r (ts_decimals (rs_token s)) = Ok (account_at ?r ?d start ts y a)"
    if "relevant tracked a" for a
    using that 3 p s(1) d replay_window [OF rates, of ts a start x y ?d] served(2) range
    by (simp add: indexed_at_def solvent_def)
  then have "\<forall>a. relevant tracked a \<longrightarrow>
      replay_account (account_of ?m a) (flows a us) ?r (ts_decimals (rs_token s)) = Ok (account_at ?r ?d start ts y a)" by blast
  from apply_transfers_ok [OF _ this] s(1) obtain m where
    m: "foldR (apply_token_transfer ?r tracked) (rs_token s) us = Ok ((rs_token s)\<lparr>ts_accounts := m\<rparr>)" "om_wf m"
    "\<forall>a. relevant tracked a \<longrightarrow> account_of m a = account_at ?r ?d start ts y a"
    "fst ` set m \<subseteq> fst ` set ?m \<union> {a \<in> tt_from ` set us \<union> tt_to ` set us. relevant tracked a}"
    unfolding indexed_at_def by blast
  have "indexed_at tracked ?r ?d start ts y m"
    using m(2-4) s(1) 3 p served(2) unfolding indexed_at_def solvent_def by fastforce
  moreover have "(rs_token s)\<lparr>ts_accounts := m\<rparr> = t0\<lparr>ts_accounts := m\<rparr>" by (subst s(2)) simp
  ultimately show ?case using m(1) p by simp
qed (use range in auto)

lemma replay_slices_yields:
  assumes served: "serves_slices rpc ev (st_token scored) max_range cap head tracked ts" "solvent tracked ts"
    and rates: "rates_ascending (st_rates scored)" and range: "start \<le> x" "x \<le> target" "target \<le> head" "head < u64_max"
    and s: "indexed_at tracked (st_rates scored) (ts_decimals t0) start ts x (ts_accounts (rs_token s))"
      "rs_token s = t0\<lparr>ts_accounts := ts_accounts (rs_token s)\<rparr>"
  shows "yields (replay_slices rpc ev scored tracked max_range cap target (Suc x) s) (\<lambda>s'.
    indexed_at tracked (st_rates scored) (ts_decimals t0) start ts target (ts_accounts (rs_token s'))
    \<and> rs_token s' = t0\<lparr>ts_accounts := ts_accounts (rs_token s')\<rparr>)"
  using range s
proof (induction "target - x" arbitrary: x s rule: less_induct)
  case less
  show ?case
  proof (cases "x = target")
    case True
    with less.prems show ?thesis by (simp add: replay_slices.simps)
  next
    case False
    let ?y = "slice_end (Suc x) max_range target"
    have y: "x < ?y" "?y \<le> target" "saturating_add64 ?y 1 = Suc ?y"
      using less.prems False by (auto simp: slice_end_def saturating_add64_def)
    have step: "yields (replay_slice rpc ev scored tracked max_range cap (Suc x) ?y s) (\<lambda>s'.
        indexed_at tracked (st_rates scored) (ts_decimals t0) start ts ?y (ts_accounts (rs_token s'))
        \<and> rs_token s' = t0\<lparr>ts_accounts := ts_accounts (rs_token s')\<rparr>)"
      using less.prems y by (intro replay_slice_yields [OF served rates]) auto
    have c: "Suc x \<le> target" "Suc x < Suc ?y" using y by auto
    show ?thesis
      unfolding replay_slices.simps [of _ _ _ _ _ _ target "Suc x"] Let_def y(3) if_P [OF c(1)] if_P [OF c(2)]
    proof (rule yields_bindA [OF step])
      fix s' :: slice_replay
      assume "indexed_at tracked (st_rates scored) (ts_decimals t0) start ts ?y (ts_accounts (rs_token s'))
        \<and> rs_token s' = t0\<lparr>ts_accounts := ts_accounts (rs_token s')\<rparr>"
      then show "yields (replay_slices rpc ev scored tracked max_range cap target (Suc ?y) s') (\<lambda>s'.
          indexed_at tracked (st_rates scored) (ts_decimals t0) start ts target (ts_accounts (rs_token s'))
          \<and> rs_token s' = t0\<lparr>ts_accounts := ts_accounts (rs_token s')\<rparr>)"
        using less.hyps [of ?y s'] less.prems(1-4) y by simp
    qed
  qed
qed

lemma yields_map_err: "yields m P \<Longrightarrow> yields (map_errA g m) P"
  by (fastforce simp: yields_def)

lemma yields_block:
  "serves_blocks rpc blk head \<Longrightarrow> n \<le> head \<Longrightarrow> yields (map_errA CpChain (block_by_number rpc n)) ((=) (blk n))"
  by (intro yields_map_err answers_yields serves_block_by_number)

lemma advance_token_yields:
  assumes served: "serves_slices rpc ev (st_token scored) max_range cap head tracked ts" "solvent tracked ts"
    "serves_blocks rpc blk head"
    and rates: "rates_ascending (st_rates scored)"
    and range: "start \<le> ts_cursor_block t0" "ts_cursor_block t0 \<le> target" "target \<le> head" "head < u64_max" "0 < max_range"
    and t0: "indexed_at tracked (st_rates scored) (ts_decimals t0) start ts (ts_cursor_block t0) (ts_accounts t0)"
  shows "yields (advance_token rpc ev scored t0 target max_range cap tracked) (\<lambda>(t, _).
    indexed_at tracked (st_rates scored) (ts_decimals t0) start ts target (ts_accounts t)
    \<and> ts_decimals t = ts_decimals t0 \<and> ts_cursor_block t = target
    \<and> (if target = ts_cursor_block t0 then t = t0
       else ts_rates t = st_rates scored \<and> ts_cursor_block_hash t = ba_hash (blk target)))"
proof (cases "target = ts_cursor_block t0")
  case True
  with t0 show ?thesis by (simp add: advance_token_def)
next
  case False
  let ?s = "\<lparr>rs_token = t0, rs_indexed = 0, rs_metrics = default_log_metrics\<rparr>"
  have slices: "yields (replay_slices rpc ev scored tracked max_range cap target (ts_cursor_block t0 + 1) ?s) (\<lambda>s'.
      indexed_at tracked (st_rates scored) (ts_decimals t0) start ts target (ts_accounts (rs_token s'))
      \<and> rs_token s' = t0\<lparr>ts_accounts := ts_accounts (rs_token s')\<rparr>)"
    using replay_slices_yields [OF served(1,2) rates range(1-4), of t0 ?s] t0 by simp
  have "\<not> target < ts_cursor_block t0" "max_range \<noteq> 0" using range by auto
  with False show ?thesis
    unfolding advance_token_def
    by (simp only: if_False, intro yields_bindA [OF slices] yields_bindA [OF yields_block [OF served(3) range(3)]])
      (auto, (metis token_state.select_convs token_state.surjective token_state.update_convs)+)
qed

section \<open>Scores of an indexed account\<close>

lemma closed_at_append: "rest \<noteq> [] \<Longrightarrow> closed_at (rest @ new) l = closed_at rest l"
  by (cases rest) (simp_all add: closed_at_def next_from_def)

lemma score_state_append:
  assumes "rates_ascending (rs @ new)" "\<forall>q \<in> set new. l < from_block q"
  shows "score_state bal start d (rs @ new) l b = score_state bal start d rs l b"
proof -
  have new: "rates_ascending new" using assms(1) by (simp add: rates_ascending_append)
  then have fut: "closed_sum bal start d l new = 0" "open_seg start l new = None" "\<not> closed_at new l"
    using future_segments [OF new, of l bal start d] assms(2)
    by (auto simp: less_imp_le closed_at_def next_from_def split: list.splits)
  have "closed_sum bal start d l (rs @ new) = closed_sum bal start d l rs \<and> open_seg start l (rs @ new) = open_seg start l rs"
  proof (induction rs)
    case (Cons p rest)
    have "closed_at (rest @ new) l = closed_at rest l"
      using fut(3) closed_at_append [of rest new l] by (cases "rest = []") (simp_all add: closed_at_def next_from_def)
    moreover have "seg_end (rest @ new) l = seg_end rest l" if "closed_at rest l"
      using that by (cases rest) (simp_all add: closed_at_def next_from_def seg_end_def)
    ultimately show ?case using Cons by simp
  qed (use fut in simp)
  then show ?thesis by (simp add: score_state_def)
qed

lemma account_at_append:
  assumes "rates_ascending (rs @ new)" "\<forall>q \<in> set new. x < from_block q" "start \<le> x"
  shows "account_at (rs @ new) d start ts x a = account_at rs d start ts x a"
  unfolding account_at_def
  by (rule score_state_append [OF assms(1)]) (use assms(2) last_flow_bounds(2) [OF assms(3), of a ts] in force)

lemma account_at_start:
  "account_at rates d start ts start a = fresh_account start (account_balance a ts start)"
proof -
  have "filter (in_window (Suc start) start) ts = []" by (simp add: filter_empty_conv in_window_def)
  then show ?thesis by (simp add: account_at_def fresh_account_state [symmetric])
qed

lemma projected_account_at:
  assumes "rates_ascending rates" "ordered_transfers ts" "covered 0 (flows a ts)" "start \<le> t"
  shows "projected_numerator (account_at rates d start ts t a) t rates d
    = Ok (score_spec (account_balance a ts) start d t rates)"
  unfolding account_at_def
  by (rule projected_numerator_refines [OF assms(1) last_flow_bounds [OF assms(4)]])
    (rule balance_after_last [OF assms(2-4)], simp_all)

lemma first_contributing_spec:
  assumes "rates_ascending rates"
  shows "(case first_contributing rates t of None \<Rightarrow> score_spec bal 0 d t rates = 0
     | Some s \<Rightarrow> score_spec bal s d t rates = score_spec bal 0 d t rates \<and> s < t \<and> s \<in> from_block ` set rates)"
  using assms
proof (induction rates)
  case (Cons p rest)
  have later: "score_spec bal (from_block p) d t rest = score_spec bal 0 d t rest"
  proof -
    have "seg_integral bal (from_block p) q e = seg_integral bal 0 q e" if "q \<in> set rest" for q e
      using that Cons.prems by (auto simp: seg_integral_def rates_ascending_Cons max_def)
    moreover have "score_spec bal s d t qs = score_spec bal 0 d t qs"
      if "\<forall>q \<in> set qs. \<forall>e. seg_integral bal s q e = seg_integral bal 0 q e" for qs s
      using that by (induction qs) auto
    ultimately show ?thesis by blast
  qed
  let ?nxt = "case rest of [] \<Rightarrow> t | n # _ \<Rightarrow> from_block n"
  have se: "seg_end rest t = min ?nxt t" by (simp add: seg_end_def next_from_def split: list.splits)
  show ?case
  proof (cases "rate p \<noteq> 0 \<and> from_block p < min ?nxt t")
    case True
    moreover have "seg_integral bal (from_block p) p e = seg_integral bal 0 p e" for e by (simp add: seg_integral_def)
    ultimately show ?thesis using later by (simp add: Let_def)
  next
    case False
    then have zero: "scaled_integral (seg_integral bal s p (seg_end rest t)) d * rate p = 0" for s
      using se by (auto simp: seg_integral_def)
    have "first_contributing (p # rest) t = first_contributing rest t" using False by (auto simp: Let_def)
    with Cons zero show ?thesis by (auto simp: rates_ascending_Cons split: option.splits)
  qed
qed simp

section \<open>Resuming a token\<close>

text \<open>
  A stored token that can be carried on: it was indexed to its cursor under a rate history that the present one extends
  beyond the cursor, and the chain still has the block it stopped at.
\<close>

definition resumable :: "scored_token \<Rightarrow> (u64 \<Rightarrow> block_anchor) \<Rightarrow> token_transfer list \<Rightarrow> u64 \<Rightarrow> token_state \<Rightarrow> bool" where
  "resumable scored blk ts as_of t \<longleftrightarrow> ts_decimals t = st_decimals scored
     \<and> (\<exists>new. st_rates scored = ts_rates t @ new \<and> (\<forall>q \<in> set new. ts_cursor_block t < from_block q))
     \<and> ts_cursor_block t \<le> as_of
     \<and> (ts_cursor_block t = 0 \<or> ts_cursor_block_hash t = ba_hash (blk (ts_cursor_block t)))
     \<and> indexed_at None (ts_rates t) (ts_decimals t) 0 ts (ts_cursor_block t) (ts_accounts t)"

lemma resumable_indexed:
  assumes "resumable scored blk ts as_of t" "rates_ascending (st_rates scored)"
  shows "indexed_at None (st_rates scored) (st_decimals scored) 0 ts (ts_cursor_block t) (ts_accounts t)"
proof -
  from assms(1) obtain new where new: "st_rates scored = ts_rates t @ new" "\<forall>q \<in> set new. ts_cursor_block t < from_block q"
    and i: "indexed_at None (ts_rates t) (ts_decimals t) 0 ts (ts_cursor_block t) (ts_accounts t)" "ts_decimals t = st_decimals scored"
    by (auto simp: resumable_def)
  have "account_at (st_rates scored) (st_decimals scored) 0 ts (ts_cursor_block t) a
      = account_at (ts_rates t) (st_decimals scored) 0 ts (ts_cursor_block t) a" for a
    unfolding new(1) by (rule account_at_append) (use new assms(2) in auto)
  then show ?thesis using i by (simp add: indexed_at_def)
qed

lemma validate_resumable:
  assumes "resumable scored blk ts as_of t"
  shows "validate_stored_token t scored = Ok ()"
proof -
  from assms obtain new where new: "st_rates scored = ts_rates t @ new" "\<forall>q \<in> set new. ts_cursor_block t < from_block q"
    "ts_decimals t = st_decimals scored" by (auto simp: resumable_def)
  have "find (\<lambda>i. ts_rates t ! i \<noteq> st_rates scored ! i) [0..<length (ts_rates t)] = None"
    by (auto simp: find_None_iff new(1) nth_append)
  with new show ?thesis
    by (auto simp: validate_stored_token_def Let_def failR_if_def list_ex_iff)
qed

definition genesis_free :: "token_transfer list \<Rightarrow> bool" where
  "genesis_free ts \<longleftrightarrow> (\<forall>t \<in> set ts. 0 < tt_block_number t)"

lemma initial_indexed:
  assumes "solvent None ts" "genesis_free ts"
  shows "indexed_at None rates d 0 ts 0 []"
proof -
  have "account_of [] a = account_at rates d 0 ts 0 a" if "relevant None a" for a
  proof -
    have "account_balance a ts = history_of 0 (flows a ts)"
      by (rule balance_flows) (use assms(1) that in \<open>simp add: solvent_def\<close>)
    moreover have "history_of 0 (flows a ts) 0 = 0"
      by (rule history_before) (use assms(2) in \<open>force simp: genesis_free_def dest: flows_blocks\<close>)
    ultimately show ?thesis by (simp add: account_at_start account_of_def fresh_account_def default_account_def)
  qed
  then show ?thesis by (simp add: indexed_at_def)
qed

lemma resume_token_yields:
  assumes "serves_blocks rpc blk head" "as_of \<le> head" "solvent None ts" "genesis_free ts"
    "case map_of tokens (st_token scored) of None \<Rightarrow> True | Some t \<Rightarrow> resumable scored blk ts as_of t"
  shows "yields (resume_token rpc tokens scored) (\<lambda>t. resumable scored blk ts as_of t
    \<and> (map_of tokens (st_token scored) = Some t \<or> map_of tokens (st_token scored) = None \<and> t = initial_token_state scored))"
proof (cases "map_of tokens (st_token scored)")
  case None
  have "resumable scored blk ts as_of (initial_token_state scored)"
    using initial_indexed [OF assms(3,4)] by (simp add: resumable_def initial_token_state_def)
  with None show ?thesis by (simp add: resume_token_def)
next
  case (Some t)
  then have t: "resumable scored blk ts as_of t" using assms(5) by simp
  then have c: "ts_cursor_block t \<le> head" "ts_cursor_block t = 0 \<or> ts_cursor_block_hash t = ba_hash (blk (ts_cursor_block t))"
    using assms(2) by (auto simp: resumable_def)
  note anchor = yields_block [OF assms(1) c(1)]
  from Some t c(2) show ?thesis
    unfolding resume_token_def Some option.case validate_resumable [OF t] bindA_simps
    by (cases "ts_cursor_block t = 0") (auto intro!: yields_bindA [OF anchor])
qed

lemma index_token_yields:
  assumes served: "serves_slices rpc ev (st_token scored) max_range cap head None ts" "solvent None ts" "genesis_free ts"
    "serves_blocks rpc blk head"
    and rates: "rates_ascending (st_rates scored)" and range: "as_of \<le> head" "head < u64_max" "0 < max_range"
    and p: "om_wf (ip_tokens p)"
      "case map_of (ip_tokens p) (st_token scored) of None \<Rightarrow> True | Some t \<Rightarrow> resumable scored blk ts as_of t"
  shows "yields (index_token rpc ev as_of max_range cap p scored) (\<lambda>p'. \<exists>t.
    ip_tokens p' = om_insert (st_token scored) t (ip_tokens p) \<and> resumable scored blk ts as_of t \<and> ts_cursor_block t = as_of
    \<and> (ts_cursor_block t = 0 \<longrightarrow> ts_cursor_block_hash t = ZERO_HASH \<or> map_of (ip_tokens p) (st_token scored) = Some t))"
proof -
  have v: "map_errR core (validate_rates (st_rates scored)) = Ok ()"
    using rates by (simp add: validate_rates_iff [THEN iffD2])
  note resume = resume_token_yields [OF served(4) range(1) served(2,3) p(2)]
  show ?thesis
    unfolding index_token_def v bindA_simps
  proof (rule yields_bindA [OF resume], elim conjE)
    fix t0
    assume t0: "resumable scored blk ts as_of t0" and src: "map_of (ip_tokens p) (st_token scored) = Some t0
      \<or> map_of (ip_tokens p) (st_token scored) = None \<and> t0 = initial_token_state scored"
    have d: "ts_decimals t0 = st_decimals scored" "ts_cursor_block t0 \<le> as_of" using t0 by (auto simp: resumable_def)
    have adv: "yields (advance_token rpc ev scored t0 as_of max_range cap None) (\<lambda>(t, _).
      indexed_at None (st_rates scored) (ts_decimals t0) 0 ts as_of (ts_accounts t)
      \<and> ts_decimals t = ts_decimals t0 \<and> ts_cursor_block t = as_of
      \<and> (if as_of = ts_cursor_block t0 then t = t0
         else ts_rates t = st_rates scored \<and> ts_cursor_block_hash t = ba_hash (blk as_of)))"
      using resumable_indexed [OF t0 rates] d range
      by (intro advance_token_yields [OF served(1,2,4) rates]) auto
    show "yields (bindA (advance_token rpc ev scored t0 as_of max_range cap None) (\<lambda>(token', n, metrics).
        retA \<lparr>ip_tokens = om_insert (st_token scored) token' (ip_tokens p), ip_indexed = saturating_add64 (ip_indexed p) n,
              ip_metrics = merge_metrics (ip_metrics p) metrics\<rparr>)) (\<lambda>p'. \<exists>t.
      ip_tokens p' = om_insert (st_token scored) t (ip_tokens p) \<and> resumable scored blk ts as_of t \<and> ts_cursor_block t = as_of
      \<and> (ts_cursor_block t = 0 \<longrightarrow> ts_cursor_block_hash t = ZERO_HASH \<or> map_of (ip_tokens p) (st_token scored) = Some t))"
    proof (rule yields_bindA [OF adv], clarsimp, rule exI, intro conjI, rule refl)
      fix t n metrics
      assume t: "indexed_at None (st_rates scored) (ts_decimals t0) 0 ts (ts_cursor_block t) (ts_accounts t)"
        "ts_decimals t = ts_decimals t0" "as_of = ts_cursor_block t"
        "if ts_cursor_block t = ts_cursor_block t0 then t = t0
         else ts_rates t = st_rates scored \<and> ts_cursor_block_hash t = ba_hash (blk (ts_cursor_block t))"
      show "resumable scored blk ts (ts_cursor_block t) t"
        using t t0 d by (cases "ts_cursor_block t = ts_cursor_block t0") (auto simp: resumable_def)
    qed (use src d in \<open>auto simp: initial_token_state_def split: if_splits\<close>)
  qed
qed

section \<open>Opening the checkpoint source\<close>

text \<open>A provider for all scored tokens up to block \<open>head\<close>; \<open>T\<close> gives the transfers of each token.\<close>

definition serves_scores ::
  "('w, 'z) rpc_scheme \<Rightarrow> events \<Rightarrow> u64 \<Rightarrow> nat \<Rightarrow> u64 \<Rightarrow> (u64 \<Rightarrow> block_anchor) \<Rightarrow> address list option
    \<Rightarrow> (address \<Rightarrow> token_transfer list) \<Rightarrow> scored_token list \<Rightarrow> bool" where
  "serves_scores rpc ev max_range cap head blk tracked T scored \<longleftrightarrow>
     serves_blocks rpc blk head \<and> head < u64_max \<and> 0 < max_range \<and> inj_on st_token (set scored)
     \<and> (\<forall>s \<in> set scored. rates_ascending (st_rates s) \<and> (\<forall>r \<in> set (st_rates s). from_block r \<le> u64_max)
          \<and> wf_address (st_token s) \<and> serves_slices rpc ev (st_token s) max_range cap head tracked (T (st_token s))
          \<and> solvent tracked (T (st_token s)) \<and> genesis_free (T (st_token s)))"

text \<open>A checkpoint whose scored tokens can all be carried on, and that is persistable.\<close>

definition ready_tokens ::
  "(u64 \<Rightarrow> block_anchor) \<Rightarrow> (address \<Rightarrow> token_transfer list) \<Rightarrow> scored_token list \<Rightarrow> u64 \<Rightarrow> (address, token_state) btree_map \<Rightarrow> bool" where
  "ready_tokens blk T scored as_of tokens \<longleftrightarrow> valid_tokens tokens
     \<and> (\<forall>s \<in> set scored. case map_of tokens (st_token s) of None \<Rightarrow> True | Some t \<Rightarrow> resumable s blk (T (st_token s)) as_of t)"

lemma ready_empty [simp]: "ready_tokens blk T scored as_of []"
  by (simp add: ready_tokens_def valid_tokens_def)

lemma parse_block_hash: "parse_block tag n v = Ok b \<Longrightarrow> block_hash (json_index v ''hash'') = Ok (ba_hash b)"
  by (auto simp: parse_block_def split: if_splits)

lemma served_block_hash:
  assumes "serves_blocks rpc blk head" "n \<le> head"
  shows "valid_hash (ba_hash (blk n)) \<and> to_ascii_lowercase (ba_hash (blk n)) = ba_hash (blk n)"
proof -
  from assms obtain v where "parse_block (hex_tag n) (Some n) v = Ok (blk n)" by (auto simp: serves_blocks_def)
  then have "block_hash (json_index v ''hash'') = Ok (ba_hash (blk n))" by (rule parse_block_hash)
  then obtain h bs where h: "length h = 64" "hex_decode h = Some bs" "ba_hash (blk n) = ''0x'' @ to_ascii_lowercase h"
    by (auto simp: block_hash_def ok_or_def split: option.splits if_splits)
  have "list_all (\<lambda>c. hex_val c \<noteq> None) h"
    using h(2) by (induction h arbitrary: bs rule: hex_decode.induct) (auto split: option.splits)
  then have "valid_hash (''0x'' @ h)" using h(1) by (simp add: valid_hash_def)
  from valid_hash_lower [OF this] h(3) show ?thesis by simp
qed

lemma score_state_valid: "l \<le> x \<Longrightarrow> valid_account x rates (score_state bal start d rates l b)"
  by (cases "open_seg start l rates") (auto simp: valid_account_def score_state_def dest: open_seg_member)

lemma indexed_valid_accounts:
  assumes "indexed_at None rates d 0 ts x m"
  shows "valid_accounts x rates m"
proof -
  have "wf_address a \<and> valid_account x rates s" if "(a, s) \<in> set m" for a s
  proof -
    have a: "wf_address a" "relevant None a" "om_wf m" using assms that unfolding indexed_at_def by force+
    then have "map_of m a = Some s" using that by (simp add: om_wf_mem)
    then have "s = account_of m a" by (simp add: account_of_def)
    also have "\<dots> = account_at rates d 0 ts x a" using assms a(2) unfolding indexed_at_def by blast
    finally have "s = account_at rates d 0 ts x a" .
    then show ?thesis using a(1) last_flow_bounds(2) [of 0 x a ts] by (simp add: account_at_def score_state_valid)
  qed
  moreover have "om_wf m" using assms unfolding indexed_at_def by blast
  ultimately show ?thesis by (auto simp: valid_accounts_def)
qed

lemma resumable_valid:
  assumes "resumable s blk ts as_of t" "serves_blocks rpc blk head" "as_of \<le> head" "head < u64_max"
    "rates_ascending (st_rates s)" "\<forall>r \<in> set (st_rates s). from_block r \<le> u64_max"
    "ts_cursor_block t = 0 \<Longrightarrow> ts_cursor_block_hash t = ZERO_HASH"
  shows "valid_token t"
proof -
  have z: "valid_hash ZERO_HASH" by code_simp
  have "valid_accounts (ts_cursor_block t) (ts_rates t) (ts_accounts t)"
    using assms(1) indexed_valid_accounts by (auto simp: resumable_def)
  moreover have "valid_hash (ts_cursor_block_hash t) \<and> to_ascii_lowercase (ts_cursor_block_hash t) = ts_cursor_block_hash t"
    using assms(1,3,7) served_block_hash [OF assms(2), of "ts_cursor_block t"] z lower_ZERO_HASH
    by (cases "ts_cursor_block t = 0") (auto simp: resumable_def)
  ultimately show ?thesis
    using assms(1,3-7) by (auto simp: valid_token_def resumable_def rates_ascending_append)
qed

lemma index_tokens_yield:
  assumes served: "serves_scores rpc ev max_range cap head blk None T scored" "as_of \<le> head"
    and p: "ready_tokens blk T scored as_of (ip_tokens p)" and active: "set active \<subseteq> set scored"
  shows "yields (foldA (index_token rpc ev as_of max_range cap) p active) (\<lambda>p'.
    ready_tokens blk T scored as_of (ip_tokens p')
    \<and> (\<forall>s \<in> set active. \<exists>t. map_of (ip_tokens p') (st_token s) = Some t \<and> ts_cursor_block t = as_of))"
proof (rule yields_foldA)
  fix p :: index_progress and ys s zs
  assume split: "active = ys @ s # zs" and inv: "ready_tokens blk T scored as_of (ip_tokens p)
    \<and> (\<forall>s \<in> set ys. \<exists>t. map_of (ip_tokens p) (st_token s) = Some t \<and> ts_cursor_block t = as_of)"
  have s: "s \<in> set scored" using active split by auto
  have wf: "om_wf (ip_tokens p)" using inv by (simp add: ready_tokens_def valid_tokens_def)
  have sv: "serves_blocks rpc blk head" "head < u64_max" "0 < max_range" "inj_on st_token (set scored)"
    "rates_ascending (st_rates s)" "\<forall>r \<in> set (st_rates s). from_block r \<le> u64_max" "wf_address (st_token s)"
    "serves_slices rpc ev (st_token s) max_range cap head None (T (st_token s))" "solvent None (T (st_token s))"
    "genesis_free (T (st_token s))" using served(1) s by (auto simp: serves_scores_def)
  have pre: "case map_of (ip_tokens p) (st_token s) of None \<Rightarrow> True | Some t \<Rightarrow> resumable s blk (T (st_token s)) as_of t"
    using inv s by (auto simp: ready_tokens_def)
  show "yields (index_token rpc ev as_of max_range cap p s) (\<lambda>p'. ready_tokens blk T scored as_of (ip_tokens p')
    \<and> (\<forall>s \<in> set (ys @ [s]). \<exists>t. map_of (ip_tokens p') (st_token s) = Some t \<and> ts_cursor_block t = as_of))"
  proof (rule yields_mono [OF index_token_yields [OF sv(8-10) sv(1) sv(5) served(2) sv(2,3) wf pre]], elim exE conjE)
    fix p' t
    assume p': "ip_tokens p' = om_insert (st_token s) t (ip_tokens p)" and t: "resumable s blk (T (st_token s)) as_of t"
      "ts_cursor_block t = as_of"
      "ts_cursor_block t = 0 \<longrightarrow> ts_cursor_block_hash t = ZERO_HASH \<or> map_of (ip_tokens p) (st_token s) = Some t"
    have "valid_token t"
    proof (cases "map_of (ip_tokens p) (st_token s) = Some t")
      case True
      then show ?thesis using inv map_of_SomeD [OF True] by (auto simp: ready_tokens_def valid_tokens_def)
    next
      case False
      then show ?thesis using t by (intro resumable_valid [OF t(1) sv(1) served(2) sv(2,5,6)]) auto
    qed
    then have "valid_tokens (ip_tokens p')"
      using inv om_insert_subset [of "st_token s" t "ip_tokens p"] sv(7) wf unfolding p'
      by (auto simp: ready_tokens_def valid_tokens_def om_wf_insert)
    moreover have "\<forall>s' \<in> set scored. st_token s' = st_token s \<longrightarrow> s' = s" using sv(4) s by (auto simp: inj_on_def)
    ultimately show "ready_tokens blk T scored as_of (ip_tokens p')
      \<and> (\<forall>s \<in> set (ys @ [s]). \<exists>t. map_of (ip_tokens p') (st_token s) = Some t \<and> ts_cursor_block t = as_of)"
      using inv t(1,2) unfolding p' by (auto simp: ready_tokens_def om_get_insert [OF wf])
  qed
qed (use p in simp)

definition opened_at ::
  "incident_config \<Rightarrow> (u64 \<Rightarrow> block_anchor) \<Rightarrow> (address \<Rightarrow> token_transfer list) \<Rightarrow> u64 \<Rightarrow> checkpoint_score_source \<Rightarrow> bool" where
  "opened_at config blk T as_of src \<longleftrightarrow> css_config src = config \<and> css_as_of_block src = as_of
     \<and> ready_tokens blk T (ic_scored_tokens config) as_of (cs_tokens (css_state src))
     \<and> (\<forall>s \<in> set (ic_scored_tokens config). contributes_at s as_of \<longrightarrow>
          (\<exists>t. map_of (cs_tokens (css_state src)) (st_token s) = Some t \<and> ts_cursor_block t = as_of))"

lemma yields_cleanupA: "yields m P \<Longrightarrow> yields (cleanupA m c) P"
  unfolding yields_def cleanupA_def by (metis (no_types, lifting) case_prod_conv old.sum.simps(6))

lemma check_chain_yields: "answers (chain_id rpc) (Ok n) \<Longrightarrow> yields (check_chain rpc n) (\<lambda>_. True)"
  unfolding check_chain_def
  by (rule yields_bindA [OF yields_map_err [OF answers_yields]]) (auto simp: guardA_def)

lemma checkpoint_open_yields:
  assumes served: "serves_scores rpc ev max_range cap head blk None T (ic_scored_tokens config)" "as_of \<le> head"
    "answers (chain_id rpc) (Ok chain)"
    and files: "32 \<le> length key" "yields (fs_absolute fs p) ((=) path)"
      "yields (acquire fs (lock_path_for_checkpoint path)) (\<lambda>_. True)"
      "yields (load_checkpoint fs cc path chain key) (\<lambda>st. cs_chain_id st = chain
         \<and> ready_tokens blk T (ic_scored_tokens config) as_of (cs_tokens st))"
  shows "yields (checkpoint_open rpc ev fs cc config as_of p chain key max_range cap)
    (\<lambda>src. opened_at config blk T as_of src \<and> cs_chain_id (css_state src) = chain \<and> cm_path (css_metadata src) = path)"
proof -
  let ?active = "filter (\<lambda>scored. contributes_at scored as_of) (ic_scored_tokens config)"
  have sub: "set ?active \<subseteq> set (ic_scored_tokens config)" by auto
  have blk: "serves_blocks rpc blk head" using served(1) by (simp add: serves_scores_def)
  have locked: "yields (checkpoint_open_locked rpc ev fs cc config as_of path chain key max_range cap lock)
      (\<lambda>src. opened_at config blk T as_of src \<and> cs_chain_id (css_state src) = chain \<and> cm_path (css_metadata src) = path)" for lock
    unfolding checkpoint_open_locked_def Let_def
  proof (rule yields_bindA [OF check_chain_yields [OF served(3)]], rule yields_bindA [OF files(4)], elim conjE)
    fix st :: checkpoint_state
    assume st: "cs_chain_id st = chain" "ready_tokens blk T (ic_scored_tokens config) as_of (cs_tokens st)"
    let ?p = "\<lparr>ip_tokens = cs_tokens st, ip_indexed = 0, ip_metrics = default_log_metrics\<rparr>"
    have "ready_tokens blk T (ic_scored_tokens config) as_of (ip_tokens ?p)" using st(2) by simp
    note run = index_tokens_yield [OF served(1,2) this sub]
    show "yields (bindA (foldA (index_token rpc ev as_of max_range cap) ?p ?active) (\<lambda>p.
        bindA (map_errA CpChain (block_by_number rpc as_of)) (\<lambda>anchor.
          retA \<lparr>css_config = config, css_as_of_block = as_of, css_state = st\<lparr>cs_tokens := ip_tokens p\<rparr>, css_lock = lock,
             css_metadata = \<lparr>cm_path = path, cm_as_of_block = as_of, cm_as_of_block_hash = ba_hash anchor,
               cm_indexed_transfers = ip_indexed p, cm_indexed_tokens = length ?active, cm_log_metrics = ip_metrics p\<rparr>\<rparr>)))
      (\<lambda>src. opened_at config blk T as_of src \<and> cs_chain_id (css_state src) = chain \<and> cm_path (css_metadata src) = path)"
      by (rule yields_bindA [OF run], rule yields_bindA [OF yields_block [OF blk served(2)]])
        (use st(1) in \<open>simp add: opened_at_def\<close>)
  qed
  have k: "(length key < 32) = False" using files(1) by simp
  show ?thesis
    unfolding checkpoint_open_def guardA_def k if_False bindA_simps(1)
    by (rule yields_bindA [OF yields_map_err [OF files(2)]]) (auto intro!: yields_bindA [OF files(3)] yields_cleanupA [OF locked])
qed

lemma checkpoint_score_yields:
  assumes src: "opened_at config blk T as_of src"
    and served: "serves_scores rpc ev max_range cap head blk None T (ic_scored_tokens config)" "as_of \<le> head"
    and user: "\<not> is_zero user"
      "\<forall>s \<in> set (ic_scored_tokens config). serves_balances rpc abi (st_token s) head (T (st_token s)) {user}"
  shows "yields (checkpoint_gross_score_of rpc abi src user) (\<lambda>v. v = gross_score
    (\<Sum>s\<leftarrow>ic_scored_tokens config. score_spec (account_balance user (T (st_token s))) 0 (st_decimals s) as_of (st_rates s)))"
proof -
  let ?n = "\<lambda>s. score_spec (account_balance user (T (st_token s))) 0 (st_decimals s) as_of (st_rates s)"
  have rel: "relevant None user" using user(1) by (simp add: relevant_def)
  have step: "yields (checkpoint_score_step rpc abi src user n s) (\<lambda>n'. n' = n + ?n s)"
    if s: "s \<in> set (ic_scored_tokens config)" for n s
  proof (cases "contributes_at s as_of")
    case False
    have "rates_ascending (st_rates s)" using served(1) s by (auto simp: serves_scores_def)
    from first_contributing_spec [OF this, where t = as_of and bal = "account_balance user (T (st_token s))" and d = "st_decimals s"] False
    have "?n s = 0" by (simp add: contributes_at_def first_contributing_block_def)
    with False src show ?thesis by (simp add: checkpoint_score_step_def opened_at_def)
  next
    case True
    from src s True obtain t where t: "map_of (cs_tokens (css_state src)) (st_token s) = Some t" "ts_cursor_block t = as_of"
      by (auto simp: opened_at_def)
    have sv: "rates_ascending (st_rates s)" "ordered_transfers (T (st_token s))" "covered 0 (flows user (T (st_token s)))"
      using served(1) s rel by (auto simp: serves_scores_def solvent_def)
    have "resumable s blk (T (st_token s)) as_of t"
      using src s t(1) by (auto simp: opened_at_def ready_tokens_def dest: bspec)
    from resumable_indexed [OF this sv(1)] t(2) rel
    have acc: "account_of (ts_accounts t) user = account_at (st_rates s) (st_decimals s) 0 (T (st_token s)) as_of user"
      by (simp add: indexed_at_def)
    have bal: "yields (map_errA CpChain (balance_of_at rpc abi (st_token s) user as_of)) ((=) (account_balance user (T (st_token s)) as_of))"
      by (rule yields_map_err) (use user(2) s served(2) in \<open>simp add: serves_balances_def\<close>)
    have cfg: "css_config src = config" "css_as_of_block src = as_of" using src by (simp_all add: opened_at_def)
    show ?thesis
      unfolding checkpoint_score_step_def cfg
      using True t(1) projected_account_at [OF sv, of 0 as_of "st_decimals s"]
      by (auto simp: Let_def acc intro!: yields_bindA [OF bal])
  qed
  have cfg: "css_config src = config" using src by (simp add: opened_at_def)
  have "yields (foldA (checkpoint_score_step rpc abi src user) 0 (ic_scored_tokens config)) (\<lambda>n. n = (\<Sum>s\<leftarrow>ic_scored_tokens config. ?n s))"
    by (rule yields_foldA [where I = "\<lambda>n ys. n = (\<Sum>s\<leftarrow>ys. ?n s)"]) (auto intro!: yields_mono [OF step])
  note total_n = this
  show ?thesis
    unfolding checkpoint_gross_score_of_def cfg by (rule yields_bindA [OF total_n]) simp
qed

section \<open>The bulk source\<close>

lemma bulk_start_yields:
  assumes "serves_balances rpc abi token head ts (set tracked)" "start \<le> head" "\<not> list_ex is_zero tracked"
  shows "yields (bulk_start_accounts rpc abi token start tracked) (\<lambda>m. indexed_at (Some tracked) rates d start ts start m)"
proof -
  let ?I = "\<lambda>m ys. om_wf m \<and> fst ` set m = set ys
    \<and> (\<forall>a \<in> set ys. map_of m a = Some (fresh_account start (account_balance a ts start)))"
  have "yields (bulk_start_accounts rpc abi token start tracked) (\<lambda>m. ?I m tracked)"
    unfolding bulk_start_accounts_def
  proof (rule yields_foldA)
    fix m :: "(address, account_score_state) btree_map" and ys a zs
    assume split: "tracked = ys @ a # zs" and m: "?I m ys"
    have bal: "yields (map_errA CpChain (balance_of_at rpc abi token a start)) ((=) (account_balance a ts start))"
      by (rule yields_map_err) (use assms(1,2) split in \<open>simp add: serves_balances_def\<close>)
    have "?I (om_insert a (fresh_account start (account_balance a ts start)) m) (ys @ [a])"
      using m om_insert_keys [of a "fresh_account start (account_balance a ts start)" m] by (auto simp: om_wf_insert om_get_insert)
    then show "yields (bindA (map_errA CpChain (balance_of_at rpc abi token a start)) (\<lambda>b.
        retA (om_insert a (default_account\<lparr>balance := b, last_block := start\<rparr>) m))) (\<lambda>m'. ?I m' (ys @ [a]))"
      by (intro yields_bindA [OF bal]) (simp add: fresh_account_def)
  qed simp
  then show ?thesis
  proof (rule yields_mono)
    fix m
    assume m: "?I m tracked"
    have "account_of m a = account_at rates d start ts start a" if "relevant (Some tracked) a" for a
      using that m by (simp add: relevant_def account_of_def account_at_start)
    moreover have "wf_address a \<and> relevant (Some tracked) a" if "a \<in> fst ` set m" for a
      using that m assms(1,3) by (auto simp: serves_balances_def relevant_def list_ex_iff)
    ultimately show "indexed_at (Some tracked) rates d start ts start m" using m unfolding indexed_at_def by blast
  qed
qed

definition bulk_token ::
  "address list \<Rightarrow> (address \<Rightarrow> token_transfer list) \<Rightarrow> u64 \<Rightarrow> (address, token_state) btree_map \<Rightarrow> scored_token \<Rightarrow> bool" where
  "bulk_token tracked T as_of tokens s \<longleftrightarrow> (\<exists>t start. map_of tokens (st_token s) = Some t \<and> ts_decimals t = st_decimals s
     \<and> ts_rates t = st_rates s \<and> first_contributing_block s as_of = Some start
     \<and> indexed_at (Some tracked) (st_rates s) (st_decimals s) start (T (st_token s)) as_of (ts_accounts t))"

lemma bulk_index_yields:
  assumes served: "serves_scores rpc ev max_range cap head blk (Some tracked) T scored" "as_of \<le> head"
    and bal: "\<forall>s \<in> set scored. serves_balances rpc abi (st_token s) head (T (st_token s)) (set tracked)"
    and nz: "\<not> list_ex is_zero tracked" and active: "set active \<subseteq> {s \<in> set scored. contributes_at s as_of}"
  shows "yields (foldA (bulk_index_token rpc abi ev as_of tracked max_range cap)
      \<lparr>ip_tokens = [], ip_indexed = 0, ip_metrics = default_log_metrics, bp_indexed_tokens = []\<rparr> active)
    (\<lambda>p. om_wf (ip_tokens p) \<and> set (bp_indexed_tokens p) = st_token ` set active
       \<and> (\<forall>s \<in> set active. bulk_token tracked T as_of (ip_tokens p) s))"
proof (rule yields_foldA)
  fix p :: bulk_progress and ys s zs
  assume split: "active = ys @ s # zs" and inv: "om_wf (ip_tokens p) \<and> set (bp_indexed_tokens p) = st_token ` set ys
    \<and> (\<forall>s \<in> set ys. bulk_token tracked T as_of (ip_tokens p) s)"
  have s: "s \<in> set scored" "contributes_at s as_of" and ys: "set ys \<subseteq> set scored" using active split by auto
  have sv: "serves_blocks rpc blk head" "head < u64_max" "0 < max_range" "inj_on st_token (set scored)"
    "rates_ascending (st_rates s)" "serves_slices rpc ev (st_token s) max_range cap head (Some tracked) (T (st_token s))"
    "solvent (Some tracked) (T (st_token s))" using served(1) s by (auto simp: serves_scores_def)
  have v: "map_errR core (validate_rates (st_rates s)) = Ok ()" using sv(5) by (simp add: validate_rates_iff [THEN iffD2])
  let ?Q = "\<lambda>p'. om_wf (ip_tokens p') \<and> set (bp_indexed_tokens p') = st_token ` set (ys @ [s])
    \<and> (\<forall>s \<in> set (ys @ [s]). bulk_token tracked T as_of (ip_tokens p') s)"
  show "yields (bulk_index_token rpc abi ev as_of tracked max_range cap p s) ?Q"
  proof (cases "st_token s \<in> set (bp_indexed_tokens p)")
    case True
    then have "s \<in> set ys" using inv ys s(1) sv(4) by (auto simp: inj_on_def)
    moreover from this inv obtain t where "map_of (ip_tokens p) (st_token s) = Some t" "ts_decimals t = st_decimals s"
      "ts_rates t = st_rates s" by (auto simp: bulk_token_def)
    ultimately show ?thesis
      unfolding bulk_index_token_def Let_def v bindA_simps if_P [OF True] using inv by auto
  next
    case False
    from s(2) obtain start where start: "first_contributing_block s as_of = Some start"
      by (auto simp: contributes_at_def)
    then have lt: "start < as_of" using first_contributing_spec [OF sv(5), where t = as_of] by (simp add: first_contributing_block_def)
    then have le: "start \<le> head" using served(2) by simp
    have wf: "om_wf (ip_tokens p)" using inv by blast
    note accounts = bulk_start_yields [OF bal [rule_format, OF s(1)] le nz, of "st_rates s" "st_decimals s"]
    let ?t0 = "\<lambda>m. \<lparr>ts_decimals = st_decimals s, ts_cursor_block = start, ts_cursor_block_hash = ZERO_HASH,
      ts_rates = st_rates s, ts_accounts = m\<rparr>"
    have "yields (advance_token rpc ev s (?t0 m) as_of max_range cap (Some tracked)) (\<lambda>(t, _).
        indexed_at (Some tracked) (st_rates s) (st_decimals s) start (T (st_token s)) as_of (ts_accounts t)
        \<and> ts_decimals t = st_decimals s \<and> ts_rates t = st_rates s)"
      if "indexed_at (Some tracked) (st_rates s) (st_decimals s) start (T (st_token s)) start m" for m
      by (rule yields_mono [OF advance_token_yields [OF sv(6,7,1,5), of start "?t0 m" as_of]])
        (use that lt served(2) sv in auto)
    note advance = this
    show ?thesis
      unfolding bulk_index_token_def Let_def v bindA_simps if_not_P [OF False] start ok_or_simps
    proof (rule yields_bindA [OF accounts], rule yields_bindA [OF advance], assumption, clarsimp)
      fix t :: token_state
      assume t: "indexed_at (Some tracked) (st_rates s) (st_decimals s) start (T (st_token s)) as_of (ts_accounts t)"
        "ts_decimals t = st_decimals s" "ts_rates t = st_rates s"
      have get_t: "map_of (om_insert (st_token s) t (ip_tokens p)) (st_token s) = Some t" by (simp add: om_get_insert wf)
      have "bulk_token tracked T as_of (om_insert (st_token s) t (ip_tokens p)) s"
        unfolding bulk_token_def using get_t t start by blast
      moreover have "bulk_token tracked T as_of (om_insert (st_token s) t (ip_tokens p)) s'" if "s' \<in> set ys" for s'
      proof -
        have "st_token s' \<in> set (bp_indexed_tokens p)" using inv that by blast
        then have "st_token s' \<noteq> st_token s" using False by metis
        moreover have "bulk_token tracked T as_of (ip_tokens p) s'" using inv that by blast
        ultimately show ?thesis by (simp add: bulk_token_def om_get_insert [OF wf])
      qed
      ultimately show "om_wf (om_insert (st_token s) t (ip_tokens p))
        \<and> set (insort (st_token s) (bp_indexed_tokens p)) = insert (st_token s) (st_token ` set ys)
        \<and> bulk_token tracked T as_of (om_insert (st_token s) t (ip_tokens p)) s
        \<and> (\<forall>s' \<in> set ys. bulk_token tracked T as_of (om_insert (st_token s) t (ip_tokens p)) s')"
        using inv wf by (simp add: om_wf_insert set_insort_key)
    qed
  qed
qed simp

definition bulk_opened ::
  "incident_config \<Rightarrow> (address \<Rightarrow> token_transfer list) \<Rightarrow> u64 \<Rightarrow> address list \<Rightarrow> bulk_score_source \<Rightarrow> bool" where
  "bulk_opened config T as_of tracked src \<longleftrightarrow> bss_config src = config \<and> bss_as_of_block src = as_of
     \<and> bss_tracked_accounts src = tracked
     \<and> (\<forall>s \<in> set (ic_scored_tokens config). contributes_at s as_of \<longrightarrow> bulk_token tracked T as_of (cs_tokens (bss_state src)) s)"

lemma mapA_unit_yields: "(\<And>x. x \<in> set xs \<Longrightarrow> yields (f x) (\<lambda>_. True)) \<Longrightarrow> yields (mapA f xs) (\<lambda>_. True)"
  by (induction xs) (auto intro!: yields_bindA)

lemma bulk_open_yields:
  assumes served: "serves_scores rpc ev max_range cap head blk (Some tracked) T (ic_scored_tokens config)" "as_of \<le> head"
    "answers (chain_id rpc) (Ok chain)"
    and bal: "\<forall>s \<in> set (ic_scored_tokens config). serves_balances rpc abi (st_token s) head (T (st_token s)) (set tracked)"
    and nz: "\<not> list_ex is_zero tracked"
  shows "yields (bulk_open rpc abi ev config as_of tracked chain max_range cap) (bulk_opened config T as_of tracked)"
proof -
  let ?active = "filter (\<lambda>scored. contributes_at scored as_of) (ic_scored_tokens config)"
  have sub: "set ?active \<subseteq> {s \<in> set (ic_scored_tokens config). contributes_at s as_of}" by auto
  have blk: "serves_blocks rpc blk head" using served(1) by (simp add: serves_scores_def)
  note run = bulk_index_yields [OF served(1,2) bal nz sub]
  have check: "yields (check_indexed_token rpc abi as_of tracked tokens (st_token s)) (\<lambda>_. True)"
    if s: "s \<in> set ?active" "bulk_token tracked T as_of tokens s" for s tokens
  proof -
    from s(2) obtain t start where t: "map_of tokens (st_token s) = Some t"
      "indexed_at (Some tracked) (st_rates s) (st_decimals s) start (T (st_token s)) as_of (ts_accounts t)"
      by (auto simp: bulk_token_def)
    have "yields (check_indexed_balance rpc abi as_of (st_token s) t user) (\<lambda>_. True)" if user: "user \<in> set tracked" for user
    proof -
      have b: "yields (map_errA CpChain (balance_of_at rpc abi (st_token s) user as_of)) ((=) (account_balance user (T (st_token s)) as_of))"
        by (rule yields_map_err) (use bal s(1) user served(2) in \<open>simp add: serves_balances_def\<close>)
      have "relevant (Some tracked) user" using user nz by (auto simp: relevant_def list_ex_iff)
      then have "account_of (ts_accounts t) user = account_at (st_rates s) (st_decimals s) start (T (st_token s)) as_of user"
        using t(2) unfolding indexed_at_def by blast
      then have "(case map_of (ts_accounts t) user of None \<Rightarrow> 0 | Some account \<Rightarrow> balance account) = account_balance user (T (st_token s)) as_of"
        by (metis (mono_tags, lifting) account_at_balance account_of_def account_score_state.select_convs(1) default_account_def option.case_eq_if)
      then show ?thesis
        unfolding check_indexed_balance_def Let_def by (intro yields_bindA [OF b]) (simp add: guardA_def)
    qed
    note users = mapA_unit_yields [OF this]
    show ?thesis unfolding check_indexed_token_def t(1) ok_or_simps bindA_simps by (rule yields_bindA [OF users]) simp_all
  qed
  show ?thesis
    unfolding bulk_open_def guardA_def if_not_P [OF nz] bindA_simps(1)
  proof (rule yields_bindA [OF check_chain_yields [OF served(3)]], rule yields_bindA [OF run], elim conjE)
    fix p :: bulk_progress
    assume p: "set (bp_indexed_tokens p) = st_token ` set ?active" "\<forall>s \<in> set ?active. bulk_token tracked T as_of (ip_tokens p) s"
    have checks: "yields (mapA (check_indexed_token rpc abi as_of tracked (ip_tokens p)) (bp_indexed_tokens p)) (\<lambda>_. True)"
    proof (rule mapA_unit_yields)
      fix x
      assume "x \<in> set (bp_indexed_tokens p)"
      then obtain s where "x = st_token s" "s \<in> set ?active" unfolding p(1) by blast
      then show "yields (check_indexed_token rpc abi as_of tracked (ip_tokens p) x) (\<lambda>_. True)"
        using check [of s "ip_tokens p"] p(2) by metis
    qed
    show "yields (bindA (mapA (check_indexed_token rpc abi as_of tracked (ip_tokens p)) (bp_indexed_tokens p)) (\<lambda>_.
        bindA (map_errA CpChain (block_by_number rpc as_of)) (\<lambda>anchor.
          retA \<lparr>bss_config = config, bss_as_of_block = as_of,
             bss_state = \<lparr>cs_chain_id = chain, cs_tokens = ip_tokens p\<rparr>, bss_tracked_accounts = tracked,
             bss_metadata = \<lparr>bm_as_of_block = as_of, bm_as_of_block_hash = ba_hash anchor,
               bm_indexed_transfers = ip_indexed p, bm_indexed_tokens = length (bp_indexed_tokens p),
               bm_tracked_accounts = length tracked, bm_log_metrics = ip_metrics p\<rparr>\<rparr>))) (bulk_opened config T as_of tracked)"
      by (rule yields_bindA [OF checks], rule yields_bindA [OF yields_block [OF blk served(2)]])
        (use p(2) in \<open>simp add: bulk_opened_def\<close>)
  qed
qed

lemma foldR_sum:
  "(\<And>n x. x \<in> set xs \<Longrightarrow> f n x = Ok (n + g x)) \<Longrightarrow> foldR f n xs = Ok (n + (\<Sum>x\<leftarrow>xs. g x :: nat))"
  by (induction xs arbitrary: n) (auto simp: add.assoc)

lemma bulk_score:
  assumes src: "bulk_opened config T as_of tracked src" and user: "user \<in> set tracked" "\<not> is_zero user"
    and served: "serves_scores rpc ev max_range cap head blk (Some tracked) T (ic_scored_tokens config)"
  shows "bulk_gross_score_of src user = Ok (gross_score
    (\<Sum>s\<leftarrow>ic_scored_tokens config. score_spec (account_balance user (T (st_token s))) 0 (st_decimals s) as_of (st_rates s)))"
proof -
  have rel: "relevant (Some tracked) user" using user by (simp add: relevant_def)
  have cfg: "bss_config src = config" "bss_as_of_block src = as_of" "bss_tracked_accounts src = tracked"
    using src by (simp_all add: bulk_opened_def)
  have "bulk_score_step src user n s = Ok (n + score_spec (account_balance user (T (st_token s))) 0 (st_decimals s) as_of (st_rates s))"
    if s: "s \<in> set (ic_scored_tokens config)" for n s
  proof -
    have sv: "rates_ascending (st_rates s)" "ordered_transfers (T (st_token s))" "covered 0 (flows user (T (st_token s)))"
      using served s rel by (auto simp: serves_scores_def solvent_def)
    note spec = first_contributing_spec [OF sv(1), where t = as_of and bal = "account_balance user (T (st_token s))" and d = "st_decimals s"]
    show ?thesis
    proof (cases "first_contributing_block s as_of")
      case None
      with spec show ?thesis by (simp add: bulk_score_step_def cfg contributes_at_def first_contributing_block_def)
    next
      case (Some start)
      then have c: "contributes_at s as_of" by (simp add: contributes_at_def)
      then have "bulk_token tracked T as_of (cs_tokens (bss_state src)) s" using src s by (simp add: bulk_opened_def)
      then obtain t where t: "map_of (cs_tokens (bss_state src)) (st_token s) = Some t"
        "indexed_at (Some tracked) (st_rates s) (st_decimals s) start (T (st_token s)) as_of (ts_accounts t)"
        using Some by (auto simp: bulk_token_def)
      have "account_of (ts_accounts t) user = account_at (st_rates s) (st_decimals s) start (T (st_token s)) as_of user"
        using t(2) rel unfolding indexed_at_def by blast
      with spec Some c t(1) projected_account_at [OF sv, of start as_of "st_decimals s"] show ?thesis
        by (simp add: bulk_score_step_def cfg Let_def first_contributing_block_def)
    qed
  qed
  then have "foldR (bulk_score_step src user) 0 (ic_scored_tokens config) = Ok (0
      + (\<Sum>s\<leftarrow>ic_scored_tokens config. score_spec (account_balance user (T (st_token s))) 0 (st_decimals s) as_of (st_rates s)))"
    by (rule foldR_sum)
  then show ?thesis using user(1) by (simp add: bulk_gross_score_of_def cfg)
qed

end
