(* ===== verification/Demo_Codec.thy ===== *)
theory Demo_Codec
  imports Checkpoint_Spec
begin

text \<open>
  A concrete, length-prefixed encoding of checkpoint envelopes.  It stands in for the JSON text that serde writes, so that
  the laws the development asks of a codec are known to hold for an actual one.
\<close>

type_synonym 'a reader = "bytes \<Rightarrow> ('a \<times> bytes) option"

definition reads_back :: "('a \<Rightarrow> bytes) \<Rightarrow> 'a reader \<Rightarrow> bool" where
  "reads_back w r \<longleftrightarrow> (\<forall>x rest. r (w x @ rest) = Some (x, rest))"

fun read_nat :: "nat reader" where
  "read_nat [] = None"
| "read_nat (b # bs) = (if b = 0 then Some (0, bs) else map_option (\<lambda>(n, r). (Suc n, r)) (read_nat bs))"

definition write_nat :: "nat \<Rightarrow> bytes" where "write_nat n = replicate n 1 @ [0]"

definition read_pair :: "'a reader \<Rightarrow> 'b reader \<Rightarrow> ('a \<times> 'b) reader" where
  "read_pair ra rb bs = (case ra bs of None \<Rightarrow> None | Some (a, r) \<Rightarrow> map_option (\<lambda>(b, r'). ((a, b), r')) (rb r))"

definition write_pair :: "('a \<Rightarrow> bytes) \<Rightarrow> ('b \<Rightarrow> bytes) \<Rightarrow> 'a \<times> 'b \<Rightarrow> bytes" where
  "write_pair wa wb = (\<lambda>(a, b). wa a @ wb b)"

fun read_items :: "'a reader \<Rightarrow> nat \<Rightarrow> 'a list reader" where
  "read_items ra 0 bs = Some ([], bs)"
| "read_items ra (Suc n) bs = (case ra bs of None \<Rightarrow> None | Some (a, r) \<Rightarrow> map_option (\<lambda>(as, r'). (a # as, r')) (read_items ra n r))"

definition read_list :: "'a reader \<Rightarrow> 'a list reader" where
  "read_list ra bs = (case read_nat bs of None \<Rightarrow> None | Some (n, r) \<Rightarrow> read_items ra n r)"

definition write_list :: "('a \<Rightarrow> bytes) \<Rightarrow> 'a list \<Rightarrow> bytes" where
  "write_list wa xs = write_nat (length xs) @ concat (map wa xs)"

definition read_map :: "('a \<Rightarrow> 'b) \<Rightarrow> 'a reader \<Rightarrow> 'b reader" where
  "read_map f ra bs = map_option (\<lambda>(a, r). (f a, r)) (ra bs)"

lemma reads_nat: "reads_back write_nat read_nat"
proof -
  have "read_nat (write_nat n @ rest) = Some (n, rest)" for n rest
    by (induction n) (simp_all add: write_nat_def)
  then show ?thesis by (simp add: reads_back_def)
qed

lemma reads_pair: "reads_back wa ra \<Longrightarrow> reads_back wb rb \<Longrightarrow> reads_back (write_pair wa wb) (read_pair ra rb)"
  by (auto simp: reads_back_def read_pair_def write_pair_def)

lemma reads_list:
  assumes "reads_back wa ra"
  shows "reads_back (write_list wa) (read_list ra)"
proof -
  have "read_items ra (length xs) (concat (map wa xs) @ rest) = Some (xs, rest)" for xs rest
    using assms by (induction xs) (simp_all add: reads_back_def)
  then show ?thesis using reads_nat by (simp add: reads_back_def read_list_def write_list_def)
qed

lemma reads_map: "reads_back wa ra \<Longrightarrow> (\<And>x. f (g x) = x) \<Longrightarrow> reads_back (\<lambda>x. wa (g x)) (read_map f ra)"
  by (simp add: reads_back_def read_map_def)

section \<open>Checkpoints\<close>

definition write_char :: "char \<Rightarrow> bytes" where "write_char c = [word_of_nat (of_char c)]"

fun read_char :: "char reader" where
  "read_char [] = None"
| "read_char (b # bs) = Some (char_of (unat b), bs)"

definition write_str :: "string \<Rightarrow> bytes" where "write_str = write_list write_char"
definition read_str :: "string reader" where "read_str = read_list read_char"

definition account_tuple :: "persisted_account \<Rightarrow> string \<times> string \<times> string \<times> string list \<times> string" where
  "account_tuple a = (pa_balance a, pa_last_block a, pa_completed_numerator a,
     (case pa_active_segment_from a of None \<Rightarrow> [] | Some t \<Rightarrow> [t]), pa_active_integral a)"

definition tuple_account :: "string \<times> string \<times> string \<times> string list \<times> string \<Rightarrow> persisted_account" where
  "tuple_account = (\<lambda>(b, l, n, seg, i). \<lparr>pa_balance = b, pa_last_block = l, pa_completed_numerator = n,
     pa_active_segment_from = (case seg of [] \<Rightarrow> None | t # _ \<Rightarrow> Some t), pa_active_integral = i\<rparr>)"

definition write_account :: "persisted_account \<Rightarrow> bytes" where
  "write_account a = write_pair write_str (write_pair write_str (write_pair write_str (write_pair (write_list write_str) write_str)))
     (account_tuple a)"

definition read_account :: "persisted_account reader" where
  "read_account = read_map tuple_account
     (read_pair read_str (read_pair read_str (read_pair read_str (read_pair (read_list read_str) read_str))))"

definition write_rate :: "persisted_rate \<Rightarrow> bytes" where
  "write_rate r = write_pair write_str write_str (pr_from_block r, pr_rate r)"

definition read_rate :: "persisted_rate reader" where
  "read_rate = read_map (\<lambda>(f, v). \<lparr>pr_from_block = f, pr_rate = v\<rparr>) (read_pair read_str read_str)"

definition write_token :: "persisted_token \<Rightarrow> bytes" where
  "write_token t = write_pair write_nat (write_pair write_str (write_pair write_str (write_pair (write_list write_rate)
     (write_list (write_pair write_str write_account)))))
     (pk_decimals t, pk_cursor_block t, pk_cursor_block_hash t, pk_rates t, pk_accounts t)"

definition read_token :: "persisted_token reader" where
  "read_token = read_map (\<lambda>(d, c, h, rs, as). \<lparr>pk_decimals = d, pk_cursor_block = c, pk_cursor_block_hash = h, pk_rates = rs, pk_accounts = as\<rparr>)
     (read_pair read_nat (read_pair read_str (read_pair read_str (read_pair (read_list read_rate)
       (read_list (read_pair read_str read_account))))))"

definition write_envelope :: "authenticated_checkpoint \<Rightarrow> bytes" where
  "write_envelope e = write_pair write_nat (write_pair write_nat (write_pair (write_list (write_pair write_str write_token)) write_str))
     (pc_schema_version e, pc_chain_id e, pc_tokens e, ac_authentication e)"

definition read_envelope :: "authenticated_checkpoint reader" where
  "read_envelope = read_map (\<lambda>(v, c, ts, a). \<lparr>pc_schema_version = v, pc_chain_id = c, pc_tokens = ts, ac_authentication = a\<rparr>)
     (read_pair read_nat (read_pair read_nat (read_pair (read_list (read_pair read_str read_token)) read_str)))"

lemma reads_str: "reads_back write_str read_str"
proof -
  have "(of_char c :: nat) < 256" for c by (metis of_char_mod_256 mod_less_divisor zero_less_numeral)
  then have "reads_back write_char read_char" by (simp add: reads_back_def write_char_def)
  then show ?thesis unfolding write_str_def read_str_def by (rule reads_list)
qed

lemma reads_account: "reads_back write_account read_account"
  unfolding write_account_def read_account_def
  by (intro reads_map reads_pair reads_list reads_str) (simp add: account_tuple_def tuple_account_def split: option.splits)

lemma reads_rate: "reads_back write_rate read_rate"
  unfolding write_rate_def read_rate_def by (intro reads_map reads_pair reads_str) simp

lemma reads_token: "reads_back write_token read_token"
  unfolding write_token_def read_token_def
  by (intro reads_map reads_pair reads_list reads_str reads_nat reads_rate reads_account) simp

lemma reads_envelope: "reads_back write_envelope read_envelope"
  unfolding write_envelope_def read_envelope_def
  by (intro reads_map reads_pair reads_list reads_str reads_nat reads_token) simp

text \<open>The keyed tag is a stand-in too: 32 copies of a checksum over key and message.\<close>

definition demo_codec :: checkpoint_codec where
  "demo_codec = \<lparr>
     cc_checkpoint_to_vec = (\<lambda>p. write_envelope \<lparr>pc_schema_version = pc_schema_version p, pc_chain_id = pc_chain_id p,
        pc_tokens = pc_tokens p, ac_authentication = []\<rparr>),
     cc_envelope_to_vec = write_envelope,
     cc_envelope_from_slice = (\<lambda>bs. case read_envelope bs of Some (e, [b]) \<Rightarrow> if b = 10 then Inr e else Inl ''trailing characters'' | _ \<Rightarrow> Inl ''EOF''),
     cc_hmac = (\<lambda>key. Some (\<lambda>m. replicate 32 (sum_list key + sum_list m)))\<rparr>"

lemma demo_codec_laws: "codec_laws demo_codec"
proof -
  have "read_envelope (write_envelope e @ [10]) = Some (e, [10])" for e
    using reads_envelope by (simp add: reads_back_def)
  then show ?thesis by (simp add: codec_laws_def demo_codec_def)
qed

end
