(* ===== verification/Checkpoint_Claims.thy ===== *)
theory Checkpoint_Claims
  imports Demo_Codec
begin

text \<open>
  The claims about the checkpoint file and its lock, with witnesses on an in-memory file system and a length-prefixed
  codec.
\<close>

section \<open>The file\<close>

definition demo_key :: bytes where "demo_key = replicate 32 9"

definition demo_account_state :: account_score_state where
  "demo_account_state = \<lparr>balance = 100, last_block = 10, completed_numerator = 0, active_segment_from = Some 5, active_integral = 20\<rparr>"

definition demo_token_state :: token_state where
  "demo_token_state = \<lparr>ts_decimals = 6, ts_cursor_block = 12, ts_cursor_block_hash = ''0x'' @ replicate 64 CHR ''a'',
     ts_rates = [\<lparr>from_block = 5, rate = 3\<rparr>], ts_accounts = [(Address (replicate 20 1), demo_account_state)]\<rparr>"

definition demo_state :: checkpoint_state where
  "demo_state = \<lparr>cs_chain_id = 1, cs_tokens = [(Address (replicate 20 7), demo_token_state)]\<rparr>"

lemma demo_state_valid: "valid_state demo_state"
proof -
  have "valid_hash (''0x'' @ replicate 64 CHR ''a'')" "to_ascii_lowercase (''0x'' @ replicate 64 CHR ''a'') = ''0x'' @ replicate 64 CHR ''a''"
    by code_simp+
  then show ?thesis
    by (simp add: valid_state_def valid_tokens_def valid_token_def valid_accounts_def valid_account_def demo_state_def
        demo_token_state_def demo_account_state_def om_wf_def wf_address_def rates_ascending_def u64_max_def)
qed

text \<open>
  C27.  Saving a checkpoint is all or nothing: whatever step of \<^verbatim>\<open>save_checkpoint\<close> fails (directory, encoding, clock,
  temporary file, write, read-back, rename, directory sync), the checkpoint file holds either exactly what it held before
  or the complete new envelope, which authenticates and decodes to the saved state; after a success it is the
  new envelope; and no file other than the checkpoint and its temporaries is touched.\<close>

theorem save_checkpoint_atomic:
  assumes "file_laws fs contents" "codec_laws cc" "valid_state s" "path \<notin> temp_names fs path"
    "save_checkpoint fs cc path s key w = (r, w')"
  shows "(r = Ok () \<longrightarrow> stores cc key s (contents w' path))
    \<and> (contents w' path = contents w path \<or> stores cc key s (contents w' path))
    \<and> (\<forall>q. q \<notin> insert path (temp_names fs path) \<longrightarrow> contents w' q = contents w q)"
  using save_outcome [OF assms] by (auto split: sum.splits)

lemma mem_verify:
  "w p = Some bs \<Longrightarrow> length bs \<le> MAX_CHECKPOINT_BYTES \<Longrightarrow> verify_checkpoint_bytes mem_files p bs w = (Ok (), w)"
  by (simp add: verify_checkpoint_bytes_def read_checkpoint_bytes_with_limit_def mem_files_def bindA_apply
      ensure_checkpoint_size_def Let_def saturating_add64_def MAX_CHECKPOINT_BYTES_def u64_max_def)

lemma mem_save:
  assumes "encode_checkpoint cc s key = Ok bs" "length bs \<le> MAX_CHECKPOINT_BYTES"
    "w (path @ ''.7.5.tmp'') = None"
  shows "save_checkpoint mem_files cc path s key w = (Ok (), w(path @ ''.7.5.tmp'' := None, path \<mapsto> bs))"
proof -
  have t: "show_nat 7 = ''7''" "show_nat 5 = ''5''" by code_simp+
  have verify: "verify_checkpoint_bytes mem_files p bs w = (Ok (), w)" if "w p = Some bs" for p w
    using that assms(2) by (rule mem_verify)
  show ?thesis
    unfolding save_checkpoint_def Let_def assms(1)
    using assms(3)
    by (simp add: bindA_apply map_errA_def cleanupA_def verify mem_files_def [THEN arg_cong, of fs_create_dir_all]
        mem_files_def [THEN arg_cong, of fs_create_new] mem_files_def [THEN arg_cong, of fs_write_sync]
        mem_files_def [THEN arg_cong, of fs_remove] mem_files_def [THEN arg_cong, of fs_rename]
        mem_files_def [THEN arg_cong, of fs_sync_dir] mem_files_def [THEN arg_cong, of fs_now_nanos]
        mem_files_def [THEN arg_cong, of fs_process_id] mem_files_def [THEN arg_cong, of fs_parent]
        mem_files_def [THEN arg_cong, of fs_with_extension] t)
qed

lemma demo_encode: "\<exists>bs. encode_checkpoint demo_codec demo_state demo_key = Ok bs"
proof -
  let ?p = "serialize_state demo_state"
  let ?tag = "replicate 32 (sum_list demo_key + sum_list (cc_checkpoint_to_vec demo_codec ?p))"
  let ?e = "\<lparr>pc_schema_version = pc_schema_version ?p, pc_chain_id = pc_chain_id ?p, pc_tokens = pc_tokens ?p,
    ac_authentication = ''0x'' @ hex_encode ?tag\<rparr>"
  have "length (write_envelope ?e) \<le> 2000" by code_simp
  then have "Suc (length (write_envelope ?e)) \<le> MAX_CHECKPOINT_BYTES" by (simp add: MAX_CHECKPOINT_BYTES_def)
  then show ?thesis
    by (simp add: encode_checkpoint_def authentication_def demo_codec_def Let_def ensure_checkpoint_size_def failR_if_def)
qed

theorem save_checkpoint_atomic_witness:
  "\<exists>w'. save_checkpoint mem_files demo_codec ''cp'' demo_state demo_key Map.empty = (Ok (), w')
    \<and> stores demo_codec demo_key demo_state (w' ''cp'')"
proof -
  obtain bs where bs: "encode_checkpoint demo_codec demo_state demo_key = Ok bs" using demo_encode by blast
  have "save_checkpoint mem_files demo_codec ''cp'' demo_state demo_key Map.empty
      = (Ok (), Map.empty(''cp.7.5.tmp'' := None, ''cp'' \<mapsto> bs))" (is "_ = (_, ?w')")
    using mem_save [OF bs, of Map.empty "''cp''"] encode_decode [OF demo_codec_laws demo_state_valid bs] by simp
  then show ?thesis
    using save_checkpoint_atomic [OF mem_files_laws demo_codec_laws demo_state_valid mem_files_temp, of "''cp''" demo_key Map.empty]
    by auto
qed

section \<open>The lock\<close>

text \<open>
  Processes that compete for one lock file.  A state is the world and the processes that hold a guard; a process
  takes the lock by a successful \<open>acquire\<close>, is refused by a failing one, gives the lock up by dropping its
  guard, and in between the world may change in any way that leaves the lock file alone.
\<close>

inductive lock_step ::
  "('w, 'z) files_scheme \<Rightarrow> ('w \<Rightarrow> file_map) \<Rightarrow> string \<Rightarrow> 'w \<times> nat list \<Rightarrow> 'w \<times> nat list \<Rightarrow> bool"
  for fs contents lock where
  lock_taken: "acquire (fs\<lparr>fs_process_id := i\<rparr>) lock w = (Ok guard, w') \<Longrightarrow> lock_step fs contents lock (w, hs) (w', i # hs)"
| lock_refused: "acquire (fs\<lparr>fs_process_id := i\<rparr>) lock w = (Err e, w') \<Longrightarrow> lock_step fs contents lock (w, hs) (w', hs)"
| lock_dropped: "i \<in> set hs \<Longrightarrow> drop_lock fs \<lparr>lg_path = lock\<rparr> w = (r, w') \<Longrightarrow> lock_step fs contents lock (w, hs) (w', remove1 i hs)"
| lock_other: "contents w' lock = contents w lock \<Longrightarrow> lock_step fs contents lock (w, hs) (w', hs)"

lemma triple_acquire:
  assumes "file_laws fs contents"
  shows "triple contents P (acquire fs p)
    (\<lambda>g f. g = \<lparr>lg_path = p\<rparr> \<and> f p \<noteq> None \<and> (\<exists>f0. P f0 \<and> f0 p = None)) (\<lambda>_ f. \<exists>f0. P f0 \<and> (f0 p = None \<or> f p = f0 p))"
proof -
  let ?E = "\<lambda>_ f. \<exists>f0. P f0 \<and> (f0 p = None \<or> f p = f0 p)"
  let ?A = "\<lambda>f. f p \<noteq> None \<and> (\<exists>f0. P f0 \<and> f0 p = None)"
  let ?C = "\<lambda>r f. case r of Inr _ \<Rightarrow> ?A f | Inl e \<Rightarrow> P f"
  have dir: "triple contents P (map_errA (CpIo (fs_parent fs p)) (fs_create_dir_all fs (fs_parent fs p))) (\<lambda>_. P) ?E"
    by (rule triple_map_errA [OF triple_conseq [OF file_triples(2) [OF assms, of P]]]) auto
  have new: "triple contents P (tryA (fs_create_new fs p)) ?C ?E"
    by (rule triple_tryA [OF triple_conseq [OF file_triples(5) [OF assms, of P]]]) auto
  have pid: "triple contents ?A (cleanupA (map_errA (CpIo p) (fs_write_sync fs p bs)) (fs_remove fs p)) (\<lambda>_. ?A) ?E" for bs
    by (rule triple_cleanupA [OF triple_map_errA [OF triple_conseq [OF file_triples(6) [OF assms, of ?A]]]
          triple_conseq [OF file_triples(7) [OF assms, of "\<lambda>_. \<exists>f0. P f0 \<and> f0 p = None"]]]) auto
  show ?thesis
    unfolding acquire_def Let_def
  proof (rule triple_bind [OF dir triple_bind [OF new]])
    fix r
    show "triple contents (?C r)
      (case r of Inr _ \<Rightarrow> bindA (cleanupA (map_errA (CpIo p) (fs_write_sync fs p (text_bytes (show_nat (fs_process_id fs) @ [CHR 0x0A]))))
           (fs_remove fs p)) (\<lambda>_. retA \<lparr>lg_path = p\<rparr>)
       | Inl IoAlreadyExists \<Rightarrow> failA (CpLocked p) | Inl e \<Rightarrow> failA (CpIo p e))
      (\<lambda>g f. g = \<lparr>lg_path = p\<rparr> \<and> ?A f) ?E"
    proof (cases r)
      case (Inr x)
      have "triple contents ?A (bindA (cleanupA (map_errA (CpIo p) (fs_write_sync fs p bs)) (fs_remove fs p)) (\<lambda>_. retA \<lparr>lg_path = p\<rparr>))
          (\<lambda>g f. g = \<lparr>lg_path = p\<rparr> \<and> ?A f) ?E" for bs
        by (rule triple_bind [OF pid]) simp
      with Inr show ?thesis by simp
    qed (auto split: io_error.splits)
  qed
qed

lemma lock_step_invariant:
  assumes "file_laws fs contents" "lock_step fs contents lock (w, hs) (w', hs')"
    "length hs \<le> 1" "hs \<noteq> [] \<Longrightarrow> contents w lock \<noteq> None"
  shows "length hs' \<le> 1 \<and> (hs' \<noteq> [] \<longrightarrow> contents w' lock \<noteq> None)"
proof -
  have laws: "file_laws (fs\<lparr>fs_process_id := i\<rparr>) contents" for i using assms(1) by (simp add: file_laws_pid)
  from assms(2) show ?thesis
  proof (cases rule: lock_step.cases)
    case (lock_taken i guard)
    from triple_apply [OF triple_acquire [OF laws [of i], of "\<lambda>f. f = contents w"] _ lock_taken(2)]
    have "contents w lock = None" "contents w' lock \<noteq> None" by auto
    with assms(4) lock_taken(1) show ?thesis by auto
  next
    case (lock_refused i e)
    from triple_apply [OF triple_acquire [OF laws [of i], of "\<lambda>f. f = contents w"] _ lock_refused(2)]
    have "contents w lock = None \<or> contents w' lock = contents w lock" by auto
    with assms(3,4) lock_refused(1) show ?thesis by auto
  next
    case (lock_dropped i r)
    then have "hs' = []" using assms(3) by (cases hs) auto
    then show ?thesis by simp
  next
    case lock_other
    with assms(3,4) show ?thesis by simp
  qed
qed

text \<open>
  C28.  The checkpoint lock is exclusive: however processes interleave taking the lock, being refused, dropping their
  guards and doing other work, and whichever file operations fail, at most one of them holds the lock of a checkpoint at any
  time, and the lock file exists while one does.\<close>

theorem lock_exclusive:
  assumes "file_laws fs contents" "(lock_step fs contents lock)\<^sup>*\<^sup>* (w, []) (w', holders)"
  shows "length holders \<le> 1 \<and> (holders \<noteq> [] \<longrightarrow> contents w' lock \<noteq> None)"
  using assms(2)
proof (induction "(w', holders)" arbitrary: w' holders rule: rtranclp_induct)
  case (step y)
  obtain v hs where "y = (v, hs)" by (cases y)
  with step lock_step_invariant [OF assms(1), of lock v hs w' holders] show ?case by blast
qed simp

theorem lock_exclusive_witness:
  "\<exists>w'. (lock_step mem_files id ''cp.lock'')\<^sup>*\<^sup>* (Map.empty, []) (w', [4])
    \<and> fst (acquire (mem_files\<lparr>fs_process_id := 9\<rparr>) ''cp.lock'' w') = Err (CpLocked ''cp.lock'')
    \<and> length [4 :: nat] \<le> 1"
proof -
  obtain w' where w': "acquire (mem_files\<lparr>fs_process_id := 4\<rparr>) ''cp.lock'' Map.empty = (Ok \<lparr>lg_path = ''cp.lock''\<rparr>, w')"
    "w' ''cp.lock'' \<noteq> None"
    by (simp add: acquire_def mem_files_def bindA_apply map_errA_def cleanupA_def Let_def)
  then have "lock_step mem_files id ''cp.lock'' (Map.empty, []) (w', [4])" by (intro lock_taken)
  then have run: "(lock_step mem_files id ''cp.lock'')\<^sup>*\<^sup>* (Map.empty, []) (w', [4])" by blast
  moreover have "fst (acquire (mem_files\<lparr>fs_process_id := 9\<rparr>) ''cp.lock'' w') = Err (CpLocked ''cp.lock'')"
    using w'(2) by (simp add: acquire_def mem_files_def bindA_apply map_errA_def cleanupA_def Let_def)
  ultimately show ?thesis using lock_exclusive [OF mem_files_laws run] by blast
qed

end
