(* ===== verification/Source_Claims.thy ===== *)
theory Source_Claims
  imports Source_Spec Checkpoint_Claims History_Claims
begin

text \<open>
  The claims about the two score sources, with witnesses that run them against the reference node, and the claim that a
  committed checkpoint is loaded back as it was.
\<close>

section \<open>Scores\<close>


text \<open>A file system that holds nothing and accepts everything, for worlds without state.\<close>

definition void_files :: "unit files" where
  "void_files = \<lparr>
     fs_open_read = (\<lambda>p w. (Inl IoNotFound, w)), fs_create_dir_all = (\<lambda>p w. (Inr (), w)),
     fs_create_new = (\<lambda>p w. (Inr (), w)), fs_write_sync = (\<lambda>p bs w. (Inr (), w)), fs_remove = (\<lambda>p w. (Inr (), w)),
     fs_rename = (\<lambda>a b w. (Inr (), w)), fs_sync_dir = (\<lambda>p w. (Inr (), w)), fs_now_nanos = (\<lambda>w. Some 5),
     fs_process_id = 7, fs_parent = (\<lambda>p. ''/''), fs_with_extension = (\<lambda>p ext. p @ ''.'' @ ext), fs_absolute = (\<lambda>p w. (Inr p, w))\<rparr>"

lemma void_files_ok:
  "yields (fs_absolute void_files p) ((=) p)" "yields (acquire void_files lock) (\<lambda>_. True)"
  "yields (load_checkpoint void_files cc path chain key) (\<lambda>st. cs_chain_id st = chain \<and> ready_tokens blk T scored as_of (cs_tokens st))"
  by (simp_all add: void_files_def yields_def acquire_def load_checkpoint_def read_checkpoint_bytes_with_limit_def bindA_apply
      map_errA_def cleanupA_def Let_def)

definition demo_score_config :: incident_config where
  "demo_score_config = demo_incident_config\<lparr>ic_scored_tokens := [demo_scored]\<rparr>"

lemma demo_solvent: "solvent tracked demo_ledger"
proof -
  have z: "is_zero (Address (replicate 20 0))" by (simp add: is_zero_def)
  have "covered 0 (flows a demo_ledger)" if "relevant tracked a" for a
  proof -
    have "a \<noteq> Address (replicate 20 0)" using that z by (auto simp: relevant_def)
    then show ?thesis by (auto simp: demo_ledger_def)
  qed
  moreover have "ordered_transfers demo_ledger" using demo_serves_transfers by (simp add: serves_transfers_def)
  moreover have "wf_address (Address (replicate 20 0))" by (simp add: wf_address_def)
  ultimately show ?thesis by (simp add: solvent_def) (simp add: demo_ledger_def)
qed

lemma demo_serves_scores:
  assumes "serves_slices demo_node node_events demo_token 1000 50 100 tracked demo_ledger"
  shows "serves_scores demo_node node_events 1000 50 100 demo_block tracked (\<lambda>_. demo_ledger) [demo_scored]"
proof -
  have "serves_blocks demo_node demo_block 100"
    unfolding demo_node_def by (rule node_serves_blocks) (simp add: u64_max_def)
  then show ?thesis
    using assms demo_solvent
    by (simp add: serves_scores_def demo_scored_def u64_max_def genesis_free_def demo_ledger_def demo_rates_def rates_ascending_def)
qed

lemma demo_direct_score: "yields (earned_score_of demo_node node_abi node_events [demo_scored] demo_alice 30 1000 50) (\<lambda>(v, _). v = 5000)"
proof -
  have "score_spec (account_balance demo_alice demo_ledger) 0 0 30 demo_rates = 5000 * SCORE_SCALE"
  proof -
    have "(\<Sum>b\<in>{10..<20}. account_balance demo_alice demo_ledger b) = 100 * (20 - 10)"
      by (rule sum_atLeastLessThan_const) (simp add: demo_balances)
    moreover have "(\<Sum>b\<in>{20..<30}. account_balance demo_alice demo_ledger b) = 60 * (30 - 20)"
      by (rule sum_atLeastLessThan_const) (simp add: demo_balances)
    ultimately show ?thesis
      by (simp add: demo_rates_def seg_integral_def seg_end_def next_from_def scaled_integral_def SCORE_SCALE_def)
  qed
  then show ?thesis
    using earned_score_yields [of "[demo_scored]" demo_node node_events 1000 50 100 "\<lambda>_. demo_ledger" node_abi demo_alice 30]
      demo_serves_transfers demo_serves_balances
    by (auto simp: demo_scored_def serves_balances_def ONE_1E18_def SCORE_SCALE_def)
qed

lemma yields_same: "yields m P \<Longrightarrow> yields m Q \<Longrightarrow> \<exists>x. P x \<and> Q x"
  unfolding yields_def by (metis Pair_inject sum.inject(2))


text \<open>
  The bulk source scores like the chain: for every tracked claimant, the replay that \<^verbatim>\<open>BulkScoreSource::open\<close> starts at the first
  block that can earn score, from the balance read there, ends in the score that \<^verbatim>\<open>earned_score_of\<close> computes directly
  from the chain; an untracked claimant is refused.\<close>

theorem bulk_score_matches_chain:
  assumes "serves_scores rpc ev max_range cap head blk (Some tracked) T (ic_scored_tokens config)" "as_of \<le> head"
    "answers (chain_id rpc) (Ok chain)"
    "\<forall>s \<in> set (ic_scored_tokens config). serves_balances rpc abi (st_token s) head (T (st_token s)) (set tracked)"
    "\<not> list_ex is_zero tracked"
    "\<forall>s \<in> set (ic_scored_tokens config). \<exists>logs. serves_transfers rpc ev (st_token s) max_range cap head logs (T (st_token s))"
  shows "yields (bulk_open rpc abi ev config as_of tracked chain max_range cap) (\<lambda>src.
    case bulk_gross_score_of src user of
      Inr v \<Rightarrow> user \<in> set tracked \<and>
        yields (earned_score_of rpc abi ev (ic_scored_tokens config) user as_of max_range cap) (\<lambda>(v', _). v' = v)
    | Inl e \<Rightarrow> user \<notin> set tracked)"
proof (rule yields_mono [OF bulk_open_yields [OF assms(1-5)]])
  fix src
  assume src: "bulk_opened config T as_of tracked src"
  show "case bulk_gross_score_of src user of
      Inr v \<Rightarrow> user \<in> set tracked \<and>
        yields (earned_score_of rpc abi ev (ic_scored_tokens config) user as_of max_range cap) (\<lambda>(v', _). v' = v)
    | Inl e \<Rightarrow> user \<notin> set tracked"
  proof (cases "user \<in> set tracked")
    case True
    then have "\<not> is_zero user" using assms(5) by (auto simp: list_ex_iff)
    from bulk_score [OF src True this assms(1)] True show ?thesis
      using earned_score_yields [OF assms(6) _ assms(2), of abi user] assms(4)
      by (auto simp: gross_score_def SCORE_SCALE_def ONE_1E18_def serves_balances_def)
  next
    case False
    then show ?thesis using src by (simp add: bulk_gross_score_of_def bulk_opened_def)
  qed
qed

theorem bulk_score_matches_chain_witness:
  "yields (bulk_open demo_node node_abi node_events demo_score_config 30 [demo_alice, demo_bob] 1 1000 50)
    (\<lambda>src. bulk_gross_score_of src demo_alice = Ok 5000)"
proof -
  let ?tracked = "[demo_alice, demo_bob]"
  have "serves_slices demo_node node_events demo_token 1000 50 100 (Some ?tracked) demo_ledger"
    using demo_serves_transfers by (auto simp: serves_slices_def)
  note served = demo_serves_scores [OF this]
  have "yields (bulk_open demo_node node_abi node_events demo_score_config 30 ?tracked 1 1000 50) (\<lambda>src.
    case bulk_gross_score_of src demo_alice of
      Inr v \<Rightarrow> demo_alice \<in> set ?tracked \<and>
        yields (earned_score_of demo_node node_abi node_events (ic_scored_tokens demo_score_config) demo_alice 30 1000 50) (\<lambda>(v', _). v' = v)
    | Inl e \<Rightarrow> demo_alice \<notin> set ?tracked)"
    by (rule bulk_score_matches_chain [where T = "\<lambda>_. demo_ledger" and head = 100 and blk = demo_block])
      (use served demo_serves_balances demo_serves_transfers in \<open>auto simp: demo_score_config_def demo_node_def node_chain_id [simplified]
        demo_scored_def is_zero_def demo_alice_def demo_bob_def\<close>)
  then show ?thesis
    by (rule yields_mono) (use yields_same [OF demo_direct_score] in \<open>fastforce simp: demo_score_config_def split: sum.splits\<close>)
qed

section \<open>Persistence\<close>

lemma resumable_mono: "resumable s blk ts x t \<Longrightarrow> x \<le> y \<Longrightarrow> resumable s blk ts y t"
  by (auto simp: resumable_def)

lemma lock_path_differs: "lock_path_for_checkpoint path \<noteq> path"
  by (simp add: lock_path_for_checkpoint_def)

lemma load_stored:
  assumes "file_laws fs contents" "\<And>p w bs. contents w p = Some bs \<Longrightarrow> fst (fs_open_read fs p w) = Ok (length bs, bs)"
    "stores cc key s (contents w path)"
  shows "fst (load_checkpoint fs cc path (cs_chain_id s) key w) = Ok s"
proof -
  from assms(3) obtain bs where bs: "contents w path = Some bs" "decode_checkpoint cc (cs_chain_id s) key bs = Ok s"
    "length bs \<le> MAX_CHECKPOINT_BYTES" by (auto simp: stores_def split: option.splits)
  obtain w' where "fs_open_read fs path w = (Ok (length bs, bs), w')"
    using assms(2) [OF bs(1)] by (cases "fs_open_read fs path w") auto
  then show ?thesis
    using bs(2,3) by (simp add: load_checkpoint_def read_checkpoint_bytes_with_limit_def bindA_apply ensure_checkpoint_size_def
        failR_if_def Let_def saturating_add64_def MAX_CHECKPOINT_BYTES_def u64_max_def)
qed

text \<open>
  C26.  A committed checkpoint resumes where it stopped: when \<^verbatim>\<open>commit\<close> of an opened source succeeds, loading the file returns exactly
  the state of the source, and that state is a valid starting point for opening the
  checkpoint again at any later block.\<close>

theorem commit_then_load:
  assumes "file_laws fs contents" "\<And>p w bs. contents w p = Some bs \<Longrightarrow> fst (fs_open_read fs p w) = Ok (length bs, bs)"
    "codec_laws cc" "opened_at config blk T as_of src" "path = cm_path (css_metadata src)" "path \<notin> temp_names fs path"
    "lg_path (css_lock src) = lock_path_for_checkpoint path"
    "commit fs cc key src w = (Ok (), w')" "as_of \<le> later"
  shows "fst (load_checkpoint fs cc path (cs_chain_id (css_state src)) key w') = Ok (css_state src)
    \<and> ready_tokens blk T (ic_scored_tokens config) later (cs_tokens (css_state src))"
proof -
  have valid: "valid_state (css_state src)" using assms(4) by (simp add: opened_at_def ready_tokens_def valid_state_def)
  from assms(8) obtain v where save: "save_checkpoint fs cc path (css_state src) key w = (Ok (), v)"
    and w': "w' = snd (drop_lock fs (css_lock src) v)"
    unfolding commit_def finallyA_def assms(5) by (auto split: if_splits prod.splits)
  have "stores cc key (css_state src) (contents v path)"
    using save_outcome [OF assms(1,3) valid assms(6) save] by simp
  moreover have "contents w' path = contents v path"
  proof -
    obtain r u where "drop_lock fs (css_lock src) v = (r, u)" by (cases "drop_lock fs (css_lock src) v")
    then have "fs_remove fs (lock_path_for_checkpoint path) v = (r, w')" using w' assms(7) by (simp add: drop_lock_def)
    from triple_apply [OF file_triples(7) [OF assms(1), of "\<lambda>f. f = contents v"] _ this] show ?thesis
      using lock_path_differs [of path] by (auto split: sum.splits)
  qed
  ultimately have "fst (load_checkpoint fs cc path (cs_chain_id (css_state src)) key w') = Ok (css_state src)"
    by (intro load_stored [OF assms(1,2)]) auto
  moreover have "ready_tokens blk T (ic_scored_tokens config) later (cs_tokens (css_state src))"
    using assms(4,9) by (auto simp: opened_at_def ready_tokens_def intro: resumable_mono split: option.splits)
  ultimately show ?thesis by blast
qed

definition demo_source :: checkpoint_score_source where
  "demo_source = \<lparr>css_config = demo_incident_config, css_as_of_block = 12, css_state = demo_state,
     css_lock = \<lparr>lg_path = ''cp.lock''\<rparr>,
     css_metadata = \<lparr>cm_path = ''cp'', cm_as_of_block = 12, cm_as_of_block_hash = [], cm_indexed_transfers = 1,
       cm_indexed_tokens = 1, cm_log_metrics = default_log_metrics\<rparr>\<rparr>"

theorem commit_then_load_witness:
  "\<exists>w'. commit mem_files demo_codec demo_key demo_source [''cp.lock'' \<mapsto> []] = (Ok (), w')
    \<and> fst (load_checkpoint mem_files demo_codec ''cp'' 1 demo_key w') = Ok demo_state"
proof -
  obtain bs where bs: "encode_checkpoint demo_codec demo_state demo_key = Ok bs" using demo_encode by blast
  have "length bs \<le> MAX_CHECKPOINT_BYTES" using encode_decode [OF demo_codec_laws demo_state_valid bs] by simp
  then have "save_checkpoint mem_files demo_codec ''cp'' demo_state demo_key [''cp.lock'' \<mapsto> []]
      = (Ok (), [''cp.lock'' \<mapsto> []](''cp.7.5.tmp'' := None, ''cp'' \<mapsto> bs))"
    using mem_save [OF bs, of "[''cp.lock'' \<mapsto> []]" "''cp''"] by simp
  then obtain w' where run: "commit mem_files demo_codec demo_key demo_source [''cp.lock'' \<mapsto> []] = (Ok (), w')"
    by (simp add: commit_def finallyA_def demo_source_def demo_key_def)
  have src: "opened_at demo_incident_config demo_block (\<lambda>_. []) 12 demo_source"
    using demo_state_valid
    by (simp add: opened_at_def demo_source_def demo_incident_config_def ready_tokens_def valid_state_def)
  have "fst (load_checkpoint mem_files demo_codec ''cp'' (cs_chain_id (css_state demo_source)) demo_key w') = Ok (css_state demo_source)
    \<and> ready_tokens demo_block (\<lambda>_. []) (ic_scored_tokens demo_incident_config) 20 (cs_tokens (css_state demo_source))"
    by (rule commit_then_load [OF mem_files_laws _ demo_codec_laws src _ mem_files_temp _ run])
      (simp_all add: demo_source_def lock_path_for_checkpoint_def mem_files_def)
  then show ?thesis using run by (auto simp: demo_source_def demo_state_def)
qed

end
