(* ===== verification/Merkle.thy ===== *)
theory Merkle
  imports Claim_Set
begin

text \<open>
  The settlement Merkle tree of \<^verbatim>\<open>offchain-rust/src/lib.rs\<close>: OpenZeppelin's standard tree in heap
  layout, with double-hashed ABI leaves and sorted-pair nodes.  The locale \<open>merkle_hash\<close> holds
  the facts that need only a commutative, pairwise injective node preimage: inclusion proofs
  verify, and a verifying proof of something else exhibits a collision.
\<close>

section \<open>Data and operations\<close>

record merkle_row =
  mr_claim_id :: biguint
  mr_user :: address
  mr_amounts :: "biguint list"
  mr_score_spent :: biguint
  mr_boosted_score :: biguint
  mr_eligible_amount :: biguint
  mr_eligible_booster_amount :: biguint

text \<open>The byte string \<^verbatim>\<open>encoded\<close> of \<^verbatim>\<open>standard_leaf_hash\<close>.\<close>

definition leaf_encoding :: "biguint \<Rightarrow> merkle_row \<Rightarrow> (kernel_error, bytes) result" where
  "leaf_encoding incident_id row =
     bindR (ok_or Uint256Overflow (checked_mul64 (length (mr_amounts row)) 32)) (\<lambda>_.
     bindR (uint256_word incident_id) (\<lambda>incident.
     bindR (uint256_word (mr_claim_id row)) (\<lambda>claim.
     bindR (uint256_word (mr_score_spent row)) (\<lambda>spent.
     bindR (uint256_word (mr_boosted_score row)) (\<lambda>boosted.
     bindR (uint256_word (mr_eligible_amount row)) (\<lambda>eligible.
     bindR (uint256_word (mr_eligible_booster_amount row)) (\<lambda>booster.
     bindR (mapR uint256_word (mr_amounts row)) (\<lambda>amounts.
       Ok (incident @ claim @ abi_word (mr_user row) @ usize_word 256 @ spent @ boosted @ eligible @ booster
           @ usize_word (length (mr_amounts row)) @ concat amounts)))))))))"

definition standard_leaf_hash ::
  "(bytes \<Rightarrow> hash) \<Rightarrow> biguint \<Rightarrow> merkle_row \<Rightarrow> (kernel_error, hash) result" where
  "standard_leaf_hash keccak256 incident_id row =
     bindR (leaf_encoding incident_id row) (\<lambda>encoded. Ok (keccak256 (keccak256 encoded)))"

definition node_preimage :: "hash \<Rightarrow> hash \<Rightarrow> bytes" where
  "node_preimage a b = (if a \<le> b then a @ b else b @ a)"

definition standard_node_hash :: "(bytes \<Rightarrow> hash) \<Rightarrow> hash \<Rightarrow> hash \<Rightarrow> hash" where
  "standard_node_hash keccak256 a b = keccak256 (node_preimage a b)"

definition sibling_index :: "nat \<Rightarrow> nat" where
  "sibling_index index = (if index mod 2 = 0 then index - 1 else index + 1)"

record settlement_tree =
  st_root :: hash
  st_proofs :: "biguint \<Rightarrow> hash list option"

text \<open>The first loop of \<^verbatim>\<open>SettlementTree::new\<close>: duplicate check and leaf hash, row by row.\<close>

definition collect_leaf ::
  "(bytes \<Rightarrow> hash) \<Rightarrow> biguint \<Rightarrow> biguint set \<times> (hash \<times> biguint) list \<Rightarrow> merkle_row
    \<Rightarrow> (kernel_error, biguint set \<times> (hash \<times> biguint) list) result" where
  "collect_leaf keccak256 incident_id s row =
     (if mr_claim_id row \<in> fst s then Err (DuplicateClaim (mr_claim_id row))
      else bindR (standard_leaf_hash keccak256 incident_id row) (\<lambda>h.
        Ok (insert (mr_claim_id row) (fst s), snd s @ [(h, mr_claim_id row)])))"

text \<open>The heap array: leaves from the end backwards, then the inner nodes from the last to the root.\<close>

definition place_leaves :: "(hash \<times> biguint) list \<Rightarrow> hash list" where
  "place_leaves leaves =
     foldl (\<lambda>tree (leaf_index, leaf). tree[length tree - 1 - leaf_index := fst leaf])
       (replicate (2 * length leaves - 1) ZERO_HASH) (enumerate 0 leaves)"

definition fill_nodes :: "(hash \<Rightarrow> hash \<Rightarrow> hash) \<Rightarrow> nat \<Rightarrow> hash list \<Rightarrow> hash list" where
  "fill_nodes node m tree =
     foldl (\<lambda>tree index. tree[index := node (tree ! (2 * index + 1)) (tree ! (2 * index + 2))])
       tree (rev [0..<m])"

definition tree_index_by_claim :: "(hash \<times> biguint) list \<Rightarrow> biguint \<Rightarrow> nat option" where
  "tree_index_by_claim leaves =
     foldl (\<lambda>m (leaf_index, leaf). m(snd leaf \<mapsto> 2 * length leaves - 1 - 1 - leaf_index))
       Map.empty (enumerate 0 leaves)"

text \<open>The \<^verbatim>\<open>while index > 0\<close> loop that collects the siblings up to the root.\<close>

fun proof_path :: "'h list \<Rightarrow> nat \<Rightarrow> 'h list" where
  "proof_path tree index =
     (if index > 0 then tree ! sibling_index index # proof_path tree ((index - 1) div 2) else [])"

declare proof_path.simps [simp del]

definition tree_nodes :: "(bytes \<Rightarrow> hash) \<Rightarrow> (hash \<times> biguint) list \<Rightarrow> hash list" where
  "tree_nodes keccak256 leaves =
     (let tree = place_leaves leaves
      in fill_nodes (standard_node_hash keccak256) (length tree - length leaves) tree)"

definition settlement_tree_new ::
  "(bytes \<Rightarrow> hash) \<Rightarrow> biguint \<Rightarrow> merkle_row list \<Rightarrow> (kernel_error, settlement_tree) result" where
  "settlement_tree_new keccak256 incident_id rows =
     (if rows = [] then Err EmptyMerkleTree
      else bindR (foldR (collect_leaf keccak256 incident_id) ({}, []) rows) (\<lambda>(_, collected).
        let leaves = sort_key fst collected;
            tree = tree_nodes keccak256 leaves;
            index_by_claim = tree_index_by_claim leaves
        in Ok \<lparr>st_root = tree ! 0,
               st_proofs = (\<lambda>c. map_option (proof_path tree) (index_by_claim c))\<rparr>))"

definition root_hex :: "settlement_tree \<Rightarrow> string" where
  "root_hex t = hash_hex (st_root t)"

definition proof_hex :: "settlement_tree \<Rightarrow> biguint \<Rightarrow> (kernel_error, string list) result" where
  "proof_hex t claim_id = ok_or (MissingClaim claim_id) (map_option (map hash_hex) (st_proofs t claim_id))"

definition all_proofs_hex :: "settlement_tree \<Rightarrow> biguint \<Rightarrow> string list option" where
  "all_proofs_hex t = (\<lambda>c. map_option (map hash_hex) (st_proofs t c))"

section \<open>Heap-shaped Merkle trees\<close>

locale merkle_hash =
  fixes H :: "'p \<Rightarrow> 'h" and pair :: "'h \<Rightarrow> 'h \<Rightarrow> 'p" and good :: "'h \<Rightarrow> bool"
  assumes pair_comm: "pair a b = pair b a"
    and pair_inj: "good a \<Longrightarrow> good b \<Longrightarrow> good c \<Longrightarrow> good d \<Longrightarrow> pair a b = pair c d \<Longrightarrow> a = c \<or> a = d"
begin

definition node :: "'h \<Rightarrow> 'h \<Rightarrow> 'h" where
  "node a b = H (pair a b)"

text \<open>An array of \<open>2 * n - 1\<close> nodes whose first \<open>n - 1\<close> entries are the parents of their children.\<close>

definition heap_tree :: "'h list \<Rightarrow> nat \<Rightarrow> bool" where
  "heap_tree t n \<longleftrightarrow> 0 < n \<and> length t = 2 * n - 1
     \<and> (\<forall>i < n - 1. t ! i = node (t ! (2 * i + 1)) (t ! (2 * i + 2)))"

text \<open>Verification as the contract does it: fold the siblings into the leaf.\<close>

definition process_proof :: "'h \<Rightarrow> 'h list \<Rightarrow> 'h" where
  "process_proof h ps = foldl node h ps"

fun step_preimages :: "'h \<Rightarrow> 'h list \<Rightarrow> 'p set" where
  "step_preimages h [] = {}"
| "step_preimages h (p # ps) = insert (pair h p) (step_preimages (node h p) ps)"

definition inner_preimages :: "'h list \<Rightarrow> nat \<Rightarrow> 'p set" where
  "inner_preimages t n = (\<lambda>i. pair (t ! (2 * i + 1)) (t ! (2 * i + 2))) ` {..<n - 1}"

lemma node_comm: "node a b = node b a"
  by (simp add: node_def pair_comm)

lemma sibling_in_range:
  assumes "heap_tree t n" "0 < i" "i < length t"
  shows "sibling_index i < length t" "(i - 1) div 2 < n - 1"
    "t ! ((i - 1) div 2) = node (t ! i) (t ! sibling_index i)"
proof -
  have len: "length t = 2 * n - 1" "0 < n" using assms(1) by (auto simp: heap_tree_def)
  define q where "q = (i - 1) div 2"
  have "i = 2 * q + 1 \<or> i = 2 * q + 2" using assms(2) q_def by (cases "even i") presburger+
  then have cs: "i = 2 * q + 1 \<and> sibling_index i = 2 * q + 2 \<or> i = 2 * q + 2 \<and> sibling_index i = 2 * q + 1"
    by (auto simp: sibling_index_def)
  then show q1: "(i - 1) div 2 < n - 1" using len assms(3) q_def by linarith
  then have "2 * q + 2 < length t" using len q_def by linarith
  with cs show "sibling_index i < length t" by (elim disjE) linarith+
  have "t ! q = node (t ! (2 * q + 1)) (t ! (2 * q + 2))"
    using assms(1) q1 q_def by (simp add: heap_tree_def)
  then show "t ! ((i - 1) div 2) = node (t ! i) (t ! sibling_index i)"
    using cs node_comm q_def by auto
qed

lemma proof_path_verifies:
  assumes "heap_tree t n" "i < length t"
  shows "process_proof (t ! i) (proof_path t i) = t ! 0"
  using assms(2)
proof (induction i rule: less_induct)
  case (less i)
  show ?case
  proof (cases "i = 0")
    case True
    then show ?thesis by (simp add: proof_path.simps process_proof_def)
  next
    case False
    have "process_proof (t ! i) (proof_path t i)
        = process_proof (t ! ((i - 1) div 2)) (proof_path t ((i - 1) div 2))"
      using sibling_in_range(3) [OF assms(1), of i] False less.prems
      by (subst proof_path.simps) (simp add: process_proof_def)
    also have "\<dots> = t ! 0" using less False by simp
    finally show ?thesis .
  qed
qed

lemma step_preimages_snoc:
  "step_preimages h (ps @ [p]) = insert (pair (process_proof h ps) p) (step_preimages h ps)"
  by (induction ps arbitrary: h) (auto simp: process_proof_def)

lemma process_proof_good: "good h \<Longrightarrow> (\<And>p. good (H p)) \<Longrightarrow> good (process_proof h ps)"
  by (cases ps rule: rev_cases) (auto simp: process_proof_def node_def)

text \<open>
  Soundness: a value that verifies up to node \<open>i\<close> is a node of the tree, or a leaf has been
  given an inner preimage, or two different pairs have the same hash.
\<close>

lemma process_proof_descends:
  assumes "heap_tree t n" "i < length t" "process_proof h ps = t ! i" "good h" "\<And>p. good (H p)"
    "\<And>j. j < length t \<Longrightarrow> good (t ! j)" "list_all good ps"
  shows "(\<exists>j < length t. h = t ! j)
    \<or> (\<exists>j < length t. n - 1 \<le> j \<and> (\<exists>p \<in> step_preimages h ps. t ! j = H p))
    \<or> (\<exists>p \<in> inner_preimages t n. \<exists>q \<in> step_preimages h ps. p \<noteq> q \<and> H p = H q)"
  using assms(2,3,7)
proof (induction ps arbitrary: i rule: rev_induct)
  case Nil
  then show ?case by (auto simp: process_proof_def)
next
  case (snoc x ps)
  let ?v = "process_proof h ps"
  have eq: "H (pair ?v x) = t ! i" using snoc.prems by (simp add: process_proof_def node_def)
  have sub: "step_preimages h ps \<subseteq> step_preimages h (ps @ [x])" by (auto simp: step_preimages_snoc)
  show ?case
  proof (cases "i < n - 1")
    case False
    with eq snoc.prems show ?thesis by (auto simp: step_preimages_snoc)
  next
    case True
    then have kids: "2 * i + 1 < length t" "2 * i + 2 < length t"
      using assms(1) by (auto simp: heap_tree_def)
    have ti: "t ! i = H (pair (t ! (2 * i + 1)) (t ! (2 * i + 2)))"
      using assms(1) True by (simp add: heap_tree_def node_def)
    show ?thesis
    proof (cases "pair ?v x = pair (t ! (2 * i + 1)) (t ! (2 * i + 2))")
      case same: True
      have "?v = t ! (2 * i + 1) \<or> ?v = t ! (2 * i + 2)"
        by (rule pair_inj [OF _ _ _ _ same])
           (use assms(4-6) kids snoc.prems process_proof_good in auto)
      with kids obtain k where k: "k < length t" "?v = t ! k" by blast
      have "list_all good ps" using snoc.prems by simp
      from snoc.IH [OF k this] sub show ?thesis by blast
    next
      case False
      have "pair (t ! (2 * i + 1)) (t ! (2 * i + 2)) \<in> inner_preimages t n"
        using True by (auto simp: inner_preimages_def)
      moreover have "pair ?v x \<in> step_preimages h (ps @ [x])" by (simp add: step_preimages_snoc)
      ultimately show ?thesis using False eq ti by metis
    qed
  qed
qed

end

section \<open>The settlement tree is a heap-shaped Merkle tree\<close>

lemma node_preimage_comm: "node_preimage a b = node_preimage b a"
  by (auto simp: node_preimage_def)

lemma node_preimage_inj:
  assumes "length a = 32" "length b = 32" "length c = 32" "length d = 32" "node_preimage a b = node_preimage c d"
  shows "a = c \<or> a = d"
  using assms by (auto simp: node_preimage_def split: if_splits)

interpretation std_tree: merkle_hash keccak node_preimage "\<lambda>h. length h = 32" for keccak
  by unfold_locales (rule node_preimage_comm, rule node_preimage_inj)

lemma std_tree_node: "std_tree.node keccak = standard_node_hash keccak"
  by (intro ext) (simp add: std_tree.node_def standard_node_hash_def)

lemma length_place_leaves [simp]: "length (place_leaves leaves) = 2 * length leaves - 1"
proof -
  have "length (foldl (\<lambda>tree (k, leaf). tree[length tree - 1 - k := fst leaf]) t xs) = length t"
    for t :: "hash list" and xs :: "(nat \<times> hash \<times> biguint) list"
    by (induction xs arbitrary: t) auto
  then show ?thesis by (simp add: place_leaves_def)
qed

lemma place_leaves_nth:
  assumes "k < length leaves"
  shows "place_leaves leaves ! (2 * length leaves - 2 - k) = fst (leaves ! k)"
proof -
  let ?n = "length leaves" and ?f = "\<lambda>tree (k, leaf :: hash \<times> biguint). tree[length tree - 1 - k := fst leaf]"
  have "length (foldl ?f t (enumerate 0 xs)) = 2 * ?n - 1
      \<and> (\<forall>j < length xs. foldl ?f t (enumerate 0 xs) ! (2 * ?n - 2 - j) = fst (xs ! j))"
    if "length t = 2 * ?n - 1" "length xs \<le> ?n" for t xs
    using that(2)
  proof (induction xs rule: rev_induct)
    case (snoc x xs)
    let ?t = "foldl ?f t (enumerate 0 xs)"
    have IH: "length ?t = 2 * ?n - 1" "\<forall>j < length xs. ?t ! (2 * ?n - 2 - j) = fst (xs ! j)"
      using snoc by auto
    have "foldl ?f t (enumerate 0 (xs @ [x])) = ?t[2 * ?n - 2 - length xs := fst x]"
      using IH(1) by (simp add: enumerate_append_eq numeral_2_eq_2)
    moreover have "2 * ?n - 2 - length xs \<noteq> 2 * ?n - 2 - j" if "j < length xs" for j
      using that snoc.prems by auto
    moreover have "2 * ?n - 2 - length xs < 2 * ?n - 1" using snoc.prems by auto
    ultimately show ?case using IH by (auto simp: nth_append less_Suc_eq)
  qed (use that(1) in simp)
  from this [of "replicate (2 * ?n - 1) ZERO_HASH" leaves] assms show ?thesis
    by (simp add: place_leaves_def)
qed

lemma fill_nodes_all:
  assumes "2 * m < length t"
  shows "length (fill_nodes node m t) = length t
    \<and> (\<forall>i \<ge> m. fill_nodes node m t ! i = t ! i)
    \<and> (\<forall>i < m. fill_nodes node m t ! i = node (fill_nodes node m t ! (2 * i + 1)) (fill_nodes node m t ! (2 * i + 2)))"
  using assms
proof (induction m arbitrary: t)
  case (Suc m)
  let ?t = "t[m := node (t ! (2 * m + 1)) (t ! (2 * m + 2))]"
  have step: "fill_nodes node (Suc m) t = fill_nodes node m ?t" by (simp add: fill_nodes_def)
  have IH: "length (fill_nodes node m ?t) = length t"
    "\<And>i. m \<le> i \<Longrightarrow> fill_nodes node m ?t ! i = ?t ! i"
    "\<And>i. i < m \<Longrightarrow> fill_nodes node m ?t ! i
        = node (fill_nodes node m ?t ! (2 * i + 1)) (fill_nodes node m ?t ! (2 * i + 2))"
    using Suc.IH [of ?t] Suc.prems by auto
  have "fill_nodes node m ?t ! m = node (fill_nodes node m ?t ! (2 * m + 1)) (fill_nodes node m ?t ! (2 * m + 2))"
    using Suc.prems IH(2) [of m] IH(2) [of "2 * m + 1"] IH(2) [of "2 * m + 2"] by simp
  then show ?case unfolding step using IH by (auto simp: less_Suc_eq)
qed (simp add: fill_nodes_def)

lemmas fill_nodes_props = fill_nodes_all [THEN conjunct1] fill_nodes_all [THEN conjunct2, THEN conjunct1, rule_format]
  fill_nodes_all [THEN conjunct2, THEN conjunct2, rule_format]

lemma tree_nodes_heap:
  assumes "leaves \<noteq> []"
  shows "std_tree.heap_tree keccak (tree_nodes keccak leaves) (length leaves)"
    "\<And>k. k < length leaves \<Longrightarrow> tree_nodes keccak leaves ! (2 * length leaves - 2 - k) = fst (leaves ! k)"
proof -
  let ?n = "length leaves" and ?t = "place_leaves leaves"
  have n: "0 < ?n" "2 * ?n - 1 - ?n = ?n - 1" using assms by auto
  have m: "2 * (?n - 1) < length ?t" using assms by (cases leaves) auto
  have t: "tree_nodes keccak leaves = fill_nodes (standard_node_hash keccak) (?n - 1) ?t"
    using n by (simp add: tree_nodes_def Let_def)
  show "std_tree.heap_tree keccak (tree_nodes keccak leaves) ?n"
    using fill_nodes_props [OF m] n unfolding std_tree.heap_tree_def t std_tree_node by simp
  show "tree_nodes keccak leaves ! (2 * ?n - 2 - k) = fst (leaves ! k)" if "k < ?n" for k
    using fill_nodes_props(2) [OF m, of "2 * ?n - 2 - k"] place_leaves_nth [OF that] that
    unfolding t by simp
qed

section \<open>Leaves\<close>

lemma leaf_encoding_Ok:
  "leaf_encoding i r = Ok e \<longleftrightarrow>
     length (mr_amounts r) * 32 \<le> u64_max \<and> list_all fits [i, mr_claim_id r, mr_score_spent r, mr_boosted_score r,
        mr_eligible_amount r, mr_eligible_booster_amount r] \<and> list_all fits (mr_amounts r)
     \<and> e = be_bytes 32 i @ be_bytes 32 (mr_claim_id r) @ abi_word (mr_user r) @ usize_word 256
         @ be_bytes 32 (mr_score_spent r) @ be_bytes 32 (mr_boosted_score r) @ be_bytes 32 (mr_eligible_amount r)
         @ be_bytes 32 (mr_eligible_booster_amount r) @ usize_word (length (mr_amounts r))
         @ concat (map (be_bytes 32) (mr_amounts r))"
  by (auto simp: leaf_encoding_def bindR_eq_Inr uint256_word_cases mapR_uint256_word [of "\<lambda>x. x", simplified]
      split: if_splits simp del: be_bytes.simps)

lemma concat_be_bytes_inj:
  "length xs = length ys \<Longrightarrow> list_all fits xs \<Longrightarrow> list_all fits ys \<Longrightarrow>
     concat (map (be_bytes 32) xs) = concat (map (be_bytes 32) ys) \<Longrightarrow> xs = ys"
proof (induction xs ys rule: list_induct2)
  case (Cons x xs y ys)
  then show ?case by (auto simp del: be_bytes.simps dest: be_bytes_32_inj)
qed simp

lemma length_concat_be_bytes [simp]: "length (concat (map (be_bytes k) xs)) = length xs * k"
  by (induction xs) auto

lemma leaf_encoding_length:
  "leaf_encoding i r = Ok e \<Longrightarrow> wf_address (mr_user r) \<Longrightarrow> length e = 288 + 32 * length (mr_amounts r)"
  by (simp add: leaf_encoding_Ok length_abi_word del: be_bytes.simps)

lemma leaf_encoding_inj:
  assumes "leaf_encoding i r = Ok e" "leaf_encoding i' r' = Ok e" "wf_address (mr_user r)" "wf_address (mr_user r')"
  shows "i = i' \<and> r = r'"
proof -
  have len: "length (mr_amounts r) = length (mr_amounts r')"
    using leaf_encoding_length [OF assms(1,3)] leaf_encoding_length [OF assms(2,4)] by simp
  note e = assms(1,2) [unfolded leaf_encoding_Ok]
  have "mr_amounts r = mr_amounts r'" "i = i'" "mr_claim_id r = mr_claim_id r'" "mr_user r = mr_user r'"
    "mr_score_spent r = mr_score_spent r'" "mr_boosted_score r = mr_boosted_score r'"
    "mr_eligible_amount r = mr_eligible_amount r'" "mr_eligible_booster_amount r = mr_eligible_booster_amount r'"
    using e len assms(3,4) concat_be_bytes_inj [OF len]
    by (simp_all add: length_abi_word abi_word_inj be_bytes_32_inj del: be_bytes.simps)
  then show ?thesis by simp
qed

definition leaf_of :: "(bytes \<Rightarrow> hash) \<Rightarrow> biguint \<Rightarrow> merkle_row \<Rightarrow> hash \<times> biguint \<Rightarrow> bool" where
  "leaf_of keccak i r l \<longleftrightarrow> standard_leaf_hash keccak i r = Ok (fst l) \<and> snd l = mr_claim_id r"

lemma collect_leaf_Ok:
  "collect_leaf keccak i (S, L) r = Ok s \<longleftrightarrow> mr_claim_id r \<notin> S
     \<and> (\<exists>h. standard_leaf_hash keccak i r = Ok h \<and> s = (insert (mr_claim_id r) S, L @ [(h, mr_claim_id r)]))"
  by (auto simp: collect_leaf_def bindR_eq_Inr)

lemma collect_leaves_from:
  "foldR (collect_leaf keccak i) (S0, L0) rows = Ok (S, L) \<Longrightarrow>
     distinct (map mr_claim_id rows) \<and> set (map mr_claim_id rows) \<inter> S0 = {}
     \<and> (\<exists>M. L = L0 @ M \<and> list_all2 (leaf_of keccak i) rows M)"
proof (induction rows arbitrary: S0 L0)
  case (Cons r rows)
  then obtain h where h: "mr_claim_id r \<notin> S0" "standard_leaf_hash keccak i r = Ok h"
    "foldR (collect_leaf keccak i) (insert (mr_claim_id r) S0, L0 @ [(h, mr_claim_id r)]) rows = Ok (S, L)"
    by (auto simp: collect_leaf_Ok)
  from Cons.IH [OF h(3)] obtain M where
    M: "distinct (map mr_claim_id rows)" "set (map mr_claim_id rows) \<inter> insert (mr_claim_id r) S0 = {}"
       "L = L0 @ (h, mr_claim_id r) # M" "list_all2 (leaf_of keccak i) rows M" by auto
  have "list_all2 (leaf_of keccak i) (r # rows) ((h, mr_claim_id r) # M)"
    using h(2) M(4) by (simp add: leaf_of_def)
  with h(1) M(1-3) show ?case by auto
qed simp

lemma collect_leaves:
  assumes "foldR (collect_leaf keccak i) ({}, []) rows = Ok (S, L)"
  shows "distinct (map mr_claim_id rows)" "list_all2 (leaf_of keccak i) rows L"
  using collect_leaves_from [OF assms] by auto

lemma collect_leaves_total:
  assumes "distinct (map mr_claim_id rows)" "set (map mr_claim_id rows) \<inter> S0 = {}"
    "\<forall>r \<in> set rows. \<exists>h. standard_leaf_hash keccak i r = Ok h"
  shows "\<exists>S L. foldR (collect_leaf keccak i) (S0, L0) rows = Ok (S, L)"
  using assms
proof (induction rows arbitrary: S0 L0)
  case (Cons r rows)
  then obtain h where "standard_leaf_hash keccak i r = Ok h" by auto
  with Cons show ?case by (simp add: collect_leaf_def)
qed simp

lemma tree_index_by_claim_nth:
  assumes "distinct (map snd leaves)" "k < length leaves"
  shows "tree_index_by_claim leaves (snd (leaves ! k)) = Some (2 * length leaves - 2 - k)"
proof -
  let ?n = "length leaves" and ?f = "\<lambda>m (j, leaf :: hash \<times> biguint). m(snd leaf \<mapsto> 2 * length leaves - 1 - 1 - j)"
  have "foldl ?f Map.empty (enumerate 0 xs) (snd (xs ! j)) = Some (2 * ?n - 2 - j)"
    if "j < length xs" "distinct (map snd xs)" for xs j
    using that
  proof (induction xs arbitrary: j rule: rev_induct)
    case (snoc x xs)
    show ?case
    proof (cases "j = length xs")
      case True
      then show ?thesis by (simp add: enumerate_append_eq)
    next
      case False
      with snoc.prems have j: "j < length xs" by simp
      have "snd x \<notin> snd ` set xs" using snoc.prems(2) by auto
      then have "snd (xs ! j) \<noteq> snd x" using nth_mem [OF j] by (metis imageI)
      with j snoc show ?thesis by (simp add: enumerate_append_eq nth_append)
    qed
  qed simp
  from this [OF assms(2,1)] show ?thesis by (simp add: tree_index_by_claim_def)
qed

text \<open>The sorted leaf list of a successful construction.\<close>

definition sorted_leaves :: "(bytes \<Rightarrow> hash) \<Rightarrow> biguint \<Rightarrow> merkle_row list \<Rightarrow> (hash \<times> biguint) list" where
  "sorted_leaves keccak i rows =
     (case foldR (collect_leaf keccak i) ({}, []) rows of Inr (_, L) \<Rightarrow> sort_key fst L | Inl _ \<Rightarrow> [])"

lemma settlement_tree_new_parts:
  assumes "settlement_tree_new keccak i rows = Ok t"
  obtains leaves where "leaves = sorted_leaves keccak i rows" "leaves \<noteq> []" "rows \<noteq> []"
    "distinct (map snd leaves)" "distinct (map mr_claim_id rows)"
    "\<forall>r \<in> set rows. \<exists>l \<in> set leaves. leaf_of keccak i r l" "\<forall>l \<in> set leaves. \<exists>r \<in> set rows. leaf_of keccak i r l"
    "st_root t = tree_nodes keccak leaves ! 0"
    "st_proofs t = (\<lambda>c. map_option (proof_path (tree_nodes keccak leaves)) (tree_index_by_claim leaves c))"
proof -
  obtain S L where L: "foldR (collect_leaf keccak i) ({}, []) rows = Ok (S, L)" and ne: "rows \<noteq> []"
    and t: "t = \<lparr>st_root = tree_nodes keccak (sort_key fst L) ! 0,
      st_proofs = (\<lambda>c. map_option (proof_path (tree_nodes keccak (sort_key fst L))) (tree_index_by_claim (sort_key fst L) c))\<rparr>"
    using assms by (auto simp: settlement_tree_new_def Let_def split: if_splits)
  note d = collect_leaves [OF L]
  have len: "L \<noteq> []" using list_all2_lengthD [OF d(2)] ne by auto
  have "map snd L = map mr_claim_id rows"
    using d(2) by (induction rows L rule: list_all2_induct) (auto simp: leaf_of_def)
  with d(1) have "distinct (map snd (sort_key fst L))"
    by (metis mset_eq_imp_distinct_iff mset_map mset_sort)
  moreover have "\<forall>r \<in> set rows. \<exists>l \<in> set L. leaf_of keccak i r l" "\<forall>l \<in> set L. \<exists>r \<in> set rows. leaf_of keccak i r l"
    using d(2) by (induction rows L rule: list_all2_induct) auto
  moreover have "sort_key fst L \<noteq> []" using len by (metis length_0_conv length_sort)
  ultimately show thesis
    using that [of "sort_key fst L"] d(1) t ne L by (simp add: sorted_leaves_def)
qed

lemma settlement_tree_new_success:
  "(\<exists>t. settlement_tree_new keccak i rows = Ok t) \<longleftrightarrow>
     rows \<noteq> [] \<and> distinct (map mr_claim_id rows) \<and> (\<forall>r \<in> set rows. \<exists>e. leaf_encoding i r = Ok e)"
proof
  assume "\<exists>t. settlement_tree_new keccak i rows = Ok t"
  then obtain t where t: "settlement_tree_new keccak i rows = Ok t" ..
  show "rows \<noteq> [] \<and> distinct (map mr_claim_id rows) \<and> (\<forall>r \<in> set rows. \<exists>e. leaf_encoding i r = Ok e)"
    by (rule settlement_tree_new_parts [OF t]) (auto simp: leaf_of_def standard_leaf_hash_def bindR_eq_Inr)
next
  assume r: "rows \<noteq> [] \<and> distinct (map mr_claim_id rows) \<and> (\<forall>r \<in> set rows. \<exists>e. leaf_encoding i r = Ok e)"
  then have "\<forall>r \<in> set rows. \<exists>h. standard_leaf_hash keccak i r = Ok h"
    by (auto simp: standard_leaf_hash_def bindR_eq_Inr)
  with r collect_leaves_total [of rows "{}" keccak i "[]"] show "\<exists>t. settlement_tree_new keccak i rows = Ok t"
    by (auto simp: settlement_tree_new_def Let_def)
qed

text \<open>The contract's proof check: fold the proof into the leaf and compare with the root.\<close>

definition verify_proof :: "(bytes \<Rightarrow> hash) \<Rightarrow> hash \<Rightarrow> hash list \<Rightarrow> hash \<Rightarrow> bool" where
  "verify_proof keccak root proof leaf \<longleftrightarrow> foldl (standard_node_hash keccak) leaf proof = root"

lemma verify_proof_process: "verify_proof keccak root ps leaf \<longleftrightarrow> std_tree.process_proof keccak leaf ps = root"
  by (simp add: verify_proof_def std_tree.process_proof_def std_tree_node)

lemma settlement_proofs_verify:
  assumes "settlement_tree_new keccak i rows = Ok t" "r \<in> set rows"
  shows "\<exists>leaf ps. standard_leaf_hash keccak i r = Ok leaf \<and> st_proofs t (mr_claim_id r) = Some ps
    \<and> verify_proof keccak (st_root t) ps leaf"
proof (rule settlement_tree_new_parts [OF assms(1)])
  fix leaves
  assume p: "leaves \<noteq> []" "distinct (map snd leaves)" "\<forall>r \<in> set rows. \<exists>l \<in> set leaves. leaf_of keccak i r l"
    "st_root t = tree_nodes keccak leaves ! 0"
    "st_proofs t = (\<lambda>c. map_option (proof_path (tree_nodes keccak leaves)) (tree_index_by_claim leaves c))"
  from p(3) assms(2) obtain k where k: "k < length leaves" "leaf_of keccak i r (leaves ! k)"
    by (metis in_set_conv_nth)
  let ?t = "tree_nodes keccak leaves" and ?j = "2 * length leaves - 2 - k"
  have heap: "std_tree.heap_tree keccak ?t (length leaves)" by (rule tree_nodes_heap(1) [OF p(1)])
  then have "?j < length ?t" using k(1) by (auto simp: std_tree.heap_tree_def)
  from std_tree.proof_path_verifies [OF heap this] tree_nodes_heap(2) [OF p(1) k(1)]
  have "std_tree.process_proof keccak (fst (leaves ! k)) (proof_path ?t ?j) = st_root t" using p(4) by simp
  then show ?thesis
    using k(2) p(5) tree_index_by_claim_nth [OF p(2) k(1)] by (auto simp: verify_proof_process leaf_of_def)
qed

text \<open>The byte strings hashed while building a tree, and while checking a row with a proof.\<close>

definition row_preimages :: "(bytes \<Rightarrow> hash) \<Rightarrow> biguint \<Rightarrow> merkle_row \<Rightarrow> bytes set" where
  "row_preimages keccak i r = (case leaf_encoding i r of Inl _ \<Rightarrow> {} | Inr e \<Rightarrow> {e, keccak e})"

definition tree_hashed :: "(bytes \<Rightarrow> hash) \<Rightarrow> biguint \<Rightarrow> merkle_row list \<Rightarrow> bytes set" where
  "tree_hashed keccak i rows =
     (let leaves = sorted_leaves keccak i rows; t = tree_nodes keccak leaves in
      \<Union> (row_preimages keccak i ` set rows)
      \<union> (\<lambda>j. node_preimage (t ! (2 * j + 1)) (t ! (2 * j + 2))) ` {..<length leaves - 1})"

fun proof_preimages :: "(bytes \<Rightarrow> hash) \<Rightarrow> hash \<Rightarrow> hash list \<Rightarrow> bytes set" where
  "proof_preimages keccak h [] = {}"
| "proof_preimages keccak h (p # ps) =
     insert (node_preimage h p) (proof_preimages keccak (standard_node_hash keccak h p) ps)"

lemma proof_preimages_steps: "proof_preimages keccak h ps = std_tree.step_preimages keccak h ps"
  by (induction ps arbitrary: h) (auto simp: std_tree_node)

lemma step_preimage_length:
  "q \<in> std_tree.step_preimages keccak h ps \<Longrightarrow> length h = 32 \<Longrightarrow> (\<And>x. length (keccak x) = 32) \<Longrightarrow>
     list_all (\<lambda>p. length p = 32) ps \<Longrightarrow> length q = 64"
  by (induction ps arbitrary: h) (auto simp: node_preimage_def std_tree.node_def split: if_splits)

lemma tree_node_length:
  assumes "leaves \<noteq> []" "\<And>x. length (keccak x) = 32" "\<forall>l \<in> set leaves. length (fst l) = 32"
    "j < length (tree_nodes keccak leaves)"
  shows "length (tree_nodes keccak leaves ! j) = 32"
proof (cases "j < length leaves - 1")
  case True
  then show ?thesis using tree_nodes_heap(1) [OF assms(1), of keccak] assms(2)
    by (simp add: std_tree.heap_tree_def std_tree.node_def)
next
  case False
  let ?n = "length leaves"
  have len: "length (tree_nodes keccak leaves) = 2 * ?n - 1"
    using tree_nodes_heap(1) [OF assms(1), of keccak] by (simp add: std_tree.heap_tree_def)
  define k where "k = 2 * ?n - 2 - j"
  have k: "k < ?n" "j = 2 * ?n - 2 - k" using False len assms(1,4) k_def by (auto simp: neq_Nil_conv)
  show ?thesis using tree_nodes_heap(2) [OF assms(1) k(1), of keccak] assms(3) k by simp
qed

lemma double_hash_cases:
  assumes "keccak (keccak e) = keccak (keccak e')"
  shows "e = e' \<or> (\<exists>p \<in> {e, keccak e}. \<exists>q \<in> {e', keccak e'}. p \<noteq> q \<and> keccak p = keccak q)"
  using assms by auto

lemma leaf_of_length: "leaf_of keccak i r l \<Longrightarrow> (\<And>x. length (keccak x) = 32) \<Longrightarrow> length (fst l) = 32"
  by (auto simp: leaf_of_def standard_leaf_hash_def dest!: arg_cong [where f = length])

lemma leaf_node_origin:
  assumes "settlement_tree_new keccak i rows = Ok t" "leaves = sorted_leaves keccak i rows"
    "j < length (tree_nodes keccak leaves)" "length leaves - 1 \<le> j"
  shows "\<exists>r \<in> set rows. \<exists>e. leaf_encoding i r = Ok e \<and> tree_nodes keccak leaves ! j = keccak (keccak e)
    \<and> {e, keccak e} \<subseteq> tree_hashed keccak i rows"
proof (rule settlement_tree_new_parts [OF assms(1)])
  fix ls assume ls: "ls = sorted_leaves keccak i rows" "ls \<noteq> []" "\<forall>l \<in> set ls. \<exists>r \<in> set rows. leaf_of keccak i r l"
  let ?n = "length leaves"
  have len: "length (tree_nodes keccak leaves) = 2 * ?n - 1" "leaves \<noteq> []"
    using tree_nodes_heap(1) [OF ls(2), of keccak] ls assms(2) by (auto simp: std_tree.heap_tree_def)
  define k where "k = 2 * ?n - 2 - j"
  have k: "k < ?n" "j = 2 * ?n - 2 - k" using assms(3,4) len k_def by (auto simp: neq_Nil_conv)
  from ls assms(2) nth_mem [OF k(1)] obtain r where r: "r \<in> set rows" "leaf_of keccak i r (leaves ! k)" by metis
  from r(2) obtain e where "leaf_encoding i r = Ok e" "fst (leaves ! k) = keccak (keccak e)"
    by (auto simp: leaf_of_def standard_leaf_hash_def)
  moreover from this r(1) have "{e, keccak e} \<subseteq> tree_hashed keccak i rows"
    by (force simp: tree_hashed_def row_preimages_def Let_def)
  ultimately show ?thesis using tree_nodes_heap(2) [OF len(2) k(1), of keccak] k(2) r(1) by metis
qed

lemma settlement_tree_sound:
  assumes "settlement_tree_new keccak i rows = Ok t" "\<forall>r \<in> set rows. wf_address (mr_user r)" "wf_address (mr_user r')"
    "\<And>x. length (keccak x) = 32" "list_all (\<lambda>p. length p = 32) ps"
    "standard_leaf_hash keccak i' r' = Ok leaf" "verify_proof keccak (st_root t) ps leaf"
  shows "i' = i \<and> r' \<in> set rows
    \<or> (\<exists>p \<in> tree_hashed keccak i rows. \<exists>q \<in> row_preimages keccak i' r' \<union> proof_preimages keccak leaf ps.
          p \<noteq> q \<and> keccak p = keccak q)"
proof (rule settlement_tree_new_parts [OF assms(1)])
  fix leaves
  assume p: "leaves = sorted_leaves keccak i rows" "leaves \<noteq> []" "\<forall>l \<in> set leaves. \<exists>r \<in> set rows. leaf_of keccak i r l"
    "st_root t = tree_nodes keccak leaves ! 0"
  let ?t = "tree_nodes keccak leaves" and ?n = "length leaves"
  obtain e' where e': "leaf_encoding i' r' = Ok e'" "leaf = keccak (keccak e')"
    using assms(6) by (auto simp: standard_leaf_hash_def)
  have heap: "std_tree.heap_tree keccak ?t ?n" by (rule tree_nodes_heap(1) [OF p(2)])
  then have len: "length ?t = 2 * ?n - 1" "0 < length ?t" using p(2) by (auto simp: std_tree.heap_tree_def neq_Nil_conv)
  have l32: "\<forall>l \<in> set leaves. length (fst l) = 32"
    using p(3) assms(4) leaf_of_length by blast
  note node32 = tree_node_length [OF p(2) assms(4) l32]
  have tree_inner: "std_tree.inner_preimages ?t ?n \<subseteq> tree_hashed keccak i rows"
    by (auto simp: tree_hashed_def std_tree.inner_preimages_def p(1) Let_def)
  note at_leaf = leaf_node_origin [OF assms(1) p(1)]
  have vr: "{e', keccak e'} \<subseteq> row_preimages keccak i' r'" using e' by (simp add: row_preimages_def)
  have "std_tree.process_proof keccak leaf ps = ?t ! 0" using assms(7) p(4) by (simp add: verify_proof_process)
  from std_tree.process_proof_descends [OF heap len(2) this _ assms(4) node32 assms(5)] e'(2) assms(4)
  consider (node) j where "j < length ?t" "leaf = ?t ! j"
    | (deep) j q where "j < length ?t" "?n - 1 \<le> j" "q \<in> std_tree.step_preimages keccak leaf ps" "?t ! j = keccak q"
    | (coll) x y where "x \<in> std_tree.inner_preimages ?t ?n" "y \<in> std_tree.step_preimages keccak leaf ps" "x \<noteq> y" "keccak x = keccak y"
    by blast
  then show ?thesis
  proof cases
    case node
    show ?thesis
    proof (cases "?n - 1 \<le> j")
      case True
      with at_leaf [OF node(1)] obtain r e where r: "r \<in> set rows" "leaf_encoding i r = Ok e"
        "?t ! j = keccak (keccak e)" "{e, keccak e} \<subseteq> tree_hashed keccak i rows" by blast
      have "keccak (keccak e) = keccak (keccak e')" using node(2) e'(2) r(3) by simp
      from double_hash_cases [of keccak, OF this] show ?thesis
      proof
        assume "e = e'"
        with leaf_encoding_inj [OF r(2) _ _ assms(3)] e'(1) assms(2) r(1) show ?thesis by blast
      qed (use r(4) vr in blast)
    next
      case False
      let ?p = "node_preimage (?t ! (2 * j + 1)) (?t ! (2 * j + 2))"
      have "?t ! j = keccak ?p" using heap False by (simp add: std_tree.heap_tree_def std_tree.node_def)
      moreover have "?p \<in> tree_hashed keccak i rows"
        using False tree_inner by (auto simp: std_tree.inner_preimages_def)
      moreover have "length ?p = 64" using node32 False len by (auto simp: node_preimage_def)
      then have "?p \<noteq> keccak e'" using assms(4) [of e'] by auto
      ultimately show ?thesis using node(2) e'(2) vr by (metis Un_iff insert_subset)
    qed
  next
    case deep
    with at_leaf obtain r e where r: "?t ! j = keccak (keccak e)" "{e, keccak e} \<subseteq> tree_hashed keccak i rows" by blast
    have "length q = 64" using step_preimage_length [OF deep(3) _ assms(4,5)] e'(2) assms(4) by simp
    then have "keccak e \<noteq> q" using assms(4) [of e] by auto
    with r deep show ?thesis by (metis Un_iff insert_subset proof_preimages_steps)
  next
    case coll
    with tree_inner show ?thesis by (auto simp: proof_preimages_steps)
  qed
qed

section \<open>Claims\<close>

text \<open>
  C3.  Completeness of the settlement tree: construction succeeds exactly for a non-empty list of rows with distinct
  claim ids and encodable values, and then every row has an inclusion proof that verifies
  against the root (and claims without a row have none).
\<close>
theorem settlement_tree_complete:
  "((\<exists>t. settlement_tree_new keccak i rows = Ok t) \<longleftrightarrow>
      rows \<noteq> [] \<and> distinct (map mr_claim_id rows) \<and> (\<forall>r \<in> set rows. \<exists>e. leaf_encoding i r = Ok e))
   \<and> (\<forall>t r. settlement_tree_new keccak i rows = Ok t \<longrightarrow> r \<in> set rows \<longrightarrow>
        (\<exists>leaf ps. standard_leaf_hash keccak i r = Ok leaf \<and> st_proofs t (mr_claim_id r) = Some ps
           \<and> verify_proof keccak (st_root t) ps leaf))"
  by (intro conjI allI impI, rule settlement_tree_new_success, rule settlement_proofs_verify)

definition demo_row :: "nat \<Rightarrow> merkle_row" where
  "demo_row c = \<lparr>mr_claim_id = c, mr_user = Address (replicate 20 1), mr_amounts = [c, 5], mr_score_spent = 3,
     mr_boosted_score = 4, mr_eligible_amount = 10, mr_eligible_booster_amount = 0\<rparr>"

lemma demo_row_encodes: "c < 100 \<Longrightarrow> \<exists>e. leaf_encoding 1 (demo_row c) = Ok e"
  by (simp add: leaf_encoding_Ok demo_row_def u64_max_def fits_def del: be_bytes.simps)

theorem settlement_tree_complete_witness:
  "\<exists>t. settlement_tree_new demo_keccak 1 [demo_row 1, demo_row 2, demo_row 3] = Ok t
     \<and> (\<exists>leaf ps. standard_leaf_hash demo_keccak 1 (demo_row 2) = Ok leaf
          \<and> st_proofs t 2 = Some ps \<and> verify_proof demo_keccak (st_root t) ps leaf)"
proof -
  let ?rows = "[demo_row 1, demo_row 2, demo_row 3]"
  have "\<exists>e. leaf_encoding 1 r = Ok e" if "r \<in> set ?rows" for r
  proof -
    from that obtain c where "c \<in> {1, 2, 3}" "r = demo_row c" by auto
    moreover from this have "c < 100" by auto
    ultimately have "c < 100" "r = demo_row c" by auto
    then show ?thesis by (simp only: demo_row_encodes)
  qed
  moreover have "distinct (map mr_claim_id ?rows)" by (simp add: demo_row_def)
  ultimately obtain t where t: "settlement_tree_new demo_keccak 1 ?rows = Ok t"
    using settlement_tree_complete [of demo_keccak 1 ?rows] by blast
  moreover have "mr_claim_id (demo_row 2) = 2" "demo_row 2 \<in> set ?rows" by (simp_all add: demo_row_def)
  ultimately show ?thesis using settlement_tree_complete [of demo_keccak 1 ?rows] by metis
qed

text \<open>
  C14.  Soundness of the settlement tree: a row that verifies against the root with any proof of 32-byte
  siblings is one of the settled rows of that incident, or the check and the construction together
  exhibit a collision of the hash function among the byte strings they hash.  The
  double-hashed leaves are what keeps inner nodes from passing as leaves.
\<close>
theorem settlement_tree_binding:
  assumes "settlement_tree_new keccak i rows = Ok t" "\<forall>r \<in> set rows. wf_address (mr_user r)" "wf_address (mr_user r')"
    "\<And>x. length (keccak x) = 32" "list_all (\<lambda>p. length p = 32) ps"
    "standard_leaf_hash keccak i' r' = Ok leaf" "verify_proof keccak (st_root t) ps leaf"
  shows "i' = i \<and> r' \<in> set rows
    \<or> (\<exists>p \<in> tree_hashed keccak i rows. \<exists>q \<in> row_preimages keccak i' r' \<union> proof_preimages keccak leaf ps.
          p \<noteq> q \<and> keccak p = keccak q)"
  by (rule settlement_tree_sound [OF assms])

lemma demo_single_tree:
  "\<exists>h. standard_leaf_hash demo_keccak 1 (demo_row 1) = Ok h
     \<and> settlement_tree_new demo_keccak 1 [demo_row 1] = Ok \<lparr>st_root = h, st_proofs = [1 \<mapsto> []]\<rparr>"
proof -
  obtain e where "leaf_encoding 1 (demo_row 1) = Ok e" using demo_row_encodes [of 1] by auto
  then show ?thesis
    by (simp add: settlement_tree_new_def collect_leaf_def standard_leaf_hash_def tree_nodes_def place_leaves_def
        fill_nodes_def tree_index_by_claim_def proof_path.simps demo_row_def fun_eq_iff Let_def)
qed

theorem settlement_tree_binding_witness:
  "\<exists>leaf. standard_leaf_hash demo_keccak 1 (demo_row 1) = Ok leaf \<and>
    ((1 :: nat) = 1 \<and> demo_row 1 \<in> set [demo_row 1]
    \<or> (\<exists>p \<in> tree_hashed demo_keccak 1 [demo_row 1].
         \<exists>q \<in> row_preimages demo_keccak 1 (demo_row 1) \<union> proof_preimages demo_keccak leaf [].
          p \<noteq> q \<and> demo_keccak p = demo_keccak q))"
proof -
  from demo_single_tree obtain h where h: "standard_leaf_hash demo_keccak 1 (demo_row 1) = Ok h"
    "settlement_tree_new demo_keccak 1 [demo_row 1] = Ok \<lparr>st_root = h, st_proofs = [1 \<mapsto> []]\<rparr>" by blast
  have wf: "\<forall>r \<in> set [demo_row 1]. wf_address (mr_user r)" "wf_address (mr_user (demo_row 1))"
    by (simp_all add: demo_row_def wf_address_def)
  have "length (demo_keccak x) = 32" for x by (simp add: demo_keccak_def)
  from settlement_tree_binding [OF h(2) wf this _ h(1), of "[]"] h(1) show ?thesis
    by (simp add: verify_proof_def)
qed

end
