(* ===== verification/Settlement_Kernel.thy ===== *)
theory Settlement_Kernel
  imports Merkle
begin

text \<open>
  The deterministic settlement kernel of \<^verbatim>\<open>offchain-rust/src/lib.rs\<close>: \<^verbatim>\<open>allocate\<close> turns resolved claims
  and pool balances into payout rows, and \<^verbatim>\<open>allocate_with_events\<close> drives it from the claim
  stream.  The lemmas give the solvency bound, the caps of each row and the fact that the
  stream alone decides which claims are paid and in which order.
\<close>

section \<open>Data\<close>

definition BPS :: nat where "BPS = 10000"
definition MAX_COVERAGE_BPS :: nat where "MAX_COVERAGE_BPS = 8000"
definition MAX_PROTOCOL_FEE_BPS :: nat where "MAX_PROTOCOL_FEE_BPS = 2000"

record pool_input =
  pi_balance :: biguint
  pi_asset_usd :: biguint
  pi_asset_decimals :: nat

record claim_input =
  ci_claim_id :: biguint
  ci_user :: address
  ci_escrow_amount :: biguint
  ci_min_held :: biguint
  ci_gross_earned_score :: biguint
  ci_spent_score :: biguint
  ci_score_to_spend :: biguint
  ci_booster_amount :: biguint
  ci_booster_held :: biguint

record kernel_input =
  ki_incident_id :: biguint
  ki_coverage_bps :: biguint
  ki_booster_boost_bps :: biguint
  ki_insured_decimals :: nat
  ki_twap_ratio :: biguint
  ki_underlying_usd :: biguint
  ki_max_cover_pool_payout_bps :: biguint
  ki_protocol_fee_share_bps :: biguint
  ki_pools :: "pool_input list"
  ki_claims :: "claim_input list"

record settled_row =
  sr_claim_id :: biguint
  sr_user :: address
  sr_escrow_amount :: biguint
  sr_eligible_amount :: biguint
  sr_loss_usd :: biguint
  sr_gross_earned_score :: biguint
  sr_earned_score :: biguint
  sr_score_spent :: biguint
  sr_boosted_score :: biguint
  sr_booster_amount :: biguint
  sr_eligible_booster_amount :: biguint
  sr_payout_usd :: biguint
  sr_amounts :: "biguint list"

record kernel_output =
  ko_rows :: "settled_row list"
  ko_pool_payouts :: "biguint list"
  ko_claim_set_hash :: string
  ko_settlement_input_hash :: string
  ko_root :: string
  ko_proofs :: "biguint \<Rightarrow> string list option"

section \<open>Allocation\<close>

text \<open>The early returns of \<^verbatim>\<open>allocate\<close>, in order.\<close>

definition validate_policy :: "kernel_input \<Rightarrow> (kernel_error, unit) result" where
  "validate_policy input =
     (if ki_coverage_bps input > MAX_COVERAGE_BPS
      then Err (InvalidPolicy (''coverageBps exceeds 8000: '' @ show_nat (ki_coverage_bps input)))
      else if ki_max_cover_pool_payout_bps input > BPS
      then Err (InvalidPolicy (''maxCoverPoolPayoutBps exceeds 10000: '' @ show_nat (ki_max_cover_pool_payout_bps input)))
      else if ki_protocol_fee_share_bps input > MAX_PROTOCOL_FEE_BPS
      then Err (InvalidPolicy (''protocolFeeShareBps exceeds 2000: '' @ show_nat (ki_protocol_fee_share_bps input)))
      else if ki_booster_boost_bps input = 0 \<or> ki_booster_boost_bps input > 65535
      then Err (InvalidPolicy (''boosterBoostBps must be a nonzero uint16: '' @ show_nat (ki_booster_boost_bps input)))
      else if ki_insured_decimals input > 255
      then Err (InvalidPolicy (''insuredDecimals exceeds uint8: '' @ show_nat (ki_insured_decimals input)))
      else case find (\<lambda>pool. pi_asset_decimals pool > 255) (ki_pools input) of
        Some pool \<Rightarrow> Err (InvalidPolicy (''pool assetDecimals exceeds uint8: '' @ show_nat (pi_asset_decimals pool)))
      | None \<Rightarrow> Ok ())"

text \<open>The body of the loop over the claims: losses and scores, no payout yet.\<close>

definition settle_claim :: "kernel_input \<Rightarrow> claim_input \<Rightarrow> settled_row" where
  "settle_claim input claim =
     (let wad = pow10 18;
          eligible = min (ci_min_held claim) (ci_escrow_amount claim);
          loss_usd = ((eligible * ki_twap_ratio input) div wad * ki_underlying_usd input)
                       div pow10 (ki_insured_decimals input);
          unspent = (if ci_gross_earned_score claim > ci_spent_score claim
                     then ci_gross_earned_score claim - ci_spent_score claim else 0);
          boost = min (ci_booster_amount claim) (ci_booster_held claim);
          score_spent = (if eligible = 0 then 0 else min (ci_score_to_spend claim) unspent);
          boosted_score = (score_spent * (BPS + boost * ki_booster_boost_bps input)) div BPS
      in \<lparr>sr_claim_id = ci_claim_id claim, sr_user = ci_user claim,
          sr_escrow_amount = ci_escrow_amount claim, sr_eligible_amount = eligible,
          sr_loss_usd = loss_usd, sr_gross_earned_score = ci_gross_earned_score claim,
          sr_earned_score = unspent, sr_score_spent = score_spent, sr_boosted_score = boosted_score,
          sr_booster_amount = ci_booster_amount claim, sr_eligible_booster_amount = boost,
          sr_payout_usd = 0, sr_amounts = []\<rparr>)"

definition pool_usd_total :: "kernel_input \<Rightarrow> biguint" where
  "pool_usd_total input =
     foldl (\<lambda>sum pool. sum + (pi_balance pool * pi_asset_usd pool) div pow10 (pi_asset_decimals pool))
       0 (ki_pools input)"

definition user_share_bps :: "kernel_input \<Rightarrow> biguint" where
  "user_share_bps input = BPS - ki_protocol_fee_share_bps input"

definition max_total_usd :: "kernel_input \<Rightarrow> biguint" where
  "max_total_usd input =
     (let max_total_gross_usd = (pool_usd_total input * ki_max_cover_pool_payout_bps input) div BPS
      in (max_total_gross_usd * user_share_bps input) div BPS)"

definition pay_rows :: "kernel_input \<Rightarrow> settled_row list \<Rightarrow> settled_row list" where
  "pay_rows input rows =
     (let total_boosted_score = foldl (\<lambda>sum row. sum + sr_boosted_score row) 0 rows in
      if total_boosted_score = 0 then rows
      else map (\<lambda>row.
        let cap = (sr_loss_usd row * ki_coverage_bps input) div BPS;
            entitlement = (max_total_usd input * sr_boosted_score row) div total_boosted_score
        in row\<lparr>sr_payout_usd := min entitlement cap\<rparr>) rows)"

definition row_amounts :: "kernel_input \<Rightarrow> settled_row \<Rightarrow> biguint list" where
  "row_amounts input row =
     (let pool_usd = pool_usd_total input in
      map (\<lambda>pool. if pool_usd = 0 then 0 else (sr_payout_usd row * pi_balance pool) div pool_usd)
        (ki_pools input))"

text \<open>The loop that splits each row over the pools and accumulates the gross pool payouts.\<close>

fun split_rows :: "kernel_input \<Rightarrow> biguint list \<Rightarrow> settled_row list \<Rightarrow> settled_row list \<times> biguint list" where
  "split_rows input totals [] = ([], totals)"
| "split_rows input totals (row # rows) =
     (let amounts = row_amounts input row;
          totals' = map (\<lambda>(total, amount). total + (amount * BPS) div user_share_bps input) (zip totals amounts);
          (rest, final) = split_rows input totals' rows
      in (row\<lparr>sr_amounts := amounts\<rparr> # rest, final))"

definition settled_rows :: "kernel_input \<Rightarrow> settled_row list \<times> biguint list" where
  "settled_rows input =
     split_rows input (replicate (length (ki_pools input)) 0)
       (pay_rows input (map (settle_claim input) (ki_claims input)))"

definition register_event :: "nat \<Rightarrow> claim_input \<Rightarrow> claim_event" where
  "register_event index claim =
     \<lparr>ev_kind = Register, ev_claim_id = ci_claim_id claim, ev_user = ci_user claim,
      ev_amount = ci_escrow_amount claim, ev_score_to_spend = ci_score_to_spend claim,
      ev_booster_amount = ci_booster_amount claim, ev_block_number = 0, ev_log_index = index\<rparr>"

definition merkle_row_of :: "settled_row \<Rightarrow> merkle_row" where
  "merkle_row_of row =
     \<lparr>mr_claim_id = sr_claim_id row, mr_user = sr_user row, mr_amounts = sr_amounts row,
      mr_score_spent = sr_score_spent row, mr_boosted_score = sr_boosted_score row,
      mr_eligible_amount = sr_eligible_amount row, mr_eligible_booster_amount = sr_eligible_booster_amount row\<rparr>"

definition allocate :: "(bytes \<Rightarrow> hash) \<Rightarrow> kernel_input \<Rightarrow> (kernel_error, kernel_output) result" where
  "allocate keccak256 input =
     bindR (validate_policy input) (\<lambda>_.
     let (rows, pool_payouts) = settled_rows input;
         claim_events = map (\<lambda>(index, claim). register_event index claim) (enumerate 0 (ki_claims input))
     in bindR (claim_set_hash keccak256 claim_events) (\<lambda>csh.
        bindR (settlement_input_hash keccak256 (map (\<lambda>row. (sr_user row, sr_gross_earned_score row)) rows)) (\<lambda>sih.
        bindR (if rows = [] then Ok (''0x'' @ replicate 64 (CHR ''0''), Map.empty)
               else bindR (settlement_tree_new keccak256 (ki_incident_id input) (map merkle_row_of rows)) (\<lambda>tree.
                 Ok (root_hex tree, all_proofs_hex tree))) (\<lambda>(root, proofs).
          Ok \<lparr>ko_rows = rows, ko_pool_payouts = pool_payouts, ko_claim_set_hash = csh,
              ko_settlement_input_hash = sih, ko_root = root, ko_proofs = proofs\<rparr>))))"

section \<open>Allocation from the claim stream\<close>

record stream_maps =
  sm_registrations :: "biguint \<Rightarrow> claim_event option"
  sm_order :: "biguint list"
  sm_cancelled :: "biguint set"

definition stream_step :: "stream_maps \<Rightarrow> claim_event \<Rightarrow> (kernel_error, stream_maps) result" where
  "stream_step s event =
     (let cid = ev_claim_id event in
      case ev_kind event of
        Register \<Rightarrow>
          if sm_registrations s cid \<noteq> None then Err (DuplicateRegistration cid)
          else Ok (s\<lparr>sm_registrations := (sm_registrations s)(cid \<mapsto> event), sm_order := sm_order s @ [cid]\<rparr>)
      | Cancel \<Rightarrow>
          if sm_registrations s cid = None then Err (UnknownCancellation cid)
          else if cid \<in> sm_cancelled s then Err (DuplicateCancellation cid)
          else Ok (s\<lparr>sm_cancelled := insert cid (sm_cancelled s)\<rparr>))"

definition stream_init :: stream_maps where
  "stream_init = \<lparr>sm_registrations = Map.empty, sm_order = [], sm_cancelled = {}\<rparr>"

definition resolve_step ::
  "stream_maps \<Rightarrow> (biguint \<Rightarrow> claim_input option) \<Rightarrow> claim_input
    \<Rightarrow> (kernel_error, biguint \<Rightarrow> claim_input option) result" where
  "resolve_step s resolved claim =
     (let cid = ci_claim_id claim in
      if resolved cid \<noteq> None then Err (DuplicateResolvedClaim cid)
      else if sm_registrations s cid = None \<or> cid \<in> sm_cancelled s then Err (UnexpectedResolvedClaim cid)
      else Ok (resolved(cid \<mapsto> claim)))"

fun order_claims ::
  "stream_maps \<Rightarrow> (biguint \<Rightarrow> claim_input option) \<Rightarrow> biguint list \<Rightarrow> (kernel_error, claim_input list) result" where
  "order_claims s resolved [] = Ok []"
| "order_claims s resolved (cid # cids) =
     (if cid \<in> sm_cancelled s then order_claims s resolved cids
      else bindR (ok_or (InvalidPolicy (''registration order references missing claim '' @ show_nat cid))
                   (sm_registrations s cid)) (\<lambda>registration.
           bindR (ok_or (MissingResolvedClaim cid) (resolved cid)) (\<lambda>claim.
           if ev_user registration \<noteq> ci_user claim \<or> ev_amount registration \<noteq> ci_escrow_amount claim
              \<or> ev_score_to_spend registration \<noteq> ci_score_to_spend claim
              \<or> ev_booster_amount registration \<noteq> ci_booster_amount claim
           then Err (ResolvedClaimMismatch cid)
           else bindR (order_claims s resolved cids) (\<lambda>rest. Ok (claim # rest)))))"

definition allocate_with_events ::
  "(bytes \<Rightarrow> hash) \<Rightarrow> kernel_input \<Rightarrow> claim_event list \<Rightarrow> (kernel_error, kernel_output) result" where
  "allocate_with_events keccak256 input events =
     bindR (replay_claim_set keccak256 events) (\<lambda>_.
     bindR (foldR stream_step stream_init events) (\<lambda>s.
     bindR (foldR (resolve_step s) Map.empty (ki_claims input)) (\<lambda>resolved.
     bindR (order_claims s resolved (sm_order s)) (\<lambda>ordered_claims.
     bindR (allocate keccak256 (input\<lparr>ki_claims := ordered_claims\<rparr>)) (\<lambda>output.
     bindR (claim_set_hash keccak256 events) (\<lambda>h.
       Ok (output\<lparr>ko_claim_set_hash := h\<rparr>)))))))"

section \<open>Bounds of an allocation\<close>

lemma foldl_add_sum_list: "foldl (\<lambda>sum x. sum + f x) (a :: nat) xs = a + sum_list (map f xs)"
  by (induction xs arbitrary: a) auto

lemma validate_policy_Ok:
  "validate_policy input = Ok u \<longleftrightarrow>
     ki_coverage_bps input \<le> 8000 \<and> ki_max_cover_pool_payout_bps input \<le> 10000
     \<and> ki_protocol_fee_share_bps input \<le> 2000
     \<and> 0 < ki_booster_boost_bps input \<and> ki_booster_boost_bps input \<le> 65535
     \<and> ki_insured_decimals input \<le> 255 \<and> (\<forall>p \<in> set (ki_pools input). pi_asset_decimals p \<le> 255)"
  by (auto simp: validate_policy_def MAX_COVERAGE_BPS_def BPS_def MAX_PROTOCOL_FEE_BPS_def find_None_iff
      find_Some_iff not_less split: option.splits intro!: bexI [OF _ nth_mem])

lemma length_row_amounts [simp]: "length (row_amounts input r) = length (ki_pools input)"
  by (simp add: row_amounts_def Let_def)

lemma split_rows_fst: "fst (split_rows input ts rows) = map (\<lambda>r. r\<lparr>sr_amounts := row_amounts input r\<rparr>) rows"
  by (induction input ts rows rule: split_rows.induct) (auto simp: Let_def split: prod.splits)

definition gross_out :: "kernel_input \<Rightarrow> nat \<Rightarrow> settled_row \<Rightarrow> biguint" where
  "gross_out input i r = (row_amounts input r ! i * BPS) div user_share_bps input"

lemma split_rows_snd:
  "length ts = length (ki_pools input) \<Longrightarrow> i < length ts \<Longrightarrow>
     length (snd (split_rows input ts rows)) = length ts
     \<and> snd (split_rows input ts rows) ! i = ts ! i + sum_list (map (gross_out input i) rows)"
proof (induction rows arbitrary: ts)
  case (Cons r rows)
  let ?ts = "map (\<lambda>(t, a). t + (a * BPS) div user_share_bps input) (zip ts (row_amounts input r))"
  have "length ?ts = length (ki_pools input)" "i < length ?ts" "?ts ! i = ts ! i + gross_out input i r"
    using Cons.prems by (simp_all add: gross_out_def)
  with Cons.IH [of ?ts] Cons.prems show ?case by (simp add: Let_def split_def)
qed simp

lemma pool_payouts_nth:
  assumes "i < length (ki_pools input)"
  shows "snd (settled_rows input) ! i
    = sum_list (map (gross_out input i) (pay_rows input (map (settle_claim input) (ki_claims input))))"
  using split_rows_snd [of "replicate (length (ki_pools input)) 0" input i] assms
  by (simp add: settled_rows_def)

lemma sum_entitlements:
  fixes f :: "'a \<Rightarrow> nat"
  assumes "sum_list (map f xs) = T"
  shows "sum_list (map (\<lambda>x. (M * f x) div T) xs) \<le> M"
proof -
  have "sum_list (map (\<lambda>x. (M * f x) div T) xs) \<le> sum_list (map (\<lambda>x. M * f x) xs) div T"
    by (rule sum_list_div_le)
  also have "\<dots> = (M * T) div T" using assms by (simp add: sum_list_const_mult)
  also have "\<dots> \<le> M" by (cases "T = 0") simp_all
  finally show ?thesis .
qed

lemma settle_claim_fields [simp]:
  "sr_claim_id (settle_claim input c) = ci_claim_id c"
  "sr_user (settle_claim input c) = ci_user c"
  "sr_escrow_amount (settle_claim input c) = ci_escrow_amount c"
  "sr_eligible_amount (settle_claim input c) = min (ci_min_held c) (ci_escrow_amount c)"
  "sr_gross_earned_score (settle_claim input c) = ci_gross_earned_score c"
  "sr_earned_score (settle_claim input c) = ci_gross_earned_score c - ci_spent_score c"
  "sr_booster_amount (settle_claim input c) = ci_booster_amount c"
  "sr_eligible_booster_amount (settle_claim input c) = min (ci_booster_amount c) (ci_booster_held c)"
  "sr_payout_usd (settle_claim input c) = 0"
  by (simp_all add: settle_claim_def Let_def)

lemma pay_rows_total:
  "sum_list (map sr_payout_usd (pay_rows input (map (settle_claim input) cs))) \<le> max_total_usd input"
proof -
  let ?rows = "map (settle_claim input) cs" and ?M = "max_total_usd input"
  define T where "T = sum_list (map sr_boosted_score ?rows)"
  show ?thesis
  proof (cases "T = 0")
    case True
    then show ?thesis by (simp add: pay_rows_def foldl_add_sum_list T_def Let_def comp_def)
  next
    case False
    then have "map sr_payout_usd (pay_rows input ?rows)
        = map (\<lambda>r. min ((?M * sr_boosted_score r) div T) ((sr_loss_usd r * ki_coverage_bps input) div BPS)) ?rows"
      by (simp add: pay_rows_def foldl_add_sum_list T_def Let_def)
    also have "sum_list \<dots> \<le> sum_list (map (\<lambda>r. (?M * sr_boosted_score r) div T) ?rows)"
      by (rule sum_list_mono) simp
    also have "\<dots> \<le> ?M" by (rule sum_entitlements) (simp add: T_def)
    finally show ?thesis .
  qed
qed

text \<open>The arithmetic core of solvency: rounding down at every division only helps the pool.\<close>

lemma solvency_arith:
  fixes S X P U B M bal c :: nat
  assumes "0 < P" "0 < U" "X * U \<le> (S * bal) div P * B" "S * B \<le> M * U" "M * B \<le> P * c"
  shows "X * B \<le> bal * c"
proof -
  have "X * U * P \<le> (S * bal) div P * B * P" using assms(3) by simp
  also have "\<dots> = (S * bal) div P * P * B" by simp
  also have "\<dots> \<le> S * bal * B" by (intro mult_right_mono) auto
  also have "\<dots> = S * B * bal" by simp
  also have "\<dots> \<le> M * U * bal" using assms(4) by (intro mult_right_mono) auto
  finally have "U * (X * P) \<le> U * (M * bal)" by (simp add: ac_simps)
  then have "X * P \<le> M * bal" using assms(2) by simp
  then have "X * P * B \<le> M * B * bal" by (metis mult.assoc mult.commute mult_le_mono1)
  also have "\<dots> \<le> P * c * bal" using assms(5) by (intro mult_right_mono) auto
  finally have "P * (X * B) \<le> P * (bal * c)" by (simp add: ac_simps)
  then show ?thesis using assms(1) by simp
qed

lemma pool_payout_bound:
  assumes "ki_protocol_fee_share_bps input \<le> 2000" "i < length (ki_pools input)"
  shows "snd (settled_rows input) ! i * BPS
    \<le> pi_balance (ki_pools input ! i) * ki_max_cover_pool_payout_bps input"
proof (cases "pool_usd_total input = 0")
  case True
  then have "gross_out input i r = 0" for r
    using assms(2) by (simp add: gross_out_def row_amounts_def Let_def)
  then have "gross_out input i = (\<lambda>_. 0)" by auto
  then show ?thesis using pool_payouts_nth [OF assms(2)] by simp
next
  case False
  let ?P = "pool_usd_total input" and ?U = "user_share_bps input" and ?b = "pi_balance (ki_pools input ! i)"
  let ?rows = "pay_rows input (map (settle_claim input) (ki_claims input))"
  let ?S = "sum_list (map sr_payout_usd ?rows)"
  define M where "M = (?P * ki_max_cover_pool_payout_bps input) div BPS"
  have U: "0 < ?U" using assms(1) by (simp add: user_share_bps_def BPS_def)
  have g: "gross_out input i r = ((sr_payout_usd r * ?b) div ?P * BPS) div ?U" for r
    using False assms(2) by (simp add: gross_out_def row_amounts_def Let_def)
  have "snd (settled_rows input) ! i \<le> sum_list (map (\<lambda>r. (sr_payout_usd r * ?b) div ?P * BPS) ?rows) div ?U"
    unfolding pool_payouts_nth [OF assms(2)] g by (rule sum_list_div_le)
  also have "sum_list (map (\<lambda>r. (sr_payout_usd r * ?b) div ?P * BPS) ?rows)
      = sum_list (map (\<lambda>r. (sr_payout_usd r * ?b) div ?P) ?rows) * BPS" by (simp add: sum_list_mult_const)
  also have "\<dots> \<le> (?S * ?b) div ?P * BPS"
    using sum_list_div_le [of "\<lambda>r. sr_payout_usd r * ?b" ?P ?rows] by (simp add: sum_list_mult_const)
  finally have "snd (settled_rows input) ! i \<le> (?S * ?b) div ?P * BPS div ?U" by (simp add: div_le_mono)
  then have 1: "snd (settled_rows input) ! i * ?U \<le> (?S * ?b) div ?P * BPS"
    by (metis U div_le_mono less_eq_div_iff_mult_less_eq)
  have "?S \<le> (M * ?U) div BPS"
    using pay_rows_total [of input "ki_claims input"] by (simp add: max_total_usd_def M_def Let_def)
  then have 2: "?S * BPS \<le> M * ?U" by (simp add: BPS_def less_eq_div_iff_mult_less_eq)
  have 3: "M * BPS \<le> ?P * ki_max_cover_pool_payout_bps input" by (simp add: M_def)
  show ?thesis using solvency_arith [OF _ U 1 2 3] False by simp
qed

lemma max_total_usd_bound:
  "max_total_usd input * BPS * BPS
     \<le> pool_usd_total input * ki_max_cover_pool_payout_bps input * (BPS - ki_protocol_fee_share_bps input)"
proof -
  let ?g = "(pool_usd_total input * ki_max_cover_pool_payout_bps input) div BPS"
  have "max_total_usd input * BPS \<le> ?g * user_share_bps input"
    by (simp add: max_total_usd_def Let_def)
  then have "max_total_usd input * BPS * BPS \<le> ?g * user_share_bps input * BPS" by (rule mult_right_mono) simp
  also have "\<dots> = ?g * BPS * user_share_bps input" by simp
  also have "\<dots> \<le> pool_usd_total input * ki_max_cover_pool_payout_bps input * user_share_bps input"
    by (rule mult_right_mono) simp_all
  finally show ?thesis by (simp add: user_share_bps_def)
qed

lemma gross_out_covers:
  assumes "ki_protocol_fee_share_bps input \<le> 2000"
  shows "row_amounts input r ! i \<le> gross_out input i r"
proof -
  have U: "0 < user_share_bps input" "user_share_bps input \<le> BPS" using assms by (auto simp: user_share_bps_def BPS_def)
  have "row_amounts input r ! i * user_share_bps input \<le> row_amounts input r ! i * BPS" using U(2) by simp
  then show ?thesis using U(1) by (simp add: gross_out_def less_eq_div_iff_mult_less_eq)
qed

section \<open>Rows\<close>

text \<open>The final row of a claim, given the sum of all boosted scores.\<close>

definition final_row :: "kernel_input \<Rightarrow> biguint \<Rightarrow> claim_input \<Rightarrow> settled_row" where
  "final_row input T c =
     (let r = settle_claim input c;
          p = (if T = 0 then 0 else min ((max_total_usd input * sr_boosted_score r) div T)
                 ((sr_loss_usd r * ki_coverage_bps input) div BPS));
          r' = r\<lparr>sr_payout_usd := p\<rparr>
      in r'\<lparr>sr_amounts := row_amounts input r'\<rparr>)"

definition boosted_total :: "kernel_input \<Rightarrow> biguint" where
  "boosted_total input = sum_list (map (\<lambda>c. sr_boosted_score (settle_claim input c)) (ki_claims input))"

lemma settle_claim_unpaid: "(settle_claim input c)\<lparr>sr_payout_usd := 0\<rparr> = settle_claim input c"
  by (simp add: settle_claim_def Let_def)

lemma settled_rows_fst: "fst (settled_rows input) = map (final_row input (boosted_total input)) (ki_claims input)"
  by (simp add: settled_rows_def split_rows_fst pay_rows_def foldl_add_sum_list final_row_def boosted_total_def
        Let_def comp_def settle_claim_unpaid)

lemma final_row_fields [simp]:
  "sr_claim_id (final_row input T c) = ci_claim_id c"
  "sr_user (final_row input T c) = ci_user c"
  "sr_escrow_amount (final_row input T c) = ci_escrow_amount c"
  "sr_eligible_amount (final_row input T c) = min (ci_min_held c) (ci_escrow_amount c)"
  "sr_gross_earned_score (final_row input T c) = ci_gross_earned_score c"
  "sr_booster_amount (final_row input T c) = ci_booster_amount c"
  "sr_score_spent (final_row input T c) = sr_score_spent (settle_claim input c)"
  "sr_boosted_score (final_row input T c) = sr_boosted_score (settle_claim input c)"
  "sr_loss_usd (final_row input T c) = sr_loss_usd (settle_claim input c)"
  by (simp_all add: final_row_def Let_def)

lemma final_row_amounts: "sr_amounts (final_row input T c) = row_amounts input (final_row input T c)"
  by (simp add: final_row_def Let_def row_amounts_def)

lemma final_row_caps:
  "sr_payout_usd (final_row input T c) * BPS \<le> sr_loss_usd (final_row input T c) * ki_coverage_bps input"
  "sr_score_spent (final_row input T c) \<le> ci_score_to_spend c"
  "sr_score_spent (final_row input T c) \<le> ci_gross_earned_score c - ci_spent_score c"
proof -
  have "min e (x div BPS) * BPS \<le> x" for e x :: nat
    by (rule order_trans [of _ "x div BPS * BPS"]) (auto intro: mult_right_mono)
  then show "sr_payout_usd (final_row input T c) * BPS \<le> sr_loss_usd (final_row input T c) * ki_coverage_bps input"
    by (simp add: final_row_def Let_def)
qed (simp_all add: settle_claim_def Let_def)

definition ineligible :: "claim_input \<Rightarrow> bool" where
  "ineligible c \<longleftrightarrow> min (ci_min_held c) (ci_escrow_amount c) = 0"

lemma ineligible_score:
  "ineligible c \<Longrightarrow> sr_score_spent (settle_claim input c) = 0 \<and> sr_boosted_score (settle_claim input c) = 0
     \<and> sr_loss_usd (settle_claim input c) = 0"
  by (auto simp: ineligible_def settle_claim_def Let_def)

lemma ineligible_payout:
  "ineligible c \<Longrightarrow> sr_payout_usd (final_row input T c) = 0 \<and> (\<forall>a \<in> set (sr_amounts (final_row input T c)). a = 0)"
  using ineligible_score [of c input] by (auto simp: final_row_def row_amounts_def Let_def)

lemma settle_claim_claims [simp]:
  "settle_claim (input\<lparr>ki_claims := cs\<rparr>) = settle_claim input"
  "pool_usd_total (input\<lparr>ki_claims := cs\<rparr>) = pool_usd_total input"
  "user_share_bps (input\<lparr>ki_claims := cs\<rparr>) = user_share_bps input"
  "max_total_usd (input\<lparr>ki_claims := cs\<rparr>) = max_total_usd input"
  "row_amounts (input\<lparr>ki_claims := cs\<rparr>) = row_amounts input"
  by (auto simp: fun_eq_iff settle_claim_def pool_usd_total_def user_share_bps_def max_total_usd_def row_amounts_def Let_def)

lemma final_row_claims [simp]: "final_row (input\<lparr>ki_claims := cs\<rparr>) = final_row input"
  by (auto simp: fun_eq_iff final_row_def Let_def)

lemma gross_out_claims [simp]: "gross_out (input\<lparr>ki_claims := cs\<rparr>) = gross_out input"
  by (auto simp: fun_eq_iff gross_out_def)

lemma boosted_total_eligible:
  "boosted_total (input\<lparr>ki_claims := filter (\<lambda>c. \<not> ineligible c) cs\<rparr>) = boosted_total (input\<lparr>ki_claims := cs\<rparr>)"
  by (induction cs) (auto simp: boosted_total_def ineligible_score)

lemma pool_payouts_sum:
  assumes "i < length (ki_pools input)"
  shows "snd (settled_rows input) ! i = sum_list (map (gross_out input i) (fst (settled_rows input)))"
proof -
  have "gross_out input i (r\<lparr>sr_amounts := a\<rparr>) = gross_out input i r" for r a
    by (simp add: gross_out_def row_amounts_def Let_def cong: if_cong)
  then show ?thesis unfolding pool_payouts_nth [OF assms]
    by (simp add: settled_rows_def split_rows_fst comp_def)
qed

lemma length_pool_payouts: "length (snd (settled_rows input)) = length (ki_pools input)"
proof -
  have "length (snd (split_rows input ts rows)) = length ts" if "length ts = length (ki_pools input)" for ts rows
    using that by (induction rows arbitrary: ts) (auto simp: Let_def split_def)
  then show ?thesis by (simp add: settled_rows_def)
qed

lemma gross_out_zero: "i < length (ki_pools input) \<Longrightarrow> sr_payout_usd r = 0 \<Longrightarrow> gross_out input i r = 0"
  by (simp add: gross_out_def row_amounts_def Let_def)

lemma ineligible_neutral:
  "fst (settled_rows (input\<lparr>ki_claims := filter (\<lambda>c. \<not> ineligible c) (ki_claims input)\<rparr>))
     = filter (\<lambda>r. sr_eligible_amount r \<noteq> 0) (fst (settled_rows input))"
  "snd (settled_rows (input\<lparr>ki_claims := filter (\<lambda>c. \<not> ineligible c) (ki_claims input)\<rparr>)) = snd (settled_rows input)"
proof -
  let ?in = "input\<lparr>ki_claims := filter (\<lambda>c. \<not> ineligible c) (ki_claims input)\<rparr>"
  have T: "boosted_total ?in = boosted_total input" using boosted_total_eligible [of "ki_claims input" input] by simp
  show rows: "fst (settled_rows ?in) = filter (\<lambda>r. sr_eligible_amount r \<noteq> 0) (fst (settled_rows input))"
    using T by (simp add: settled_rows_fst filter_map comp_def ineligible_def)
  show "snd (settled_rows ?in) = snd (settled_rows input)"
  proof (rule nth_equalityI)
    fix i assume "i < length (snd (settled_rows ?in))"
    then have i: "i < length (ki_pools input)" by (simp add: length_pool_payouts)
    have "gross_out input i r = 0" if "r \<in> set (fst (settled_rows input))" "\<not> sr_eligible_amount r \<noteq> 0" for r
      using that ineligible_payout by (intro gross_out_zero [OF i]) (auto simp: settled_rows_fst ineligible_def)
    then have "sum_list (map (gross_out input i) (filter (\<lambda>r. sr_eligible_amount r \<noteq> 0) (fst (settled_rows input))))
        = sum_list (map (gross_out input i) (fst (settled_rows input)))" by (rule sum_list_map_filter)
    then show "snd (settled_rows ?in) ! i = snd (settled_rows input) ! i"
      using pool_payouts_sum [of i ?in] pool_payouts_sum [of i input] i rows by (simp only: gross_out_claims) simp
  qed (simp add: length_pool_payouts)
qed

section \<open>Successful allocations\<close>

lemma allocate_Ok:
  assumes "allocate keccak input = Ok out"
  shows "validate_policy input = Ok ()" "ko_rows out = fst (settled_rows input)"
    "ko_pool_payouts out = snd (settled_rows input)"
    "settlement_input_hash keccak (map (\<lambda>c. (ci_user c, ci_gross_earned_score c)) (ki_claims input))
       = Ok (ko_settlement_input_hash out)"
    "ki_claims input \<noteq> [] \<Longrightarrow> \<exists>t. settlement_tree_new keccak (ki_incident_id input) (map merkle_row_of (ko_rows out)) = Ok t
       \<and> ko_root out = root_hex t \<and> ko_proofs out = all_proofs_hex t"
  using assms by (auto simp: allocate_def split_def Let_def settled_rows_fst comp_def split: if_splits)

text \<open>The maps the loop over the events builds.\<close>

definition registration_of :: "claim_event list \<Rightarrow> biguint \<Rightarrow> claim_event option" where
  "registration_of es = map_of (map (\<lambda>e. (ev_claim_id e, e)) (filter (\<lambda>e. ev_kind e = Register) es))"

definition maps_of :: "claim_event list \<Rightarrow> stream_maps" where
  "maps_of es = \<lparr>sm_registrations = registration_of es, sm_order = ids_of Register es, sm_cancelled = set (ids_of Cancel es)\<rparr>"

lemma sm_order_maps_of: "sm_order (maps_of es) = ids_of Register es"
  by (simp add: maps_of_def)

lemma registration_of_None: "registration_of es c = None \<longleftrightarrow> c \<notin> set (ids_of Register es)"
  by (simp add: registration_of_def map_of_eq_None_iff ids_of_def image_image)

lemma registration_of_snoc:
  assumes "ev_kind e = Register" "ev_claim_id e \<notin> set (ids_of Register es)"
  shows "registration_of (es @ [e]) = (registration_of es)(ev_claim_id e \<mapsto> e)"
proof
  fix c
  show "registration_of (es @ [e]) c = ((registration_of es)(ev_claim_id e \<mapsto> e)) c"
    using assms registration_of_None [of es "ev_claim_id e"]
    by (auto simp: registration_of_def map_add_def split: option.splits)
qed

lemma stream_loop: "valid_stream es \<Longrightarrow> foldR stream_step stream_init es = Ok (maps_of es)"
proof (induction es rule: rev_induct)
  case Nil
  then show ?case by (simp add: stream_init_def maps_of_def registration_of_def)
next
  case (snoc e es)
  then have IH: "foldR stream_step stream_init es = Ok (maps_of es)" by (simp add: valid_stream_snoc)
  have "stream_step (maps_of es) e = Ok (maps_of (es @ [e]))"
  proof (cases "ev_kind e")
    case Register
    with snoc.prems have "ev_claim_id e \<notin> set (ids_of Register es)" by (simp add: valid_stream_snoc)
    with Register registration_of_snoc registration_of_None [of es "ev_claim_id e"] show ?thesis
      by (auto simp: stream_step_def maps_of_def Let_def)
  next
    case Cancel
    with snoc.prems have "ev_claim_id e \<in> set (ids_of Register es)" "ev_claim_id e \<notin> set (ids_of Cancel es)"
      by (simp_all add: valid_stream_snoc)
    with Cancel registration_of_None [of es "ev_claim_id e"] show ?thesis
      by (auto simp: stream_step_def maps_of_def Let_def registration_of_def)
  qed
  with IH show ?case by (simp add: foldR_append)
qed

definition claims_map :: "claim_input list \<Rightarrow> biguint \<Rightarrow> claim_input option" where
  "claims_map cs = map_of (map (\<lambda>c. (ci_claim_id c, c)) cs)"

lemma resolve_step_Ok:
  "resolve_step s m c = Ok m' \<longleftrightarrow> m (ci_claim_id c) = None \<and> sm_registrations s (ci_claim_id c) \<noteq> None
     \<and> ci_claim_id c \<notin> sm_cancelled s \<and> m' = m(ci_claim_id c \<mapsto> c)"
  by (auto simp: resolve_step_def Let_def)

lemma resolve_loop:
  "foldR (resolve_step s) m cs = Ok m' \<longleftrightarrow>
     distinct (map ci_claim_id cs) \<and> (\<forall>c \<in> set cs. m (ci_claim_id c) = None \<and>
        sm_registrations s (ci_claim_id c) \<noteq> None \<and> ci_claim_id c \<notin> sm_cancelled s)
     \<and> m' = m ++ claims_map cs"
proof (induction cs arbitrary: m)
  case (Cons c cs)
  have upd: "m(ci_claim_id c \<mapsto> c) ++ claims_map cs = m ++ claims_map (c # cs)" if "ci_claim_id c \<notin> ci_claim_id ` set cs"
  proof
    have "claims_map cs (ci_claim_id c) = None" using that by (auto simp: claims_map_def map_of_eq_None_iff image_image)
    then show "(m(ci_claim_id c \<mapsto> c) ++ claims_map cs) x = (m ++ claims_map (c # cs)) x" for x
      by (auto simp: claims_map_def map_add_def split: option.splits)
  qed
  show ?case
  proof (cases "ci_claim_id c \<in> ci_claim_id ` set cs")
    case True
    then show ?thesis by (fastforce simp: bindR_eq_Inr resolve_step_Ok Cons)
  next
    case False
    then have "\<forall>x \<in> set cs. ci_claim_id x \<noteq> ci_claim_id c" by (auto simp: image_iff)
    with False upd [OF False] show ?thesis by (auto simp: bindR_eq_Inr resolve_step_Ok Cons)
  qed
qed (auto simp: claims_map_def)

definition matches_registration :: "claim_event \<Rightarrow> claim_input \<Rightarrow> bool" where
  "matches_registration e c \<longleftrightarrow> ev_user e = ci_user c \<and> ev_amount e = ci_escrow_amount c
     \<and> ev_score_to_spend e = ci_score_to_spend c \<and> ev_booster_amount e = ci_booster_amount c"

lemma order_claims_Ok:
  "order_claims s m cids = Ok cs \<longleftrightarrow>
     list_all2 (\<lambda>cid c. m cid = Some c \<and> (\<exists>e. sm_registrations s cid = Some e \<and> matches_registration e c))
       (filter (\<lambda>cid. cid \<notin> sm_cancelled s) cids) cs"
  by (induction cids arbitrary: cs)
     (auto simp: bindR_eq_Inr matches_registration_def list_all2_Cons1 split: if_splits)

definition ordered_claims :: "claim_event list \<Rightarrow> claim_input list \<Rightarrow> claim_input list" where
  "ordered_claims es cs = map (\<lambda>cid. the (claims_map cs cid)) (live_ids es)"

text \<open>The claims of an input resolve a stream: one matching claim for each live registration, no other.\<close>

definition resolves :: "claim_event list \<Rightarrow> claim_input list \<Rightarrow> bool" where
  "resolves es cs \<longleftrightarrow> distinct (map ci_claim_id cs) \<and> ci_claim_id ` set cs = set (live_ids es)
     \<and> (\<forall>c \<in> set cs. \<exists>e. registration_of es (ci_claim_id c) = Some e \<and> matches_registration e c)"

lemma claims_map_Some:
  "distinct (map ci_claim_id cs) \<Longrightarrow> claims_map cs cid = Some c \<longleftrightarrow> c \<in> set cs \<and> ci_claim_id c = cid"
  by (auto simp: claims_map_def map_of_eq_Some_iff comp_def)

lemma list_all2_map_the:
  "list_all2 (\<lambda>x y. m x = Some y \<and> P x y) xs ys \<longleftrightarrow>
     (\<forall>x \<in> set xs. \<exists>y. m x = Some y \<and> P x y) \<and> ys = map (\<lambda>x. the (m x)) xs"
  by (induction xs arbitrary: ys) (auto simp: list_all2_Cons1)

lemma order_claims_stream:
  assumes "distinct (map ci_claim_id cs)"
    "\<forall>c \<in> set cs. registration_of es (ci_claim_id c) \<noteq> None \<and> ci_claim_id c \<notin> set (ids_of Cancel es)"
  shows "order_claims (maps_of es) (claims_map cs) (ids_of Register es) = Ok cs' \<longleftrightarrow>
     resolves es cs \<and> cs' = ordered_claims es cs"
proof -
  let ?P = "\<lambda>cid c. claims_map cs cid = Some c \<and> (\<exists>e. registration_of es cid = Some e \<and> matches_registration e c)"
  have ids: "ci_claim_id ` set cs \<subseteq> set (live_ids es)"
    using assms(2) registration_of_None [of es] by (auto simp: live_ids_def)
  have "order_claims (maps_of es) (claims_map cs) (ids_of Register es) = Ok cs' \<longleftrightarrow> list_all2 ?P (live_ids es) cs'"
    by (simp add: order_claims_Ok maps_of_def live_ids_def)
  also have "\<dots> \<longleftrightarrow> (\<forall>cid \<in> set (live_ids es). \<exists>c. ?P cid c) \<and> cs' = ordered_claims es cs"
    unfolding ordered_claims_def by (rule list_all2_map_the)
  also have "(\<forall>cid \<in> set (live_ids es). \<exists>c. ?P cid c) \<longleftrightarrow> resolves es cs"
  proof
    assume P: "\<forall>cid \<in> set (live_ids es). \<exists>c. ?P cid c"
    have "\<exists>e. registration_of es (ci_claim_id c) = Some e \<and> matches_registration e c" if c: "c \<in> set cs" for c
    proof -
      have "claims_map cs (ci_claim_id c) = Some c" using c assms(1) by (simp add: claims_map_Some)
      moreover have "ci_claim_id c \<in> set (live_ids es)" using ids c by blast
      ultimately show ?thesis using P by force
    qed
    moreover have "set (live_ids es) \<subseteq> ci_claim_id ` set cs"
      using P by (auto simp: claims_map_Some [OF assms(1)] image_iff)
    ultimately show "resolves es cs" using ids assms(1) by (auto simp: resolves_def)
  next
    assume "resolves es cs"
    then show "\<forall>cid \<in> set (live_ids es). \<exists>c. ?P cid c"
      unfolding resolves_def by (metis (no_types, lifting) claims_map_Some imageE)
  qed
  finally show ?thesis .
qed

lemma allocate_with_events_Ok:
  "allocate_with_events keccak input es = Ok out \<longleftrightarrow>
     valid_stream es \<and> resolves es (ki_claims input)
     \<and> (\<exists>h o'. claim_set_hash keccak es = Ok h
          \<and> allocate keccak (input\<lparr>ki_claims := ordered_claims es (ki_claims input)\<rparr>) = Ok o'
          \<and> out = o'\<lparr>ko_claim_set_hash := h\<rparr>)"
proof (cases "valid_stream es")
  case False
  then have "\<not> (\<exists>r. replay_claim_set keccak es = Ok r)" by (simp add: replay_claim_set_Ok)
  with False show ?thesis by (auto simp: allocate_with_events_def)
next
  case True
  have rp: "(\<exists>r. replay_claim_set keccak es = Ok r) \<longleftrightarrow> (\<exists>h. claim_set_hash keccak es = Ok h)"
    using True by (auto simp: replay_claim_set_Ok) (metis claim_set_replay.select_convs)
  let ?s = "maps_of es" and ?cs = "ki_claims input"
  have rs: "foldR (resolve_step ?s) Map.empty ?cs = Ok m \<longleftrightarrow> distinct (map ci_claim_id ?cs)
      \<and> (\<forall>c \<in> set ?cs. registration_of es (ci_claim_id c) \<noteq> None \<and> ci_claim_id c \<notin> set (ids_of Cancel es))
      \<and> m = claims_map ?cs" for m
    unfolding resolve_loop by (simp add: maps_of_def)
  have "resolves es ?cs \<Longrightarrow> distinct (map ci_claim_id ?cs)
      \<and> (\<forall>c \<in> set ?cs. registration_of es (ci_claim_id c) \<noteq> None \<and> ci_claim_id c \<notin> set (ids_of Cancel es))"
    by (auto simp: resolves_def live_ids_def)
  then have ord: "(\<exists>m. foldR (resolve_step ?s) Map.empty ?cs = Ok m \<and> order_claims ?s m (sm_order ?s) = Ok cs')
      \<longleftrightarrow> resolves es ?cs \<and> cs' = ordered_claims es ?cs" for cs'
    using order_claims_stream [of ?cs es cs'] by (auto simp: rs sm_order_maps_of)
  have "allocate_with_events keccak input es = Ok out \<longleftrightarrow>
      (\<exists>r. replay_claim_set keccak es = Ok r) \<and>
      (\<exists>cs'. (\<exists>m. foldR (resolve_step ?s) Map.empty ?cs = Ok m \<and> order_claims ?s m (sm_order ?s) = Ok cs')
        \<and> (\<exists>o' h. allocate keccak (input\<lparr>ki_claims := cs'\<rparr>) = Ok o' \<and> claim_set_hash keccak es = Ok h
             \<and> out = o'\<lparr>ko_claim_set_hash := h\<rparr>))"
    unfolding allocate_with_events_def stream_loop [OF True] by (auto simp: bindR_eq_Inr)
  then show ?thesis unfolding ord rp using True by blast
qed

lemma ordered_claims_ids: "resolves es cs \<Longrightarrow> map ci_claim_id (ordered_claims es cs) = live_ids es"
proof -
  assume r: "resolves es cs"
  have "ci_claim_id (the (claims_map cs cid)) = cid" if "cid \<in> set (live_ids es)" for cid
  proof -
    from that r obtain c where "c \<in> set cs" "ci_claim_id c = cid" unfolding resolves_def by (metis imageE)
    then show ?thesis using r claims_map_Some [of cs cid c] by (simp add: resolves_def)
  qed
  then show ?thesis by (simp add: ordered_claims_def map_idI)
qed

lemma set_ordered_claims: "resolves es cs \<Longrightarrow> set (ordered_claims es cs) = set cs"
proof -
  assume r: "resolves es cs"
  then have live: "set (live_ids es) = ci_claim_id ` set cs" and d: "distinct (map ci_claim_id cs)"
    by (simp_all add: resolves_def)
  have "the (claims_map cs (ci_claim_id c)) = c" if "c \<in> set cs" for c
    using that claims_map_Some [OF d, of "ci_claim_id c" c] by simp
  then show ?thesis by (simp add: ordered_claims_def live image_image)
qed

lemma claims_map_permute:
  assumes "mset cs = mset cs'" "distinct (map ci_claim_id cs)"
  shows "claims_map cs = claims_map cs'"
proof -
  have d: "distinct (map ci_claim_id cs')" using assms by (metis mset_eq_imp_distinct_iff mset_map)
  have "set cs = set cs'" using assms(1) by (metis set_mset_mset)
  then have "claims_map cs x = Some c \<longleftrightarrow> claims_map cs' x = Some c" for x c
    using claims_map_Some [OF assms(2)] claims_map_Some [OF d] by simp
  then show ?thesis by (metis ext not_Some_eq)
qed

lemma resolves_permute:
  assumes "mset cs = mset cs'"
  shows "resolves es cs = resolves es cs'"
proof -
  have "distinct (map ci_claim_id cs) = distinct (map ci_claim_id cs')" "set cs = set cs'"
    using assms by (metis mset_eq_imp_distinct_iff mset_map, metis set_mset_mset)
  then show ?thesis by (simp add: resolves_def)
qed

lemma allocate_with_events_permute:
  assumes "mset cs = mset (ki_claims input)"
  shows "allocate_with_events keccak (input\<lparr>ki_claims := cs\<rparr>) es = Ok out
    \<longleftrightarrow> allocate_with_events keccak input es = Ok out"
proof (cases "resolves es cs")
  case True
  then have "ordered_claims es cs = ordered_claims es (ki_claims input)"
    using claims_map_permute [OF assms] by (simp add: ordered_claims_def resolves_def)
  then show ?thesis using resolves_permute [OF assms] by (simp add: allocate_with_events_Ok)
next
  case False
  then show ?thesis using resolves_permute [OF assms] by (simp add: allocate_with_events_Ok)
qed

lemma allocate_success:
  "(\<exists>out. allocate keccak input = Ok out) \<longleftrightarrow>
     validate_policy input = Ok () \<and>
     list_all (\<lambda>c. fits (ci_claim_id c) \<and> fits (ci_escrow_amount c) \<and> fits (ci_score_to_spend c)
        \<and> fits (ci_booster_amount c) \<and> fits (ci_gross_earned_score c)) (ki_claims input)
     \<and> distinct (map ci_user (ki_claims input)) \<and> 96 + length (ki_claims input) * 32 \<le> u64_max
     \<and> distinct (map ci_claim_id (ki_claims input))
     \<and> (\<forall>r \<in> set (fst (settled_rows input)). \<exists>e. leaf_encoding (ki_incident_id input) (merkle_row_of r) = Ok e)"
proof -
  let ?cs = "ki_claims input" and ?rows = "fst (settled_rows input)"
  let ?es = "map (\<lambda>(index, claim). register_event index claim) (enumerate 0 ?cs)"
  let ?in = "map (\<lambda>row. (sr_user row, sr_gross_earned_score row)) ?rows"
  have rows: "?rows = [] \<longleftrightarrow> ?cs = []" by (simp add: settled_rows_fst)
  have csh: "(\<exists>h. claim_set_hash keccak ?es = Ok h) \<longleftrightarrow> list_all (\<lambda>c. fits (ci_claim_id c)
      \<and> fits (ci_escrow_amount c) \<and> fits (ci_score_to_spend c) \<and> fits (ci_booster_amount c)) ?cs"
    unfolding claim_set_hash_success
    by (auto simp: list_all_length event_fits_def register_event_def nth_enumerate_eq)
  have sih: "(\<exists>h. settlement_input_hash keccak ?in = Ok h) \<longleftrightarrow>
      distinct (map ci_user ?cs) \<and> list_all (\<lambda>c. fits (ci_gross_earned_score c)) ?cs \<and> 96 + length ?cs * 32 \<le> u64_max"
    unfolding settlement_input_hash_success by (simp add: settled_rows_fst comp_def list_all_iff)
  have tree: "(\<exists>t. settlement_tree_new keccak (ki_incident_id input) (map merkle_row_of ?rows) = Ok t) \<longleftrightarrow>
      ?rows \<noteq> [] \<and> distinct (map ci_claim_id ?cs)
      \<and> (\<forall>r \<in> set ?rows. \<exists>e. leaf_encoding (ki_incident_id input) (merkle_row_of r) = Ok e)"
    unfolding settlement_tree_new_success by (simp add: settled_rows_fst comp_def merkle_row_of_def)
  have "(\<exists>out. allocate keccak input = Ok out) \<longleftrightarrow> validate_policy input = Ok () \<and> (\<exists>h. claim_set_hash keccak ?es = Ok h)
      \<and> (\<exists>h. settlement_input_hash keccak ?in = Ok h) \<and>
      (?rows = [] \<or> (\<exists>t. settlement_tree_new keccak (ki_incident_id input) (map merkle_row_of ?rows) = Ok t))"
    by (auto simp: allocate_def split_def Let_def bindR_eq_Inr)
  then show ?thesis unfolding csh sih tree rows by (auto simp: list_all_iff settled_rows_fst)
qed

section \<open>Claims\<close>

definition demo_claim :: "nat \<Rightarrow> nat \<Rightarrow> claim_input" where
  "demo_claim c held = \<lparr>ci_claim_id = c, ci_user = Address (replicate 20 (word_of_nat c)), ci_escrow_amount = 100 * c,
     ci_min_held = held, ci_gross_earned_score = 50, ci_spent_score = 5, ci_score_to_spend = 7,
     ci_booster_amount = 1, ci_booster_held = 3\<rparr>"

definition demo_input :: kernel_input where
  "demo_input = \<lparr>ki_incident_id = 1, ki_coverage_bps = 8000, ki_booster_boost_bps = 100, ki_insured_decimals = 0,
     ki_twap_ratio = 10 ^ 18, ki_underlying_usd = 2, ki_max_cover_pool_payout_bps = 5000,
     ki_protocol_fee_share_bps = 1000, ki_pools = [\<lparr>pi_balance = 1000, pi_asset_usd = 3, pi_asset_decimals = 0\<rparr>],
     ki_claims = [demo_claim 1 100, demo_claim 2 0]\<rparr>"

lemma demo_policy: "validate_policy demo_input = Ok ()"
  by (simp add: validate_policy_Ok demo_input_def)

lemmas demo_simps = demo_input_def demo_claim_def settle_claim_def pool_usd_total_def max_total_usd_def user_share_bps_def
  BPS_def pow10_def Let_def

lemma demo_totals: "pool_usd_total demo_input = 3000" "max_total_usd demo_input = 1350" "boosted_total demo_input = 7"
  by (simp_all add: demo_simps boosted_total_def)

lemma demo_rows:
  "map merkle_row_of (fst (settled_rows demo_input)) =
     [\<lparr>mr_claim_id = 1, mr_user = Address (replicate 20 1), mr_amounts = [53], mr_score_spent = 7, mr_boosted_score = 7,
       mr_eligible_amount = 100, mr_eligible_booster_amount = 1\<rparr>,
      \<lparr>mr_claim_id = 2, mr_user = Address (replicate 20 2), mr_amounts = [0], mr_score_spent = 0, mr_boosted_score = 0,
       mr_eligible_amount = 0, mr_eligible_booster_amount = 1\<rparr>]"
  unfolding settled_rows_fst demo_totals final_row_def row_amounts_def merkle_row_of_def
  by (simp add: demo_totals) (simp add: demo_input_def demo_claim_def settle_claim_def BPS_def pow10_def Let_def)

lemma demo_allocates: "\<exists>out. allocate demo_keccak demo_input = Ok out"
proof -
  have "\<exists>e. leaf_encoding 1 r = Ok e" if "r \<in> set (map merkle_row_of (fst (settled_rows demo_input)))" for r
    using that unfolding demo_rows by (auto simp: leaf_encoding_Ok u64_max_def fits_def simp del: be_bytes.simps)
  then have "\<forall>r \<in> set (fst (settled_rows demo_input)). \<exists>e. leaf_encoding (ki_incident_id demo_input) (merkle_row_of r) = Ok e"
    by (simp add: demo_input_def)
  then show ?thesis unfolding allocate_success
    by (simp add: demo_policy) (simp add: demo_input_def demo_claim_def fits_def u64_max_def)
qed

text \<open>
  C1.  Solvency: a successful allocation never draws more from a pool than the configured share of
  its balance, fees included, and the amounts owed to the claimants from a pool never exceed what
  is drawn from it.
\<close>
theorem allocate_solvent:
  assumes "allocate keccak input = Ok out" "i < length (ki_pools input)"
  shows "length (ko_pool_payouts out) = length (ki_pools input)
    \<and> ko_pool_payouts out ! i * 10000 \<le> pi_balance (ki_pools input ! i) * ki_max_cover_pool_payout_bps input
    \<and> ko_pool_payouts out ! i \<le> pi_balance (ki_pools input ! i)
    \<and> sum_list (map (\<lambda>r. sr_amounts r ! i) (ko_rows out)) \<le> ko_pool_payouts out ! i"
proof -
  note ok = allocate_Ok [OF assms(1)]
  have pol: "ki_protocol_fee_share_bps input \<le> 2000" "ki_max_cover_pool_payout_bps input \<le> 10000"
    using ok(1) by (simp_all add: validate_policy_Ok)
  have b: "ko_pool_payouts out ! i * 10000 \<le> pi_balance (ki_pools input ! i) * ki_max_cover_pool_payout_bps input"
    using pool_payout_bound [OF pol(1) assms(2)] by (simp add: ok(3) BPS_def)
  also have "\<dots> \<le> pi_balance (ki_pools input ! i) * 10000" using pol(2) by simp
  finally have "ko_pool_payouts out ! i \<le> pi_balance (ki_pools input ! i)" by simp
  moreover have "sum_list (map (\<lambda>r. sr_amounts r ! i) (ko_rows out)) \<le> ko_pool_payouts out ! i"
    unfolding ok(2,3) pool_payouts_sum [OF assms(2)]
    by (rule sum_list_mono) (auto simp: settled_rows_fst final_row_amounts gross_out_covers [OF pol(1)])
  ultimately show ?thesis using b by (simp add: ok(3) length_pool_payouts)
qed

theorem allocate_solvent_witness:
  "\<exists>out. allocate demo_keccak demo_input = Ok out \<and> ko_pool_payouts out ! 0 * 10000 \<le> 1000 * 5000
     \<and> sum_list (map (\<lambda>r. sr_amounts r ! 0) (ko_rows out)) \<le> ko_pool_payouts out ! 0"
proof -
  obtain out where out: "allocate demo_keccak demo_input = Ok out" using demo_allocates by blast
  have "0 < length (ki_pools demo_input)" by (simp add: demo_input_def)
  from allocate_solvent [OF out this] out show ?thesis by (auto simp: demo_input_def)
qed

text \<open>
  C15.  Budget and coverage: the payouts of a successful allocation add up to at most the users' share of
  the capped pool value; each payout is at most the covered share of the claim's loss (never more than 80
  percent of it); no claim spends more score than it offered or than it has left.
\<close>
theorem allocate_budget:
  assumes "allocate keccak input = Ok out"
  shows "sum_list (map sr_payout_usd (ko_rows out)) \<le> max_total_usd input
    \<and> max_total_usd input * 10000 * 10000
        \<le> pool_usd_total input * ki_max_cover_pool_payout_bps input * (10000 - ki_protocol_fee_share_bps input)
    \<and> list_all2 (\<lambda>c r. sr_claim_id r = ci_claim_id c \<and> sr_user r = ci_user c
         \<and> sr_payout_usd r * 10000 \<le> sr_loss_usd r * ki_coverage_bps input
         \<and> sr_payout_usd r * 10 \<le> sr_loss_usd r * 8
         \<and> sr_score_spent r \<le> ci_score_to_spend c \<and> sr_score_spent r \<le> ci_gross_earned_score c - ci_spent_score c)
       (ki_claims input) (ko_rows out)"
proof -
  note ok = allocate_Ok [OF assms]
  have cov: "ki_coverage_bps input \<le> 8000" using ok(1) by (simp add: validate_policy_Ok)
  have "map sr_payout_usd (ko_rows out) = map sr_payout_usd (pay_rows input (map (settle_claim input) (ki_claims input)))"
    by (simp add: ok(2) settled_rows_def split_rows_fst)
  then have "sum_list (map sr_payout_usd (ko_rows out)) \<le> max_total_usd input" by (simp only: pay_rows_total)
  moreover have "sr_payout_usd (final_row input T c) * 10 \<le> sr_loss_usd (final_row input T c) * 8" for T c
  proof -
    have "sr_payout_usd (final_row input T c) * 10000 \<le> sr_loss_usd (final_row input T c) * 8000"
      using order_trans [OF final_row_caps(1) [of input T c] mult_le_mono2 [OF cov]] by (simp only: BPS_def)
    then show ?thesis by simp
  qed
  moreover have "sr_payout_usd (final_row input T c) * 10000 \<le> sr_loss_usd (final_row input T c) * ki_coverage_bps input" for T c
    using final_row_caps(1) [of input T c] by (simp only: BPS_def)
  ultimately show ?thesis
    unfolding ok(2) settled_rows_fst list_all2_map_self
    using max_total_usd_bound [of input, unfolded BPS_def] final_row_caps(2,3) [of input]
    by (intro conjI ballI) (simp_all only: final_row_fields(1,2))
qed

theorem allocate_budget_witness:
  "\<exists>out. allocate demo_keccak demo_input = Ok out \<and> sum_list (map sr_payout_usd (ko_rows out)) \<le> max_total_usd demo_input"
proof -
  obtain out where out: "allocate demo_keccak demo_input = Ok out" using demo_allocates by blast
  from allocate_budget [OF out] out show ?thesis by blast
qed

text \<open>
  C16.  Claims with nothing at risk are neutral: a claim whose eligible amount is zero is kept as a row that
  spends no score and is paid nothing, and dropping all such claims leaves every other row and
  every pool payout unchanged.
\<close>
theorem zero_eligible_neutral:
  "fst (settled_rows (input\<lparr>ki_claims := filter (\<lambda>c. \<not> ineligible c) (ki_claims input)\<rparr>))
     = filter (\<lambda>r. sr_eligible_amount r \<noteq> 0) (fst (settled_rows input))
   \<and> snd (settled_rows (input\<lparr>ki_claims := filter (\<lambda>c. \<not> ineligible c) (ki_claims input)\<rparr>)) = snd (settled_rows input)
   \<and> length (fst (settled_rows input)) = length (ki_claims input)
   \<and> list_all (\<lambda>r. if sr_eligible_amount r = 0
        then sr_score_spent r = 0 \<and> sr_boosted_score r = 0 \<and> sr_payout_usd r = 0 \<and> list_all (\<lambda>a. a = 0) (sr_amounts r)
        else True) (fst (settled_rows input))"
proof -
  have "list_all (\<lambda>r. if sr_eligible_amount r = 0
        then sr_score_spent r = 0 \<and> sr_boosted_score r = 0 \<and> sr_payout_usd r = 0 \<and> list_all (\<lambda>a. a = 0) (sr_amounts r)
        else True) (fst (settled_rows input))"
    using ineligible_score [of _ input] ineligible_payout [of _ input "boosted_total input"]
    by (auto simp: list_all_iff settled_rows_fst ineligible_def)
  then show ?thesis using ineligible_neutral [of input] by (simp add: settled_rows_fst)
qed

text \<open>
  C2.  The event stream controls the settlement: a successful \<^verbatim>\<open>allocate_with_events\<close> produces exactly one row for
  each live registration, in registration order; each row carries the user, escrow and booster
  of its registration and resolves a claim of the input; cancelled claims get no row; and the
  claim-set hash is the one of the whole stream.
\<close>
theorem allocate_with_events_stream:
  assumes "allocate_with_events keccak input es = Ok out"
  shows "map sr_claim_id (ko_rows out) = filter (\<lambda>c. c \<notin> set (ids_of Cancel es)) (ids_of Register es)
    \<and> claim_set_hash keccak es = Ok (ko_claim_set_hash out)
    \<and> list_all (\<lambda>r. list_ex (\<lambda>e. ev_kind e = Register \<and> ev_claim_id e = sr_claim_id r \<and> ev_user e = sr_user r
          \<and> ev_amount e = sr_escrow_amount r \<and> ev_booster_amount e = sr_booster_amount r
          \<and> sr_score_spent r \<le> ev_score_to_spend e) es
        \<and> list_ex (\<lambda>c. ci_claim_id c = sr_claim_id r \<and> sr_gross_earned_score r = ci_gross_earned_score c) (ki_claims input))
       (ko_rows out)" (is "_ \<and> _ \<and> list_all ?P _")
proof -
  let ?in = "input\<lparr>ki_claims := ordered_claims es (ki_claims input)\<rparr>"
  obtain h o' where res: "resolves es (ki_claims input)" and h: "claim_set_hash keccak es = Ok h"
    and o': "allocate keccak ?in = Ok o'" "out = o'\<lparr>ko_claim_set_hash := h\<rparr>"
    using assms by (auto simp: allocate_with_events_Ok)
  have rows: "ko_rows out = map (final_row input (boosted_total ?in)) (ordered_claims es (ki_claims input))"
    using allocate_Ok(2) [OF o'(1)] o'(2) by (simp add: settled_rows_fst)
  have "map sr_claim_id (ko_rows out) = live_ids es"
    using ordered_claims_ids [OF res] by (simp add: rows comp_def)
  moreover have "list_all ?P (ko_rows out)" unfolding list_all_iff
  proof
    fix r assume "r \<in> set (ko_rows out)"
    then obtain c where c: "c \<in> set (ki_claims input)" "r = final_row input (boosted_total ?in) c"
      using set_ordered_claims [OF res] by (auto simp: rows)
    from res c(1) obtain e where e: "registration_of es (ci_claim_id c) = Some e" "matches_registration e c"
      by (auto simp: resolves_def)
    from e(1) have m: "e \<in> set es" "ev_kind e = Register" "ev_claim_id e = ci_claim_id c"
      by (auto simp: registration_of_def dest!: map_of_SomeD)
    have "sr_score_spent r \<le> ev_score_to_spend e"
      using final_row_caps(2) [of input "boosted_total ?in" c] c(2) e(2) by (simp add: matches_registration_def)
    then have "list_ex (\<lambda>e. ev_kind e = Register \<and> ev_claim_id e = sr_claim_id r \<and> ev_user e = sr_user r
          \<and> ev_amount e = sr_escrow_amount r \<and> ev_booster_amount e = sr_booster_amount r
          \<and> sr_score_spent r \<le> ev_score_to_spend e) es" unfolding list_ex_iff
      using m e(2) c(2) by (intro bexI [of _ e]) (simp_all add: matches_registration_def)
    moreover have "list_ex (\<lambda>c. ci_claim_id c = sr_claim_id r
          \<and> sr_gross_earned_score r = ci_gross_earned_score c) (ki_claims input)" unfolding list_ex_iff
      using c by (intro bexI [of _ c]) simp_all
    ultimately show "?P r" by simp
  qed
  ultimately show ?thesis using h o'(2) by (simp add: live_ids_def)
qed

definition demo_stream :: "claim_event list" where
  "demo_stream = [register_event 0 (demo_claim 1 100), register_event 1 (demo_claim 3 0),
     register_event 2 (demo_claim 2 0), (register_event 3 (demo_claim 3 0))\<lparr>ev_kind := Cancel\<rparr>]"

lemma demo_stream_live: "valid_stream demo_stream" "live_ids demo_stream = [1, 2]"
proof -
  have "\<exists>s. foldR replay_step replay_init demo_stream = Ok s"
    by (simp add: demo_stream_def register_event_def demo_claim_def replay_init_def replay_step_def Let_def)
  then show "valid_stream demo_stream" by (simp add: replay_loop)
  show "live_ids demo_stream = [1, 2]"
    by (simp add: demo_stream_def register_event_def demo_claim_def ids_of_def live_ids_def)
qed

lemma demo_stream_resolves:
  "resolves demo_stream (ki_claims demo_input)"
  "demo_input\<lparr>ki_claims := ordered_claims demo_stream (ki_claims demo_input)\<rparr> = demo_input"
  by (simp_all add: resolves_def demo_stream_live ordered_claims_def demo_input_def)
     (simp_all add: demo_stream_def demo_claim_def registration_of_def register_event_def matches_registration_def claims_map_def)

lemma demo_stream_allocates: "\<exists>out. allocate_with_events demo_keccak demo_input demo_stream = Ok out"
proof -
  have "list_all event_fits demo_stream"
    by (simp add: demo_stream_def register_event_def demo_claim_def event_fits_def fits_def)
  then show ?thesis
    using demo_allocates demo_stream_live(1) demo_stream_resolves claim_set_hash_success [of demo_keccak demo_stream]
    by (auto simp: allocate_with_events_Ok)
qed

theorem allocate_with_events_stream_witness:
  "\<exists>out. allocate_with_events demo_keccak demo_input demo_stream = Ok out \<and> map sr_claim_id (ko_rows out) = [1, 2]"
proof -
  obtain out where out: "allocate_with_events demo_keccak demo_input demo_stream = Ok out"
    using demo_stream_allocates by blast
  from allocate_with_events_stream [OF out] out demo_stream_live(2) show ?thesis by (auto simp: live_ids_def)
qed

text \<open>
  The order in which the resolved claims are supplied is irrelevant: permuting \<^verbatim>\<open>input.claims\<close> changes
  neither the success nor any field of the output of \<^verbatim>\<open>allocate_with_events\<close>.
\<close>
theorem allocate_with_events_order:
  assumes "mset cs = mset (ki_claims input)"
  shows "allocate_with_events keccak (input\<lparr>ki_claims := cs\<rparr>) es = Ok out
    \<longleftrightarrow> allocate_with_events keccak input es = Ok out"
  by (rule allocate_with_events_permute [OF assms])

theorem allocate_with_events_order_witness:
  "\<exists>out. allocate_with_events demo_keccak (demo_input\<lparr>ki_claims := [demo_claim 2 0, demo_claim 1 100]\<rparr>) demo_stream = Ok out"
  using demo_stream_allocates allocate_with_events_order [of "[demo_claim 2 0, demo_claim 1 100]" demo_input]
  by (auto simp: demo_input_def)


end
