(* ===== verification/Kernel_Json.thy ===== *)
theory Kernel_Json
  imports Settlement_Kernel Ordered_Map
begin

text \<open>
  The JSON front end of the kernel (\<^verbatim>\<open>offchain-rust/src/json.rs\<close>): the transfer objects, the strict
  parsing of decimals and addresses with the field path in every error, the rendering of the output and
  \<^verbatim>\<open>compute_json\<close>.  The derived serde (de)serialisers between text and transfer objects are parameters.
\<close>

section \<open>Transfer objects\<close>

record json_pool_input =
  jp_balance :: string
  jp_asset_usd :: string
  jp_asset_decimals :: nat

record json_claim_input =
  jc_claim_id :: string
  jc_user :: string
  jc_escrow_amount :: string
  jc_min_held :: string
  jc_gross_earned_score :: string
  jc_spent_score :: string
  jc_score_to_spend :: string
  jc_booster_amount :: string
  jc_booster_held :: string

record json_kernel_input =
  ji_incident_id :: string
  ji_coverage_bps :: string
  ji_booster_boost_bps :: string
  ji_insured_decimals :: nat
  ji_twap_ratio :: string
  ji_underlying_usd :: string
  ji_max_cover_pool_payout_bps :: string
  ji_protocol_fee_share_bps :: string
  ji_pools :: "json_pool_input list"
  ji_claims :: "json_claim_input list"

record json_settled_row =
  jr_claim_id :: string
  jr_user :: string
  jr_escrow_amount :: string
  jr_eligible_amount :: string
  jr_loss_usd :: string
  jr_gross_earned_score :: string
  jr_earned_score :: string
  jr_score_spent :: string
  jr_boosted_score :: string
  jr_booster_amount :: string
  jr_eligible_booster_amount :: string
  jr_payout_usd :: string
  jr_amounts :: "string list"

record json_kernel_output =
  jo_rows :: "json_settled_row list"
  jo_pool_payouts :: "string list"
  jo_claim_set_hash :: string
  jo_settlement_input_hash :: string
  jo_root :: string
  jo_proofs :: "string \<Rightarrow> string list option"

section \<open>Parsing\<close>

definition decimal :: "string \<Rightarrow> string \<Rightarrow> (kernel_error, biguint) result" where
  "decimal field value =
     (if value = [] \<or> (length value > 1 \<and> hd value = CHR ''0'') \<or> \<not> list_all is_ascii_digit value \<or> length value > 78
      then Err (InvalidDecimal field value)
      else let parsed = decimal_value value in
        bindR (uint256_word parsed) (\<lambda>_. Ok parsed))"

definition json_address :: "string \<Rightarrow> string \<Rightarrow> (kernel_error, address) result" where
  "json_address field value = ok_or (InvalidAddress field value) (address_from_str value)"

definition indexed_field :: "string \<Rightarrow> nat \<Rightarrow> string \<Rightarrow> string" where
  "indexed_field array index field = array @ ''['' @ show_nat index @ ''].'' @ field"

definition pool_of_json :: "nat \<times> json_pool_input \<Rightarrow> (kernel_error, pool_input) result" where
  "pool_of_json ip =
     (let (index, pool) = ip in
      bindR (decimal (indexed_field ''pools'' index ''balance'') (jp_balance pool)) (\<lambda>balance'.
      bindR (decimal (indexed_field ''pools'' index ''assetUsd'') (jp_asset_usd pool)) (\<lambda>asset_usd.
      Ok \<lparr>pi_balance = balance', pi_asset_usd = asset_usd, pi_asset_decimals = jp_asset_decimals pool\<rparr>)))"

definition claim_of_json :: "nat \<times> json_claim_input \<Rightarrow> (kernel_error, claim_input) result" where
  "claim_of_json ic =
     (let (index, claim) = ic; field = indexed_field ''claims'' index in
      bindR (decimal (field ''claimId'') (jc_claim_id claim)) (\<lambda>claim_id.
      bindR (json_address (field ''user'') (jc_user claim)) (\<lambda>user.
      bindR (decimal (field ''escrowAmount'') (jc_escrow_amount claim)) (\<lambda>escrow_amount.
      bindR (decimal (field ''minHeld'') (jc_min_held claim)) (\<lambda>min_held.
      bindR (decimal (field ''grossEarnedScore'') (jc_gross_earned_score claim)) (\<lambda>gross_earned_score.
      bindR (decimal (field ''spentScore'') (jc_spent_score claim)) (\<lambda>spent_score.
      bindR (decimal (field ''scoreToSpend'') (jc_score_to_spend claim)) (\<lambda>score_to_spend.
      bindR (decimal (field ''boosterAmount'') (jc_booster_amount claim)) (\<lambda>booster_amount.
      bindR (decimal (field ''boosterHeld'') (jc_booster_held claim)) (\<lambda>booster_held.
      Ok \<lparr>ci_claim_id = claim_id, ci_user = user, ci_escrow_amount = escrow_amount, ci_min_held = min_held,
          ci_gross_earned_score = gross_earned_score, ci_spent_score = spent_score,
          ci_score_to_spend = score_to_spend, ci_booster_amount = booster_amount,
          ci_booster_held = booster_held\<rparr>))))))))))"

definition kernel_input_of_json :: "json_kernel_input \<Rightarrow> (kernel_error, kernel_input) result" where
  "kernel_input_of_json value =
     bindR (mapR pool_of_json (enumerate 0 (ji_pools value))) (\<lambda>pools.
     bindR (mapR claim_of_json (enumerate 0 (ji_claims value))) (\<lambda>claims.
     bindR (decimal ''incidentId'' (ji_incident_id value)) (\<lambda>incident_id.
     bindR (decimal ''coverageBps'' (ji_coverage_bps value)) (\<lambda>coverage_bps.
     bindR (decimal ''boosterBoostBps'' (ji_booster_boost_bps value)) (\<lambda>booster_boost_bps.
     bindR (decimal ''twapRatio'' (ji_twap_ratio value)) (\<lambda>twap_ratio.
     bindR (decimal ''underlyingUsd'' (ji_underlying_usd value)) (\<lambda>underlying_usd.
     bindR (decimal ''maxCoverPoolPayoutBps'' (ji_max_cover_pool_payout_bps value)) (\<lambda>max_cover_pool_payout_bps.
     bindR (decimal ''protocolFeeShareBps'' (ji_protocol_fee_share_bps value)) (\<lambda>protocol_fee_share_bps.
     Ok \<lparr>ki_incident_id = incident_id, ki_coverage_bps = coverage_bps, ki_booster_boost_bps = booster_boost_bps,
         ki_insured_decimals = ji_insured_decimals value, ki_twap_ratio = twap_ratio,
         ki_underlying_usd = underlying_usd, ki_max_cover_pool_payout_bps = max_cover_pool_payout_bps,
         ki_protocol_fee_share_bps = protocol_fee_share_bps, ki_pools = pools, ki_claims = claims\<rparr>)))))))))"

section \<open>Rendering\<close>

definition json_of_row :: "settled_row \<Rightarrow> json_settled_row" where
  "json_of_row row = \<lparr>jr_claim_id = show_nat (sr_claim_id row), jr_user = address_to_string (sr_user row),
     jr_escrow_amount = show_nat (sr_escrow_amount row), jr_eligible_amount = show_nat (sr_eligible_amount row),
     jr_loss_usd = show_nat (sr_loss_usd row), jr_gross_earned_score = show_nat (sr_gross_earned_score row),
     jr_earned_score = show_nat (sr_earned_score row), jr_score_spent = show_nat (sr_score_spent row),
     jr_boosted_score = show_nat (sr_boosted_score row), jr_booster_amount = show_nat (sr_booster_amount row),
     jr_eligible_booster_amount = show_nat (sr_eligible_booster_amount row),
     jr_payout_usd = show_nat (sr_payout_usd row), jr_amounts = map show_nat (sr_amounts row)\<rparr>"

text \<open>
  The proof map is re-keyed by the decimal text of the claim identifier: a text is a key when it is the
  decimal text of a key.
\<close>

definition json_of_output :: "kernel_output \<Rightarrow> json_kernel_output" where
  "json_of_output value = \<lparr>jo_rows = map json_of_row (ko_rows value),
     jo_pool_payouts = map show_nat (ko_pool_payouts value), jo_claim_set_hash = ko_claim_set_hash value,
     jo_settlement_input_hash = ko_settlement_input_hash value, jo_root = ko_root value,
     jo_proofs = (\<lambda>key. if show_nat (decimal_value key) = key then ko_proofs value (decimal_value key) else None)\<rparr>"

text \<open>The derived serde implementations.\<close>

record json_codec =
  from_str :: "string \<Rightarrow> (string, json_kernel_input) result"
  to_string :: "json_kernel_output \<Rightarrow> (string, string) result"

definition parse_json :: "('z) json_codec_scheme \<Rightarrow> string \<Rightarrow> (kernel_error, kernel_input) result" where
  "parse_json serde input = bindR (map_errR JsonError (from_str serde input)) kernel_input_of_json"

definition serialize_output :: "('z) json_codec_scheme \<Rightarrow> kernel_output \<Rightarrow> (kernel_error, string) result" where
  "serialize_output serde output = map_errR JsonError (to_string serde (json_of_output output))"

definition compute_json :: "(bytes \<Rightarrow> hash) \<Rightarrow> ('z) json_codec_scheme \<Rightarrow> string \<Rightarrow> (kernel_error, string) result" where
  "compute_json keccak serde input =
     bindR (parse_json serde input) (\<lambda>i. bindR (allocate keccak i) (serialize_output serde))"

section \<open>Exact parsing\<close>

lemma decimal_value_less: "list_all is_ascii_digit s \<Longrightarrow> decimal_value s < 10 ^ length s"
proof (induction s rule: rev_induct)
  case (snoc c s)
  then have "digit_val c \<le> 9" "decimal_value s + 1 \<le> 10 ^ length s"
    by (auto simp: is_ascii_digit_def digit_val_def)
  then have "decimal_value s * 10 + digit_val c < (decimal_value s + 1) * 10" by simp
  also have "\<dots> \<le> 10 ^ length s * 10" using \<open>decimal_value s + 1 \<le> 10 ^ length s\<close> by (intro mult_right_mono) auto
  finally show ?case by (simp add: decimal_value_snoc mult.commute)
qed (simp add: decimal_value_def)

lemma digit_char_val: "is_ascii_digit c \<Longrightarrow> digit_char (digit_val c) = c \<and> digit_val c < 10"
  by (auto simp: digit_char_def digit_val_def is_ascii_digit_def)

text \<open>A digit text without a superfluous leading zero is the decimal text of its value.\<close>

definition canonical_decimal :: "string \<Rightarrow> bool" where
  "canonical_decimal s \<longleftrightarrow> s \<noteq> [] \<and> list_all is_ascii_digit s \<and> \<not> (length s > 1 \<and> hd s = CHR ''0'')"

lemma digit_val_zero: "is_ascii_digit d \<Longrightarrow> digit_val d = 0 \<longleftrightarrow> d = CHR ''0''"
proof -
  assume d: "is_ascii_digit d"
  have zero: "digit_char 0 = CHR ''0''" by code_simp
  show ?thesis using digit_char_val [OF d] by (auto simp: zero [symmetric])
qed

lemma canonical_decimal_prefix: "canonical_decimal (s @ [c]) \<Longrightarrow> s \<noteq> [] \<Longrightarrow> canonical_decimal s \<and> s \<noteq> ''0''"
  by (cases s) (auto simp: canonical_decimal_def)

lemma canonical_decimal_pos: "canonical_decimal s \<Longrightarrow> s \<noteq> ''0'' \<Longrightarrow> 0 < decimal_value s"
proof (induction s rule: rev_induct)
  case (snoc c s)
  show ?case
  proof (cases "s = []")
    case True
    with snoc.prems have "digit_val c \<noteq> 0" by (subst digit_val_zero) (auto simp: canonical_decimal_def)
    with True show ?thesis by (simp add: decimal_value_def)
  next
    case False
    then show ?thesis using snoc canonical_decimal_prefix by (simp add: decimal_value_snoc)
  qed
qed (simp add: canonical_decimal_def)

lemma show_nat_decimal_value: "canonical_decimal s \<Longrightarrow> show_nat (decimal_value s) = s"
proof (induction s rule: rev_induct)
  case (snoc c s)
  have c: "digit_char (digit_val c) = c" "digit_val c < 10"
    using snoc.prems digit_char_val by (auto simp: canonical_decimal_def)
  show ?case
  proof (cases "s = []")
    case True
    with c show ?thesis by (subst show_nat.simps) (simp add: decimal_value_def)
  next
    case False
    note s = canonical_decimal_prefix [OF snoc.prems False]
    then have "0 < decimal_value s" using canonical_decimal_pos by blast
    then have "\<not> decimal_value (s @ [c]) < 10" by (simp add: decimal_value_snoc)
    then show ?thesis using snoc.IH s c by (subst show_nat.simps) (simp add: decimal_value_snoc)
  qed
qed (simp add: canonical_decimal_def)

lemma show_nat_canonical: "canonical_decimal (show_nat n)"
proof -
  have "show_nat 0 = ''0''" by code_simp
  then have "n \<noteq> 0 \<or> show_nat n = ''0''" by (cases "n = 0") simp_all
  then show ?thesis using show_nat_no_leading_zero [of n] show_nat_digits [of n] by (auto simp: canonical_decimal_def)
qed

lemma show_nat_length: "n < 10 ^ k \<Longrightarrow> 0 < k \<Longrightarrow> length (show_nat n) \<le> k"
proof (induction k arbitrary: n)
  case (Suc k)
  show ?case
  proof (cases "n < 10")
    case True
    then show ?thesis by (subst show_nat.simps) simp
  next
    case False
    then have "0 < k" using Suc.prems by (cases k) auto
    with False Suc.IH [of "n div 10"] Suc.prems(1) show ?thesis by (subst show_nat.simps) auto
  qed
qed simp

lemma fits_length: "fits n \<Longrightarrow> length (show_nat n) \<le> 78"
  by (rule show_nat_length) (auto simp: fits_def elim: less_le_trans)

lemma decimal_Ok: "decimal field v = Ok n \<longleftrightarrow> v = show_nat n \<and> fits n"
proof
  assume "decimal field v = Ok n"
  then have "canonical_decimal v" "n = decimal_value v" "fits n"
    by (auto simp: decimal_def canonical_decimal_def Let_def uint256_word_cases simp del: be_bytes.simps split: if_splits)
  then show "v = show_nat n \<and> fits n" using show_nat_decimal_value by simp
next
  assume "v = show_nat n \<and> fits n"
  then show "decimal field v = Ok n"
    using show_nat_canonical [of n] fits_length [of n]
    by (auto simp: decimal_def canonical_decimal_def Let_def uint256_word_cases simp del: be_bytes.simps)
qed

lemma decimal_errors:
  "decimal field v = Err e \<longleftrightarrow> (if canonical_decimal v \<and> length v \<le> 78
     then e = Uint256Overflow \<and> \<not> fits (decimal_value v) else e = InvalidDecimal field v)"
  by (auto simp: decimal_def canonical_decimal_def Let_def uint256_word_cases simp del: be_bytes.simps)

lemma json_address_Ok: "json_address field v = Ok a \<longleftrightarrow> address_from_str v = Some a"
  by (auto simp: json_address_def)

section \<open>Rendering of an input\<close>

definition json_of_pool :: "pool_input \<Rightarrow> json_pool_input" where
  "json_of_pool p = \<lparr>jp_balance = show_nat (pi_balance p), jp_asset_usd = show_nat (pi_asset_usd p),
     jp_asset_decimals = pi_asset_decimals p\<rparr>"

definition json_of_claim :: "claim_input \<Rightarrow> json_claim_input" where
  "json_of_claim c = \<lparr>jc_claim_id = show_nat (ci_claim_id c), jc_user = address_to_string (ci_user c),
     jc_escrow_amount = show_nat (ci_escrow_amount c), jc_min_held = show_nat (ci_min_held c),
     jc_gross_earned_score = show_nat (ci_gross_earned_score c), jc_spent_score = show_nat (ci_spent_score c),
     jc_score_to_spend = show_nat (ci_score_to_spend c), jc_booster_amount = show_nat (ci_booster_amount c),
     jc_booster_held = show_nat (ci_booster_held c)\<rparr>"

definition json_of_input :: "kernel_input \<Rightarrow> json_kernel_input" where
  "json_of_input i = \<lparr>ji_incident_id = show_nat (ki_incident_id i), ji_coverage_bps = show_nat (ki_coverage_bps i),
     ji_booster_boost_bps = show_nat (ki_booster_boost_bps i), ji_insured_decimals = ki_insured_decimals i,
     ji_twap_ratio = show_nat (ki_twap_ratio i), ji_underlying_usd = show_nat (ki_underlying_usd i),
     ji_max_cover_pool_payout_bps = show_nat (ki_max_cover_pool_payout_bps i),
     ji_protocol_fee_share_bps = show_nat (ki_protocol_fee_share_bps i),
     ji_pools = map json_of_pool (ki_pools i), ji_claims = map json_of_claim (ki_claims i)\<rparr>"

text \<open>The types of a kernel input: every number is a \<^verbatim>\<open>uint256\<close>, every user an address of 20 bytes.\<close>

definition typed_pool :: "pool_input \<Rightarrow> bool" where
  "typed_pool p \<longleftrightarrow> fits (pi_balance p) \<and> fits (pi_asset_usd p)"

definition typed_claim :: "claim_input \<Rightarrow> bool" where
  "typed_claim c \<longleftrightarrow> wf_address (ci_user c) \<and> fits (ci_claim_id c) \<and> fits (ci_escrow_amount c) \<and> fits (ci_min_held c)
     \<and> fits (ci_gross_earned_score c) \<and> fits (ci_spent_score c) \<and> fits (ci_score_to_spend c)
     \<and> fits (ci_booster_amount c) \<and> fits (ci_booster_held c)"

definition typed_input :: "kernel_input \<Rightarrow> bool" where
  "typed_input i \<longleftrightarrow> fits (ki_incident_id i) \<and> fits (ki_coverage_bps i) \<and> fits (ki_booster_boost_bps i)
     \<and> fits (ki_twap_ratio i) \<and> fits (ki_underlying_usd i) \<and> fits (ki_max_cover_pool_payout_bps i)
     \<and> fits (ki_protocol_fee_share_bps i) \<and> list_all typed_pool (ki_pools i) \<and> list_all typed_claim (ki_claims i)"

text \<open>The only freedom of a document: the letter case of the user addresses.\<close>

definition lower_users :: "json_kernel_input \<Rightarrow> json_kernel_input" where
  "lower_users d = d\<lparr>ji_claims := map (\<lambda>c. c\<lparr>jc_user := to_ascii_lowercase (jc_user c)\<rparr>) (ji_claims d)\<rparr>"

lemma pool_of_json_Ok: "pool_of_json (n, d) = Ok p \<longleftrightarrow> d = json_of_pool p \<and> typed_pool p"
  by (cases p; cases d) (auto simp: pool_of_json_def decimal_Ok json_of_pool_def typed_pool_def bindR_eq_Inr)

lemma claim_of_json_Ok: "claim_of_json (n, d) = Ok c \<longleftrightarrow>
    d\<lparr>jc_user := address_to_string (ci_user c)\<rparr> = json_of_claim c \<and> address_from_str (jc_user d) = Some (ci_user c)
    \<and> typed_claim c"
proof -
  have "address_from_str (jc_user d) = Some (ci_user c) \<Longrightarrow> wf_address (ci_user c)" by (rule address_from_str_wf)
  then show ?thesis
    by (cases c; cases d) (auto simp: claim_of_json_def decimal_Ok json_address_Ok json_of_claim_def typed_claim_def
        bindR_eq_Inr Let_def)
qed

lemma pools_of_json_Ok: "mapR pool_of_json (enumerate n ds) = Ok ps \<longleftrightarrow> ds = map json_of_pool ps \<and> list_all typed_pool ps"
proof (induction ds arbitrary: n ps)
  case (Cons d ds)
  show ?case by (cases ps) (auto simp: bindR_eq_Inr pool_of_json_Ok Cons.IH)
qed auto

definition claim_reads :: "json_claim_input \<Rightarrow> claim_input \<Rightarrow> bool" where
  "claim_reads d c \<longleftrightarrow> d\<lparr>jc_user := address_to_string (ci_user c)\<rparr> = json_of_claim c
     \<and> address_from_str (jc_user d) = Some (ci_user c) \<and> typed_claim c"

lemma claims_of_json_Ok: "mapR claim_of_json (enumerate n ds) = Ok cs \<longleftrightarrow> list_all2 claim_reads ds cs"
proof (induction ds arbitrary: n cs)
  case (Cons d ds)
  show ?case by (cases cs) (auto simp: bindR_eq_Inr claim_of_json_Ok claim_reads_def Cons.IH)
qed auto

lemma claim_reads_lower: "claim_reads d c \<Longrightarrow> d\<lparr>jc_user := to_ascii_lowercase (jc_user d)\<rparr> = json_of_claim c \<and> typed_claim c"
  using address_canonical by (auto simp: claim_reads_def)

lemma claim_reads_render: "typed_claim c \<Longrightarrow> claim_reads (json_of_claim c) c"
  by (simp add: claim_reads_def json_of_claim_def typed_claim_def address_roundtrip)

lemma claim_reads_list: "list_all2 claim_reads ds cs \<Longrightarrow>
    map (\<lambda>d. d\<lparr>jc_user := to_ascii_lowercase (jc_user d)\<rparr>) ds = map json_of_claim cs \<and> list_all typed_claim cs"
  by (induction rule: list_all2_induct) (auto dest: claim_reads_lower)

lemma kernel_input_of_json_Ok:
  "kernel_input_of_json d = Ok i \<longleftrightarrow> d\<lparr>ji_claims := []\<rparr> = json_of_input i\<lparr>ji_claims := []\<rparr>
     \<and> typed_input (i\<lparr>ki_claims := []\<rparr>) \<and> list_all2 claim_reads (ji_claims d) (ki_claims i)"
  by (cases i; cases d)
    (auto simp: kernel_input_of_json_def bindR_eq_Inr decimal_Ok pools_of_json_Ok claims_of_json_Ok json_of_input_def
      typed_input_def)

lemma json_of_row_inj: "json_of_row r = json_of_row r' \<longleftrightarrow> r = r'"
proof -
  have "inj show_nat" by (simp add: inj_def show_nat_inj)
  then show ?thesis
    by (cases r; cases r') (auto simp: json_of_row_def show_nat_inj address_to_string_inj inj_map_eq_map)
qed

lemma json_of_output_inj: "json_of_output o1 = json_of_output o2 \<longleftrightarrow> o1 = o2"
proof
  assume eq: "json_of_output o1 = json_of_output o2"
  have inj: "inj show_nat" "inj json_of_row" by (simp_all add: inj_def show_nat_inj json_of_row_inj)
  have "ko_proofs o1 n = ko_proofs o2 n" for n
    using arg_cong [OF eq, of "\<lambda>j. jo_proofs j (show_nat n)"] by (simp add: json_of_output_def)
  then have "ko_proofs o1 = ko_proofs o2" by blast
  with eq show "o1 = o2"
    by (cases o1; cases o2) (auto simp: json_of_output_def inj_map_eq_map [OF inj(1)] inj_map_eq_map [OF inj(2)])
qed simp

section \<open>Claims\<close>

text \<open>
  C32.  The JSON front end is strict: an accepted document yields an input in which every number is a
  \<^verbatim>\<open>uint256\<close> and every user a 20-byte address, and the document is exactly the rendering of that input
  up to the letter case of the user addresses, so that no two documents that differ otherwise
  are read as the same input.\<close>

theorem parse_json_typed:
  assumes "parse_json serde raw = Ok i"
  shows "typed_input i \<and> (\<exists>d. from_str serde raw = Ok d \<and> lower_users d = json_of_input i)"
proof -
  from assms obtain d where d: "from_str serde raw = Ok d" "kernel_input_of_json d = Ok i"
    by (auto simp: parse_json_def)
  then have base: "d\<lparr>ji_claims := []\<rparr> = json_of_input i\<lparr>ji_claims := []\<rparr>" "typed_input (i\<lparr>ki_claims := []\<rparr>)"
    and claims: "list_all2 claim_reads (ji_claims d) (ki_claims i)" by (auto simp: kernel_input_of_json_Ok)
  note claims = claim_reads_list [OF claims]
  from base(1) claims have "lower_users d = json_of_input i"
    by (cases d; cases i) (simp add: lower_users_def json_of_input_def)
  with d(1) base(2) claims show ?thesis by (simp add: typed_input_def)
qed

text \<open>
  Round trip: the rendering of a typed input is accepted and gives back the input, so \<^verbatim>\<open>compute_json\<close>
  on it is the allocation of that input; and the rendered output determines the allocation
  (rows, amounts, root and every proof under its claim identifier).\<close>

theorem compute_json_roundtrip:
  assumes "from_str serde raw = Ok (json_of_input i)" "typed_input i"
  shows "parse_json serde raw = Ok i
    \<and> compute_json keccak serde raw = bindR (allocate keccak i) (serialize_output serde)
    \<and> (\<forall>o1 o2. json_of_output o1 = json_of_output o2 \<longrightarrow> o1 = o2)"
proof -
  have "list_all2 claim_reads (map json_of_claim cs) cs" if "list_all typed_claim cs" for cs
    using that by (induction cs) (auto simp: claim_reads_render)
  with assms(2) have "kernel_input_of_json (json_of_input i) = Ok i"
    unfolding kernel_input_of_json_Ok by (auto simp: typed_input_def json_of_input_def)
  with assms(1) have "parse_json serde raw = Ok i" by (simp add: parse_json_def)
  then show ?thesis by (simp add: compute_json_def json_of_output_inj)
qed

section \<open>Witnesses\<close>

text \<open>A codec that knows one document: the demonstration input of the kernel.\<close>

definition demo_serde :: json_codec where
  "demo_serde = \<lparr>from_str = (\<lambda>s. if s = ''demo'' then Ok (json_of_input demo_input) else Err ''unexpected document''),
     to_string = (\<lambda>j. Ok (jo_root j))\<rparr>"

lemma demo_input_typed: "typed_input demo_input"
  by (simp add: typed_input_def demo_input_def typed_pool_def typed_claim_def demo_claim_def fits_def wf_address_def)

theorem compute_json_roundtrip_witness:
  "parse_json demo_serde ''demo'' = Ok demo_input
    \<and> (\<exists>r. compute_json demo_keccak demo_serde ''demo'' = Ok r)"
proof -
  have known: "from_str demo_serde ''demo'' = Ok (json_of_input demo_input)" by (simp add: demo_serde_def)
  from compute_json_roundtrip [OF known demo_input_typed] demo_allocates show ?thesis
    by (auto simp: serialize_output_def demo_serde_def)
qed

theorem parse_json_typed_witness:
  "\<exists>i. parse_json demo_serde ''demo'' = Ok i \<and> typed_input i"
proof -
  have "kernel_input_of_json (json_of_input demo_input) = Ok demo_input"
    unfolding kernel_input_of_json_Ok
    by (simp add: json_of_input_def typed_input_def demo_input_def typed_pool_def fits_def claim_reads_render
        typed_claim_def demo_claim_def wf_address_def)
  then have "parse_json demo_serde ''demo'' = Ok demo_input" by (simp add: parse_json_def demo_serde_def)
  with parse_json_typed [OF this] show ?thesis by blast
qed

end
