(* ===== verification/Typed_Data.thy ===== *)
theory Typed_Data
  imports Config
begin

text \<open>
  The EIP-712 digests of \<^verbatim>\<open>offchain-rust/src/typed_data.rs\<close> that the enclave signs: the settlement digest and the
  incident-open digest.  Keccak-256 is a parameter.  The claims are the two facts that make a signature
  meaningful: a digest determines every signed field, and a digest of one type is never a digest of
  the other, unless the two computations exhibit a collision of the hash.
\<close>

section \<open>Types and inputs\<close>

definition DOMAIN_TYPE :: bytes where
  "DOMAIN_TYPE = text_bytes ''EIP712Domain(string name,string version,uint256 chainId,address verifyingContract)''"

definition SETTLEMENT_TYPE :: bytes where
  "SETTLEMENT_TYPE = text_bytes (''Settlement(uint256 incidentId,bytes32 root,uint256 unresolvedClaims,''
     @ ''uint256[] poolPayouts,bytes32 pools,bytes32 claimSet,bytes32 teePcrHash)'')"

definition INCIDENT_OPEN_TYPE :: bytes where
  "INCIDENT_OPEN_TYPE = text_bytes (''IncidentOpen(address insuredToken,uint64 referenceBlock,uint256 incidentId,''
     @ ''bytes32 teePcrHash,bytes32 eligibilityHash)'')"

record settlement_digest_input =
  sd_chain_id :: u64
  sd_verifying_contract :: address
  sd_incident_id :: biguint
  sd_root :: string
  sd_unresolved_claims :: biguint
  sd_pool_payouts :: "biguint list"
  sd_pool_addrs :: "address list"
  sd_claim_set :: string
  sd_tee_pcr_hash :: string

record incident_open_digest_input =
  od_chain_id :: u64
  od_verifying_contract :: address
  od_insured_token :: address
  od_reference_block :: u64
  od_incident_id :: biguint
  od_tee_pcr_hash :: string
  od_eligibility_hash :: string

datatype typed_data_error =
    InvalidHash string string
  | TypedUint256Overflow

section \<open>Encoding\<close>

definition hash32 :: "string \<Rightarrow> string \<Rightarrow> (typed_data_error, hash) result" where
  "hash32 field value =
     bindR (ok_or (InvalidHash field value)
       (case strip_prefix ''0x'' value of None \<Rightarrow> None
        | Some raw \<Rightarrow> if length raw = 64 then Some raw else None)) (\<lambda>raw.
     ok_or (InvalidHash field value) (hex_decode raw))"

definition typed_word :: "biguint \<Rightarrow> (typed_data_error, hash) result" where
  "typed_word value = map_errR (\<lambda>_. TypedUint256Overflow) (uint256_word value)"

definition packed_uint256_hash :: "(bytes \<Rightarrow> hash) \<Rightarrow> biguint list \<Rightarrow> (typed_data_error, hash) result" where
  "packed_uint256_hash keccak values =
     bindR (foldR (\<lambda>packed value. bindR (typed_word value) (\<lambda>w. Ok (packed @ w))) [] values) (\<lambda>packed.
     Ok (keccak packed))"

definition packed_address_hash :: "(bytes \<Rightarrow> hash) \<Rightarrow> address list \<Rightarrow> hash" where
  "packed_address_hash keccak values = keccak (concat (map abi_word values))"

definition domain_hash :: "(bytes \<Rightarrow> hash) \<Rightarrow> u64 \<Rightarrow> address \<Rightarrow> (typed_data_error, hash) result" where
  "domain_hash keccak chain_id verifying_contract =
     bindR (typed_word chain_id) (\<lambda>c.
     Ok (keccak (keccak DOMAIN_TYPE @ keccak (text_bytes ''DefiInsurance'') @ keccak (text_bytes ''1'')
           @ c @ abi_word verifying_contract)))"

definition typed_digest :: "(bytes \<Rightarrow> hash) \<Rightarrow> hash \<Rightarrow> hash \<Rightarrow> string" where
  "typed_digest keccak domain struct = hash_hex (keccak ([0x19, 0x01] @ domain @ struct))"

definition pools_hash :: "(bytes \<Rightarrow> hash) \<Rightarrow> address list \<Rightarrow> string" where
  "pools_hash keccak values = hash_hex (packed_address_hash keccak values)"

definition settlement_digest ::
  "(bytes \<Rightarrow> hash) \<Rightarrow> settlement_digest_input \<Rightarrow> (typed_data_error, string) result" where
  "settlement_digest keccak i =
     bindR (hash32 ''root'' (sd_root i)) (\<lambda>root.
     bindR (hash32 ''claimSet'' (sd_claim_set i)) (\<lambda>claim_set.
     bindR (hash32 ''teePcrHash'' (sd_tee_pcr_hash i)) (\<lambda>tee_pcr_hash.
     bindR (domain_hash keccak (sd_chain_id i) (sd_verifying_contract i)) (\<lambda>domain.
     bindR (typed_word (sd_incident_id i)) (\<lambda>incident_id.
     bindR (typed_word (sd_unresolved_claims i)) (\<lambda>unresolved.
     bindR (packed_uint256_hash keccak (sd_pool_payouts i)) (\<lambda>payouts.
     Ok (typed_digest keccak domain (keccak (keccak SETTLEMENT_TYPE @ incident_id @ root @ unresolved @ payouts
           @ packed_address_hash keccak (sd_pool_addrs i) @ claim_set @ tee_pcr_hash))))))))))"

definition incident_open_digest ::
  "(bytes \<Rightarrow> hash) \<Rightarrow> incident_open_digest_input \<Rightarrow> (typed_data_error, string) result" where
  "incident_open_digest keccak i =
     bindR (hash32 ''teePcrHash'' (od_tee_pcr_hash i)) (\<lambda>tee_pcr_hash.
     bindR (hash32 ''eligibilityHash'' (od_eligibility_hash i)) (\<lambda>eligibility_hash.
     bindR (typed_word (od_reference_block i)) (\<lambda>reference_block.
     bindR (typed_word (od_incident_id i)) (\<lambda>incident_id.
     bindR (domain_hash keccak (od_chain_id i) (od_verifying_contract i)) (\<lambda>domain.
     Ok (typed_digest keccak domain (keccak (keccak INCIDENT_OPEN_TYPE @ abi_word (od_insured_token i)
           @ reference_block @ incident_id @ tee_pcr_hash @ eligibility_hash))))))))"

section \<open>Hashed byte strings\<close>

text \<open>The value of a 32-byte hexadecimal field, and the byte strings that a digest hashes.\<close>

definition hash_bytes :: "string \<Rightarrow> bytes" where
  "hash_bytes v = (case hex_decode (drop 2 v) of Some h \<Rightarrow> h | None \<Rightarrow> [])"

definition domain_preimage :: "(bytes \<Rightarrow> hash) \<Rightarrow> u64 \<Rightarrow> address \<Rightarrow> bytes" where
  "domain_preimage keccak c a = keccak DOMAIN_TYPE @ keccak (text_bytes ''DefiInsurance'') @ keccak (text_bytes ''1'')
     @ be_bytes 32 c @ abi_word a"

definition payouts_preimage :: "biguint list \<Rightarrow> bytes" where
  "payouts_preimage vs = concat (map (be_bytes 32) vs)"

definition pools_preimage :: "address list \<Rightarrow> bytes" where
  "pools_preimage as = concat (map abi_word as)"

definition settlement_preimage :: "(bytes \<Rightarrow> hash) \<Rightarrow> settlement_digest_input \<Rightarrow> bytes" where
  "settlement_preimage keccak i = keccak SETTLEMENT_TYPE @ be_bytes 32 (sd_incident_id i) @ hash_bytes (sd_root i)
     @ be_bytes 32 (sd_unresolved_claims i) @ keccak (payouts_preimage (sd_pool_payouts i))
     @ keccak (pools_preimage (sd_pool_addrs i)) @ hash_bytes (sd_claim_set i) @ hash_bytes (sd_tee_pcr_hash i)"

definition open_preimage :: "(bytes \<Rightarrow> hash) \<Rightarrow> incident_open_digest_input \<Rightarrow> bytes" where
  "open_preimage keccak i = keccak INCIDENT_OPEN_TYPE @ abi_word (od_insured_token i) @ be_bytes 32 (od_reference_block i)
     @ be_bytes 32 (od_incident_id i) @ hash_bytes (od_tee_pcr_hash i) @ hash_bytes (od_eligibility_hash i)"

definition digest_preimage :: "(bytes \<Rightarrow> hash) \<Rightarrow> bytes \<Rightarrow> bytes \<Rightarrow> bytes" where
  "digest_preimage keccak d s = [0x19, 0x01] @ keccak d @ keccak s"

definition settlement_hashed :: "(bytes \<Rightarrow> hash) \<Rightarrow> settlement_digest_input \<Rightarrow> bytes list" where
  "settlement_hashed keccak i =
     (let d = domain_preimage keccak (sd_chain_id i) (sd_verifying_contract i); s = settlement_preimage keccak i
      in [digest_preimage keccak d s, d, s, payouts_preimage (sd_pool_payouts i), pools_preimage (sd_pool_addrs i)])"

definition open_hashed :: "(bytes \<Rightarrow> hash) \<Rightarrow> incident_open_digest_input \<Rightarrow> bytes list" where
  "open_hashed keccak i =
     (let d = domain_preimage keccak (od_chain_id i) (od_verifying_contract i); s = open_preimage keccak i
      in [digest_preimage keccak d s, d, s])"

definition collision :: "(bytes \<Rightarrow> hash) \<Rightarrow> bytes list \<Rightarrow> bytes list \<Rightarrow> bool" where
  "collision keccak ps qs \<longleftrightarrow> (\<exists>p \<in> set ps. \<exists>q \<in> set qs. p \<noteq> q \<and> keccak p = keccak q)"

section \<open>What a successful digest hashes\<close>

lemma hash32_Ok: "hash32 field v = Ok h \<longleftrightarrow>
    h = hash_bytes v \<and> length h = 32 \<and> hash_hex h = to_ascii_lowercase v \<and> hash32 field v = Ok h"
  by (auto simp: hash32_def hash_bytes_def hash_hex_def strip_prefix_Some bindR_eq_Inr
      dest: length_hex_decode hex_encode_decode split: option.splits if_splits)

lemma hash32_canonical: "length h = 32 \<Longrightarrow> hash32 field (hash_hex h) = Ok h"
  by (simp add: hash32_def hash_hex_def strip_prefix_def)

lemma hash32_bytes:
  assumes "hash32 field v = Ok h" "hash32 field' v' = Ok h'"
  shows "length (hash_bytes v) = 32" "hash_bytes v = hash_bytes v' \<longleftrightarrow> to_ascii_lowercase v = to_ascii_lowercase v'"
  using assms hash32_Ok [of field v h] hash32_Ok [of field' v' h'] hash_hex_inj by metis+

lemma typed_word_Ok: "typed_word v = Ok w \<longleftrightarrow> fits v \<and> w = be_bytes 32 v"
  unfolding typed_word_def map_errR_simps uint256_word_cases by auto

lemma packed_fold:
  "foldR (\<lambda>packed value. bindR (typed_word value) (\<lambda>w. Ok (packed @ w))) acc vs = Ok p
     \<longleftrightarrow> list_all fits vs \<and> p = acc @ payouts_preimage vs"
  by (induction vs arbitrary: acc)
    (auto simp: payouts_preimage_def bindR_eq_Inr typed_word_Ok simp del: be_bytes.simps)

lemma packed_uint256_hash_Ok:
  "packed_uint256_hash keccak vs = Ok h \<longleftrightarrow> list_all fits vs \<and> h = keccak (payouts_preimage vs)"
  by (auto simp: packed_uint256_hash_def bindR_eq_Inr packed_fold)

lemma domain_hash_Ok: "domain_hash keccak c a = Ok h \<longleftrightarrow> fits c \<and> h = keccak (domain_preimage keccak c a)"
  by (auto simp: domain_hash_def bindR_eq_Inr typed_word_Ok domain_preimage_def simp del: be_bytes.simps)

definition settlement_fields_ok :: "settlement_digest_input \<Rightarrow> bool" where
  "settlement_fields_ok i \<longleftrightarrow> (\<exists>h. hash32 ''root'' (sd_root i) = Ok h) \<and> (\<exists>h. hash32 ''claimSet'' (sd_claim_set i) = Ok h)
     \<and> (\<exists>h. hash32 ''teePcrHash'' (sd_tee_pcr_hash i) = Ok h) \<and> fits (sd_chain_id i) \<and> fits (sd_incident_id i)
     \<and> fits (sd_unresolved_claims i) \<and> list_all fits (sd_pool_payouts i)"

definition open_fields_ok :: "incident_open_digest_input \<Rightarrow> bool" where
  "open_fields_ok i \<longleftrightarrow> (\<exists>h. hash32 ''teePcrHash'' (od_tee_pcr_hash i) = Ok h)
     \<and> (\<exists>h. hash32 ''eligibilityHash'' (od_eligibility_hash i) = Ok h)
     \<and> fits (od_reference_block i) \<and> fits (od_incident_id i) \<and> fits (od_chain_id i)"

lemma hash32_cases:
  obtains (bad) e where "hash32 f v = Err e" "\<not> (\<exists>h. hash32 f v = Ok h)"
  | (good) "hash32 f v = Ok (hash_bytes v)" "\<exists>h. hash32 f v = Ok h"
proof (cases "hash32 f v")
  case (Inl e)
  then show ?thesis by (intro bad) auto
next
  case (Inr h)
  then show ?thesis using hash32_Ok [of f v h] by (intro good) auto
qed

lemma settlement_digest_Ok:
  "settlement_digest keccak i = Ok d \<longleftrightarrow> settlement_fields_ok i \<and> d = hash_hex (keccak (hd (settlement_hashed keccak i)))"
  unfolding settlement_digest_def settlement_fields_ok_def
  by (cases "''root''" "sd_root i" rule: hash32_cases; cases "''claimSet''" "sd_claim_set i" rule: hash32_cases;
      cases "''teePcrHash''" "sd_tee_pcr_hash i" rule: hash32_cases)
    (auto simp: bindR_eq_Inr typed_word_Ok packed_uint256_hash_Ok domain_hash_Ok settlement_hashed_def Let_def
      digest_preimage_def settlement_preimage_def packed_address_hash_def pools_preimage_def typed_digest_def
      simp del: be_bytes.simps)

lemma incident_open_digest_Ok:
  "incident_open_digest keccak i = Ok d \<longleftrightarrow> open_fields_ok i \<and> d = hash_hex (keccak (hd (open_hashed keccak i)))"
  unfolding incident_open_digest_def open_fields_ok_def
  by (cases "''teePcrHash''" "od_tee_pcr_hash i" rule: hash32_cases;
      cases "''eligibilityHash''" "od_eligibility_hash i" rule: hash32_cases)
    (auto simp: bindR_eq_Inr typed_word_Ok domain_hash_Ok open_hashed_def Let_def
      digest_preimage_def open_preimage_def typed_digest_def simp del: be_bytes.simps)

section \<open>Binding\<close>

lemma concat_words_inj:
  assumes "\<forall>x \<in> set xs \<union> set ys. length x = (32 :: nat)" "concat xs = concat ys"
  shows "xs = ys"
  using assms
proof (induction xs arbitrary: ys)
  case Nil
  then show ?case by (cases ys) auto
next
  case (Cons x xs)
  then obtain y ys' where "ys = y # ys'" by (cases ys) force+
  with Cons show ?case by auto
qed

lemma payouts_preimage_inj:
  assumes "list_all fits vs" "list_all fits vs'" "payouts_preimage vs = payouts_preimage vs'"
  shows "vs = vs'"
proof -
  have "map (be_bytes 32) vs = map (be_bytes 32) vs'"
    using assms(3) unfolding payouts_preimage_def by (rule concat_words_inj [rotated]) (auto simp del: be_bytes.simps)
  then show ?thesis using assms(1,2)
    by (intro map_inj_on [of "be_bytes 32"] inj_onI) (auto simp: list_all_iff intro: be_bytes_32_inj)
qed

lemma pools_preimage_inj:
  assumes "list_all wf_address as" "list_all wf_address as'" "pools_preimage as = pools_preimage as'"
  shows "as = as'"
proof -
  have "map abi_word as = map abi_word as'"
    using assms unfolding pools_preimage_def
    by (intro concat_words_inj) (auto simp: list_all_iff length_abi_word)
  then show ?thesis by (simp add: inj_map_eq_map inj_def abi_word_inj)
qed

definition settlement_wf :: "settlement_digest_input \<Rightarrow> bool" where
  "settlement_wf i \<longleftrightarrow> wf_address (sd_verifying_contract i) \<and> list_all wf_address (sd_pool_addrs i)"

text \<open>The signed content: the fields, with the hexadecimal texts up to letter case.\<close>

definition settlement_content ::
  "settlement_digest_input \<Rightarrow> settlement_digest_input" where
  "settlement_content i = i\<lparr>sd_root := to_ascii_lowercase (sd_root i), sd_claim_set := to_ascii_lowercase (sd_claim_set i),
     sd_tee_pcr_hash := to_ascii_lowercase (sd_tee_pcr_hash i)\<rparr>"

definition open_content :: "incident_open_digest_input \<Rightarrow> incident_open_digest_input" where
  "open_content i = i\<lparr>od_tee_pcr_hash := to_ascii_lowercase (od_tee_pcr_hash i),
     od_eligibility_hash := to_ascii_lowercase (od_eligibility_hash i)\<rparr>"

lemma digest_preimage_inj:
  assumes "\<And>x. length (keccak x) = 32" "digest_preimage keccak d s = digest_preimage keccak d' s'"
  shows "keccak d = keccak d' \<and> keccak s = keccak s'"
  using assms by (simp add: digest_preimage_def)

lemma domain_preimage_inj:
  assumes "domain_preimage keccak c a = domain_preimage keccak c' a'" "fits c" "fits c'"
  shows "c = c' \<and> a = a'"
  using assms(1) be_bytes_32_inj [OF _ assms(2,3)] abi_word_inj
  by (simp add: domain_preimage_def del: be_bytes.simps)

lemma settlement_preimage_inj:
  assumes "\<And>x. length (keccak x) = 32" "settlement_fields_ok i" "settlement_fields_ok j"
    "settlement_preimage keccak i = settlement_preimage keccak j"
  shows "sd_incident_id i = sd_incident_id j \<and> sd_unresolved_claims i = sd_unresolved_claims j
    \<and> to_ascii_lowercase (sd_root i) = to_ascii_lowercase (sd_root j)
    \<and> to_ascii_lowercase (sd_claim_set i) = to_ascii_lowercase (sd_claim_set j)
    \<and> to_ascii_lowercase (sd_tee_pcr_hash i) = to_ascii_lowercase (sd_tee_pcr_hash j)
    \<and> keccak (payouts_preimage (sd_pool_payouts i)) = keccak (payouts_preimage (sd_pool_payouts j))
    \<and> keccak (pools_preimage (sd_pool_addrs i)) = keccak (pools_preimage (sd_pool_addrs j))"
proof -
  from assms(2,3) obtain a b c a' b' c' where h:
    "hash32 ''root'' (sd_root i) = Ok a" "hash32 ''root'' (sd_root j) = Ok a'"
    "hash32 ''claimSet'' (sd_claim_set i) = Ok b" "hash32 ''claimSet'' (sd_claim_set j) = Ok b'"
    "hash32 ''teePcrHash'' (sd_tee_pcr_hash i) = Ok c" "hash32 ''teePcrHash'' (sd_tee_pcr_hash j) = Ok c'"
    unfolding settlement_fields_ok_def by blast
  note len = hash32_bytes(1) [OF h(1,2)] hash32_bytes(1) [OF h(2,1)] hash32_bytes(1) [OF h(3,4)]
    hash32_bytes(1) [OF h(4,3)] hash32_bytes(1) [OF h(5,6)] hash32_bytes(1) [OF h(6,5)]
  from assms(4) show ?thesis
    using assms(2,3) be_bytes_32_inj
    by (auto simp: settlement_preimage_def settlement_fields_ok_def len assms(1)
        hash32_bytes(2) [OF h(1,2)] hash32_bytes(2) [OF h(3,4)] hash32_bytes(2) [OF h(5,6)] simp del: be_bytes.simps)
qed

lemma open_preimage_inj:
  assumes "\<And>x. length (keccak x) = 32" "open_fields_ok i" "open_fields_ok j"
    "wf_address (od_insured_token i)" "wf_address (od_insured_token j)" "open_preimage keccak i = open_preimage keccak j"
  shows "od_insured_token i = od_insured_token j \<and> od_reference_block i = od_reference_block j
    \<and> od_incident_id i = od_incident_id j
    \<and> to_ascii_lowercase (od_tee_pcr_hash i) = to_ascii_lowercase (od_tee_pcr_hash j)
    \<and> to_ascii_lowercase (od_eligibility_hash i) = to_ascii_lowercase (od_eligibility_hash j)"
proof -
  from assms(2,3) obtain a b a' b' where h:
    "hash32 ''teePcrHash'' (od_tee_pcr_hash i) = Ok a" "hash32 ''teePcrHash'' (od_tee_pcr_hash j) = Ok a'"
    "hash32 ''eligibilityHash'' (od_eligibility_hash i) = Ok b" "hash32 ''eligibilityHash'' (od_eligibility_hash j) = Ok b'"
    unfolding open_fields_ok_def by blast
  note len = hash32_bytes(1) [OF h(1,2)] hash32_bytes(1) [OF h(2,1)] hash32_bytes(1) [OF h(3,4)] hash32_bytes(1) [OF h(4,3)]
  from assms(6) show ?thesis
    using assms(2,3) be_bytes_32_inj
    by (auto simp: open_preimage_def open_fields_ok_def len assms(1) length_abi_word [OF assms(4)] length_abi_word [OF assms(5)]
        abi_word_inj hash32_bytes(2) [OF h(1,2)] hash32_bytes(2) [OF h(3,4)] simp del: be_bytes.simps)
qed

lemma no_collisionD: "\<not> collision keccak ps qs \<Longrightarrow> p \<in> set ps \<Longrightarrow> q \<in> set qs \<Longrightarrow> keccak p = keccak q \<Longrightarrow> p = q"
  by (auto simp: collision_def)

lemma settlement_hashed_mem:
  "hd (settlement_hashed keccak i) \<in> set (settlement_hashed keccak i)"
  "domain_preimage keccak (sd_chain_id i) (sd_verifying_contract i) \<in> set (settlement_hashed keccak i)"
  "settlement_preimage keccak i \<in> set (settlement_hashed keccak i)"
  "payouts_preimage (sd_pool_payouts i) \<in> set (settlement_hashed keccak i)"
  "pools_preimage (sd_pool_addrs i) \<in> set (settlement_hashed keccak i)"
  by (simp_all add: settlement_hashed_def Let_def)

lemma open_hashed_mem:
  "hd (open_hashed keccak i) \<in> set (open_hashed keccak i)"
  "domain_preimage keccak (od_chain_id i) (od_verifying_contract i) \<in> set (open_hashed keccak i)"
  "open_preimage keccak i \<in> set (open_hashed keccak i)"
  by (simp_all add: open_hashed_def Let_def)

lemma settlement_hashed_hd: "hd (settlement_hashed keccak i)
    = digest_preimage keccak (domain_preimage keccak (sd_chain_id i) (sd_verifying_contract i)) (settlement_preimage keccak i)"
  by (simp add: settlement_hashed_def Let_def)

lemma open_hashed_hd: "hd (open_hashed keccak i)
    = digest_preimage keccak (domain_preimage keccak (od_chain_id i) (od_verifying_contract i)) (open_preimage keccak i)"
  by (simp add: open_hashed_def Let_def)

text \<open>
  C31.  The settlement digest binds the settlement: two inputs with the same digest have the same chain,
  contract, incident, root, count of unresolved claims, payouts per pool in order, pool addresses in
  order, claim set and enclave measurement (the hexadecimal texts up to letter case), or the byte
  strings that the two computations hash contain a collision of the hash function.\<close>

theorem settlement_digest_binding:
  assumes "settlement_digest keccak i = Ok d" "settlement_digest keccak j = Ok d"
    "\<And>x. length (keccak x) = 32" "settlement_wf i" "settlement_wf j"
  shows "settlement_content i = settlement_content j
    \<or> collision keccak (settlement_hashed keccak i) (settlement_hashed keccak j)"
proof (rule disjCI)
  assume "\<not> collision keccak (settlement_hashed keccak i) (settlement_hashed keccak j)"
  note same = no_collisionD [OF this]
  note mem = settlement_hashed_mem [where keccak = keccak]
  from assms(1,2) have ok: "settlement_fields_ok i" "settlement_fields_ok j"
    and "keccak (hd (settlement_hashed keccak i)) = keccak (hd (settlement_hashed keccak j))"
    by (auto simp: settlement_digest_Ok hash_hex_inj)
  from same [OF mem(1) mem(1) this(3)]
  have parts: "keccak (domain_preimage keccak (sd_chain_id i) (sd_verifying_contract i))
        = keccak (domain_preimage keccak (sd_chain_id j) (sd_verifying_contract j))"
      "keccak (settlement_preimage keccak i) = keccak (settlement_preimage keccak j)"
    unfolding settlement_hashed_hd using digest_preimage_inj [of keccak] assms(3) by blast+
  from ok have fits: "fits (sd_chain_id i)" "fits (sd_chain_id j)" "list_all fits (sd_pool_payouts i)"
    "list_all fits (sd_pool_payouts j)" by (auto simp: settlement_fields_ok_def)
  note domain = domain_preimage_inj [OF same [OF mem(2) mem(2) parts(1)] fits(1,2)]
  note struct = settlement_preimage_inj [OF assms(3) ok same [OF mem(3) mem(3) parts(2)]]
  have "sd_pool_payouts i = sd_pool_payouts j"
    using struct by (intro payouts_preimage_inj [OF fits(3,4)] same [OF mem(4) mem(4)]) blast
  moreover have "sd_pool_addrs i = sd_pool_addrs j"
    using struct assms(4,5) by (intro pools_preimage_inj same [OF mem(5) mem(5)]) (auto simp: settlement_wf_def)
  ultimately show "settlement_content i = settlement_content j"
    using domain struct by (simp add: settlement_content_def)
qed

text \<open>
  The incident-open digest binds the opening in the same way, and the two digests are separated: a
  settlement digest that equals an incident-open digest exhibits a collision, so that a signature over
  an opening can never be presented as a signature over a settlement.\<close>

theorem incident_open_digest_binding:
  assumes "incident_open_digest keccak i = Ok d" "\<And>x. length (keccak x) = 32"
    "wf_address (od_insured_token i)"
  shows "(\<forall>j. incident_open_digest keccak j = Ok d \<longrightarrow> wf_address (od_insured_token j) \<longrightarrow>
            open_content i = open_content j \<or> collision keccak (open_hashed keccak i) (open_hashed keccak j))
    \<and> (\<forall>s. settlement_digest keccak s = Ok d \<longrightarrow> collision keccak (open_hashed keccak i) (settlement_hashed keccak s))"
proof (intro conjI allI impI)
  fix j assume j: "incident_open_digest keccak j = Ok d" "wf_address (od_insured_token j)"
  show "open_content i = open_content j \<or> collision keccak (open_hashed keccak i) (open_hashed keccak j)"
  proof (rule disjCI)
    assume "\<not> collision keccak (open_hashed keccak i) (open_hashed keccak j)"
    note same = no_collisionD [OF this]
    note mem = open_hashed_mem [where keccak = keccak]
    from assms(1) j have ok: "open_fields_ok i" "open_fields_ok j"
      and "keccak (hd (open_hashed keccak i)) = keccak (hd (open_hashed keccak j))"
      by (auto simp: incident_open_digest_Ok hash_hex_inj)
    from same [OF mem(1) mem(1) this(3)]
    have parts: "keccak (domain_preimage keccak (od_chain_id i) (od_verifying_contract i))
          = keccak (domain_preimage keccak (od_chain_id j) (od_verifying_contract j))"
        "keccak (open_preimage keccak i) = keccak (open_preimage keccak j)"
      unfolding open_hashed_hd using digest_preimage_inj [of keccak] assms(2) by blast+
    from ok have "fits (od_chain_id i)" "fits (od_chain_id j)" by (auto simp: open_fields_ok_def)
    note domain = domain_preimage_inj [OF same [OF mem(2) mem(2) parts(1)] this]
    note struct = open_preimage_inj [OF assms(2) ok assms(3) j(2) same [OF mem(3) mem(3) parts(2)]]
    show "open_content i = open_content j" using domain struct by (simp add: open_content_def)
  qed
next
  fix s assume s: "settlement_digest keccak s = Ok d"
  show "collision keccak (open_hashed keccak i) (settlement_hashed keccak s)"
  proof (rule ccontr)
    assume "\<not> collision keccak (open_hashed keccak i) (settlement_hashed keccak s)"
    note same = no_collisionD [OF this]
    from assms(1) s have ok: "open_fields_ok i" "settlement_fields_ok s"
      and "keccak (hd (open_hashed keccak i)) = keccak (hd (settlement_hashed keccak s))"
      by (auto simp: incident_open_digest_Ok settlement_digest_Ok hash_hex_inj)
    from same [OF open_hashed_mem(1) settlement_hashed_mem(1) this(3)]
    have "keccak (open_preimage keccak i) = keccak (settlement_preimage keccak s)"
      unfolding settlement_hashed_hd open_hashed_hd using digest_preimage_inj [of keccak] assms(2) by blast
    from same [OF open_hashed_mem(3) settlement_hashed_mem(3) this]
    have len: "length (open_preimage keccak i) = length (settlement_preimage keccak s)" by simp
    from ok obtain a b a' b' c' where
      h: "hash32 ''teePcrHash'' (od_tee_pcr_hash i) = Ok a" "hash32 ''eligibilityHash'' (od_eligibility_hash i) = Ok b"
      "hash32 ''root'' (sd_root s) = Ok a'" "hash32 ''claimSet'' (sd_claim_set s) = Ok b'"
      "hash32 ''teePcrHash'' (sd_tee_pcr_hash s) = Ok c'"
      unfolding open_fields_ok_def settlement_fields_ok_def by blast
    from len show False
      by (simp add: open_preimage_def settlement_preimage_def assms(2) length_abi_word [OF assms(3)]
          hash32_bytes(1) [OF h(1) h(1)] hash32_bytes(1) [OF h(2) h(2)] hash32_bytes(1) [OF h(3) h(3)]
          hash32_bytes(1) [OF h(4) h(4)] hash32_bytes(1) [OF h(5) h(5)] del: be_bytes.simps)
  qed
qed

section \<open>Witnesses\<close>

text \<open>A hash of 32 bytes for evaluation: the length, and the last bytes of the text.\<close>

definition toy_keccak :: "bytes \<Rightarrow> hash" where
  "toy_keccak bs = take 32 (of_nat (length bs) # rev bs @ replicate 32 1)"

definition demo_settlement :: "string \<Rightarrow> settlement_digest_input" where
  "demo_settlement root = \<lparr>sd_chain_id = 1, sd_verifying_contract = Address (replicate 20 7), sd_incident_id = 4,
     sd_root = root, sd_unresolved_claims = 2, sd_pool_payouts = [10, 20],
     sd_pool_addrs = [Address (replicate 20 1), Address (replicate 20 2)],
     sd_claim_set = hash_hex (replicate 32 10), sd_tee_pcr_hash = hash_hex (replicate 32 11)\<rparr>"

definition demo_opening :: "string \<Rightarrow> incident_open_digest_input" where
  "demo_opening h = \<lparr>od_chain_id = 1, od_verifying_contract = Address (replicate 20 7),
     od_insured_token = Address (replicate 20 3), od_reference_block = 100, od_incident_id = 4,
     od_tee_pcr_hash = h, od_eligibility_hash = hash_hex (replicate 32 11)\<rparr>"

definition upper_hash :: string where
  "upper_hash = ''0x'' @ concat (replicate 32 ''AB'')"

definition lower_hash :: string where
  "lower_hash = ''0x'' @ concat (replicate 32 ''ab'')"

lemma toy_keccak_length: "length (toy_keccak bs) = 32"
  by (simp add: toy_keccak_def)

lemma hex_decode_AB: "hex_decode (concat (replicate n ''AB'')) = Some (replicate n 171)"
  "hex_decode (concat (replicate n ''ab'')) = Some (replicate n 171)"
  by (induction n) (simp_all add: hex_val_def)

lemma demo_hash32: "hash32 f upper_hash = Ok (replicate 32 171)" "hash32 f lower_hash = Ok (replicate 32 171)"
  unfolding hash32_def upper_hash_def lower_hash_def strip_prefix_append
  by (simp_all only: option.case length_concat hex_decode_AB map_replicate sum_list_replicate bindR_Inr ok_or_simps)
     (simp_all add: hex_decode_AB)

lemma demo_hash_bytes: "hash_bytes upper_hash = hash_bytes lower_hash"
  using hash32_Ok demo_hash32 by metis

lemma demo_settlement_digest:
  "\<exists>d. settlement_digest toy_keccak (demo_settlement upper_hash) = Ok d
     \<and> settlement_digest toy_keccak (demo_settlement lower_hash) = Ok d"
proof -
  have "settlement_fields_ok (demo_settlement upper_hash)" "settlement_fields_ok (demo_settlement lower_hash)"
    by (simp_all add: settlement_fields_ok_def demo_settlement_def demo_hash32 hash32_canonical fits_def)
  moreover have "settlement_hashed toy_keccak (demo_settlement upper_hash) = settlement_hashed toy_keccak (demo_settlement lower_hash)"
    by (simp add: settlement_hashed_def settlement_preimage_def demo_settlement_def demo_hash_bytes del: be_bytes.simps)
  ultimately show ?thesis by (simp add: settlement_digest_Ok)
qed

lemma demo_open_digest:
  "\<exists>d. incident_open_digest toy_keccak (demo_opening upper_hash) = Ok d
     \<and> incident_open_digest toy_keccak (demo_opening lower_hash) = Ok d"
proof -
  have "open_fields_ok (demo_opening upper_hash)" "open_fields_ok (demo_opening lower_hash)"
    by (simp_all add: open_fields_ok_def demo_opening_def demo_hash32 hash32_canonical fits_def)
  moreover have "open_hashed toy_keccak (demo_opening upper_hash) = open_hashed toy_keccak (demo_opening lower_hash)"
    by (simp add: open_hashed_def open_preimage_def demo_opening_def demo_hash_bytes del: be_bytes.simps)
  ultimately show ?thesis by (simp add: incident_open_digest_Ok)
qed

theorem settlement_digest_binding_witness:
  "settlement_content (demo_settlement upper_hash) = settlement_content (demo_settlement lower_hash)
    \<or> collision toy_keccak (settlement_hashed toy_keccak (demo_settlement upper_hash))
        (settlement_hashed toy_keccak (demo_settlement lower_hash))"
proof -
  obtain d where d: "settlement_digest toy_keccak (demo_settlement upper_hash) = Ok d"
    "settlement_digest toy_keccak (demo_settlement lower_hash) = Ok d" using demo_settlement_digest by blast
  have "settlement_wf (demo_settlement r)" for r
    by (simp add: settlement_wf_def demo_settlement_def wf_address_def)
  with d show ?thesis by (intro settlement_digest_binding) (auto simp: toy_keccak_length)
qed

theorem incident_open_digest_binding_witness:
  "open_content (demo_opening upper_hash) = open_content (demo_opening lower_hash)
    \<or> collision toy_keccak (open_hashed toy_keccak (demo_opening upper_hash))
        (open_hashed toy_keccak (demo_opening lower_hash))"
proof -
  obtain d where d: "incident_open_digest toy_keccak (demo_opening upper_hash) = Ok d"
    "incident_open_digest toy_keccak (demo_opening lower_hash) = Ok d" using demo_open_digest by blast
  have wf: "wf_address (od_insured_token (demo_opening r))" for r by (simp add: demo_opening_def wf_address_def)
  from incident_open_digest_binding [OF d(1) toy_keccak_length wf] d(2) wf show ?thesis by blast
qed

end
