(* ===== verification/Settlement_Run.thy ===== *)
theory Settlement_Run
  imports Settlement_Kernel Score_Sources Typed_Data
begin

text \<open>
  The result of a settlement computation and its artifact: the records, predicates and JSON document of
  \<^verbatim>\<open>SettlementRun\<close> (\<^verbatim>\<open>offchain-rust/src/engine.rs\<close>), the independent recomputation \<^verbatim>\<open>verify_run\<close> and the atomic
  file writer of \<^verbatim>\<open>offchain-rust/src/artifact.rs\<close>.  Keccak-256, the JSON printer and parser, the clock and
  the file system are parameters.
\<close>

section \<open>Runs\<close>

definition ZERO_ROOT :: string where
  "ZERO_ROOT = ''0x'' @ replicate 64 CHR ''0''"

definition eq_ignore_ascii_case :: "string \<Rightarrow> string \<Rightarrow> bool" where
  "eq_ignore_ascii_case a b \<longleftrightarrow> to_ascii_lowercase a = to_ascii_lowercase b"

datatype score_source_metadata =
    RawMetadata u64
  | BulkMetadata u64 string nat nat nat
  | CheckpointMetadata string u64 string nat nat

record settlement_run =
  ru_incident_id :: biguint
  ru_incident :: incident
  ru_window_incident :: incident
  ru_latest_incident :: incident
  ru_anchors :: settlement_anchors
  ru_config_hash :: string
  ru_tee_pcr_hash :: string
  ru_pool_order :: "address list"
  ru_pool_addrs :: "address list"
  ru_twap_ratio :: biguint
  ru_underlying_usd :: biguint
  ru_events :: "claim_event list"
  ru_output :: kernel_output
  ru_digest :: string
  ru_score_source :: score_source_metadata
  ru_rpc_metrics :: rpc_metrics
  ru_log_metrics :: log_metrics

definition is_unsettled :: "settlement_run \<Rightarrow> bool" where
  "is_unsettled run \<longleftrightarrow> eq_ignore_ascii_case (in_root (ru_latest_incident run)) ZERO_ROOT"

definition root_matches :: "settlement_run \<Rightarrow> bool" where
  "root_matches run \<longleftrightarrow> eq_ignore_ascii_case (ko_root (ru_output run)) (in_root (ru_latest_incident run))"

section \<open>The artifact document\<close>

abbreviation jnum :: "nat \<Rightarrow> json" where
  "jnum n \<equiv> JInt (int n)"

abbreviation jdec :: "nat \<Rightarrow> json" where
  "jdec n \<equiv> JStr (show_nat n)"

abbreviation jaddr :: "address \<Rightarrow> json" where
  "jaddr a \<equiv> JStr (address_to_string a)"

definition anchor_json :: "block_anchor \<Rightarrow> json" where
  "anchor_json a = JObj [(''number'', jdec (ba_number a)), (''timestamp'', jdec (ba_timestamp a)), (''hash'', JStr (ba_hash a))]"

definition metrics_json :: "rpc_metrics \<Rightarrow> json" where
  "metrics_json m = JObj [(''logicalRequests'', jnum (logical_requests m)), (''transportAttempts'', jnum (transport_attempts m)),
     (''transportResponses'', jnum (transport_responses m)), (''transportRetries'', jnum (transport_retries m))]"

definition log_metrics_json :: "log_metrics \<Rightarrow> json" where
  "log_metrics_json m = JObj [(''requests'', jnum (lm_requests m)), (''bisections'', jnum (lm_bisections m)),
     (''errors'', jnum (lm_errors m)), (''elapsedMs'', jnum (lm_elapsed_ms m))]"

definition artifact_row :: "settlement_run \<Rightarrow> bool \<Rightarrow> settled_row \<Rightarrow> json" where
  "artifact_row run include_proofs row = JObj ([
     (''claimId'', jdec (sr_claim_id row)),
     (''user'', jaddr (sr_user row)),
     (''escrowAmount'', jdec (sr_escrow_amount row)),
     (''eligibleAmount'', jdec (sr_eligible_amount row)),
     (''lossUsd'', jdec (sr_loss_usd row)),
     (''grossEarnedScore'', jdec (sr_gross_earned_score row)),
     (''earnedScore'', jdec (sr_earned_score row)),
     (''scoreSpent'', jdec (sr_score_spent row)),
     (''boostedScore'', jdec (sr_boosted_score row)),
     (''boosterAmount'', jdec (sr_booster_amount row)),
     (''eligibleBoosterAmount'', jdec (sr_eligible_booster_amount row)),
     (''payoutUsd'', jdec (sr_payout_usd row)),
     (''amounts'', JArr (map jdec (sr_amounts row))),
     (''acceptPayoutRecommended'', JBool (list_ex (\<lambda>amount. amount \<noteq> 0) (sr_amounts row)))]
     @ (if include_proofs
        then [(''proof'', JArr (map JStr (case ko_proofs (ru_output run) (sr_claim_id row) of Some p \<Rightarrow> p | None \<Rightarrow> [])))]
        else []))"

fun score_source_json :: "score_source_metadata \<Rightarrow> json" where
  "score_source_json (RawMetadata as_of_block) = JObj [(''kind'', JStr ''raw-rpc''), (''asOfBlock'', jdec as_of_block)]"
| "score_source_json (BulkMetadata as_of_block as_of_block_hash indexed_transfers indexed_tokens tracked_accounts) =
     JObj [(''kind'', JStr ''ephemeral-bulk-rpc''), (''asOfBlock'', jdec as_of_block),
       (''asOfBlockHash'', JStr as_of_block_hash), (''indexedTransfers'', jnum indexed_transfers),
       (''indexedTokens'', jnum indexed_tokens), (''trackedAccounts'', jnum tracked_accounts)]"
| "score_source_json (CheckpointMetadata path as_of_block as_of_block_hash indexed_transfers indexed_tokens) =
     JObj [(''kind'', JStr ''checkpoint''), (''path'', JStr path), (''asOfBlock'', jdec as_of_block),
       (''asOfBlockHash'', JStr as_of_block_hash), (''indexedTransfers'', jnum indexed_transfers),
       (''indexedTokens'', jnum indexed_tokens)]"

definition artifact_config_json :: "settlement_run \<Rightarrow> bootstrap_config \<Rightarrow> json" where
  "artifact_config_json run config = JObj [
     (''version'', JStr (bc_version config)),
     (''chainId'', jdec (bc_chain_id config)),
     (''registry'', jaddr (bc_registry config)),
     (''defiInsurance'', jaddr (bc_defi_insurance config)),
     (''boosterId'', jdec (bc_booster_id config)),
     (''boosterBoostBps'', jdec (bc_booster_boost_bps config)),
     (''assetUsdFeed'', JArr (map (\<lambda>(asset, feed). JArr [jaddr asset, jaddr feed]) (bc_asset_usd_feed config))),
     (''maxOracleStaleness'', jdec (bc_max_oracle_staleness config)),
     (''maxLogRange'', jdec MAX_LOG_RANGE),
     (''logResultCap'', jdec LOG_RESULT_CAP),
     (''anchorBlock'', jdec (ba_number (sa_open (ru_anchors run))))]"

definition artifact :: "settlement_run \<Rightarrow> bootstrap_config \<Rightarrow> bool \<Rightarrow> json" where
  "artifact run config include_proofs = JObj [
     (''schemaVersion'', JInt 2),
     (''configVersion'', JStr (bc_version config)),
     (''configHash'', JStr (ru_config_hash run)),
     (''bootstrapConfig'', artifact_config_json run config),
     (''teePcrHash'', JStr (ru_tee_pcr_hash run)),
     (''claimSetHash'', JStr (ko_claim_set_hash (ru_output run))),
     (''settlementInputHash'', JStr (ko_settlement_input_hash (ru_output run))),
     (''settlementInputRows'', JArr (map (\<lambda>row. JObj [(''user'', jaddr (sr_user row)),
        (''grossEarnedScore'', jdec (sr_gross_earned_score row))]) (ko_rows (ru_output run)))),
     (''chainId'', jnum (bc_chain_id config)),
     (''blockAnchors'', JObj [(''finalizedHead'', anchor_json (sa_finalized_head (ru_anchors run))),
        (''open'', anchor_json (sa_open (ru_anchors run))), (''reference'', anchor_json (sa_reference (ru_anchors run))),
        (''windowEnd'', anchor_json (sa_window_end (ru_anchors run)))]),
     (''rpcMetrics'', metrics_json (ru_rpc_metrics run)),
     (''historicalLogMetrics'', log_metrics_json (ru_log_metrics run)),
     (''scoreSource'', score_source_json (ru_score_source run)),
     (''registry'', jaddr (bc_registry config)),
     (''defiInsurance'', jaddr (bc_defi_insurance config)),
     (''incidentId'', jdec (ru_incident_id run)),
     (''referenceBlock'', jdec (in_reference_block (ru_incident run))),
     (''windowEndBlock'', jdec (ba_number (sa_window_end (ru_anchors run)))),
     (''twapRatio'', jdec (ru_twap_ratio run)),
     (''underlyingUsd'', jdec (ru_underlying_usd run)),
     (''root'', JStr (ko_root (ru_output run))),
     (''onchainRoot'', JStr (in_root (ru_latest_incident run))),
     (''rootMatches'', JBool (root_matches run)),
     (''settlementDigest'', JStr (ru_digest run)),
     (''unresolvedClaims'', jdec (in_unresolved_claims (ru_window_incident run))),
     (''protocolFeeShareBps'', jdec (in_protocol_fee_share_bps (ru_incident run))),
     (''poolOrder'', JArr (map jaddr (ru_pool_order run))),
     (''poolAddrs'', JArr (map jaddr (ru_pool_addrs run))),
     (''poolPayouts'', JArr (map jdec (ko_pool_payouts (ru_output run)))),
     (''rows'', JArr (map (artifact_row run include_proofs) (ko_rows (ru_output run))))]"

section \<open>Error texts\<close>

fun kernel_error_text :: "kernel_error \<Rightarrow> string" where
  "kernel_error_text (JsonError e) = ''invalid JSON: '' @ e"
| "kernel_error_text (InvalidDecimal f v) = ''invalid decimal string for '' @ f @ '': '' @ v"
| "kernel_error_text (InvalidAddress f v) = ''invalid address for '' @ f @ '': '' @ v"
| "kernel_error_text Uint256Overflow = ''value exceeds uint256''"
| "kernel_error_text (DuplicateInputUser a) = ''duplicate settlement input user: '' @ address_to_string a"
| "kernel_error_text (DuplicateClaim c) = ''duplicate claim '' @ show_nat c @ '' in settlement''"
| "kernel_error_text (MissingClaim c) = ''claim '' @ show_nat c @ '' not in settlement''"
| "kernel_error_text EmptyMerkleTree = ''merkle tree requires at least one row''"
| "kernel_error_text (DuplicateRegistration c) = ''duplicate registration for claim '' @ show_nat c"
| "kernel_error_text (UnknownCancellation c) = ''cancellation references unknown claim '' @ show_nat c"
| "kernel_error_text (DuplicateCancellation c) = ''duplicate cancellation for claim '' @ show_nat c"
| "kernel_error_text (DuplicateResolvedClaim c) = ''duplicate resolved claim '' @ show_nat c"
| "kernel_error_text (MissingResolvedClaim c) = ''missing resolved claim '' @ show_nat c"
| "kernel_error_text (UnexpectedResolvedClaim c) = ''resolved claim '' @ show_nat c @ '' is not live in replayed events''"
| "kernel_error_text (ResolvedClaimMismatch c) =
     ''resolved claim does not match replayed registration for claim '' @ show_nat c"
| "kernel_error_text (EventOrder pb pi b i) = ''claim event position is not strictly increasing: ('' @ show_nat pb @ '',''
     @ show_nat pi @ '') then ('' @ show_nat b @ '','' @ show_nat i @ '')''"
| "kernel_error_text (InvalidPolicy e) = ''invalid settlement policy: '' @ e"

fun typed_data_error_text :: "typed_data_error \<Rightarrow> string" where
  "typed_data_error_text (InvalidHash f v) = ''invalid '' @ f @ '': expected 32-byte 0x-prefixed hex, got '' @ v"
| "typed_data_error_text TypedUint256Overflow = ''value exceeds uint256''"

section \<open>Verification of a run\<close>

definition ARTIFACT_MAX_PROTOCOL_FEE_BPS :: nat where "ARTIFACT_MAX_PROTOCOL_FEE_BPS = 2000"

datatype artifact_error =
    ArInvariant string
  | ArIo io_error
  | ArJson string
  | ArCompute string

text \<open>The text of an I/O error is the platform's and a parameter.\<close>

fun artifact_error_text :: "(io_error \<Rightarrow> string) \<Rightarrow> artifact_error \<Rightarrow> string" where
  "artifact_error_text show_io (ArInvariant e) = ''artifact invariant failed: '' @ e"
| "artifact_error_text show_io (ArIo e) = ''artifact I/O failed: '' @ show_io e"
| "artifact_error_text show_io (ArJson e) = ''artifact JSON failed: '' @ e"
| "artifact_error_text show_io (ArCompute e) = ''artifact computation failed: '' @ e"

definition verify_tree :: "(bytes \<Rightarrow> hash) \<Rightarrow> settlement_run \<Rightarrow> (artifact_error, unit) result" where
  "verify_tree keccak run =
     (let out = ru_output run; merkle_rows = map merkle_row_of (ko_rows out) in
      if merkle_rows = []
      then failR_if (ko_root out \<noteq> ''0x'' @ replicate 64 CHR ''0'' \<or> ko_proofs out \<noteq> Map.empty)
             (ArInvariant ''empty settlement root/proofs are noncanonical'')
      else bindR (map_errR (\<lambda>e. ArCompute (kernel_error_text e))
                    (settlement_tree_new keccak (ru_incident_id run) merkle_rows)) (\<lambda>tree.
        bindR (failR_if (\<not> eq_ignore_ascii_case (root_hex tree) (ko_root out))
                 (ArInvariant ''Merkle root does not reproduce'')) (\<lambda>_.
          failR_if (all_proofs_hex tree \<noteq> ko_proofs out) (ArInvariant ''Merkle proofs do not reproduce''))))"

definition gross_up_row :: "nat \<Rightarrow> biguint list \<Rightarrow> settled_row \<Rightarrow> (artifact_error, biguint list) result" where
  "gross_up_row user_share totals row =
     (if length (sr_amounts row) \<noteq> length totals
      then Err (ArInvariant (''claim '' @ show_nat (sr_claim_id row) @ '' payout row length differs from pool count''))
      else Ok (map (\<lambda>(t, amount). t + (amount * BPS) div user_share) (zip totals (sr_amounts row))))"

definition verify_payouts :: "settlement_run \<Rightarrow> (artifact_error, unit) result" where
  "verify_payouts run =
     (let out = ru_output run in
      bindR (failR_if (length (ru_pool_addrs run) \<noteq> length (ko_pool_payouts out))
               (ArInvariant ''pool address/payout arrays have different lengths'')) (\<lambda>_.
      bindR (failR_if (in_protocol_fee_share_bps (ru_incident run) > ARTIFACT_MAX_PROTOCOL_FEE_BPS)
               (ArInvariant ''incident protocol fee share exceeds maximum'')) (\<lambda>_.
      bindR (foldR (gross_up_row (BPS - in_protocol_fee_share_bps (ru_incident run)))
               (replicate (length (ru_pool_addrs run)) 0) (ko_rows out)) (\<lambda>totals.
        failR_if (totals \<noteq> ko_pool_payouts out)
          (ArInvariant ''pool payout totals do not equal grossed row sums'')))))"

definition run_digest_input :: "settlement_run \<Rightarrow> bootstrap_config \<Rightarrow> settlement_digest_input" where
  "run_digest_input run config =
     \<lparr>sd_chain_id = bc_chain_id config, sd_verifying_contract = bc_defi_insurance config,
      sd_incident_id = ru_incident_id run, sd_root = ko_root (ru_output run),
      sd_unresolved_claims = in_unresolved_claims (ru_window_incident run),
      sd_pool_payouts = ko_pool_payouts (ru_output run), sd_pool_addrs = ru_pool_addrs run,
      sd_claim_set = ko_claim_set_hash (ru_output run), sd_tee_pcr_hash = ru_tee_pcr_hash run\<rparr>"

definition verify_run ::
  "(bytes \<Rightarrow> hash) \<Rightarrow> (json \<Rightarrow> string) \<Rightarrow> settlement_run \<Rightarrow> bootstrap_config \<Rightarrow> (artifact_error, unit) result" where
  "verify_run keccak print_json run config =
     (let out = ru_output run in
      bindR (failR_if (\<not> eq_ignore_ascii_case (config_hash keccak print_json config) (ru_config_hash run))
               (ArInvariant ''config hash does not reproduce'')) (\<lambda>_.
      bindR (map_errR (\<lambda>e. ArCompute (kernel_error_text e)) (claim_set_hash keccak (ru_events run))) (\<lambda>replayed.
      bindR (failR_if (\<not> eq_ignore_ascii_case replayed (ko_claim_set_hash out))
               (ArInvariant ''claim-set hash does not reproduce'')) (\<lambda>_.
      bindR (map_errR (\<lambda>e. ArCompute (kernel_error_text e))
               (settlement_input_hash keccak (map (\<lambda>row. (sr_user row, sr_gross_earned_score row)) (ko_rows out)))) (\<lambda>input_hash.
      bindR (failR_if (\<not> eq_ignore_ascii_case input_hash (ko_settlement_input_hash out))
               (ArInvariant ''settlement input hash does not reproduce'')) (\<lambda>_.
      bindR (verify_tree keccak run) (\<lambda>_.
      bindR (verify_payouts run) (\<lambda>_.
      bindR (map_errR (\<lambda>e. ArCompute (typed_data_error_text e)) (settlement_digest keccak (run_digest_input run config))) (\<lambda>digest.
        failR_if (\<not> eq_ignore_ascii_case digest (ru_digest run))
          (ArInvariant ''settlement digest does not reproduce''))))))))))"

section \<open>Atomic artifact files\<close>

text \<open>The path functions and directory test that the writer uses beside the file operations of the checkpoint.\<close>

record 'w artifact_files = "'w files" +
  af_parent :: "string \<Rightarrow> string option"
  af_is_dir :: "string \<Rightarrow> 'w \<Rightarrow> bool"
  af_file_name :: "string \<Rightarrow> string option"
  af_with_file_name :: "string \<Rightarrow> string \<Rightarrow> string"
  af_to_vec_pretty :: "json \<Rightarrow> (string, bytes) result"
  af_from_slice :: "bytes \<Rightarrow> (string, json) result"

definition temp_path :: "('w, 'y) artifact_files_scheme \<Rightarrow> string \<Rightarrow> ('w, artifact_error, string) act" where
  "temp_path fs path =
     bindA (liftR (ok_or (ArInvariant ''output path has no file name'') (af_file_name fs path))) (\<lambda>file_name.
     bindA (getsA (fs_now_nanos fs)) (\<lambda>now.
     bindA (liftR (ok_or (ArInvariant ''system clock is before epoch'') now)) (\<lambda>nonce.
       retA (af_with_file_name fs path (''.'' @ file_name @ ''.'' @ show_nat (fs_process_id fs) @ ''.''
         @ show_nat nonce @ ''.tmp'')))))"

definition artifact_parent :: "('w, 'y) artifact_files_scheme \<Rightarrow> string \<Rightarrow> string" where
  "artifact_parent fs path = (case af_parent fs path of Some p \<Rightarrow> if p = [] then ''.'' else p | None \<Rightarrow> ''.'')"

definition replace_file ::
  "('w, 'y) artifact_files_scheme \<Rightarrow> string \<Rightarrow> json \<Rightarrow> bytes \<Rightarrow> string \<Rightarrow> ('w, artifact_error, unit) act" where
  "replace_file fs path value bytes temporary =
     bindA (map_errA ArIo (fs_create_new fs temporary)) (\<lambda>_.
     bindA (map_errA ArIo (fs_write_sync fs temporary bytes)) (\<lambda>_.
     bindA (map_errA ArIo (fs_rename fs temporary path)) (\<lambda>_.
     bindA (map_errA ArIo (fs_sync_dir fs (artifact_parent fs path))) (\<lambda>_.
     bindA (map_errA ArIo (fs_open_read fs path)) (\<lambda>(_, persisted).
     bindA (guardA (persisted \<noteq> bytes)
              (ArInvariant ''atomic artifact read-back differs from serialized bytes'')) (\<lambda>_.
     bindA (liftR (map_errR ArJson (af_from_slice fs persisted))) (\<lambda>parsed.
       guardA (parsed \<noteq> value)
         (ArInvariant ''atomic artifact JSON read-back differs from source value''))))))))"

definition write_atomic_json ::
  "('w, 'y) artifact_files_scheme \<Rightarrow> string \<Rightarrow> json \<Rightarrow> ('w, artifact_error, unit) act" where
  "write_atomic_json fs path value =
     bindA (getsA (af_is_dir fs (artifact_parent fs path))) (\<lambda>is_dir.
     bindA (guardA (\<not> is_dir) (ArInvariant (''output directory does not exist: '' @ artifact_parent fs path))) (\<lambda>_.
     bindA (liftR (map_errR ArJson (af_to_vec_pretty fs value))) (\<lambda>pretty.
     bindA (temp_path fs path) (\<lambda>temporary.
       let bytes = pretty @ [0x0A] in
       cleanupA (replace_file fs path value bytes temporary) (fs_remove fs temporary)))))"

section \<open>What a verified run guarantees\<close>

lemma verify_tree_Ok:
  "verify_tree keccak run = Ok u \<longleftrightarrow>
     (if ko_rows (ru_output run) = [] then ko_root (ru_output run) = ZERO_ROOT \<and> ko_proofs (ru_output run) = Map.empty
      else \<exists>tree. settlement_tree_new keccak (ru_incident_id run) (map merkle_row_of (ko_rows (ru_output run))) = Ok tree
        \<and> eq_ignore_ascii_case (root_hex tree) (ko_root (ru_output run))
        \<and> ko_proofs (ru_output run) = all_proofs_hex tree)"
  by (auto simp: verify_tree_def Let_def ZERO_ROOT_def bindR_eq_Inr)

lemma gross_up_rows:
  "foldR (gross_up_row us) ts rows = Ok ts' \<longleftrightarrow> (\<forall>r \<in> set rows. length (sr_amounts r) = length ts)
     \<and> length ts' = length ts
     \<and> (\<forall>i < length ts. ts' ! i = ts ! i + (\<Sum>r\<leftarrow>rows. (sr_amounts r ! i * BPS) div us))"
proof (induction rows arbitrary: ts)
  case Nil
  show ?case by (auto intro: nth_equalityI)
next
  case (Cons r rows)
  show ?case
  proof (cases "length (sr_amounts r) = length ts")
    case True
    then have "gross_up_row us ts r = Ok (map2 (\<lambda>t amount. t + (amount * BPS) div us) ts (sr_amounts r))"
      by (simp add: gross_up_row_def)
    with True show ?thesis by (simp add: Cons.IH add.assoc)
  qed (auto simp: gross_up_row_def)
qed

lemma verify_payouts_Ok:
  "verify_payouts run = Ok u \<longleftrightarrow> length (ko_pool_payouts (ru_output run)) = length (ru_pool_addrs run)
     \<and> in_protocol_fee_share_bps (ru_incident run) \<le> 2000
     \<and> (\<forall>r \<in> set (ko_rows (ru_output run)). length (sr_amounts r) = length (ru_pool_addrs run))
     \<and> (\<forall>i < length (ru_pool_addrs run). ko_pool_payouts (ru_output run) ! i
          = (\<Sum>r\<leftarrow>ko_rows (ru_output run). (sr_amounts r ! i * BPS) div (BPS - in_protocol_fee_share_bps (ru_incident run))))"
  unfolding verify_payouts_def Let_def
  by (auto simp: bindR_eq_Inr gross_up_rows ARTIFACT_MAX_PROTOCOL_FEE_BPS_def not_less)

lemma verify_run_Ok:
  "verify_run keccak print_json run config = Ok u \<longleftrightarrow>
     eq_ignore_ascii_case (config_hash keccak print_json config) (ru_config_hash run)
     \<and> (\<exists>h. claim_set_hash keccak (ru_events run) = Ok h \<and> eq_ignore_ascii_case h (ko_claim_set_hash (ru_output run)))
     \<and> (\<exists>h. settlement_input_hash keccak (map (\<lambda>row. (sr_user row, sr_gross_earned_score row)) (ko_rows (ru_output run))) = Ok h
          \<and> eq_ignore_ascii_case h (ko_settlement_input_hash (ru_output run)))
     \<and> verify_tree keccak run = Ok () \<and> verify_payouts run = Ok ()
     \<and> (\<exists>d. settlement_digest keccak (run_digest_input run config) = Ok d \<and> eq_ignore_ascii_case d (ru_digest run))"
  unfolding verify_run_def Let_def by (auto simp: bindR_eq_Inr)

lemma eq_ignore_case_refl [simp]: "eq_ignore_ascii_case a a"
  by (simp add: eq_ignore_ascii_case_def)

text \<open>Each row of a verified run has a proof that verifies against the root of its run.\<close>

lemma verify_tree_proofs:
  assumes "verify_tree keccak run = Ok u" "row \<in> set (ko_rows (ru_output run))"
  obtains root leaf ps where "eq_ignore_ascii_case (hash_hex root) (ko_root (ru_output run))"
    "standard_leaf_hash keccak (ru_incident_id run) (merkle_row_of row) = Ok leaf"
    "ko_proofs (ru_output run) (sr_claim_id row) = Some (map hash_hex ps)" "verify_proof keccak root ps leaf"
proof -
  have "ko_rows (ru_output run) \<noteq> []" using assms(2) by auto
  with assms(1) obtain tree where t: "settlement_tree_new keccak (ru_incident_id run) (map merkle_row_of (ko_rows (ru_output run))) = Ok tree"
    "eq_ignore_ascii_case (root_hex tree) (ko_root (ru_output run))" "ko_proofs (ru_output run) = all_proofs_hex tree"
    by (auto simp: verify_tree_Ok)
  have "merkle_row_of row \<in> set (map merkle_row_of (ko_rows (ru_output run)))" using assms(2) by simp
  from settlement_proofs_verify [OF t(1) this] obtain leaf ps where
    p: "standard_leaf_hash keccak (ru_incident_id run) (merkle_row_of row) = Ok leaf"
      "st_proofs tree (mr_claim_id (merkle_row_of row)) = Some ps" "verify_proof keccak (st_root tree) ps leaf" by blast
  moreover have "ko_proofs (ru_output run) (sr_claim_id row) = Some (map hash_hex ps)"
    using p(2) by (simp add: t(3) all_proofs_hex_def merkle_row_of_def)
  ultimately show ?thesis using t(2) by (intro that) (auto simp: root_hex_def)
qed

lemma allocate_pool_payouts:
  assumes "allocate keccak input = Ok out" "i < length (ki_pools input)"
  shows "length (ko_pool_payouts out) = length (ki_pools input)"
    "ko_pool_payouts out ! i = (\<Sum>r\<leftarrow>ko_rows out. (sr_amounts r ! i * BPS) div user_share_bps input)"
proof -
  let ?rows = "pay_rows input (map (settle_claim input) (ki_claims input))"
  have out: "ko_rows out = map (\<lambda>r. r\<lparr>sr_amounts := row_amounts input r\<rparr>) ?rows"
    using allocate_Ok(2) [OF assms(1)] by (simp add: settled_rows_def split_rows_fst)
  note split = split_rows_snd [of "replicate (length (ki_pools input)) 0" input i ?rows]
  show "length (ko_pool_payouts out) = length (ki_pools input)"
    using split assms(2) allocate_Ok(3) [OF assms(1)] by (simp add: settled_rows_def)
  show "ko_pool_payouts out ! i = (\<Sum>r\<leftarrow>ko_rows out. (sr_amounts r ! i * BPS) div user_share_bps input)"
    using split assms(2) allocate_Ok(3) [OF assms(1)] by (simp add: settled_rows_def out comp_def gross_out_def [abs_def])
qed

lemma allocate_no_pools:
  assumes "allocate keccak input = Ok out" "ki_pools input = []"
  shows "ko_pool_payouts out = []"
proof -
  have "snd (split_rows input [] rows) = []" for rows
    by (induction input "[] :: nat list" rows rule: split_rows.induct) (auto simp: Let_def split: prod.splits)
  then show ?thesis using allocate_Ok(3) [OF assms(1)] assms(2) by (simp add: settled_rows_def)
qed

lemma allocate_row_amounts:
  "allocate keccak input = Ok out \<Longrightarrow> r \<in> set (ko_rows out) \<Longrightarrow> length (sr_amounts r) = length (ki_pools input)"
  using allocate_Ok(2) [of keccak input out] by (auto simp: settled_rows_def split_rows_fst)

lemma allocate_with_events_rows:
  assumes "allocate_with_events keccak input es = Ok out"
  shows "map sr_claim_id (ko_rows out) = live_ids es"
proof -
  let ?in = "input\<lparr>ki_claims := ordered_claims es (ki_claims input)\<rparr>"
  obtain h o' where "resolves es (ki_claims input)" "allocate keccak ?in = Ok o'" "out = o'\<lparr>ko_claim_set_hash := h\<rparr>"
    using assms by (auto simp: allocate_with_events_Ok)
  then show ?thesis using allocate_Ok(2) [of keccak ?in o'] ordered_claims_ids [of es "ki_claims input"]
    by (simp add: settled_rows_fst comp_def)
qed

lemma allocate_empty_tree:
  "allocate keccak input = Ok out \<Longrightarrow> ki_claims input = [] \<Longrightarrow> ko_root out = ZERO_ROOT \<and> ko_proofs out = Map.empty"
  by (auto simp: allocate_def split_def Let_def settled_rows_fst ZERO_ROOT_def)

text \<open>The parts of a run that come from its kernel input.\<close>

definition run_of_input :: "kernel_input \<Rightarrow> settlement_run \<Rightarrow> bool" where
  "run_of_input input run \<longleftrightarrow> ki_incident_id input = ru_incident_id run
     \<and> ki_protocol_fee_share_bps input = in_protocol_fee_share_bps (ru_incident run)
     \<and> length (ki_pools input) = length (ru_pool_addrs run)"

lemma verify_kernel_output:
  assumes "allocate_with_events keccak input (ru_events run) = Ok (ru_output run)" "run_of_input input run"
    "ru_config_hash run = config_hash keccak print_json config"
    "settlement_digest keccak (run_digest_input run config) = Ok (ru_digest run)"
  shows "verify_run keccak print_json run config = Ok ()"
proof -
  let ?in = "input\<lparr>ki_claims := ordered_claims (ru_events run) (ki_claims input)\<rparr>"
  from assms(1) obtain h out where h: "claim_set_hash keccak (ru_events run) = Ok h"
    and out: "allocate keccak ?in = Ok out" and eq: "ru_output run = out\<lparr>ko_claim_set_hash := h\<rparr>"
    by (auto simp: allocate_with_events_Ok)
  note ok = allocate_Ok [OF out]
  have users: "map (\<lambda>row. (sr_user row, sr_gross_earned_score row)) (ko_rows out)
      = map (\<lambda>c. (ci_user c, ci_gross_earned_score c)) (ki_claims ?in)"
    by (simp add: ok(2) settled_rows_fst comp_def)
  have rows: "ko_rows out = [] \<longleftrightarrow> ki_claims ?in = []" by (simp add: ok(2) settled_rows_fst)
  have tree: "verify_tree keccak run = Ok ()"
    using allocate_empty_tree [OF out] ok(5) rows assms(2) by (auto simp: verify_tree_Ok eq run_of_input_def)
  have fee: "in_protocol_fee_share_bps (ru_incident run) \<le> 2000"
    using ok(1) assms(2) by (simp add: validate_policy_Ok run_of_input_def)
  have pools: "length (ko_pool_payouts out) = length (ru_pool_addrs run)"
    using allocate_no_pools [OF out] allocate_pool_payouts(1) [OF out, of 0] assms(2)
    by (cases "ki_pools input") (auto simp: run_of_input_def)
  have "verify_payouts run = Ok ()"
    unfolding verify_payouts_Ok
    using allocate_pool_payouts(2) [OF out] allocate_row_amounts [OF out] fee pools assms(2)
    by (auto simp: eq run_of_input_def user_share_bps_def)
  with tree h assms(3,4) ok(4) show ?thesis by (auto simp: verify_run_Ok eq users)
qed


section \<open>Witness\<close>

lemma settlement_root_length:
  assumes "settlement_tree_new keccak i rows = Ok t" "\<And>x. length (keccak x) = 32"
  shows "length (st_root t) = 32"
proof (rule settlement_tree_new_parts [OF assms(1)])
  fix leaves
  assume l: "leaves \<noteq> []" "\<forall>l \<in> set leaves. \<exists>r \<in> set rows. leaf_of keccak i r l" "st_root t = tree_nodes keccak leaves ! 0"
  have "\<forall>l \<in> set leaves. length (fst l) = 32" using l(2) leaf_of_length assms(2) by blast
  moreover have "0 < length (tree_nodes keccak leaves)"
    using tree_nodes_heap(1) [OF l(1), of keccak] l(1) by (auto simp: std_tree.heap_tree_def neq_Nil_conv)
  ultimately show ?thesis using tree_node_length [OF l(1)] assms(2) l(3) by simp
qed

lemma claim_set_hash_form:
  assumes "claim_set_hash keccak es = Ok h" "\<And>x. length (keccak x) = 32"
  obtains b where "h = hash_hex b" "length b = 32"
proof -
  have "claim_set_accumulator keccak a es = Ok b \<Longrightarrow> length a = 32 \<Longrightarrow> length b = 32" for a b
    using assms(2) by (induction es arbitrary: a) (auto simp: claim_set_accumulator_def)
  then show ?thesis using assms(1) that by (auto simp: claim_set_hash_def Encoding.ZERO_HASH_def)
qed

lemma allocate_root_form:
  assumes "allocate keccak input = Ok out" "\<And>x. length (keccak x) = 32"
  obtains b where "ko_root out = hash_hex b" "length b = 32"
proof (cases "ki_claims input = []")
  case True
  have "hex_char 0 = CHR ''0''" by code_simp
  then have "hex_encode (replicate n 0) = replicate (2 * n) CHR ''0''" for n
    by (induction n) simp_all
  from this [of 32] have "ZERO_ROOT = hash_hex (replicate 32 0)" by (simp add: ZERO_ROOT_def hash_hex_def)
  with True show ?thesis using allocate_empty_tree [OF assms(1)] by (intro that) auto
next
  case False
  then show ?thesis using allocate_Ok(5) [OF assms(1)] settlement_root_length assms(2) that
    by (auto simp: root_hex_def)
qed

definition demo_incident :: incident where
  "demo_incident = \<lparr>in_insured_token = Address (replicate 20 3), in_resolved_at = 0, in_reference_block = 2, in_open_block = 3,
     in_phase_deadline = 48, in_root = ZERO_ROOT, in_unresolved_claims = 2, in_claim_set_hash = ZERO_ROOT,
     in_tee_pcr_hash = hash_hex (replicate 32 9), in_protocol_fee_share_bps = 1000\<rparr>"

definition demo_config :: bootstrap_config where
  "demo_config = \<lparr>bc_version = CONFIG_VERSION, bc_chain_id = 1, bc_registry = Address (replicate 20 1),
     bc_defi_insurance = Address (replicate 20 2), bc_booster_id = 1, bc_booster_boost_bps = 100,
     bc_asset_usd_feed = [(Address (replicate 20 4), Address (replicate 20 5))], bc_max_oracle_staleness = 3600\<rparr>"

definition demo_run :: "kernel_output \<Rightarrow> string \<Rightarrow> string \<Rightarrow> settlement_run" where
  "demo_run out conf digest = \<lparr>ru_incident_id = 1, ru_incident = demo_incident, ru_window_incident = demo_incident,
     ru_latest_incident = demo_incident,
     ru_anchors = \<lparr>sa_reference = demo_block 2, sa_open = demo_block 3, sa_window_end = demo_block 4, sa_finalized_head = demo_block 5\<rparr>,
     ru_config_hash = conf, ru_tee_pcr_hash = hash_hex (replicate 32 9), ru_pool_order = [Address (replicate 20 4)],
     ru_pool_addrs = [Address (replicate 20 6)], ru_twap_ratio = 1, ru_underlying_usd = 2, ru_events = demo_stream,
     ru_output = out, ru_digest = digest, ru_score_source = RawMetadata 1,
     ru_rpc_metrics = \<lparr>logical_requests = 0, transport_attempts = 0, transport_responses = 0, transport_retries = 0\<rparr>,
     ru_log_metrics = default_log_metrics\<rparr>"

lemma demo_keccak_length: "length (demo_keccak x) = 32"
  by (simp add: demo_keccak_def)

lemma demo_output_digest:
  assumes "allocate_with_events demo_keccak demo_input demo_stream = Ok out"
  shows "\<exists>d. settlement_digest demo_keccak (run_digest_input (demo_run out conf digest) demo_config) = Ok d"
proof -
  from assms demo_stream_resolves(2) obtain h out' where h: "claim_set_hash demo_keccak demo_stream = Ok h"
    and out': "allocate demo_keccak demo_input = Ok out'" and eq: "out = out'\<lparr>ko_claim_set_hash := h\<rparr>"
    by (auto simp: allocate_with_events_Ok)
  obtain r c where "ko_root out' = hash_hex r" "length r = 32" "h = hash_hex c" "length c = 32"
    by (meson allocate_root_form [OF out' demo_keccak_length] claim_set_hash_form [OF h demo_keccak_length])
  moreover have "fits (ko_pool_payouts out' ! 0)" "length (ko_pool_payouts out') = 1"
  proof -
    have p: "ko_pool_payouts out' = snd (settled_rows demo_input)" by (rule allocate_Ok(3) [OF out'])
    have len: "0 < length (ki_pools demo_input)" by (simp add: demo_input_def)
    have rows: "map sr_amounts (ko_rows out') = [[53], [0]]"
      using arg_cong [OF demo_rows, of "map mr_amounts"] allocate_Ok(2) [OF out'] by (simp add: comp_def merkle_row_of_def)
    then have "map (\<lambda>r. (sr_amounts r ! 0 * BPS) div user_share_bps demo_input) (ko_rows out')
        = map (\<lambda>a. (a ! 0 * BPS) div user_share_bps demo_input) [[53], [0]]"
      by (metis (no_types, lifting) map_map comp_apply map_cong)
    then have "ko_pool_payouts out' ! 0 = 58"
      using allocate_pool_payouts(2) [OF out' len] by (simp add: user_share_bps_def demo_input_def BPS_def)
    then show "fits (ko_pool_payouts out' ! 0)" by (simp add: fits_def)
    show "length (ko_pool_payouts out') = 1" using allocate_pool_payouts(1) [OF out' len] by (simp add: demo_input_def)
  qed
  ultimately have "settlement_fields_ok (run_digest_input (demo_run out conf digest) demo_config)"
    by (auto simp: settlement_fields_ok_def run_digest_input_def demo_run_def demo_config_def demo_incident_def eq
        hash32_canonical fits_def length_Suc_conv list_all_iff)
  then show ?thesis by (simp add: settlement_digest_Ok)
qed


end
