(* ===== verification/Engine.thy ===== *)
theory Engine
  imports Settlement_Run
begin

text \<open>
  The settlement engine (\<^verbatim>\<open>offchain-rust/src/engine.rs\<close>): derivation of the configuration from the registry and
  \<^verbatim>\<open>build_settlement\<close>, cut into the stages of its body.  Every read goes through the provider, and the score
  sources of the checkpoint module supply the scores in the mode the caller selects.  Errors of the stages
  keep their order; the lock of an opened checkpoint is released on every error after the opening.
\<close>

section \<open>Modes and errors\<close>

datatype score_mode =
    RawMode
  | BulkMode
  | CheckpointMode string bytes

datatype engine_error =
    EnChain chain_error
  | EnCheckpoint checkpoint_error
  | EnConfig config_error
  | EnKernel kernel_error
  | EnTypedData typed_data_error
  | EnInvariant string

text \<open>\<^verbatim>\<open>Debug\<close> of a mode never shows the integrity key; the text of a path is the library's.\<close>

fun score_mode_debug :: "(string \<Rightarrow> string) \<Rightarrow> score_mode \<Rightarrow> string" where
  "score_mode_debug show_path RawMode = ''Raw''"
| "score_mode_debug show_path BulkMode = ''Bulk''"
| "score_mode_debug show_path (CheckpointMode path integrity_key) =
     ''Checkpoint { path: '' @ show_path path @ '', integrity_key: '' @ [CHR 0x22] @ ''[REDACTED]'' @ [CHR 0x22] @ '' }''"

definition code_at :: "('w, 'z) rpc_scheme \<Rightarrow> address \<Rightarrow> string \<Rightarrow> u64 \<Rightarrow> ('w, engine_error, unit) act" where
  "code_at rpc addr label block_number =
     map_errA EnChain (assert_contract_code_at rpc (address_to_string addr) label block_number)"

text \<open>The derived \<^verbatim>\<open>Debug\<close> text of an incident, used in one message.\<close>

definition quoted :: "string \<Rightarrow> string" where
  "quoted s = [CHR 0x22] @ s @ [CHR 0x22]"

fun byte_list_text :: "bytes \<Rightarrow> string" where
  "byte_list_text [] = []"
| "byte_list_text [b] = show_nat (unat b)"
| "byte_list_text (b # bs) = show_nat (unat b) @ '', '' @ byte_list_text bs"

definition incident_debug :: "incident \<Rightarrow> string" where
  "incident_debug i = ''Incident { insured_token: Address(['' @ byte_list_text (as_slice (in_insured_token i))
     @ '']), resolved_at: '' @ show_nat (in_resolved_at i) @ '', reference_block: '' @ show_nat (in_reference_block i)
     @ '', open_block: '' @ show_nat (in_open_block i) @ '', phase_deadline: '' @ show_nat (in_phase_deadline i)
     @ '', root: '' @ quoted (in_root i) @ '', unresolved_claims: '' @ show_nat (in_unresolved_claims i)
     @ '', claim_set_hash: '' @ quoted (in_claim_set_hash i) @ '', tee_pcr_hash: '' @ quoted (in_tee_pcr_hash i)
     @ '', protocol_fee_share_bps: '' @ show_nat (in_protocol_fee_share_bps i) @ '' }''"

definition assert_incident_anchors :: "incident \<Rightarrow> incident \<Rightarrow> (engine_error, unit) result" where
  "assert_incident_anchors provisional finalized =
     failR_if (in_insured_token provisional \<noteq> in_insured_token finalized
       \<or> in_reference_block provisional \<noteq> in_reference_block finalized
       \<or> in_open_block provisional \<noteq> in_open_block finalized
       \<or> in_protocol_fee_share_bps provisional \<noteq> in_protocol_fee_share_bps finalized)
     (EnInvariant (''provisional incident anchors differ from finalized state: provisional='' @ incident_debug provisional
        @ '', finalized='' @ incident_debug finalized))"

definition wrong_chain :: "u64 \<Rightarrow> u64 \<Rightarrow> engine_error" where
  "wrong_chain actual expected =
     EnInvariant (''wrong chain: RPC reports '' @ show_nat actual @ '', expected '' @ show_nat expected)"

definition no_incident :: "biguint \<Rightarrow> engine_error" where
  "no_incident incident_id = EnInvariant (''incident '' @ show_nat incident_id @ '' does not exist'')"

definition settlement_config_from_registry ::
  "('w, 'z) rpc_scheme \<Rightarrow> abi \<Rightarrow> address \<Rightarrow> biguint \<Rightarrow> ('w, engine_error, bootstrap_config) act" where
  "settlement_config_from_registry rpc abi registry incident_id =
     bindA (map_errA EnChain (chain_id rpc)) (\<lambda>actual_chain.
     bindA (guardA (actual_chain \<noteq> CHAIN_ID) (wrong_chain actual_chain CHAIN_ID)) (\<lambda>_.
     bindA (map_errA EnChain (defi_insurance_at rpc abi registry None)) (\<lambda>defi_insurance.
     bindA (guardA (is_zero defi_insurance) (EnInvariant ''Registry defiInsurance is zero'')) (\<lambda>_.
     bindA (map_errA EnChain (incident_at rpc abi defi_insurance incident_id None)) (\<lambda>inc.
     bindA (guardA (is_zero (in_insured_token inc)) (no_incident incident_id)) (\<lambda>_.
       map_errA EnChain (derive_bootstrap_config_at rpc abi registry defi_insurance (in_open_block inc))))))))"

section \<open>Stage 1: the incident and its anchors\<close>

definition check_phase :: "u64 \<Rightarrow> settlement_anchors \<Rightarrow> (engine_error, unit) result" where
  "check_phase claim_deadline anchors =
     bindR (ok_or (EnInvariant ''invalid snapshotted incident phase window'')
       (case checked_sub64 claim_deadline (ba_timestamp (sa_open anchors)) of
          None \<Rightarrow> None | Some window \<Rightarrow> if window \<noteq> 0 then Some window else None)) (\<lambda>phase_window.
     bindR (ok_or (EnInvariant ''settlement deadline overflow'') (checked_add64 claim_deadline phase_window)) (\<lambda>settlement_deadline.
     let now = ba_timestamp (sa_finalized_head anchors) in
     bindR (failR_if (now \<le> claim_deadline)
       (EnInvariant (''settlement phase is not open: finalized timestamp '' @ show_nat now
          @ '' is not after claim deadline '' @ show_nat claim_deadline))) (\<lambda>_.
     failR_if (now > settlement_deadline)
       (EnInvariant (''settlement phase expired: finalized timestamp '' @ show_nat now
          @ '' exceeds deadline '' @ show_nat settlement_deadline)))))"

record opened_incident =
  oi_provisional :: incident
  oi_claim_deadline :: u64
  oi_anchors :: settlement_anchors
  oi_tee_pcr_hash :: string

definition open_incident ::
  "('w, 'z) rpc_scheme \<Rightarrow> abi \<Rightarrow> bootstrap_config \<Rightarrow> biguint \<Rightarrow> ('w, engine_error, opened_incident) act" where
  "open_incident rpc abi config incident_id =
     bindA (map_errA EnChain (chain_id rpc)) (\<lambda>actual_chain.
     bindA (guardA (actual_chain \<noteq> bc_chain_id config) (wrong_chain actual_chain (bc_chain_id config))) (\<lambda>_.
     bindA (map_errA EnChain (incident_at rpc abi (bc_defi_insurance config) incident_id None)) (\<lambda>provisional.
     bindA (guardA (is_zero (in_insured_token provisional)) (no_incident incident_id)) (\<lambda>_.
     bindA (map_errA EnChain (incident_claim_deadline_at rpc abi (bc_defi_insurance config) incident_id
              (in_open_block provisional))) (\<lambda>claim_deadline.
     bindA (map_errA EnChain (finalized_settlement_anchors rpc (in_reference_block provisional)
              (in_open_block provisional) claim_deadline)) (\<lambda>anchors.
     bindA (if eq_ignore_ascii_case (in_root provisional) ZERO_ROOT then liftR (check_phase claim_deadline anchors)
            else retA ()) (\<lambda>_.
     bindA (map_errA EnChain (incident_at rpc abi (bc_defi_insurance config) incident_id
              (Some (ba_number (sa_finalized_head anchors))))) (\<lambda>finalized_incident.
     bindA (liftR (assert_incident_anchors provisional finalized_incident)) (\<lambda>_.
     bindA (code_at rpc (bc_registry config) ''Registry'' (in_open_block provisional)) (\<lambda>_.
     bindA (map_errA EnChain (incident_tee_pcr_hash_at rpc abi (bc_defi_insurance config) incident_id
              (in_open_block provisional))) (\<lambda>tee_pcr_hash.
     bindA (code_at rpc (bc_defi_insurance config) ''DefiInsurance'' (in_open_block provisional)) (\<lambda>_.
     bindA (code_at rpc (in_insured_token provisional) ''insured token'' (in_open_block provisional)) (\<lambda>_.
       retA \<lparr>oi_provisional = provisional, oi_claim_deadline = claim_deadline, oi_anchors = anchors,
             oi_tee_pcr_hash = tee_pcr_hash\<rparr>)))))))))))))"

section \<open>Stage 2: the claim stream\<close>

record claim_window =
  cw_events :: "claim_event list"
  cw_metrics :: log_metrics
  cw_incident :: incident
  cw_replay :: claim_set_replay

definition check_window ::
  "(bytes \<Rightarrow> hash) \<Rightarrow> opened_incident \<Rightarrow> claim_event list \<Rightarrow> incident \<Rightarrow> (engine_error, claim_set_replay) result" where
  "check_window keccak oi events window_incident =
     bindR (assert_incident_anchors (oi_provisional oi) window_incident) (\<lambda>_.
     bindR (failR_if (in_phase_deadline window_incident \<noteq> oi_claim_deadline oi)
       (EnInvariant (''historical claim deadline mismatch: reconstructed '' @ show_nat (oi_claim_deadline oi)
          @ '', on-chain '' @ show_nat (in_phase_deadline window_incident)))) (\<lambda>_.
     bindR (map_errR EnKernel (replay_claim_set keccak events)) (\<lambda>replay.
     bindR (failR_if (unresolved_claims replay \<noteq> in_unresolved_claims window_incident)
       (EnInvariant (''unresolved claim count mismatch: replayed '' @ show_nat (unresolved_claims replay)
          @ '', on-chain '' @ show_nat (in_unresolved_claims window_incident)))) (\<lambda>_.
     bindR (failR_if (\<not> eq_ignore_ascii_case (replay_hash replay) (in_claim_set_hash window_incident))
       (EnInvariant (''claim-set hash mismatch: replayed '' @ replay_hash replay
          @ '', on-chain '' @ in_claim_set_hash window_incident))) (\<lambda>_.
     Ok replay)))))"

definition read_window ::
  "('w, 'z) rpc_scheme \<Rightarrow> abi \<Rightarrow> events \<Rightarrow> (bytes \<Rightarrow> hash) \<Rightarrow> bootstrap_config \<Rightarrow> biguint \<Rightarrow> opened_incident
    \<Rightarrow> ('w, engine_error, claim_window) act" where
  "read_window rpc abi ev keccak config incident_id oi =
     bindA (map_errA EnChain (read_input_events rpc ev (bc_defi_insurance config) incident_id
              (in_open_block (oi_provisional oi)) (ba_number (sa_window_end (oi_anchors oi)))
              MAX_LOG_RANGE LOG_RESULT_CAP)) (\<lambda>(events, event_metrics).
     bindA (map_errA EnChain (incident_at rpc abi (bc_defi_insurance config) incident_id
              (Some (ba_number (sa_window_end (oi_anchors oi)))))) (\<lambda>window_incident.
     bindA (liftR (check_window keccak oi events window_incident)) (\<lambda>replay.
       retA \<lparr>cw_events = events, cw_metrics = event_metrics, cw_incident = window_incident, cw_replay = replay\<rparr>)))"

section \<open>Stage 3: policy, pools and prices\<close>

definition check_pool_code ::
  "('w, 'z) rpc_scheme \<Rightarrow> bootstrap_config \<Rightarrow> u64 \<Rightarrow> u64 \<Rightarrow> nat \<times> address \<times> address \<Rightarrow> ('w, engine_error, unit) act" where
  "check_pool_code rpc config open_block window_end entry =
     (let (index, asset, pool) = entry in
      bindA (liftR (map_errR EnConfig (asset_feed config asset))) (\<lambda>feed.
      bindA (code_at rpc pool (''cover pool '' @ show_nat index) open_block) (\<lambda>_.
      bindA (code_at rpc asset (''pool asset '' @ show_nat index) window_end) (\<lambda>_.
        code_at rpc feed (''USD feed for pool asset '' @ show_nat index) window_end))))"

definition check_config_code ::
  "('w, 'z) rpc_scheme \<Rightarrow> opened_incident \<Rightarrow> incident_config \<Rightarrow> ('w, engine_error, unit) act" where
  "check_config_code rpc oi incident_config =
     (let reference = in_reference_block (oi_provisional oi) in
      bindA (code_at rpc (ic_underlying_price_oracle incident_config) ''underlying USD oracle''
               (ba_number (sa_window_end (oi_anchors oi)))) (\<lambda>_.
      bindA (if \<not> is_zero (ic_conversion_address incident_config)
             then code_at rpc (ic_conversion_address incident_config) ''underlying conversion'' reference
             else retA ()) (\<lambda>_.
        foldA (\<lambda>_ scored. code_at rpc (st_token scored) ''scored token'' reference) () (ic_scored_tokens incident_config))))"

definition include_booster :: "claim_set_replay \<Rightarrow> claim_event list \<Rightarrow> bool" where
  "include_booster replay events \<longleftrightarrow>
     list_ex (\<lambda>e. ev_claim_id e \<in> set (live_claim_ids replay) \<and> ev_booster_amount e \<noteq> 0) events"

record settlement_policy =
  po_incident_config :: incident_config
  po_insured_decimals :: nat
  po_topology :: pool_topology
  po_booster :: "booster_config_ret option"
  po_pools :: "pool_input list"
  po_max_payout_bps :: biguint
  po_twap_ratio :: biguint
  po_underlying_usd :: biguint

definition read_pools ::
  "('w, 'z) rpc_scheme \<Rightarrow> abi \<Rightarrow> bootstrap_config \<Rightarrow> opened_incident \<Rightarrow> pool_topology
    \<Rightarrow> ('w, engine_error, pool_input list) act" where
  "read_pools rpc abi config oi topology =
     (let pairs = zip (pt_assets topology) (pt_pool_addrs topology);
          window_end = ba_number (sa_window_end (oi_anchors oi)) in
      bindA (foldA (\<lambda>_ entry. check_pool_code rpc config (in_open_block (oi_provisional oi)) window_end entry) ()
               (enumerate 0 pairs)) (\<lambda>_.
      bindA (map_errA EnChain (pool_states_at rpc abi config pairs window_end)) (\<lambda>states.
        retA (map (\<lambda>s. \<lparr>pi_balance = ps_balance s, pi_asset_usd = ps_asset_usd s,
                        pi_asset_decimals = ps_asset_decimals s\<rparr>) states))))"

definition read_policy ::
  "('w, 'z) rpc_scheme \<Rightarrow> abi \<Rightarrow> bootstrap_config \<Rightarrow> opened_incident \<Rightarrow> claim_window
    \<Rightarrow> ('w, engine_error, settlement_policy) act" where
  "read_policy rpc abi config oi cw =
     (let provisional = oi_provisional oi; open_block = in_open_block provisional in
      bindA (map_errA EnChain (incident_config_at rpc abi config (in_insured_token provisional) open_block)) (\<lambda>incident_config.
      bindA (check_config_code rpc oi incident_config) (\<lambda>_.
      bindA (map_errA EnChain (decimals_at rpc abi (in_insured_token provisional) open_block)) (\<lambda>insured_decimals.
      bindA (map_errA EnChain (pool_policy_at rpc abi config open_block (include_booster (cw_replay cw) (cw_events cw)))) (\<lambda>policy.
      bindA (read_pools rpc abi config oi (pp_topology policy)) (\<lambda>pools.
      bindA (guardA (pp_max_payout_bps policy > 10000)
               (EnInvariant (''maxCoverPoolPayoutBps exceeds 10000: '' @ show_nat (pp_max_payout_bps policy)))) (\<lambda>_.
      bindA (map_errA EnChain (twap_ratio_before rpc incident_config (in_reference_block provisional))) (\<lambda>twap_ratio.
      bindA (map_errA EnChain (price_usd_1e18 rpc abi (ic_underlying_price_oracle incident_config)
               (ba_number (sa_window_end (oi_anchors oi))) (bc_max_oracle_staleness config))) (\<lambda>underlying_usd.
        retA \<lparr>po_incident_config = incident_config, po_insured_decimals = insured_decimals,
              po_topology = pp_topology policy, po_booster = pp_booster policy, po_pools = pools,
              po_max_payout_bps = pp_max_payout_bps policy, po_twap_ratio = twap_ratio,
              po_underlying_usd = underlying_usd\<rparr>)))))))))"

section \<open>Stage 4: scores and claims\<close>

datatype score_source =
    RawSource
  | BulkSource bulk_score_source
  | CheckpointSource checkpoint_score_source bytes

definition registration_index :: "claim_event list \<Rightarrow> biguint \<Rightarrow> claim_event option" where
  "registration_index events = map_of (rev (map (\<lambda>e. (ev_claim_id e, e)) (filter (\<lambda>e. ev_kind e = Register) events)))"

definition live_registrations ::
  "claim_event list \<Rightarrow> claim_set_replay \<Rightarrow> (engine_error, claim_event list) result" where
  "live_registrations events replay =
     mapR (\<lambda>cid. ok_or (EnInvariant (''missing registration for live claim '' @ show_nat cid)) (registration_index events cid))
       (live_claim_ids replay)"

definition engine_cutoff_block :: "u64 \<Rightarrow> u64 \<Rightarrow> u64" where
  "engine_cutoff_block reference_block margin = (if reference_block > margin then reference_block - margin else 1)"

definition open_source ::
  "('w, 'z) rpc_scheme \<Rightarrow> abi \<Rightarrow> events \<Rightarrow> ('w, 'y) files_scheme \<Rightarrow> checkpoint_codec \<Rightarrow> u64 \<Rightarrow> incident_config \<Rightarrow> u64
    \<Rightarrow> address list \<Rightarrow> score_mode \<Rightarrow> ('w, engine_error, score_source) act" where
  "open_source rpc abi ev fs cc chain incident_config cutoff claimants mode =
     (case mode of
        RawMode \<Rightarrow> retA RawSource
      | BulkMode \<Rightarrow>
          bindA (map_errA EnCheckpoint (bulk_open rpc abi ev incident_config cutoff claimants chain MAX_LOG_RANGE LOG_RESULT_CAP))
            (\<lambda>source. retA (BulkSource source))
      | CheckpointMode path key \<Rightarrow>
          bindA (map_errA EnCheckpoint (checkpoint_open rpc ev fs cc incident_config cutoff path chain key
                   MAX_LOG_RANGE LOG_RESULT_CAP)) (\<lambda>source. retA (CheckpointSource source key)))"

fun source_metadata :: "u64 \<Rightarrow> score_source \<Rightarrow> score_source_metadata" where
  "source_metadata cutoff RawSource = RawMetadata cutoff"
| "source_metadata cutoff (BulkSource s) =
     (let m = bss_metadata s in BulkMetadata (bm_as_of_block m) (bm_as_of_block_hash m) (bm_indexed_transfers m)
        (bm_indexed_tokens m) (bm_tracked_accounts m))"
| "source_metadata cutoff (CheckpointSource s key) =
     (let m = css_metadata s in CheckpointMetadata (cm_path m) (cm_as_of_block m) (cm_as_of_block_hash m)
        (cm_indexed_transfers m) (cm_indexed_tokens m))"

fun source_log_metrics :: "log_metrics \<Rightarrow> score_source \<Rightarrow> log_metrics" where
  "source_log_metrics event_metrics RawSource = event_metrics"
| "source_log_metrics event_metrics (BulkSource s) = merge_log_metrics event_metrics (bm_log_metrics (bss_metadata s))"
| "source_log_metrics event_metrics (CheckpointSource s key) = merge_log_metrics event_metrics (cm_log_metrics (css_metadata s))"

text \<open>The gross score of a claimant and the metrics after reading it.\<close>

definition source_score ::
  "('w, 'z) rpc_scheme \<Rightarrow> abi \<Rightarrow> events \<Rightarrow> incident_config \<Rightarrow> u64 \<Rightarrow> score_source \<Rightarrow> log_metrics \<Rightarrow> address
    \<Rightarrow> ('w, engine_error, biguint \<times> log_metrics) act" where
  "source_score rpc abi ev incident_config cutoff source metrics user =
     (case source of
        BulkSource s \<Rightarrow> bindA (liftR (map_errR EnCheckpoint (bulk_gross_score_of s user))) (\<lambda>score. retA (score, metrics))
      | CheckpointSource s key \<Rightarrow>
          bindA (map_errA EnCheckpoint (checkpoint_gross_score_of rpc abi s user)) (\<lambda>score. retA (score, metrics))
      | RawSource \<Rightarrow>
          bindA (map_errA EnChain (earned_score_of rpc abi ev (ic_scored_tokens incident_config) user cutoff
                   MAX_LOG_RANGE LOG_RESULT_CAP)) (\<lambda>(score, m). retA (score, merge_log_metrics metrics m)))"

definition booster_held ::
  "('w, 'z) rpc_scheme \<Rightarrow> abi \<Rightarrow> events \<Rightarrow> booster_config_ret option \<Rightarrow> u64 \<Rightarrow> u64 \<Rightarrow> log_metrics \<Rightarrow> claim_event
    \<Rightarrow> ('w, engine_error, biguint \<times> log_metrics) act" where
  "booster_held rpc abi ev booster hold_from reference_block metrics event =
     (case booster of
        None \<Rightarrow> retA (0, metrics)
      | Some b \<Rightarrow>
          if ev_booster_amount event = 0 then retA (0, metrics)
          else bindA (map_errA EnChain (min_erc1155_balance_over rpc abi ev (bo_collection b) (ev_user event)
                        (bo_token_id b) hold_from reference_block MAX_LOG_RANGE LOG_RESULT_CAP)) (\<lambda>(minimum, m).
                 retA (minimum, merge_log_metrics metrics m)))"

definition claim_step ::
  "('w, 'z) rpc_scheme \<Rightarrow> abi \<Rightarrow> events \<Rightarrow> settlement_policy \<Rightarrow> u64 \<Rightarrow> u64 \<Rightarrow> score_source
    \<Rightarrow> (address, biguint) btree_map \<Rightarrow> (address, biguint) btree_map \<Rightarrow> claim_input list \<times> log_metrics \<Rightarrow> claim_event
    \<Rightarrow> ('w, engine_error, claim_input list \<times> log_metrics) act" where
  "claim_step rpc abi ev po cutoff reference_block source minimums spent_scores acc event =
     (let (claims, metrics) = acc in
      bindA (liftR (ok_or (EnInvariant (''missing eligibility replay for claimant '' @ address_to_string (ev_user event)))
               (map_of minimums (ev_user event)))) (\<lambda>min_held.
      bindA (booster_held rpc abi ev (po_booster po) cutoff reference_block metrics event) (\<lambda>(held, metrics1).
      bindA (source_score rpc abi ev (po_incident_config po) cutoff source metrics1 (ev_user event)) (\<lambda>(gross, metrics2).
      bindA (liftR (ok_or (EnInvariant (''missing spent score for '' @ address_to_string (ev_user event)))
               (map_of spent_scores (ev_user event)))) (\<lambda>spent.
        retA (claims @ [\<lparr>ci_claim_id = ev_claim_id event, ci_user = ev_user event, ci_escrow_amount = ev_amount event,
                ci_min_held = min_held, ci_gross_earned_score = gross, ci_spent_score = spent,
                ci_score_to_spend = ev_score_to_spend event, ci_booster_amount = ev_booster_amount event,
                ci_booster_held = held\<rparr>], metrics2))))))"

definition resolve_claims ::
  "('w, 'z) rpc_scheme \<Rightarrow> abi \<Rightarrow> events \<Rightarrow> bootstrap_config \<Rightarrow> opened_incident \<Rightarrow> claim_window \<Rightarrow> settlement_policy \<Rightarrow> u64
    \<Rightarrow> score_source \<Rightarrow> ('w, engine_error, claim_input list \<times> log_metrics) act" where
  "resolve_claims rpc abi ev config oi cw po cutoff source =
     (let provisional = oi_provisional oi in
      bindA (liftR (live_registrations (cw_events cw) (cw_replay cw))) (\<lambda>live_events.
      let claimant_accounts = set_of (map ev_user live_events) in
      bindA (map_errA EnChain (min_balances_over rpc abi ev (in_insured_token provisional) claimant_accounts cutoff
               (in_reference_block provisional) MAX_LOG_RANGE LOG_RESULT_CAP)) (\<lambda>(minimums, eligibility_metrics).
      bindA (map_errA EnChain (spent_scores_at rpc abi (bc_registry config) claimant_accounts (in_open_block provisional)))
        (\<lambda>spent_scores.
          foldA (claim_step rpc abi ev po cutoff (in_reference_block provisional) source minimums spent_scores)
            ([], merge_log_metrics (source_log_metrics (cw_metrics cw) source) eligibility_metrics) live_events))))"

section \<open>Stage 5: allocation, digest and final checks\<close>

definition kernel_input_of ::
  "bootstrap_config \<Rightarrow> biguint \<Rightarrow> opened_incident \<Rightarrow> settlement_policy \<Rightarrow> claim_input list \<Rightarrow> kernel_input" where
  "kernel_input_of config incident_id oi po claims =
     \<lparr>ki_incident_id = incident_id, ki_coverage_bps = ic_coverage_bps (po_incident_config po),
      ki_booster_boost_bps = bc_booster_boost_bps config, ki_insured_decimals = po_insured_decimals po,
      ki_twap_ratio = po_twap_ratio po, ki_underlying_usd = po_underlying_usd po,
      ki_max_cover_pool_payout_bps = po_max_payout_bps po,
      ki_protocol_fee_share_bps = in_protocol_fee_share_bps (oi_provisional oi),
      ki_pools = po_pools po, ki_claims = claims\<rparr>"

record settlement_result =
  re_output :: kernel_output
  re_config_hash :: string
  re_digest :: string

definition settle ::
  "(bytes \<Rightarrow> hash) \<Rightarrow> (json \<Rightarrow> string) \<Rightarrow> bootstrap_config \<Rightarrow> biguint \<Rightarrow> opened_incident \<Rightarrow> claim_window \<Rightarrow> settlement_policy
    \<Rightarrow> claim_input list \<Rightarrow> (engine_error, settlement_result) result" where
  "settle keccak print_json config incident_id oi cw po claims =
     bindR (map_errR EnKernel (allocate_with_events keccak (kernel_input_of config incident_id oi po claims) (cw_events cw))) (\<lambda>output.
     bindR (failR_if (\<not> eq_ignore_ascii_case (ko_claim_set_hash output) (in_claim_set_hash (cw_incident cw)))
       (EnInvariant ''kernel claim-set commitment differs after allocation'')) (\<lambda>_.
     bindR (map_errR EnTypedData (settlement_digest keccak
        \<lparr>sd_chain_id = bc_chain_id config, sd_verifying_contract = bc_defi_insurance config, sd_incident_id = incident_id,
         sd_root = ko_root output, sd_unresolved_claims = in_unresolved_claims (cw_incident cw),
         sd_pool_payouts = ko_pool_payouts output, sd_pool_addrs = pt_pool_addrs (po_topology po),
         sd_claim_set = ko_claim_set_hash output, sd_tee_pcr_hash = oi_tee_pcr_hash oi\<rparr>)) (\<lambda>digest.
     Ok \<lparr>re_output = output, re_config_hash = config_hash keccak print_json config, re_digest = digest\<rparr>)))"

definition settlement_run_of ::
  "biguint \<Rightarrow> opened_incident \<Rightarrow> claim_window \<Rightarrow> settlement_policy \<Rightarrow> settlement_result \<Rightarrow> incident \<Rightarrow> score_source_metadata
    \<Rightarrow> rpc_metrics \<Rightarrow> log_metrics \<Rightarrow> settlement_run" where
  "settlement_run_of incident_id oi cw po re latest meta rpc_metrics log_metrics =
     \<lparr>ru_incident_id = incident_id, ru_incident = oi_provisional oi, ru_window_incident = cw_incident cw,
      ru_latest_incident = latest, ru_anchors = oi_anchors oi, ru_config_hash = re_config_hash re,
      ru_tee_pcr_hash = oi_tee_pcr_hash oi, ru_pool_order = pt_assets (po_topology po),
      ru_pool_addrs = pt_pool_addrs (po_topology po), ru_twap_ratio = po_twap_ratio po,
      ru_underlying_usd = po_underlying_usd po, ru_events = cw_events cw, ru_output = re_output re,
      ru_digest = re_digest re, ru_score_source = meta, ru_rpc_metrics = rpc_metrics, ru_log_metrics = log_metrics\<rparr>"

definition check_run ::
  "(bytes \<Rightarrow> hash) \<Rightarrow> (json \<Rightarrow> string) \<Rightarrow> (io_error \<Rightarrow> string) \<Rightarrow> bootstrap_config \<Rightarrow> settlement_run
    \<Rightarrow> (engine_error, unit) result" where
  "check_run keccak print_json show_io config run =
     bindR (failR_if (\<not> eq_ignore_ascii_case (in_root (ru_latest_incident run)) ZERO_ROOT \<and> \<not> root_matches run)
       (EnInvariant (''standing settlement root mismatch: on-chain '' @ in_root (ru_latest_incident run)
          @ '', recomputed '' @ ko_root (ru_output run)))) (\<lambda>_.
     map_errR (\<lambda>e. EnInvariant (''internal artifact verification failed: '' @ artifact_error_text show_io e))
       (verify_run keccak print_json run config))"

definition finish_run ::
  "('w, 'z) rpc_scheme \<Rightarrow> abi \<Rightarrow> events \<Rightarrow> (bytes \<Rightarrow> hash) \<Rightarrow> (json \<Rightarrow> string) \<Rightarrow> (io_error \<Rightarrow> string) \<Rightarrow> bootstrap_config \<Rightarrow> biguint
    \<Rightarrow> opened_incident \<Rightarrow> claim_window \<Rightarrow> settlement_policy \<Rightarrow> u64 \<Rightarrow> score_source \<Rightarrow> ('w, engine_error, settlement_run) act" where
  "finish_run rpc abi ev keccak print_json show_io config incident_id oi cw po cutoff source =
     bindA (resolve_claims rpc abi ev config oi cw po cutoff source) (\<lambda>(claims, log_metrics).
     bindA (liftR (settle keccak print_json config incident_id oi cw po claims)) (\<lambda>re.
     bindA (map_errA EnChain (incident_at rpc abi (bc_defi_insurance config) incident_id None)) (\<lambda>latest.
     bindA (map_errA EnChain (assert_anchors_unchanged rpc (oi_anchors oi))) (\<lambda>_.
     bindA (getsA (rpc_metrics_of rpc)) (\<lambda>metrics.
     let run = settlement_run_of incident_id oi cw po re latest (source_metadata cutoff source) metrics log_metrics in
     bindA (liftR (check_run keccak print_json show_io config run)) (\<lambda>_. retA run))))))"

text \<open>
  A checkpoint source owns its lock: an error after the opening drops the source, and with it the lock; on
  success the source is committed, which consumes it.
\<close>

definition with_source ::
  "('w, 'y) files_scheme \<Rightarrow> checkpoint_codec \<Rightarrow> score_source \<Rightarrow> ('w, engine_error, 'a) act \<Rightarrow> ('w, engine_error, 'a) act" where
  "with_source fs cc source body =
     (case source of
        CheckpointSource s key \<Rightarrow>
          bindA (cleanupA body (drop_lock fs (css_lock s))) (\<lambda>run.
          bindA (map_errA EnCheckpoint (commit fs cc key s)) (\<lambda>_. retA run))
      | _ \<Rightarrow> body)"

definition build_settlement ::
  "('w, 'z) rpc_scheme \<Rightarrow> abi \<Rightarrow> events \<Rightarrow> ('w, 'y) files_scheme \<Rightarrow> checkpoint_codec \<Rightarrow> (bytes \<Rightarrow> hash) \<Rightarrow> (json \<Rightarrow> string)
    \<Rightarrow> (io_error \<Rightarrow> string) \<Rightarrow> bootstrap_config \<Rightarrow> biguint \<Rightarrow> score_mode \<Rightarrow> ('w, engine_error, settlement_run) act" where
  "build_settlement rpc abi ev fs cc keccak print_json show_io config incident_id score_mode =
     bindA (open_incident rpc abi config incident_id) (\<lambda>oi.
     bindA (read_window rpc abi ev keccak config incident_id oi) (\<lambda>cw.
     bindA (read_policy rpc abi config oi cw) (\<lambda>po.
     bindA (liftR (live_registrations (cw_events cw) (cw_replay cw))) (\<lambda>live_events.
     let cutoff = engine_cutoff_block (in_reference_block (oi_provisional oi))
                    (holding_margin_blocks (ic_params (po_incident_config po))) in
     bindA (open_source rpc abi ev fs cc (bc_chain_id config) (po_incident_config po) cutoff
              (set_of (map ev_user live_events)) score_mode) (\<lambda>source.
       with_source fs cc source
         (finish_run rpc abi ev keccak print_json show_io config incident_id oi cw po cutoff source))))))"

end
