(* ===== verification/Engine_Demo.thy ===== *)
theory Engine_Demo
  imports Engine Source_Claims
begin

text \<open>
  A small provider on which the whole settlement computation runs: an incident without claims, whose claim window has just closed.
  Contract reads answer through the codec of the small contract state; blocks carry a timestamp every twelve seconds.
\<close>

section \<open>Provider and interfaces\<close>

definition engine_request :: "string \<Rightarrow> json \<Rightarrow> (unit, rpc_error, json) act" where
  "engine_request mth params =
     (if mth = ''eth_chainId'' then retA (JStr (hex_tag 1))
      else if mth = ''eth_getCode'' then retA (JStr ''0x60'')
      else if mth = ''eth_getLogs'' then retA (JArr [])
      else if mth = ''eth_getBlockByNumber''
      then (case params of
          JArr [JStr tag, _] \<Rightarrow>
            if tag = ''finalized'' \<or> tag = ''latest'' then retA (demo_block_json 10)
            else (case u64_from_str_radix16 (drop 2 tag) of
                Some n \<Rightarrow> retA (demo_block_json n) | None \<Rightarrow> failA (JsonRpc 0 ''unknown block''))
        | _ \<Rightarrow> failA (JsonRpc 0 ''invalid parameters''))
      else demo_call_request mth params)"

definition engine_rpc :: "unit rpc" where
  "engine_rpc = demo_rpc\<lparr>rpc_request := engine_request\<rparr>"

definition engine_incident :: incidents_ret where
  "engine_incident = \<lparr>ir_insured_token = Address (replicate 20 3), ir_resolved_at = 0, ir_reference_block = 2, ir_open_block = 3,
     ir_phase_deadline = 96, ir_root = replicate 32 0, ir_unresolved_claims = 0, ir_claim_set_hash = replicate 32 0,
     ir_tee_pcr_hash = replicate 32 9, ir_protocol_fee_share_bps = 500\<rparr>"

definition engine_abi :: abi where
  "engine_abi = demo_abi\<lparr>incidents := const_call ''incidents'' engine_incident,
     settlementParams := const_call ''settlementParams'' \<lparr>sp_twap_lookback_blocks = 1, sp_min_holding_required = 1, sp_sample_step_blocks = 1\<rparr>\<rparr>"

definition engine_config :: bootstrap_config where
  "engine_config = \<lparr>bc_version = CONFIG_VERSION, bc_chain_id = 1, bc_registry = Address (replicate 20 1),
     bc_defi_insurance = Address (replicate 20 2), bc_booster_id = 1, bc_booster_boost_bps = 100,
     bc_asset_usd_feed = [], bc_max_oracle_staleness = 3600\<rparr>"

section \<open>Answers\<close>

lemma map_errA_retA [simp]: "map_errA g (retA x) = retA x"
  by (simp add: map_errA_def fun_eq_iff)

lemma Pair_Ok: "Pair (Ok x) = retA x"
  by (rule ext) simp

lemma unit_answers: "answers m (Ok x) \<Longrightarrow> m = (retA x :: (unit, 'e, 'a) act)"
  unfolding answers_def by (auto simp: fun_eq_iff prod_eq_iff)

lemma engine_chain [simp]: "chain_id engine_rpc = retA 1"
proof -
  have "quantity (JStr (hex_tag 1)) ''chainId'' = Ok 1" by (rule quantity_tag) (simp add: u64_max_def)
  then show ?thesis by (simp add: chain_id_def engine_rpc_def engine_request_def fun_eq_iff)
qed

lemma engine_blocks: "serves_blocks engine_rpc demo_block 10"
proof -
  have le: "n \<le> u64_max" "12 * n \<le> u64_max" if "n \<le> 10" for n using that by (auto simp: u64_max_def)
  have "hex_tag n \<noteq> ''finalized''" "hex_tag n \<noteq> ''latest''" for n by (simp_all add: hex_tag_def)
  then have "rpc_request engine_rpc ''eth_getBlockByNumber'' (JArr [JStr (hex_tag n), JBool False]) = retA (demo_block_json n)"
    if "n \<le> 10" for n using le [OF that] by (simp add: engine_rpc_def engine_request_def) (simp add: hex_tag_def hex_roundtrip)
  moreover have "parse_block (hex_tag n) (Some n) (demo_block_json n) = Ok (demo_block n)" if "n \<le> 10" for n
    using le [OF that]
    by (simp add: parse_block_def demo_block_json_def demo_block_def json_index_def quantity_tag block_hash_canonical del: be_bytes.simps)
  ultimately show ?thesis unfolding serves_blocks_def by (auto simp: answers_def)
qed

lemma engine_block [simp]: "n \<le> 10 \<Longrightarrow> block_by_number engine_rpc n = retA (demo_block n)"
  by (rule unit_answers [OF serves_block_by_number [OF engine_blocks]])

lemma engine_finalized [simp]: "finalized_block engine_rpc = retA (demo_block 10)"
proof -
  have "parse_block ''finalized'' None (demo_block_json 10) = Ok (demo_block 10)"
    by (simp add: parse_block_def demo_block_json_def demo_block_def json_index_def quantity_tag block_hash_canonical u64_max_def
        del: be_bytes.simps)
  then show ?thesis
    by (simp add: finalized_block_def block_at_def engine_rpc_def engine_request_def fun_eq_iff)
qed

lemma engine_search [simp]: "block_at_or_before_timestamp engine_rpc 96 10 = retA 8"
proof -
  obtain b where b: "answers (timestamp_search engine_rpc 96 1 10) (Ok b)" "12 * b \<le> 96" "\<forall>c. b < c \<longrightarrow> c \<le> 10 \<longrightarrow> 96 < 12 * c"
    using timestamp_search_correct [OF engine_blocks, of 1 10 96] by (auto simp: demo_block_def)
  have "b = 8" using b(2) b(3) [rule_format, of 8] by (cases "b < 8") auto
  with unit_answers [OF b(1)] show ?thesis by (simp add: block_at_or_before_timestamp_def demo_block_def fun_eq_iff)
qed

lemma engine_code [simp]: "assert_contract_code_at engine_rpc addr label n = retA ()"
  by (simp add: assert_contract_code_at_def engine_rpc_def engine_request_def guardA_def fun_eq_iff)

lemma engine_raw: "answers (raw_call engine_rpc to data b) (Ok (demo_view to data))"
proof -
  have "rpc_request engine_rpc ''eth_call'' (call_params to data tag) = retA (JStr (hash_hex (demo_view to data)))" for tag
    by (simp add: engine_rpc_def engine_request_def demo_call_request_def call_params_def json_index_def address_to_string_def hash_hex_def)
  then show ?thesis by (simp add: raw_call_def Let_def answers_def decode_call_result_hex)
qed

lemma engine_call [simp]: "contract_call engine_rpc to (const_call name r) args b = retA r"
  using unit_answers [OF engine_raw] by (simp add: contract_call_def const_call_def fun_eq_iff)

abbreviation answer_word :: bytes where
  "answer_word \<equiv> replicate 31 0 @ [4]"

lemma engine_decode [simp]: "decode_read (const_call name r) answer_word = Ok r"
  by (simp add: decode_read_def const_call_def)

lemma chunks_words: "\<forall>w \<in> set ws. length w = 32 \<Longrightarrow> chunks 32 (concat ws) = ws"
proof (induction ws)
  case (Cons w ws)
  then show ?case by (subst chunks.simps) auto
qed (simp add: chunks.simps)

lemma engine_reads:
  assumes "\<forall>c \<in> set calls. c3_target c \<noteq> MULTICALL3 \<and> \<not> c3_allow_failure c \<and> c3_call_data c = [1, 2, 3, 4]" "length calls \<le> 64"
  shows "aggregate_reads engine_rpc engine_abi calls b = retA (replicate (length calls) answer_word)"
proof -
  have view: "call_view demo_view c = answer_word" if "c \<in> set calls" for c
    using assms(1) that by (simp add: call_view_def demo_view_def)
  have sub: "set c \<subseteq> set calls" "length c \<le> 64" if "c \<in> set (chunks MAX_CALLS calls)" for c
    using concat_chunks [of MAX_CALLS calls] that assms(2) chunks.simps [of MAX_CALLS calls]
    by (auto simp: MAX_CALLS_def chunks.simps [of 64 "drop 64 calls"] split: if_splits dest: in_set_takeD)
  have codec: "sc_decode_returns demo_aggregate3 (sc_encode_returns demo_aggregate3 (subcall_results demo_view c)) = Ok (subcall_results demo_view c)"
    if "set c \<subseteq> set calls" for c
  proof -
    have "map (call_view demo_view) c = replicate (length c) answer_word"
      using that view by (intro map_replicate_const [THEN trans [rotated]] map_cong) auto
    then have "chunks 32 (concat (map (call_view demo_view) c)) = map (call_view demo_view) c"
      by (intro chunks_words) (auto simp: in_set_replicate)
    then show ?thesis by (simp add: demo_aggregate3_def subcall_results_def comp_def)
  qed
  have "serves_calls engine_rpc engine_abi b demo_view calls"
    using engine_raw codec sub(1)
    by (auto simp: serves_calls_def engine_abi_def demo_abi_def demo_view_def) (simp_all add: demo_aggregate3_def subcall_results_def comp_def)
  moreover have "length (sc_encode (aggregate3 engine_abi) c) \<le> MAX_INPUT_BYTES" if "c \<in> set (chunks MAX_CALLS calls)" for c
  proof -
    have "length (concat (map (call_view demo_view) c)) = 32 * length c"
      using sub(1) [OF that] view by (induction c) auto
    then show ?thesis using sub(2) [OF that] by (simp add: engine_abi_def demo_abi_def demo_aggregate3_def MAX_INPUT_BYTES_def)
  qed
  ultimately have "answers (aggregate_reads engine_rpc engine_abi calls b) (Ok (map (call_view demo_view) calls))"
    using assms(1) view by (intro aggregate_reads_direct) auto
  moreover have "map (call_view demo_view) calls = replicate (length calls) answer_word"
    using view by (simp add: map_replicate_const [symmetric])
  ultimately show ?thesis using unit_answers by metis
qed

lemma engine_fields [simp]:
  "incidents engine_abi = const_call ''incidents'' engine_incident"
  "incidentPhaseWindow engine_abi = const_call ''incidentPhaseWindow'' 60"
  "getInsuredToken engine_abi = const_call ''getInsuredToken'' \<lparr>it_max_coverage_bps = 8000,
     it_underlying_price_oracle = Address (replicate 20 3), it_conversion_address = Address (replicate 20 0), it_conversion_call_data = []\<rparr>"
  "settlementParams engine_abi = const_call ''settlementParams''
     \<lparr>sp_twap_lookback_blocks = 1, sp_min_holding_required = 1, sp_sample_step_blocks = 1\<rparr>"
  "getScoredTokens engine_abi = const_call ''getScoredTokens'' []"
  "coverPools engine_abi = const_call ''coverPools'' ([], [])"
  "maxCoverPoolPayoutBps engine_abi = const_call ''maxCoverPoolPayoutBps'' 5000"
  "decimals_of engine_abi = const_call ''decimals_of'' 18"
  "feed_decimals engine_abi = const_call ''feed_decimals'' 8"
  "latestRoundData engine_abi = const_call ''latestRoundData''
     \<lparr>rd_round_id = 1, rd_answer = 100, rd_started_at = 1, rd_updated_at = 2, rd_answered_in_round = 1\<rparr>"
  by (simp_all add: engine_abi_def demo_abi_def)

lemma engine_read_calls:
  assumes "length calls \<le> 64" "\<forall>c \<in> set calls. \<exists>a n (r :: unit). a \<noteq> 0xca \<and> c3_target c = Address (replicate 20 a)
    \<and> \<not> c3_allow_failure c \<and> c3_call_data c = [1, 2, 3, 4]"
  shows "aggregate_reads engine_rpc engine_abi calls b = retA (replicate (length calls) answer_word)"
  using assms(2) replicate_not_MULTICALL3 by (intro engine_reads assms(1)) auto

lemma const_read_call: "read_call to (const_call name r) args = \<lparr>c3_target = to, c3_allow_failure = False, c3_call_data = [1, 2, 3, 4]\<rparr>"
  by (simp add: read_call_def const_call_def)

definition engine_opened :: opened_incident where
  "engine_opened = \<lparr>
     oi_provisional = \<lparr>in_insured_token = Address (replicate 20 3), in_resolved_at = 0, in_reference_block = 2, in_open_block = 3,
       in_phase_deadline = 96, in_root = hash_hex (replicate 32 0), in_unresolved_claims = 0,
       in_claim_set_hash = hash_hex (replicate 32 0), in_tee_pcr_hash = hash_hex (replicate 32 9), in_protocol_fee_share_bps = 500\<rparr>,
     oi_claim_deadline = 96,
     oi_anchors = \<lparr>sa_reference = demo_block 2, sa_open = demo_block 3, sa_window_end = demo_block 8, sa_finalized_head = demo_block 10\<rparr>,
     oi_tee_pcr_hash = hash_hex (replicate 32 9)\<rparr>"

lemma hex_zeros: "hash_hex (replicate n 0) = ''0x'' @ replicate (2 * n) CHR ''0''"
proof -
  have "hex_char 0 = CHR ''0''" by code_simp
  then have "hex_encode (replicate n 0) = replicate (2 * n) CHR ''0''" by (induction n) simp_all
  then show ?thesis by (simp add: hash_hex_def)
qed

lemma zero_root_hex: "hash_hex (replicate 32 0) = ZERO_ROOT"
  by (simp add: hex_zeros ZERO_ROOT_def)

lemma big_small: "n \<le> 1000 \<Longrightarrow> big_to_u256 n field = Ok n"
proof -
  assume "n \<le> 1000"
  then have "n < 256 ^ 32" by (auto intro: le_less_trans)
  then have "length (to_bytes_be n) \<le> 32" by (simp only: length_to_bytes_be) simp
  then show ?thesis by (simp add: big_to_u256_def Let_def)
qed

lemma engine_incident_at: "incident_at engine_rpc engine_abi d 7 b = retA (oi_provisional engine_opened)"
  by (simp add: incident_at_def big_small) (rule ext, simp add: engine_incident_def engine_opened_def)

lemma engine_pcr: "in_tee_pcr_hash (oi_provisional engine_opened) \<noteq> ''0x'' @ replicate 64 CHR ''0''"
proof -
  have "hash_hex (replicate 32 9) \<noteq> hash_hex (replicate 32 (0 :: byte))" by (simp add: hash_hex_inj)
  then show ?thesis by (simp add: hex_zeros engine_opened_def)
qed

lemma engine_open: "open_incident engine_rpc engine_abi engine_config 7 = retA engine_opened"
proof -
  have phase: "check_phase 96 (oi_anchors engine_opened) = Ok ()"
    by (simp add: check_phase_def engine_opened_def demo_block_def u64_max_def checked_sub64_def checked_add64_def Let_def del: be_bytes.simps)
  have deadline: "incident_claim_deadline_at engine_rpc engine_abi d 7 3 = retA 96" for d
    by (simp add: incident_claim_deadline_at_def big_small demo_block_def checked_add64_def u64_max_def del: be_bytes.simps)
      (simp add: fun_eq_iff)
  have anchors: "finalized_settlement_anchors engine_rpc 2 3 96 = retA (oi_anchors engine_opened)"
  proof -
    have b: "ba_timestamp (demo_block 10) = 120" "ba_number (demo_block 10) = 10" by (simp_all add: demo_block_def)
    show ?thesis by (simp add: finalized_settlement_anchors_def b) (rule ext, simp add: engine_opened_def)
  qed
  have pcr: "incident_tee_pcr_hash_at engine_rpc engine_abi d 7 b = retA (hash_hex (replicate 32 9))" for d b
    using engine_pcr by (intro ext) (simp add: incident_tee_pcr_hash_at_def engine_incident_at, simp add: engine_opened_def)
  have fields: "in_insured_token (oi_provisional engine_opened) = Address (replicate 20 3)"
    "in_reference_block (oi_provisional engine_opened) = 2" "in_open_block (oi_provisional engine_opened) = 3"
    "is_zero (Address (replicate 20 3)) = False" by (simp_all add: engine_opened_def is_zero_def)
  have agree: "assert_incident_anchors i i = Ok ()" for i by (simp add: assert_incident_anchors_def)
  have chain: "bc_chain_id engine_config = 1" by (simp add: engine_config_def)
  have whole: "engine_opened = \<lparr>oi_provisional = oi_provisional engine_opened, oi_claim_deadline = 96,
      oi_anchors = oi_anchors engine_opened, oi_tee_pcr_hash = hash_hex (replicate 32 9)\<rparr>" by (simp add: engine_opened_def)
  show ?thesis
    by (rule ext, subst whole)
      (simp add: open_incident_def chain engine_incident_at fields deadline anchors phase agree pcr code_at_def)
qed

definition engine_window :: "log_metrics \<Rightarrow> claim_window" where
  "engine_window m = \<lparr>cw_events = [], cw_metrics = m, cw_incident = oi_provisional engine_opened,
     cw_replay = \<lparr>replay_hash = hash_hex (replicate 32 0), unresolved_claims = 0, live_claim_ids = []\<rparr>\<rparr>"

lemma engine_logs:
  assumes "canonical_filter f = Ok f'" "x \<le> y" "y \<le> 10"
  shows "\<exists>m. query_logs engine_rpc f x y MAX_LOG_RANGE LOG_RESULT_CAP () = (Ok ([], m), ())"
proof -
  have prompt: "prompt engine_rpc" by (simp add: prompt_def engine_rpc_def demo_rpc_def)
  have fetch: "fetch_logs engine_rpc f' a b () = (Ok (logs_in [] a b), ())" for a b
    by (simp add: fetch_logs_def engine_rpc_def engine_request_def logs_in_def)
  have small: "y \<le> u64_max" using assms(3) by (simp add: u64_max_def)
  have "\<exists>m. get_logs_chunked engine_rpc f x y MAX_LOG_RANGE LOG_RESULT_CAP () = (Ok (logs_in [] x y, m), ())"
    by (rule prompt_query [OF prompt assms(1)])
      (use assms(2) small fetch in \<open>simp_all add: MAX_LOG_RANGE_def LOG_RESULT_CAP_def MAX_INITIAL_LOG_RANGE_def MAX_LOG_RESULT_CAP_def\<close>)
  then show ?thesis by (auto simp: query_logs_def logs_in_def)
qed

lemma engine_filters:
  "\<exists>f. canonical_filter (registration_filter node_events (bc_defi_insurance engine_config) (JStr (hash_hex (be_bytes 32 7)))) = Ok f"
  "\<exists>f. canonical_filter (cancellation_filter node_events (bc_defi_insurance engine_config)) = Ok f"
proof -
  have small: "(40 :: nat) \<le> u64_max" "(64 :: nat) \<le> u64_max" by (simp_all add: u64_max_def)
  have addr: "exact_hex field (JStr (address_to_string (bc_defi_insurance engine_config))) 20
      = Ok (address_to_string (bc_defi_insurance engine_config))" for field
    using small by (simp add: address_to_string_hash exact_hex_canonical engine_config_def)
  have topic: "canonical_topic_filter (JStr (hash_hex h)) i = Ok (JStr (hash_hex h))" if "length h = 32" for h i
    using small that by (simp add: canonical_topic_filter_def Let_def exact_hex_canonical)
  have null: "canonical_topic_filter JNull i = Ok JNull" for i by (simp add: canonical_topic_filter_def Let_def)
  show "\<exists>f. canonical_filter (registration_filter node_events (bc_defi_insurance engine_config) (JStr (hash_hex (be_bytes 32 7)))) = Ok f"
    "\<exists>f. canonical_filter (cancellation_filter node_events (bc_defi_insurance engine_config)) = Ok f"
    by (simp_all add: canonical_filter_def registration_filter_def cancellation_filter_def addr topic null topic_hash_def
        node_events_def unsupported_def del: be_bytes.simps)
qed

lemma engine_read_window:
  "\<exists>m. read_window engine_rpc engine_abi node_events demo_keccak engine_config 7 engine_opened () = (Ok (engine_window m), ())"
proof -
  obtain f f' where f: "canonical_filter (registration_filter node_events (bc_defi_insurance engine_config) (JStr (hash_hex (be_bytes 32 7)))) = Ok f"
    "canonical_filter (cancellation_filter node_events (bc_defi_insurance engine_config)) = Ok f'" using engine_filters by blast
  obtain m m' where q:
    "query_logs engine_rpc (registration_filter node_events (bc_defi_insurance engine_config) (JStr (hash_hex (be_bytes 32 7)))) 3 8
       MAX_LOG_RANGE LOG_RESULT_CAP () = (Ok ([], m), ())"
    "query_logs engine_rpc (cancellation_filter node_events (bc_defi_insurance engine_config)) 3 8
       MAX_LOG_RANGE LOG_RESULT_CAP () = (Ok ([], m'), ())"
    using engine_logs [OF f(1), of 3 8] engine_logs [OF f(2), of 3 8] by auto
  have topic: "uint_topic 7 ''incidentId'' = Ok (JStr (hash_hex (be_bytes 32 7)))" by (simp only: uint_topic_def big_small) simp
  have events: "read_input_events engine_rpc node_events (bc_defi_insurance engine_config) 7 3 8 MAX_LOG_RANGE LOG_RESULT_CAP ()
      = (Ok ([], merge_log_metrics m m'), ())"
    by (simp add: read_input_events_def topic q del: be_bytes.simps)
  have fields: "in_open_block (oi_provisional engine_opened) = 3" "ba_number (sa_window_end (oi_anchors engine_opened)) = 8"
    by (simp_all add: engine_opened_def demo_block_def)
  have "replay_claim_set demo_keccak [] = Ok (cw_replay (engine_window x))" for x
    by (simp add: replay_claim_set_Ok engine_window_def valid_stream_def ids_of_def live_ids_def claim_set_hash_def
        claim_set_accumulator_def Encoding.ZERO_HASH_def)
  then have "check_window demo_keccak engine_opened [] (oi_provisional engine_opened) = Ok (cw_replay (engine_window x))" for x
    by (simp add: check_window_def assert_incident_anchors_def) (simp add: engine_opened_def engine_window_def)
  then have "read_window engine_rpc engine_abi node_events demo_keccak engine_config 7 engine_opened ()
      = (Ok (engine_window (merge_log_metrics m m')), ())"
    by (simp add: read_window_def fields events engine_incident_at bindA_apply map_errA_def) (simp add: engine_window_def)
  then show ?thesis by blast
qed

definition engine_policy :: settlement_policy where
  "engine_policy = \<lparr>po_incident_config = \<lparr>ic_coverage_bps = 8000, ic_underlying_price_oracle = Address (replicate 20 3),
       ic_conversion_address = Address (replicate 20 0), ic_conversion_call_data = [],
       ic_params = \<lparr>twap_lookback_blocks = 1, holding_margin_blocks = 1, sample_step_blocks = 1\<rparr>, ic_scored_tokens = []\<rparr>,
     po_insured_decimals = 18, po_topology = \<lparr>pt_assets = [], pt_pool_addrs = []\<rparr>, po_booster = None, po_pools = [],
     po_max_payout_bps = 5000, po_twap_ratio = ONE_1E18, po_underlying_usd = 1000000000000\<rparr>"

lemma engine_read_policy: "read_policy engine_rpc engine_abi engine_config engine_opened (engine_window m) = retA engine_policy"
proof -
  let ?ic = "po_incident_config engine_policy"
  have reg: "bc_registry engine_config = Address (replicate 20 1)" "bc_defi_insurance engine_config = Address (replicate 20 2)"
    "bc_max_oracle_staleness engine_config = 3600" by (simp_all add: engine_config_def)
  have oi: "in_insured_token (oi_provisional engine_opened) = Address (replicate 20 3)" "in_open_block (oi_provisional engine_opened) = 3"
    "in_reference_block (oi_provisional engine_opened) = 2" "ba_number (sa_window_end (oi_anchors engine_opened)) = 8"
    by (simp_all add: engine_opened_def demo_block_def)
  have zero: "is_zero (Address (replicate 20 0))" "\<not> is_zero (Address (replicate 20 3))" by (simp_all add: is_zero_def)
  have nm: "Address (replicate 20 1) \<noteq> MULTICALL3" "Address (replicate 20 2) \<noteq> MULTICALL3"
    using replicate_not_MULTICALL3 [of 1] replicate_not_MULTICALL3 [of 2] by simp_all
  have none: "aggregate_reads engine_rpc engine_abi [] b = retA []" for b
    using engine_reads [of "[]" b] by simp
  have reads3: "aggregate_reads engine_rpc engine_abi [read_call (Address (replicate 20 2)) (const_call x1 r1) a1,
      read_call (Address (replicate 20 2)) (const_call x2 r2) a2, read_call (Address (replicate 20 1)) (const_call x3 r3) a3] b
      = retA [answer_word, answer_word, answer_word]" for x1 x2 x3 b and r1 :: 'a and r2 :: 'b and r3 :: 'c and a1 :: 'd and a2 :: 'e and a3 :: 'f
    using nm by (subst engine_reads) (auto simp: const_read_call numeral_3_eq_3)
  have reads2: "aggregate_reads engine_rpc engine_abi [read_call (Address (replicate 20 1)) (const_call x1 r1) a1,
      read_call (Address (replicate 20 1)) (const_call x2 r2) a2] b
      = retA [answer_word, answer_word]" for x1 x2 b and r1 :: 'a and r2 :: 'b and a1 :: 'd and a2 :: 'e
    using nm by (subst engine_reads) (auto simp: const_read_call numeral_2_eq_2)
  have sc: "complete_score_config engine_rpc engine_abi r 3 \<lparr>sp_twap_lookback_blocks = Suc 0, sp_min_holding_required = Suc 0, sp_sample_step_blocks = Suc 0\<rparr> []
      = retA \<lparr>scf_params = ic_params ?ic, scf_scored_tokens = []\<rparr>" for r
    by (rule ext) (simp add: complete_score_config_def none engine_policy_def)
  have ic: "incident_config_at engine_rpc engine_abi engine_config (Address (replicate 20 3)) 3 = retA ?ic"
    by (simp add: incident_config_at_def reg reads3 zero sc) (rule ext, simp add: engine_policy_def)
  have pol: "pool_policy_at engine_rpc engine_abi engine_config 3 False
      = retA \<lparr>pp_topology = po_topology engine_policy, pp_max_payout_bps = 5000, pp_booster = None\<rparr>"
    by (simp add: pool_policy_at_def reg reads2 decode_pool_topology_def) (rule ext, simp add: engine_policy_def)
  have pools: "read_pools engine_rpc engine_abi engine_config engine_opened (po_topology engine_policy) = retA []"
    by (rule ext) (simp add: read_pools_def engine_policy_def pool_states_at_def none)
  have twap: "twap_ratio_before engine_rpc ?ic 2 = retA ONE_1E18"
    by (rule ext, simp add: twap_ratio_before_def engine_policy_def twap_start_def twap_loop.simps [of _ _ _ 2] ratio_at_def zero
        checked_add64_def u64_max_def ONE_1E18_def Let_def, simp add: numeral_2_eq_2 [symmetric])
  have usd: "price_usd_1e18 engine_rpc engine_abi (Address (replicate 20 3)) 8 3600 = retA 1000000000000"
    by (rule ext) (simp add: price_usd_1e18_def check_round_def u256_to_u64_def u64_max_def demo_block_def normalize_price_def del: be_bytes.simps)
  have code: "check_config_code engine_rpc engine_opened ?ic = retA ()"
    by (rule ext) (simp add: check_config_code_def code_at_def engine_policy_def zero Let_def)
  have boost: "include_booster (cw_replay (engine_window m)) (cw_events (engine_window m)) = False"
    by (simp add: include_booster_def engine_window_def)
  have feed: "ic_underlying_price_oracle ?ic = Address (replicate 20 3)" by (simp add: engine_policy_def)
  have "read_policy engine_rpc engine_abi engine_config engine_opened (engine_window m)
    = retA \<lparr>po_incident_config = ?ic, po_insured_decimals = 18, po_topology = po_topology engine_policy,
      po_booster = None, po_pools = [], po_max_payout_bps = 5000, po_twap_ratio = ONE_1E18, po_underlying_usd = 1000000000000\<rparr>"
    by (rule ext) (simp add: read_policy_def oi reg ic code decimals_at_def boost pol pools twap usd feed)
  then show ?thesis by (rule trans) (simp add: engine_policy_def)
qed

section \<open>The run\<close>

lemma engine_resolve:
  "\<exists>lm. resolve_claims engine_rpc engine_abi node_events engine_config engine_opened (engine_window m) engine_policy 1 RawSource ()
     = (Ok ([], lm), ())"
proof -
  have live: "live_registrations (cw_events (engine_window m)) (cw_replay (engine_window m)) = Ok []"
    by (simp add: live_registrations_def engine_window_def)
  have none: "aggregate_reads engine_rpc engine_abi [] b = retA []" for b
    using engine_reads [of "[]" b] by simp
  have min: "min_balances_over engine_rpc engine_abi node_events t [] a b r c = retA ([], default_log_metrics)" for t a b r c
    by (rule ext) (simp add: min_balances_over_def starting_balances_def erc20_transfers_for_accounts_def)
  have spent: "spent_scores_at engine_rpc engine_abi r [] b = retA []" for r b
    by (rule ext) (simp add: spent_scores_at_def none om_of_def)
  have "set_of [] = ([] :: address list)" by (simp add: set_of_def)
  then show ?thesis by (simp add: resolve_claims_def live min spent Let_def)
qed

lemma engine_settle:
  "\<exists>re. settle demo_keccak (\<lambda>_. ''config'') engine_config 7 engine_opened (engine_window m) engine_policy [] = Ok re"
proof -
  let ?in = "kernel_input_of engine_config 7 engine_opened engine_policy []"
  have policy: "validate_policy ?in = Ok ()"
    by (simp add: validate_policy_Ok kernel_input_of_def engine_config_def engine_opened_def engine_policy_def)
  have claims: "ki_claims ?in = []" "ki_pools ?in = []" by (simp_all add: kernel_input_of_def engine_policy_def)
  obtain out where out: "allocate demo_keccak ?in = Ok out"
    using allocate_success [of demo_keccak ?in] by (auto simp: policy claims settled_rows_fst u64_max_def)
  have hash: "claim_set_hash demo_keccak [] = Ok (hash_hex (replicate 32 0))"
    by (simp add: claim_set_hash_def claim_set_accumulator_def Encoding.ZERO_HASH_def)
  have "ordered_claims [] [] = []" "valid_stream []" "resolves [] []"
    by (simp_all add: ordered_claims_def live_ids_def ids_of_def valid_stream_def resolves_def)
  moreover have same: "?in\<lparr>ki_claims := []\<rparr> = ?in" by (simp add: kernel_input_of_def)
  ultimately have alloc: "allocate_with_events demo_keccak ?in [] = Ok (out\<lparr>ko_claim_set_hash := hash_hex (replicate 32 0)\<rparr>)"
    unfolding allocate_with_events_Ok claims using out hash by (simp only: same, blast)
  have root: "ko_root out = hash_hex (replicate 32 0)" "ko_pool_payouts out = []"
    using allocate_empty_tree [OF out claims(1)] allocate_no_pools [OF out claims(2)] by (simp_all add: zero_root_hex)
  have "\<exists>d. settlement_digest demo_keccak
      \<lparr>sd_chain_id = bc_chain_id engine_config, sd_verifying_contract = bc_defi_insurance engine_config, sd_incident_id = 7,
       sd_root = ko_root out, sd_unresolved_claims = in_unresolved_claims (cw_incident (engine_window m)),
       sd_pool_payouts = ko_pool_payouts out, sd_pool_addrs = pt_pool_addrs (po_topology engine_policy),
       sd_claim_set = hash_hex (replicate 32 0), sd_tee_pcr_hash = oi_tee_pcr_hash engine_opened\<rparr> = Ok d"
    by (simp add: settlement_digest_Ok settlement_fields_ok_def root hash32_canonical engine_config_def engine_window_def
        engine_opened_def fits_def)
  with alloc show ?thesis by (auto simp: settle_def engine_window_def engine_opened_def)
qed

lemma engine_run:
  "\<exists>run. build_settlement engine_rpc engine_abi node_events void_files demo_codec demo_keccak (\<lambda>_. ''config'') (\<lambda>_. ''io'')
     engine_config 7 RawMode () = (Ok run, ())"
proof -
  obtain m where window: "read_window engine_rpc engine_abi node_events demo_keccak engine_config 7 engine_opened () = (Ok (engine_window m), ())"
    using engine_read_window by blast
  obtain lm where claims: "resolve_claims engine_rpc engine_abi node_events engine_config engine_opened (engine_window m) engine_policy 1 RawSource ()
      = (Ok ([], lm), ())" using engine_resolve by blast
  obtain re where re: "settle demo_keccak (\<lambda>_. ''config'') engine_config 7 engine_opened (engine_window m) engine_policy [] = Ok re"
    using engine_settle by blast
  let ?run = "settlement_run_of 7 engine_opened (engine_window m) engine_policy re (oi_provisional engine_opened)
    (RawMetadata 1) (rpc_metrics_of engine_rpc ()) lm"
  have anchors: "assert_anchors_unchanged engine_rpc (oi_anchors engine_opened) = retA ()"
    by (rule ext) (simp add: assert_anchors_unchanged_def assert_anchor_def engine_opened_def demo_block_def del: be_bytes.simps)
  have "run_of_input (kernel_input_of engine_config 7 engine_opened engine_policy []) ?run"
    by (simp add: run_of_input_def settlement_run_of_def kernel_input_of_def engine_policy_def)
  moreover have "allocate_with_events demo_keccak (kernel_input_of engine_config 7 engine_opened engine_policy []) (ru_events ?run)
      = Ok (ru_output ?run)" "ru_config_hash ?run = config_hash demo_keccak (\<lambda>_. ''config'') engine_config"
    "settlement_digest demo_keccak (run_digest_input ?run engine_config) = Ok (ru_digest ?run)"
    using re by (auto simp: settle_def settlement_run_of_def run_digest_input_def split: if_splits)
  ultimately have "verify_run demo_keccak (\<lambda>_. ''config'') ?run engine_config = Ok ()" by (intro verify_kernel_output)
  moreover have "is_unsettled ?run"
    by (simp add: is_unsettled_def settlement_run_of_def engine_opened_def zero_root_hex)
  ultimately have checked: "check_run demo_keccak (\<lambda>_. ''config'') (\<lambda>_. ''io'') engine_config ?run = Ok ()"
    by (simp add: check_run_def is_unsettled_def)
  have cutoff: "engine_cutoff_block (in_reference_block (oi_provisional engine_opened))
      (holding_margin_blocks (ic_params (po_incident_config engine_policy))) = 1"
    by (simp add: engine_cutoff_block_def engine_opened_def engine_policy_def)
  have live: "live_registrations (cw_events (engine_window m)) (cw_replay (engine_window m)) = Ok []"
    by (simp add: live_registrations_def engine_window_def)
  have fin: "finish_run engine_rpc engine_abi node_events demo_keccak (\<lambda>_. ''config'') (\<lambda>_. ''io'') engine_config 7 engine_opened
      (engine_window m) engine_policy 1 RawSource () = (Ok ?run, ())"
    using checked by (simp add: finish_run_def claims re engine_incident_at anchors Let_def bindA_apply del: One_nat_def)
  show ?thesis
    by (simp add: build_settlement_def engine_open window engine_read_policy live cutoff open_source_def with_source_def fin Let_def
        bindA_apply del: One_nat_def)
qed

end
