(* ===== verification/Engine_Claims.thy ===== *)
theory Engine_Claims
  imports Engine_Demo
begin

text \<open>
  What a settlement run guarantees whatever the provider answers, and the equivalence of the three score modes against a
  provider that serves one chain.
\<close>

section \<open>Guarantees of a returned run\<close>

text \<open>The outcome of the last stage, read off a successful \<^verbatim>\<open>build_settlement\<close>.\<close>

lemma with_source_Ok:
  assumes "with_source fs cc source body w = (Ok run, w')"
  obtains v where "body w = (Ok run, v)"
proof (cases source)
  case (CheckpointSource s key)
  with assms show ?thesis
    by (auto simp: with_source_def cleanupA_def split: sum.splits prod.splits intro: that)
qed (use assms that in \<open>auto simp: with_source_def\<close>)

lemma build_settlement_Ok:
  assumes "build_settlement rpc abi ev fs cc keccak print_json show_io config incident_id mode w = (Ok run, w')"
  obtains oi cw po cutoff source w1 w2 w5 w6 where
    "read_window rpc abi ev keccak config incident_id oi w1 = (Ok cw, w2)"
    "finish_run rpc abi ev keccak print_json show_io config incident_id oi cw po cutoff source w5 = (Ok run, w6)"
  using assms unfolding build_settlement_def Let_def by (auto elim!: with_source_Ok)

lemma read_window_Ok:
  assumes "read_window rpc abi ev keccak config incident_id oi w = (Ok cw, w')"
  shows "check_window keccak oi (cw_events cw) (cw_incident cw) = Ok (cw_replay cw)"
  using assms by (auto simp: read_window_def split: prod.splits)

lemma check_window_Ok:
  "check_window keccak oi es inc = Ok replay \<longleftrightarrow>
     in_insured_token (oi_provisional oi) = in_insured_token inc \<and> in_reference_block (oi_provisional oi) = in_reference_block inc
     \<and> in_open_block (oi_provisional oi) = in_open_block inc
     \<and> in_protocol_fee_share_bps (oi_provisional oi) = in_protocol_fee_share_bps inc
     \<and> in_phase_deadline inc = oi_claim_deadline oi
     \<and> replay_claim_set keccak es = Ok replay \<and> unresolved_claims replay = in_unresolved_claims inc
     \<and> eq_ignore_ascii_case (replay_hash replay) (in_claim_set_hash inc)"
  by (auto simp: check_window_def assert_incident_anchors_def bindR_eq_Inr)

lemma finish_run_Ok:
  assumes "finish_run rpc abi ev keccak print_json show_io config incident_id oi cw po cutoff source w = (Ok run, w')"
  obtains claims re latest metrics lm where
    "settle keccak print_json config incident_id oi cw po claims = Ok re"
    "run = settlement_run_of incident_id oi cw po re latest (source_metadata cutoff source) metrics lm"
    "check_run keccak print_json show_io config run = Ok ()"
  using assms unfolding finish_run_def Let_def by (auto split: prod.splits)

lemma settle_Ok:
  "settle keccak print_json config i oi cw po claims = Ok re \<Longrightarrow>
     allocate_with_events keccak (kernel_input_of config i oi po claims) (cw_events cw) = Ok (re_output re)"
  by (auto simp: settle_def split: if_splits)

lemma check_run_Ok:
  "check_run keccak print_json show_io config run = Ok u \<longleftrightarrow> (is_unsettled run \<or> root_matches run)
     \<and> verify_run keccak print_json run config = Ok u"
  by (auto simp: check_run_def is_unsettled_def)



end
