(* ===== verification/Score_Modes.thy ===== *)
theory Score_Modes
  imports Engine_Claims
begin

text \<open>
  The three score modes of the engine give the same settlement: whatever source \<^verbatim>\<open>build_settlement\<close> opens, the claims it hands to the
  kernel are the same function of the chain.
\<close>

section \<open>Scores of a source\<close>

text \<open>The score of a claimant at a block, as the ledgers of the scored tokens determine it.\<close>

definition chain_score :: "incident_config \<Rightarrow> (address \<Rightarrow> token_transfer list) \<Rightarrow> u64 \<Rightarrow> address \<Rightarrow> biguint" where
  "chain_score config T as_of user = gross_score
     (\<Sum>s\<leftarrow>ic_scored_tokens config. score_spec (account_balance user (T (st_token s))) 0 (st_decimals s) as_of (st_rates s))"

definition scores_like ::
  "('w, 'z) rpc_scheme \<Rightarrow> abi \<Rightarrow> events \<Rightarrow> incident_config \<Rightarrow> u64 \<Rightarrow> (address \<Rightarrow> biguint) \<Rightarrow> address set \<Rightarrow> score_source \<Rightarrow> bool" where
  "scores_like rpc abi ev config cutoff spec users source \<longleftrightarrow>
     (\<forall>user \<in> users. \<forall>m. yields (source_score rpc abi ev config cutoff source m user) (\<lambda>(v, _). v = spec user))"

text \<open>
  What the provider, and in checkpoint mode the file system, must serve for a mode: the histories of the scored tokens, the
  claimants' balances, and a checkpoint file that is absent or was written for the same chain.
\<close>

definition mode_served ::
  "('w, 'z) rpc_scheme \<Rightarrow> abi \<Rightarrow> events \<Rightarrow> ('w, 'y) files_scheme \<Rightarrow> checkpoint_codec \<Rightarrow> u64 \<Rightarrow> incident_config \<Rightarrow> u64 \<Rightarrow> address list
    \<Rightarrow> u64 \<Rightarrow> (u64 \<Rightarrow> block_anchor) \<Rightarrow> (address \<Rightarrow> token_transfer list) \<Rightarrow> score_mode \<Rightarrow> bool" where
  "mode_served rpc abi ev fs cc chain config cutoff users head blk T mode \<longleftrightarrow>
     answers (chain_id rpc) (Ok chain) \<and> cutoff \<le> head \<and> \<not> list_ex is_zero users
     \<and> (\<forall>s \<in> set (ic_scored_tokens config). serves_balances rpc abi (st_token s) head (T (st_token s)) (set users)
          \<and> (\<exists>logs. serves_transfers rpc ev (st_token s) MAX_LOG_RANGE LOG_RESULT_CAP head logs (T (st_token s))))
     \<and> (case mode of
          RawMode \<Rightarrow> True
        | BulkMode \<Rightarrow> serves_scores rpc ev MAX_LOG_RANGE LOG_RESULT_CAP head blk (Some users) T (ic_scored_tokens config)
        | CheckpointMode p key \<Rightarrow>
            serves_scores rpc ev MAX_LOG_RANGE LOG_RESULT_CAP head blk None T (ic_scored_tokens config)
            \<and> 32 \<le> length key \<and> (\<exists>path. yields (fs_absolute fs p) ((=) path)
                \<and> yields (acquire fs (lock_path_for_checkpoint path)) (\<lambda>_. True)
                \<and> yields (load_checkpoint fs cc path chain key) (\<lambda>st. cs_chain_id st = chain
                    \<and> ready_tokens blk T (ic_scored_tokens config) cutoff (cs_tokens st))))"

lemma serves_balances_sub: "serves_balances rpc abi token head ts A \<Longrightarrow> user \<in> A \<Longrightarrow> serves_balances rpc abi token head ts {user}"
  by (auto simp: serves_balances_def)

lemma raw_scores:
  assumes "mode_served rpc abi ev fs cc chain config cutoff users head blk T mode"
  shows "scores_like rpc abi ev config cutoff (chain_score config T cutoff) (set users) RawSource"
  unfolding scores_like_def
proof (intro ballI allI)
  fix user m assume user: "user \<in> set users"
  have served: "\<forall>s \<in> set (ic_scored_tokens config). \<exists>logs. serves_transfers rpc ev (st_token s) MAX_LOG_RANGE LOG_RESULT_CAP head logs (T (st_token s))"
    "\<forall>s \<in> set (ic_scored_tokens config). serves_balances rpc abi (st_token s) head (T (st_token s)) {user}" "cutoff \<le> head"
    using assms user serves_balances_sub unfolding mode_served_def by blast+
  have "yields (earned_score_of rpc abi ev (ic_scored_tokens config) user cutoff MAX_LOG_RANGE LOG_RESULT_CAP)
      (\<lambda>(v, _). v = chain_score config T cutoff user)"
    using earned_score_yields [OF served] by (simp add: chain_score_def gross_score_def SCORE_SCALE_def ONE_1E18_def)
  from yields_map_err [OF this]
  show "yields (source_score rpc abi ev config cutoff RawSource m user) (\<lambda>(v, _). v = chain_score config T cutoff user)"
    unfolding source_score_def score_source.case by (rule yields_bindA) auto
qed

lemma bulk_scores:
  assumes "mode_served rpc abi ev fs cc chain config cutoff users head blk T BulkMode" "bulk_opened config T cutoff users src"
  shows "scores_like rpc abi ev config cutoff (chain_score config T cutoff) (set users) (BulkSource src)"
  unfolding scores_like_def
proof (intro ballI allI)
  fix user m assume user: "user \<in> set users"
  then have "\<not> is_zero user" using assms(1) by (auto simp: mode_served_def list_ex_iff)
  from bulk_score [OF assms(2) user this] assms(1)
  have "bulk_gross_score_of src user = Ok (chain_score config T cutoff user)"
    by (auto simp: mode_served_def chain_score_def)
  then show "yields (source_score rpc abi ev config cutoff (BulkSource src) m user) (\<lambda>(v, _). v = chain_score config T cutoff user)"
    by (simp add: source_score_def)
qed

lemma checkpoint_scores:
  assumes "mode_served rpc abi ev fs cc chain config cutoff users head blk T (CheckpointMode p key)" "opened_at config blk T cutoff src"
  shows "scores_like rpc abi ev config cutoff (chain_score config T cutoff) (set users) (CheckpointSource src key)"
  unfolding scores_like_def
proof (intro ballI allI)
  fix user m assume user: "user \<in> set users"
  have served: "serves_scores rpc ev MAX_LOG_RANGE LOG_RESULT_CAP head blk None T (ic_scored_tokens config)" "cutoff \<le> head"
    "\<not> is_zero user" "\<forall>s \<in> set (ic_scored_tokens config). serves_balances rpc abi (st_token s) head (T (st_token s)) {user}"
    using assms(1) user serves_balances_sub unfolding mode_served_def score_mode.case list_ex_iff by blast+
  have "yields (checkpoint_gross_score_of rpc abi src user) (\<lambda>v. v = chain_score config T cutoff user)"
    unfolding chain_score_def by (rule checkpoint_score_yields [OF assms(2) served])
  from yields_map_err [OF this]
  show "yields (source_score rpc abi ev config cutoff (CheckpointSource src key) m user) (\<lambda>(v, _). v = chain_score config T cutoff user)"
    unfolding source_score_def score_source.case by (rule yields_bindA) auto
qed

lemma open_source_scores:
  assumes "mode_served rpc abi ev fs cc chain config cutoff users head blk T mode"
  shows "yields (open_source rpc abi ev fs cc chain config cutoff users mode)
    (scores_like rpc abi ev config cutoff (chain_score config T cutoff) (set users))"
proof (cases mode)
  case RawMode
  then show ?thesis using raw_scores [OF assms] by (simp add: open_source_def)
next
  case BulkMode
  have "yields (bulk_open rpc abi ev config cutoff users chain MAX_LOG_RANGE LOG_RESULT_CAP) (bulk_opened config T cutoff users)"
    using assms BulkMode by (intro bulk_open_yields [of _ _ _ _ head blk]) (auto simp: mode_served_def)
  from yields_map_err [OF this] show ?thesis unfolding open_source_def BulkMode score_mode.case
    by (rule yields_bindA) (simp add: bulk_scores [OF assms [unfolded BulkMode]])
next
  case (CheckpointMode p key)
  from assms obtain path where served: "serves_scores rpc ev MAX_LOG_RANGE LOG_RESULT_CAP head blk None T (ic_scored_tokens config)"
    "cutoff \<le> head" "answers (chain_id rpc) (Ok chain)" "32 \<le> length key" "yields (fs_absolute fs p) ((=) path)"
    "yields (acquire fs (lock_path_for_checkpoint path)) (\<lambda>_. True)"
    "yields (load_checkpoint fs cc path chain key) (\<lambda>st. cs_chain_id st = chain
       \<and> ready_tokens blk T (ic_scored_tokens config) cutoff (cs_tokens st))"
    unfolding mode_served_def CheckpointMode score_mode.case by blast
  from yields_map_err [OF checkpoint_open_yields [OF served]] show ?thesis
    unfolding open_source_def CheckpointMode score_mode.case
    by (rule yields_bindA) (simp add: checkpoint_scores [OF assms [unfolded CheckpointMode]])
qed

section \<open>Claims of a run\<close>

definition resolved_claim ::
  "(address \<Rightarrow> biguint) \<Rightarrow> (claim_event \<Rightarrow> biguint) \<Rightarrow> (address, biguint) btree_map \<Rightarrow> (address, biguint) btree_map \<Rightarrow> claim_event \<Rightarrow> claim_input" where
  "resolved_claim spec held minimums spent e =
     \<lparr>ci_claim_id = ev_claim_id e, ci_user = ev_user e, ci_escrow_amount = ev_amount e, ci_min_held = the (map_of minimums (ev_user e)),
      ci_gross_earned_score = spec (ev_user e), ci_spent_score = the (map_of spent (ev_user e)),
      ci_score_to_spend = ev_score_to_spend e, ci_booster_amount = ev_booster_amount e, ci_booster_held = held e\<rparr>"

text \<open>The provider answers each claimant's booster holding.\<close>

definition serves_boosters ::
  "('w, 'z) rpc_scheme \<Rightarrow> abi \<Rightarrow> events \<Rightarrow> booster_config_ret option \<Rightarrow> u64 \<Rightarrow> u64 \<Rightarrow> (claim_event \<Rightarrow> biguint) \<Rightarrow> claim_event list \<Rightarrow> bool" where
  "serves_boosters rpc abi ev booster hold_from reference held es \<longleftrightarrow>
     (\<forall>e \<in> set es. \<forall>m. yields (booster_held rpc abi ev booster hold_from reference m e) (\<lambda>(h, _). h = held e))"

lemma claim_steps_yield:
  assumes "scores_like rpc abi ev (po_incident_config po) cutoff spec (ev_user ` set es) source"
    "serves_boosters rpc abi ev (po_booster po) cutoff reference held es"
    "\<forall>e \<in> set es. ev_user e \<in> dom (map_of minimums) \<and> ev_user e \<in> dom (map_of spent)"
  shows "yields (foldA (claim_step rpc abi ev po cutoff reference source minimums spent) ([], m) es)
    (\<lambda>(cs, _). cs = map (resolved_claim spec held minimums spent) es)"
proof -
  have "yields (foldA (claim_step rpc abi ev po cutoff reference source minimums spent) ([], m) es)
      (\<lambda>acc. fst acc = map (resolved_claim spec held minimums spent) es)"
  proof (rule yields_foldA)
    fix acc :: "claim_input list \<times> log_metrics" and ys e zs
    assume es: "es = ys @ e # zs" and acc: "fst acc = map (resolved_claim spec held minimums spent) ys"
    obtain cs lm where a: "acc = (cs, lm)" by (cases acc)
    from assms(3) es obtain lo sp where maps: "map_of minimums (ev_user e) = Some lo" "map_of spent (ev_user e) = Some sp" by auto
    have score: "yields (source_score rpc abi ev (po_incident_config po) cutoff source x (ev_user e)) (\<lambda>(v, _). v = spec (ev_user e))" for x
      using assms(1) es by (simp add: scores_like_def)
    have boost: "yields (booster_held rpc abi ev (po_booster po) cutoff reference x e) (\<lambda>(h, _). h = held e)" for x
      using assms(2) es by (simp add: serves_boosters_def)
    show "yields (claim_step rpc abi ev po cutoff reference source minimums spent acc e)
        (\<lambda>s'. fst s' = map (resolved_claim spec held minimums spent) (ys @ [e]))"
      unfolding claim_step_def Let_def a prod.case maps ok_or_simps bindA_simps
      by (rule yields_bindA [OF boost], clarsimp, rule yields_bindA [OF score], clarsimp)
        (use acc a maps in \<open>simp add: resolved_claim_def\<close>)
  qed simp
  then show ?thesis by (rule yields_mono) auto
qed


section \<open>Witness\<close>

definition demo_policy_of :: settlement_policy where
  "demo_policy_of = engine_policy\<lparr>po_incident_config := demo_score_config\<rparr>"

definition demo_live :: "claim_event list" where
  "demo_live = [demo_event Register 1 40, demo_event Register 2 41]"

definition demo_held :: "(address, biguint) btree_map" where
  "demo_held = [(demo_alice, 60), (demo_bob, 40)]"

definition demo_spent :: "(address, biguint) btree_map" where
  "demo_spent = [(demo_alice, 1000), (demo_bob, 0)]"

lemma demo_live_users: "map ev_user demo_live = [demo_alice, demo_bob]"
  by (simp add: demo_live_def demo_event_def demo_alice_def demo_bob_def)

lemma demo_live_set: "set (set_of (map ev_user demo_live)) = {demo_alice, demo_bob}"
  by (simp add: demo_live_users)

lemma demo_node_slices:
  "serves_slices demo_node node_events demo_token MAX_LOG_RANGE LOG_RESULT_CAP 100 None demo_ledger"
  "\<exists>logs. serves_transfers demo_node node_events demo_token MAX_LOG_RANGE LOG_RESULT_CAP 100 logs demo_ledger"
proof -
  have "servable 100 LOG_RESULT_CAP demo_ledger"
    by (simp add: servable_def ordered_transfers_def demo_ledger_def tt_position_def MAX_LOG_RESULT_CAP_def LOG_RESULT_CAP_def u64_max_def
        fits_def wf_address_def demo_alice_def demo_bob_def)
  then have "serves_all_transfers demo_node node_events demo_token MAX_LOG_RANGE LOG_RESULT_CAP 100 (map (node_log demo_token) demo_ledger) demo_ledger"
    "serves_transfers demo_node node_events demo_token MAX_LOG_RANGE LOG_RESULT_CAP 100 (map (node_log demo_token) demo_ledger) demo_ledger"
    unfolding demo_node_def
    by (intro node_serves_all_transfers node_serves_transfers; simp add: MAX_INITIAL_LOG_RANGE_def MAX_LOG_RANGE_def)+
  then show "serves_slices demo_node node_events demo_token MAX_LOG_RANGE LOG_RESULT_CAP 100 None demo_ledger"
    "\<exists>logs. serves_transfers demo_node node_events demo_token MAX_LOG_RANGE LOG_RESULT_CAP 100 logs demo_ledger"
    by (auto simp: serves_slices_def)
qed

lemma demo_mode_scores:
  assumes "serves_slices demo_node node_events demo_token MAX_LOG_RANGE LOG_RESULT_CAP 100 tracked demo_ledger"
  shows "serves_scores demo_node node_events MAX_LOG_RANGE LOG_RESULT_CAP 100 demo_block tracked (\<lambda>_. demo_ledger) [demo_scored]"
proof -
  have "serves_blocks demo_node demo_block 100" unfolding demo_node_def by (rule node_serves_blocks) (simp add: u64_max_def)
  then show ?thesis
    using assms demo_solvent
    by (simp add: serves_scores_def demo_scored_def u64_max_def genesis_free_def demo_ledger_def demo_rates_def rates_ascending_def MAX_LOG_RANGE_def)
qed

lemma demo_served:
  assumes "mode \<in> {RawMode, BulkMode, CheckpointMode ''cp'' demo_key}"
  shows "mode_served demo_node node_abi node_events void_files demo_codec 1 (po_incident_config demo_policy_of) 30
    (set_of (map ev_user demo_live)) 100 demo_block (\<lambda>_. demo_ledger) mode"
proof -
  have users: "\<not> list_ex is_zero (set_of (map ev_user demo_live))"
    unfolding list_ex_iff demo_live_set by (simp add: is_zero_def demo_alice_def demo_bob_def)
  have chain: "answers (chain_id demo_node) (Ok 1)" unfolding demo_node_def by (rule node_chain_id)
  have wf: "list_all wf_address (set_of (map ev_user demo_live))"
    unfolding list_all_iff demo_live_set by (simp add: wf_address_def demo_alice_def demo_bob_def)
  have tokens: "ic_scored_tokens (po_incident_config demo_policy_of) = [demo_scored]" "st_token demo_scored = demo_token"
    by (simp_all add: demo_policy_of_def demo_score_config_def demo_scored_def)
  obtain logs where logs: "serves_transfers demo_node node_events demo_token MAX_LOG_RANGE LOG_RESULT_CAP 100 logs demo_ledger"
    using demo_node_slices(2) by blast
  then have bulk: "serves_slices demo_node node_events demo_token MAX_LOG_RANGE LOG_RESULT_CAP 100 (Some (set_of (map ev_user demo_live))) demo_ledger"
    using wf by (auto simp: serves_slices_def)
  have key: "32 \<le> length demo_key" by (simp add: demo_key_def)
  note files = void_files_ok(1) [of "''cp''"] void_files_ok(2) [of "lock_path_for_checkpoint ''cp''"]
    void_files_ok(3) [of demo_codec "''cp''" 1 demo_key demo_block "\<lambda>_. demo_ledger" "[demo_scored]" 30]
  have bal: "serves_balances demo_node node_abi demo_token 100 demo_ledger (set (set_of (map ev_user demo_live)))"
    unfolding demo_live_set by (rule demo_serves_balances)
  from assms consider "mode = RawMode" | "mode = BulkMode" | "mode = CheckpointMode ''cp'' demo_key" by auto
  then show ?thesis
  proof cases
    case 1
    then show ?thesis using users chain bal logs unfolding mode_served_def tokens by (auto simp: tokens)
  next
    case 2
    then show ?thesis using users chain bal logs demo_mode_scores [OF bulk] unfolding mode_served_def tokens by (auto simp: tokens)
  next
    case 3
    then show ?thesis using users chain bal logs demo_mode_scores [OF demo_node_slices(1)] key files
      unfolding mode_served_def tokens 3 score_mode.case by (auto simp: tokens)
  qed
qed


end
