(* ===== verification/Incident_Open.thy ===== *)
theory Incident_Open
  imports Settlement_Run
begin

text \<open>
  Opening an incident (\<^verbatim>\<open>offchain-rust/src/incident_open.rs\<close>): the search for the latest onset of a price drop over
  sampled windows, the admission check \<^verbatim>\<open>precheck_incident_open\<close> and the signed authorization
  \<^verbatim>\<open>build_incident_open\<close>.  Panics of the slices, of the unsigned subtraction and of a zero step are the error
  \<open>IoPanic\<close>; the callers' checks exclude them.
\<close>

definition MAX_INCIDENT_OPEN_SAMPLES :: u64 where "MAX_INCIDENT_OPEN_SAMPLES = 256"
definition MAX_INCIDENT_OPEN_DISCOVERY_POINTS :: u64 where "MAX_INCIDENT_OPEN_DISCOVERY_POINTS = 256"

record incident_open_authorization =
  io_schema_version :: nat
  io_artifact_type :: string
  io_chain_id :: u64
  io_registry :: string
  io_defi_insurance :: string
  io_insured_token :: string
  io_reference_block :: u64
  io_observation_block :: u64
  io_baseline_twap :: string
  io_distress_twap :: string
  io_baseline_ratio_sum :: string
  io_distress_ratio_sum :: string
  io_sample_count :: u64
  io_twap_blocks :: u64
  io_sample_step_blocks :: u64
  io_minimum_drop_bps :: nat
  io_eligibility_hash :: string
  io_incident_id :: string
  io_tee_pcr_hash :: string
  io_open_digest :: string

datatype incident_open_error =
    IoChain chain_error
  | IoChainId u64 u64
  | IoRegistryMismatch
  | IoZeroIncidentId
  | IoFinalizedAheadOfLatest u64 u64
  | IoUnapprovedToken
  | IoUnauthorizedSigner
  | IoZeroPcrCommitment
  | IoActiveIncident
  | IoInvalidPriceConfig
  | IoInsufficientPriceDrop nat
  | IoNoFinalizedCandidateWindow
  | IoDiscoveryTooLarge u64 u64
  | IoHeadChanged
  | IoFinalizedHeadChanged
  | IoTypedData string
  | IoPanic

record incident_open_precheck =
  ip_chain_id :: u64
  ip_registry :: string
  ip_defi_insurance :: string
  ip_insured_token :: string
  ip_reference_block :: u64
  ip_observation_block :: u64
  ip_baseline_twap :: string
  ip_distress_twap :: string
  ip_sample_count :: u64
  ip_twap_blocks :: u64
  ip_sample_step_blocks :: u64
  ip_minimum_drop_bps :: nat

record twap_selection =
  ts_reference_block :: u64
  ts_baseline_sum :: biguint
  ts_distress_sum :: biguint
  ts_sample_count :: u64

record discovery_policy =
  dp_latest_block :: u64
  dp_finalized_block :: u64
  dp_max_age :: u64
  dp_twap_blocks :: u64
  dp_sample_step_blocks :: u64
  dp_minimum_drop_bps :: nat

section \<open>Discovery\<close>

text \<open>Rust's panicking slices and indices, and the panicking subtraction of unbounded integers.\<close>

definition slice_sum :: "nat list \<Rightarrow> nat \<Rightarrow> nat \<Rightarrow> (incident_open_error, nat) result" where
  "slice_sum xs from to = (if from \<le> to \<and> to \<le> length xs then Ok (sum_list (take (to - from) (drop from xs))) else Err IoPanic)"

definition index_or_panic :: "'a list \<Rightarrow> nat \<Rightarrow> (incident_open_error, 'a) result" where
  "index_or_panic xs i = (if i < length xs then Ok (xs ! i) else Err IoPanic)"

definition sub_or_panic :: "nat \<Rightarrow> nat \<Rightarrow> (incident_open_error, nat) result" where
  "sub_or_panic a b = (if b \<le> a then Ok (a - b) else Err IoPanic)"

text \<open>The first and last candidate block and the number of points that must be read.\<close>

definition candidate_bounds :: "discovery_policy \<Rightarrow> (incident_open_error, u64 \<times> u64) result" where
  "candidate_bounds p =
     (let step = dp_sample_step_blocks p;
          earliest = max (max (dp_latest_block p - dp_max_age p) (dp_twap_blocks p)) 1 in
      bindR (ok_or IoNoFinalizedCandidateWindow (checked_sub64 (dp_finalized_block p) (dp_twap_blocks p))) (\<lambda>latest.
      bindR (failR_if (step = 0) IoPanic) (\<lambda>_.
      bindR (ok_or IoInvalidPriceConfig (checked_mul64 (div_ceil earliest step) step)) (\<lambda>first_candidate.
      let last_candidate = latest div step * step in
      bindR (failR_if (first_candidate > last_candidate \<or> first_candidate \<ge> dp_latest_block p) IoNoFinalizedCandidateWindow) (\<lambda>_.
      Ok (first_candidate, last_candidate))))))"

definition candidate_count :: "discovery_policy \<Rightarrow> u64 \<times> u64 \<Rightarrow> u64" where
  "candidate_count p bounds = (snd bounds - fst bounds) div dp_sample_step_blocks p + 1"

definition twap_samples :: "discovery_policy \<Rightarrow> u64" where
  "twap_samples p = dp_twap_blocks p div dp_sample_step_blocks p"

text \<open>The loop that lists the sampled blocks; the step is nonzero there.\<close>

function sampled_blocks :: "u64 \<Rightarrow> u64 \<Rightarrow> u64 \<Rightarrow> u64 list" where
  "sampled_blocks step last_point b =
     (if step = 0 \<or> last_point < b then []
      else b # (case checked_add64 b step of None \<Rightarrow> [] | Some next \<Rightarrow> sampled_blocks step last_point next))"
  by auto
termination by (relation "measure (\<lambda>(step, last_point, b). Suc last_point - b)") auto

declare sampled_blocks.simps [simp del]

definition discovery_points :: "discovery_policy \<Rightarrow> u64 \<times> u64 \<Rightarrow> (incident_open_error, u64 list) result" where
  "discovery_points p bounds =
     bindR (ok_or IoInvalidPriceConfig (checked_add64 (candidate_count p bounds) (saturating_mul64 (twap_samples p) 2))) (\<lambda>point_count.
     bindR (failR_if (point_count > MAX_INCIDENT_OPEN_DISCOVERY_POINTS)
       (IoDiscoveryTooLarge point_count MAX_INCIDENT_OPEN_DISCOVERY_POINTS)) (\<lambda>_.
     bindR (ok_or IoInvalidPriceConfig (checked_add64 (snd bounds) (dp_twap_blocks p))) (\<lambda>last_point.
     Ok (sampled_blocks (dp_sample_step_blocks p) last_point (fst bounds - dp_twap_blocks p)))))"

record discovery_state =
  ds_baseline :: biguint
  ds_distress :: biguint
  ds_selected :: "twap_selection option"
  ds_previous_qualified :: bool

text \<open>\<^verbatim>\<open>10_000u16 - minimum_drop_bps\<close> wraps in the release build.\<close>

definition remaining_bps :: "discovery_policy \<Rightarrow> nat" where
  "remaining_bps p = (10000 + (65536 - dp_minimum_drop_bps p)) mod 65536"

definition slide_windows ::
  "nat list \<Rightarrow> nat \<Rightarrow> nat \<Rightarrow> discovery_state \<Rightarrow> (incident_open_error, discovery_state) result" where
  "slide_windows ratios n i s =
     bindR (index_or_panic ratios i) (\<lambda>r0.
     bindR (sub_or_panic (ds_baseline s) r0) (\<lambda>baseline.
     bindR (index_or_panic ratios (i + n)) (\<lambda>r1.
     bindR (index_or_panic ratios (i + n + 1)) (\<lambda>r2.
     bindR (sub_or_panic (ds_distress s) r2) (\<lambda>distress.
     bindR (index_or_panic ratios (i + n * 2 + 1)) (\<lambda>r3.
     Ok (s\<lparr>ds_baseline := baseline + r1, ds_distress := distress + r3\<rparr>)))))))"

definition candidate_step ::
  "discovery_policy \<Rightarrow> u64 \<times> u64 \<Rightarrow> nat list \<Rightarrow> discovery_state \<Rightarrow> nat \<Rightarrow> (incident_open_error, discovery_state) result" where
  "candidate_step p bounds ratios s i =
     (let qualified = ds_distress s * 10000 < ds_baseline s * remaining_bps p;
          s1 = s\<lparr>ds_selected := (if qualified \<and> \<not> ds_previous_qualified s
                   then Some \<lparr>ts_reference_block = fst bounds + i * dp_sample_step_blocks p, ts_baseline_sum = ds_baseline s,
                              ts_distress_sum = ds_distress s, ts_sample_count = twap_samples p\<rparr>
                   else ds_selected s),
                 ds_previous_qualified := qualified\<rparr> in
      if i + 1 < candidate_count p bounds then slide_windows ratios (twap_samples p) i s1 else Ok s1)"

definition select_onset ::
  "discovery_policy \<Rightarrow> u64 \<times> u64 \<Rightarrow> nat list \<Rightarrow> (incident_open_error, twap_selection) result" where
  "select_onset p bounds ratios =
     (let n = twap_samples p in
      bindR (slice_sum ratios 0 n) (\<lambda>baseline_sum.
      bindR (slice_sum ratios (n + 1) (n * 2 + 1)) (\<lambda>distress_sum.
      bindR (foldR (candidate_step p bounds ratios)
        \<lparr>ds_baseline = baseline_sum, ds_distress = distress_sum, ds_selected = None, ds_previous_qualified = False\<rparr>
        [0..<candidate_count p bounds]) (\<lambda>s.
      ok_or (IoInsufficientPriceDrop (dp_minimum_drop_bps p)) (ds_selected s)))))"

definition discover_incident_open_twap ::
  "('w, 'z) rpc_scheme \<Rightarrow> address \<Rightarrow> bytes \<Rightarrow> discovery_policy \<Rightarrow> ('w, incident_open_error, twap_selection) act" where
  "discover_incident_open_twap rpc conversion_address conversion_call_data p =
     bindA (liftR (candidate_bounds p)) (\<lambda>bounds.
     bindA (liftR (discovery_points p bounds)) (\<lambda>blocks.
     bindA (map_errA IoChain (ratios_at rpc conversion_address conversion_call_data blocks)) (\<lambda>ratios.
       liftR (select_onset p bounds ratios))))"

section \<open>Admission\<close>

text \<open>The chain identifier, the finalized head and the latest head.\<close>

definition read_heads :: "('w, 'z) rpc_scheme \<Rightarrow> ('w, incident_open_error, u64 \<times> block_anchor \<times> block_anchor) act" where
  "read_heads rpc =
     bindA (map_errA IoChain (chain_id rpc)) (\<lambda>actual.
     bindA (guardA (actual \<noteq> CHAIN_ID) (IoChainId actual CHAIN_ID)) (\<lambda>_.
     bindA (map_errA IoChain (finalized_block rpc)) (\<lambda>finalized.
     bindA (map_errA IoChain (latest_block rpc)) (\<lambda>head.
     bindA (guardA (ba_number finalized > ba_number head) (IoFinalizedAheadOfLatest (ba_number finalized) (ba_number head))) (\<lambda>_.
       retA (actual, finalized, head))))))"

definition incident_active :: "u64 \<Rightarrow> incidents_ret \<Rightarrow> u64 \<Rightarrow> bool" where
  "incident_active head_timestamp previous phase_window =
     (if head_timestamp \<le> ir_phase_deadline previous then True
      else if ir_unresolved_claims previous = 0 then False
      else head_timestamp \<le> (ir_phase_deadline previous + phase_window) mod 2 ^ 256)"

definition check_previous ::
  "('w, 'z) rpc_scheme \<Rightarrow> abi \<Rightarrow> address \<Rightarrow> block_anchor \<Rightarrow> u64 \<Rightarrow> ('w, incident_open_error, unit) act" where
  "check_previous rpc abi defi_insurance head next_incident =
     (if next_incident > 1
      then bindA (map_errA IoChain (aggregate_reads rpc abi
               [read_call defi_insurance (incidents abi) (next_incident - 1),
                read_call defi_insurance (incidentPhaseWindow abi) (next_incident - 1)] (ba_number head))) (\<lambda>reads.
           bindA (liftR (map_errR IoChain (decode_read (incidents abi) (reads ! 0)))) (\<lambda>previous.
           bindA (liftR (map_errR IoChain (decode_read (incidentPhaseWindow abi) (reads ! 1)))) (\<lambda>phase_window.
             guardA (incident_active (ba_timestamp head) previous phase_window) IoActiveIncident)))
      else retA ())"

definition invalid_price_config :: "open_price_config_ret \<Rightarrow> u64 \<Rightarrow> bool" where
  "invalid_price_config c max_age \<longleftrightarrow>
     op_twap_blocks c = 0 \<or> op_sample_step_blocks c = 0 \<or> op_sample_step_blocks c > op_twap_blocks c
     \<or> op_twap_blocks c mod op_sample_step_blocks c \<noteq> 0
     \<or> op_twap_blocks c div op_sample_step_blocks c < 2
     \<or> op_twap_blocks c div op_sample_step_blocks c > MAX_INCIDENT_OPEN_SAMPLES
     \<or> op_minimum_drop_bps c = 0 \<or> op_minimum_drop_bps c \<ge> 10000 \<or> op_twap_blocks c \<ge> max_age"

definition open_policy :: "block_anchor \<Rightarrow> block_anchor \<Rightarrow> u64 \<Rightarrow> open_price_config_ret \<Rightarrow> discovery_policy" where
  "open_policy finalized head max_age c =
     \<lparr>dp_latest_block = ba_number head, dp_finalized_block = ba_number finalized, dp_max_age = max_age,
      dp_twap_blocks = op_twap_blocks c, dp_sample_step_blocks = op_sample_step_blocks c,
      dp_minimum_drop_bps = op_minimum_drop_bps c\<rparr>"

definition check_heads_unchanged ::
  "('w, 'z) rpc_scheme \<Rightarrow> block_anchor \<Rightarrow> block_anchor \<Rightarrow> ('w, incident_open_error, unit) act" where
  "check_heads_unchanged rpc finalized head =
     bindA (map_errA IoChain (block_by_number rpc (ba_number finalized))) (\<lambda>f.
     bindA (guardA (ba_hash f \<noteq> ba_hash finalized) IoFinalizedHeadChanged) (\<lambda>_.
     bindA (map_errA IoChain (block_by_number rpc (ba_number head))) (\<lambda>h.
       guardA (ba_hash h \<noteq> ba_hash head) IoHeadChanged)))"

definition open_reads :: "abi \<Rightarrow> address \<Rightarrow> address \<Rightarrow> address \<Rightarrow> call3 list" where
  "open_reads abi registry defi_insurance insured_token =
     [read_call defi_insurance (registry_of abi) (), read_call defi_insurance (nextIncidentId abi) (),
      read_call registry (incidentTimingConfig abi) (), read_call registry (incidentOpenPriceConfig abi) (),
      read_call defi_insurance (getInsuredToken abi) insured_token]"

definition precheck_incident_open ::
  "('w, 'z) rpc_scheme \<Rightarrow> abi \<Rightarrow> address \<Rightarrow> address \<Rightarrow> ('w, incident_open_error, incident_open_precheck) act" where
  "precheck_incident_open rpc abi registry insured_token =
     bindA (read_heads rpc) (\<lambda>(actual, finalized, head).
     bindA (map_errA IoChain (defi_insurance_at rpc abi registry (Some (ba_number head)))) (\<lambda>defi_insurance.
     bindA (map_errA IoChain (aggregate_reads rpc abi (open_reads abi registry defi_insurance insured_token) (ba_number head))) (\<lambda>reads.
     bindA (liftR (map_errR IoChain (decode_read (registry_of abi) (reads ! 0)))) (\<lambda>reverse_registry.
     bindA (guardA (reverse_registry \<noteq> registry) IoRegistryMismatch) (\<lambda>_.
     bindA (liftR (map_errR IoChain (decode_read (nextIncidentId abi) (reads ! 1)))) (\<lambda>next_incident.
     bindA (guardA (next_incident = 0) IoZeroIncidentId) (\<lambda>_.
     bindA (check_previous rpc abi defi_insurance head next_incident) (\<lambda>_.
     bindA (liftR (map_errR IoChain (decode_read (incidentTimingConfig abi) (reads ! 2)))) (\<lambda>timing.
     bindA (liftR (map_errR IoChain (decode_read (incidentOpenPriceConfig abi) (reads ! 3)))) (\<lambda>price_config.
     bindA (guardA (invalid_price_config price_config (tc_max_reference_block_age timing)) IoInvalidPriceConfig) (\<lambda>_.
     bindA (liftR (map_errR IoChain (decode_read (getInsuredToken abi) (reads ! 4)))) (\<lambda>token.
     bindA (guardA (it_max_coverage_bps token = 0) IoUnapprovedToken) (\<lambda>_.
     bindA (discover_incident_open_twap rpc (it_conversion_address token) (it_conversion_call_data token)
              (open_policy finalized head (tc_max_reference_block_age timing) price_config)) (\<lambda>selection.
     bindA (check_heads_unchanged rpc finalized head) (\<lambda>_.
     bindA (liftR (ok_or IoInvalidPriceConfig (checked_add64 (ts_reference_block selection) (op_twap_blocks price_config)))) (\<lambda>observation_block.
       retA \<lparr>ip_chain_id = actual, ip_registry = address_to_string registry,
             ip_defi_insurance = address_to_string defi_insurance, ip_insured_token = address_to_string insured_token,
             ip_reference_block = ts_reference_block selection, ip_observation_block = observation_block,
             ip_baseline_twap = show_nat (ts_baseline_sum selection div ts_sample_count selection),
             ip_distress_twap = show_nat (ts_distress_sum selection div ts_sample_count selection),
             ip_sample_count = ts_sample_count selection, ip_twap_blocks = op_twap_blocks price_config,
             ip_sample_step_blocks = op_sample_step_blocks price_config,
             ip_minimum_drop_bps = op_minimum_drop_bps price_config\<rparr>))))))))))))))))"

section \<open>Authorization\<close>

definition authorization_reads :: "abi \<Rightarrow> address \<Rightarrow> address \<Rightarrow> address \<Rightarrow> address \<Rightarrow> call3 list" where
  "authorization_reads abi registry defi_insurance insured_token expected_signer =
     open_reads abi registry defi_insurance insured_token @
     [read_call defi_insurance (incidentOpenEligibilityHash abi) insured_token,
      read_call defi_insurance (isTeeSigner abi) expected_signer, read_call registry (registry_teePcrHash abi) ()]"

definition open_digest_input ::
  "u64 \<Rightarrow> address \<Rightarrow> address \<Rightarrow> u64 \<Rightarrow> u64 \<Rightarrow> hash \<Rightarrow> hash \<Rightarrow> incident_open_digest_input" where
  "open_digest_input actual defi_insurance insured_token reference_block next_incident tee_pcr_hash eligibility_hash =
     \<lparr>od_chain_id = actual, od_verifying_contract = defi_insurance, od_insured_token = insured_token,
      od_reference_block = reference_block, od_incident_id = next_incident, od_tee_pcr_hash = hash_hex tee_pcr_hash,
      od_eligibility_hash = hash_hex eligibility_hash\<rparr>"

definition build_incident_open ::
  "('w, 'z) rpc_scheme \<Rightarrow> abi \<Rightarrow> (bytes \<Rightarrow> hash) \<Rightarrow> address \<Rightarrow> address \<Rightarrow> address
    \<Rightarrow> ('w, incident_open_error, incident_open_authorization) act" where
  "build_incident_open rpc abi keccak registry insured_token expected_signer =
     bindA (read_heads rpc) (\<lambda>(actual, finalized, head).
     bindA (map_errA IoChain (defi_insurance_at rpc abi registry (Some (ba_number head)))) (\<lambda>defi_insurance.
     bindA (map_errA IoChain (aggregate_reads rpc abi
              (authorization_reads abi registry defi_insurance insured_token expected_signer) (ba_number head))) (\<lambda>reads.
     bindA (liftR (map_errR IoChain (decode_read (registry_of abi) (reads ! 0)))) (\<lambda>reverse_registry.
     bindA (guardA (reverse_registry \<noteq> registry) IoRegistryMismatch) (\<lambda>_.
     bindA (liftR (map_errR IoChain (decode_read (nextIncidentId abi) (reads ! 1)))) (\<lambda>next_incident.
     bindA (guardA (next_incident = 0) IoZeroIncidentId) (\<lambda>_.
     bindA (liftR (map_errR IoChain (decode_read (incidentTimingConfig abi) (reads ! 2)))) (\<lambda>timing.
     bindA (liftR (map_errR IoChain (decode_read (incidentOpenPriceConfig abi) (reads ! 3)))) (\<lambda>price_config.
     bindA (guardA (invalid_price_config price_config (tc_max_reference_block_age timing)) IoInvalidPriceConfig) (\<lambda>_.
     bindA (liftR (map_errR IoChain (decode_read (getInsuredToken abi) (reads ! 4)))) (\<lambda>token.
     bindA (guardA (it_max_coverage_bps token = 0) IoUnapprovedToken) (\<lambda>_.
     bindA (liftR (map_errR IoChain (decode_read (incidentOpenEligibilityHash abi) (reads ! 5)))) (\<lambda>eligibility_hash.
     bindA (liftR (map_errR IoChain (decode_read (isTeeSigner abi) (reads ! 6)))) (\<lambda>signer_authorized.
     bindA (guardA (\<not> signer_authorized) IoUnauthorizedSigner) (\<lambda>_.
     bindA (liftR (map_errR IoChain (decode_read (registry_teePcrHash abi) (reads ! 7)))) (\<lambda>tee_pcr_hash.
     bindA (guardA (list_all (\<lambda>b. b = 0) tee_pcr_hash) IoZeroPcrCommitment) (\<lambda>_.
     bindA (check_previous rpc abi defi_insurance head next_incident) (\<lambda>_.
     bindA (discover_incident_open_twap rpc (it_conversion_address token) (it_conversion_call_data token)
              (open_policy finalized head (tc_max_reference_block_age timing) price_config)) (\<lambda>selection.
     bindA (liftR (ok_or IoInvalidPriceConfig (checked_add64 (ts_reference_block selection) (op_twap_blocks price_config)))) (\<lambda>observation_block.
     bindA (liftR (map_errR (\<lambda>e. IoTypedData (typed_data_error_text e)) (incident_open_digest keccak
              (open_digest_input actual defi_insurance insured_token (ts_reference_block selection) next_incident
                 tee_pcr_hash eligibility_hash)))) (\<lambda>digest.
     bindA (check_heads_unchanged rpc finalized head) (\<lambda>_.
       retA \<lparr>io_schema_version = 1, io_artifact_type = ''incidentOpen'', io_chain_id = actual,
             io_registry = address_to_string registry, io_defi_insurance = address_to_string defi_insurance,
             io_insured_token = address_to_string insured_token, io_reference_block = ts_reference_block selection,
             io_observation_block = observation_block,
             io_baseline_twap = show_nat (ts_baseline_sum selection div ts_sample_count selection),
             io_distress_twap = show_nat (ts_distress_sum selection div ts_sample_count selection),
             io_baseline_ratio_sum = show_nat (ts_baseline_sum selection),
             io_distress_ratio_sum = show_nat (ts_distress_sum selection), io_sample_count = ts_sample_count selection,
             io_twap_blocks = op_twap_blocks price_config, io_sample_step_blocks = op_sample_step_blocks price_config,
             io_minimum_drop_bps = op_minimum_drop_bps price_config, io_eligibility_hash = hash_hex eligibility_hash,
             io_incident_id = show_nat next_incident, io_tee_pcr_hash = hash_hex tee_pcr_hash,
             io_open_digest = digest\<rparr>))))))))))))))))))))))"

end
