(* ===== verification/Incident_Open_Claims.thy ===== *)
theory Incident_Open_Claims
  imports Incident_Open Engine_Demo
begin

text \<open>
  The search for the onset of a price drop refines its specification by whole windows, and what a granted authorization
  has been checked against.
\<close>

section \<open>Windows\<close>

text \<open>The sums of a candidate block over the window before it and over the window after it.\<close>

definition baseline_at :: "(u64 \<Rightarrow> nat) \<Rightarrow> discovery_policy \<Rightarrow> u64 \<Rightarrow> nat" where
  "baseline_at ratio p r = (\<Sum>k<twap_samples p. ratio (r - dp_twap_blocks p + k * dp_sample_step_blocks p))"

definition distress_at :: "(u64 \<Rightarrow> nat) \<Rightarrow> discovery_policy \<Rightarrow> u64 \<Rightarrow> nat" where
  "distress_at ratio p r = (\<Sum>k<twap_samples p. ratio (r + Suc k * dp_sample_step_blocks p))"

definition dropped :: "(u64 \<Rightarrow> nat) \<Rightarrow> discovery_policy \<Rightarrow> u64 \<Rightarrow> bool" where
  "dropped ratio p r \<longleftrightarrow> distress_at ratio p r * 10000 < baseline_at ratio p r * (10000 - dp_minimum_drop_bps p)"

definition candidates :: "discovery_policy \<Rightarrow> u64 \<times> u64 \<Rightarrow> u64 list" where
  "candidates p bounds = map (\<lambda>i. fst bounds + i * dp_sample_step_blocks p) [0..<candidate_count p bounds]"

text \<open>A drop begins at a candidate when it shows there and not at the candidate before.\<close>

definition drop_begins :: "(u64 \<Rightarrow> nat) \<Rightarrow> discovery_policy \<Rightarrow> u64 \<times> u64 \<Rightarrow> u64 \<Rightarrow> bool" where
  "drop_begins ratio p bounds r \<longleftrightarrow>
     dropped ratio p r \<and> (r = fst bounds \<or> \<not> dropped ratio p (r - dp_sample_step_blocks p))"

definition selection_at :: "(u64 \<Rightarrow> nat) \<Rightarrow> discovery_policy \<Rightarrow> u64 \<Rightarrow> twap_selection" where
  "selection_at ratio p r = \<lparr>ts_reference_block = r, ts_baseline_sum = baseline_at ratio p r,
     ts_distress_sum = distress_at ratio p r, ts_sample_count = twap_samples p\<rparr>"

definition discovery_spec :: "(u64 \<Rightarrow> nat) \<Rightarrow> discovery_policy \<Rightarrow> (incident_open_error, twap_selection) result" where
  "discovery_spec ratio p =
     bindR (candidate_bounds p) (\<lambda>bounds.
     bindR (discovery_points p bounds) (\<lambda>_.
     let rs = filter (drop_begins ratio p bounds) (candidates p bounds) in
     if rs = [] then Err (IoInsufficientPriceDrop (dp_minimum_drop_bps p)) else Ok (selection_at ratio p (last rs))))"

definition policy_ok :: "discovery_policy \<Rightarrow> bool" where
  "policy_ok p \<longleftrightarrow> 0 < dp_sample_step_blocks p \<and> 0 < dp_twap_blocks p
     \<and> dp_sample_step_blocks p dvd dp_twap_blocks p \<and> dp_minimum_drop_bps p < 10000"

section \<open>Sampled blocks\<close>

lemma sampled_blocks_eq:
  assumes "0 < step" "b + m * step \<le> u64_max"
  shows "sampled_blocks step (b + m * step) b = map (\<lambda>j. b + j * step) [0..<Suc m]"
  using assms(2)
proof (induction m arbitrary: b)
  case 0
  then show ?case using assms(1)
    by (subst sampled_blocks.simps) (simp add: checked_add64_def sampled_blocks.simps [of step b "b + step"])
next
  case (Suc m)
  from Suc.prems have "b + step \<le> u64_max" by simp
  then have "sampled_blocks step (b + Suc m * step) b = b # sampled_blocks step (b + step + m * step) (b + step)"
    using assms(1) by (subst sampled_blocks.simps) (simp add: checked_add64_def add.assoc)
  also have "\<dots> = b # map (\<lambda>j. b + step + j * step) [0..<Suc m]"
    using Suc.IH [of "b + step"] Suc.prems by (simp add: add.assoc)
  also have "\<dots> = map (\<lambda>j. b + j * step) [0..<Suc (Suc m)]"
    by (simp add: upt_conv_Cons del: upt_Suc) (simp add: map_Suc_upt [symmetric] comp_def add.assoc del: upt_Suc)
  finally show ?case .
qed

lemma bounds_multiples:
  assumes "policy_ok p" "candidate_bounds p = Ok bounds"
  obtains f l where "fst bounds = f * dp_sample_step_blocks p" "snd bounds = l * dp_sample_step_blocks p" "f \<le> l"
    "max (dp_latest_block p - dp_max_age p) (dp_twap_blocks p) \<le> fst bounds" "fst bounds < dp_latest_block p"
    "snd bounds + dp_twap_blocks p \<le> dp_finalized_block p"
proof -
  let ?step = "dp_sample_step_blocks p"
  let ?earliest = "max (max (dp_latest_block p - dp_max_age p) (dp_twap_blocks p)) 1"
  let ?latest = "dp_finalized_block p - dp_twap_blocks p"
  have step: "0 < ?step" using assms(1) by (simp add: policy_ok_def)
  from assms(2) have b: "bounds = (div_ceil ?earliest ?step * ?step, ?latest div ?step * ?step)"
    "dp_twap_blocks p \<le> dp_finalized_block p" "fst bounds \<le> snd bounds" "fst bounds < dp_latest_block p"
    by (auto simp: candidate_bounds_def Let_def split: if_splits)
  show ?thesis
  proof (rule that)
    show "fst bounds = div_ceil ?earliest ?step * ?step" "snd bounds = ?latest div ?step * ?step" using b(1) by auto
    with b(3) step show "div_ceil ?earliest ?step \<le> ?latest div ?step" by simp
    show "max (dp_latest_block p - dp_max_age p) (dp_twap_blocks p) \<le> fst bounds"
      using div_ceil_mult_ge [OF step, of ?earliest] b(1) by (metis fst_conv max.bounded_iff)
    have "?latest div ?step * ?step + dp_twap_blocks p \<le> dp_finalized_block p"
      using div_times_less_eq_dividend [of ?latest ?step] b(2) by linarith
    then show "snd bounds + dp_twap_blocks p \<le> dp_finalized_block p" by (simp add: b(1))
  qed (rule b(4))
qed

lemma discovery_points_eq:
  assumes "policy_ok p" "candidate_bounds p = Ok bounds" "discovery_points p bounds = Ok blocks"
  shows "blocks = map (\<lambda>j. fst bounds - dp_twap_blocks p + j * dp_sample_step_blocks p)
      [0..<candidate_count p bounds + 2 * twap_samples p]"
    "length blocks \<le> 256"
proof -
  let ?step = "dp_sample_step_blocks p"
  obtain f l where fl: "fst bounds = f * ?step" "snd bounds = l * ?step" "f \<le> l" "dp_twap_blocks p \<le> fst bounds"
    using bounds_multiples [OF assms(1,2)] by (metis max.bounded_iff)
  have step: "0 < ?step" and n: "dp_twap_blocks p = twap_samples p * ?step"
    using assms(1) by (auto simp: policy_ok_def twap_samples_def)
  have c: "candidate_count p bounds = l - f + 1"
    using fl step by (simp add: candidate_count_def diff_mult_distrib [symmetric])
  from assms(3) have small: "candidate_count p bounds + saturating_mul64 (twap_samples p) 2 \<le> 256"
    and last: "snd bounds + dp_twap_blocks p \<le> u64_max"
    and blocks: "blocks = sampled_blocks ?step (snd bounds + dp_twap_blocks p) (fst bounds - dp_twap_blocks p)"
    by (auto simp: discovery_points_def MAX_INCIDENT_OPEN_DISCOVERY_POINTS_def split: if_splits)
  have "saturating_mul64 (twap_samples p) 2 = 2 * twap_samples p"
    using small by (auto simp: saturating_mul64_def min_def u64_max_def split: if_splits)
  with small have le: "candidate_count p bounds + 2 * twap_samples p \<le> 256" by simp
  have "snd bounds + dp_twap_blocks p = fst bounds - dp_twap_blocks p + (l - f + 2 * twap_samples p) * ?step"
  proof -
    have "twap_samples p \<le> f" using fl(1,4) n step by simp
    then obtain a where a: "f = twap_samples p + a" by (auto simp: le_iff_add)
    obtain d where d: "l = f + d" using fl(3) by (auto simp: le_iff_add)
    show ?thesis using fl n a d by (simp add: algebra_simps)
  qed
  with blocks last step sampled_blocks_eq [of ?step "fst bounds - dp_twap_blocks p" "l - f + 2 * twap_samples p"] c
  show "blocks = map (\<lambda>j. fst bounds - dp_twap_blocks p + j * ?step) [0..<candidate_count p bounds + 2 * twap_samples p]"
    by simp
  with le show "length blocks \<le> 256" by simp
qed

section \<open>Sliding windows\<close>

text \<open>Sums of \<open>n\<close> consecutive samples, and how they slide.\<close>

definition window :: "nat list \<Rightarrow> nat \<Rightarrow> nat \<Rightarrow> nat" where
  "window rs n i = (\<Sum>k<n. rs ! (i + k))"

lemma slice_sum_window: "i + n \<le> length rs \<Longrightarrow> slice_sum rs i (i + n) = Ok (window rs n i)"
  by (simp add: slice_sum_def window_def sum_list_sum_nth atLeast0LessThan)

lemma window_slide:
  assumes "0 < n"
  shows "rs ! i \<le> window rs n i" "window rs n i - rs ! i + rs ! (i + n) = window rs n (Suc i)"
proof -
  obtain m where n: "n = Suc m" using assms by (cases n) auto
  have "window rs n i = rs ! i + (\<Sum>k<m. rs ! (Suc i + k))" unfolding window_def n by (subst sum.lessThan_Suc_shift) simp
  moreover have "window rs n (Suc i) = (\<Sum>k<m. rs ! (Suc i + k)) + rs ! (i + n)" by (simp add: window_def n)
  ultimately show "rs ! i \<le> window rs n i" "window rs n i - rs ! i + rs ! (i + n) = window rs n (Suc i)" by simp_all
qed

lemma slide_windows_step:
  assumes "0 < n" "i + n * 2 + 1 < length rs" "ds_baseline s = window rs n i" "ds_distress s = window rs n (i + n + 1)"
  shows "slide_windows rs n i s = Ok (s\<lparr>ds_baseline := window rs n (Suc i), ds_distress := window rs n (Suc i + n + 1)\<rparr>)"
proof -
  note slide = window_slide [OF assms(1), of rs i] window_slide [OF assms(1), of rs "i + n + 1"]
  have "i + n + 1 + n = i + n * 2 + 1" by simp
  with slide(4) have d: "window rs n (i + n + 1) - rs ! (i + n + 1) + rs ! (i + n * 2 + 1) = window rs n (Suc i + n + 1)"
    by (simp only: add_Suc)
  have "i < length rs" "i + n < length rs" "i + n + 1 < length rs" using assms(2) by auto
  then show ?thesis using assms(2)
    by (simp only: slide_windows_def index_or_panic_def sub_or_panic_def assms(3,4) slide(1-3) d if_True bindR_Inr)
qed

definition window_dropped :: "discovery_policy \<Rightarrow> nat list \<Rightarrow> nat \<Rightarrow> bool" where
  "window_dropped p rs i \<longleftrightarrow>
     window rs (twap_samples p) (i + twap_samples p + 1) * 10000 < window rs (twap_samples p) i * (10000 - dp_minimum_drop_bps p)"

definition window_begins :: "discovery_policy \<Rightarrow> nat list \<Rightarrow> nat \<Rightarrow> bool" where
  "window_begins p rs i \<longleftrightarrow> window_dropped p rs i \<and> (i = 0 \<or> \<not> window_dropped p rs (i - 1))"

definition window_selection :: "discovery_policy \<Rightarrow> u64 \<times> u64 \<Rightarrow> nat list \<Rightarrow> nat \<Rightarrow> twap_selection" where
  "window_selection p bounds rs i = \<lparr>ts_reference_block = fst bounds + i * dp_sample_step_blocks p,
     ts_baseline_sum = window rs (twap_samples p) i, ts_distress_sum = window rs (twap_samples p) (i + twap_samples p + 1),
     ts_sample_count = twap_samples p\<rparr>"

definition last_option :: "'a list \<Rightarrow> 'a option" where
  "last_option xs = (if xs = [] then None else Some (last xs))"

definition windows_state :: "discovery_policy \<Rightarrow> u64 \<times> u64 \<Rightarrow> nat list \<Rightarrow> nat \<Rightarrow> discovery_state" where
  "windows_state p bounds rs m = (let i = min m (candidate_count p bounds - 1) in
     \<lparr>ds_baseline = window rs (twap_samples p) i, ds_distress = window rs (twap_samples p) (i + twap_samples p + 1),
      ds_selected = map_option (window_selection p bounds rs) (last_option (filter (window_begins p rs) [0..<m])),
      ds_previous_qualified = (0 < m \<and> window_dropped p rs (m - 1))\<rparr>)"

lemma candidate_step_state:
  assumes "policy_ok p" "length rs = candidate_count p bounds + 2 * twap_samples p" "m < candidate_count p bounds"
  shows "candidate_step p bounds rs (windows_state p bounds rs m) m = Ok (windows_state p bounds rs (Suc m))"
proof -
  let ?n = "twap_samples p"
  have n: "0 < ?n" using assms(1) by (auto simp: policy_ok_def twap_samples_def div_greater_zero_iff dvd_imp_le)
  have bps: "remaining_bps p = 10000 - dp_minimum_drop_bps p"
  proof -
    have "10000 + (65536 - dp_minimum_drop_bps p) = 10000 - dp_minimum_drop_bps p + 65536"
      using assms(1) by (simp add: policy_ok_def)
    then show ?thesis unfolding remaining_bps_def by (simp only: mod_add_self2) simp
  qed
  have now: "min m (candidate_count p bounds - 1) = m" using assms(3) by simp
  let ?s = "windows_state p bounds rs m"
  have state: "ds_baseline ?s = window rs ?n m" "ds_distress ?s = window rs ?n (m + ?n + 1)"
    using now by (simp_all add: windows_state_def)
  show ?thesis
  proof (cases "Suc m < candidate_count p bounds")
    case True
    then have "min (Suc m) (candidate_count p bounds - 1) = Suc m" by simp
    moreover have "m + ?n * 2 + 1 < length rs" using True assms(2) by simp
    ultimately show ?thesis using True unfolding candidate_step_def Let_def
      by (simp add: slide_windows_step [OF n] state bps del: One_nat_def)
         (auto simp: windows_state_def window_dropped_def window_begins_def last_option_def window_selection_def)
  next
    case False
    with assms(3) have "min (Suc m) (candidate_count p bounds - 1) = m" by simp
    with False show ?thesis unfolding candidate_step_def windows_state_def now bps
      by (auto simp: Let_def window_dropped_def window_begins_def last_option_def window_selection_def)
  qed
qed

lemma candidate_steps_state:
  assumes "policy_ok p" "length rs = candidate_count p bounds + 2 * twap_samples p" "m \<le> candidate_count p bounds"
  shows "foldR (candidate_step p bounds rs) (windows_state p bounds rs 0) [0..<m] = Ok (windows_state p bounds rs m)"
  using assms(3)
proof (induction m)
  case (Suc m)
  then show ?case using candidate_step_state [OF assms(1,2), of m] by (simp add: foldR_append)
qed simp

lemma select_onset_windows:
  assumes "policy_ok p" "length rs = candidate_count p bounds + 2 * twap_samples p"
  shows "select_onset p bounds rs = ok_or (IoInsufficientPriceDrop (dp_minimum_drop_bps p))
    (map_option (window_selection p bounds rs) (last_option (filter (window_begins p rs) [0..<candidate_count p bounds])))"
proof -
  let ?n = "twap_samples p"
  have c: "1 \<le> candidate_count p bounds" by (simp add: candidate_count_def)
  have "slice_sum rs 0 ?n = Ok (window rs ?n 0)" "slice_sum rs (?n + 1) (?n * 2 + 1) = Ok (window rs ?n (?n + 1))"
    using slice_sum_window [of 0 ?n rs] slice_sum_window [of "?n + 1" ?n rs] assms(2) c
    by (simp_all add: mult_2_right)
  moreover have "windows_state p bounds rs 0 = \<lparr>ds_baseline = window rs ?n 0, ds_distress = window rs ?n (?n + 1),
      ds_selected = None, ds_previous_qualified = False\<rparr>"
    by (simp add: windows_state_def last_option_def)
  ultimately show ?thesis using candidate_steps_state [OF assms order_refl]
    by (simp add: select_onset_def Let_def windows_state_def)
qed

lemma window_ratios:
  assumes "policy_ok p" "candidate_bounds p = Ok bounds" "discovery_points p bounds = Ok blocks" "i < candidate_count p bounds"
  shows "window (map ratio blocks) (twap_samples p) i = baseline_at ratio p (fst bounds + i * dp_sample_step_blocks p)"
    "window (map ratio blocks) (twap_samples p) (i + twap_samples p + 1)
       = distress_at ratio p (fst bounds + i * dp_sample_step_blocks p)"
proof -
  let ?step = "dp_sample_step_blocks p" and ?n = "twap_samples p"
  note blocks = discovery_points_eq [OF assms(1-3)]
  have n: "dp_twap_blocks p = ?n * ?step" using assms(1) by (simp add: policy_ok_def twap_samples_def)
  obtain a where a: "fst bounds = dp_twap_blocks p + a"
    using bounds_multiples [OF assms(1,2)] by (metis max.bounded_iff le_iff_add)
  have at: "map ratio blocks ! j = ratio (a + j * ?step)" if "j < candidate_count p bounds + 2 * ?n" for j
    using that a by (simp add: blocks(1))
  show "window (map ratio blocks) ?n i = baseline_at ratio p (fst bounds + i * ?step)"
    unfolding window_def baseline_at_def using assms(4)
    by (intro sum.cong) (simp_all add: at a algebra_simps)
  show "window (map ratio blocks) ?n (i + ?n + 1) = distress_at ratio p (fst bounds + i * ?step)"
    unfolding window_def distress_at_def using assms(4)
    by (intro sum.cong) (simp_all add: at a n algebra_simps)
qed

lemma select_onset_spec:
  assumes "policy_ok p" "candidate_bounds p = Ok bounds" "discovery_points p bounds = Ok blocks"
  shows "select_onset p bounds (map ratio blocks) = discovery_spec ratio p"
proof -
  let ?c = "\<lambda>i. fst bounds + i * dp_sample_step_blocks p" and ?rs = "map ratio blocks"
  note win = window_ratios [OF assms, of _ ratio]
  have d: "window_dropped p ?rs i \<longleftrightarrow> dropped ratio p (?c i)" if "i < candidate_count p bounds" for i
    by (simp only: window_dropped_def dropped_def win [OF that])
  have step: "0 < dp_sample_step_blocks p" using assms(1) by (simp add: policy_ok_def)
  have "window_begins p ?rs i \<longleftrightarrow> drop_begins ratio p bounds (?c i)" if "i < candidate_count p bounds" for i
  proof (cases i)
    case 0
    with that d show ?thesis by (simp add: window_begins_def drop_begins_def)
  next
    case (Suc j)
    have "?c i - dp_sample_step_blocks p = ?c j" using Suc by simp
    with that d [of i] d [of j] Suc step show ?thesis by (simp add: window_begins_def drop_begins_def)
  qed
  then have onsets: "filter (drop_begins ratio p bounds) (candidates p bounds)
      = map ?c (filter (window_begins p ?rs) [0..<candidate_count p bounds])"
    by (auto simp: candidates_def filter_map comp_def intro!: arg_cong [where f = "map _"] filter_cong)
  have sel: "window_selection p bounds ?rs i = selection_at ratio p (?c i)" if "i < candidate_count p bounds" for i
    by (simp only: window_selection_def selection_at_def win [OF that])
  let ?is = "filter (window_begins p ?rs) [0..<candidate_count p bounds]"
  have len: "length ?rs = candidate_count p bounds + 2 * twap_samples p" using discovery_points_eq(1) [OF assms] by simp
  have "last ?is < candidate_count p bounds" if "?is \<noteq> []"
    using last_in_set [OF that] by auto
  then show ?thesis
    by (simp add: select_onset_windows [OF assms(1) len] discovery_spec_def assms onsets last_option_def last_map sel Let_def)
qed

lemma discovery_refines:
  assumes "policy_ok p"
    "\<And>blocks. blocks \<noteq> [] \<Longrightarrow> length blocks \<le> 256 \<Longrightarrow> answers (ratios_at rpc conversion data blocks) (Ok (map ratio blocks))"
  shows "answers (discover_incident_open_twap rpc conversion data p) (discovery_spec ratio p)"
proof (cases "candidate_bounds p")
  case (Inl e)
  then show ?thesis by (simp add: discover_incident_open_twap_def discovery_spec_def)
next
  case bounds: (Inr bounds)
  show ?thesis
  proof (cases "discovery_points p bounds")
    case (Inl e)
    then show ?thesis by (simp add: discover_incident_open_twap_def discovery_spec_def bounds)
  next
    case points: (Inr blocks)
    note eq = discovery_points_eq [OF assms(1) bounds points]
    have "blocks \<noteq> []" by (auto simp: eq(1) candidate_count_def)
    from assms(2) [OF this eq(2)] have read: "answers (ratios_at rpc conversion data blocks) (Ok (map ratio blocks))" .
    from answers_map_errA [OF this, of IoChain] have "answers (map_errA IoChain (ratios_at rpc conversion data blocks)) (Ok (map ratio blocks))"
      by simp
    then show ?thesis
      by (simp add: discover_incident_open_twap_def bounds points select_onset_spec [OF assms(1) bounds points, symmetric]
          answers_bindA_Inr)
  qed
qed

lemma discovery_sound:
  assumes "policy_ok p" "\<And>blocks rs w w'. ratios_at rpc conversion data blocks w = (Ok rs, w') \<Longrightarrow> rs = map ratio blocks"
    "discover_incident_open_twap rpc conversion data p w = (Ok sel, w')"
  shows "discovery_spec ratio p = Ok sel"
proof -
  from assms(3) obtain bounds blocks rs w1 w2 where run: "candidate_bounds p = Ok bounds" "discovery_points p bounds = Ok blocks"
    "ratios_at rpc conversion data blocks w1 = (Ok rs, w2)" "select_onset p bounds rs = Ok sel"
    by (auto simp: discover_incident_open_twap_def)
  from assms(2) [OF run(3)] run(4) select_onset_spec [OF assms(1) run(1,2)] show ?thesis by simp
qed

text \<open>
  C34.  The discovery of a price drop is exact: for a policy that passed the admission checks and a provider that serves
  the conversion ratio of every requested block, the incremental search over sliding windows never panics or
  underflows and returns what the specification by whole windows returns, which is the latest candidate block at which the
  drop of the mean from the window before to the window after begins to exceed the required basis points, with
  both window sums; when there is none, or no finalized candidate, or too many points, it fails as specified.\<close>

theorem discover_exact:
  assumes "policy_ok p"
    "\<And>blocks. blocks \<noteq> [] \<Longrightarrow> length blocks \<le> 256 \<Longrightarrow> answers (ratios_at rpc conversion data blocks) (Ok (map ratio blocks))"
  shows "answers (discover_incident_open_twap rpc conversion data p) (discovery_spec ratio p)"
  using assms by (rule discovery_refines)

section \<open>Authorizations\<close>

declare act_Ok [simp]

text \<open>What the answers of one authorization must say.\<close>

definition open_admissible ::
  "abi \<Rightarrow> address \<Rightarrow> bytes list \<Rightarrow> u64 \<Rightarrow> open_price_config_ret \<Rightarrow> insured_token_ret \<Rightarrow> u64 \<Rightarrow> hash \<Rightarrow> hash \<Rightarrow> bool" where
  "open_admissible abi registry reads max_age price_config token next_incident tee_pcr_hash eligibility_hash \<longleftrightarrow>
     decode_read (registry_of abi) (reads ! 0) = Ok registry
     \<and> decode_read (nextIncidentId abi) (reads ! 1) = Ok next_incident \<and> 0 < next_incident
     \<and> (\<exists>timing. decode_read (incidentTimingConfig abi) (reads ! 2) = Ok timing \<and> max_age = tc_max_reference_block_age timing)
     \<and> decode_read (incidentOpenPriceConfig abi) (reads ! 3) = Ok price_config
     \<and> \<not> invalid_price_config price_config max_age
     \<and> decode_read (getInsuredToken abi) (reads ! 4) = Ok token \<and> it_max_coverage_bps token \<noteq> 0
     \<and> decode_read (incidentOpenEligibilityHash abi) (reads ! 5) = Ok eligibility_hash
     \<and> decode_read (isTeeSigner abi) (reads ! 6) = Ok True
     \<and> decode_read (registry_teePcrHash abi) (reads ! 7) = Ok tee_pcr_hash \<and> \<not> list_all (\<lambda>b. b = 0) tee_pcr_hash"

lemma open_policy_ok: "\<not> invalid_price_config c max_age \<Longrightarrow> policy_ok (open_policy finalized head max_age c)"
  by (auto simp: policy_ok_def open_policy_def invalid_price_config_def)

lemma read_heads_Ok:
  assumes "read_heads rpc w = (Ok (actual, finalized, head), w')"
  shows "actual = CHAIN_ID" "ba_number finalized \<le> ba_number head" "observed (finalized_block rpc) finalized"
    "observed (latest_block rpc) head"
  using assms by (auto simp: read_heads_def split: if_splits) (erule observedI)+

lemma check_heads_unchanged_Ok:
  assumes "check_heads_unchanged rpc finalized head w = (Ok u, w')"
  obtains f h where "observed (block_by_number rpc (ba_number finalized)) f" "ba_hash f = ba_hash finalized"
    "observed (block_by_number rpc (ba_number head)) h" "ba_hash h = ba_hash head"
  proof -
  from assms obtain f w1 h where "block_by_number rpc (ba_number finalized) w = (Ok f, w1)" "ba_hash f = ba_hash finalized"
    "block_by_number rpc (ba_number head) w1 = (Ok h, w')" "ba_hash h = ba_hash head"
    by (auto simp: check_heads_unchanged_def split: if_splits)
  then show ?thesis by (intro that [of f h] observedI)
qed

lemma build_incident_open_Ok:
  assumes "build_incident_open rpc abi keccak registry insured_token signer w = (Ok auth, w')"
  obtains finalized head defi_insurance reads max_age price_config token next_incident tee_pcr_hash eligibility_hash sel w1 w2 f h where
    "ba_number finalized \<le> ba_number head" "observed (finalized_block rpc) finalized" "observed (latest_block rpc) head"
    "observed (defi_insurance_at rpc abi registry (Some (ba_number head))) defi_insurance"
    "observed (aggregate_reads rpc abi (authorization_reads abi registry defi_insurance insured_token signer) (ba_number head)) reads"
    "open_admissible abi registry reads max_age price_config token next_incident tee_pcr_hash eligibility_hash"
    "discover_incident_open_twap rpc (it_conversion_address token) (it_conversion_call_data token)
       (open_policy finalized head max_age price_config) w1 = (Ok sel, w2)"
    "observed (check_previous rpc abi defi_insurance head next_incident) ()"
    "observed (block_by_number rpc (ba_number finalized)) f" "ba_hash f = ba_hash finalized"
    "observed (block_by_number rpc (ba_number head)) h" "ba_hash h = ba_hash head"
    "incident_open_digest keccak (open_digest_input CHAIN_ID defi_insurance insured_token (ts_reference_block sel) next_incident
       tee_pcr_hash eligibility_hash) = Ok (io_open_digest auth)"
    "io_reference_block auth = ts_reference_block sel" "io_observation_block auth = ts_reference_block sel + op_twap_blocks price_config"
    "io_baseline_ratio_sum auth = show_nat (ts_baseline_sum sel)" "io_distress_ratio_sum auth = show_nat (ts_distress_sum sel)"
proof -
  from assms show ?thesis unfolding build_incident_open_def
    apply (auto split: if_splits)
    apply (erule check_heads_unchanged_Ok)
    apply (frule read_heads_Ok(1))
    apply (rule that)
    apply (erule observedI read_heads_Ok | assumption)+
    apply (simp add: open_admissible_def)
    apply (erule observedI | assumption | simp)+
    done
qed

lemma discovery_spec_Ok:
  assumes "policy_ok p" "discovery_spec ratio p = Ok sel"
  obtains bounds where "candidate_bounds p = Ok bounds" "ts_reference_block sel \<in> set (candidates p bounds)"
    "sel = selection_at ratio p (ts_reference_block sel)" "drop_begins ratio p bounds (ts_reference_block sel)"
    "\<And>c. c \<in> set (candidates p bounds) \<Longrightarrow> ts_reference_block sel < c \<Longrightarrow> \<not> drop_begins ratio p bounds c"
proof -
  from assms(2) obtain bounds where bounds: "candidate_bounds p = Ok bounds"
    and ne: "filter (drop_begins ratio p bounds) (candidates p bounds) \<noteq> []"
    and sel: "sel = selection_at ratio p (last (filter (drop_begins ratio p bounds) (candidates p bounds)))"
    by (auto simp: discovery_spec_def Let_def split: if_splits)
  let ?rs = "filter (drop_begins ratio p bounds) (candidates p bounds)"
  have at: "ts_reference_block sel = last ?rs" by (simp add: sel selection_at_def)
  have "sorted (candidates p bounds)"
    unfolding candidates_def by (auto simp: sorted_iff_nth_mono)
  then have "sorted ?rs" by (rule sorted_wrt_filter)
  have "c \<le> last ?rs" if "c \<in> set ?rs" for c
    using \<open>sorted ?rs\<close> that ne by (auto simp: in_set_conv_nth last_conv_nth sorted_iff_nth_mono simp del: set_filter)
  with last_in_set [OF ne] have facts: "last ?rs \<in> set (candidates p bounds)" "drop_begins ratio p bounds (last ?rs)"
    "c \<in> set (candidates p bounds) \<Longrightarrow> last ?rs < c \<Longrightarrow> \<not> drop_begins ratio p bounds c" for c
    by (auto simp: not_le [symmetric])
  show ?thesis by (rule that [OF bounds, unfolded at]) (rule facts sel | assumption)+
qed

lemma candidate_in_window:
  assumes "policy_ok p" "candidate_bounds p = Ok bounds" "r \<in> set (candidates p bounds)"
  shows "dp_latest_block p - dp_max_age p \<le> r" "dp_twap_blocks p \<le> r" "r + dp_twap_blocks p \<le> dp_finalized_block p"
proof -
  let ?step = "dp_sample_step_blocks p"
  obtain f l where fl: "fst bounds = f * ?step" "snd bounds = l * ?step" "f \<le> l"
    "max (dp_latest_block p - dp_max_age p) (dp_twap_blocks p) \<le> fst bounds"
    "snd bounds + dp_twap_blocks p \<le> dp_finalized_block p" by (rule bounds_multiples [OF assms(1,2)])
  have step: "0 < ?step" using assms(1) by (simp add: policy_ok_def)
  have "candidate_count p bounds = l - f + 1" using fl step by (simp add: candidate_count_def diff_mult_distrib [symmetric])
  with assms(3) obtain i where i: "r = fst bounds + i * ?step" "i \<le> l - f" by (fastforce simp: candidates_def)
  have "(f + i) * ?step \<le> l * ?step" using i(2) fl(3) by (intro mult_right_mono) auto
  then have "r \<le> snd bounds" using fl(1,2) i(1) by (simp add: add_mult_distrib)
  with fl(4,5) i(1) show "dp_latest_block p - dp_max_age p \<le> r" "dp_twap_blocks p \<le> r"
    "r + dp_twap_blocks p \<le> dp_finalized_block p" by auto
qed


section \<open>Witnesses\<close>

text \<open>A provider at whose block 7 the conversion ratio halves; windows of two samples, two blocks apart.\<close>

definition open_ratio_tag :: "string \<Rightarrow> nat" where
  "open_ratio_tag tag = (if tag \<in> set (map hex_tag [0..<7]) then 2 else 1)"

definition open_ratio :: "address \<Rightarrow> bytes \<Rightarrow> u64 \<Rightarrow> nat" where
  "open_ratio a d b = (if is_zero a then ONE_1E18 else open_ratio_tag (hex_tag b))"

definition open_batch :: "string \<Rightarrow> json list \<Rightarrow> (unit, rpc_error, json list) act" where
  "open_batch mth params = retA (map (\<lambda>v. case v of
     JArr [_, JStr tag] \<Rightarrow> JStr (hash_hex (be_bytes 32 (open_ratio_tag tag))) | _ \<Rightarrow> JNull) params)"

definition open_request :: "string \<Rightarrow> json \<Rightarrow> (unit, rpc_error, json) act" where
  "open_request mth params =
     (if mth = ''eth_getBlockByNumber'' \<and> params = JArr [JStr ''latest'', JBool False] then retA (demo_block_json 10)
      else engine_request mth params)"

definition open_rpc :: "unit rpc" where
  "open_rpc = engine_rpc\<lparr>rpc_request := open_request, rpc_batch_request := open_batch\<rparr>"

definition open_abi :: abi where
  "open_abi = engine_abi\<lparr>
     getInsuredToken := const_call ''getInsuredToken'' \<lparr>it_max_coverage_bps = 8000, it_underlying_price_oracle = Address (replicate 20 3),
       it_conversion_address = Address (replicate 20 4), it_conversion_call_data = [1]\<rparr>,
     incidentTimingConfig := const_call ''incidentTimingConfig'' \<lparr>tc_phase_window = 60, tc_max_reference_block_age = 5\<rparr>,
     incidentOpenPriceConfig := const_call ''incidentOpenPriceConfig''
       \<lparr>op_twap_blocks = 4, op_sample_step_blocks = 2, op_minimum_drop_bps = 500\<rparr>\<rparr>"

lemma open_ratios:
  assumes "\<not> is_zero a"
  shows "ratios_at open_rpc a d blocks = (if blocks = [] \<or> length blocks > 256 \<or> length d > 16 * 1024
     then failA (ChainRpc InvalidBatch) else retA (map (open_ratio a d) blocks))"
proof -
  have "decode_ratio a (be_bytes 32 (open_ratio_tag t)) = Ok (open_ratio_tag t)" for t
    by (simp add: decode_ratio_def open_ratio_tag_def Let_def del: be_bytes.simps)
  then have one: "bindR (decode_call_result (JStr (hash_hex (be_bytes 32 (open_ratio_tag t))))) (decode_ratio a) = Ok (open_ratio_tag t)" for t
    by (simp add: decode_call_result_hex del: be_bytes.simps)
  have all: "mapR (\<lambda>result. bindR (decode_call_result result) (decode_ratio a))
      (map (\<lambda>b. JStr (hash_hex (be_bytes 32 (open_ratio_tag (hex_tag b))))) blocks) = Ok (map (open_ratio a d) blocks)"
    using assms by (induction blocks) (simp_all add: one open_ratio_def del: be_bytes.simps)
  have batch: "rpc_batch_request open_rpc m (map (\<lambda>b. call_params a d (hex_tag b)) blocks)
      = retA (map (\<lambda>b. JStr (hash_hex (be_bytes 32 (open_ratio_tag (hex_tag b))))) blocks)" for m
    by (simp add: open_rpc_def open_batch_def call_params_def comp_def del: be_bytes.simps)
  show ?thesis using assms all by (simp add: ratios_at_def batch fun_eq_iff del: be_bytes.simps)
qed

lemma open_ratios_sound: "ratios_at open_rpc a d blocks v = (Ok rs, v') \<Longrightarrow> rs = map (open_ratio a d) blocks"
proof (cases "is_zero a")
  case True
  then have "open_ratio a d = (\<lambda>_. ONE_1E18)" by (simp add: open_ratio_def fun_eq_iff)
  moreover assume "ratios_at open_rpc a d blocks v = (Ok rs, v')"
  ultimately show ?thesis using True by (simp add: ratios_at_def map_replicate_const)
qed (auto simp: open_ratios split: if_splits)

lemma open_heads: "read_heads open_rpc = retA (1, demo_block 10, demo_block 10)"
proof -
  have "chain_id open_rpc = chain_id engine_rpc" "finalized_block open_rpc = finalized_block engine_rpc"
    by (simp_all add: chain_id_def finalized_block_def block_at_def open_rpc_def open_request_def engine_rpc_def)
  moreover have "latest_block open_rpc = retA (demo_block 10)"
    by (simp add: latest_block_def block_at_def open_rpc_def open_request_def parse_block_def demo_block_json_def demo_block_def
        json_index_def quantity_tag block_hash_canonical u64_max_def fun_eq_iff del: be_bytes.simps)
  ultimately show ?thesis by (simp add: read_heads_def CHAIN_ID_def demo_block_def fun_eq_iff)
qed

lemma open_block: "n \<le> 10 \<Longrightarrow> block_by_number open_rpc n = retA (demo_block n)"
proof -
  assume n: "n \<le> 10"
  have "hex_tag n \<noteq> ''latest''" by (simp add: hex_tag_def)
  then have "block_by_number open_rpc n = block_by_number engine_rpc n"
    by (simp add: block_by_number_def block_at_def open_rpc_def open_request_def engine_rpc_def)
  with n show ?thesis by simp
qed

lemma open_raw: "raw_call open_rpc = raw_call engine_rpc"
  by (simp add: raw_call_def open_rpc_def open_request_def engine_rpc_def fun_eq_iff Let_def)

lemma open_aggregate: "aggregate_reads open_rpc open_abi = aggregate_reads engine_rpc engine_abi"
proof -
  have a: "aggregate3 open_abi = aggregate3 engine_abi" by (simp add: open_abi_def)
  have plan: "plan_chunk open_abi = plan_chunk engine_abi" by (rule ext) (simp add: plan_chunk_def a)
  have "read_chunk open_rpc open_abi = read_chunk engine_rpc engine_abi" by (intro ext) (simp add: read_chunk_def a open_raw split: prod.split)
  with plan show ?thesis unfolding aggregate_reads_def [abs_def] by (simp cong: if_cong)
qed

lemma open_fields [simp]:
  "registry_of open_abi = const_call ''registry_of'' (Address (replicate 20 3))"
  "nextIncidentId open_abi = const_call ''nextIncidentId'' 1"
  "incidentTimingConfig open_abi = const_call ''incidentTimingConfig'' \<lparr>tc_phase_window = 60, tc_max_reference_block_age = 5\<rparr>"
  "incidentOpenPriceConfig open_abi = const_call ''incidentOpenPriceConfig''
     \<lparr>op_twap_blocks = 4, op_sample_step_blocks = 2, op_minimum_drop_bps = 500\<rparr>"
  "getInsuredToken open_abi = const_call ''getInsuredToken'' \<lparr>it_max_coverage_bps = 8000,
     it_underlying_price_oracle = Address (replicate 20 3), it_conversion_address = Address (replicate 20 4), it_conversion_call_data = [1]\<rparr>"
  "incidentOpenEligibilityHash open_abi = const_call ''incidentOpenEligibilityHash'' (replicate 32 9)"
  "isTeeSigner open_abi = const_call ''isTeeSigner'' True"
  "registry_teePcrHash open_abi = const_call ''registry_teePcrHash'' (replicate 32 9)"
  "defiInsurance open_abi = const_call ''defiInsurance'' (Address (replicate 20 3))"
  by (simp_all add: open_abi_def engine_abi_def demo_abi_def)

abbreviation open_address :: address where
  "open_address \<equiv> Address (replicate 20 3)"

lemma open_authorization_reads:
  "aggregate_reads open_rpc open_abi (authorization_reads open_abi open_address open_address open_address open_address) 10
     = retA (replicate 8 answer_word)"
proof -
  have "aggregate_reads engine_rpc engine_abi (authorization_reads open_abi open_address open_address open_address open_address) 10
      = retA (replicate (length (authorization_reads open_abi open_address open_address open_address open_address)) answer_word)"
    by (rule engine_reads) (auto simp: authorization_reads_def open_reads_def const_read_call replicate_not_MULTICALL3)
  moreover have "length (authorization_reads open_abi open_address open_address open_address open_address) = 8"
    by (simp add: authorization_reads_def open_reads_def)
  ultimately show ?thesis by (simp only: open_aggregate)
qed

abbreviation open_demo_policy :: discovery_policy where
  "open_demo_policy \<equiv> \<lparr>dp_latest_block = 10, dp_finalized_block = 10, dp_max_age = 5, dp_twap_blocks = 4,
     dp_sample_step_blocks = 2, dp_minimum_drop_bps = 500\<rparr>"

lemma open_tags: "map (\<lambda>b. open_ratio_tag (hex_tag b)) [2, 4, 8, 10] = [2, 2, 1, 1]"
  by code_simp

lemma open_demo_ratio [simp]:
  "open_ratio (Address (replicate 20 4)) d 2 = 2" "open_ratio (Address (replicate 20 4)) d 4 = 2"
  "open_ratio (Address (replicate 20 4)) d 8 = 1" "open_ratio (Address (replicate 20 4)) d 10 = 1"
  using open_tags by (auto simp: open_ratio_def is_zero_def)

lemma open_demo_spec:
  "discovery_spec (open_ratio (Address (replicate 20 4)) d) open_demo_policy
     = Ok \<lparr>ts_reference_block = 6, ts_baseline_sum = 4, ts_distress_sum = 2, ts_sample_count = 2\<rparr>"
proof -
  let ?R = "open_ratio (Address (replicate 20 4)) d"
  have bounds: "candidate_bounds open_demo_policy = Ok (6, 6)"
    by (simp add: candidate_bounds_def checked_sub64_def checked_mul64_def div_ceil_def u64_max_def)
  have points: "\<exists>blocks. discovery_points open_demo_policy (6, 6) = Ok blocks"
    by (simp add: discovery_points_def candidate_count_def twap_samples_def saturating_mul64_def checked_add64_def u64_max_def
        MAX_INCIDENT_OPEN_DISCOVERY_POINTS_def)
  have n: "twap_samples open_demo_policy = 2" by (simp add: twap_samples_def)
  have two: "{..<2::nat} = {0, 1}" by auto
  have sums: "baseline_at ?R open_demo_policy 6 = 4" "distress_at ?R open_demo_policy 6 = 2"
    by (simp_all add: baseline_at_def distress_at_def n two flip: numeral_2_eq_2)
  have c: "candidates open_demo_policy (6, 6) = [6]" by (simp add: candidates_def candidate_count_def)
  have "drop_begins ?R open_demo_policy (6, 6) 6" by (simp add: drop_begins_def dropped_def sums)
  with points show ?thesis by (auto simp: discovery_spec_def bounds c selection_at_def sums n)
qed

lemma open_demo_run:
  "\<exists>auth. build_incident_open open_rpc open_abi toy_keccak open_address open_address open_address () = (Ok auth, ())"
proof -
  have p: "open_policy (demo_block 10) (demo_block 10) 5 \<lparr>op_twap_blocks = 4, op_sample_step_blocks = 2, op_minimum_drop_bps = 500\<rparr>
      = open_demo_policy" by (simp add: open_policy_def demo_block_def)
  have valid: "\<not> invalid_price_config \<lparr>op_twap_blocks = 4, op_sample_step_blocks = 2, op_minimum_drop_bps = 500\<rparr> 5"
    by (simp add: invalid_price_config_def MAX_INCIDENT_OPEN_SAMPLES_def)
  have nz: "\<not> is_zero (Address (replicate 20 4))" by (simp add: is_zero_def)
  have "answers (discover_incident_open_twap open_rpc (Address (replicate 20 4)) [1] open_demo_policy)
      (discovery_spec (open_ratio (Address (replicate 20 4)) [1]) open_demo_policy)"
    by (rule discovery_refines) (auto simp: policy_ok_def open_ratios nz)
  from unit_answers [OF this [unfolded open_demo_spec]]
  have found: "discover_incident_open_twap open_rpc (Address (replicate 20 4)) [1] open_demo_policy
      = retA \<lparr>ts_reference_block = 6, ts_baseline_sum = 4, ts_distress_sum = 2, ts_sample_count = 2\<rparr>" .
  have defi: "defi_insurance_at open_rpc open_abi open_address (Some 10) = retA open_address"
    unfolding defi_insurance_at_def contract_call_def open_raw by (simp add: engine_call [unfolded contract_call_def])
  have ten: "ba_number (demo_block 10) = 10" by (simp add: demo_block_def)
  have same: "check_heads_unchanged open_rpc (demo_block 10) (demo_block 10) = retA ()"
    by (simp add: check_heads_unchanged_def ten open_block fun_eq_iff)
  have previous: "check_previous open_rpc open_abi a b (Suc 0) = retA ()" for a b by (simp add: check_previous_def)
  have pcr: "\<not> list_all (\<lambda>b. b = 0) (replicate 32 (9 :: 8 word))" by (simp add: list_all_iff)
  have "\<exists>d. incident_open_digest toy_keccak (open_digest_input 1 open_address open_address 6 1 (replicate 32 9) (replicate 32 9)) = Ok d"
    by (simp add: incident_open_digest_Ok open_fields_ok_def open_digest_input_def hash32_canonical fits_def)
  then show ?thesis unfolding build_incident_open_def
    using valid pcr
    by (auto simp: open_heads ten defi open_authorization_reads p found same previous nth_replicate checked_add64_def u64_max_def)
qed

theorem discover_exact_witness:
  "answers (discover_incident_open_twap open_rpc (Address (replicate 20 4)) [1] open_demo_policy)
     (Ok \<lparr>ts_reference_block = 6, ts_baseline_sum = 4, ts_distress_sum = 2, ts_sample_count = 2\<rparr>)"
proof -
  have nz: "\<not> is_zero (Address (replicate 20 4))" by (simp add: is_zero_def)
  have "answers (discover_incident_open_twap open_rpc (Address (replicate 20 4)) [1] open_demo_policy)
      (discovery_spec (open_ratio (Address (replicate 20 4)) [1]) open_demo_policy)"
    by (rule discover_exact) (auto simp: policy_ok_def open_ratios nz)
  then show ?thesis by (simp only: open_demo_spec)
qed


end
