(* ===== verification/Insurance_Score.thy ===== *)
theory Insurance_Score
  imports Engine
begin

text \<open>
  The score preview of an account (\<^verbatim>\<open>offchain-rust/src/score.rs\<close>): the finalized reference block, the score matured at the
  cutoff, and the part of it not yet spent.  Both anchors are read again before the answer is given.
\<close>

record insurance_score_snapshot =
  is_network :: string
  is_chain_id :: string
  is_registry :: string
  is_account :: string
  is_reference_block :: string
  is_reference_block_hash :: string
  is_score_cutoff_block :: string
  is_score_cutoff_block_hash :: string
  is_min_holding_required :: string
  is_gross_earned_score :: string
  is_score_spent :: string
  is_available_score :: string
  is_scored_tokens :: "string list"
  is_log_requests :: string

datatype score_error =
    ScChain chain_error
  | ScWrongChain u64 u64
  | ScZeroDefiInsurance

definition score_cutoff_block :: "u64 \<Rightarrow> u64 \<Rightarrow> u64" where
  "score_cutoff_block reference_block min_holding_required =
     (if reference_block > min_holding_required then reference_block - min_holding_required else 1)"

definition available_score :: "biguint \<Rightarrow> biguint \<Rightarrow> biguint" where
  "available_score gross spent = (if gross > spent then gross - spent else 0)"

definition recheck_anchor :: "('w, 'z) rpc_scheme \<Rightarrow> string \<Rightarrow> block_anchor \<Rightarrow> u64 \<Rightarrow> ('w, score_error, unit) act" where
  "recheck_anchor rpc name anchor b =
     bindA (map_errA ScChain (block_by_number rpc b)) (\<lambda>again.
     guardA (ba_hash again \<noteq> ba_hash anchor) (ScChain (AnchorChanged name b (ba_hash anchor) (ba_hash again))))"

definition insurance_score_at ::
  "('w, 'z) rpc_scheme \<Rightarrow> abi \<Rightarrow> events \<Rightarrow> address \<Rightarrow> address \<Rightarrow> ('w, score_error, insurance_score_snapshot) act" where
  "insurance_score_at rpc abi ev registry account =
     bindA (map_errA ScChain (chain_id rpc)) (\<lambda>actual.
     bindA (guardA (actual \<noteq> CHAIN_ID) (ScWrongChain actual CHAIN_ID)) (\<lambda>_.
     bindA (map_errA ScChain (finalized_block rpc)) (\<lambda>finalized.
     bindA (map_errA ScChain (defi_insurance_at rpc abi registry (Some (ba_number finalized)))) (\<lambda>defi_insurance.
     bindA (guardA (is_zero defi_insurance) ScZeroDefiInsurance) (\<lambda>_.
     bindA (map_errA ScChain (score_config_and_spent_at rpc abi registry defi_insurance account (ba_number finalized))) (\<lambda>(config, spent).
     let margin = holding_margin_blocks (scf_params config); cutoff = score_cutoff_block (ba_number finalized) margin in
     bindA (map_errA ScChain (block_by_number rpc cutoff)) (\<lambda>cutoff_anchor.
     bindA (map_errA ScChain (earned_score_of rpc abi ev (scf_scored_tokens config) account cutoff MAX_LOG_RANGE LOG_RESULT_CAP)) (\<lambda>(gross, metrics).
     bindA (recheck_anchor rpc ''score cutoff'' cutoff_anchor cutoff) (\<lambda>_.
     bindA (recheck_anchor rpc ''score reference'' finalized (ba_number finalized)) (\<lambda>_.
       retA \<lparr>is_network = (if CHAIN_ID = 11155111 then ''sepolia'' else ''mainnet''), is_chain_id = show_nat CHAIN_ID,
             is_registry = address_to_string registry, is_account = address_to_string account,
             is_reference_block = show_nat (ba_number finalized), is_reference_block_hash = ba_hash finalized,
             is_score_cutoff_block = show_nat cutoff, is_score_cutoff_block_hash = ba_hash cutoff_anchor,
             is_min_holding_required = show_nat margin, is_gross_earned_score = show_nat gross,
             is_score_spent = show_nat spent, is_available_score = show_nat (available_score gross spent),
             is_scored_tokens = map (\<lambda>t. address_to_string (st_token t)) (scf_scored_tokens config),
             is_log_requests = show_nat (lm_requests metrics)\<rparr>))))))))))"

section \<open>Agreement with the settlement\<close>

lemma score_cutoff_engine: "score_cutoff_block = engine_cutoff_block"
  by (intro ext) (simp add: score_cutoff_block_def engine_cutoff_block_def)

lemma available_score_monus: "available_score gross spent = gross - spent"
  by (simp add: available_score_def)

end
