(* ===== verification/Job_Protocol.thy ===== *)
theory Job_Protocol
  imports Kernel_Json Settlement_Run
begin

text \<open>
  The wire protocol of the job service (first half of \<^verbatim>\<open>offchain-rust/job-api/src/lib.rs\<close>): canonical requests, identifiers
  and storage paths, framed messages, signatures, the digest an attested artifact carries, settlement locators and the launch script.
  SHA-256, HMAC, the elliptic-curve library, serde and the byte streams are parameters; the build is the default one (mainnet).
\<close>

section \<open>Constants\<close>

definition MAX_UINT256 :: string where
  "MAX_UINT256 = ''115792089237316195423570985008687907853269984665640564039457584007913129639935''"

definition JOB_ID_DOMAIN :: bytes where "JOB_ID_DOMAIN = text_bytes ''USD8_TEE_JOB_V3'' @ [0]"
definition REQUEST_COMMITMENT_DOMAIN :: bytes where "REQUEST_COMMITMENT_DOMAIN = text_bytes ''USD8_TEE_REQUEST_V1'' @ [0]"
definition JOB_WIRE_SCHEMA_VERSION :: nat where "JOB_WIRE_SCHEMA_VERSION = 3"
definition STORED_REQUEST_SCHEMA_VERSION :: nat where "STORED_REQUEST_SCHEMA_VERSION = 3"
definition MAX_RESULT_BYTES :: nat where "MAX_RESULT_BYTES = 64 * 1024 * 1024"
definition MAX_ARTIFACT_BYTES :: nat where "MAX_ARTIFACT_BYTES = MAX_RESULT_BYTES - 64 * 1024"
definition MAX_STORED_REQUEST_BYTES :: nat where "MAX_STORED_REQUEST_BYTES = 4096"
definition MAX_CIPHERTEXT_BYTES :: nat where "MAX_CIPHERTEXT_BYTES = 65536"
definition MAX_CIPHERTEXT_B64_BYTES :: nat where "MAX_CIPHERTEXT_B64_BYTES = 4 * div_ceil MAX_CIPHERTEXT_BYTES 3"
definition MAX_ACCESS_KEY_ID_BYTES :: nat where "MAX_ACCESS_KEY_ID_BYTES = 256"
definition MAX_SECRET_ACCESS_KEY_BYTES :: nat where "MAX_SECRET_ACCESS_KEY_BYTES = 256"
definition MAX_SESSION_TOKEN_BYTES :: nat where "MAX_SESSION_TOKEN_BYTES = 4096"
definition MAX_JSON_ESCAPE_EXPANSION :: nat where "MAX_JSON_ESCAPE_EXPANSION = 6"
definition MAX_WIRE_JSON_OVERHEAD_BYTES :: nat where "MAX_WIRE_JSON_OVERHEAD_BYTES = 1024"

definition MAX_WIRE_REQUEST_BYTES :: nat where
  "MAX_WIRE_REQUEST_BYTES = MAX_WIRE_JSON_OVERHEAD_BYTES + MAX_STORED_REQUEST_BYTES
     + MAX_JSON_ESCAPE_EXPANSION * (MAX_ACCESS_KEY_ID_BYTES + MAX_SECRET_ACCESS_KEY_BYTES + MAX_SESSION_TOKEN_BYTES)
     + 2 * MAX_CIPHERTEXT_B64_BYTES"

definition settlement_rpc_url :: string where
  "settlement_rpc_url = ''https://lb.drpc.org/ogrpc?network=ethereum''"

definition settlement_rpc_requires_drpc_key :: bool where
  "settlement_rpc_requires_drpc_key = True"

definition settlement_rpc_authority :: string where
  "settlement_rpc_authority = ''lb.drpc.org:443''"

text \<open>\<^verbatim>\<open>i64::saturating_sub\<close>\<close>

definition saturating_sub_i64 :: "int \<Rightarrow> int \<Rightarrow> int" where
  "saturating_sub_i64 a b = max (- (2 ^ 63)) (min (2 ^ 63 - 1) (a - b))"

definition is_expired :: "int \<Rightarrow> int \<Rightarrow> int \<Rightarrow> bool" where
  "is_expired launched_at now ttl \<longleftrightarrow> ttl > 0 \<and> saturating_sub_i64 now launched_at > ttl"

section \<open>Text predicates\<close>

definition is_hex_digit :: "char \<Rightarrow> bool" where
  "is_hex_digit c \<longleftrightarrow> hex_val c \<noteq> None"

definition is_ascii_upper :: "char \<Rightarrow> bool" where
  "is_ascii_upper c \<longleftrightarrow> 65 \<le> (of_char c :: nat) \<and> (of_char c :: nat) \<le> 90"

definition is_ascii_lower :: "char \<Rightarrow> bool" where
  "is_ascii_lower c \<longleftrightarrow> 97 \<le> (of_char c :: nat) \<and> (of_char c :: nat) \<le> 122"

definition is_ascii_alphanumeric :: "char \<Rightarrow> bool" where
  "is_ascii_alphanumeric c \<longleftrightarrow> is_ascii_digit c \<or> is_ascii_upper c \<or> is_ascii_lower c"

definition is_ascii_control :: "char \<Rightarrow> bool" where
  "is_ascii_control c \<longleftrightarrow> (of_char c :: nat) < 32 \<or> (of_char c :: nat) = 127"

text \<open>Byte-wise lexicographic order, prefixes, substrings and \<^verbatim>\<open>str::replacen(_, _, 1)\<close>.\<close>

fun str_less :: "string \<Rightarrow> string \<Rightarrow> bool" where
  "str_less _ [] = False"
| "str_less [] (_ # _) = True"
| "str_less (a # as) (b # bs) =
     ((of_char a :: nat) < of_char b \<or> (a = b \<and> str_less as bs))"

definition starts_with :: "string \<Rightarrow> string \<Rightarrow> bool" where
  "starts_with pre s \<longleftrightarrow> take (length pre) s = pre"

fun str_contains :: "string \<Rightarrow> string \<Rightarrow> bool" where
  "str_contains pat [] = (pat = [])"
| "str_contains pat (c # s) = (starts_with pat (c # s) \<or> str_contains pat s)"

fun replace_first :: "string \<Rightarrow> string \<Rightarrow> string \<Rightarrow> string" where
  "replace_first pat rep [] = (if pat = [] then rep else [])"
| "replace_first pat rep (c # s) =
     (if starts_with pat (c # s) then rep @ drop (length pat) (c # s) else c # replace_first pat rep s)"

section \<open>Proxy requests\<close>

definition crlf :: bytes where "crlf = [13, 10]"

fun split_crlf :: "bytes \<Rightarrow> bytes option" where
  "split_crlf (a # b # r) = (if a = 13 \<and> b = 10 then Some [] else map_option (Cons a) (split_crlf (b # r)))"
| "split_crlf _ = None"

definition connect_proxy_port :: "bytes \<Rightarrow> nat option" where
  "connect_proxy_port request =
     (if length request > 4096 \<or> drop (length request - 4) request \<noteq> crlf @ crlf then None
      else case split_crlf request of
        None \<Rightarrow> None
      | Some line \<Rightarrow>
          if line = text_bytes ''CONNECT kms.eu-central-1.amazonaws.com:443 HTTP/1.1'' then Some 9001
          else if line = text_bytes (''CONNECT '' @ settlement_rpc_authority @ '' HTTP/1.1'') then Some 9002 else None)"

section \<open>Frames\<close>

datatype wire_error = WireIo | WireTooLarge | WireInvalidJson

text \<open>A byte stream: writing, flushing and exact reads in a world \<open>'w\<close>.\<close>

record 'w stream =
  write_all :: "bytes \<Rightarrow> ('w, unit, unit) act"
  flush_stream :: "('w, unit, unit) act"
  read_exact :: "nat \<Rightarrow> ('w, unit, bytes) act"

definition write_frame_async ::
  "('w, 'z) stream_scheme \<Rightarrow> ('v \<Rightarrow> bytes option) \<Rightarrow> 'v \<Rightarrow> nat \<Rightarrow> ('w, wire_error, unit) act" where
  "write_frame_async st to_vec value max_bytes =
     bindA (liftR (ok_or WireInvalidJson (to_vec value))) (\<lambda>bytes.
     bindA (guardA (bytes = [] \<or> length bytes > max_bytes \<or> length bytes > 2 ^ 32 - 1) WireTooLarge) (\<lambda>_.
     bindA (map_errA (\<lambda>_. WireIo) (write_all st (be_bytes 4 (length bytes)))) (\<lambda>_.
     bindA (map_errA (\<lambda>_. WireIo) (write_all st bytes)) (\<lambda>_.
       map_errA (\<lambda>_. WireIo) (flush_stream st)))))"

definition read_frame_async ::
  "('w, 'z) stream_scheme \<Rightarrow> (bytes \<Rightarrow> 'v option) \<Rightarrow> nat \<Rightarrow> ('w, wire_error, 'v) act" where
  "read_frame_async st from_slice max_bytes =
     bindA (map_errA (\<lambda>_. WireIo) (read_exact st 4)) (\<lambda>prefix.
     let len = of_bytes_be prefix in
     bindA (guardA (len = 0 \<or> len > max_bytes) WireTooLarge) (\<lambda>_.
     bindA (map_errA (\<lambda>_. WireIo) (read_exact st len)) (\<lambda>bytes.
       liftR (ok_or WireInvalidJson (from_slice bytes)))))"

section \<open>Signatures\<close>

record ethereum_signature =
  es_digest :: string
  es_signer :: string
  es_signature :: string

datatype signing_error = InvalidPrivateKey | InvalidDigest | InvalidRecoveryId

text \<open>The elliptic-curve library: keys, uncompressed public points, recoverable signatures and their low-S form.\<close>

record ('k, 's) ecdsa =
  key_from_slice :: "bytes \<Rightarrow> 'k option"
  public_point :: "'k \<Rightarrow> bytes"
  sign_prehash :: "'k \<Rightarrow> bytes \<Rightarrow> ('s \<times> bool \<times> bool) option"
  normalize_s :: "'s \<Rightarrow> 's option"
  signature_bytes :: "'s \<Rightarrow> bytes"

definition ethereum_address :: "('k, 's, 'z) ecdsa_scheme \<Rightarrow> (bytes \<Rightarrow> hash) \<Rightarrow> bytes \<Rightarrow> (signing_error, string) result" where
  "ethereum_address ec keccak private_key =
     bindR (ok_or InvalidPrivateKey (key_from_slice ec private_key)) (\<lambda>key.
     Ok (''0x'' @ hex_encode (drop 12 (keccak (drop 1 (public_point ec key))))))"

definition sign_digest ::
  "('k, 's, 'z) ecdsa_scheme \<Rightarrow> (bytes \<Rightarrow> hash) \<Rightarrow> bytes \<Rightarrow> bytes \<Rightarrow> (signing_error, ethereum_signature) result" where
  "sign_digest ec keccak private_key digest =
     bindR (failR_if (length digest \<noteq> 32) InvalidDigest) (\<lambda>_.
     bindR (ok_or InvalidPrivateKey (key_from_slice ec private_key)) (\<lambda>key.
     bindR (ok_or InvalidDigest (sign_prehash ec key digest)) (\<lambda>(raw, y_odd, x_reduced).
     let (sig, odd) = (case normalize_s ec raw of Some low \<Rightarrow> (low, \<not> y_odd) | None \<Rightarrow> (raw, y_odd)) in
     bindR (failR_if x_reduced InvalidRecoveryId) (\<lambda>_.
     bindR (ethereum_address ec keccak private_key) (\<lambda>signer.
     Ok \<lparr>es_digest = ''0x'' @ hex_encode digest, es_signer = signer,
         es_signature = ''0x'' @ hex_encode (signature_bytes ec sig @ [27 + (if odd then 1 else 0)])\<rparr>)))))"

section \<open>Attested digests\<close>

datatype attestation_error = AttestedInvalid | AttestedMismatch

datatype attested_digest_kind = SettlementDigest | IncidentOpenDigest

definition json_text :: "json \<Rightarrow> string \<Rightarrow> string option" where
  "json_text v k = (case json_get v k of None \<Rightarrow> None | Some x \<Rightarrow> as_str x)"

definition hex32 :: "string \<Rightarrow> bytes option" where
  "hex32 s = (case hex_decode s of None \<Rightarrow> None | Some bs \<Rightarrow> if length bs = 32 then Some bs else None)"

fun is_json_object :: "json \<Rightarrow> bool" where
  "is_json_object (JObj _) = True"
| "is_json_object _ = False"

definition artifact_digest :: "json \<Rightarrow> attested_digest_kind \<Rightarrow> (attestation_error, string) result" where
  "artifact_digest doc expected =
     (case (expected, json_text doc ''settlementDigest'', json_text doc ''openDigest'') of
        (SettlementDigest, Some digest, None) \<Rightarrow> Ok digest
      | (IncidentOpenDigest, None, Some digest) \<Rightarrow>
          if json_text doc ''artifactType'' = Some ''incidentOpen'' then Ok digest else Err AttestedInvalid
      | _ \<Rightarrow> Err AttestedInvalid)"

definition extract_attested_digest :: "json \<Rightarrow> attested_digest_kind \<Rightarrow> (attestation_error, bytes) result" where
  "extract_attested_digest doc expected =
     bindR (failR_if (\<not> is_json_object doc) AttestedInvalid) (\<lambda>_.
     bindR (failR_if (Option.bind (json_get doc ''schemaVersion'') as_u64
              \<noteq> Some (case expected of SettlementDigest \<Rightarrow> 2 | IncidentOpenDigest \<Rightarrow> 1)) AttestedInvalid) (\<lambda>_.
     bindR (artifact_digest doc expected) (\<lambda>digest.
     bindR (ok_or AttestedInvalid (json_text doc ''nitroAttestedDigest'')) (\<lambda>attested.
     bindR (if \<not> eq_ignore_ascii_case digest attested then Err AttestedMismatch
            else bindR (ok_or AttestedInvalid (json_text doc ''teePcrHash'')) (\<lambda>pcr.
                 bindR (ok_or AttestedInvalid (json_text doc ''measuredTeePcrHash'')) (\<lambda>measured.
                 failR_if (\<not> eq_ignore_ascii_case pcr measured) AttestedMismatch))) (\<lambda>_.
     bindR (ok_or AttestedInvalid (Option.bind (json_text doc ''nitroAttestationDocument'') (strip_prefix ''0x''))) (\<lambda>document.
     bindR (failR_if (document = [] \<or> length document mod 2 \<noteq> 0 \<or> \<not> list_all is_hex_digit document) AttestedInvalid) (\<lambda>_.
     bindR (ok_or AttestedInvalid (strip_prefix ''0x'' digest)) (\<lambda>raw.
     ok_or AttestedInvalid (hex32 raw)))))))))"

section \<open>Canonical requests\<close>

record canonical_settlement_request =
  csr_incident_id :: string
  csr_registry :: string

record canonical_open_request =
  cor_insured_token :: string
  cor_registry :: string

datatype canonical_request =
    RequestSettlement canonical_settlement_request
  | RequestOpen canonical_open_request

definition enclave_timeout_seconds :: "canonical_request \<Rightarrow> u64" where
  "enclave_timeout_seconds request = (case request of RequestSettlement _ \<Rightarrow> 1100 | RequestOpen _ \<Rightarrow> 300)"

definition parent_timeout_seconds :: "canonical_request \<Rightarrow> u64" where
  "parent_timeout_seconds request = (case request of RequestSettlement _ \<Rightarrow> 1200 | RequestOpen _ \<Rightarrow> 360)"

datatype protocol_error =
    PrInvalidJson
  | PrInvalidIncidentId
  | PrInvalidRegistry
  | PrInvalidInsuredToken
  | PrRegistryMismatch
  | PrWeakSecret
  | PrInvalidIdempotencyKey
  | PrInvalidJobId
  | PrInvalidChainId
  | PrInvalidDefiInsurance
  | PrInvalidSettlementRoot

definition validate_incident_id :: "string \<Rightarrow> (protocol_error, unit) result" where
  "validate_incident_id value =
     failR_if (value = [] \<or> (length value > 1 \<and> starts_with ''0'' value) \<or> \<not> list_all is_ascii_digit value
         \<or> length value > length MAX_UINT256 \<or> (length value = length MAX_UINT256 \<and> str_less MAX_UINT256 value))
       PrInvalidIncidentId"

definition normalize_address :: "string \<Rightarrow> (protocol_error, string) result" where
  "normalize_address value =
     bindR (ok_or PrInvalidRegistry (strip_prefix ''0x'' value)) (\<lambda>hex.
     bindR (failR_if (length hex \<noteq> 40 \<or> \<not> list_all is_hex_digit hex) PrInvalidRegistry) (\<lambda>_.
     bindR (failR_if (list_all (\<lambda>c. c = CHR ''0'') hex) PrInvalidRegistry) (\<lambda>_.
     Ok (''0x'' @ to_ascii_lowercase hex))))"

definition normalize_registry :: "string \<Rightarrow> (protocol_error, string) result" where
  "normalize_registry value = map_errR (\<lambda>_. PrInvalidRegistry) (normalize_address value)"

definition configured_chain_id :: u64 where "configured_chain_id = 1"

text \<open>
  The libraries the service relies on: serde for the request bodies and the stored records, SHA-256 and HMAC-SHA-256.
  A serializer may fail, as its interface says.
\<close>

record stored_request =
  sq_schema_version :: nat
  sq_job_id :: string
  sq_request :: canonical_request
  sq_created_at :: u64
  sq_expires_at :: u64

record work_attempt =
  wa_generation :: u64
  wa_stored :: stored_request
  wa_launch_retry_at :: u64
  wa_launched :: bool
  wa_completed :: bool
  wa_admission_denied :: bool

record worker_reservation =
  wr_job_id :: string
  wr_launch_until :: u64
  wr_started_at :: "u64 option"

record admission_ledger =
  al_reservations :: "worker_reservation list"
  al_starts :: "u64 list"
  al_observed_at :: u64

datatype terminal_status = TerminalCompleted | TerminalFailed

record terminal_envelope =
  te_schema_version :: nat
  te_job_id :: string
  te_status :: terminal_status
  te_payload :: json

record job_codec =
  jc_settlement_api :: "bytes \<Rightarrow> string option"
  jc_open_api :: "bytes \<Rightarrow> string option"
  jc_request :: "canonical_request \<Rightarrow> bytes option"
  jc_stored :: "stored_request \<Rightarrow> bytes option"
  jc_parse_stored :: "bytes \<Rightarrow> stored_request option"
  jc_attempt :: "work_attempt \<Rightarrow> bytes option"
  jc_parse_attempt :: "bytes \<Rightarrow> work_attempt option"
  jc_ledger :: "admission_ledger \<Rightarrow> bytes option"
  jc_parse_ledger :: "bytes \<Rightarrow> admission_ledger option"
  jc_parse_terminal :: "bytes \<Rightarrow> terminal_envelope option"
  jc_sha256 :: "bytes \<Rightarrow> bytes"
  jc_hmac_sha256 :: "bytes \<Rightarrow> bytes \<Rightarrow> bytes"

definition canonicalize_request :: "('z) job_codec_scheme \<Rightarrow> bytes \<Rightarrow> string \<Rightarrow> (protocol_error, canonical_request) result" where
  "canonicalize_request jc body configured_registry =
     bindR (ok_or PrInvalidJson (jc_settlement_api jc body)) (\<lambda>incident_id.
     bindR (validate_incident_id incident_id) (\<lambda>_.
     bindR (normalize_registry configured_registry) (\<lambda>registry.
     Ok (RequestSettlement \<lparr>csr_incident_id = incident_id, csr_registry = registry\<rparr>))))"

definition canonicalize_open_request :: "('z) job_codec_scheme \<Rightarrow> bytes \<Rightarrow> string \<Rightarrow> (protocol_error, canonical_request) result" where
  "canonicalize_open_request jc body configured_registry =
     bindR (ok_or PrInvalidJson (jc_open_api jc body)) (\<lambda>token.
     bindR (map_errR (\<lambda>_. PrInvalidInsuredToken) (normalize_address token)) (\<lambda>insured_token.
     bindR (normalize_registry configured_registry) (\<lambda>registry.
     Ok (RequestOpen \<lparr>cor_insured_token = insured_token, cor_registry = registry\<rparr>))))"

section \<open>Identifiers and paths\<close>

record job_paths =
  jp_request :: string
  jp_terminal :: string

definition job_paths_new :: "string \<Rightarrow> (protocol_error, job_paths) result" where
  "job_paths_new job_id =
     bindR (failR_if (length job_id \<noteq> 64 \<or> \<not> list_all (\<lambda>c. is_hex_digit c \<and> \<not> is_ascii_upper c) job_id) PrInvalidJobId) (\<lambda>_.
     Ok \<lparr>jp_request = ''requests/'' @ job_id @ ''.json'', jp_terminal = ''terminal/'' @ job_id @ ''.json''\<rparr>)"

definition request_commitment :: "('z) job_codec_scheme \<Rightarrow> bytes \<Rightarrow> bytes" where
  "request_commitment jc canonical = take 16 (jc_sha256 jc (REQUEST_COMMITMENT_DOMAIN @ canonical))"

definition key_char_ok :: "char \<Rightarrow> bool" where
  "key_char_ok c \<longleftrightarrow> is_ascii_alphanumeric c \<or> c \<in> set ''-._:''"

definition derive_job_id :: "('z) job_codec_scheme \<Rightarrow> bytes \<Rightarrow> string \<Rightarrow> canonical_request \<Rightarrow> (protocol_error, string) result" where
  "derive_job_id jc secret idempotency_key request =
     bindR (failR_if (length secret < 32) PrWeakSecret) (\<lambda>_.
     bindR (failR_if (idempotency_key = [] \<or> length idempotency_key > 128 \<or> \<not> list_all key_char_ok idempotency_key)
              PrInvalidIdempotencyKey) (\<lambda>_.
     bindR (ok_or PrInvalidJson (jc_request jc request)) (\<lambda>canonical.
     Ok (hex_encode (take 16 (jc_hmac_sha256 jc secret (JOB_ID_DOMAIN @ text_bytes idempotency_key @ [0] @ canonical)))
         @ hex_encode (request_commitment jc canonical)))))"

definition verify_job_request_binding :: "('z) job_codec_scheme \<Rightarrow> string \<Rightarrow> canonical_request \<Rightarrow> (protocol_error, unit) result" where
  "verify_job_request_binding jc job_id request =
     bindR (job_paths_new job_id) (\<lambda>_.
     bindR (ok_or PrInvalidJson (jc_request jc request)) (\<lambda>canonical.
     bindR (ok_or PrInvalidJobId (hex_decode job_id)) (\<lambda>encoded.
     failR_if (drop 16 encoded \<noteq> request_commitment jc canonical) PrInvalidJobId)))"

definition is_ok :: "('e, 'a) result \<Rightarrow> bool" where
  "is_ok r = (case r of Inl _ \<Rightarrow> False | Inr _ \<Rightarrow> True)"

lemma is_ok_iff: "is_ok r \<longleftrightarrow> (\<exists>x. r = Ok x)"
  by (cases r) (auto simp: is_ok_def)

definition stored_request_is_live :: "('z) job_codec_scheme \<Rightarrow> stored_request \<Rightarrow> u64 \<Rightarrow> bool" where
  "stored_request_is_live jc request now \<longleftrightarrow>
     sq_schema_version request = STORED_REQUEST_SCHEMA_VERSION \<and> sq_created_at request < sq_expires_at request
     \<and> now \<le> sq_expires_at request \<and> is_ok (job_paths_new (sq_job_id request))
     \<and> is_ok (verify_job_request_binding jc (sq_job_id request) (sq_request request))"

section \<open>Settlement locators\<close>

record settlement_locator =
  sl_chain_id :: u64
  sl_registry :: string
  sl_defi_insurance :: string
  sl_incident_id :: string
  sl_root :: string

definition settlement_locator_new ::
  "u64 \<Rightarrow> string \<Rightarrow> string \<Rightarrow> string \<Rightarrow> string \<Rightarrow> (protocol_error, settlement_locator) result" where
  "settlement_locator_new chain registry defi_insurance incident_id root =
     bindR (failR_if (chain = 0) PrInvalidChainId) (\<lambda>_.
     bindR (validate_incident_id incident_id) (\<lambda>_.
     bindR (normalize_registry registry) (\<lambda>registry.
     bindR (map_errR (\<lambda>_. PrInvalidDefiInsurance) (normalize_address defi_insurance)) (\<lambda>defi_insurance.
     bindR (ok_or PrInvalidSettlementRoot (strip_prefix ''0x'' root)) (\<lambda>root_hex.
     bindR (failR_if (length root_hex \<noteq> 64 \<or> \<not> list_all is_hex_digit root_hex \<or> list_all (\<lambda>c. c = CHR ''0'') root_hex)
              PrInvalidSettlementRoot) (\<lambda>_.
     Ok \<lparr>sl_chain_id = chain, sl_registry = registry, sl_defi_insurance = defi_insurance, sl_incident_id = incident_id,
         sl_root = ''0x'' @ to_ascii_lowercase root_hex\<rparr>))))))"

definition locator_key :: "settlement_locator \<Rightarrow> string" where
  "locator_key l = ''settlements/v2/'' @ show_nat (sl_chain_id l) @ ''/'' @ sl_registry l @ ''/'' @ sl_defi_insurance l @ ''/''
     @ sl_incident_id l @ ''/'' @ sl_root l @ ''.json''"

section \<open>Launch script\<close>

record worker_capabilities =
  wc_request_get_url :: string
  wc_signer_get_url :: string
  wc_drpc_get_url :: string
  wc_terminal_put_url :: string

datatype service_error =
    SvInvalidRequest
  | SvNotFound
  | SvSettlementNotEligible
  | SvAdmissionLimited
  | SvUnavailable
  | SvRequestWriteUnavailable
  | SvRequestReadUnavailable
  | SvRequestReadDenied
  | SvRequestReadDeniedDetail string
  | SvRequestReadIdentityDenied
  | SvRequestReadExplicitDenied
  | SvCapabilitiesUnavailable
  | SvLaunchUnavailable
  | SvLaunchUnavailableDetail string
  | SvInvalidStoredResult

definition valid_capability_url :: "string \<Rightarrow> bool" where
  "valid_capability_url value \<longleftrightarrow> length value \<le> 4096 \<and> starts_with ''https://'' value \<and> \<not> list_ex is_ascii_control value"

definition valid_dns_label :: "string \<Rightarrow> nat \<Rightarrow> nat \<Rightarrow> bool" where
  "valid_dns_label value lo hi \<longleftrightarrow> lo \<le> length value \<and> length value \<le> hi
     \<and> list_all (\<lambda>c. is_ascii_lower c \<or> is_ascii_digit c \<or> c = CHR ''-'') value
     \<and> (value \<noteq> [] \<and> is_ascii_alphanumeric (hd value)) \<and> (value \<noteq> [] \<and> is_ascii_alphanumeric (last value))"

definition launch_template_new :: "string \<Rightarrow> (service_error, string) result" where
  "launch_template_new region = (if \<not> valid_dns_label region 3 32 then Err SvInvalidRequest else Ok region)"

definition nl :: string where "nl = [CHR 0x0A]"

definition text_hex :: "string \<Rightarrow> string" where
  "text_hex s = hex_encode (text_bytes s)"

definition launch_script :: "string \<Rightarrow> string \<Rightarrow> worker_capabilities \<Rightarrow> string" where
  "launch_script region job_id c =
     ''#!/bin/bash'' @ nl @ ''set -euo pipefail'' @ nl @ ''umask 077'' @ nl @ ''install -d -m 0700 /run/usd8'' @ nl
     @ ''cat > /run/usd8/job.env <<'' @ [CHR 0x27] @ ''USD8_JOB_ENV'' @ [CHR 0x27] @ nl
     @ ''USD8_JOB_ID='' @ job_id @ nl @ ''AWS_REGION='' @ region @ nl
     @ ''USD8_REQUEST_GET_URL_HEX='' @ text_hex (wc_request_get_url c) @ nl
     @ ''USD8_SIGNER_GET_URL_HEX='' @ text_hex (wc_signer_get_url c) @ nl
     @ ''USD8_DRPC_GET_URL_HEX='' @ text_hex (wc_drpc_get_url c) @ nl
     @ ''USD8_TERMINAL_PUT_URL_HEX='' @ text_hex (wc_terminal_put_url c) @ nl
     @ ''USD8_JOB_ENV'' @ nl @ ''chmod 0600 /run/usd8/job.env'' @ nl @ ''systemctl start usd8-tee-job.service'' @ nl"

definition user_data :: "string \<Rightarrow> string \<Rightarrow> worker_capabilities \<Rightarrow> (service_error, string) result" where
  "user_data region job_id c =
     bindR (map_errR (\<lambda>_. SvInvalidRequest) (job_paths_new job_id)) (\<lambda>_.
     bindR (failR_if (\<not> valid_capability_url (wc_request_get_url c) \<or> \<not> valid_capability_url (wc_signer_get_url c)
         \<or> \<not> valid_capability_url (wc_drpc_get_url c) \<or> \<not> valid_capability_url (wc_terminal_put_url c)
         \<or> \<not> str_contains (''/requests/'' @ job_id @ ''.json'') (wc_request_get_url c)
         \<or> \<not> str_contains (''/terminal/'' @ job_id @ ''.json'') (wc_terminal_put_url c)) SvInvalidRequest) (\<lambda>_.
     let script = launch_script region job_id c in
     bindR (failR_if (length script > 16 * 1024) SvInvalidRequest) (\<lambda>_. Ok script)))"

section \<open>Wire requests\<close>

record job_wire_request =
  jw_schema_version :: nat
  jw_stored_request :: stored_request
  jw_region :: string
  jw_access_key_id :: string
  jw_secret_access_key :: string
  jw_session_token :: string
  jw_signer_ciphertext_b64 :: string
  jw_drpc_ciphertext_b64 :: string

text \<open>\<^verbatim>\<open>Debug\<close> shows no credential and no ciphertext; the derived texts of the stored request and of a string are the library's.\<close>

definition job_wire_debug :: "(stored_request \<Rightarrow> string) \<Rightarrow> (string \<Rightarrow> string) \<Rightarrow> job_wire_request \<Rightarrow> string" where
  "job_wire_debug show_stored show_str r =
     ''JobWireRequest { schema_version: '' @ show_nat (jw_schema_version r) @ '', stored_request: '' @ show_stored (jw_stored_request r)
     @ '', region: '' @ show_str (jw_region r) @ '', credentials: '' @ show_str ''[REDACTED]''
     @ '', ciphertexts: '' @ show_str ''[REDACTED]'' @ '' }''"

section \<open>Canonical work\<close>

definition canonical_work_id :: "('z) job_codec_scheme \<Rightarrow> canonical_request \<Rightarrow> string \<Rightarrow> (service_error, string) result" where
  "canonical_work_id jc request configured_module =
     bindR (map_errR (\<lambda>_. SvInvalidRequest) (normalize_address configured_module)) (\<lambda>module_address.
     bindR (ok_or SvInvalidRequest (jc_request jc request)) (\<lambda>canonical.
     Ok (hex_encode (jc_sha256 jc (text_bytes ''USD8_CANONICAL_WORK_V1'' @ [0] @ be_bytes 8 configured_chain_id
           @ text_bytes module_address @ canonical)))))"

end
