(* ===== verification/Job_Service.thy ===== *)
theory Job_Service
  imports Job_Protocol
begin

text \<open>
  The job service (second half of \<^verbatim>\<open>offchain-rust/job-api/src/lib.rs\<close>): admission of workers against a shared ledger, submission of
  canonical work, polling and settlement lookup.  The object store with its conditional writes, the launcher, the verifier
  and the clocks are the record \<open>job_env\<close>; every call threads the world, in which other invocations may act between two calls.
\<close>

section \<open>Environment and configuration\<close>

record app_config =
  ap_registry :: string
  ap_defi_insurance :: string
  ap_job_secret :: bytes
  ap_max_result_bytes :: nat
  ap_max_inline_result_bytes :: nat
  ap_result_url_ttl_seconds :: u64
  ap_job_ttl_seconds :: u64

datatype create_outcome = Created | Exists bytes

record versioned_object =
  vo_bytes :: bytes
  vo_revision :: string

record admission_policy =
  am_max_active_workers :: nat
  am_max_starts_per_hour :: nat

definition default_admission :: admission_policy where
  "default_admission = \<lparr>am_max_active_workers = 0, am_max_starts_per_hour = 16\<rparr>"

record 'w job_env =
  je_get_versioned :: "string \<Rightarrow> nat \<Rightarrow> ('w, service_error, versioned_object option) act"
  je_compare_exchange :: "string \<Rightarrow> string option \<Rightarrow> bytes \<Rightarrow> ('w, service_error, bool) act"
  je_create :: "string \<Rightarrow> bytes \<Rightarrow> ('w, service_error, create_outcome) act"
  je_get :: "string \<Rightarrow> nat \<Rightarrow> ('w, service_error, bytes option) act"
  je_download_url :: "string \<Rightarrow> u64 \<Rightarrow> ('w, service_error, string) act"
  je_precheck :: "canonical_request \<Rightarrow> ('w, service_error, unit) act"
  je_can_release :: "string \<Rightarrow> u64 \<Rightarrow> u64 \<Rightarrow> ('w, service_error, bool) act"
  je_launch_before :: "string \<Rightarrow> u64 \<Rightarrow> ('w, service_error, unit) act"
  je_verify :: "(canonical_request \<Rightarrow> terminal_envelope \<Rightarrow> ('w, service_error, unit) act) option"
  je_clock :: "('w, service_error, u64) act"
  je_system_time :: "('w, service_error, u64 option) act"

text \<open>The default methods of the launcher interface.\<close>

definition default_precheck :: "canonical_request \<Rightarrow> ('w, service_error, unit) act" where
  "default_precheck request = (case request of RequestOpen _ \<Rightarrow> retA () | RequestSettlement _ \<Rightarrow> failA SvUnavailable)"

definition default_can_release ::
  "(string \<Rightarrow> ('w, service_error, bool) act) \<Rightarrow> string \<Rightarrow> u64 \<Rightarrow> u64 \<Rightarrow> ('w, service_error, bool) act" where
  "default_can_release is_terminated job_id launch_until now =
     (if now \<le> saturating_add64 launch_until 900 then retA False else is_terminated job_id)"

record submit_outcome =
  so_accepted :: bool
  so_job_id :: string

record result_download =
  rd_url :: string
  rd_sha256 :: string
  rd_bytes :: nat
  rd_expires_in_seconds :: u64

record poll_outcome =
  pl_job_id :: string
  pl_status :: string
  pl_api_verified :: bool
  pl_payload :: "json option"
  pl_download :: "result_download option"

definition terminal_completed :: "string \<Rightarrow> json \<Rightarrow> terminal_envelope" where
  "terminal_completed job_id payload =
     \<lparr>te_schema_version = 1, te_job_id = job_id, te_status = TerminalCompleted, te_payload = payload\<rparr>"

definition terminal_failed :: "string \<Rightarrow> string \<Rightarrow> terminal_envelope" where
  "terminal_failed job_id code =
     \<lparr>te_schema_version = 1, te_job_id = job_id, te_status = TerminalFailed, te_payload = JObj [(''code'', JStr code)]\<rparr>"

definition app_config_ok :: "app_config \<Rightarrow> (service_error, unit) result" where
  "app_config_ok c =
     bindR (map_errR (\<lambda>_. SvInvalidRequest) (normalize_registry (ap_registry c))) (\<lambda>_.
     bindR (map_errR (\<lambda>_. SvInvalidRequest) (normalize_address (ap_defi_insurance c))) (\<lambda>_.
     failR_if (length (ap_job_secret c) < 32 \<or> ap_max_result_bytes c = 0 \<or> ap_max_inline_result_bytes c = 0
         \<or> ap_max_inline_result_bytes c > ap_max_result_bytes c
         \<or> \<not> (1 \<le> ap_result_url_ttl_seconds c \<and> ap_result_url_ttl_seconds c \<le> 3600)
         \<or> \<not> (300 \<le> ap_job_ttl_seconds c \<and> ap_job_ttl_seconds c \<le> 86400)) SvInvalidRequest))"

definition with_admission_policy :: "admission_policy \<Rightarrow> (service_error, admission_policy) result" where
  "with_admission_policy policy =
     (if am_max_active_workers policy > 128 \<or> \<not> (1 \<le> am_max_starts_per_hour policy \<and> am_max_starts_per_hour policy \<le> 1024)
      then Err SvInvalidRequest else Ok policy)"

text \<open>A bounded retry: \<open>None\<close> is \<^verbatim>\<open>continue\<close>, and the last failure is \<^verbatim>\<open>Unavailable\<close>.\<close>

fun retry_loop :: "nat \<Rightarrow> ('w, service_error, 'a option) act \<Rightarrow> ('w, service_error, 'a) act" where
  "retry_loop 0 body = failA SvUnavailable"
| "retry_loop (Suc n) body = bindA body (\<lambda>r. case r of Some x \<Rightarrow> retA x | None \<Rightarrow> retry_loop n body)"

section \<open>Admission\<close>

definition ADMISSION_KEY :: string where "ADMISSION_KEY = ''control/admission/v1.json''"
definition MAX_CONTROL_BYTES :: nat where "MAX_CONTROL_BYTES = 524288"
definition MAX_RESERVATIONS :: nat where "MAX_RESERVATIONS = 2048"

definition empty_ledger :: admission_ledger where
  "empty_ledger = \<lparr>al_reservations = [], al_starts = [], al_observed_at = 0\<rparr>"

definition read_ledger :: "('z) job_codec_scheme \<Rightarrow> versioned_object option \<Rightarrow> (service_error, admission_ledger) result" where
  "read_ledger jc current =
     bindR (case current of Some v \<Rightarrow> ok_or SvInvalidStoredResult (jc_parse_ledger jc (vo_bytes v)) | None \<Rightarrow> Ok empty_ledger) (\<lambda>ledger.
     bindR (failR_if (length (al_reservations ledger) > MAX_RESERVATIONS \<or> length (al_starts ledger) > 1024) SvInvalidStoredResult) (\<lambda>_.
     Ok ledger))"

definition clock_ok :: "admission_ledger \<Rightarrow> u64 \<Rightarrow> bool" where
  "clock_ok ledger now \<longleftrightarrow> \<not> (now = 0 \<or> now < al_observed_at ledger \<or> list_ex (\<lambda>started. started > now) (al_starts ledger))"

definition retain_until :: "worker_reservation \<Rightarrow> u64" where
  "retain_until slot = max (saturating_add64 (case wr_started_at slot of Some t \<Rightarrow> t | None \<Rightarrow> wr_launch_until slot) 3600)
     (saturating_add64 (wr_launch_until slot) 900)"

definition release_step ::
  "('w, 'y) job_env_scheme \<Rightarrow> admission_policy \<Rightarrow> u64 \<Rightarrow> worker_reservation list \<Rightarrow> worker_reservation
    \<Rightarrow> ('w, service_error, worker_reservation list) act" where
  "release_step env policy now retained slot =
     bindA (liftR (map_errR (\<lambda>_. SvInvalidStoredResult) (job_paths_new (wr_job_id slot)))) (\<lambda>_.
     bindA (if am_max_active_workers policy = 0 then retA (now > retain_until slot)
            else bindA (tryA (je_can_release env (wr_job_id slot) (wr_launch_until slot) now)) (\<lambda>r. retA (r = Ok True))) (\<lambda>released.
     retA (if released then retained else retained @ [slot])))"

text \<open>The new ledger and whether the request is denied.\<close>

definition admit ::
  "admission_policy \<Rightarrow> string \<Rightarrow> u64 \<Rightarrow> u64 \<Rightarrow> worker_reservation list \<Rightarrow> admission_ledger \<Rightarrow> bool \<times> admission_ledger" where
  "admit policy job_id launch_until now retained ledger =
     (let starts = filter (\<lambda>started. started > now \<or> now - started \<le> 3600) (al_starts ledger);
          denied = (am_max_active_workers policy > 0 \<and> length retained \<ge> am_max_active_workers policy)
            \<or> length starts \<ge> am_max_starts_per_hour policy \<or> length retained \<ge> MAX_RESERVATIONS in
      (denied,
       if denied then \<lparr>al_reservations = retained, al_starts = starts, al_observed_at = now\<rparr>
       else \<lparr>al_reservations = retained @ [\<lparr>wr_job_id = job_id, wr_launch_until = launch_until, wr_started_at = Some now\<rparr>],
             al_starts = starts @ [now], al_observed_at = now\<rparr>))"

definition reserve_new ::
  "('w, 'y) job_env_scheme \<Rightarrow> ('z) job_codec_scheme \<Rightarrow> admission_policy \<Rightarrow> string \<Rightarrow> u64 \<Rightarrow> u64 \<Rightarrow> admission_ledger \<Rightarrow> string option
    \<Rightarrow> ('w, service_error, (service_error, unit) result option) act" where
  "reserve_new env jc policy job_id launch_until now ledger revision =
     bindA (foldA (release_step env policy now) [] (al_reservations ledger)) (\<lambda>retained.
     let (denied, ledger') = admit policy job_id launch_until now retained ledger in
     bindA (liftR (ok_or SvUnavailable (jc_ledger jc ledger'))) (\<lambda>bytes.
     bindA (je_compare_exchange env ADMISSION_KEY revision bytes) (\<lambda>won.
     retA (if won then Some (if denied then Err SvAdmissionLimited else Ok ()) else None))))"

definition reserve_attempt ::
  "('w, 'y) job_env_scheme \<Rightarrow> ('z) job_codec_scheme \<Rightarrow> admission_policy \<Rightarrow> string \<Rightarrow> u64
    \<Rightarrow> ('w, service_error, (service_error, unit) result option) act" where
  "reserve_attempt env jc policy job_id launch_until =
     bindA (je_get_versioned env ADMISSION_KEY MAX_CONTROL_BYTES) (\<lambda>current.
     bindA (liftR (read_ledger jc current)) (\<lambda>ledger.
     bindA (je_clock env) (\<lambda>now.
     bindA (guardA (\<not> clock_ok ledger now) SvUnavailable) (\<lambda>_.
     case find (\<lambda>slot. wr_job_id slot = job_id) (al_reservations ledger) of
       Some slot \<Rightarrow> retA (Some (if wr_launch_until slot = launch_until then Ok () else Err SvInvalidStoredResult))
     | None \<Rightarrow> reserve_new env jc policy job_id launch_until now ledger (map_option vo_revision current)))))"

definition reserve_worker ::
  "('w, 'y) job_env_scheme \<Rightarrow> ('z) job_codec_scheme \<Rightarrow> admission_policy \<Rightarrow> string \<Rightarrow> u64 \<Rightarrow> ('w, service_error, unit) act" where
  "reserve_worker env jc policy job_id launch_until =
     bindA (retry_loop 16 (reserve_attempt env jc policy job_id launch_until)) liftR"

section \<open>Terminal evidence\<close>

definition parse_terminal ::
  "('z) job_codec_scheme \<Rightarrow> app_config \<Rightarrow> bytes \<Rightarrow> string option \<Rightarrow> (service_error, terminal_envelope) result" where
  "parse_terminal jc c bytes expected_job_id =
     bindR (failR_if (length bytes > ap_max_result_bytes c) SvInvalidStoredResult) (\<lambda>_.
     bindR (ok_or SvInvalidStoredResult (jc_parse_terminal jc bytes)) (\<lambda>terminal.
     bindR (failR_if (te_schema_version terminal \<noteq> 1
         \<or> (case expected_job_id of Some j \<Rightarrow> te_job_id terminal \<noteq> j | None \<Rightarrow> False)
         \<or> \<not> is_ok (job_paths_new (te_job_id terminal)) \<or> \<not> is_json_object (te_payload terminal)) SvInvalidStoredResult) (\<lambda>_.
     Ok terminal)))"

definition required_text :: "json \<Rightarrow> string \<Rightarrow> (service_error, string) result" where
  "required_text v k = ok_or SvInvalidStoredResult (json_text v k)"

definition settlement_locator_from_terminal ::
  "terminal_envelope \<Rightarrow> string \<Rightarrow> (service_error, settlement_locator option) result" where
  "settlement_locator_from_terminal terminal configured_registry =
     (if te_status terminal \<noteq> TerminalCompleted then Ok None
      else case json_get (te_payload terminal) ''artifact'' of
        None \<Rightarrow> Ok None
      | Some doc \<Rightarrow>
        (case json_get doc ''root'' of
           None \<Rightarrow> Ok None
         | Some _ \<Rightarrow>
           bindR (map_errR (\<lambda>_. SvInvalidStoredResult) (extract_attested_digest doc SettlementDigest)) (\<lambda>attested.
           bindR (ok_or SvInvalidStoredResult (Option.bind (json_text (te_payload terminal) ''digest'') (strip_prefix ''0x''))) (\<lambda>payload_digest.
           bindR (ok_or SvInvalidStoredResult (hex32 payload_digest)) (\<lambda>digest_bytes.
           bindR (failR_if (digest_bytes \<noteq> attested) SvInvalidStoredResult) (\<lambda>_.
           bindR (ok_or SvInvalidStoredResult (Option.bind (json_text (te_payload terminal) ''signature'') (strip_prefix ''0x''))) (\<lambda>sig.
           bindR (failR_if (length sig \<noteq> 130 \<or> \<not> list_all is_hex_digit sig) SvInvalidStoredResult) (\<lambda>_.
           bindR (required_text (te_payload terminal) ''signer'') (\<lambda>signer.
           bindR (map_errR (\<lambda>_. SvInvalidStoredResult) (normalize_address signer)) (\<lambda>_.
           bindR (ok_or SvInvalidStoredResult (Option.bind (json_get doc ''chainId'') as_u64)) (\<lambda>chain.
           bindR (required_text doc ''registry'') (\<lambda>registry.
           bindR (required_text doc ''defiInsurance'') (\<lambda>defi_insurance.
           bindR (required_text doc ''incidentId'') (\<lambda>incident_id.
           bindR (required_text doc ''root'') (\<lambda>root.
           bindR (map_errR (\<lambda>_. SvInvalidStoredResult) (settlement_locator_new chain registry defi_insurance incident_id root)) (\<lambda>locator.
           bindR (map_errR (\<lambda>_. SvInvalidRequest) (normalize_registry configured_registry)) (\<lambda>configured.
           bindR (failR_if (sl_registry locator \<noteq> configured) SvInvalidStoredResult) (\<lambda>_.
           Ok (Some locator)))))))))))))))))))"

definition request_matches :: "canonical_request \<Rightarrow> settlement_locator \<Rightarrow> bool" where
  "request_matches request locator \<longleftrightarrow>
     (case request of RequestSettlement r \<Rightarrow> csr_incident_id r = sl_incident_id locator \<and> csr_registry r = sl_registry locator
      | RequestOpen _ \<Rightarrow> False)"

definition verify_completion ::
  "('w, 'y) job_env_scheme \<Rightarrow> app_config \<Rightarrow> stored_request \<Rightarrow> terminal_envelope \<Rightarrow> ('w, service_error, unit) act" where
  "verify_completion env c stored terminal =
     (case sq_request stored of
        RequestOpen _ \<Rightarrow> retA ()
      | RequestSettlement _ \<Rightarrow>
          bindA (liftR (ok_or SvUnavailable (je_verify env))) (\<lambda>verify.
          bindA (verify (sq_request stored) terminal) (\<lambda>_.
          bindA (liftR (settlement_locator_from_terminal terminal (ap_registry c))) (\<lambda>found.
          bindA (liftR (ok_or SvInvalidStoredResult found)) (\<lambda>locator.
          if \<not> request_matches (sq_request stored) locator then failA SvInvalidStoredResult
          else bindA (liftR (map_errR (\<lambda>_. SvInvalidRequest) (normalize_address (ap_defi_insurance c)))) (\<lambda>module_address.
               guardA (sl_defi_insurance locator \<noteq> module_address) SvInvalidStoredResult))))))"

definition completion_bytes ::
  "('w, 'y) job_env_scheme \<Rightarrow> app_config \<Rightarrow> job_paths \<Rightarrow> ('w, service_error, bytes option) act" where
  "completion_bytes env c paths =
     bindA (je_get env (jp_terminal paths) (ap_max_result_bytes c)) (\<lambda>found.
     case found of
       Some bytes \<Rightarrow> retA (Some bytes)
     | None \<Rightarrow> je_get env (replace_first ''terminal/'' ''control/completions/'' (jp_terminal paths)) (ap_max_result_bytes c))"

definition create_or_equal :: "('w, 'y) job_env_scheme \<Rightarrow> string \<Rightarrow> bytes \<Rightarrow> ('w, service_error, unit) act" where
  "create_or_equal env key value =
     bindA (je_create env key value) (\<lambda>outcome.
     case outcome of Created \<Rightarrow> retA () | Exists existing \<Rightarrow> guardA (existing \<noteq> value) SvInvalidStoredResult)"

definition retain_completion ::
  "('w, 'y) job_env_scheme \<Rightarrow> ('z) job_codec_scheme \<Rightarrow> stored_request \<Rightarrow> bytes \<Rightarrow> ('w, service_error, unit) act" where
  "retain_completion env jc stored bytes =
     bindA (liftR (ok_or SvUnavailable (jc_stored jc stored))) (\<lambda>stored_bytes.
     bindA (create_or_equal env (''control/completions/'' @ sq_job_id stored @ ''.json'') bytes) (\<lambda>_.
       create_or_equal env (''control/completion-requests/'' @ sq_job_id stored @ ''.json'') stored_bytes))"

definition work_path :: "string \<Rightarrow> string" where
  "work_path work_id = ''control/work/'' @ work_id @ ''.json''"

definition seal_attempt ::
  "('w, 'y) job_env_scheme \<Rightarrow> ('z) job_codec_scheme \<Rightarrow> stored_request \<Rightarrow> string \<Rightarrow> ('w, service_error, bool option) act" where
  "seal_attempt env jc stored key =
     bindA (je_get_versioned env key MAX_STORED_REQUEST_BYTES) (\<lambda>found.
     case found of
       None \<Rightarrow> retA (Some False)
     | Some current \<Rightarrow>
         bindA (liftR (ok_or SvInvalidStoredResult (jc_parse_attempt jc (vo_bytes current)))) (\<lambda>state.
         if wa_stored state \<noteq> stored then retA (Some False)
         else if wa_completed state then retA (Some True)
         else bindA (liftR (ok_or SvUnavailable (jc_attempt jc (state\<lparr>wa_completed := True\<rparr>)))) (\<lambda>bytes.
              bindA (je_compare_exchange env key (Some (vo_revision current)) bytes) (\<lambda>won.
              retA (if won then Some True else None)))))"

definition seal_settlement_completion ::
  "('w, 'y) job_env_scheme \<Rightarrow> ('z) job_codec_scheme \<Rightarrow> app_config \<Rightarrow> stored_request \<Rightarrow> ('w, service_error, bool) act" where
  "seal_settlement_completion env jc c stored =
     bindA (liftR (canonical_work_id jc (sq_request stored) (ap_defi_insurance c))) (\<lambda>work_id.
       retry_loop 16 (seal_attempt env jc stored (work_path work_id)))"

definition check_existing_settlement ::
  "('w, 'y) job_env_scheme \<Rightarrow> ('z) job_codec_scheme \<Rightarrow> app_config \<Rightarrow> stored_request \<Rightarrow> settlement_locator \<Rightarrow> bytes
    \<Rightarrow> ('w, service_error, unit) act" where
  "check_existing_settlement env jc c stored locator existing =
     bindA (liftR (parse_terminal jc c existing None)) (\<lambda>terminal.
     bindA (liftR (map_errR (\<lambda>_. SvInvalidStoredResult) (verify_job_request_binding jc (te_job_id terminal) (sq_request stored)))) (\<lambda>_.
     bindA (verify_completion env c stored terminal) (\<lambda>_.
     if te_status terminal \<noteq> TerminalCompleted then failA SvInvalidStoredResult
     else bindA (liftR (settlement_locator_from_terminal terminal (ap_registry c))) (\<lambda>found.
          guardA (found \<noteq> Some locator) SvInvalidStoredResult))))"

definition publish_settlement ::
  "('w, 'y) job_env_scheme \<Rightarrow> ('z) job_codec_scheme \<Rightarrow> app_config \<Rightarrow> stored_request \<Rightarrow> bytes \<Rightarrow> terminal_envelope
    \<Rightarrow> ('w, service_error, unit) act" where
  "publish_settlement env jc c stored bytes terminal =
     bindA (liftR (settlement_locator_from_terminal terminal (ap_registry c))) (\<lambda>found.
     case found of
       None \<Rightarrow> retA ()
     | Some locator \<Rightarrow>
         bindA (guardA (sq_schema_version stored \<noteq> STORED_REQUEST_SCHEMA_VERSION \<or> sq_job_id stored \<noteq> te_job_id terminal
             \<or> \<not> is_ok (verify_job_request_binding jc (sq_job_id stored) (sq_request stored))
             \<or> \<not> request_matches (sq_request stored) locator) SvInvalidStoredResult) (\<lambda>_.
         bindA (seal_settlement_completion env jc c stored) (\<lambda>sealed.
         if \<not> sealed then retA ()
         else bindA (je_create env (locator_key locator) bytes) (\<lambda>outcome.
              case outcome of
                Created \<Rightarrow> retA ()
              | Exists existing \<Rightarrow> check_existing_settlement env jc c stored locator existing))))"

definition terminal_outcome ::
  "('w, 'y) job_env_scheme \<Rightarrow> ('z) job_codec_scheme \<Rightarrow> app_config \<Rightarrow> string \<Rightarrow> bytes \<Rightarrow> terminal_envelope
    \<Rightarrow> ('w, service_error, poll_outcome) act" where
  "terminal_outcome env jc c key bytes terminal =
     bindA (if length bytes \<le> ap_max_inline_result_bytes c then retA (Some (te_payload terminal), None)
            else bindA (je_download_url env key (ap_result_url_ttl_seconds c)) (\<lambda>url.
                 retA (None, Some \<lparr>rd_url = url, rd_sha256 = hex_encode (jc_sha256 jc bytes), rd_bytes = length bytes,
                                    rd_expires_in_seconds = ap_result_url_ttl_seconds c\<rparr>))) (\<lambda>(payload, download).
     retA \<lparr>pl_job_id = te_job_id terminal,
           pl_status = (case te_status terminal of TerminalCompleted \<Rightarrow> ''completed'' | TerminalFailed \<Rightarrow> ''failed''),
           pl_api_verified = False, pl_payload = payload, pl_download = download\<rparr>)"

section \<open>Submission\<close>

text \<open>What a stored attempt leads to: an accepted job, another round, a new generation or a resumed launch.\<close>

datatype attempt_decision =
    Accepted string
  | Contended
  | NewGeneration u64
  | ResumeLaunch work_attempt

text \<open>The stored evidence: its bytes, the parsed terminal and whether it is invalid.\<close>

definition read_evidence ::
  "('w, 'y) job_env_scheme \<Rightarrow> ('z) job_codec_scheme \<Rightarrow> app_config \<Rightarrow> string \<Rightarrow> job_paths
    \<Rightarrow> ('w, service_error, (service_error, bytes option) result \<times> terminal_envelope option \<times> bool) act" where
  "read_evidence env jc c job_id paths =
     bindA (tryA (completion_bytes env c paths)) (\<lambda>candidate.
     case candidate of
       Inr (Some bytes) \<Rightarrow>
         (case parse_terminal jc c bytes (Some job_id) of
            Inr terminal \<Rightarrow> retA (candidate, Some terminal, False)
          | Inl SvInvalidStoredResult \<Rightarrow> retA (candidate, None, True)
          | Inl e \<Rightarrow> failA e)
     | Inr None \<Rightarrow> retA (candidate, None, False)
     | Inl SvInvalidStoredResult \<Rightarrow> retA (candidate, None, True)
     | Inl e \<Rightarrow> failA e)"

text \<open>First verification of fresh evidence: verified, and whether it proved invalid.\<close>

definition verify_evidence ::
  "('w, 'y) job_env_scheme \<Rightarrow> app_config \<Rightarrow> work_attempt \<Rightarrow> terminal_envelope option \<Rightarrow> bool
    \<Rightarrow> ('w, service_error, bool \<times> bool) act" where
  "verify_evidence env c state terminal invalid =
     (case terminal of
        Some t \<Rightarrow>
          if \<not> wa_completed state \<and> te_status t = TerminalCompleted
          then bindA (tryA (verify_completion env c (wa_stored state) t)) (\<lambda>r. case r of
                 Inr _ \<Rightarrow> retA (True, invalid)
               | Inl SvInvalidStoredResult \<Rightarrow> retA (wa_completed state, True)
               | Inl e \<Rightarrow> failA e)
          else retA (wa_completed state, invalid)
      | None \<Rightarrow> retA (wa_completed state, invalid))"

definition finish_attempt ::
  "('w, 'y) job_env_scheme \<Rightarrow> ('z) job_codec_scheme \<Rightarrow> app_config \<Rightarrow> string \<Rightarrow> versioned_object \<Rightarrow> work_attempt
    \<Rightarrow> (service_error, bytes option) result \<Rightarrow> terminal_envelope option \<Rightarrow> ('w, service_error, attempt_decision) act" where
  "finish_attempt env jc c work_key current state candidate terminal =
     bindA (liftR (ok_or SvInvalidStoredResult terminal)) (\<lambda>t.
     bindA (verify_completion env c (wa_stored state) t) (\<lambda>_.
     bindA (liftR candidate) (\<lambda>found.
     bindA (liftR (ok_or SvInvalidStoredResult found)) (\<lambda>bytes.
     bindA (retain_completion env jc (wa_stored state) bytes) (\<lambda>_.
     bindA (if wa_completed state then retA True
            else bindA (liftR (ok_or SvUnavailable (jc_attempt jc (state\<lparr>wa_completed := True\<rparr>)))) (\<lambda>next.
                 je_compare_exchange env work_key (Some (vo_revision current)) next)) (\<lambda>won.
     if \<not> won then retA Contended
     else bindA (publish_settlement env jc c (wa_stored state) bytes t) (\<lambda>_.
          retA (Accepted (sq_job_id (wa_stored state))))))))))"

definition decide_attempt ::
  "('w, 'y) job_env_scheme \<Rightarrow> ('z) job_codec_scheme \<Rightarrow> app_config \<Rightarrow> string \<Rightarrow> canonical_request \<Rightarrow> u64
    \<Rightarrow> versioned_object \<Rightarrow> ('w, service_error, attempt_decision) act" where
  "decide_attempt env jc c work_key request now current =
     bindA (liftR (ok_or SvInvalidStoredResult (jc_parse_attempt jc (vo_bytes current)))) (\<lambda>state.
     let stored = wa_stored state in
     bindA (guardA (sq_request stored \<noteq> request \<or> \<not> stored_request_is_live jc stored (sq_created_at stored)
         \<or> (wa_admission_denied state \<and> (wa_launched state \<or> wa_completed state))) SvInvalidStoredResult) (\<lambda>_.
     bindA (liftR (map_errR (\<lambda>_. SvInvalidStoredResult) (job_paths_new (sq_job_id stored)))) (\<lambda>paths.
     bindA (read_evidence env jc c (sq_job_id stored) paths) (\<lambda>(candidate, terminal, invalid0).
     bindA (verify_evidence env c state terminal invalid0) (\<lambda>(verified, invalid).
     if verified then finish_attempt env jc c work_key current state candidate terminal
     else if wa_admission_denied state \<or> (terminal \<noteq> None \<and> \<not> invalid) \<or> now > sq_expires_at stored
     then bindA (liftR (ok_or SvUnavailable (checked_add64 (wa_generation state) 1))) (\<lambda>g. retA (NewGeneration g))
     else if \<not> invalid \<and> \<not> wa_launched state \<and> now \<ge> wa_launch_retry_at state
             \<and> now < saturating_add64 (sq_created_at stored) 120
     then retA (ResumeLaunch (state\<lparr>wa_launch_retry_at := saturating_add64 now 60\<rparr>))
     else retA (Accepted (sq_job_id stored)))))))"

definition new_attempt ::
  "('z) job_codec_scheme \<Rightarrow> app_config \<Rightarrow> string \<Rightarrow> canonical_request \<Rightarrow> u64 \<Rightarrow> u64 \<Rightarrow> (service_error, work_attempt) result" where
  "new_attempt jc c work_id request now generation =
     bindR (map_errR (\<lambda>_. SvInvalidRequest)
       (derive_job_id jc (ap_job_secret c) (work_id @ '':'' @ show_nat generation) request)) (\<lambda>job_id.
     Ok \<lparr>wa_generation = generation,
         wa_stored = \<lparr>sq_schema_version = STORED_REQUEST_SCHEMA_VERSION, sq_job_id = job_id, sq_request = request,
           sq_created_at = now, sq_expires_at = saturating_add64 now (ap_job_ttl_seconds c)\<rparr>,
         wa_launch_retry_at = saturating_add64 now 60, wa_launched = False, wa_completed = False,
         wa_admission_denied = False\<rparr>)"

text \<open>The launch of an attempt this invocation has just written; \<open>owned\<close> is its revision.\<close>

definition launch_owned ::
  "('w, 'y) job_env_scheme \<Rightarrow> ('z) job_codec_scheme \<Rightarrow> admission_policy \<Rightarrow> string \<Rightarrow> work_attempt \<Rightarrow> bytes \<Rightarrow> versioned_object
    \<Rightarrow> ('w, service_error, unit) act" where
  "launch_owned env jc policy work_key state bytes owned =
     (let job_id = sq_job_id (wa_stored state); deadline = saturating_add64 (sq_created_at (wa_stored state)) 120 in
      bindA (tryA (reserve_worker env jc policy job_id deadline)) (\<lambda>reserved.
      case reserved of
        Inl e \<Rightarrow>
          bindA (if e = SvAdmissionLimited
                 then bindA (liftR (ok_or SvUnavailable (jc_attempt jc (state\<lparr>wa_admission_denied := True\<rparr>)))) (\<lambda>denied.
                      bindA (je_compare_exchange env work_key (Some (vo_revision owned)) denied) (\<lambda>_. retA ()))
                 else retA ()) (\<lambda>_. failA e)
      | Inr _ \<Rightarrow>
          bindA (je_get_versioned env work_key MAX_STORED_REQUEST_BYTES) (\<lambda>fresh.
          bindA (je_clock env) (\<lambda>now.
          if now \<ge> deadline \<or> map_option vo_bytes fresh \<noteq> Some bytes then retA ()
          else bindA (je_launch_before env job_id deadline) (\<lambda>_.
               bindA (liftR (ok_or SvUnavailable (jc_attempt jc (state\<lparr>wa_launched := True\<rparr>)))) (\<lambda>launched.
               bindA (je_compare_exchange env work_key (Some (vo_revision owned)) launched) (\<lambda>_. retA ())))))))"

definition start_attempt ::
  "('w, 'y) job_env_scheme \<Rightarrow> ('z) job_codec_scheme \<Rightarrow> admission_policy \<Rightarrow> string \<Rightarrow> versioned_object option \<Rightarrow> work_attempt
    \<Rightarrow> ('w, service_error, submit_outcome option) act" where
  "start_attempt env jc policy work_key current state =
     bindA (liftR (ok_or SvInvalidRequest (jc_attempt jc state))) (\<lambda>bytes.
     bindA (je_compare_exchange env work_key (map_option vo_revision current) bytes) (\<lambda>won.
     if \<not> won then retA None
     else
       (let job_id = sq_job_id (wa_stored state) in
        bindA (liftR (map_errR (\<lambda>_. SvInvalidRequest) (job_paths_new job_id))) (\<lambda>paths.
        bindA (liftR (ok_or SvInvalidRequest (jc_stored jc (wa_stored state)))) (\<lambda>request_bytes.
        bindA (create_or_equal env (jp_request paths) request_bytes) (\<lambda>_.
        bindA (je_get_versioned env work_key MAX_STORED_REQUEST_BYTES) (\<lambda>found.
        bindA (case found of
            Some owned \<Rightarrow>
              if vo_bytes owned = bytes
              then bindA (je_clock env) (\<lambda>now.
                   if now < saturating_add64 (sq_created_at (wa_stored state)) 120
                   then launch_owned env jc policy work_key state bytes owned else retA ())
              else retA ()
          | None \<Rightarrow> retA ()) (\<lambda>_.
        retA (Some \<lparr>so_accepted = True, so_job_id = job_id\<rparr>)))))))))"

definition submit_round ::
  "('w, 'y) job_env_scheme \<Rightarrow> ('z) job_codec_scheme \<Rightarrow> app_config \<Rightarrow> admission_policy \<Rightarrow> string \<Rightarrow> canonical_request
    \<Rightarrow> ('w, service_error, submit_outcome option) act" where
  "submit_round env jc c policy work_id request =
     (let work_key = work_path work_id in
      bindA (je_clock env) (\<lambda>now.
      bindA (guardA (now = 0) SvUnavailable) (\<lambda>_.
      bindA (je_get_versioned env work_key MAX_STORED_REQUEST_BYTES) (\<lambda>current.
      bindA (case current of None \<Rightarrow> retA (NewGeneration 0)
             | Some v \<Rightarrow> decide_attempt env jc c work_key request now v) (\<lambda>decision.
      case decision of
        Accepted job_id \<Rightarrow> retA (Some \<lparr>so_accepted = True, so_job_id = job_id\<rparr>)
      | Contended \<Rightarrow> retA None
      | NewGeneration generation \<Rightarrow>
          bindA (je_precheck env request) (\<lambda>_.
          bindA (liftR (new_attempt jc c work_id request now generation)) (\<lambda>state.
            start_attempt env jc policy work_key current state))
      | ResumeLaunch state \<Rightarrow>
          bindA (je_precheck env request) (\<lambda>_. start_attempt env jc policy work_key current state))))))"

definition submit_canonical ::
  "('w, 'y) job_env_scheme \<Rightarrow> ('z) job_codec_scheme \<Rightarrow> app_config \<Rightarrow> admission_policy \<Rightarrow> string \<Rightarrow> canonical_request
    \<Rightarrow> ('w, service_error, submit_outcome) act" where
  "submit_canonical env jc c policy work_id request = retry_loop 16 (submit_round env jc c policy work_id request)"

definition submit ::
  "('w, 'y) job_env_scheme \<Rightarrow> ('z) job_codec_scheme \<Rightarrow> app_config \<Rightarrow> admission_policy \<Rightarrow> string \<Rightarrow> bytes
    \<Rightarrow> ('w, service_error, submit_outcome) act" where
  "submit env jc c policy idempotency_key body =
     bindA (liftR (map_errR (\<lambda>_. SvInvalidRequest) (canonicalize_request jc body (ap_registry c)))) (\<lambda>request.
     bindA (liftR (map_errR (\<lambda>_. SvInvalidRequest) (derive_job_id jc (ap_job_secret c) idempotency_key request))) (\<lambda>_.
     bindA (liftR (canonical_work_id jc request (ap_defi_insurance c))) (\<lambda>work_id.
       submit_canonical env jc c policy work_id request)))"

definition submit_open ::
  "('w, 'y) job_env_scheme \<Rightarrow> ('z) job_codec_scheme \<Rightarrow> app_config \<Rightarrow> admission_policy \<Rightarrow> string \<Rightarrow> bytes
    \<Rightarrow> ('w, service_error, submit_outcome) act" where
  "submit_open env jc c policy idempotency_key body =
     bindA (liftR (map_errR (\<lambda>_. SvInvalidRequest) (canonicalize_open_request jc body (ap_registry c)))) (\<lambda>request.
     bindA (liftR (map_errR (\<lambda>_. SvInvalidRequest) (derive_job_id jc (ap_job_secret c) idempotency_key request))) (\<lambda>_.
     bindA (liftR (canonical_work_id jc request (ap_defi_insurance c))) (\<lambda>work_id.
       submit_canonical env jc c policy
         (hex_encode (jc_sha256 jc (text_bytes work_id @ text_bytes idempotency_key))) request)))"

section \<open>Polling and lookup\<close>

definition poll_pending ::
  "('w, 'y) job_env_scheme \<Rightarrow> ('z) job_codec_scheme \<Rightarrow> app_config \<Rightarrow> string \<Rightarrow> job_paths \<Rightarrow> ('w, service_error, poll_outcome) act" where
  "poll_pending env jc c job_id paths =
     bindA (je_get env (jp_request paths) (ap_max_result_bytes c)) (\<lambda>found.
     bindA (liftR (ok_or SvNotFound found)) (\<lambda>request.
     bindA (liftR (ok_or SvInvalidStoredResult (jc_parse_stored jc request))) (\<lambda>stored.
     bindA (guardA (sq_schema_version stored \<noteq> STORED_REQUEST_SCHEMA_VERSION \<or> sq_job_id stored \<noteq> job_id
         \<or> \<not> is_ok (verify_job_request_binding jc job_id (sq_request stored))
         \<or> sq_expires_at stored - sq_created_at stored \<noteq> ap_job_ttl_seconds c) SvInvalidStoredResult) (\<lambda>_.
     bindA (je_system_time env) (\<lambda>clock.
     bindA (liftR (ok_or SvUnavailable clock)) (\<lambda>now.
     retA \<lparr>pl_job_id = job_id, pl_status = (if now > sq_expires_at stored then ''expired'' else ''pending''),
           pl_api_verified = False, pl_payload = None, pl_download = None\<rparr>))))))"

definition read_completion_request ::
  "('w, 'y) job_env_scheme \<Rightarrow> string \<Rightarrow> job_paths \<Rightarrow> ('w, service_error, bytes) act" where
  "read_completion_request env job_id paths =
     bindA (je_get env (''control/completion-requests/'' @ job_id @ ''.json'') MAX_STORED_REQUEST_BYTES) (\<lambda>found.
     case found of
       Some bytes \<Rightarrow> retA bytes
     | None \<Rightarrow> bindA (je_get env (jp_request paths) MAX_STORED_REQUEST_BYTES) (\<lambda>r. liftR (ok_or SvInvalidStoredResult r)))"

definition poll ::
  "('w, 'y) job_env_scheme \<Rightarrow> ('z) job_codec_scheme \<Rightarrow> app_config \<Rightarrow> string \<Rightarrow> ('w, service_error, poll_outcome) act" where
  "poll env jc c job_id =
     bindA (liftR (map_errR (\<lambda>_. SvInvalidRequest) (job_paths_new job_id))) (\<lambda>paths.
     bindA (completion_bytes env c paths) (\<lambda>found.
     case found of
       None \<Rightarrow> poll_pending env jc c job_id paths
     | Some bytes \<Rightarrow>
         bindA (liftR (parse_terminal jc c bytes (Some job_id))) (\<lambda>terminal.
         if te_status terminal = TerminalCompleted
         then bindA (read_completion_request env job_id paths) (\<lambda>request_bytes.
              bindA (liftR (ok_or SvInvalidStoredResult (jc_parse_stored jc request_bytes))) (\<lambda>stored.
              bindA (guardA (sq_job_id stored \<noteq> job_id \<or> \<not> stored_request_is_live jc stored (sq_created_at stored))
                SvInvalidStoredResult) (\<lambda>_.
              bindA (verify_completion env c stored terminal) (\<lambda>_.
              bindA (retain_completion env jc stored bytes) (\<lambda>_.
              bindA (publish_settlement env jc c stored bytes terminal) (\<lambda>_.
                terminal_outcome env jc c (''control/completions/'' @ job_id @ ''.json'') bytes terminal))))))
         else terminal_outcome env jc c (jp_terminal paths) bytes terminal)))"

definition settlement_lookup ::
  "('w, 'y) job_env_scheme \<Rightarrow> ('z) job_codec_scheme \<Rightarrow> app_config \<Rightarrow> u64 \<Rightarrow> string \<Rightarrow> string \<Rightarrow> string \<Rightarrow> string
    \<Rightarrow> ('w, service_error, poll_outcome) act" where
  "settlement_lookup env jc c chain registry defi_insurance incident_id root =
     bindA (liftR (map_errR (\<lambda>_. SvInvalidRequest) (settlement_locator_new chain registry defi_insurance incident_id root))) (\<lambda>locator.
     bindA (liftR (map_errR (\<lambda>_. SvInvalidRequest) (normalize_registry (ap_registry c)))) (\<lambda>configured.
     bindA (guardA (sl_registry locator \<noteq> configured) SvInvalidRequest) (\<lambda>_.
     bindA (je_get env (locator_key locator) (ap_max_result_bytes c)) (\<lambda>found.
     bindA (case found of
         Some bytes \<Rightarrow> retA (locator_key locator, bytes)
       | None \<Rightarrow>
           let key = replace_first ''settlements/v2/'' ''settlements/v1/'' (locator_key locator) in
           bindA (je_get env key (ap_max_result_bytes c)) (\<lambda>old.
           bindA (liftR (ok_or SvNotFound old)) (\<lambda>bytes. retA (key, bytes)))) (\<lambda>(key, bytes).
     bindA (liftR (parse_terminal jc c bytes None)) (\<lambda>terminal.
     if te_status terminal \<noteq> TerminalCompleted then failA SvInvalidStoredResult
     else bindA (liftR (settlement_locator_from_terminal terminal (ap_registry c))) (\<lambda>stored_locator.
     bindA (guardA (stored_locator \<noteq> Some locator) SvInvalidStoredResult) (\<lambda>_.
     bindA (liftR (map_errR (\<lambda>_. SvInvalidRequest) (normalize_registry registry))) (\<lambda>normal.
     let request = RequestSettlement \<lparr>csr_incident_id = incident_id, csr_registry = normal\<rparr> in
     bindA (liftR (map_errR (\<lambda>_. SvInvalidStoredResult) (verify_job_request_binding jc (te_job_id terminal) request))) (\<lambda>_.
     bindA (liftR (ok_or SvUnavailable (je_verify env))) (\<lambda>verify.
     bindA (verify request terminal) (\<lambda>_.
       terminal_outcome env jc c key bytes terminal))))))))))))"

end
