(* ===== verification/Job_Claims.thy ===== *)
theory Job_Claims
  imports Job_Service
begin

text \<open>
  What the job service guarantees: the hourly bound of worker starts over every interleaving of invocations, the binding of
  job identifiers to requests, and the evidence behind every reported completion.
\<close>

section \<open>Identifiers\<close>

lemma hex_encode_append: "hex_encode (a @ b) = hex_encode a @ hex_encode b"
  by (induction a) auto

lemma hex_char_digit: "n < 16 \<Longrightarrow> is_hex_digit (hex_char n) \<and> \<not> is_ascii_upper (hex_char n)"
proof -
  assume n: "n < 16"
  have "\<forall>m \<in> set [0..<16]. \<not> is_ascii_upper (hex_char m)" by code_simp
  with n hex_val_hex_char [OF n] show ?thesis by (simp add: is_hex_digit_def)
qed

lemma byte_nibbles: "unat (b :: 8 word) div 16 < 16"
  using unat_byte_less [of b] by simp

lemma hex_encode_lower: "list_all (\<lambda>c. is_hex_digit c \<and> \<not> is_ascii_upper c) (hex_encode bs)"
  by (induction bs) (auto simp: hex_char_digit byte_nibbles)

lemma hex_encode_path: "length bs = 32 \<Longrightarrow> is_ok (job_paths_new (hex_encode bs))"
  using hex_encode_lower by (auto simp: job_paths_new_def is_ok_def)

text \<open>
  C39.  A job identifier commits to its request: the identifier derived for a request is a valid storage name and passes the binding
  check of that request, under every key and secret; and it passes the check of another request exactly when the canonical bytes
  of the two requests have the same 128-bit commitment, the first half of the tagged SHA-256 of those bytes.\<close>

theorem job_id_binding:
  assumes "derive_job_id jc secret key request = Ok job_id"
    "\<And>x. length (jc_sha256 jc x) = 32" "\<And>k x. length (jc_hmac_sha256 jc k x) = 32"
  shows "is_ok (job_paths_new job_id) \<and> verify_job_request_binding jc job_id request = Ok ()
    \<and> (\<exists>canonical. jc_request jc request = Some canonical
        \<and> (\<forall>other. verify_job_request_binding jc job_id other = Ok () \<longleftrightarrow> (\<exists>c. jc_request jc other = Some c
              \<and> take 16 (jc_sha256 jc (REQUEST_COMMITMENT_DOMAIN @ c)) = take 16 (jc_sha256 jc (REQUEST_COMMITMENT_DOMAIN @ canonical)))))"
proof -
  from assms(1) obtain canonical where canonical: "jc_request jc request = Some canonical"
    and id: "job_id = hex_encode (take 16 (jc_hmac_sha256 jc secret (JOB_ID_DOMAIN @ text_bytes key @ [0] @ canonical)) @ request_commitment jc canonical)"
    by (auto simp: derive_job_id_def hex_encode_append split: if_splits)
  let ?opaque = "take 16 (jc_hmac_sha256 jc secret (JOB_ID_DOMAIN @ text_bytes key @ [0] @ canonical))"
  have len: "length ?opaque = 16" "length (request_commitment jc canonical) = 16"
    using assms(2,3) by (simp_all add: request_commitment_def)
  have path: "is_ok (job_paths_new job_id)" unfolding id by (rule hex_encode_path) (use len in simp)
  have bound: "verify_job_request_binding jc job_id other = Ok () \<longleftrightarrow>
      (\<exists>c. jc_request jc other = Some c \<and> request_commitment jc c = request_commitment jc canonical)" for other
    using path len by (cases "jc_request jc other") (auto simp: verify_job_request_binding_def is_ok_iff id)
  with path canonical show ?thesis unfolding request_commitment_def by blast
qed

section \<open>Reported completions\<close>

lemma verify_completion_Ok:
  assumes "verify_completion env c stored terminal w = (Ok u, w')" "sq_request stored = RequestSettlement r"
  obtains verify locator w1 w2 where "je_verify env = Some verify" "verify (RequestSettlement r) terminal w1 = (Ok (), w2)"
    "settlement_locator_from_terminal terminal (ap_registry c) = Ok (Some locator)"
    "sl_incident_id locator = csr_incident_id r" "sl_registry locator = csr_registry r"
    "normalize_address (ap_defi_insurance c) = Ok (sl_defi_insurance locator)"
  using assms by (auto simp: verify_completion_def request_matches_def split: if_splits)

lemma terminal_outcome_Ok:
  assumes "terminal_outcome env jc c key bytes terminal w = (Ok out, w')"
  shows "pl_job_id out = te_job_id terminal" "pl_status out = ''completed'' \<longleftrightarrow> te_status terminal = TerminalCompleted"
    "pl_payload out = (if length bytes \<le> ap_max_inline_result_bytes c then Some (te_payload terminal) else None)"
  using assms by (auto simp: terminal_outcome_def split: if_splits terminal_status.splits)

text \<open>
  C40.  A completion is never reported without evidence: when \<open>poll\<close> answers \<open>completed\<close>, the answer carries the payload of a stored
  terminal record of exactly this job, the job identifier commits to the stored request, and for a settlement the
  independent verifier accepted this record for this request and the record's attested locator names the requested incident,
  registry and insurance contract.\<close>

theorem poll_completed_verified:
  assumes "poll env jc c job_id w = (Ok out, w')" "pl_status out = ''completed''"
  shows "\<exists>bytes terminal (stored :: stored_request). parse_terminal jc c bytes (Some job_id) = Ok terminal \<and> te_job_id terminal = job_id
    \<and> te_status terminal = TerminalCompleted \<and> pl_job_id out = job_id
    \<and> (pl_payload out = None \<or> pl_payload out = Some (te_payload terminal))
    \<and> sq_job_id stored = job_id \<and> verify_job_request_binding jc job_id (sq_request stored) = Ok ()
    \<and> (\<forall>r. sq_request stored = RequestSettlement r \<longrightarrow> (\<exists>verify locator w1 w2. je_verify env = Some verify
         \<and> verify (RequestSettlement r) terminal w1 = (Ok (), w2)
         \<and> settlement_locator_from_terminal terminal (ap_registry c) = Ok (Some locator)
         \<and> sl_incident_id locator = csr_incident_id r \<and> sl_registry locator = csr_registry r
         \<and> normalize_address (ap_defi_insurance c) = Ok (sl_defi_insurance locator)))"
proof -
  from assms(1) obtain paths found w1 where first: "job_paths_new job_id = Ok paths" "completion_bytes env c paths w = (Ok found, w1)"
    "(case found of None \<Rightarrow> poll_pending env jc c job_id paths w1 = (Ok out, w') | Some bytes \<Rightarrow> True)"
    by (auto simp: poll_def split: option.splits)
  from first(3) assms(2) obtain bytes where bytes: "found = Some bytes"
    by (cases found) (auto simp: poll_pending_def split: if_splits)
  from assms first(1,2) bytes obtain terminal where terminal: "parse_terminal jc c bytes (Some job_id) = Ok terminal"
    by (auto simp: poll_def)
  from terminal have id: "te_job_id terminal = job_id" by (auto simp: parse_terminal_def split: if_splits)
  have status: "te_status terminal = TerminalCompleted"
    using assms first(1,2) bytes terminal by (auto simp: poll_def terminal_outcome_Ok(2) split: if_splits)
  from assms first(1,2) bytes terminal status obtain stored w2 w3 w4 w5 u key where
    stored: "sq_job_id stored = job_id" "stored_request_is_live jc stored (sq_created_at stored)"
    "verify_completion env c stored terminal w2 = (Ok u, w3)" "terminal_outcome env jc c key bytes terminal w4 = (Ok out, w5)"
    by (auto simp: poll_def split: if_splits)
  from stored(2) have "verify_job_request_binding jc job_id (sq_request stored) = Ok ()"
    by (auto simp: stored_request_is_live_def is_ok_iff stored(1))
  moreover have "\<exists>verify locator w1 w2. je_verify env = Some verify \<and> verify (RequestSettlement r) terminal w1 = (Ok (), w2)
         \<and> settlement_locator_from_terminal terminal (ap_registry c) = Ok (Some locator)
         \<and> sl_incident_id locator = csr_incident_id r \<and> sl_registry locator = csr_registry r
         \<and> normalize_address (ap_defi_insurance c) = Ok (sl_defi_insurance locator)" if "sq_request stored = RequestSettlement r" for r
    by (rule verify_completion_Ok [OF stored(3) that]) blast
  moreover have "pl_payload out = None \<or> pl_payload out = Some (te_payload terminal)" "pl_job_id out = job_id"
    using terminal_outcome_Ok [OF stored(4)] id by auto
  ultimately show ?thesis using terminal id status stored(1) by blast
qed

section \<open>Admission over all interleavings\<close>

text \<open>
  The ledger only changes by conditional writes of what \<open>admit\<close> computes from the ledger that was read, so the writes of all
  invocations form one sequence of the steps below.  The second component is the history of admitted starts.
\<close>

inductive admission_step :: "admission_policy \<Rightarrow> admission_ledger \<times> u64 list \<Rightarrow> admission_ledger \<times> u64 list \<Rightarrow> bool"
  for policy where
  admission_step:
    "clock_ok ledger now \<Longrightarrow> find (\<lambda>slot. wr_job_id slot = job_id) (al_reservations ledger) = None \<Longrightarrow>
     set retained \<subseteq> set (al_reservations ledger) \<Longrightarrow>
     admit policy job_id launch_until now retained ledger = (denied, ledger') \<Longrightarrow>
     admission_step policy (ledger, history) (ledger', if denied then history else history @ [now])"

abbreviation admission_reachable :: "admission_policy \<Rightarrow> admission_ledger \<Rightarrow> u64 list \<Rightarrow> bool" where
  "admission_reachable policy ledger history \<equiv> (admission_step policy)\<^sup>*\<^sup>* (empty_ledger, []) (ledger, history)"

definition recent :: "u64 \<Rightarrow> u64 list \<Rightarrow> u64 list" where
  "recent now ss = filter (\<lambda>s. now - s \<le> 3600) ss"

definition in_hour :: "u64 \<Rightarrow> u64 list \<Rightarrow> nat" where
  "in_hour t ss = length (filter (\<lambda>s. t \<le> s \<and> s \<le> t + 3600) ss)"

definition ledger_inv :: "admission_policy \<Rightarrow> admission_ledger \<times> u64 list \<Rightarrow> bool" where
  "ledger_inv policy st \<longleftrightarrow> (case st of (ledger, history) \<Rightarrow>
     (\<forall>s \<in> set history. s \<le> al_observed_at ledger) \<and> al_starts ledger = recent (al_observed_at ledger) history
     \<and> (\<forall>t. in_hour t history \<le> am_max_starts_per_hour policy))"

lemma in_hour_recent:
  assumes "t \<le> now" "now \<le> t + 3600"
  shows "in_hour t ss \<le> length (recent now ss)"
  using assms by (induction ss) (auto simp: in_hour_def recent_def)

lemma recent_recent: "before \<le> now \<Longrightarrow> recent now (recent before ss) = recent now ss"
  by (induction ss) (auto simp: recent_def)

lemma ledger_inv_step:
  assumes "ledger_inv policy st" "admission_step policy st st'"
  shows "ledger_inv policy st'"
  using assms(2)
proof cases
  case (admission_step ledger now job_id retained launch_until denied ledger' history)
  from assms(1) have inv: "\<forall>s \<in> set history. s \<le> al_observed_at ledger" "al_starts ledger = recent (al_observed_at ledger) history"
    "\<forall>t. in_hour t history \<le> am_max_starts_per_hour policy" by (auto simp: ledger_inv_def admission_step(1))
  have now: "al_observed_at ledger \<le> now" "\<forall>s \<in> set (al_starts ledger). s \<le> now"
    using admission_step(3) by (auto simp: clock_ok_def list_ex_iff)
  have old: "\<forall>s \<in> set history. s \<le> now" using inv(1) now(1) by auto
  have "filter (\<lambda>s. s > now \<or> now - s \<le> 3600) (al_starts ledger) = recent now (al_starts ledger)"
    using now(2) by (auto simp: recent_def intro: filter_cong)
  also have "\<dots> = recent now history" unfolding inv(2) by (rule recent_recent [OF now(1)])
  finally have starts: "filter (\<lambda>s. s > now \<or> now - s \<le> 3600) (al_starts ledger) = recent now history" .
  show ?thesis
  proof (cases denied)
    case True
    then have "al_starts ledger' = recent now history" "al_observed_at ledger' = now"
      using admission_step(6) starts by (auto simp: admit_def Let_def split: if_splits)
    with True old inv(3) show ?thesis by (simp add: ledger_inv_def admission_step(2))
  next
    case False
    then have l: "al_starts ledger' = recent now history @ [now]" "al_observed_at ledger' = now"
      and room: "length (recent now history) < am_max_starts_per_hour policy"
      using admission_step(6) starts by (auto simp: admit_def Let_def split: if_splits)
    have "in_hour t (history @ [now]) \<le> am_max_starts_per_hour policy" for t
    proof (cases "t \<le> now \<and> now \<le> t + 3600")
      case True
      then have "in_hour t history \<le> length (recent now history)" by (intro in_hour_recent) auto
      with True room show ?thesis by (simp add: in_hour_def)
    next
      case False
      with inv(3) show ?thesis by (auto simp: in_hour_def)
    qed
    moreover have "recent now (history @ [now]) = recent now history @ [now]" by (simp add: recent_def)
    ultimately show ?thesis using False old l by (simp add: ledger_inv_def admission_step(2))
  qed
qed

lemma ledger_inv_reachable: "admission_reachable policy ledger history \<Longrightarrow> ledger_inv policy (ledger, history)"
proof (induction rule: rtranclp_induct)
  case base
  show ?case by (simp add: ledger_inv_def empty_ledger_def recent_def in_hour_def)
next
  case (step y z)
  then show ?case by (blast intro: ledger_inv_step)
qed



section \<open>Reservations over a store with conditional writes\<close>

definition ledger_of :: "('z) job_codec_scheme \<Rightarrow> bytes option \<Rightarrow> admission_ledger option" where
  "ledger_of jc v = (case v of None \<Rightarrow> Some empty_ledger | Some b \<Rightarrow> jc_parse_ledger jc b)"

text \<open>One write of the stored ledger.\<close>

definition ledger_write :: "admission_policy \<Rightarrow> ('z) job_codec_scheme \<Rightarrow> bytes option \<Rightarrow> bytes option \<Rightarrow> bool" where
  "ledger_write policy jc v v' \<longleftrightarrow> (\<exists>ledger ledger' bytes. ledger_of jc v = Some ledger
     \<and> (\<forall>h. \<exists>h'. admission_step policy (ledger, h) (ledger', h')) \<and> jc_ledger jc ledger' = Some bytes \<and> v' = Some bytes)"

definition reserved :: "('z) job_codec_scheme \<Rightarrow> string \<Rightarrow> u64 \<Rightarrow> bytes option \<Rightarrow> bool" where
  "reserved jc job_id launch_until v \<longleftrightarrow> (\<exists>ledger. ledger_of jc v = Some ledger
     \<and> (\<exists>slot \<in> set (al_reservations ledger). wr_job_id slot = job_id \<and> wr_launch_until slot = launch_until))"

lemma ledger_writeI:
  assumes "ledger_of jc v = Some ledger" "clock_ok ledger now"
    "find (\<lambda>slot. wr_job_id slot = job_id) (al_reservations ledger) = None" "set retained \<subseteq> set (al_reservations ledger)"
    "admit policy job_id launch_until now retained ledger = (denied, ledger')" "jc_ledger jc ledger' = Some bytes"
  shows "ledger_write policy jc v (Some bytes)"
  unfolding ledger_write_def using admission_step.intros [OF assms(2-5)] assms(1,6) by blast

text \<open>
  What the service relies on: conditional writes on the identity of the object's content, and other
  invocations that touch the ledger only by such writes.  \<open>view\<close> is the stored ledger.
\<close>

locale admission_store =
  fixes env :: "('w, 'y) job_env_scheme" and jc :: "('z) job_codec_scheme" and policy :: admission_policy
    and view :: "'w \<Rightarrow> bytes option" and etag :: "bytes \<Rightarrow> string"
  assumes etag_inj: "etag a = etag b \<Longrightarrow> a = b"
    and ledger_codec: "jc_ledger jc ledger = Some b \<Longrightarrow> jc_parse_ledger jc b = Some ledger"
    and get_versioned: "je_get_versioned env ADMISSION_KEY n w = (r, w') \<Longrightarrow>
      \<exists>v. (ledger_write policy jc)\<^sup>*\<^sup>* (view w) v \<and> (ledger_write policy jc)\<^sup>*\<^sup>* v (view w')
        \<and> (\<forall>x. r = Ok x \<longrightarrow> map_option vo_bytes x = v \<and> map_option vo_revision x = map_option etag v)"
    and compare_exchange: "je_compare_exchange env ADMISSION_KEY revision bytes w = (rc, w') \<Longrightarrow>
      \<exists>v v'. (ledger_write policy jc)\<^sup>*\<^sup>* (view w) v \<and> (ledger_write policy jc)\<^sup>*\<^sup>* v' (view w')
        \<and> (v' = v \<and> rc \<noteq> Ok True \<or> map_option etag v = revision \<and> v' = Some bytes \<and> rc \<noteq> Ok False)"
    and clock: "je_clock env w = (rk, w') \<Longrightarrow> (ledger_write policy jc)\<^sup>*\<^sup>* (view w) (view w')"
    and can_release: "je_can_release env job_id launch_until now w = (rl, w') \<Longrightarrow> (ledger_write policy jc)\<^sup>*\<^sup>* (view w) (view w')"
begin

abbreviation writes :: "'w \<Rightarrow> 'w \<Rightarrow> bool" where
  "writes w w' \<equiv> (ledger_write policy jc)\<^sup>*\<^sup>* (view w) (view w')"

lemma release_step_writes:
  assumes "release_step env policy now retained slot w = (r, w')"
  shows "writes w w' \<and> (\<forall>x. r = Ok x \<longrightarrow> set x \<subseteq> insert slot (set retained))"
  using assms can_release
  by (fastforce simp: release_step_def bindA_def tryA_def retA_def liftR_def split: if_splits prod.splits sum.splits)

lemma release_steps_writes:
  assumes "foldA (release_step env policy now) retained slots w = (r, w')"
  shows "writes w w' \<and> (\<forall>x. r = Ok x \<longrightarrow> set x \<subseteq> set retained \<union> set slots)"
  using assms
proof (induction slots arbitrary: retained w)
  case (Cons slot slots)
  obtain s w1 where one: "release_step env policy now retained slot w = (s, w1)" by (cases "release_step env policy now retained slot w")
  note step = release_step_writes [OF one]
  show ?case
  proof (cases s)
    case (Inl e)
    with Cons.prems one step show ?thesis by auto
  next
    case (Inr x)
    with Cons.prems one have "foldA (release_step env policy now) x slots w1 = (r, w')" by simp
    from Cons.IH [OF this] step Inr show ?thesis by (auto intro: rtranclp_trans)
  qed
qed auto

lemma compare_exchange_admits:
  assumes read: "ledger_of jc v0 = Some ledger" "clock_ok ledger now"
    "find (\<lambda>slot. wr_job_id slot = job_id) (al_reservations ledger) = None" "set retained \<subseteq> set (al_reservations ledger)"
    "admit policy job_id launch_until now retained ledger = (denied, ledger')" "jc_ledger jc ledger' = Some bytes"
    and cas: "je_compare_exchange env ADMISSION_KEY (map_option etag v0) bytes w = (r, w')"
  shows "writes w w' \<and> (r = Ok True \<longrightarrow> \<not> denied \<longrightarrow>
    (\<exists>v. (ledger_write policy jc)\<^sup>*\<^sup>* (view w) v \<and> reserved jc job_id launch_until v \<and> (ledger_write policy jc)\<^sup>*\<^sup>* v (view w')))"
proof -
  from compare_exchange [OF cas] obtain v v' where
    before: "(ledger_write policy jc)\<^sup>*\<^sup>* (view w) v" and after: "(ledger_write policy jc)\<^sup>*\<^sup>* v' (view w')"
    and outcome: "v' = v \<and> r \<noteq> Ok True \<or> map_option etag v = map_option etag v0 \<and> v' = Some bytes \<and> r \<noteq> Ok False" by blast
  show ?thesis
  proof (cases "v' = v \<and> r \<noteq> Ok True")
    case True
    with before after show ?thesis by auto
  next
    case False
    with outcome have "map_option etag v = map_option etag v0" and v': "v' = Some bytes" by auto
    then have "v = v0" using etag_inj by (cases v; cases v0) auto
    with ledger_writeI [OF read] have "ledger_write policy jc v v'" by (simp add: v')
    with before have upto: "(ledger_write policy jc)\<^sup>*\<^sup>* (view w) v'" by simp
    moreover have "reserved jc job_id launch_until v'" if "\<not> denied"
      using read(5,6) that v' ledger_codec by (auto simp: reserved_def ledger_of_def admit_def Let_def split: if_splits)
    ultimately show ?thesis using after by (blast intro: rtranclp_trans)
  qed
qed

lemma reserve_new_writes:
  assumes v: "ledger_of jc v = Some ledger" "clock_ok ledger now"
    "find (\<lambda>slot. wr_job_id slot = job_id) (al_reservations ledger) = None"
    and run: "reserve_new env jc policy job_id launch_until now ledger (map_option etag v) w = (r, w')"
  shows "writes w w' \<and> (r = Ok (Some (Ok ())) \<longrightarrow>
    (\<exists>v. (ledger_write policy jc)\<^sup>*\<^sup>* (view w) v \<and> reserved jc job_id launch_until v \<and> (ledger_write policy jc)\<^sup>*\<^sup>* v (view w')))"
proof -
  obtain rs w3 where kept: "foldA (release_step env policy now) [] (al_reservations ledger) w = (rs, w3)"
    by (cases "foldA (release_step env policy now) [] (al_reservations ledger) w")
  note rel = release_steps_writes [OF kept]
  show ?thesis
  proof (cases "\<exists>retained bytes. rs = Ok retained
      \<and> jc_ledger jc (snd (admit policy job_id launch_until now retained ledger)) = Some bytes")
    case False
    with run kept rel show ?thesis by (cases rs) (auto simp: reserve_new_def split_def Let_def)
  next
    case True
    then obtain retained bytes where ret: "rs = Ok retained"
      "jc_ledger jc (snd (admit policy job_id launch_until now retained ledger)) = Some bytes" by blast
    obtain rc w4 where cas: "je_compare_exchange env ADMISSION_KEY (map_option etag v) bytes w3 = (rc, w4)"
      by (cases "je_compare_exchange env ADMISSION_KEY (map_option etag v) bytes w3")
    have sub: "set retained \<subseteq> set (al_reservations ledger)" using rel ret by auto
    note fin = compare_exchange_admits [OF v sub prod.collapse [symmetric] ret(2) cas]
    have "w' = w4" "r = Ok (Some (Ok ())) \<Longrightarrow> rc = Ok True \<and> \<not> fst (admit policy job_id launch_until now retained ledger)"
      using run kept ret cas by (auto simp: reserve_new_def split_def Let_def bindA_apply split: sum.splits if_splits)
    then show ?thesis using rel fin by (blast intro: rtranclp_trans)
  qed
qed

lemma reserve_attempt_writes:
  assumes "reserve_attempt env jc policy job_id launch_until w = (r, w')"
  shows "writes w w' \<and> (r = Ok (Some (Ok ())) \<longrightarrow>
    (\<exists>v. (ledger_write policy jc)\<^sup>*\<^sup>* (view w) v \<and> reserved jc job_id launch_until v \<and> (ledger_write policy jc)\<^sup>*\<^sup>* v (view w')))"
proof -
  obtain rv w1 where got: "je_get_versioned env ADMISSION_KEY MAX_CONTROL_BYTES w = (rv, w1)"
    by (cases "je_get_versioned env ADMISSION_KEY MAX_CONTROL_BYTES w")
  from get_versioned [OF got] obtain v where v: "(ledger_write policy jc)\<^sup>*\<^sup>* (view w) v" "(ledger_write policy jc)\<^sup>*\<^sup>* v (view w1)"
    "\<And>x. rv = Ok x \<Longrightarrow> map_option vo_bytes x = v \<and> map_option vo_revision x = map_option etag v" by blast
  then have ww1: "writes w w1" by (blast intro: rtranclp_trans)
  obtain rk w2 where tick: "je_clock env w1 = (rk, w2)" by (cases "je_clock env w1")
  have w2: "writes w w2" using ww1 clock [OF tick] by (rule rtranclp_trans)
  show ?thesis
  proof (cases "\<exists>current ledger now. rv = Ok current \<and> read_ledger jc current = Ok ledger \<and> rk = Ok now \<and> clock_ok ledger now")
    case False
    with assms got tick ww1 w2 show ?thesis
      by (auto simp: reserve_attempt_def bindA_apply split: sum.splits if_splits)
  next
    case True
    then obtain current ledger now where ok: "rv = Ok current" "read_ledger jc current = Ok ledger" "rk = Ok now" "clock_ok ledger now"
      by blast
    note cur = v(3) [OF ok(1)]
    have of: "ledger_of jc v = Some ledger" using ok(2) cur
      by (cases current) (auto simp: read_ledger_def ledger_of_def split: if_splits)
    show ?thesis
    proof (cases "find (\<lambda>slot. wr_job_id slot = job_id) (al_reservations ledger)")
      case (Some slot)
      then have slot: "slot \<in> set (al_reservations ledger)" "wr_job_id slot = job_id" by (auto simp: find_Some_iff)
      have "r = Ok (Some (if wr_launch_until slot = launch_until then Ok () else Err SvInvalidStoredResult))" "w' = w2"
        using assms got tick ok Some by (auto simp: reserve_attempt_def)
      moreover have "reserved jc job_id launch_until v" if "wr_launch_until slot = launch_until"
        using slot of that by (auto simp: reserved_def)
      ultimately show ?thesis using w2 v(1,2) clock [OF tick] by (auto intro: rtranclp_trans)
    next
      case None
      have "reserve_new env jc policy job_id launch_until now ledger (map_option etag v) w2 = (r, w')"
        using assms got tick ok None cur by (simp add: reserve_attempt_def)
      from reserve_new_writes [OF of ok(4) None this] w2 show ?thesis by (blast intro: rtranclp_trans)
    qed
  qed
qed

lemma retry_reserve_writes:
  assumes "retry_loop n (reserve_attempt env jc policy job_id launch_until) w = (r, w')"
  shows "writes w w' \<and> (r = Ok (Ok ()) \<longrightarrow>
    (\<exists>v. (ledger_write policy jc)\<^sup>*\<^sup>* (view w) v \<and> reserved jc job_id launch_until v \<and> (ledger_write policy jc)\<^sup>*\<^sup>* v (view w')))"
  using assms
proof (induction n arbitrary: w)
  case (Suc n)
  obtain r1 w1 where one: "reserve_attempt env jc policy job_id launch_until w = (r1, w1)"
    by (cases "reserve_attempt env jc policy job_id launch_until w")
  note step = reserve_attempt_writes [OF one]
  show ?case
  proof (cases "r1 = Ok None")
    case True
    with Suc.prems one have "retry_loop n (reserve_attempt env jc policy job_id launch_until) w1 = (r, w')" by simp
    from Suc.IH [OF this] step show ?thesis by (blast intro: rtranclp_trans)
  next
    case False
    with Suc.prems one have "w' = w1" "r = Ok (Ok ()) \<Longrightarrow> r1 = Ok (Some (Ok ()))"
      by (cases r1; auto split: option.splits)+
    with step show ?thesis by blast
  qed
qed auto

lemma reserve_worker_writes:
  assumes "reserve_worker env jc policy job_id launch_until w = (r, w')"
  shows "writes w w' \<and> (r = Ok () \<longrightarrow>
    (\<exists>v. (ledger_write policy jc)\<^sup>*\<^sup>* (view w) v \<and> reserved jc job_id launch_until v \<and> (ledger_write policy jc)\<^sup>*\<^sup>* v (view w')))"
proof -
  let ?loop = "retry_loop 16 (reserve_attempt env jc policy job_id launch_until) w"
  have "w' = snd ?loop" "r = Ok () \<Longrightarrow> fst ?loop = Ok (Ok ())"
    using assms by (auto simp: reserve_worker_def bindA_apply split: prod.splits sum.splits)
  with retry_reserve_writes [of 16 job_id launch_until w "fst ?loop" "snd ?loop"] show ?thesis by simp
qed

end

end
