(* ===== verification/Job_Store.thy ===== *)
theory Job_Store
  imports Job_Claims
begin

text \<open>
  A shared object store in which other invocations write the admission ledger between two calls; the laws the service relies on hold
  for it.  On this store, without faults, submitted work is launched.
\<close>

section \<open>The store\<close>

text \<open>
  Objects, the time, launched workers, and the reservations other invocations are about to make, each with the time that passes
  before it.
\<close>

record shared_store =
  ss_objects :: "string \<Rightarrow> bytes option"
  ss_time :: u64
  ss_launched :: "(string \<times> u64) list"
  ss_others :: "(string \<times> u64 \<times> u64) list"

definition put_object :: "string \<Rightarrow> bytes \<Rightarrow> shared_store \<Rightarrow> shared_store" where
  "put_object key b w = w\<lparr>ss_objects := (ss_objects w)(key \<mapsto> b)\<rparr>"

definition other_reservation ::
  "admission_policy \<Rightarrow> ('z) job_codec_scheme \<Rightarrow> string \<Rightarrow> u64 \<Rightarrow> shared_store \<Rightarrow> shared_store" where
  "other_reservation policy jc job_id launch_until w =
     (case ledger_of jc (ss_objects w ADMISSION_KEY) of
        None \<Rightarrow> w
      | Some ledger \<Rightarrow>
          if clock_ok ledger (ss_time w) \<and> find (\<lambda>slot. wr_job_id slot = job_id) (al_reservations ledger) = None
          then case jc_ledger jc (snd (admit policy job_id launch_until (ss_time w) (al_reservations ledger) ledger)) of
                 None \<Rightarrow> w | Some b \<Rightarrow> put_object ADMISSION_KEY b w
          else w)"

definition interfere :: "admission_policy \<Rightarrow> ('z) job_codec_scheme \<Rightarrow> shared_store \<Rightarrow> shared_store" where
  "interfere policy jc w =
     (case ss_others w of
        [] \<Rightarrow> w
      | (job_id, launch_until, dt) # rest \<Rightarrow>
          other_reservation policy jc job_id launch_until (w\<lparr>ss_others := rest, ss_time := ss_time w + dt\<rparr>))"

definition versioned :: "bytes option \<Rightarrow> versioned_object option" where
  "versioned = map_option (\<lambda>b. \<lparr>vo_bytes = b, vo_revision = hex_encode b\<rparr>)"

definition shared_env ::
  "admission_policy \<Rightarrow> ('z) job_codec_scheme \<Rightarrow> (canonical_request \<Rightarrow> terminal_envelope \<Rightarrow> (shared_store, service_error, unit) act) option
    \<Rightarrow> shared_store job_env" where
  "shared_env policy jc verify = \<lparr>
     je_get_versioned = (\<lambda>key n w. let w1 = interfere policy jc w in (Ok (versioned (ss_objects w1 key)), w1)),
     je_compare_exchange = (\<lambda>key revision b w. let w1 = interfere policy jc w in
       if map_option hex_encode (ss_objects w1 key) = revision then (Ok True, put_object key b w1) else (Ok False, w1)),
     je_create = (\<lambda>key b w. case ss_objects w key of None \<Rightarrow> (Ok Created, put_object key b w) | Some old \<Rightarrow> (Ok (Exists old), w)),
     je_get = (\<lambda>key n w. (Ok (ss_objects w key), w)),
     je_download_url = (\<lambda>key ttl. retA (''https://store/'' @ key)),
     je_precheck = (\<lambda>_. retA ()),
     je_can_release = (\<lambda>_ _ _. retA False),
     je_launch_before = (\<lambda>job_id deadline w. (Ok (), w\<lparr>ss_launched := ss_launched w @ [(job_id, deadline)]\<rparr>)),
     je_verify = verify,
     je_clock = (\<lambda>w. (Ok (ss_time w), w)),
     je_system_time = (\<lambda>w. (Ok (Some (ss_time w)), w))\<rparr>"

abbreviation stored_ledger :: "shared_store \<Rightarrow> bytes option" where
  "stored_ledger w \<equiv> ss_objects w ADMISSION_KEY"

lemma interfere_writes: "(ledger_write policy jc)\<^sup>*\<^sup>* (stored_ledger w) (stored_ledger (interfere policy jc w))"
proof (cases "ss_others w")
  case (Cons x os)
  obtain job_id launch_until dt where x: "x = (job_id, launch_until, dt)" by (cases x)
  let ?w = "w\<lparr>ss_others := os, ss_time := ss_time w + dt\<rparr>"
  have "(ledger_write policy jc)\<^sup>*\<^sup>* (stored_ledger ?w) (stored_ledger (other_reservation policy jc job_id launch_until ?w))"
    unfolding other_reservation_def
    by (auto simp: put_object_def split: option.splits intro!: r_into_rtranclp ledger_writeI prod.collapse [symmetric])
  then show ?thesis using Cons x by (simp add: interfere_def)
qed (simp add: interfere_def)

lemma shared_admission_store:
  assumes "\<And>ledger b. jc_ledger jc ledger = Some b \<Longrightarrow> jc_parse_ledger jc b = Some ledger"
  shows "admission_store (shared_env policy jc verify) jc policy stored_ledger hex_encode"
proof
  fix n w r w'
  assume "je_get_versioned (shared_env policy jc verify) ADMISSION_KEY n w = (r, w')"
  then show "\<exists>v. (ledger_write policy jc)\<^sup>*\<^sup>* (stored_ledger w) v \<and> (ledger_write policy jc)\<^sup>*\<^sup>* v (stored_ledger w')
      \<and> (\<forall>x. r = Ok x \<longrightarrow> map_option vo_bytes x = v \<and> map_option vo_revision x = map_option hex_encode v)"
    using interfere_writes [of policy jc w]
    by (auto simp: shared_env_def Let_def versioned_def option.map_comp comp_def option.map_ident)
next
  fix revision bytes w rc w'
  assume "je_compare_exchange (shared_env policy jc verify) ADMISSION_KEY revision bytes w = (rc, w')"
  then show "\<exists>v v'. (ledger_write policy jc)\<^sup>*\<^sup>* (stored_ledger w) v \<and> (ledger_write policy jc)\<^sup>*\<^sup>* v' (stored_ledger w')
      \<and> (v' = v \<and> rc \<noteq> Ok True \<or> map_option hex_encode v = revision \<and> v' = Some bytes \<and> rc \<noteq> Ok False)"
    using interfere_writes [of policy jc w]
    by (auto simp: shared_env_def Let_def put_object_def split: if_splits)
qed (auto simp: shared_env_def assms hex_encode_inj)

section \<open>Reservations are serialized\<close>

lemma ledger_writes_steps:
  assumes "(ledger_write policy jc)\<^sup>*\<^sup>* v v'" "ledger_of jc v = Some ledger"
    "\<And>l b. jc_ledger jc l = Some b \<Longrightarrow> jc_parse_ledger jc b = Some l"
  shows "\<exists>ledger'. ledger_of jc v' = Some ledger' \<and> (\<forall>h. \<exists>h'. (admission_step policy)\<^sup>*\<^sup>* (ledger, h) (ledger', h'))"
  using assms(1)
proof (induction rule: rtranclp_induct)
  case base
  with assms(2) show ?case by blast
next
  case (step x y)
  then obtain l where l: "ledger_of jc x = Some l" "\<forall>h. \<exists>h'. (admission_step policy)\<^sup>*\<^sup>* (ledger, h) (l, h')" by blast
  with step(2) obtain l' where l': "\<forall>h. \<exists>h'. admission_step policy (l, h) (l', h')" "ledger_of jc y = Some l'"
    using assms(3) by (auto simp: ledger_write_def ledger_of_def)
  with l(2) show ?case by (meson rtranclp.rtrancl_into_rtrancl)
qed


section \<open>Submitted work is launched\<close>

lemma interfere_alone [simp]: "ss_others w = [] \<Longrightarrow> interfere policy jc w = w"
  by (simp add: interfere_def)

lemma put_object_simps [simp]:
  "ss_objects (put_object key b w) = (ss_objects w)(key \<mapsto> b)" "ss_time (put_object key b w) = ss_time w"
  "ss_launched (put_object key b w) = ss_launched w" "ss_others (put_object key b w) = ss_others w"
  by (simp_all add: put_object_def)

lemma versioned_simps [simp]:
  "versioned None = None" "versioned (Some b) = Some \<lparr>vo_bytes = b, vo_revision = hex_encode b\<rparr>"
  "map_option vo_revision (versioned v) = map_option hex_encode v" "map_option vo_bytes (versioned v) = v"
  by (cases v; simp add: versioned_def)+

lemma shared_env_simps [simp]:
  "ss_others w = [] \<Longrightarrow> je_get_versioned (shared_env policy jc verify) key n w = (Ok (versioned (ss_objects w key)), w)"
  "ss_others w = [] \<Longrightarrow> je_compare_exchange (shared_env policy jc verify) key revision b w =
     (if map_option hex_encode (ss_objects w key) = revision then (Ok True, put_object key b w) else (Ok False, w))"
  "je_create (shared_env policy jc verify) key b w =
     (case ss_objects w key of None \<Rightarrow> (Ok Created, put_object key b w) | Some old \<Rightarrow> (Ok (Exists old), w))"
  "je_get (shared_env policy jc verify) key n w = (Ok (ss_objects w key), w)"
  "je_precheck (shared_env policy jc verify) request = retA ()"
  "je_can_release (shared_env policy jc verify) job_id launch_until now = retA False"
  "je_launch_before (shared_env policy jc verify) job_id launch_until w = (Ok (), w\<lparr>ss_launched := ss_launched w @ [(job_id, launch_until)]\<rparr>)"
  "je_clock (shared_env policy jc verify) w = (Ok (ss_time w), w)"
  "je_verify (shared_env policy jc verify) = verify"
  by (simp_all add: shared_env_def Let_def)

text \<open>The work is new, or its stored attempt was denied or has expired without evidence of a result.\<close>

definition relaunchable :: "('z) job_codec_scheme \<Rightarrow> canonical_request \<Rightarrow> string \<Rightarrow> shared_store \<Rightarrow> u64 \<Rightarrow> bool" where
  "relaunchable jc request key w g \<longleftrightarrow> (ss_objects w key = None \<and> g = 0) \<or>
     (\<exists>b old. ss_objects w key = Some b \<and> jc_parse_attempt jc b = Some old \<and> sq_request (wa_stored old) = request
        \<and> stored_request_is_live jc (wa_stored old) (sq_created_at (wa_stored old))
        \<and> \<not> wa_completed old \<and> (wa_admission_denied old \<and> \<not> wa_launched old \<or> \<not> wa_admission_denied old \<and> ss_time w > sq_expires_at (wa_stored old))
        \<and> ss_objects w (''terminal/'' @ sq_job_id (wa_stored old) @ ''.json'') = None
        \<and> ss_objects w (''control/completions/'' @ sq_job_id (wa_stored old) @ ''.json'') = None
        \<and> g = wa_generation old + 1 \<and> g \<le> u64_max)"

lemma decide_relaunch:
  assumes "ss_others w = []" "ss_objects w key = Some b" "relaunchable jc request key w g"
  shows "decide_attempt (shared_env policy jc verify) jc c key request (ss_time w) \<lparr>vo_bytes = b, vo_revision = hex_encode b\<rparr> w
    = (Ok (NewGeneration g), w)"
proof -
  from assms(2,3) obtain old where old: "jc_parse_attempt jc b = Some old" "sq_request (wa_stored old) = request"
    "stored_request_is_live jc (wa_stored old) (sq_created_at (wa_stored old))" "\<not> wa_completed old"
    "wa_admission_denied old \<and> \<not> wa_launched old \<or> \<not> wa_admission_denied old \<and> ss_time w > sq_expires_at (wa_stored old)"
    "ss_objects w (''terminal/'' @ sq_job_id (wa_stored old) @ ''.json'') = None"
    "ss_objects w (''control/completions/'' @ sq_job_id (wa_stored old) @ ''.json'') = None"
    "g = wa_generation old + 1" "g \<le> u64_max" by (auto simp: relaunchable_def)
  from old(3) obtain paths where paths: "job_paths_new (sq_job_id (wa_stored old)) = Ok paths"
    by (auto simp: stored_request_is_live_def is_ok_iff)
  then have "jp_terminal paths = ''terminal/'' @ sq_job_id (wa_stored old) @ ''.json''"
    by (auto simp: job_paths_new_def split: if_splits)
  then have none: "completion_bytes (shared_env policy jc verify) c paths w = (Ok None, w)"
    using old(6,7) by (simp add: completion_bytes_def starts_with_def)
  show ?thesis using old paths none
    by (auto simp: decide_attempt_def Let_def read_evidence_def verify_evidence_def)
qed

definition kept_slots :: "u64 \<Rightarrow> admission_ledger \<Rightarrow> worker_reservation list" where
  "kept_slots now ledger = filter (\<lambda>slot. \<not> now > retain_until slot) (al_reservations ledger)"

text \<open>The ledger accepts a new job now, under cost-only admission.\<close>

definition admits :: "('z) job_codec_scheme \<Rightarrow> admission_policy \<Rightarrow> string \<Rightarrow> u64 \<Rightarrow> shared_store \<Rightarrow> admission_ledger \<Rightarrow> bytes \<Rightarrow> bool" where
  "admits jc policy job_id launch_until w ledger b \<longleftrightarrow> am_max_active_workers policy = 0
     \<and> read_ledger jc (versioned (stored_ledger w)) = Ok ledger \<and> clock_ok ledger (ss_time w)
     \<and> find (\<lambda>slot. wr_job_id slot = job_id) (al_reservations ledger) = None
     \<and> list_all (\<lambda>slot. is_ok (job_paths_new (wr_job_id slot))) (al_reservations ledger)
     \<and> \<not> fst (admit policy job_id launch_until (ss_time w) (kept_slots (ss_time w) ledger) ledger)
     \<and> jc_ledger jc (snd (admit policy job_id launch_until (ss_time w) (kept_slots (ss_time w) ledger) ledger)) = Some b"

lemma release_quiet:
  assumes "am_max_active_workers policy = 0" "list_all (\<lambda>slot. is_ok (job_paths_new (wr_job_id slot))) slots"
  shows "foldA (release_step env policy now) kept slots w = (Ok (kept @ filter (\<lambda>slot. \<not> now > retain_until slot) slots), w)"
  using assms(2)
proof (induction slots arbitrary: kept)
  case (Cons slot slots)
  then have "release_step env policy now kept slot w = (Ok (if now > retain_until slot then kept else kept @ [slot]), w)"
    using assms(1) by (auto simp: release_step_def is_ok_iff)
  with Cons show ?case by simp
qed simp

lemma reserve_quiet:
  assumes "ss_others w = []" "admits jc policy job_id launch_until w ledger b"
  shows "reserve_worker (shared_env policy jc verify) jc policy job_id launch_until w = (Ok (), put_object ADMISSION_KEY b w)"
proof -
  let ?env = "shared_env policy jc verify"
  from assms(2) have kept: "foldA (release_step ?env policy (ss_time w)) [] (al_reservations ledger) w = (Ok (kept_slots (ss_time w) ledger), w)"
    by (simp add: admits_def release_quiet kept_slots_def)
  have "reserve_new ?env jc policy job_id launch_until (ss_time w) ledger (map_option hex_encode (stored_ledger w)) w
      = (Ok (Some (Ok ())), put_object ADMISSION_KEY b w)"
    using assms kept by (simp add: reserve_new_def admits_def split_def Let_def)
  then have "reserve_attempt ?env jc policy job_id launch_until w = (Ok (Some (Ok ())), put_object ADMISSION_KEY b w)"
    using assms by (simp add: reserve_attempt_def admits_def)
  then show ?thesis by (simp add: reserve_worker_def numeral_eq_Suc)
qed

lemma work_path_keys [simp]:
  "work_path i \<noteq> ADMISSION_KEY" "work_path i \<noteq> ''requests/'' @ j @ ''.json''" "ADMISSION_KEY \<noteq> work_path i"
  "''requests/'' @ j @ ''.json'' \<noteq> work_path i" "''requests/'' @ j @ ''.json'' \<noteq> ADMISSION_KEY"
  by (simp_all add: work_path_def ADMISSION_KEY_def)


section \<open>Witnesses\<close>

text \<open>A codec that knows the records of one run, and a quiet store at second 1000.\<close>

definition demo_request :: canonical_request where
  "demo_request = RequestSettlement \<lparr>csr_incident_id = ''7'', csr_registry = ''0x'' @ replicate 40 CHR ''3''\<rparr>"

definition demo_app :: app_config where
  "demo_app = \<lparr>ap_registry = ''0x'' @ replicate 40 CHR ''3'', ap_defi_insurance = ''0x'' @ replicate 40 CHR ''4'',
     ap_job_secret = replicate 32 5, ap_max_result_bytes = 4096, ap_max_inline_result_bytes = 1024,
     ap_result_url_ttl_seconds = 60, ap_job_ttl_seconds = 600\<rparr>"

definition demo_job :: string where
  "demo_job = hex_encode (replicate 16 7) @ hex_encode (replicate 16 8)"

definition demo_attempt :: work_attempt where
  "demo_attempt = \<lparr>wa_generation = 0,
     wa_stored = \<lparr>sq_schema_version = 3, sq_job_id = demo_job, sq_request = demo_request, sq_created_at = 1000, sq_expires_at = 1600\<rparr>,
     wa_launch_retry_at = 1060, wa_launched = False, wa_completed = False, wa_admission_denied = False\<rparr>"

definition demo_ledger :: admission_ledger where
  "demo_ledger = \<lparr>al_reservations = [\<lparr>wr_job_id = demo_job, wr_launch_until = 1120, wr_started_at = Some 1000\<rparr>],
     al_starts = [1000], al_observed_at = 1000\<rparr>"

definition demo_doc :: json where
  "demo_doc = JObj [(''schemaVersion'', JInt 2), (''settlementDigest'', JStr (''0x'' @ replicate 64 CHR ''1'')),
     (''nitroAttestedDigest'', JStr (''0x'' @ replicate 64 CHR ''1'')), (''teePcrHash'', JStr ''0x09''), (''measuredTeePcrHash'', JStr ''0x09''),
     (''nitroAttestationDocument'', JStr ''0xaa''), (''chainId'', JInt 5), (''registry'', JStr (''0x'' @ replicate 40 CHR ''3'')),
     (''defiInsurance'', JStr (''0x'' @ replicate 40 CHR ''4'')), (''incidentId'', JStr ''7''), (''root'', JStr (''0x'' @ replicate 64 CHR ''2''))]"

definition demo_terminal :: terminal_envelope where
  "demo_terminal = terminal_completed demo_job (JObj [(''artifact'', demo_doc), (''digest'', JStr (''0x'' @ replicate 64 CHR ''1'')),
     (''signature'', JStr (''0x'' @ replicate 130 CHR ''5'')), (''signer'', JStr (''0x'' @ replicate 40 CHR ''6''))])"

definition demo_locator :: settlement_locator where
  "demo_locator = \<lparr>sl_chain_id = 5, sl_registry = ''0x'' @ replicate 40 CHR ''3'', sl_defi_insurance = ''0x'' @ replicate 40 CHR ''4'',
     sl_incident_id = ''7'', sl_root = ''0x'' @ replicate 64 CHR ''2''\<rparr>"

definition demo_jobs :: job_codec where
  "demo_jobs = \<lparr>jc_settlement_api = (\<lambda>_. Some ''7''), jc_open_api = (\<lambda>_. None), jc_request = (\<lambda>_. Some [1]),
     jc_stored = (\<lambda>s. if s = wa_stored demo_attempt then Some [2] else None),
     jc_parse_stored = (\<lambda>b. if b = [2] then Some (wa_stored demo_attempt) else None),
     jc_attempt = (\<lambda>a. if a = demo_attempt then Some [3] else if a = demo_attempt\<lparr>wa_launched := True\<rparr> then Some [4] else None),
     jc_parse_attempt = (\<lambda>b. if b = [3] then Some demo_attempt else if b = [4] then Some (demo_attempt\<lparr>wa_launched := True\<rparr>) else None),
     jc_ledger = (\<lambda>l. if l = demo_ledger then Some [5] else None),
     jc_parse_ledger = (\<lambda>b. if b = [5] then Some demo_ledger else None),
     jc_parse_terminal = (\<lambda>b. if b = [6] then Some demo_terminal else None), jc_sha256 = (\<lambda>_. replicate 32 8), jc_hmac_sha256 = (\<lambda>_ _. replicate 32 7)\<rparr>"

definition demo_store :: shared_store where
  "demo_store = \<lparr>ss_objects = Map.empty, ss_time = 1000, ss_launched = [], ss_others = []\<rparr>"

interpretation demo_admission: admission_store "shared_env default_admission demo_jobs None" demo_jobs default_admission stored_ledger hex_encode
  by (rule shared_admission_store) (auto simp: demo_jobs_def split: if_splits)

lemma demo_job_paths:
  "job_paths_new demo_job = Ok \<lparr>jp_request = ''requests/'' @ demo_job @ ''.json'', jp_terminal = ''terminal/'' @ demo_job @ ''.json''\<rparr>"
proof -
  have "length demo_job = 64" "list_all (\<lambda>c. is_hex_digit c \<and> \<not> is_ascii_upper c) demo_job" by code_simp+
  then show ?thesis by (simp add: job_paths_new_def)
qed

lemma demo_admits: "admits demo_jobs default_admission demo_job 1120 demo_store empty_ledger [5]"
  by (simp add: admits_def default_admission_def demo_store_def read_ledger_def empty_ledger_def clock_ok_def kept_slots_def admit_def
      demo_jobs_def demo_ledger_def MAX_RESERVATIONS_def)

lemma demo_new_attempt: "new_attempt demo_jobs demo_app ''work'' demo_request 1000 0 = Ok demo_attempt"
proof -
  have "list_all key_char_ok (''work:'' @ show_nat 0)" by code_simp
  moreover have "length (show_nat 0) = 1" by (simp add: show_nat.simps)
  ultimately show ?thesis
    by (simp add: new_attempt_def derive_job_id_def demo_app_def demo_jobs_def demo_attempt_def demo_job_def request_commitment_def
        saturating_add64_def u64_max_def STORED_REQUEST_SCHEMA_VERSION_def)
qed

lemma demo_codec:
  "jc_attempt demo_jobs demo_attempt = Some [3]" "jc_attempt demo_jobs (demo_attempt\<lparr>wa_launched := True\<rparr>) = Some [4]"
  "jc_stored demo_jobs (wa_stored demo_attempt) = Some [2]" "sq_job_id (wa_stored demo_attempt) = demo_job"
proof -
  have "demo_attempt\<lparr>wa_launched := True\<rparr> \<noteq> demo_attempt" by (simp add: demo_attempt_def)
  then show "jc_attempt demo_jobs (demo_attempt\<lparr>wa_launched := True\<rparr>) = Some [4]" by (simp add: demo_jobs_def)
qed (simp_all add: demo_jobs_def, simp add: demo_attempt_def)

lemma demo_store_simps: "ss_others demo_store = []" "ss_time demo_store = 1000" "ss_objects demo_store key = None"
  by (simp_all add: demo_store_def)



text \<open>A store that holds the result of the demonstration job.\<close>

definition demo_done :: shared_store where
  "demo_done = demo_store\<lparr>ss_objects := [''terminal/'' @ demo_job @ ''.json'' \<mapsto> [6], ''requests/'' @ demo_job @ ''.json'' \<mapsto> [2]]\<rparr>"

lemma demo_texts:
  "\<exists>bs. hex32 (replicate 64 CHR ''1'') = Some bs" "is_hex_digit CHR ''5''" "is_hex_digit CHR ''a''"
  "normalize_address (''0x'' @ replicate 40 CHR ''6'') = Ok (''0x'' @ replicate 40 CHR ''6'')"
  "normalize_address (''0x'' @ replicate 40 CHR ''4'') = Ok (''0x'' @ replicate 40 CHR ''4'')"
  "normalize_registry (''0x'' @ replicate 40 CHR ''3'') = Ok (''0x'' @ replicate 40 CHR ''3'')"
  "settlement_locator_new 5 (''0x'' @ replicate 40 CHR ''3'') (''0x'' @ replicate 40 CHR ''4'') ''7'' (''0x'' @ replicate 64 CHR ''2'') = Ok demo_locator"
proof -
  have "hex32 (replicate 64 CHR ''1'') = Some (replicate 32 0x11)" by code_simp
  then show "\<exists>bs. hex32 (replicate 64 CHR ''1'') = Some bs" by blast
qed code_simp+

lemma demo_terminal_locator: "settlement_locator_from_terminal demo_terminal (ap_registry demo_app) = Ok (Some demo_locator)"
proof -
  obtain bs where bs: "hex32 (replicate 64 CHR ''1'') = Some bs" using demo_texts(1) by blast
  have attested: "extract_attested_digest demo_doc SettlementDigest = Ok bs"
    by (simp add: extract_attested_digest_def demo_doc_def artifact_digest_def json_text_def u64_max_def eq_ignore_ascii_case_def
        strip_prefix_def bs demo_texts)
  have doc: "json_get demo_doc ''root'' = Some (JStr (''0x'' @ replicate 64 CHR ''2''))"
    "json_get demo_doc ''chainId'' = Some (JInt 5)" "json_get demo_doc ''registry'' = Some (JStr (''0x'' @ replicate 40 CHR ''3''))"
    "json_get demo_doc ''defiInsurance'' = Some (JStr (''0x'' @ replicate 40 CHR ''4''))" "json_get demo_doc ''incidentId'' = Some (JStr ''7'')"
    by (simp_all add: demo_doc_def)
  show ?thesis using demo_texts bs
    by (simp add: settlement_locator_from_terminal_def demo_terminal_def terminal_completed_def attested doc json_text_def required_text_def
        strip_prefix_def u64_max_def demo_app_def demo_locator_def list_all_iff)
qed

abbreviation demo_env :: "shared_store job_env" where
  "demo_env \<equiv> shared_env default_admission demo_jobs (Some (\<lambda>_ _. retA ()))"

lemma demo_bound: "verify_job_request_binding demo_jobs demo_job request = Ok ()"
proof -
  have "hex_decode demo_job = Some (replicate 16 7 @ replicate 16 8)"
    unfolding demo_job_def hex_encode_append [symmetric] by (rule hex_decode_encode)
  then show ?thesis by (simp add: verify_job_request_binding_def demo_job_paths demo_jobs_def request_commitment_def)
qed

lemma demo_stored_fields:
  "sq_request (wa_stored demo_attempt) = demo_request" "sq_job_id (wa_stored demo_attempt) = demo_job"
  "sq_schema_version (wa_stored demo_attempt) = STORED_REQUEST_SCHEMA_VERSION"
  "sq_created_at (wa_stored demo_attempt) = 1000" "sq_expires_at (wa_stored demo_attempt) = 1600"
  by (simp_all add: demo_attempt_def STORED_REQUEST_SCHEMA_VERSION_def)

lemma demo_terminal_fields:
  "te_status demo_terminal = TerminalCompleted" "te_job_id demo_terminal = demo_job" "te_schema_version demo_terminal = 1"
  "is_json_object (te_payload demo_terminal)"
  by (simp_all add: demo_terminal_def terminal_completed_def)

lemma demo_parses:
  "jc_parse_stored demo_jobs [2] = Some (wa_stored demo_attempt)" "jc_parse_terminal demo_jobs [6] = Some demo_terminal"
  "jc_request demo_jobs request = Some [1]"
  by (simp_all add: demo_jobs_def)

lemma demo_records:
  "parse_terminal demo_jobs demo_app [6] (Some demo_job) = Ok demo_terminal"
  "stored_request_is_live demo_jobs (wa_stored demo_attempt) 1000"
  by (simp_all add: parse_terminal_def stored_request_is_live_def demo_app_def demo_parses demo_terminal_fields demo_stored_fields
      demo_job_paths demo_bound is_ok_def)

lemma demo_verifies: "verify_completion demo_env demo_app (wa_stored demo_attempt) demo_terminal w = (Ok (), w)"
proof -
  have "normalize_address (ap_defi_insurance demo_app) = Ok (sl_defi_insurance demo_locator)"
    using demo_texts(5) by (simp add: demo_app_def demo_locator_def)
  moreover have "request_matches demo_request demo_locator" by (simp add: request_matches_def demo_request_def demo_locator_def)
  ultimately show ?thesis
    using demo_terminal_locator by (simp add: verify_completion_def demo_stored_fields demo_request_def)
qed

lemma demo_published:
  assumes "ss_others w = []" "\<And>i. ss_objects w (work_path i) = None"
  shows "publish_settlement demo_env demo_jobs demo_app (wa_stored demo_attempt) [6] demo_terminal w = (Ok (), w)"
proof -
  have "\<exists>i. canonical_work_id demo_jobs demo_request (ap_defi_insurance demo_app) = Ok i"
    using demo_texts(5) by (simp add: canonical_work_id_def demo_app_def demo_parses)
  then have "seal_settlement_completion demo_env demo_jobs demo_app (wa_stored demo_attempt) w = (Ok False, w)"
    using assms by (auto simp: seal_settlement_completion_def seal_attempt_def demo_stored_fields numeral_eq_Suc)
  moreover have "request_matches demo_request demo_locator" by (simp add: request_matches_def demo_request_def demo_locator_def)
  ultimately show ?thesis
    by (simp add: publish_settlement_def demo_terminal_locator demo_stored_fields demo_terminal_fields demo_bound is_ok_def bindA_apply)
qed

lemma demo_poll: "\<exists>out w'. poll demo_env demo_jobs demo_app demo_job demo_done = (Ok out, w') \<and> pl_status out = ''completed''"
proof -
  let ?key = "\<lambda>dir. dir @ demo_job @ ''.json''"
  let ?w = "put_object (?key ''control/completion-requests/'') [2] (put_object (?key ''control/completions/'') [6] demo_done)"
  have objects: "ss_objects demo_done (?key ''terminal/'') = Some [6]" "ss_objects demo_done (?key ''requests/'') = Some [2]"
    "ss_objects demo_done (?key ''control/completion-requests/'') = None" "ss_objects demo_done (?key ''control/completions/'') = None"
    "ss_objects demo_done (work_path i) = None" "ss_others demo_done = []" for i
    by (simp_all add: demo_done_def demo_store_def work_path_def)
  have retained: "retain_completion demo_env demo_jobs (wa_stored demo_attempt) [6] demo_done = (Ok (), ?w)"
    using objects by (simp add: retain_completion_def create_or_equal_def demo_codec demo_stored_fields)
  have quiet: "ss_others ?w = []" "ss_objects ?w (work_path i) = None" for i
    using objects by (simp_all add: work_path_def)
  show ?thesis using objects retained demo_published [OF quiet]
    by (simp add: poll_def demo_job_paths completion_bytes_def demo_records demo_terminal_fields read_completion_request_def demo_parses
        demo_stored_fields demo_verifies terminal_outcome_def) (simp add: demo_app_def)
qed

theorem poll_completed_verified_witness:
  "\<exists>out w'. poll demo_env demo_jobs demo_app demo_job demo_done = (Ok out, w') \<and> pl_status out = ''completed'' \<and> pl_job_id out = demo_job"
proof -
  obtain out w' where run: "poll demo_env demo_jobs demo_app demo_job demo_done = (Ok out, w')" "pl_status out = ''completed''"
    using demo_poll by blast
  from poll_completed_verified [OF run] run show ?thesis by blast
qed

theorem job_id_binding_witness:
  "derive_job_id demo_jobs (replicate 32 5) ''key-1'' demo_request = Ok demo_job \<and> verify_job_request_binding demo_jobs demo_job demo_request = Ok ()"
proof -
  have "list_all key_char_ok ''key-1''" by code_simp
  then have id: "derive_job_id demo_jobs (replicate 32 5) ''key-1'' demo_request = Ok demo_job"
    by (simp add: derive_job_id_def demo_jobs_def demo_job_def request_commitment_def)
  have "length (jc_sha256 demo_jobs x) = 32" "length (jc_hmac_sha256 demo_jobs k x) = 32" for k x by (simp_all add: demo_jobs_def)
  from job_id_binding [OF id this] id show ?thesis by blast
qed

end
