(* ===== verification/Settlement_Verifier.thy ===== *)
theory Settlement_Verifier
  imports Job_Service Typed_Data Merkle History
begin

text \<open>
  The independent gate in front of publication (\<^verbatim>\<open>job-api/src/settlement_verifier.rs\<close> and
  \<^verbatim>\<open>completion_verifier.rs\<close>): the checks an uploaded settlement artifact has to pass on its own, the
  request and evidence budgets, the decoder of settlement calls and call traces, and the comparison
  with one finalized state of the chain.  The elliptic-curve library, the hash function, the Solidity
  codec and the provider are parameters.
\<close>

section \<open>Errors and evidence\<close>

record promotion_policy =
  pp_chain_id :: u64
  pp_registry :: address
  pp_defi_insurance :: address

datatype verification_error = VeInvalid string | VeChain chain_error | VeRpc rpc_error

definition require :: "bool \<Rightarrow> string \<Rightarrow> (verification_error, unit) result" where
  "require cond why = (if cond then Ok () else Err (VeInvalid why))"

fun evidence_error :: "verification_error \<Rightarrow> verification_error" where
  "evidence_error (VeInvalid why) = VeRpc (InvalidResponse ''settlement evidence'' why)"
| "evidence_error e = e"

definition evidence :: "(verification_error, 'a) result \<Rightarrow> (verification_error, 'a) result" where
  "evidence r = map_errR evidence_error r"

definition evidence_require :: "bool \<Rightarrow> string \<Rightarrow> (verification_error, unit) result" where
  "evidence_require cond why = evidence (require cond why)"

text \<open>\<^verbatim>\<open>a? && b?\<close>: the second operand is evaluated only when the first one holds.\<close>

definition andR :: "('e, bool) result \<Rightarrow> ('e, bool) result \<Rightarrow> ('e, bool) result" where
  "andR a b = bindR a (\<lambda>x. if x then b else Ok False)"

section \<open>Fields of the artifact\<close>

definition text_of :: "json \<Rightarrow> (verification_error, string) result" where
  "text_of v = ok_or (VeInvalid ''expected string'') (as_str v)"

definition evidence_input :: "json \<Rightarrow> (verification_error, string) result" where
  "evidence_input v =
     bindR (evidence (text_of v)) (\<lambda>s.
     bindR (evidence_require (case strip_prefix ''0x'' s of None \<Rightarrow> False
              | Some raw \<Rightarrow> even (length raw) \<and> list_all is_hex_digit raw) ''malformed RPC calldata'') (\<lambda>_.
     Ok s))"

definition UINT256_MAX_TEXT :: string where
  "UINT256_MAX_TEXT = ''115792089237316195423570985008687907853269984665640564039457584007913129639935''"

definition decimal_text :: "json \<Rightarrow> (verification_error, string) result" where
  "decimal_text v =
     bindR (text_of v) (\<lambda>s.
     bindR (require (s \<noteq> [] \<and> list_all is_ascii_digit s \<and> (s = ''0'' \<or> hd s \<noteq> CHR ''0'')
              \<and> (length s < length UINT256_MAX_TEXT
                 \<or> (length s = length UINT256_MAX_TEXT \<and> text_bytes s \<le> text_bytes UINT256_MAX_TEXT)))
              ''noncanonical uint256'') (\<lambda>_.
     Ok s))"

text \<open>\<^verbatim>\<open>decimal::<BigUint>\<close> and \<^verbatim>\<open>decimal::<u64>\<close>.\<close>

definition decimal_big :: "json \<Rightarrow> (verification_error, biguint) result" where
  "decimal_big v = bindR (decimal_text v) (\<lambda>s. Ok (decimal_value s))"

definition decimal_u64 :: "json \<Rightarrow> (verification_error, u64) result" where
  "decimal_u64 v = bindR (decimal_text v) (\<lambda>s.
     if decimal_value s \<le> u64_max then Ok (decimal_value s) else Err (VeInvalid ''integer overflow''))"

definition address_of :: "json \<Rightarrow> (verification_error, address) result" where
  "address_of v = bindR (text_of v) (\<lambda>s. ok_or (VeInvalid ''address'') (address_from_str s))"

definition bytes_of :: "json \<Rightarrow> nat \<Rightarrow> (verification_error, bytes) result" where
  "bytes_of v n =
     bindR (text_of v) (\<lambda>s.
     bindR (ok_or (VeInvalid ''hex prefix'') (strip_prefix ''0x'' s)) (\<lambda>raw.
     bindR (require (length raw = n * 2) ''hex width'') (\<lambda>_.
     ok_or (VeInvalid ''hex encoding'') (hex_decode raw))))"

definition hash_of :: "json \<Rightarrow> (verification_error, string) result" where
  "hash_of v = bindR (bytes_of v 32) (\<lambda>bs. Ok (''0x'' @ hex_encode bs))"

definition array_of :: "json \<Rightarrow> (verification_error, json list) result" where
  "array_of v = ok_or (VeInvalid ''array'') (as_array v)"

section \<open>Candidates\<close>

record candidate =
  cd_input :: settlement_digest_input
  cd_digest :: string
  cd_signer :: address
  cd_signature :: bytes
  cd_fee_bps :: u64
  cd_reference_block :: u64

text \<open>The verifying half of the elliptic-curve library: scalars, and recovery of the uncompressed public point.\<close>

record ('k, 's) ecdsa_verify = "('k, 's) ecdsa" +
  signature_from_slice :: "bytes \<Rightarrow> 's option"
  recover_from_prehash :: "bytes \<Rightarrow> 's \<Rightarrow> nat \<Rightarrow> bytes option"

definition ZERO_HEX :: string where
  "ZERO_HEX = ''0x'' @ replicate 64 CHR ''0''"

definition candidate_input :: "promotion_policy \<Rightarrow> json \<Rightarrow> (verification_error, settlement_digest_input) result" where
  "candidate_input policy doc =
     bindR (decimal_big (json_index doc ''incidentId'')) (\<lambda>incident_id.
     bindR (hash_of (json_index doc ''root'')) (\<lambda>root.
     bindR (decimal_big (json_index doc ''unresolvedClaims'')) (\<lambda>unresolved.
     bindR (bindR (array_of (json_index doc ''poolPayouts'')) (mapR decimal_big)) (\<lambda>payouts.
     bindR (bindR (array_of (json_index doc ''poolAddrs'')) (mapR address_of)) (\<lambda>addrs.
     bindR (hash_of (json_index doc ''claimSetHash'')) (\<lambda>claim_set.
     bindR (hash_of (json_index doc ''teePcrHash'')) (\<lambda>pcr.
     Ok \<lparr>sd_chain_id = pp_chain_id policy, sd_verifying_contract = pp_defi_insurance policy, sd_incident_id = incident_id,
         sd_root = root, sd_unresolved_claims = unresolved, sd_pool_payouts = payouts, sd_pool_addrs = addrs,
         sd_claim_set = claim_set, sd_tee_pcr_hash = pcr\<rparr>)))))))"

definition candidate_row :: "json \<Rightarrow> (verification_error, merkle_row) result" where
  "candidate_row r =
     bindR (decimal_big (json_index r ''claimId'')) (\<lambda>claim_id.
     bindR (address_of (json_index r ''user'')) (\<lambda>user.
     bindR (bindR (array_of (json_index r ''amounts'')) (mapR decimal_big)) (\<lambda>amounts.
     bindR (decimal_big (json_index r ''scoreSpent'')) (\<lambda>score_spent.
     bindR (decimal_big (json_index r ''boostedScore'')) (\<lambda>boosted_score.
     bindR (decimal_big (json_index r ''eligibleAmount'')) (\<lambda>eligible_amount.
     bindR (decimal_big (json_index r ''eligibleBoosterAmount'')) (\<lambda>eligible_booster_amount.
     Ok \<lparr>mr_claim_id = claim_id, mr_user = user, mr_amounts = amounts, mr_score_spent = score_spent,
         mr_boosted_score = boosted_score, mr_eligible_amount = eligible_amount,
         mr_eligible_booster_amount = eligible_booster_amount\<rparr>)))))))"

text \<open>The policy, network, contract and incident checks that come before any field is used.\<close>

definition candidate_header :: "promotion_policy \<Rightarrow> string \<Rightarrow> json \<Rightarrow> (verification_error, unit) result" where
  "candidate_header policy incident_id doc =
     bindR (require (pp_chain_id policy \<noteq> 0 \<and> \<not> is_zero (pp_registry policy) \<and> \<not> is_zero (pp_defi_insurance policy))
              ''invalid trusted policy'') (\<lambda>_.
     bindR (require (json_index doc ''schemaVersion'' = JInt 2 \<and> as_u64 (json_index doc ''chainId'') = Some (pp_chain_id policy))
              ''schema/network'') (\<lambda>_.
     bindR (andR (bindR (address_of (json_index doc ''registry'')) (\<lambda>a. Ok (a = pp_registry policy)))
                 (bindR (address_of (json_index doc ''defiInsurance'')) (\<lambda>a. Ok (a = pp_defi_insurance policy)))) (\<lambda>bound.
     bindR (require bound ''protocol binding'') (\<lambda>_.
     bindR (text_of (json_index doc ''incidentId'')) (\<lambda>found.
     require (found = incident_id) ''incident locator'')))))"

text \<open>One row of the loop that sums the gross payouts and compares the attached proof.\<close>

definition check_row ::
  "settlement_tree \<Rightarrow> u64 \<Rightarrow> biguint list \<Rightarrow> merkle_row \<times> json \<Rightarrow> (verification_error, biguint list) result" where
  "check_row tree fee_bps totals entry =
     (let (r, doc) = entry in
      bindR (require (length (mr_amounts r) = length totals) ''row pool width'') (\<lambda>_.
      let totals' = map (\<lambda>(total_paid, amount). total_paid + (amount * 10000) div (10000 - fee_bps)) (zip totals (mr_amounts r)) in
      case json_get doc ''proof'' of
        None \<Rightarrow> Ok totals'
      | Some p \<Rightarrow>
          bindR (bindR (array_of p) (mapR hash_of)) (\<lambda>actual.
          bindR (map_errR (\<lambda>_. VeInvalid ''proof'') (proof_hex tree (mr_claim_id r))) (\<lambda>expected.
          bindR (require (actual = expected) ''proof mismatch'') (\<lambda>_. Ok totals')))))"

definition check_rows ::
  "(bytes \<Rightarrow> hash) \<Rightarrow> settlement_digest_input \<Rightarrow> u64 \<Rightarrow> json \<Rightarrow> (verification_error, unit) result" where
  "check_rows keccak input fee_bps doc =
     bindR (array_of (json_index doc ''rows'')) (\<lambda>entries.
     bindR (mapR candidate_row entries) (\<lambda>rows.
     bindR (require (sd_unresolved_claims input = length rows) ''row count'') (\<lambda>_.
     bindR (map_errR (\<lambda>_. VeInvalid ''Merkle rows'') (settlement_tree_new keccak (sd_incident_id input) rows)) (\<lambda>tree.
     bindR (require (root_hex tree = sd_root input) ''Merkle root'') (\<lambda>_.
     bindR (foldR (check_row tree fee_bps) (replicate (length (sd_pool_payouts input)) 0) (zip rows entries)) (\<lambda>totals.
     require (totals = sd_pool_payouts input) ''gross pool totals''))))))"

definition recover_signer ::
  "('k, 's, 'z) ecdsa_verify_scheme \<Rightarrow> (bytes \<Rightarrow> hash) \<Rightarrow> string \<Rightarrow> bytes \<Rightarrow> (verification_error, address) result" where
  "recover_signer ec keccak digest sig_bytes =
     bindR (require (sig_bytes ! 64 = 27 \<or> sig_bytes ! 64 = 28) ''signature v'') (\<lambda>_.
     bindR (ok_or (VeInvalid ''signature scalars'') (signature_from_slice ec (take 64 sig_bytes))) (\<lambda>sig.
     bindR (require (normalize_s ec sig = None) ''high-s signature'') (\<lambda>_.
     bindR (bytes_of (JStr digest) 32) (\<lambda>prehash.
     bindR (ok_or (VeInvalid ''signature recovery'') (recover_from_prehash ec prehash sig (unat (sig_bytes ! 64) - 27))) (\<lambda>point.
     Ok (Address (drop 12 (keccak (drop 1 point)))))))))"

definition verify_candidate ::
  "('k, 's, 'z) ecdsa_verify_scheme \<Rightarrow> (bytes \<Rightarrow> hash) \<Rightarrow> promotion_policy \<Rightarrow> string \<Rightarrow> json \<Rightarrow> (verification_error, candidate) result" where
  "verify_candidate ec keccak policy incident_id doc =
     bindR (candidate_header policy incident_id doc) (\<lambda>_.
     bindR (candidate_input policy doc) (\<lambda>input.
     bindR (require (sd_incident_id input \<noteq> 0 \<and> sd_root input \<noteq> ZERO_HEX) ''zero incident/root'') (\<lambda>_.
     bindR (require (length (sd_pool_addrs input) = length (sd_pool_payouts input) \<and> list_all (\<lambda>a. \<not> is_zero a) (sd_pool_addrs input)
              \<and> distinct (sd_pool_addrs input)) ''pool shape'') (\<lambda>_.
     bindR (decimal_u64 (json_index doc ''protocolFeeShareBps'')) (\<lambda>fee_bps.
     bindR (require (fee_bps \<le> 2000) ''fee cap'') (\<lambda>_.
     bindR (check_rows keccak input fee_bps doc) (\<lambda>_.
     bindR (map_errR (\<lambda>_. VeInvalid ''typed data'') (settlement_digest keccak input)) (\<lambda>digest.
     bindR (hash_of (json_index doc ''settlementDigest'')) (\<lambda>declared.
     bindR (require (declared = digest) ''digest mismatch'') (\<lambda>_.
     bindR (bytes_of (json_index doc ''signature'') 65) (\<lambda>sig_bytes.
     bindR (recover_signer ec keccak digest sig_bytes) (\<lambda>signer.
     bindR (address_of (json_index doc ''signer'')) (\<lambda>declared_signer.
     bindR (require (declared_signer = signer) ''declared signer mismatch'') (\<lambda>_.
     bindR (decimal_u64 (json_index doc ''referenceBlock'')) (\<lambda>reference_block.
     Ok \<lparr>cd_input = input, cd_digest = digest, cd_signer = signer, cd_signature = sig_bytes, cd_fee_bps = fee_bps,
         cd_reference_block = reference_block\<rparr>)))))))))))))))"

section \<open>Evidence budget\<close>

definition TRACE_METHOD :: string where "TRACE_METHOD = ''debug_traceTransaction''"
definition TRACE_BYTE_CAP :: nat where "TRACE_BYTE_CAP = 2 * 1024 * 1024"

definition trace_unavailable :: "string \<Rightarrow> verification_error" where
  "trace_unavailable message = VeRpc (InvalidResponse TRACE_METHOD message)"

text \<open>What one document costs, the size limit it may exceed, and what it pushes on the stack.\<close>

fun node_charge :: "json \<Rightarrow> nat" where
  "node_charge (JStr s) = saturating_add64 32 (saturating_mul64 (length s) 6)"
| "node_charge (JObj kvs) =
     foldl (\<lambda>charge (key, v). saturating_add64 charge (saturating_add64 (saturating_mul64 (length key) 6) 4)) 32 kvs"
| "node_charge _ = 32"

fun node_oversize :: "json \<Rightarrow> string option" where
  "node_oversize (JArr a) = (if length a > 65536 then Some ''trace array limit'' else None)"
| "node_oversize (JObj kvs) = (if length kvs > 65536 then Some ''trace object limit'' else None)"
| "node_oversize _ = None"

fun node_children :: "json \<Rightarrow> json list" where
  "node_children (JArr a) = a"
| "node_children (JObj kvs) = map snd kvs"
| "node_children _ = []"

fun json_nodes :: "json \<Rightarrow> nat" where
  "json_nodes (JArr a) = Suc (\<Sum>v\<leftarrow>a. json_nodes v)"
| "json_nodes (JObj kvs) = Suc (\<Sum>kv\<leftarrow>kvs. json_nodes (snd kv))"
| "json_nodes _ = 1"

lemma json_nodes_children: "json_nodes v = Suc (\<Sum>c\<leftarrow>node_children v. json_nodes c)"
  by (cases v) (simp_all add: comp_def)

text \<open>The budget is the state of the action; the stack has its top at the head.\<close>

definition spend :: "nat \<Rightarrow> (nat, verification_error, unit) act" where
  "spend charge = (\<lambda>budget. case checked_sub64 budget charge of
     None \<Rightarrow> (Err (VeRpc (ResponseTooLarge TRACE_METHOD TRACE_BYTE_CAP)), budget)
   | Some left \<Rightarrow> (Ok (), left))"

function bounded_loop :: "(json \<times> nat) list \<Rightarrow> nat \<Rightarrow> (nat, verification_error, unit) act" where
  "bounded_loop [] nodes = retA ()"
| "bounded_loop ((value, depth) # stack) nodes =
     (if depth > 96 \<or> Suc nodes > 65536 then failA (trace_unavailable ''trace depth/node limit'')
      else case node_oversize value of
        Some message \<Rightarrow> failA (trace_unavailable message)
      | None \<Rightarrow> bindA (spend (node_charge value)) (\<lambda>_.
          bounded_loop (rev (map (\<lambda>v. (v, Suc depth)) (node_children value)) @ stack) (Suc nodes)))"
  by pat_completeness auto
termination
proof (relation "measure (\<lambda>(stack, _). \<Sum>(v, _)\<leftarrow>stack. json_nodes v)", goal_cases)
  case (2 v depth stack nodes)
  then show ?case using json_nodes_children [of v] by (simp add: rev_map [symmetric] comp_def)
qed simp

definition bounded_evidence :: "json \<Rightarrow> (nat, verification_error, unit) act" where
  "bounded_evidence value = bounded_loop [(value, 0)] 0"

definition bounded_trace :: "json \<Rightarrow> (verification_error, unit) result" where
  "bounded_trace value = fst (bounded_evidence value TRACE_BYTE_CAP)"

definition VERIFICATION_RPC_CAP :: nat where "VERIFICATION_RPC_CAP = 256"
definition VERIFICATION_BYTE_CAP :: nat where "VERIFICATION_BYTE_CAP = 8 * 1024 * 1024"

text \<open>
  \<^verbatim>\<open>BudgetRpc\<close>: the pair \<^verbatim>\<open>remaining\<close> of requests and bytes is threaded beside the world of the inner
  provider.  A rejected request leaves it as it was; evidence that is too large keeps what was already charged.
\<close>

type_synonym 'w budgeted = "'w \<times> nat \<times> nat"

definition charge_requests :: "nat \<Rightarrow> ('w budgeted, rpc_error, unit) act" where
  "charge_requests k = (\<lambda>(w, n, b). case checked_sub64 n k of
     None \<Rightarrow> (Err (LogBudgetExceeded ''verification requests''), (w, n, b))
   | Some left \<Rightarrow> (Ok (), (w, left, b)))"

definition charge_evidence :: "json \<Rightarrow> ('w budgeted, rpc_error, unit) act" where
  "charge_evidence value = (\<lambda>(w, n, b). case bounded_evidence value b of
     (r, b') \<Rightarrow> (map_errR (\<lambda>_. LogBudgetExceeded ''verification bytes/depth/nodes'') r, (w, n, b')))"

definition innerA :: "('w, 'e, 'a) act \<Rightarrow> ('w budgeted, 'e, 'a) act" where
  "innerA m = (\<lambda>(w, n, b). case m w of (r, w') \<Rightarrow> (r, (w', n, b)))"

definition budget_request :: "('w, 'z) rpc_scheme \<Rightarrow> string \<Rightarrow> json \<Rightarrow> ('w budgeted, rpc_error, json) act" where
  "budget_request rpc method_name params =
     bindA (charge_requests 1) (\<lambda>_.
     bindA (innerA (rpc_request rpc method_name params)) (\<lambda>value.
     bindA (charge_evidence value) (\<lambda>_. retA value)))"

definition budget_batch_request ::
  "('w, 'z) rpc_scheme \<Rightarrow> string \<Rightarrow> json list \<Rightarrow> ('w budgeted, rpc_error, json list) act" where
  "budget_batch_request rpc method_name params =
     bindA (charge_requests (length params)) (\<lambda>_.
     bindA (innerA (rpc_batch_request rpc method_name params)) (\<lambda>values.
     bindA (foldA (\<lambda>_ value. charge_evidence value) () values) (\<lambda>_. retA values)))"

definition budget_rpc :: "('w, 'z) rpc_scheme \<Rightarrow> ('w budgeted) rpc" where
  "budget_rpc rpc = \<lparr>rpc_request = budget_request rpc, rpc_batch_request = budget_batch_request rpc,
     rpc_metrics_of = (\<lambda>(w, _). rpc_metrics_of rpc w), rpc_clock_ms = (\<lambda>(w, _). rpc_clock_ms rpc w)\<rparr>"

section \<open>Settlement calls\<close>

text \<open>A word of at most 32 bytes, which the values below have because \<^verbatim>\<open>decimal\<close> bounds them.\<close>

definition abi_word_of :: "bytes \<Rightarrow> bytes" where
  "abi_word_of bs = replicate (32 - length bs) 0 @ bs"

definition selector :: "(bytes \<Rightarrow> hash) \<Rightarrow> string \<Rightarrow> bytes" where
  "selector keccak signature = take 4 (keccak (text_bytes signature))"

definition range_at :: "bytes \<Rightarrow> nat \<Rightarrow> nat \<Rightarrow> bytes option" where
  "range_at data start len =
     (case checked_add64 start len of None \<Rightarrow> None
      | Some stop \<Rightarrow> if stop \<le> length data then Some (take len (drop start data)) else None)"

definition size_step :: "nat option \<Rightarrow> 8 word \<Rightarrow> nat option" where
  "size_step n b = (case n of None \<Rightarrow> None
     | Some n \<Rightarrow> (case checked_mul64 n 256 of None \<Rightarrow> None | Some m \<Rightarrow> checked_add64 m (unat b)))"

definition size_at :: "bytes \<Rightarrow> nat \<Rightarrow> nat option" where
  "size_at data start = (case range_at data start 32 of None \<Rightarrow> None | Some word \<Rightarrow> foldl size_step (Some 0) word)"

definition args_match :: "candidate \<Rightarrow> bytes \<Rightarrow> bool option" where
  "args_match cand args =
     Option.bind (range_at args 0 96) (\<lambda>_.
     Option.bind (range_at args 0 32) (\<lambda>root.
     Option.bind (hex_decode (drop 2 (sd_root (cd_input cand)))) (\<lambda>expected_root.
     if root \<noteq> expected_root then Some False
     else
     Option.bind (size_at args 32) (\<lambda>payouts.
     Option.bind (size_at args 64) (\<lambda>signature.
     Option.bind (size_at args payouts) (\<lambda>entries.
     if entries \<noteq> length (sd_pool_payouts (cd_input cand)) then Some False
     else
     Option.bind (size_at args signature) (\<lambda>sig_len.
     if sig_len \<noteq> 65 then Some False
     else
     Option.bind (checked_add64 payouts 32) (\<lambda>words_at.
     Option.bind (checked_mul64 entries 32) (\<lambda>words_len.
     Option.bind (range_at args words_at words_len) (\<lambda>words.
     if \<not> list_all (\<lambda>(word, payout). word = abi_word_of (to_bytes_be payout))
            (zip (chunks 32 words) (sd_pool_payouts (cd_input cand))) then Some False
     else
     Option.bind (checked_add64 signature 32) (\<lambda>sig_at.
     Option.bind (range_at args sig_at 65) (\<lambda>sig.
     Some (sig = cd_signature cand)))))))))))))"

definition call_matches :: "(bytes \<Rightarrow> hash) \<Rightarrow> candidate \<Rightarrow> string \<Rightarrow> bool option" where
  "call_matches keccak cand input =
     Option.bind (strip_prefix ''0x'' input) (\<lambda>raw.
     Option.bind (hex_decode raw) (\<lambda>data.
     Option.bind (range_at data 0 4) (\<lambda>sel.
     if sel \<noteq> selector keccak ''settleIncident(bytes32,uint256[],bytes)'' then Some False
     else args_match cand (drop 4 data))))"

definition settlement_call_matches :: "(bytes \<Rightarrow> hash) \<Rightarrow> candidate \<Rightarrow> string \<Rightarrow> bool" where
  "settlement_call_matches keccak cand input = (case call_matches keccak cand input of None \<Rightarrow> False | Some b \<Rightarrow> b)"

section \<open>Call traces\<close>

definition FRAME_TYPES :: "string list" where
  "FRAME_TYPES = [''CALL'', ''STATICCALL'', ''DELEGATECALL'', ''CALLCODE'', ''CREATE'', ''CREATE2'', ''SELFDESTRUCT'']"

definition frame_reverted :: "json \<Rightarrow> bool" where
  "frame_reverted frame \<longleftrightarrow> json_index frame ''error'' \<noteq> JNull \<or> json_index frame ''revertReason'' \<noteq> JNull"

definition frame_type_ok :: "json \<Rightarrow> bool" where
  "frame_type_ok frame \<longleftrightarrow> (case as_str (json_index frame ''type'') of None \<Rightarrow> False | Some t \<Rightarrow> t \<in> set FRAME_TYPES)"

definition frame_settles ::
  "(bytes \<Rightarrow> hash) \<Rightarrow> promotion_policy \<Rightarrow> candidate \<Rightarrow> json \<Rightarrow> (verification_error, bool) result" where
  "frame_settles keccak policy cand frame =
     andR (Ok (json_index frame ''type'' = JStr ''CALL''))
    (andR (bindR (evidence (address_of (json_index frame ''to''))) (\<lambda>a. Ok (a = pp_defi_insurance policy)))
          (bindR (evidence_input (json_index frame ''input'')) (\<lambda>input. Ok (settlement_call_matches keccak cand input))))"

definition frame_calls :: "json \<Rightarrow> (verification_error, json list) result" where
  "frame_calls frame =
     (case json_get frame ''calls'' of None \<Rightarrow> Ok []
      | Some children \<Rightarrow> ok_or (trace_unavailable ''malformed callTracer children'') (as_array children))"

lemma sum_list_mono_mem: "(v :: nat) \<in> set vs \<Longrightarrow> v \<le> sum_list vs"
  by (induction vs) auto

lemma frame_calls_nodes:
  assumes "frame_calls frame = Ok children"
  shows "(\<Sum>c\<leftarrow>children. json_nodes c) < json_nodes frame"
proof (cases "json_get frame ''calls''")
  case None
  then show ?thesis using assms json_nodes_children [of frame] by (simp add: frame_calls_def)
next
  case (Some v)
  then obtain kvs where frame: "frame = JObj kvs" "map_of kvs ''calls'' = Some v" by (cases frame) auto
  from assms Some have v: "v = JArr children" by (cases v) (auto simp: frame_calls_def)
  from frame(2) have "json_nodes v \<in> set (map (\<lambda>kv. json_nodes (snd kv)) kvs)" by (force dest: map_of_SomeD)
  then have "json_nodes v \<le> (\<Sum>kv\<leftarrow>kvs. json_nodes (snd kv))" by (rule sum_list_mono_mem)
  then show ?thesis by (simp add: frame v)
qed

text \<open>The loop over the frames on the stack, whose top is the head of the list.\<close>

function trace_loop ::
  "(bytes \<Rightarrow> hash) \<Rightarrow> promotion_policy \<Rightarrow> candidate \<Rightarrow> json list \<Rightarrow> (verification_error, bool) result" where
  "trace_loop keccak policy cand [] = Ok False"
| "trace_loop keccak policy cand (frame # stack) =
     (if \<not> frame_type_ok frame then Err (trace_unavailable ''malformed callTracer frame'')
      else if frame_reverted frame then trace_loop keccak policy cand stack
      else case frame_settles keccak policy cand frame of
        Inl e \<Rightarrow> Err e
      | Inr True \<Rightarrow> Ok True
      | Inr False \<Rightarrow>
         (case frame_calls frame of
            Inl e \<Rightarrow> Err e
          | Inr children \<Rightarrow> trace_loop keccak policy cand (rev children @ stack)))"
  by pat_completeness auto
termination
proof (relation "measure (\<lambda>(_, _, _, stack). \<Sum>v\<leftarrow>stack. json_nodes v)", goal_cases)
  case (2 keccak policy cand frame stack)
  then show ?case using json_nodes_children [of frame] by simp
next
  case (3 keccak policy cand frame stack _ children)
  then show ?case using frame_calls_nodes [of frame children] by (simp add: rev_map [symmetric] sum_list_rev)
qed simp

definition trace_params :: "json \<Rightarrow> json" where
  "trace_params tx = JArr [json_index tx ''hash'', JObj [(''tracer'', JStr ''callTracer''), (''timeout'', JStr ''5s''),
     (''tracerConfig'', JObj [(''onlyTopCall'', JBool False)])]]"

text \<open>The outer frame of the trace is the mined transaction.\<close>

definition trace_bound :: "json \<Rightarrow> json \<Rightarrow> json \<Rightarrow> (verification_error, bool) result" where
  "trace_bound tx receipt trace =
     (let (outer_type, outer_to) =
        (if json_index tx ''to'' = JNull then (''CREATE'', json_index receipt ''contractAddress'')
         else (''CALL'', json_index tx ''to'')) in
      andR (Ok (json_index trace ''type'' = JStr outer_type))
     (andR (bindR (evidence (address_of (json_index trace ''from''))) (\<lambda>a.
            bindR (evidence (address_of (json_index tx ''from''))) (\<lambda>b. Ok (a = b))))
     (andR (bindR (evidence (address_of (json_index trace ''to''))) (\<lambda>a.
            bindR (evidence (address_of outer_to)) (\<lambda>b. Ok (a = b))))
     (andR (bindR (evidence_input (json_index trace ''input'')) (\<lambda>a.
            bindR (evidence_input (json_index tx ''input'')) (\<lambda>b. Ok (eq_ignore_ascii_case a b))))
           (Ok (json_index trace ''value'' = json_index tx ''value''))))))"

definition traced_settlement ::
  "('w, 'z) rpc_scheme \<Rightarrow> (bytes \<Rightarrow> hash) \<Rightarrow> promotion_policy \<Rightarrow> candidate \<Rightarrow> json \<Rightarrow> json \<Rightarrow> ('w, verification_error, bool) act" where
  "traced_settlement rpc keccak policy cand tx receipt =
     bindA (map_errA VeRpc (rpc_request rpc TRACE_METHOD (trace_params tx))) (\<lambda>trace.
     bindA (liftR (bounded_trace trace)) (\<lambda>_.
     bindA (guardA (\<not> is_json_object trace \<or> as_str (json_index trace ''type'') = None)
              (trace_unavailable ''callTracer result unavailable'')) (\<lambda>_.
     bindA (liftR (trace_bound tx receipt trace)) (\<lambda>bound.
     bindA (liftR (evidence_require bound ''trace transaction binding'')) (\<lambda>_.
     liftR (trace_loop keccak policy cand [trace]))))))"

section \<open>Acceptance on chain\<close>

definition bindings ::
  "('w, 'z) rpc_scheme \<Rightarrow> abi \<Rightarrow> promotion_policy \<Rightarrow> u64 \<Rightarrow> ('w, verification_error, unit) act" where
  "bindings rpc abi policy block_number =
     bindA (foldA (\<lambda>_ a. map_errA VeChain (assert_contract_code_at rpc (address_to_string a) ''canonical contract'' block_number)) ()
              [pp_registry policy, pp_defi_insurance policy]) (\<lambda>_.
     bindA (map_errA VeChain (protocol_bindings_at rpc abi (pp_registry policy) (pp_defi_insurance policy) block_number)) (\<lambda>(module_addr, registry).
     bindA (liftR (require (module_addr = pp_defi_insurance policy) ''Registry module'')) (\<lambda>_.
     liftR (require (registry = pp_registry policy) ''module Registry''))))"

definition settled_filter :: "(bytes \<Rightarrow> hash) \<Rightarrow> promotion_policy \<Rightarrow> candidate \<Rightarrow> log_filter" where
  "settled_filter keccak policy cand =
     \<lparr>lf_address = address_to_string (pp_defi_insurance policy),
      lf_topics = [JStr (''0x'' @ hex_encode (keccak (text_bytes ''IncidentSettled(uint256,bytes32,bytes32)''))),
                   JStr (''0x'' @ hex_encode (abi_word_of (to_bytes_be (sd_incident_id (cd_input cand)))))]\<rparr>"

definition settled_data :: "candidate \<Rightarrow> string" where
  "settled_data cand = sd_root (cd_input cand) @ drop 2 (sd_tee_pcr_hash (cd_input cand))"

text \<open>The entry of the receipt that is the log.\<close>

definition receipt_entry_matches :: "rpc_log \<Rightarrow> block_anchor \<Rightarrow> json \<Rightarrow> bool" where
  "receipt_entry_matches log anchor entry \<longleftrightarrow>
     (case as_str (json_index entry ''address'') of None \<Rightarrow> False | Some a \<Rightarrow> eq_ignore_ascii_case a (log_address log))
   \<and> json_index entry ''topics'' = JArr (map JStr (log_topics log))
   \<and> as_str (json_index entry ''data'') = Some (log_data log)
   \<and> as_str (json_index entry ''transactionHash'') = Some (log_transaction_hash log)
   \<and> as_str (json_index entry ''blockHash'') = Some (ba_hash anchor)
   \<and> as_str (json_index entry ''blockNumber'') = Some (hex_tag (log_block_number log))
   \<and> as_str (json_index entry ''logIndex'') = Some (hex_tag (log_log_index log))
   \<and> json_index entry ''removed'' = JBool False"

text \<open>The transaction and its successful receipt belong to the log and to the canonical block.\<close>

definition check_acceptance :: "rpc_log \<Rightarrow> block_anchor \<Rightarrow> json \<Rightarrow> json \<Rightarrow> (verification_error, unit) result" where
  "check_acceptance log anchor tx receipt =
     bindR (andR (bindR (evidence (hash_of (json_index tx ''hash''))) (\<lambda>h. Ok (h = log_transaction_hash log)))
                 (bindR (evidence (hash_of (json_index receipt ''transactionHash''))) (\<lambda>h. Ok (h = log_transaction_hash log)))) (\<lambda>same.
     bindR (evidence_require same ''acceptance transaction identity'') (\<lambda>_.
     bindR (andR (bindR (map_errR VeChain (quantity (json_index tx ''blockNumber'') ''tx block'')) (\<lambda>n. Ok (n = log_block_number log)))
           (andR (bindR (map_errR VeChain (quantity (json_index receipt ''blockNumber'') ''receipt block'')) (\<lambda>n. Ok (n = log_block_number log)))
           (andR (bindR (evidence (hash_of (json_index tx ''blockHash''))) (\<lambda>h. Ok (h = ba_hash anchor)))
                 (bindR (evidence (hash_of (json_index receipt ''blockHash''))) (\<lambda>h. Ok (h = ba_hash anchor)))))) (\<lambda>same_block.
     bindR (evidence_require same_block ''acceptance block binding'') (\<lambda>_.
     bindR (map_errR VeChain (quantity (json_index receipt ''status'') ''receipt status'')) (\<lambda>status.
     bindR (evidence_require (status = 1) ''reverted acceptance'') (\<lambda>_.
     bindR (evidence (array_of (json_index receipt ''logs''))) (\<lambda>entries.
     evidence_require (list_ex (receipt_entry_matches log anchor) entries) ''acceptance receipt event'')))))))"

definition direct_settlement ::
  "(bytes \<Rightarrow> hash) \<Rightarrow> promotion_policy \<Rightarrow> candidate \<Rightarrow> json \<Rightarrow> (verification_error, bool) result" where
  "direct_settlement keccak policy cand tx =
     andR (Ok (json_index tx ''to'' \<noteq> JNull))
    (andR (bindR (evidence (address_of (json_index tx ''to''))) (\<lambda>a. Ok (a = pp_defi_insurance policy)))
          (bindR (evidence_input (json_index tx ''input'')) (\<lambda>input. Ok (settlement_call_matches keccak cand input))))"

text \<open>
  One log of the loop: the evidence it names is read and checked, the call is looked for in the transaction itself and
  then in its trace; the result says whether the log proves the acceptance, so that the loop returns.
\<close>

definition read_acceptance ::
  "('w, 'z) rpc_scheme \<Rightarrow> rpc_log \<Rightarrow> ('w, verification_error, block_anchor \<times> json \<times> json) act" where
  "read_acceptance rpc log =
     bindA (map_errA VeChain (block_by_number rpc (log_block_number log))) (\<lambda>anchor.
     bindA (map_errA VeRpc (rpc_request rpc ''eth_getTransactionByHash'' (JArr [JStr (log_transaction_hash log)]))) (\<lambda>tx.
     bindA (map_errA VeRpc (rpc_request rpc ''eth_getTransactionReceipt'' (JArr [JStr (log_transaction_hash log)]))) (\<lambda>receipt.
     bindA (liftR (check_acceptance log anchor tx receipt)) (\<lambda>_.
     retA (anchor, tx, receipt)))))"

definition settled_by ::
  "('w, 'z) rpc_scheme \<Rightarrow> (bytes \<Rightarrow> hash) \<Rightarrow> promotion_policy \<Rightarrow> candidate \<Rightarrow> json \<Rightarrow> json \<Rightarrow> ('w, verification_error, bool) act" where
  "settled_by rpc keccak policy cand tx receipt =
     bindA (liftR (direct_settlement keccak policy cand tx)) (\<lambda>direct.
     if direct then retA True else traced_settlement rpc keccak policy cand tx receipt)"

definition accepted_log ::
  "('w, 'z) rpc_scheme \<Rightarrow> abi \<Rightarrow> (bytes \<Rightarrow> hash) \<Rightarrow> promotion_policy \<Rightarrow> candidate \<Rightarrow> rpc_log \<Rightarrow> ('w, verification_error, bool) act" where
  "accepted_log rpc abi keccak policy cand log =
     (if log_data log \<noteq> settled_data cand \<or> length (log_topics log) \<noteq> 2 then retA False
      else
      bindA (read_acceptance rpc log) (\<lambda>(anchor, tx, receipt).
      bindA (settled_by rpc keccak policy cand tx receipt) (\<lambda>settled.
      if \<not> settled then retA False
      else
      bindA (bindings rpc abi policy (log_block_number log)) (\<lambda>_.
      bindA (map_errA VeChain (block_by_number rpc (ba_number anchor))) (\<lambda>again.
      bindA (liftR (evidence_require (ba_hash again = ba_hash anchor) ''acceptance reorg'')) (\<lambda>_.
      retA True))))))"

fun accepted_logs ::
  "('w, 'z) rpc_scheme \<Rightarrow> abi \<Rightarrow> (bytes \<Rightarrow> hash) \<Rightarrow> promotion_policy \<Rightarrow> candidate \<Rightarrow> rpc_log list \<Rightarrow> ('w, verification_error, bool) act" where
  "accepted_logs rpc abi keccak policy cand [] = retA False"
| "accepted_logs rpc abi keccak policy cand (log # logs) =
     bindA (accepted_log rpc abi keccak policy cand log) (\<lambda>accepted.
     if accepted then retA True else accepted_logs rpc abi keccak policy cand logs)"

text \<open>The loop \<^verbatim>\<open>while start <= to\<close>; block numbers are at most \<^term>\<open>u64_max\<close>, where it stops.\<close>

function accepted_onchain ::
  "('w, 'z) rpc_scheme \<Rightarrow> abi \<Rightarrow> (bytes \<Rightarrow> hash) \<Rightarrow> promotion_policy \<Rightarrow> candidate \<Rightarrow> u64 \<Rightarrow> u64 \<Rightarrow> ('w, verification_error, unit) act" where
  "accepted_onchain rpc abi keccak policy cand start stop =
     (if start \<le> stop
      then let end_block = min (saturating_add64 start (MAX_LOG_RANGE - 1)) stop in
        bindA (map_errA VeRpc (get_logs_chunked rpc (settled_filter keccak policy cand) start end_block MAX_LOG_RANGE LOG_RESULT_CAP)) (\<lambda>(logs, _).
        bindA (accepted_logs rpc abi keccak policy cand logs) (\<lambda>accepted.
        if accepted then retA ()
        else if end_block = stop \<or> end_block = u64_max then failA (VeInvalid ''no exact accepted settlement call'')
        else accepted_onchain rpc abi keccak policy cand (end_block + 1) stop))
      else failA (VeInvalid ''no exact accepted settlement call''))"
  by pat_completeness auto
termination
  by (relation "measure (\<lambda>(_, _, _, _, _, s, t). Suc t - s)") (auto simp: saturating_add64_def min_def split: if_splits)

declare accepted_onchain.simps [simp del]

section \<open>Promotion\<close>

datatype authorization = CurrentSigner | AcceptedOnchain

record verified_settlement =
  vs_block :: block_anchor
  vs_authorization :: authorization

text \<open>The state of the incident at the finalized head.\<close>

definition check_incident :: "candidate \<Rightarrow> block_anchor \<Rightarrow> incident \<Rightarrow> (verification_error, unit) result" where
  "check_incident cand head inc =
     bindR (require (in_open_block inc > 0 \<and> in_open_block inc \<le> ba_number head
              \<and> in_reference_block inc = cd_reference_block cand \<and> in_reference_block inc \<le> in_open_block inc
              \<and> \<not> is_zero (in_insured_token inc)) ''incident anchors'') (\<lambda>_.
     require (in_tee_pcr_hash inc = sd_tee_pcr_hash (cd_input cand) \<and> in_tee_pcr_hash inc \<noteq> ZERO_HEX
              \<and> in_protocol_fee_share_bps inc = cd_fee_bps cand) ''incident PCR/fee snapshot'')"

definition check_snapshot :: "settlement_digest_input \<Rightarrow> incident \<Rightarrow> (verification_error, unit) result" where
  "check_snapshot input snapshot =
     require (in_unresolved_claims snapshot = sd_unresolved_claims input \<and> in_claim_set_hash snapshot = sd_claim_set input
              \<and> in_tee_pcr_hash snapshot = sd_tee_pcr_hash input) ''claim-window snapshot''"

text \<open>The block up to which an acceptance is searched.\<close>

definition acceptance_limit ::
  "('w, 'z) rpc_scheme \<Rightarrow> block_anchor \<Rightarrow> u64 \<Rightarrow> incident \<Rightarrow> ('w, verification_error, u64) act" where
  "acceptance_limit rpc head deadline inc =
     (if in_phase_deadline inc > deadline \<and> in_phase_deadline inc < ba_timestamp head
      then map_errA VeChain (block_at_or_before_timestamp rpc (in_phase_deadline inc) (ba_number head))
      else retA (ba_number head))"

definition authorize ::
  "('w, 'z) rpc_scheme \<Rightarrow> abi \<Rightarrow> (bytes \<Rightarrow> hash) \<Rightarrow> promotion_policy \<Rightarrow> candidate \<Rightarrow> block_anchor \<Rightarrow> incident \<Rightarrow> bool
    \<Rightarrow> u64 \<Rightarrow> u64 \<Rightarrow> ('w, verification_error, authorization) act" where
  "authorize rpc abi keccak policy cand head inc authorized deadline window_number =
     (let input = cd_input cand in
      if in_root inc = ZERO_HEX then
        bindA (liftR (require authorized ''unauthorized signer'')) (\<lambda>_.
        bindA (liftR (require (in_resolved_at inc = 0 \<and> in_unresolved_claims inc = sd_unresolved_claims input
                 \<and> in_claim_set_hash inc = sd_claim_set input \<and> in_phase_deadline inc = deadline) ''unsettled incident state'')) (\<lambda>_.
        retA CurrentSigner))
      else
        bindA (liftR (require (in_root inc = sd_root input) ''standing root mismatch'')) (\<lambda>_.
        if authorized then retA CurrentSigner
        else bindA (acceptance_limit rpc head deadline inc) (\<lambda>stop.
             bindA (accepted_onchain rpc abi keccak policy cand window_number stop) (\<lambda>_.
             retA AcceptedOnchain))))"

definition recheck_anchor :: "('w, 'z) rpc_scheme \<Rightarrow> block_anchor \<Rightarrow> ('w, verification_error, unit) act" where
  "recheck_anchor rpc anchor =
     bindA (map_errA VeChain (block_by_number rpc (ba_number anchor))) (\<lambda>again.
     liftR (evidence_require (ba_hash again = ba_hash anchor) ''anchor changed''))"

text \<open>
  Everything after the construction of the budgeted provider, in three stages: the finalized head with the state of the
  incident there, the end of the claim window with its snapshot, and the authorization followed by the recheck of both anchors.
\<close>

definition read_incident_state ::
  "('w, 'z) rpc_scheme \<Rightarrow> abi \<Rightarrow> promotion_policy \<Rightarrow> candidate \<Rightarrow> ('w, verification_error, block_anchor \<times> incident \<times> bool) act" where
  "read_incident_state rpc abi policy cand =
     (let input = cd_input cand; insurance = pp_defi_insurance policy in
      bindA (map_errA VeChain (chain_id rpc)) (\<lambda>network.
      bindA (liftR (require (network = pp_chain_id policy) ''RPC network'')) (\<lambda>_.
      bindA (map_errA VeChain (finalized_block rpc)) (\<lambda>head.
      bindA (map_errA VeChain (latest_block rpc)) (\<lambda>latest.
      bindA (liftR (evidence_require (ba_number head \<le> ba_number latest \<and> ba_timestamp head \<le> ba_timestamp latest)
               ''impossible finalized head'')) (\<lambda>_.
      bindA (bindings rpc abi policy (ba_number head)) (\<lambda>_.
      bindA (map_errA VeChain (incident_at rpc abi insurance (sd_incident_id input) (Some (ba_number head)))) (\<lambda>inc.
      bindA (liftR (check_incident cand head inc)) (\<lambda>_.
      bindA (map_errA VeChain (incident_pools_and_signer_at rpc abi insurance (sd_incident_id input) (cd_signer cand) (ba_number head)))
        (\<lambda>(pools, authorized).
      bindA (liftR (require (pools = sd_pool_addrs input) ''incident pool order'')) (\<lambda>_.
      retA (head, inc, authorized))))))))))))"

definition read_claim_window ::
  "('w, 'z) rpc_scheme \<Rightarrow> abi \<Rightarrow> promotion_policy \<Rightarrow> candidate \<Rightarrow> block_anchor \<Rightarrow> incident
    \<Rightarrow> ('w, verification_error, u64 \<times> u64 \<times> block_anchor) act" where
  "read_claim_window rpc abi policy cand head inc =
     (let input = cd_input cand; insurance = pp_defi_insurance policy in
      bindA (map_errA VeChain (incident_claim_deadline_at rpc abi insurance (sd_incident_id input) (in_open_block inc))) (\<lambda>deadline.
      bindA (liftR (require (ba_timestamp head > deadline) ''claim window not finalized'')) (\<lambda>_.
      bindA (map_errA VeChain (block_at_or_before_timestamp rpc deadline (ba_number head))) (\<lambda>window_number.
      bindA (map_errA VeChain (block_by_number rpc window_number)) (\<lambda>window.
      bindA (map_errA VeChain (incident_at rpc abi insurance (sd_incident_id input) (Some window_number))) (\<lambda>snapshot.
      bindA (liftR (check_snapshot input snapshot)) (\<lambda>_.
      retA (deadline, window_number, window))))))))"

definition promote_candidate ::
  "('w, 'z) rpc_scheme \<Rightarrow> abi \<Rightarrow> (bytes \<Rightarrow> hash) \<Rightarrow> promotion_policy \<Rightarrow> candidate \<Rightarrow> ('w, verification_error, verified_settlement) act" where
  "promote_candidate rpc abi keccak policy cand =
     bindA (read_incident_state rpc abi policy cand) (\<lambda>(head, inc, authorized).
     bindA (read_claim_window rpc abi policy cand head inc) (\<lambda>(deadline, window_number, window).
     bindA (authorize rpc abi keccak policy cand head inc authorized deadline window_number) (\<lambda>authorization.
     bindA (foldA (\<lambda>_ anchor. recheck_anchor rpc anchor) () [head, window]) (\<lambda>_.
     retA \<lparr>vs_block = head, vs_authorization = authorization\<rparr>))))"

text \<open>Running an action with a fresh budget.\<close>

definition with_budget :: "('w budgeted, 'e, 'a) act \<Rightarrow> ('w, 'e, 'a) act" where
  "with_budget m = (\<lambda>w. case m (w, VERIFICATION_RPC_CAP, VERIFICATION_BYTE_CAP) of (r, (w', _)) \<Rightarrow> (r, w'))"

definition verify_for_promotion ::
  "('w, 'z) rpc_scheme \<Rightarrow> abi \<Rightarrow> ('k, 's, 'y) ecdsa_verify_scheme \<Rightarrow> (bytes \<Rightarrow> hash) \<Rightarrow> promotion_policy \<Rightarrow> string \<Rightarrow> json
    \<Rightarrow> ('w, verification_error, verified_settlement) act" where
  "verify_for_promotion rpc abi ec keccak policy incident_id doc =
     bindA (liftR (verify_candidate ec keccak policy incident_id doc)) (\<lambda>cand.
     with_budget (promote_candidate (budget_rpc rpc) abi keccak policy cand))"

fun json_insert :: "string \<Rightarrow> json \<Rightarrow> json \<Rightarrow> json" where
  "json_insert k v (JObj kvs) = JObj (kvs @ [(k, v)])"
| "json_insert k v doc = doc"

definition verify_result_for_promotion ::
  "('w, 'z) rpc_scheme \<Rightarrow> abi \<Rightarrow> ('k, 's, 'y) ecdsa_verify_scheme \<Rightarrow> (bytes \<Rightarrow> hash) \<Rightarrow> promotion_policy \<Rightarrow> string \<Rightarrow> json
    \<Rightarrow> ('w, verification_error, verified_settlement) act" where
  "verify_result_for_promotion rpc abi ec keccak policy incident_id outcome =
     (let doc = json_index outcome ''artifact'' in
      bindA (liftR (hash_of (json_index outcome ''digest''))) (\<lambda>outer.
      bindA (liftR (hash_of (json_index doc ''settlementDigest''))) (\<lambda>inner.
      bindA (liftR (require (outer = inner) ''outer digest'')) (\<lambda>_.
      bindA (guardA (\<not> is_json_object doc) (VeInvalid ''artifact object'')) (\<lambda>_.
      bindA (liftR (require (json_get doc ''signature'' = None \<and> json_get doc ''signer'' = None \<and> json_get doc ''digest'' = None)
               ''ambiguous signature metadata'')) (\<lambda>_.
      verify_for_promotion rpc abi ec keccak policy incident_id
        (json_insert ''signer'' (json_index outcome ''signer'')
          (json_insert ''signature'' (json_index outcome ''signature'') doc))))))))"

section \<open>The completion verifier\<close>

record 'w completion_verifier =
  cv_rpc :: "'w rpc"
  cv_policy :: promotion_policy
  cv_timeout_ms :: nat

definition completion_verifier_new ::
  "'w rpc \<Rightarrow> promotion_policy \<Rightarrow> nat \<Rightarrow> (service_error, 'w completion_verifier) result" where
  "completion_verifier_new rpc policy timeout_ms =
     (if timeout_ms = 0 \<or> timeout_ms > 30000 \<or> pp_chain_id policy = 0 \<or> is_zero (pp_registry policy)
         \<or> is_zero (pp_defi_insurance policy) then Err SvInvalidRequest
      else Ok \<lparr>cv_rpc = rpc, cv_policy = policy, cv_timeout_ms = timeout_ms\<rparr>)"

text \<open>\<^verbatim>\<open>tokio::time::timeout\<close> over the provider's clock: no outcome when the action took longer.\<close>

definition within_timeout :: "('w \<Rightarrow> nat) \<Rightarrow> nat \<Rightarrow> ('w, 'e, 'a) act \<Rightarrow> ('w, 'f, ('e + 'a) option) act" where
  "within_timeout clock limit m =
     bindA (getsA clock) (\<lambda>began.
     bindA (tryA m) (\<lambda>r.
     bindA (getsA clock) (\<lambda>now.
     retA (if now - began > limit then None else Some r))))"

definition completion_verify ::
  "'w completion_verifier \<Rightarrow> abi \<Rightarrow> ('k, 's, 'y) ecdsa_verify_scheme \<Rightarrow> (bytes \<Rightarrow> hash) \<Rightarrow> canonical_request \<Rightarrow> terminal_envelope
    \<Rightarrow> ('w, service_error, unit) act" where
  "completion_verify cv abi ec keccak request terminal =
     (if te_schema_version terminal \<noteq> 1 \<or> te_status terminal \<noteq> TerminalCompleted then failA SvInvalidStoredResult
      else case request of
        RequestOpen _ \<Rightarrow> failA SvInvalidStoredResult
      | RequestSettlement r \<Rightarrow>
          if address_from_str (csr_registry r) \<noteq> Some (pp_registry (cv_policy cv)) then failA SvInvalidStoredResult
          else bindA (within_timeout (rpc_clock_ms (cv_rpc cv)) (cv_timeout_ms cv)
                 (verify_result_for_promotion (cv_rpc cv) abi ec keccak (cv_policy cv) (csr_incident_id r) (te_payload terminal))) (\<lambda>outcome.
               case outcome of
                 Some (Inr _) \<Rightarrow> retA ()
               | Some (Inl (VeInvalid _)) \<Rightarrow> failA SvInvalidStoredResult
               | _ \<Rightarrow> failA SvUnavailable))"

end
