(* ===== verification/Verifier_Claims.thy ===== *)
theory Verifier_Claims
  imports Settlement_Verifier
begin

text \<open>
  What the promotion gate guarantees: the evidence walk accepts exactly the documents within its
  limits, the call decoder accepts exactly the call data that carries the candidate's arguments, the
  trace search finds exactly the committed calls, and a promoted settlement is justified.
\<close>

section \<open>Evidence limits\<close>

fun json_height :: "json \<Rightarrow> nat" where
  "json_height (JArr a) = foldr (\<lambda>v h. max (Suc (json_height v)) h) a 0"
| "json_height (JObj kvs) = foldr (\<lambda>kv h. max (Suc (json_height (snd kv))) h) kvs 0"
| "json_height _ = 0"

fun json_charge :: "json \<Rightarrow> nat" where
  "json_charge (JArr a) = node_charge (JArr a) + (\<Sum>v\<leftarrow>a. json_charge v)"
| "json_charge (JObj kvs) = node_charge (JObj kvs) + (\<Sum>kv\<leftarrow>kvs. json_charge (snd kv))"
| "json_charge v = node_charge v"

lemma json_charge_children: "json_charge v = node_charge v + (\<Sum>c\<leftarrow>node_children v. json_charge c)"
  by (cases v) (simp_all add: comp_def)

lemma foldr_max_le: "foldr (\<lambda>v h. max (f v) h) vs 0 \<le> (n :: nat) \<longleftrightarrow> (\<forall>v \<in> set vs. f v \<le> n)"
  by (induction vs) auto

lemma json_height_children: "json_height v \<le> n \<longleftrightarrow> (\<forall>c \<in> set (node_children v). Suc (json_height c) \<le> n)"
  by (cases v) (simp_all add: foldr_max_le)

lemma json_nodes_pos: "0 < json_nodes v"
  using json_nodes_children [of v] by simp

lemma node_children_nodes: "length (node_children v) < json_nodes v"
proof -
  have "length vs \<le> (\<Sum>c\<leftarrow>vs. json_nodes c)" for vs
    by (induction vs) (use json_nodes_pos in \<open>auto simp: Suc_le_eq add_strict_increasing\<close>)
  then show ?thesis using json_nodes_children [of v] by (simp add: less_Suc_eq_le)
qed

lemma node_oversize_children: "node_oversize v = None \<longleftrightarrow> length (node_children v) \<le> 65536 \<or> (\<forall>a. v \<noteq> JArr a) \<and> (\<forall>o'. v \<noteq> JObj o')"
  by (cases v) auto

lemma node_oversize_nodes: "json_nodes v \<le> 65536 \<Longrightarrow> node_oversize v = None"
  using node_children_nodes [of v] by (auto simp: node_oversize_children)

lemma height_step: "depth + json_height v \<le> n \<longleftrightarrow> depth \<le> n \<and> (\<forall>c \<in> set (node_children v). Suc (depth + json_height c) \<le> n)"
proof (cases "depth \<le> n")
  case True
  then have "depth + json_height v \<le> n \<longleftrightarrow> json_height v \<le> n - depth" by auto
  also have "\<dots> \<longleftrightarrow> (\<forall>c \<in> set (node_children v). Suc (depth + json_height c) \<le> n)"
    unfolding json_height_children using True by (intro ball_cong) auto
  finally show ?thesis using True by simp
qed simp

text \<open>What the stack of the walk still has to pay.\<close>

abbreviation pending_nodes :: "(json \<times> nat) list \<Rightarrow> nat" where
  "pending_nodes stack \<equiv> (\<Sum>(v, _)\<leftarrow>stack. json_nodes v)"

abbreviation pending_charge :: "(json \<times> nat) list \<Rightarrow> nat" where
  "pending_charge stack \<equiv> (\<Sum>(v, _)\<leftarrow>stack. json_charge v)"

lemma bounded_loop_exact:
  "nodes \<le> 65536 \<Longrightarrow> bounded_loop stack nodes budget = (Ok (), left) \<longleftrightarrow>
     (\<forall>(v, depth) \<in> set stack. depth + json_height v \<le> 96) \<and> nodes + pending_nodes stack \<le> 65536
     \<and> pending_charge stack + left = budget"
proof (induction stack nodes arbitrary: budget rule: bounded_loop.induct)
  case (1 nodes)
  then show ?case by auto
next
  case (2 v depth stack nodes)
  let ?pushed = "rev (map (\<lambda>c. (c, Suc depth)) (node_children v))"
  have nodes: "pending_nodes (?pushed @ stack) + 1 = pending_nodes ((v, depth) # stack)"
    using json_nodes_children [of v] by (simp add: rev_map [symmetric] comp_def)
  have charge: "pending_charge (?pushed @ stack) + node_charge v = pending_charge ((v, depth) # stack)"
    using json_charge_children [of v] by (simp add: rev_map [symmetric] comp_def)
  have height: "(\<forall>(v, depth) \<in> set ((v, depth) # stack). depth + json_height v \<le> 96)
      \<longleftrightarrow> depth \<le> 96 \<and> (\<forall>(v, depth) \<in> set (?pushed @ stack). depth + json_height v \<le> 96)"
    using height_step [of depth v 96] by (auto simp: ball_Un)
  show ?case
  proof (cases "depth > 96 \<or> Suc nodes > 65536 \<or> node_oversize v \<noteq> None")
    case True
    then have "\<not> (depth \<le> 96 \<and> nodes + json_nodes v \<le> 65536)"
      using node_oversize_nodes [of v] json_nodes_pos [of v] by auto
    with True show ?thesis by (auto split: option.splits)
  next
    case False
    then have IH: "bounded_loop (?pushed @ stack) (Suc nodes) b = (Ok (), left) \<longleftrightarrow>
      (\<forall>(v, depth) \<in> set (?pushed @ stack). depth + json_height v \<le> 96) \<and> Suc nodes + pending_nodes (?pushed @ stack) \<le> 65536
        \<and> pending_charge (?pushed @ stack) + left = b" for b
      using 2(1) by auto
    have "bounded_loop ((v, depth) # stack) nodes budget = (Ok (), left) \<longleftrightarrow>
      node_charge v \<le> budget \<and> bounded_loop (?pushed @ stack) (Suc nodes) (budget - node_charge v) = (Ok (), left)"
      using False by (auto simp: bindA_apply spend_def checked_sub64_def)
    also have "\<dots> \<longleftrightarrow> (\<forall>(v, depth) \<in> set (?pushed @ stack). depth + json_height v \<le> 96)
        \<and> Suc nodes + pending_nodes (?pushed @ stack) \<le> 65536 \<and> pending_charge (?pushed @ stack) + left + node_charge v = budget"
      unfolding IH by auto
    finally show ?thesis unfolding height nodes [symmetric] charge [symmetric] using False by auto
  qed
qed


section \<open>Call traces\<close>

text \<open>The frames the search looks at: those without a reverted frame above them.\<close>

inductive visited :: "json \<Rightarrow> json \<Rightarrow> bool" where
  visited_self: "visited f f"
| visited_child: "\<not> frame_reverted f \<Longrightarrow> frame_calls f = Ok children \<Longrightarrow> c \<in> set children \<Longrightarrow> visited c g \<Longrightarrow> visited f g"

definition frame_ok :: "(bytes \<Rightarrow> hash) \<Rightarrow> promotion_policy \<Rightarrow> candidate \<Rightarrow> json \<Rightarrow> bool" where
  "frame_ok keccak policy cand f \<longleftrightarrow> frame_type_ok f
     \<and> (frame_reverted f \<or> (\<exists>b. frame_settles keccak policy cand f = Ok b) \<and> (\<exists>cs. frame_calls f = Ok cs))"

definition settles_below :: "(bytes \<Rightarrow> hash) \<Rightarrow> promotion_policy \<Rightarrow> candidate \<Rightarrow> json \<Rightarrow> bool" where
  "settles_below keccak policy cand f \<longleftrightarrow> (\<exists>g. visited f g \<and> \<not> frame_reverted g \<and> frame_settles keccak policy cand g = Ok True)"

lemma settles_below_step:
  assumes "\<not> frame_reverted f" "frame_calls f = Ok children" "frame_settles keccak policy cand f = Ok False"
  shows "settles_below keccak policy cand f \<longleftrightarrow> (\<exists>c \<in> set children. settles_below keccak policy cand c)"
proof
  assume "settles_below keccak policy cand f"
  then obtain g where g: "visited f g" "\<not> frame_reverted g" "frame_settles keccak policy cand g = Ok True"
    by (auto simp: settles_below_def)
  from g(1) show "\<exists>c \<in> set children. settles_below keccak policy cand c"
    by (cases rule: visited.cases) (use g assms in \<open>auto simp: settles_below_def\<close>)
next
  assume "\<exists>c \<in> set children. settles_below keccak policy cand c"
  then show "settles_below keccak policy cand f" using assms by (auto simp: settles_below_def intro: visited_child)
qed

lemma settles_below_reverted: "frame_reverted f \<Longrightarrow> \<not> settles_below keccak policy cand f"
  unfolding settles_below_def by (auto elim: visited.cases)

lemma settles_below_self:
  "\<not> frame_reverted f \<Longrightarrow> frame_settles keccak policy cand f = Ok True \<Longrightarrow> settles_below keccak policy cand f"
  unfolding settles_below_def by (blast intro: visited_self)

lemma trace_loop_sound:
  "trace_loop keccak policy cand stack = Ok b \<Longrightarrow> b \<longleftrightarrow> (\<exists>f \<in> set stack. settles_below keccak policy cand f)"
proof (induction keccak policy cand stack rule: trace_loop.induct)
  case (2 keccak policy cand frame stack)
  show ?case
  proof (cases "frame_reverted frame")
    case True
    with 2 show ?thesis by (auto simp: settles_below_reverted split: if_splits)
  next
    case False
    with 2(3) obtain s where s: "frame_settles keccak policy cand frame = Ok s" "frame_type_ok frame"
      by (auto split: if_splits sum.splits)
    show ?thesis
    proof (cases s)
      case True
      with s False 2(3) show ?thesis by (auto intro: settles_below_self)
    next
      case no: False
      with s False 2(3) obtain children where c: "frame_calls frame = Ok children" "trace_loop keccak policy cand (rev children @ stack) = Ok b"
        by (auto split: sum.splits)
      have "b \<longleftrightarrow> (\<exists>f \<in> set (rev children @ stack). settles_below keccak policy cand f)"
        using 2(2) s False no c by auto
      then show ?thesis using settles_below_step [OF False c(1)] s no by auto
    qed
  qed
qed simp

lemma trace_loop_total:
  "(\<And>f g. f \<in> set stack \<Longrightarrow> visited f g \<Longrightarrow> frame_ok keccak policy cand g) \<Longrightarrow> \<exists>b. trace_loop keccak policy cand stack = Ok b"
proof (induction keccak policy cand stack rule: trace_loop.induct)
  case (2 keccak policy cand frame stack)
  have frame_fine: "frame_ok keccak policy cand frame" using 2(3) by (auto intro: visited_self)
  have rest: "\<And>f g. f \<in> set stack \<Longrightarrow> visited f g \<Longrightarrow> frame_ok keccak policy cand g" using 2(3) by auto
  show ?case
  proof (cases "frame_reverted frame")
    case True
    then show ?thesis using 2(1) rest frame_fine by (auto simp: frame_ok_def)
  next
    case False
    with frame_fine obtain s children where f: "frame_type_ok frame" "frame_settles keccak policy cand frame = Ok s" "frame_calls frame = Ok children"
      by (auto simp: frame_ok_def)
    have "\<And>g c. c \<in> set (rev children @ stack) \<Longrightarrow> visited c g \<Longrightarrow> frame_ok keccak policy cand g"
      using 2(3) rest False f(3) by (auto intro: visited_child)
    then show ?thesis using 2(2) f False by (cases s) auto
  qed
qed auto

lemma checks_Ok [simp]:
  "require b why = Ok u \<longleftrightarrow> b"
  "evidence r = Ok x \<longleftrightarrow> r = Ok x"
  "evidence_require b why = Ok u \<longleftrightarrow> b"
  "andR p q = Ok True \<longleftrightarrow> p = Ok True \<and> q = Ok True"
  by (auto simp: require_def evidence_def evidence_require_def andR_def map_errR_def bindR_eq_Inr split: sum.splits if_splits)

lemma text_of_Ok: "text_of v = Ok s \<longleftrightarrow> v = JStr s"
  by (cases v) (auto simp: text_of_def)

lemma frame_settles_True:
  "frame_settles keccak policy cand g = Ok True \<Longrightarrow> \<exists>input. json_index g ''type'' = JStr ''CALL''
     \<and> address_of (json_index g ''to'') = Ok (pp_defi_insurance policy) \<and> json_index g ''input'' = JStr input
     \<and> settlement_call_matches keccak cand input"
  by (auto simp: frame_settles_def evidence_input_def bindR_eq_Inr text_of_Ok)


section \<open>Settlement calls\<close>

abbreviation bytes_at :: "bytes \<Rightarrow> nat \<Rightarrow> nat \<Rightarrow> bytes" where
  "bytes_at data start len \<equiv> take len (drop start data)"

abbreviation word_at :: "bytes \<Rightarrow> nat \<Rightarrow> nat" where
  "word_at data start \<equiv> of_bytes_be (bytes_at data start 32)"

text \<open>The arguments that the Solidity decoder reads from the call data after the selector.\<close>

definition call_carries :: "bytes \<Rightarrow> bytes \<Rightarrow> biguint list \<Rightarrow> bytes \<Rightarrow> bool" where
  "call_carries args root payouts sig \<longleftrightarrow>
     96 \<le> length args \<and> bytes_at args 0 32 = root
     \<and> (let p = word_at args 32; s = word_at args 64 in
        p + 32 + 32 * length payouts \<le> length args \<and> word_at args p = length payouts
        \<and> (\<forall>i < length payouts. word_at args (p + 32 + 32 * i) = payouts ! i)
        \<and> s + 97 \<le> length args \<and> word_at args s = 65 \<and> bytes_at args (s + 32) 65 = sig)"

lemma range_at_Some:
  "length data \<le> u64_max \<Longrightarrow> range_at data start len = Some r \<longleftrightarrow> start + len \<le> length data \<and> r = bytes_at data start len"
  by (auto simp: range_at_def checked_add64_def)

lemma foldl_size_None: "foldl size_step None bs = None"
  by (induction bs) (simp_all add: size_step_def)

lemma foldl_size_step:
  "foldl size_step (Some n) bs =
     (let v = foldl (\<lambda>a b. a * 256 + unat b) n bs in if bs = [] \<or> v \<le> u64_max then Some v else None)"
proof (induction bs arbitrary: n)
  case (Cons b bs)
  let ?f = "foldl (\<lambda>a b. a * 256 + unat b)"
  have grows: "m \<le> ?f m cs" for m and cs :: bytes
  proof (induction cs arbitrary: m)
    case (Cons c cs)
    have "m \<le> m * 256 + unat c" by simp
    also have "\<dots> \<le> ?f (m * 256 + unat c) cs" by (rule Cons)
    finally show ?case by simp
  qed simp
  show ?case
  proof (cases "n * 256 + unat b \<le> u64_max")
    case True
    then have "size_step (Some n) b = Some (n * 256 + unat b)" by (simp add: size_step_def checked_mul64_def checked_add64_def)
    with Cons True show ?thesis by (simp add: Let_def)
  next
    case False
    then have "size_step (Some n) b = None" by (simp add: size_step_def checked_mul64_def checked_add64_def)
    moreover have "\<not> ?f (n * 256 + unat b) bs \<le> u64_max" using grows [of "n * 256 + unat b" bs] False by linarith
    ultimately show ?thesis by (simp add: foldl_size_None)
  qed
qed simp

lemma size_at_Some:
  "length data \<le> u64_max \<Longrightarrow>
     size_at data start = Some n \<longleftrightarrow> start + 32 \<le> length data \<and> n = word_at data start \<and> n \<le> u64_max"
  by (cases "range_at data start 32")
    (auto simp: size_at_def range_at_Some foldl_size_step of_bytes_be_def Let_def range_at_def checked_add64_def split: if_splits)

lemma abi_word_of_eq:
  assumes "length word = 32" "n < 2 ^ 256"
  shows "word = abi_word_of (to_bytes_be n) \<longleftrightarrow> of_bytes_be word = n"
proof -
  have "(2 :: nat) ^ 256 = 256 ^ 32" by (simp add: power_mult [of 2 8 32, simplified])
  then have "length (to_bytes_be n) \<le> 32" using length_to_bytes_be [of n 32] assms(2) by simp
  then have "length (abi_word_of (to_bytes_be n)) = 32" by (simp add: abi_word_of_def)
  moreover have "of_bytes_be (abi_word_of (to_bytes_be n)) = n" by (simp add: abi_word_of_def)
  ultimately show ?thesis using of_bytes_be_inj [of word "abi_word_of (to_bytes_be n)"] assms(1) by auto
qed

lemma words_match:
  assumes "length words = 32 * length payouts" "\<forall>p \<in> set payouts. p < 2 ^ 256"
  shows "list_all (\<lambda>(word, payout). word = abi_word_of (to_bytes_be payout)) (zip (chunks 32 words) payouts)
    \<longleftrightarrow> (\<forall>i < length payouts. word_at words (32 * i) = payouts ! i)"
  using assms
proof (induction payouts arbitrary: words)
  case (Cons p payouts)
  have step: "chunks 32 words = take 32 words # chunks 32 (drop 32 words)"
    using Cons.prems by (subst chunks.simps) auto
  have "take 32 words = abi_word_of (to_bytes_be p) \<longleftrightarrow> word_at words 0 = p"
    using Cons.prems by (subst abi_word_of_eq) auto
  then show ?case using Cons.IH [of "drop 32 words"] Cons.prems
    by (auto simp: step All_less_Suc2 add.commute)
qed simp

lemma words_at_match:
  assumes "q + 32 * length payouts \<le> length args" "\<forall>p \<in> set payouts. p < 2 ^ 256"
  shows "list_all (\<lambda>(word, payout). word = abi_word_of (to_bytes_be payout)) (zip (chunks 32 (bytes_at args q (32 * length payouts))) payouts)
    \<longleftrightarrow> (\<forall>i < length payouts. word_at args (q + 32 * i) = payouts ! i)"
proof -
  have "word_at (bytes_at args q (32 * length payouts)) (32 * i) = word_at args (q + 32 * i)" if "i < length payouts" for i
  proof -
    have "min 32 (32 * length payouts - 32 * i) = 32" using that by auto
    then show ?thesis by (simp add: drop_take take_take ac_simps)
  qed
  then show ?thesis using words_match [of "bytes_at args q (32 * length payouts)" payouts] assms by simp
qed

lemma args_match_True:
  assumes "length args \<le> u64_max" "\<forall>p \<in> set (sd_pool_payouts (cd_input cand)). p < 2 ^ 256"
    "hex_decode (drop 2 (sd_root (cd_input cand))) = Some root"
  shows "args_match cand args = Some True \<longleftrightarrow> call_carries args root (sd_pool_payouts (cd_input cand)) (cd_signature cand)"
proof -
  let ?ps = "sd_pool_payouts (cd_input cand)" and ?p = "word_at args 32" and ?s = "word_at args 64"
  have "args_match cand args = Some True \<longleftrightarrow>
    96 \<le> length args \<and> bytes_at args 0 32 = root \<and> ?p \<le> u64_max \<and> ?s \<le> u64_max
    \<and> ?p + 32 \<le> length args \<and> word_at args ?p = length ?ps \<and> length ?ps \<le> u64_max
    \<and> ?s + 32 \<le> length args \<and> word_at args ?s = 65 \<and> 65 \<le> u64_max \<and> ?p + 32 \<le> u64_max \<and> length ?ps * 32 \<le> u64_max
    \<and> ?p + 32 + length ?ps * 32 \<le> length args
    \<and> list_all (\<lambda>(word, payout). word = abi_word_of (to_bytes_be payout)) (zip (chunks 32 (bytes_at args (?p + 32) (length ?ps * 32))) ?ps)
    \<and> ?s + 32 \<le> u64_max \<and> ?s + 32 + 65 \<le> length args \<and> bytes_at args (?s + 32) 65 = cd_signature cand"
    unfolding args_match_def
    by (auto simp: bind_eq_Some_conv range_at_Some [OF assms(1)] size_at_Some [OF assms(1)] assms(3) split: if_splits)
  also have "\<dots> \<longleftrightarrow> call_carries args root ?ps (cd_signature cand)"
    using words_at_match [of "?p + 32" ?ps args] assms(1,2)
    by (auto simp: call_carries_def Let_def mult.commute [of _ 32] u64_max_def)
  finally show ?thesis .
qed

text \<open>
  C11.  The decoder of settlement calls is exact: it accepts a call exactly when its data starts with the selector of
  \<^verbatim>\<open>settleIncident\<close> and, read with the offsets it names itself, carries the candidate's root, its payouts in order and its
  signature, all inside the data.  Offsets and lengths that overflow the machine word are refused, and the layout of
  the tails, their order, padding and trailing bytes do not matter.\<close>

theorem settlement_call_exact:
  assumes "length input \<le> u64_max" "\<forall>p \<in> set (sd_pool_payouts (cd_input cand)). p < 2 ^ 256"
    "hex_decode (drop 2 (sd_root (cd_input cand))) = Some root"
  shows "settlement_call_matches keccak cand input \<longleftrightarrow>
    (\<exists>raw data. input = ''0x'' @ raw \<and> hex_decode raw = Some data \<and> 4 \<le> length data
       \<and> take 4 data = selector keccak ''settleIncident(bytes32,uint256[],bytes)''
       \<and> call_carries (drop 4 data) root (sd_pool_payouts (cd_input cand)) (cd_signature cand))"
proof -
  have short: "length data \<le> u64_max" "length (drop 4 data) \<le> u64_max" if "input = ''0x'' @ raw" "hex_decode raw = Some data" for raw data
    using length_hex_decode [OF that(2)] that(1) assms(1) by auto
  have "call_matches keccak cand input = Some True \<longleftrightarrow>
    (\<exists>raw data. input = ''0x'' @ raw \<and> hex_decode raw = Some data \<and> 4 \<le> length data
       \<and> take 4 data = selector keccak ''settleIncident(bytes32,uint256[],bytes)'' \<and> args_match cand (drop 4 data) = Some True)"
    unfolding call_matches_def bind_eq_Some_conv strip_prefix_Some using range_at_Some [OF short(1)] by (auto split: if_splits)
  then have "settlement_call_matches keccak cand input \<longleftrightarrow>
    (\<exists>raw data. input = ''0x'' @ raw \<and> hex_decode raw = Some data \<and> 4 \<le> length data
       \<and> take 4 data = selector keccak ''settleIncident(bytes32,uint256[],bytes)'' \<and> args_match cand (drop 4 data) = Some True)"
    by (auto simp: settlement_call_matches_def split: option.splits)
  then show ?thesis using args_match_True [OF short(2) assms(2,3)] by blast
qed

section \<open>Promotion\<close>

lemma check_row_Ok:
  "check_row tree fee totals (r, doc) = Ok totals' \<Longrightarrow> length (mr_amounts r) = length totals
     \<and> totals' = map (\<lambda>(total_paid, amount). total_paid + (amount * 10000) div (10000 - fee)) (zip totals (mr_amounts r))"
  by (auto simp: check_row_def bindR_eq_Inr Let_def split: option.splits)

lemma check_rows_totals:
  assumes "foldR (check_row tree fee) totals (zip rows entries) = Ok totals'" "length rows = length entries"
  shows "length totals' = length totals \<and> (\<forall>r \<in> set rows. length (mr_amounts r) = length totals)
    \<and> (\<forall>i < length totals. totals' ! i = totals ! i + (\<Sum>r\<leftarrow>rows. (mr_amounts r ! i * 10000) div (10000 - fee)))"
  using assms
proof (induction rows arbitrary: totals entries)
  case (Cons r rows)
  then obtain e es where e: "entries = e # es" by (cases entries) auto
  let ?next = "map (\<lambda>(total_paid, amount). total_paid + (amount * 10000) div (10000 - fee)) (zip totals (mr_amounts r))"
  from Cons.prems e have step: "length (mr_amounts r) = length totals" "foldR (check_row tree fee) ?next (zip rows es) = Ok totals'"
    by (auto simp: bindR_eq_Inr dest!: check_row_Ok)
  with Cons.IH [OF step(2)] Cons.prems(2) e show ?case by (simp add: add.assoc)
qed simp

text \<open>What the gate knows about a candidate from the uploaded document alone.\<close>

definition candidate_sound ::
  "('k, 's, 'z) ecdsa_verify_scheme \<Rightarrow> (bytes \<Rightarrow> hash) \<Rightarrow> promotion_policy \<Rightarrow> string \<Rightarrow> json \<Rightarrow> candidate \<Rightarrow> merkle_row list \<Rightarrow> bool" where
  "candidate_sound ec keccak policy incident_id doc cand rows \<longleftrightarrow>
     (let input = cd_input cand in
      sd_chain_id input = pp_chain_id policy \<and> sd_verifying_contract input = pp_defi_insurance policy
      \<and> json_index doc ''incidentId'' = JStr incident_id \<and> candidate_input policy doc = Ok input
      \<and> settlement_digest keccak input = Ok (cd_digest cand)
      \<and> recover_signer ec keccak (cd_digest cand) (cd_signature cand) = Ok (cd_signer cand)
      \<and> bindR (array_of (json_index doc ''rows'')) (mapR candidate_row) = Ok rows
      \<and> length rows = sd_unresolved_claims input
      \<and> (\<exists>tree. root_hex tree = sd_root input \<and> (\<forall>row \<in> set rows. \<exists>leaf ps.
            standard_leaf_hash keccak (sd_incident_id input) row = Ok leaf \<and> st_proofs tree (mr_claim_id row) = Some ps
            \<and> verify_proof keccak (st_root tree) ps leaf))
      \<and> length (sd_pool_addrs input) = length (sd_pool_payouts input) \<and> distinct (sd_pool_addrs input)
      \<and> cd_fee_bps cand \<le> 2000
      \<and> (\<forall>i < length (sd_pool_payouts input). sd_pool_payouts input ! i =
           (\<Sum>r\<leftarrow>rows. (mr_amounts r ! i * 10000) div (10000 - cd_fee_bps cand))))"

lemma candidate_input_policy:
  "candidate_input policy doc = Ok input \<Longrightarrow> sd_chain_id input = pp_chain_id policy \<and> sd_verifying_contract input = pp_defi_insurance policy"
  by (auto simp: candidate_input_def bindR_eq_Inr)

lemma check_rows_Ok:
  assumes "check_rows keccak input fee doc = Ok u"
  obtains rows tree where "bindR (array_of (json_index doc ''rows'')) (mapR candidate_row) = Ok rows"
    "length rows = sd_unresolved_claims input" "settlement_tree_new keccak (sd_incident_id input) rows = Ok tree" "root_hex tree = sd_root input"
    "\<forall>i < length (sd_pool_payouts input). sd_pool_payouts input ! i = (\<Sum>r\<leftarrow>rows. (mr_amounts r ! i * 10000) div (10000 - fee))"
proof -
  from assms obtain entries rows tree where c: "array_of (json_index doc ''rows'') = Ok entries" "mapR candidate_row entries = Ok rows"
      "sd_unresolved_claims input = length rows" "settlement_tree_new keccak (sd_incident_id input) rows = Ok tree"
      "root_hex tree = sd_root input"
      "foldR (check_row tree fee) (replicate (length (sd_pool_payouts input)) 0) (zip rows entries) = Ok (sd_pool_payouts input)"
    by (auto simp: check_rows_def bindR_eq_Inr)
  from check_rows_totals [OF c(6)] mapR_length [OF c(2)] c that show thesis by simp
qed

lemma verify_candidate_Ok:
  assumes "verify_candidate ec keccak policy incident_id doc = Ok cand"
  shows "\<exists>rows. candidate_sound ec keccak policy incident_id doc cand rows"
proof -
  from assms have c: "candidate_header policy incident_id doc = Ok ()" "candidate_input policy doc = Ok (cd_input cand)"
      "length (sd_pool_addrs (cd_input cand)) = length (sd_pool_payouts (cd_input cand))" "distinct (sd_pool_addrs (cd_input cand))"
      "cd_fee_bps cand \<le> 2000" "check_rows keccak (cd_input cand) (cd_fee_bps cand) doc = Ok ()"
      "settlement_digest keccak (cd_input cand) = Ok (cd_digest cand)"
      "recover_signer ec keccak (cd_digest cand) (cd_signature cand) = Ok (cd_signer cand)"
    by (auto simp: verify_candidate_def bindR_eq_Inr)
  from c(1) have locator: "json_index doc ''incidentId'' = JStr incident_id"
    by (auto simp: candidate_header_def bindR_eq_Inr text_of_Ok)
  from c(6) obtain rows tree where rows: "bindR (array_of (json_index doc ''rows'')) (mapR candidate_row) = Ok rows"
    "length rows = sd_unresolved_claims (cd_input cand)" "settlement_tree_new keccak (sd_incident_id (cd_input cand)) rows = Ok tree"
    "root_hex tree = sd_root (cd_input cand)"
    "\<forall>i < length (sd_pool_payouts (cd_input cand)). sd_pool_payouts (cd_input cand) ! i =
       (\<Sum>r\<leftarrow>rows. (mr_amounts r ! i * 10000) div (10000 - cd_fee_bps cand))"
    by (rule check_rows_Ok)
  have "candidate_sound ec keccak policy incident_id doc cand rows"
    unfolding candidate_sound_def Let_def using c rows locator candidate_input_policy [OF c(2)] settlement_proofs_verify [OF rows(3)] by blast
  then show ?thesis ..
qed

text \<open>The evidence of an accepted settlement: the event, its mined transaction and the call that carries the arguments.\<close>

definition acceptance_evidence ::
  "('w, 'z) rpc_scheme \<Rightarrow> (bytes \<Rightarrow> hash) \<Rightarrow> promotion_policy \<Rightarrow> candidate \<Rightarrow> bool" where
  "acceptance_evidence rpc keccak policy cand \<longleftrightarrow> (\<exists>log anchor tx receipt.
     log_data log = settled_data cand \<and> observed (block_by_number rpc (log_block_number log)) anchor
     \<and> check_acceptance log anchor tx receipt = Ok ()
     \<and> (direct_settlement keccak policy cand tx = Ok True
        \<or> (\<exists>trace. trace_bound tx receipt trace = Ok True \<and> settles_below keccak policy cand trace)))"

lemma traced_settlement_Ok:
  assumes "traced_settlement rpc keccak policy cand tx receipt w = (Ok True, w')"
  shows "\<exists>trace. trace_bound tx receipt trace = Ok True \<and> settles_below keccak policy cand trace"
proof -
  from assms obtain trace where "trace_bound tx receipt trace = Ok True" "trace_loop keccak policy cand [trace] = Ok True"
    by (auto simp: traced_settlement_def act_Ok simp del: trace_loop.simps split: if_splits)
  with trace_loop_sound show ?thesis by fastforce
qed

lemma settled_by_True:
  assumes "settled_by rpc keccak policy cand tx receipt w = (Ok True, w')"
  shows "direct_settlement keccak policy cand tx = Ok True
    \<or> (\<exists>trace. trace_bound tx receipt trace = Ok True \<and> settles_below keccak policy cand trace)"
  using assms traced_settlement_Ok [of rpc keccak policy cand tx receipt w w'] by (auto simp: settled_by_def act_Ok split: if_splits)

lemma read_acceptance_Ok:
  assumes "read_acceptance rpc log w = (Ok (anchor, tx, receipt), w')"
  shows "observed (block_by_number rpc (log_block_number log)) anchor" "check_acceptance log anchor tx receipt = Ok ()"
  using assms by (auto simp: read_acceptance_def act_Ok intro: observedI)

lemma accepted_log_Ok:
  assumes "accepted_log rpc abi keccak policy cand log w = (Ok True, w')"
  shows "acceptance_evidence rpc keccak policy cand"
proof -
  have data: "log_data log = settled_data cand" "length (log_topics log) = 2"
    using assms by (auto simp: accepted_log_def act_Ok split: if_splits)
  with assms obtain anchor tx receipt w1 w2 where a: "read_acceptance rpc log w = (Ok (anchor, tx, receipt), w1)"
      "settled_by rpc keccak policy cand tx receipt w1 = (Ok True, w2)"
    unfolding accepted_log_def by (auto simp: act_Ok split: if_splits prod.splits)
  from data(1) read_acceptance_Ok [OF a(1)] settled_by_True [OF a(2)] show ?thesis
    unfolding acceptance_evidence_def by blast
qed

lemma accepted_logs_Ok:
  "accepted_logs rpc abi keccak policy cand logs w = (Ok True, w') \<Longrightarrow> acceptance_evidence rpc keccak policy cand"
  by (induction logs arbitrary: w) (auto simp: act_Ok split: if_splits dest: accepted_log_Ok)

lemma accepted_onchain_Ok:
  "accepted_onchain rpc abi keccak policy cand start stop w = (Ok u, w') \<Longrightarrow> acceptance_evidence rpc keccak policy cand"
proof (induction rpc abi keccak policy cand start stop arbitrary: w rule: accepted_onchain.induct)
  case (1 rpc abi keccak policy cand start stop)
  let ?upto = "min (saturating_add64 start (MAX_LOG_RANGE - 1)) stop"
  from 1(2) obtain logs metrics accepted w1 w2 where step: "start \<le> stop"
      "accepted_logs rpc abi keccak policy cand logs w1 = (Ok accepted, w2)"
      "accepted \<or> (?upto \<noteq> stop \<and> ?upto \<noteq> u64_max \<and> accepted_onchain rpc abi keccak policy cand (?upto + 1) stop w2 = (Ok u, w'))"
    by (subst (asm) accepted_onchain.simps) (auto simp: Let_def split: if_splits prod.splits)
  show ?case
  proof (cases accepted)
    case True
    with step(2) show ?thesis by (simp add: accepted_logs_Ok)
  next
    case False
    with step 1(1) show ?thesis by (auto simp: Let_def)
  qed
qed

text \<open>What the chain said about a promoted candidate: at the finalized head and at the end of the claim window.\<close>

definition head_agrees ::
  "('w, 'z) rpc_scheme \<Rightarrow> abi \<Rightarrow> promotion_policy \<Rightarrow> candidate \<Rightarrow> block_anchor \<Rightarrow> incident \<Rightarrow> bool \<Rightarrow> bool" where
  "head_agrees rpc abi policy cand head inc authorized \<longleftrightarrow>
     (let input = cd_input cand; insurance = pp_defi_insurance policy in
      observed (chain_id rpc) (pp_chain_id policy) \<and> observed (finalized_block rpc) head
      \<and> observed (protocol_bindings_at rpc abi (pp_registry policy) insurance (ba_number head)) (insurance, pp_registry policy)
      \<and> observed (incident_at rpc abi insurance (sd_incident_id input) (Some (ba_number head))) inc
      \<and> in_reference_block inc = cd_reference_block cand \<and> in_tee_pcr_hash inc = sd_tee_pcr_hash input
      \<and> in_protocol_fee_share_bps inc = cd_fee_bps cand
      \<and> observed (incident_pools_and_signer_at rpc abi insurance (sd_incident_id input) (cd_signer cand) (ba_number head))
          (sd_pool_addrs input, authorized))"

definition window_agrees ::
  "('w, 'z) rpc_scheme \<Rightarrow> abi \<Rightarrow> promotion_policy \<Rightarrow> candidate \<Rightarrow> block_anchor \<Rightarrow> incident \<Rightarrow> bool" where
  "window_agrees rpc abi policy cand head inc \<longleftrightarrow>
     (let input = cd_input cand; insurance = pp_defi_insurance policy in
      \<exists>deadline window snapshot.
        observed (incident_claim_deadline_at rpc abi insurance (sd_incident_id input) (in_open_block inc)) deadline
        \<and> deadline < ba_timestamp head \<and> observed (block_at_or_before_timestamp rpc deadline (ba_number head)) window
        \<and> observed (incident_at rpc abi insurance (sd_incident_id input) (Some window)) snapshot
        \<and> in_unresolved_claims snapshot = sd_unresolved_claims input \<and> in_claim_set_hash snapshot = sd_claim_set input
        \<and> in_tee_pcr_hash snapshot = sd_tee_pcr_hash input)"

lemma bindings_Ok:
  "bindings rpc abi policy b w = (Ok u, w') \<Longrightarrow>
     observed (protocol_bindings_at rpc abi (pp_registry policy) (pp_defi_insurance policy) b) (pp_defi_insurance policy, pp_registry policy)"
  by (auto simp: bindings_def act_Ok split: prod.splits intro: observedI)

lemma authorize_Ok:
  assumes "authorize rpc abi keccak policy cand head inc authorized deadline window_number w = (Ok a, w')"
  shows "(a = CurrentSigner \<and> authorized \<and> (in_root inc = ZERO_HEX \<or> in_root inc = sd_root (cd_input cand)))
    \<or> (a = AcceptedOnchain \<and> in_root inc = sd_root (cd_input cand) \<and> acceptance_evidence rpc keccak policy cand)"
  using assms by (auto simp: authorize_def Let_def act_Ok split: if_splits dest: accepted_onchain_Ok)

lemma read_incident_state_Ok:
  assumes "read_incident_state rpc abi policy cand w = (Ok (head, inc, authorized), w')"
  shows "head_agrees rpc abi policy cand head inc authorized"
  using assms unfolding read_incident_state_def head_agrees_def Let_def
  by (auto simp: act_Ok check_incident_def bindR_eq_Inr dest: bindings_Ok intro: observedI split: prod.splits)

lemma read_claim_window_Ok:
  assumes "read_claim_window rpc abi policy cand head inc w = (Ok x, w')"
  shows "window_agrees rpc abi policy cand head inc"
proof -
  let ?in = "cd_input cand" and ?m = "pp_defi_insurance policy"
  from assms obtain deadline window snapshot w0 w1 w2 w3 w4 where
    "incident_claim_deadline_at rpc abi ?m (sd_incident_id ?in) (in_open_block inc) w = (Ok deadline, w0)" "deadline < ba_timestamp head"
    "block_at_or_before_timestamp rpc deadline (ba_number head) w0 = (Ok window, w1)"
    "incident_at rpc abi ?m (sd_incident_id ?in) (Some window) w3 = (Ok snapshot, w4)" "check_snapshot ?in snapshot = Ok ()"
    unfolding read_claim_window_def Let_def by (auto simp: act_Ok)
  then show ?thesis unfolding window_agrees_def check_snapshot_def Let_def observed_def by fastforce
qed

lemma promote_candidate_Ok:
  assumes "promote_candidate rpc abi keccak policy cand w = (Ok v, w')"
  shows "\<exists>inc authorized. head_agrees rpc abi policy cand (vs_block v) inc authorized \<and> window_agrees rpc abi policy cand (vs_block v) inc
    \<and> (vs_authorization v = CurrentSigner \<and> authorized \<and> (in_root inc = ZERO_HEX \<or> in_root inc = sd_root (cd_input cand))
       \<or> vs_authorization v = AcceptedOnchain \<and> in_root inc = sd_root (cd_input cand) \<and> acceptance_evidence rpc keccak policy cand)"
proof -
  from assms obtain head inc authorized deadline n window auth w1 w2 w3 where
    r: "read_incident_state rpc abi policy cand w = (Ok (head, inc, authorized), w1)"
      "read_claim_window rpc abi policy cand head inc w1 = (Ok (deadline, n, window), w2)"
      "authorize rpc abi keccak policy cand head inc authorized deadline n w2 = (Ok auth, w3)"
      "v = \<lparr>vs_block = head, vs_authorization = auth\<rparr>"
    by (auto simp: promote_candidate_def act_Ok split: prod.splits)
  with read_incident_state_Ok [OF r(1)] read_claim_window_Ok [OF r(2)] authorize_Ok [OF r(3)] show ?thesis by auto
qed


lemma verify_for_promotion_runs:
  assumes "verify_for_promotion rpc abi ec keccak policy incident_id doc w = (Ok v, w')"
  shows "\<exists>cand s s'. verify_candidate ec keccak policy incident_id doc = Ok cand
    \<and> promote_candidate (budget_rpc rpc) abi keccak policy cand s = (Ok v, s')"
proof -
  from assms obtain cand where c: "verify_candidate ec keccak policy incident_id doc = Ok cand"
    and run: "with_budget (promote_candidate (budget_rpc rpc) abi keccak policy cand) w = (Ok v, w')"
    by (auto simp: verify_for_promotion_def act_Ok)
  from run obtain s s' where "promote_candidate (budget_rpc rpc) abi keccak policy cand s = (Ok v, s')"
    by (auto simp: with_budget_def split: prod.splits)
  with c show ?thesis by blast
qed

end
