(* ===== verification/Verifier_Demo.thy ===== *)
theory Verifier_Demo
  imports Verifier_Claims Engine_Demo Job_Claims
begin

text \<open>
  A settlement of one claim that passes the promotion gate on the small provider, and call data and traces the
  decoder accepts: the witnesses of the claims about the gate.
\<close>

section \<open>A settlement call\<close>

abbreviation gate_insurance :: address where
  "gate_insurance \<equiv> Address (replicate 20 2)"

definition gate_policy :: promotion_policy where
  "gate_policy = \<lparr>pp_chain_id = 1, pp_registry = Address (replicate 20 1), pp_defi_insurance = gate_insurance\<rparr>"

definition gate_input :: "hash \<Rightarrow> settlement_digest_input" where
  "gate_input root = \<lparr>sd_chain_id = 1, sd_verifying_contract = gate_insurance, sd_incident_id = 4,
     sd_root = hash_hex root, sd_unresolved_claims = 1, sd_pool_payouts = [1, 5],
     sd_pool_addrs = [Address (replicate 20 4), Address (replicate 20 6)],
     sd_claim_set = hash_hex (replicate 32 5), sd_tee_pcr_hash = hash_hex (replicate 32 9)\<rparr>"

definition gate_signature :: bytes where
  "gate_signature = replicate 64 7 @ [27]"

definition gate_signer :: address where
  "gate_signer = Address (drop 12 (toy_keccak (replicate 64 8)))"

definition gate_candidate :: "hash \<Rightarrow> string \<Rightarrow> candidate" where
  "gate_candidate root digest = \<lparr>cd_input = gate_input root, cd_digest = digest, cd_signer = gate_signer,
     cd_signature = gate_signature, cd_fee_bps = 500, cd_reference_block = 2\<rparr>"

text \<open>The canonical encoding of the arguments, followed by the padding of the signature.\<close>

definition settle_args :: "bytes \<Rightarrow> bytes" where
  "settle_args root = root @ be_bytes 32 96 @ be_bytes 32 192 @ be_bytes 32 2 @ be_bytes 32 1 @ be_bytes 32 5
     @ be_bytes 32 65 @ gate_signature @ replicate 31 0"

lemma settle_args_carried: "call_carries (settle_args (replicate 32 3)) (replicate 32 3) [1, 5] gate_signature"
  by code_simp

lemma selector_length: "length (selector toy_keccak s) = 4"
  by (simp add: selector_def toy_keccak_length)

definition gate_call :: string where
  "gate_call = ''0x'' @ hex_encode (selector toy_keccak ''settleIncident(bytes32,uint256[],bytes)'' @ settle_args (replicate 32 3))"

lemma gate_call_short: "length gate_call \<le> u64_max"
proof -
  have "length gate_call \<le> 1000"
    by (simp add: gate_call_def settle_args_def gate_signature_def selector_length del: be_bytes.simps)
  then show ?thesis by (simp add: u64_max_def)
qed

theorem settlement_call_exact_witness: "settlement_call_matches toy_keccak (gate_candidate (replicate 32 3) []) gate_call"
proof -
  let ?c = "gate_candidate (replicate 32 3) []"
  have root: "hex_decode (drop 2 (sd_root (cd_input ?c))) = Some (replicate 32 3)"
    by (simp add: gate_candidate_def gate_input_def hash_hex_def)
  have ps: "\<forall>p \<in> set (sd_pool_payouts (cd_input ?c)). p < 2 ^ 256" by (simp add: gate_candidate_def gate_input_def)
  show ?thesis unfolding settlement_call_exact [OF gate_call_short ps root]
    using settle_args_carried
    by (intro exI conjI) (auto simp: gate_call_def selector_length gate_candidate_def gate_input_def)
qed

section \<open>A trace with a reverted attempt\<close>

definition gate_frame :: "string \<Rightarrow> (string \<times> json) list \<Rightarrow> json" where
  "gate_frame input rest = JObj ([(''type'', JStr ''CALL''), (''to'', JStr (address_to_string gate_insurance)), (''input'', JStr input)] @ rest)"

definition gate_trace :: "bool \<Rightarrow> json" where
  "gate_trace reverted = gate_frame ''0x'' [(''calls'', JArr [gate_frame gate_call (if reverted then [(''error'', JStr ''execution reverted'')] else [])])]"

lemma gate_input_ok: "evidence_input (JStr gate_call) = Ok gate_call" "evidence_input (JStr ''0x'') = Ok ''0x''"
proof -
  have "list_all is_hex_digit (hex_encode bs)" for bs using hex_encode_lower [of bs] by (auto simp: list_all_iff)
  then show "evidence_input (JStr gate_call) = Ok gate_call"
    by (simp add: evidence_input_def text_of_def gate_call_def evidence_def evidence_require_def require_def strip_prefix_def)
  show "evidence_input (JStr ''0x'') = Ok ''0x''" by code_simp
qed

lemma gate_address: "address_of (JStr (address_to_string (Address (replicate 20 a)))) = Ok (Address (replicate 20 a))"
  by (simp add: address_of_def text_of_def address_roundtrip wf_address_def)

lemma empty_call: "\<not> settlement_call_matches keccak cand ''0x''"
  by (simp add: settlement_call_matches_def call_matches_def strip_prefix_def range_at_def checked_add64_def)

lemma gate_trace_search: "trace_loop toy_keccak gate_policy (gate_candidate (replicate 32 3) []) [gate_trace reverted] = Ok (\<not> reverted)"
proof -
  let ?c = "gate_candidate (replicate 32 3) []"
  have call: "settlement_call_matches toy_keccak ?c gate_call"
  proof -
    have root: "hex_decode (drop 2 (sd_root (cd_input ?c))) = Some (replicate 32 3)"
      by (simp add: gate_candidate_def gate_input_def hash_hex_def)
    then have "args_match ?c (settle_args (replicate 32 3)) = Some True"
      using settle_args_carried
      by (subst args_match_True) (auto simp: gate_candidate_def gate_input_def settle_args_def gate_signature_def u64_max_def simp del: be_bytes.simps)
    then show ?thesis by (simp add: settlement_call_matches_def call_matches_def gate_call_def range_at_def selector_length checked_add64_def u64_max_def
        strip_prefix_def)
  qed
  show ?thesis using call
    by (cases reverted) (simp_all add: gate_trace_def gate_frame_def frame_type_ok_def FRAME_TYPES_def frame_reverted_def json_index_def
        frame_settles_def frame_calls_def andR_def gate_address gate_input_ok evidence_def empty_call gate_policy_def)
qed


section \<open>A promoted settlement\<close>

definition gate_ec :: "(unit, bytes) ecdsa_verify" where
  "gate_ec = \<lparr>key_from_slice = (\<lambda>_. Some ()), public_point = (\<lambda>_. 4 # replicate 64 8), sign_prehash = (\<lambda>_ _. Some (replicate 64 7, False, False)),
     normalize_s = (\<lambda>_. None), signature_bytes = (\<lambda>s. s), signature_from_slice = Some,
     recover_from_prehash = (\<lambda>_ _ _. Some (4 # replicate 64 8))\<rparr>"

definition gate_incident :: incidents_ret where
  "gate_incident = engine_incident\<lparr>ir_unresolved_claims := 1, ir_claim_set_hash := replicate 32 5\<rparr>"

definition gate_abi :: abi where
  "gate_abi = engine_abi\<lparr>incidents := const_call ''incidents'' gate_incident, defiInsurance := const_call ''defiInsurance'' gate_insurance,
     registry_of := const_call ''registry'' (Address (replicate 20 1)),
     incidentPools := const_call ''incidentPools'' [Address (replicate 20 4), Address (replicate 20 6)],
     isTeeSigner := const_call ''isTeeSigner'' True\<rparr>"

lemma gate_fields [simp]:
  "incidents gate_abi = const_call ''incidents'' gate_incident" "defiInsurance gate_abi = const_call ''defiInsurance'' gate_insurance"
  "registry_of gate_abi = const_call ''registry'' (Address (replicate 20 1))"
  "incidentPools gate_abi = const_call ''incidentPools'' [Address (replicate 20 4), Address (replicate 20 6)]"
  "isTeeSigner gate_abi = const_call ''isTeeSigner'' True" "incidentPhaseWindow gate_abi = const_call ''incidentPhaseWindow'' 60"
  "aggregate3 gate_abi = aggregate3 engine_abi"
  by (simp_all add: gate_abi_def)

lemma gate_reads: "aggregate_reads rpc gate_abi = aggregate_reads rpc engine_abi"
proof -
  have same: "plan_chunk gate_abi = plan_chunk engine_abi" "read_chunk rpc gate_abi = read_chunk rpc engine_abi"
    by (simp_all add: fun_eq_iff plan_chunk_def read_chunk_def)
  show ?thesis unfolding aggregate_reads_def same ..
qed

lemma engine_pair:
  assumes "a \<noteq> 0xca" "c \<noteq> 0xca"
  shows "aggregate_reads engine_rpc engine_abi [\<lparr>c3_target = Address (replicate 20 a), c3_allow_failure = False, c3_call_data = [1, 2, 3, 4]\<rparr>,
      \<lparr>c3_target = Address (replicate 20 c), c3_allow_failure = False, c3_call_data = [1, 2, 3, 4]\<rparr>] b = retA [answer_word, answer_word]"
  using assms by (subst engine_read_calls) (auto simp: numeral_2_eq_2)

lemma gate_pair [simp]:
  "aggregate_reads engine_rpc gate_abi [read_call (Address (replicate 20 1)) (const_call n r) x, read_call (Address (replicate 20 2)) (const_call m q) y] b
     = retA [answer_word, answer_word]"
  "aggregate_reads engine_rpc gate_abi [read_call (Address (replicate 20 2)) (const_call n r) x, read_call (Address (replicate 20 2)) (const_call m q') y'] b
     = retA [answer_word, answer_word]"
  unfolding gate_reads const_read_call by (rule engine_pair; simp)+

lemma gate_latest: "latest_block engine_rpc = retA (demo_block 10)"
proof -
  have "parse_block ''latest'' None (demo_block_json 10) = Ok (demo_block 10)"
    by (simp add: parse_block_def demo_block_json_def demo_block_def json_index_def quantity_tag block_hash_canonical u64_max_def
        del: be_bytes.simps)
  then show ?thesis by (simp add: latest_block_def block_at_def engine_rpc_def engine_request_def fun_eq_iff)
qed

definition gate_state :: incident where
  "gate_state = \<lparr>in_insured_token = Address (replicate 20 3), in_resolved_at = 0, in_reference_block = 2, in_open_block = 3,
     in_phase_deadline = 96, in_root = hash_hex (replicate 32 0), in_unresolved_claims = 1,
     in_claim_set_hash = hash_hex (replicate 32 5), in_tee_pcr_hash = hash_hex (replicate 32 9), in_protocol_fee_share_bps = 500\<rparr>"

lemma gate_incident_at: "incident_at engine_rpc gate_abi d 4 b = retA gate_state"
  by (simp add: incident_at_def big_small) (rule ext, simp add: gate_incident_def engine_incident_def gate_state_def)

lemma gate_promotes:
  "promote_candidate engine_rpc gate_abi toy_keccak gate_policy (gate_candidate root digest) =
     retA \<lparr>vs_block = demo_block 10, vs_authorization = CurrentSigner\<rparr>"
proof -
  let ?c = "gate_candidate root digest"
  have zero: "hash_hex (replicate 32 0) = ZERO_HEX" by (simp add: hex_zeros ZERO_HEX_def)
  have pcr: "hash_hex (replicate 32 9) \<noteq> ZERO_HEX" unfolding zero [symmetric] by (simp add: hash_hex_inj)
  have state: "read_incident_state engine_rpc gate_abi gate_policy ?c = retA (demo_block 10, gate_state, True)"
    by (rule ext) (simp add: read_incident_state_def gate_latest bindings_def protocol_bindings_at_def incident_pools_and_signer_at_def
        gate_incident_at check_incident_def pcr big_small gate_policy_def gate_candidate_def gate_input_def gate_state_def demo_block_def
        require_def evidence_require_def evidence_def is_zero_def)
  have window: "read_claim_window engine_rpc gate_abi gate_policy ?c (demo_block 10) gate_state = retA (96, 8, demo_block 8)"
    by (rule ext) (simp add: read_claim_window_def incident_claim_deadline_at_def gate_incident_at check_snapshot_def big_small
        gate_policy_def gate_candidate_def gate_input_def gate_state_def demo_block_def require_def checked_add64_def u64_max_def)
  have auth: "authorize engine_rpc gate_abi toy_keccak gate_policy ?c (demo_block 10) gate_state True 96 8 = retA CurrentSigner"
    by (rule ext) (simp add: authorize_def zero gate_state_def gate_candidate_def gate_input_def require_def)
  have recheck: "recheck_anchor engine_rpc (demo_block n) = retA ()" if "n \<le> 10" for n
    using that by (intro ext) (simp add: recheck_anchor_def evidence_require_def evidence_def require_def demo_block_def)
  show ?thesis by (rule ext) (simp add: promote_candidate_def state window auth recheck)
qed

lemma single_tree:
  assumes "leaf_encoding i r = Ok e"
  shows "settlement_tree_new keccak i [r] = Ok \<lparr>st_root = keccak (keccak e), st_proofs = [mr_claim_id r \<mapsto> []]\<rparr>"
  using assms
  by (simp add: settlement_tree_new_def collect_leaf_def standard_leaf_hash_def tree_nodes_def place_leaves_def
      fill_nodes_def tree_index_by_claim_def proof_path.simps fun_eq_iff Let_def)

definition gate_row :: json where
  "gate_row = JObj [(''claimId'', JStr ''3''), (''user'', JStr (address_to_string (Address (replicate 20 1)))),
     (''amounts'', JArr [JStr ''1'', JStr ''5'']), (''scoreSpent'', JStr ''3''), (''boostedScore'', JStr ''4''),
     (''eligibleAmount'', JStr ''10''), (''eligibleBoosterAmount'', JStr ''0'')]"

definition gate_doc :: "hash \<Rightarrow> string \<Rightarrow> json" where
  "gate_doc root digest = JObj [(''schemaVersion'', JInt 2), (''chainId'', JInt 1),
     (''registry'', JStr (address_to_string (Address (replicate 20 1)))), (''defiInsurance'', JStr (address_to_string gate_insurance)),
     (''incidentId'', JStr ''4''), (''root'', JStr (hash_hex root)), (''unresolvedClaims'', JStr ''1''),
     (''poolPayouts'', JArr [JStr ''1'', JStr ''5'']),
     (''poolAddrs'', JArr [JStr (address_to_string (Address (replicate 20 4))), JStr (address_to_string (Address (replicate 20 6)))]),
     (''claimSetHash'', JStr (hash_hex (replicate 32 5))), (''teePcrHash'', JStr (hash_hex (replicate 32 9))),
     (''protocolFeeShareBps'', JStr ''500''), (''rows'', JArr [gate_row]), (''settlementDigest'', JStr digest),
     (''signature'', JStr (''0x'' @ hex_encode gate_signature)), (''signer'', JStr (address_to_string gate_signer)),
     (''referenceBlock'', JStr ''2'')]"

lemma gate_decimals:
  "decimal_big (JStr ''0'') = Ok 0" "decimal_big (JStr ''1'') = Ok 1" "decimal_big (JStr ''3'') = Ok 3" "decimal_big (JStr ''4'') = Ok 4"
  "decimal_big (JStr ''5'') = Ok 5" "decimal_big (JStr ''10'') = Ok 10"
  by code_simp+

lemma gate_numbers: "decimal_u64 (JStr ''500'') = Ok 500" "decimal_u64 (JStr ''2'') = Ok 2"
proof -
  have "decimal_text (JStr ''500'') = Ok ''500''" "decimal_text (JStr ''2'') = Ok ''2''" "decimal_value ''500'' = 500" "decimal_value ''2'' = 2"
    by code_simp+
  then show "decimal_u64 (JStr ''500'') = Ok 500" "decimal_u64 (JStr ''2'') = Ok 2" by (simp_all add: decimal_u64_def u64_max_def)
qed

lemma bytes_of_hex: "length bs = n \<Longrightarrow> bytes_of (JStr (''0x'' @ hex_encode bs)) n = Ok bs"
  by (simp add: bytes_of_def text_of_def require_def strip_prefix_def)

lemma hash_of_hex: "length h = 32 \<Longrightarrow> hash_of (JStr (hash_hex h)) = Ok (hash_hex h)"
  using bytes_of_hex [of h 32] by (simp add: hash_of_def hash_hex_def)

definition gate_merkle :: merkle_row where
  "gate_merkle = \<lparr>mr_claim_id = 3, mr_user = Address (replicate 20 1), mr_amounts = [1, 5], mr_score_spent = 3, mr_boosted_score = 4,
     mr_eligible_amount = 10, mr_eligible_booster_amount = 0\<rparr>"

lemma gate_row_parsed: "candidate_row gate_row = Ok gate_merkle"
  by (simp add: candidate_row_def gate_row_def json_index_def gate_decimals gate_address array_of_def gate_merkle_def)

lemma gate_encodes: "\<exists>e. leaf_encoding 4 gate_merkle = Ok e"
  by (simp add: leaf_encoding_Ok gate_merkle_def u64_max_def fits_def del: be_bytes.simps)

lemma gate_digest:
  assumes "length root = 32"
  shows "\<exists>h. length h = 32 \<and> settlement_digest toy_keccak (gate_input root) = Ok (hash_hex h)"
proof -
  have "settlement_fields_ok (gate_input root)"
    using assms by (simp add: settlement_fields_ok_def gate_input_def hash32_canonical fits_def)
  then show ?thesis using toy_keccak_length by (auto simp: settlement_digest_Ok)
qed

lemma gate_rows:
  assumes "leaf_encoding 4 gate_merkle = Ok e"
  shows "check_rows toy_keccak (gate_input (toy_keccak (toy_keccak e))) 500 (gate_doc (toy_keccak (toy_keccak e)) digest) = Ok ()"
proof -
  have "check_row tree 500 [0, 0] (gate_merkle, gate_row) = Ok [1, 5]" for tree
    by (simp add: check_row_def gate_merkle_def gate_row_def require_def)
  then show ?thesis using single_tree [OF assms, of toy_keccak]
    by (simp add: check_rows_def gate_doc_def json_index_def array_of_def gate_row_parsed gate_input_def root_hex_def require_def)
qed

lemma gate_verified: "\<exists>root digest. verify_candidate gate_ec toy_keccak gate_policy ''4'' (gate_doc root digest) = Ok (gate_candidate root digest)"
proof -
  obtain e where e: "leaf_encoding 4 gate_merkle = Ok e" using gate_encodes by blast
  let ?root = "toy_keccak (toy_keccak e)"
  have len: "length ?root = 32" by (rule toy_keccak_length)
  obtain h where h: "length h = 32" "settlement_digest toy_keccak (gate_input ?root) = Ok (hash_hex h)"
    using gate_digest [OF len] by blast
  let ?doc = "gate_doc ?root (hash_hex h)"
  have "candidate_header gate_policy ''4'' ?doc = Ok ()"
    by (simp add: candidate_header_def gate_doc_def json_index_def gate_policy_def gate_address andR_def require_def text_of_def is_zero_def u64_max_def)
  moreover have "candidate_input gate_policy ?doc = Ok (gate_input ?root)"
    using hash_of_hex [OF len] hash_of_hex [of "replicate 32 5"] hash_of_hex [of "replicate 32 9"]
    by (simp add: candidate_input_def gate_doc_def json_index_def gate_policy_def gate_input_def gate_decimals gate_address array_of_def)
  moreover have "sd_root (gate_input ?root) \<noteq> ZERO_HEX"
  proof -
    have "hd ?root = 32" by (simp add: toy_keccak_def [of "toy_keccak e"] toy_keccak_length)
    moreover have "hd (replicate 32 (0 :: byte)) = 0" by simp
    ultimately have "?root \<noteq> replicate 32 0" by force
    then have "hash_hex ?root \<noteq> hash_hex (replicate 32 0)" by (simp add: hash_hex_inj)
    then show ?thesis by (simp add: gate_input_def ZERO_HEX_def hex_zeros)
  qed
  moreover have "recover_signer gate_ec toy_keccak (hash_hex h) gate_signature = Ok gate_signer"
    using bytes_of_hex [OF h(1)]
    by (simp add: recover_signer_def gate_ec_def gate_signature_def nth_append require_def hash_hex_def gate_signer_def)
  moreover have "wf_address gate_signer" by (simp add: gate_signer_def wf_address_def toy_keccak_length)
  then have "address_of (JStr (address_to_string gate_signer)) = Ok gate_signer" by (simp add: address_of_def text_of_def address_roundtrip)
  moreover have "bytes_of (JStr (''0x'' @ hex_encode gate_signature)) 65 = Ok gate_signature"
    by (rule bytes_of_hex) (simp add: gate_signature_def)
  moreover have "json_index ?doc ''protocolFeeShareBps'' = JStr ''500''" "json_index ?doc ''settlementDigest'' = JStr (hash_hex h)"
    "json_index ?doc ''signature'' = JStr (''0x'' @ hex_encode gate_signature)" "json_index ?doc ''referenceBlock'' = JStr ''2''"
    "json_index ?doc ''signer'' = JStr (address_to_string gate_signer)" by (simp_all add: gate_doc_def json_index_def)
  ultimately have "verify_candidate gate_ec toy_keccak gate_policy ''4'' ?doc = Ok (gate_candidate ?root (hash_hex h))"
    using gate_rows [OF e, of "hash_hex h"] h hash_of_hex [OF h(1)]
    by (simp add: verify_candidate_def gate_numbers require_def gate_candidate_def)
      (simp add: gate_input_def is_zero_def)
  then show ?thesis by blast
qed


end
