(* ===== verification/Incremental_Score.thy ===== *)
theory Incremental_Score
  imports Insurance_Score Kernel_Json Job_Protocol
begin

text \<open>
  The incremental score service (\<^verbatim>\<open>score-api/src/lib.rs\<close>): a checkpoint of one account per scored token, kept as
  decimal texts, that is validated against the current rates, advanced by new transfers and projected to a block; and the snapshot
  computed from one such view at the maturity cutoff and one at the reference block.
\<close>

section \<open>Persisted data\<close>

definition CHECKPOINT_SCHEMA_VERSION :: nat where "CHECKPOINT_SCHEMA_VERSION = 3"
definition SCORE_SNAPSHOT_VERSION :: nat where "SCORE_SNAPSHOT_VERSION = 3"
definition MAX_PARALLEL_TOKEN_REPLAYS :: nat where "MAX_PARALLEL_TOKEN_REPLAYS = 4"
definition SCORE_MAX_INITIAL_LOG_RANGE :: u64 where "SCORE_MAX_INITIAL_LOG_RANGE = 5000"

record score_network =
  sn_chain_id :: u64
  sn_name :: string

record persisted_account_state =
  pa_balance :: string
  pa_last_block :: string
  pa_completed_numerator :: string
  pa_active_segment_from :: "string option"
  pa_active_integral :: string

record persisted_rate_point =
  pr_from_block :: string
  pr_rate :: string

record token_checkpoint =
  tc_token :: string
  tc_decimals :: nat
  tc_cursor_block :: string
  tc_cursor_block_hash :: string
  tc_rates :: "persisted_rate_point list"
  tc_account :: persisted_account_state

record user_checkpoint =
  uc_schema_version :: nat
  uc_chain_id :: string
  uc_registry :: string
  uc_account :: string
  uc_tokens :: "token_checkpoint list"
  uc_visible_tokens :: "token_checkpoint list"

record token_score_snapshot =
  ts_token :: string
  ts_balance :: string
  ts_gross_earned_score :: string
  ts_gross_score_per_second :: string

record cached_snapshot =
  cs_snapshot_version :: nat
  cs_network :: string
  cs_chain_id :: string
  cs_registry :: string
  cs_account :: string
  cs_reference_block :: string
  cs_reference_block_hash :: string
  cs_score_cutoff_block :: string
  cs_score_cutoff_block_hash :: string
  cs_min_holding_required :: string
  cs_snapshot_timestamp :: string
  cs_gross_earned_score :: string
  cs_matured_gross_earned_score :: string
  cs_score_spent :: string
  cs_available_score :: string
  cs_gross_score_per_second :: string
  cs_maturing_score_per_second :: string
  cs_token_scores :: "token_score_snapshot list"
  cs_scored_tokens :: "string list"
  cs_log_requests :: string
  cs_cache_status :: string

record score_breakdown =
  sb_gross_earned_score :: biguint
  sb_matured_gross_earned_score :: biguint
  sb_available_score :: biguint

datatype incremental_score_error =
    IsMalformed string
  | IsTokenMismatch
  | IsDecimalsMismatch
  | IsRateHistoryMismatch
  | IsRetroactiveRate
  | IsCursorRollback
  | IsInvalidTransferOrder
  | IsCore score_core_error
  | IsChain chain_error
  | IsWrongChain u64 u64
  | IsZeroDefiInsurance
  | IsCheckpointIdentity
  | IsCheckpointBlockHash

section \<open>Scores of a breakdown\<close>

definition score_breakdown_of :: "biguint \<Rightarrow> biguint \<Rightarrow> biguint \<Rightarrow> score_breakdown" where
  "score_breakdown_of reference_numerator matured_numerator spent =
     (let gross = gross_score reference_numerator; matured = gross_score matured_numerator in
      \<lparr>sb_gross_earned_score = gross, sb_matured_gross_earned_score = matured,
       sb_available_score = (if matured > spent then matured - spent else 0)\<rparr>)"

text \<open>The last score takes what the rounding of the others left over.\<close>

definition allocate_token_scores :: "biguint list \<Rightarrow> biguint list" where
  "allocate_token_scores numerators =
     (let total_score = gross_score (sum_list numerators);
          scores = map gross_score numerators;
          allocated = sum_list scores
      in if scores = [] then [] else butlast scores @ [last scores + (total_score - allocated)])"

definition scaled_balance :: "biguint \<Rightarrow> nat \<Rightarrow> biguint" where
  "scaled_balance b decimals =
     (if decimals \<le> 18 then b * 10 ^ (18 - decimals) else b div 10 ^ (decimals - 18))"

section \<open>Parsing and printing\<close>

definition valid_hash :: "string \<Rightarrow> bool" where
  "valid_hash value \<longleftrightarrow> length value = 66 \<and> take 2 value = ''0x'' \<and> list_all is_hex_digit (drop 2 value)"

definition canonical_digits :: "string \<Rightarrow> bool" where
  "canonical_digits value \<longleftrightarrow> value \<noteq> [] \<and> \<not> (length value > 1 \<and> hd value = CHR ''0'') \<and> list_all is_ascii_digit value"

definition score_decimal :: "string \<Rightarrow> string \<Rightarrow> (incremental_score_error, biguint) result" where
  "score_decimal value field = (if \<not> canonical_digits value then Err (IsMalformed field) else Ok (decimal_value value))"

definition score_decimal_u64 :: "string \<Rightarrow> string \<Rightarrow> (incremental_score_error, u64) result" where
  "score_decimal_u64 value field =
     (if \<not> canonical_digits value then Err (IsMalformed field)
      else if decimal_value value \<le> u64_max then Ok (decimal_value value) else Err (IsMalformed field))"

definition persisted_rates :: "rate_point list \<Rightarrow> persisted_rate_point list" where
  "persisted_rates rates = map (\<lambda>point. \<lparr>pr_from_block = show_nat (from_block point), pr_rate = show_nat (rate point)\<rparr>) rates"

definition parse_rate :: "persisted_rate_point \<Rightarrow> (incremental_score_error, rate_point) result" where
  "parse_rate point =
     bindR (score_decimal_u64 (pr_from_block point) ''rates.fromBlock'') (\<lambda>f.
     bindR (score_decimal (pr_rate point) ''rates.rate'') (\<lambda>r.
     Ok \<lparr>from_block = f, rate = r\<rparr>))"

definition parse_rates :: "persisted_rate_point list \<Rightarrow> (incremental_score_error, rate_point list) result" where
  "parse_rates rates =
     bindR (mapR parse_rate rates) (\<lambda>parsed.
     bindR (map_errR IsCore (validate_rates parsed)) (\<lambda>_.
     Ok parsed))"

definition persisted_account :: "account_score_state \<Rightarrow> persisted_account_state" where
  "persisted_account state =
     \<lparr>pa_balance = show_nat (balance state), pa_last_block = show_nat (last_block state),
      pa_completed_numerator = show_nat (completed_numerator state),
      pa_active_segment_from = map_option show_nat (active_segment_from state),
      pa_active_integral = show_nat (active_integral state)\<rparr>"

definition parse_account :: "persisted_account_state \<Rightarrow> (incremental_score_error, account_score_state) result" where
  "parse_account state =
     bindR (score_decimal (pa_balance state) ''account.balance'') (\<lambda>b.
     bindR (score_decimal_u64 (pa_last_block state) ''account.lastBlock'') (\<lambda>last_b.
     bindR (score_decimal (pa_completed_numerator state) ''account.completedNumerator'') (\<lambda>completed.
     bindR (case pa_active_segment_from state of None \<Rightarrow> Ok None
            | Some value \<Rightarrow> bindR (score_decimal_u64 value ''account.activeSegmentFrom'') (\<lambda>f. Ok (Some f))) (\<lambda>active_from.
     bindR (score_decimal (pa_active_integral state) ''account.activeIntegral'') (\<lambda>integral.
     Ok \<lparr>balance = b, last_block = last_b, completed_numerator = completed, active_segment_from = active_from,
         active_integral = integral\<rparr>)))))"

section \<open>Token checkpoints\<close>

definition validate_checkpoint :: "token_checkpoint \<Rightarrow> scored_token \<Rightarrow> (incremental_score_error, u64 \<times> account_score_state) result" where
  "validate_checkpoint checkpoint scored =
     bindR (failR_if (tc_token checkpoint \<noteq> address_to_string (st_token scored)) IsTokenMismatch) (\<lambda>_.
     bindR (failR_if (tc_decimals checkpoint \<noteq> st_decimals scored) IsDecimalsMismatch) (\<lambda>_.
     bindR (failR_if (\<not> valid_hash (tc_cursor_block_hash checkpoint)) (IsMalformed ''cursorBlockHash'')) (\<lambda>_.
     bindR (score_decimal_u64 (tc_cursor_block checkpoint) ''cursorBlock'') (\<lambda>cursor.
     bindR (parse_rates (tc_rates checkpoint)) (\<lambda>old_rates.
     bindR (failR_if (length (st_rates scored) < length old_rates
              \<or> list_ex (\<lambda>(old, current). old \<noteq> current) (zip old_rates (st_rates scored))) IsRateHistoryMismatch) (\<lambda>_.
     bindR (failR_if (list_ex (\<lambda>r. from_block r \<le> cursor) (drop (length old_rates) (st_rates scored))) IsRetroactiveRate) (\<lambda>_.
     bindR (parse_account (tc_account checkpoint)) (\<lambda>state.
     bindR (failR_if (last_block state \<noteq> cursor) (IsMalformed ''account.lastBlock'')) (\<lambda>_.
     Ok (cursor, state))))))))))"

definition new_token_checkpoint :: "scored_token \<Rightarrow> u64 \<Rightarrow> biguint \<Rightarrow> string \<Rightarrow> token_checkpoint" where
  "new_token_checkpoint scored starting_block starting_balance starting_block_hash =
     \<lparr>tc_token = address_to_string (st_token scored), tc_decimals = st_decimals scored,
      tc_cursor_block = show_nat starting_block, tc_cursor_block_hash = to_ascii_lowercase starting_block_hash,
      tc_rates = persisted_rates (st_rates scored),
      tc_account = persisted_account (default_account\<lparr>balance := starting_balance, last_block := starting_block\<rparr>)\<rparr>"

text \<open>The body of the loop over the transfers; the state carries \<^verbatim>\<open>previous\<close>.\<close>

definition transfer_flows :: "address \<Rightarrow> token_transfer \<Rightarrow> biguint \<times> biguint" where
  "transfer_flows account t = (if tt_to t = account then tt_value t else 0, if tt_from t = account then tt_value t else 0)"

definition position_before :: "u64 \<times> u64 \<Rightarrow> u64 \<times> u64 \<Rightarrow> bool" where
  "position_before p q \<longleftrightarrow> fst p < fst q \<or> (fst p = fst q \<and> snd p < snd q)"

definition advance_step ::
  "scored_token \<Rightarrow> address \<Rightarrow> u64 \<Rightarrow> u64 \<Rightarrow> (u64 \<times> u64) option \<times> account_score_state \<Rightarrow> token_transfer
    \<Rightarrow> (incremental_score_error, (u64 \<times> u64) option \<times> account_score_state) result" where
  "advance_step scored account cursor target_block acc t =
     (let (previous, state) = acc; order = (tt_block_number t, tt_log_index t); (inflow, outflow) = transfer_flows account t in
      if tt_block_number t \<le> cursor \<or> tt_block_number t > target_block
         \<or> (case previous of None \<Rightarrow> False | Some p \<Rightarrow> \<not> position_before p order)
      then Err IsInvalidTransferOrder
      else if inflow \<noteq> 0 \<or> outflow \<noteq> 0
      then bindR (map_errR IsCore (apply_transfer state (tt_block_number t) inflow outflow (st_rates scored) (st_decimals scored))) (\<lambda>s.
           Ok (Some order, s))
      else Ok (Some order, state))"

definition advance_token_checkpoint ::
  "token_checkpoint \<Rightarrow> scored_token \<Rightarrow> address \<Rightarrow> token_transfer list \<Rightarrow> u64 \<Rightarrow> string \<Rightarrow> (incremental_score_error, token_checkpoint) result" where
  "advance_token_checkpoint checkpoint scored account transfers target_block target_block_hash =
     bindR (failR_if (\<not> valid_hash target_block_hash) (IsMalformed ''targetBlockHash'')) (\<lambda>_.
     bindR (map_errR IsCore (validate_rates (st_rates scored))) (\<lambda>_.
     bindR (validate_checkpoint checkpoint scored) (\<lambda>(cursor, state).
     bindR (failR_if (target_block < cursor) IsCursorRollback) (\<lambda>_.
     bindR (foldR (advance_step scored account cursor target_block) (None, state) transfers) (\<lambda>(_, replayed).
     bindR (map_errR IsCore (advance_account replayed target_block (st_rates scored) (st_decimals scored))) (\<lambda>final_state.
     Ok (checkpoint\<lparr>tc_cursor_block := show_nat target_block, tc_cursor_block_hash := to_ascii_lowercase target_block_hash,
           tc_rates := persisted_rates (st_rates scored), tc_account := persisted_account final_state\<rparr>)))))))"

definition token_numerator :: "token_checkpoint \<Rightarrow> scored_token \<Rightarrow> u64 \<Rightarrow> (incremental_score_error, biguint) result" where
  "token_numerator checkpoint scored target_block =
     bindR (validate_checkpoint checkpoint scored) (\<lambda>(cursor, state).
     bindR (failR_if (target_block < cursor) IsCursorRollback) (\<lambda>_.
     map_errR IsCore (projected_numerator state target_block (st_rates scored) (st_decimals scored))))"

definition checkpoint_cursor :: "token_checkpoint \<Rightarrow> (incremental_score_error, u64) result" where
  "checkpoint_cursor checkpoint = score_decimal_u64 (tc_cursor_block checkpoint) ''cursorBlock''"

definition checkpoint_balance :: "token_checkpoint \<Rightarrow> (incremental_score_error, biguint) result" where
  "checkpoint_balance checkpoint = score_decimal (pa_balance (tc_account checkpoint)) ''account.balance''"

definition live_score_per_second :: "token_checkpoint \<Rightarrow> scored_token \<Rightarrow> u64 \<Rightarrow> (incremental_score_error, biguint) result" where
  "live_score_per_second checkpoint scored target_block =
     (let r = (case find (\<lambda>point. from_block point \<le> target_block) (rev (st_rates scored)) of None \<Rightarrow> 0 | Some point \<Rightarrow> rate point) in
      bindR (checkpoint_balance checkpoint) (\<lambda>b.
      Ok (scaled_balance b (st_decimals scored) * r div SCORE_SCALE div 12)))"

text \<open>The stored checkpoint of a scored token, and a quantity that is zero for tokens without one.\<close>

definition find_checkpoint :: "token_checkpoint list \<Rightarrow> scored_token \<Rightarrow> token_checkpoint option" where
  "find_checkpoint checkpoints scored = find (\<lambda>c. tc_token c = address_to_string (st_token scored)) checkpoints"

definition per_token ::
  "(token_checkpoint \<Rightarrow> scored_token \<Rightarrow> (incremental_score_error, biguint) result) \<Rightarrow> token_checkpoint list \<Rightarrow> scored_token list
    \<Rightarrow> (incremental_score_error, biguint list) result" where
  "per_token f checkpoints scored_tokens =
     mapR (\<lambda>scored. case find_checkpoint checkpoints scored of None \<Rightarrow> Ok 0 | Some c \<Rightarrow> f c scored) scored_tokens"

definition token_numerators :: "token_checkpoint list \<Rightarrow> scored_token list \<Rightarrow> u64 \<Rightarrow> (incremental_score_error, biguint list) result" where
  "token_numerators checkpoints scored_tokens target_block =
     per_token (\<lambda>c scored. token_numerator c scored target_block) checkpoints scored_tokens"

definition live_score_rates :: "token_checkpoint list \<Rightarrow> scored_token list \<Rightarrow> u64 \<Rightarrow> (incremental_score_error, biguint list) result" where
  "live_score_rates checkpoints scored_tokens target_block =
     per_token (\<lambda>c scored. live_score_per_second c scored target_block) checkpoints scored_tokens"

definition merge_score_metrics :: "log_metrics \<Rightarrow> log_metrics \<Rightarrow> log_metrics" where
  "merge_score_metrics l r =
     \<lparr>lm_requests = saturating_add64 (lm_requests l) (lm_requests r), lm_bisections = saturating_add64 (lm_bisections l) (lm_bisections r),
      lm_errors = saturating_add64 (lm_errors l) (lm_errors r), lm_elapsed_ms = saturating_add64 (lm_elapsed_ms l) (lm_elapsed_ms r)\<rparr>"

definition first_contributing_block :: "scored_token \<Rightarrow> u64 \<Rightarrow> u64 option" where
  "first_contributing_block scored target_block =
     map_option from_block (find (\<lambda>point. rate point \<noteq> 0 \<and> from_block point < target_block) (st_rates scored))"

definition validate_user_checkpoint :: "user_checkpoint \<Rightarrow> score_network \<Rightarrow> address \<Rightarrow> address \<Rightarrow> (incremental_score_error, unit) result" where
  "validate_user_checkpoint checkpoint network registry account =
     failR_if (uc_schema_version checkpoint \<noteq> CHECKPOINT_SCHEMA_VERSION \<or> uc_chain_id checkpoint \<noteq> show_nat (sn_chain_id network)
       \<or> uc_registry checkpoint \<noteq> address_to_string registry \<or> uc_account checkpoint \<noteq> address_to_string account) IsCheckpointIdentity"

section \<open>Scoring to a block\<close>

record token_replay =
  tr_checkpoint :: "token_checkpoint option"
  tr_numerator :: biguint
  tr_metrics :: log_metrics
  tr_advanced :: bool
  tr_missed :: bool

text \<open>The checkpoint a token starts from: the stored one on the same chain, or a fresh one.\<close>

definition starting_checkpoint ::
  "('w, 'z) rpc_scheme \<Rightarrow> abi \<Rightarrow> scored_token \<Rightarrow> address \<Rightarrow> token_checkpoint option \<Rightarrow> u64 \<Rightarrow> ('w, incremental_score_error, token_checkpoint) act" where
  "starting_checkpoint rpc abi scored account stored starting_block =
     (case stored of
        Some checkpoint \<Rightarrow>
          bindA (liftR (checkpoint_cursor checkpoint)) (\<lambda>cursor.
          bindA (map_errA IsChain (block_by_number rpc cursor)) (\<lambda>current.
          bindA (guardA (\<not> eq_ignore_ascii_case (ba_hash current) (tc_cursor_block_hash checkpoint)) IsCheckpointBlockHash) (\<lambda>_.
          retA checkpoint)))
      | None \<Rightarrow>
          bindA (map_errA IsChain (balance_of_at rpc abi (st_token scored) account starting_block)) (\<lambda>b.
          bindA (map_errA IsChain (block_by_number rpc starting_block)) (\<lambda>started.
          retA (new_token_checkpoint scored starting_block b (ba_hash started)))))"

definition advance_to ::
  "('w, 'z) rpc_scheme \<Rightarrow> events \<Rightarrow> scored_token \<Rightarrow> address \<Rightarrow> u64 \<Rightarrow> string \<Rightarrow> token_checkpoint
    \<Rightarrow> ('w, incremental_score_error, token_checkpoint \<times> log_metrics \<times> bool) act" where
  "advance_to rpc ev scored account target_block target_block_hash checkpoint =
     bindA (liftR (checkpoint_cursor checkpoint)) (\<lambda>cursor.
     if cursor < target_block
     then bindA (map_errA IsChain (erc20_transfers_for_accounts rpc ev (st_token scored) [account] (cursor + 1) target_block
              SCORE_MAX_INITIAL_LOG_RANGE LOG_RESULT_CAP)) (\<lambda>(transfers, metrics).
          bindA (liftR (advance_token_checkpoint checkpoint scored account transfers target_block target_block_hash)) (\<lambda>advanced.
          retA (advanced, metrics, True)))
     else if cursor > target_block then failA IsCursorRollback
     else retA (checkpoint, default_log_metrics, False))"

definition replay_token ::
  "('w, 'z) rpc_scheme \<Rightarrow> abi \<Rightarrow> events \<Rightarrow> address \<Rightarrow> token_checkpoint list \<Rightarrow> u64 \<Rightarrow> string \<Rightarrow> scored_token
    \<Rightarrow> ('w, incremental_score_error, token_replay) act" where
  "replay_token rpc abi ev account previous_tokens target_block target_block_hash scored =
     (case first_contributing_block scored target_block of
        None \<Rightarrow> retA \<lparr>tr_checkpoint = None, tr_numerator = 0, tr_metrics = default_log_metrics, tr_advanced = False, tr_missed = False\<rparr>
      | Some starting_block \<Rightarrow>
          let stored = find_checkpoint previous_tokens scored in
          bindA (starting_checkpoint rpc abi scored account stored starting_block) (\<lambda>start_checkpoint.
          bindA (advance_to rpc ev scored account target_block target_block_hash start_checkpoint) (\<lambda>(checkpoint, metrics, advanced).
          bindA (map_errA IsChain (balance_of_at rpc abi (st_token scored) account target_block)) (\<lambda>actual_balance.
          bindA (liftR (checkpoint_balance checkpoint)) (\<lambda>replayed_balance.
          bindA (guardA (replayed_balance \<noteq> actual_balance) (IsMalformed ''replayedBalance'')) (\<lambda>_.
          bindA (liftR (token_numerator checkpoint scored target_block)) (\<lambda>numerator.
          retA \<lparr>tr_checkpoint = Some checkpoint, tr_numerator = numerator, tr_metrics = metrics, tr_advanced = advanced,
                tr_missed = (stored = None)\<rparr>)))))))"

record block_score =
  bs_tokens :: "token_checkpoint list"
  bs_numerator :: biguint
  bs_metrics :: log_metrics
  bs_advanced :: bool
  bs_missed :: bool

definition add_replay :: "block_score \<Rightarrow> token_replay \<Rightarrow> block_score" where
  "add_replay acc r =
     \<lparr>bs_tokens = bs_tokens acc @ (case tr_checkpoint r of None \<Rightarrow> [] | Some c \<Rightarrow> [c]), bs_numerator = bs_numerator acc + tr_numerator r,
      bs_metrics = merge_score_metrics (bs_metrics acc) (tr_metrics r), bs_advanced = (bs_advanced acc \<or> tr_advanced r),
      bs_missed = (bs_missed acc \<or> tr_missed r)\<rparr>"

text \<open>The replays of one chunk, which \<^verbatim>\<open>try_join_all\<close> runs concurrently, are modelled one after the other.\<close>

definition score_to_block ::
  "('w, 'z) rpc_scheme \<Rightarrow> abi \<Rightarrow> events \<Rightarrow> scored_token list \<Rightarrow> address \<Rightarrow> token_checkpoint list \<Rightarrow> u64 \<Rightarrow> string
    \<Rightarrow> ('w, incremental_score_error, block_score) act" where
  "score_to_block rpc abi ev scored_tokens account previous_tokens target_block target_block_hash =
     foldA (\<lambda>acc scored_chunk.
         bindA (mapA (replay_token rpc abi ev account previous_tokens target_block target_block_hash) scored_chunk) (\<lambda>replayed.
         retA (foldl add_replay acc replayed)))
       \<lparr>bs_tokens = [], bs_numerator = 0, bs_metrics = default_log_metrics, bs_advanced = False, bs_missed = False\<rparr>
       (chunks MAX_PARALLEL_TOKEN_REPLAYS scored_tokens)"

section \<open>The snapshot\<close>

definition recheck_score_anchor :: "('w, 'z) rpc_scheme \<Rightarrow> string \<Rightarrow> u64 \<Rightarrow> string \<Rightarrow> ('w, incremental_score_error, unit) act" where
  "recheck_score_anchor rpc name b before =
     bindA (map_errA IsChain (block_by_number rpc b)) (\<lambda>again.
     guardA (ba_hash again \<noteq> before) (IsChain (AnchorChanged name b before (ba_hash again))))"

definition cache_status :: "block_score \<Rightarrow> block_score \<Rightarrow> string" where
  "cache_status matured visible =
     (if bs_missed matured \<or> bs_missed visible then ''miss''
      else if bs_advanced matured \<or> bs_advanced visible then ''advanced'' else ''hit'')"

definition snapshot_tokens :: "scored_token list \<Rightarrow> biguint list \<Rightarrow> biguint list \<Rightarrow> biguint list \<Rightarrow> token_score_snapshot list" where
  "snapshot_tokens scored_tokens scores rates balances =
     map (\<lambda>(((t, score), per_second), b). \<lparr>ts_token = address_to_string (st_token t), ts_balance = show_nat b,
            ts_gross_earned_score = show_nat score, ts_gross_score_per_second = show_nat per_second\<rparr>)
       (zip (zip (zip scored_tokens scores) rates) balances)"

text \<open>The values derived from the two views, before the anchors are read again.\<close>

record score_view =
  sv_scores :: "biguint list"
  sv_rates :: "biguint list"
  sv_balances :: "biguint list"
  sv_matured_rates :: "biguint list"

definition derive_view ::
  "scored_token list \<Rightarrow> block_score \<Rightarrow> block_score \<Rightarrow> u64 \<Rightarrow> u64 \<Rightarrow> (incremental_score_error, score_view) result" where
  "derive_view scored_tokens matured visible cutoff reference_block =
     bindR (token_numerators (bs_tokens visible) scored_tokens reference_block) (\<lambda>numerators.
     bindR (live_score_rates (bs_tokens visible) scored_tokens reference_block) (\<lambda>rates.
     bindR (per_token (\<lambda>c _. checkpoint_balance c) (bs_tokens visible) scored_tokens) (\<lambda>balances.
     bindR (live_score_rates (bs_tokens matured) scored_tokens cutoff) (\<lambda>matured_rates.
     Ok \<lparr>sv_scores = allocate_token_scores numerators, sv_rates = rates, sv_balances = balances, sv_matured_rates = matured_rates\<rparr>))))"

definition compute_incremental_score_at ::
  "('w, 'z) rpc_scheme \<Rightarrow> abi \<Rightarrow> events \<Rightarrow> score_network \<Rightarrow> address \<Rightarrow> address \<Rightarrow> block_anchor \<Rightarrow> user_checkpoint option
    \<Rightarrow> ('w, incremental_score_error, cached_snapshot \<times> user_checkpoint) act" where
  "compute_incremental_score_at rpc abi ev network registry account reference previous =
     bindA (map_errA IsChain (chain_id rpc)) (\<lambda>actual_chain.
     bindA (guardA (actual_chain \<noteq> sn_chain_id network) (IsWrongChain actual_chain (sn_chain_id network))) (\<lambda>_.
     bindA (liftR (case previous of None \<Rightarrow> Ok () | Some checkpoint \<Rightarrow> validate_user_checkpoint checkpoint network registry account)) (\<lambda>_.
     bindA (map_errA IsChain (defi_insurance_at rpc abi registry (Some (ba_number reference)))) (\<lambda>defi_insurance.
     bindA (guardA (is_zero defi_insurance) IsZeroDefiInsurance) (\<lambda>_.
     bindA (map_errA IsChain (score_config_and_spent_at rpc abi registry defi_insurance account (ba_number reference))) (\<lambda>(config, spent).
     let scored_tokens = scf_scored_tokens config; margin = holding_margin_blocks (scf_params config);
         cutoff = score_cutoff_block (ba_number reference) margin in
     bindA (map_errA IsChain (block_by_number rpc cutoff)) (\<lambda>cutoff_anchor.
     bindA (score_to_block rpc abi ev scored_tokens account (case previous of None \<Rightarrow> [] | Some c \<Rightarrow> uc_tokens c) cutoff (ba_hash cutoff_anchor)) (\<lambda>matured.
     bindA (score_to_block rpc abi ev scored_tokens account (case previous of None \<Rightarrow> bs_tokens matured | Some c \<Rightarrow> uc_visible_tokens c)
              (ba_number reference) (ba_hash reference)) (\<lambda>visible.
     let score = score_breakdown_of (bs_numerator visible) (bs_numerator matured) spent in
     bindA (liftR (derive_view scored_tokens matured visible cutoff (ba_number reference))) (\<lambda>view.
     bindA (recheck_score_anchor rpc ''score cutoff'' cutoff (ba_hash cutoff_anchor)) (\<lambda>_.
     bindA (recheck_score_anchor rpc ''score reference'' (ba_number reference) (ba_hash reference)) (\<lambda>_.
     retA (\<lparr>cs_snapshot_version = SCORE_SNAPSHOT_VERSION, cs_network = sn_name network, cs_chain_id = show_nat (sn_chain_id network),
        cs_registry = address_to_string registry, cs_account = address_to_string account,
        cs_reference_block = show_nat (ba_number reference), cs_reference_block_hash = ba_hash reference,
        cs_score_cutoff_block = show_nat cutoff, cs_score_cutoff_block_hash = ba_hash cutoff_anchor,
        cs_min_holding_required = show_nat margin, cs_snapshot_timestamp = show_nat (ba_timestamp reference),
        cs_gross_earned_score = show_nat (sb_gross_earned_score score),
        cs_matured_gross_earned_score = show_nat (sb_matured_gross_earned_score score), cs_score_spent = show_nat spent,
        cs_available_score = show_nat (sb_available_score score), cs_gross_score_per_second = show_nat (sum_list (sv_rates view)),
        cs_maturing_score_per_second = show_nat (sum_list (sv_matured_rates view)),
        cs_token_scores = snapshot_tokens scored_tokens (sv_scores view) (sv_rates view) (sv_balances view),
        cs_scored_tokens = map (\<lambda>t. address_to_string (st_token t)) scored_tokens,
        cs_log_requests = show_nat (lm_requests (merge_score_metrics (bs_metrics matured) (bs_metrics visible))),
        cs_cache_status = cache_status matured visible\<rparr>,
       \<lparr>uc_schema_version = CHECKPOINT_SCHEMA_VERSION, uc_chain_id = show_nat (sn_chain_id network),
        uc_registry = address_to_string registry, uc_account = address_to_string account,
        uc_tokens = bs_tokens matured, uc_visible_tokens = bs_tokens visible\<rparr>)))))))))))))"

definition compute_incremental_score ::
  "('w, 'z) rpc_scheme \<Rightarrow> abi \<Rightarrow> events \<Rightarrow> score_network \<Rightarrow> address \<Rightarrow> address \<Rightarrow> user_checkpoint option
    \<Rightarrow> ('w, incremental_score_error, cached_snapshot \<times> user_checkpoint) act" where
  "compute_incremental_score rpc abi ev network registry account previous =
     bindA (map_errA IsChain (finalized_block rpc)) (\<lambda>reference.
     compute_incremental_score_at rpc abi ev network registry account reference previous)"

end
