(* ===== verification/Incremental_Claims.thy ===== *)
theory Incremental_Claims
  imports Incremental_Score
begin

text \<open>
  Correctness of the incremental score: a checkpoint is the persisted form of an accumulator state, advancing it in any slices
  computes the state of one pass over the whole history, also when rates are added between the slices, and the scores shown
  per token add up to the score of the account.
\<close>

section \<open>Round trips of the persisted form\<close>

lemma canonical_digits_iff: "canonical_digits s \<longleftrightarrow> canonical_decimal s"
  by (auto simp: canonical_digits_def canonical_decimal_def)

lemma score_decimal_show [simp]: "score_decimal (show_nat n) field = Ok n"
  using show_nat_canonical [of n] by (simp add: score_decimal_def canonical_digits_iff)

lemma score_decimal_u64_show [simp]: "n \<le> u64_max \<Longrightarrow> score_decimal_u64 (show_nat n) field = Ok n"
  using show_nat_canonical [of n] by (simp add: score_decimal_u64_def canonical_digits_iff)

definition account_fits :: "account_score_state \<Rightarrow> bool" where
  "account_fits s \<longleftrightarrow> last_block s \<le> u64_max \<and> (case active_segment_from s of None \<Rightarrow> True | Some f \<Rightarrow> f \<le> u64_max)"

lemma parse_persisted_account: "account_fits s \<Longrightarrow> parse_account (persisted_account s) = Ok s"
  by (cases "active_segment_from s") (simp_all add: parse_account_def persisted_account_def account_fits_def)

definition rates_fit :: "rate_point list \<Rightarrow> bool" where
  "rates_fit rates \<longleftrightarrow> rates_ascending rates \<and> (\<forall>r \<in> set rates. from_block r \<le> u64_max)"

lemma parse_persisted_rates: "rates_fit rates \<Longrightarrow> parse_rates (persisted_rates rates) = Ok rates"
proof -
  assume fit: "rates_fit rates"
  then have "mapR parse_rate (persisted_rates rates) = Ok rates"
    unfolding rates_fit_def persisted_rates_def by (induction rates) (auto simp: parse_rate_def rates_ascending_Cons)
  with fit show ?thesis by (simp add: parse_rates_def rates_fit_def validate_rates_cases)
qed

lemma lowered_hash_valid:
  assumes "valid_hash h"
  shows "valid_hash (to_ascii_lowercase h)"
proof -
  let ?low = "\<lambda>c. let n = (of_char c :: nat) in if 65 \<le> n \<and> n \<le> 90 then char_of (n + 32) else c"
  have low: "is_hex_digit c \<Longrightarrow> is_hex_digit (?low c)" for c
    by (auto simp: is_hex_digit_def hex_val_def Let_def split: if_splits)
  define r where "r = drop 2 h"
  have h: "h = ''0x'' @ r" "length r = 64" "list_all is_hex_digit r"
    using assms append_take_drop_id [of 2 h] by (simp_all add: valid_hash_def r_def)
  have "to_ascii_lowercase h = ''0x'' @ map ?low r"
    unfolding h(1) to_ascii_lowercase_def map_append by (simp add: Let_def)
  then show ?thesis using h(2,3) low by (simp add: valid_hash_def list_all_iff)
qed

section \<open>Checkpoints of accumulator states\<close>

definition checkpoint_at :: "scored_token \<Rightarrow> string \<Rightarrow> account_score_state \<Rightarrow> token_checkpoint" where
  "checkpoint_at scored h s = \<lparr>tc_token = address_to_string (st_token scored), tc_decimals = st_decimals scored,
     tc_cursor_block = show_nat (last_block s), tc_cursor_block_hash = h, tc_rates = persisted_rates (st_rates scored),
     tc_account = persisted_account s\<rparr>"

text \<open>The configuration of a token some blocks later: the same token, and rates added only for later blocks.\<close>

definition extends_token :: "scored_token \<Rightarrow> u64 \<Rightarrow> scored_token \<Rightarrow> bool" where
  "extends_token old t scored \<longleftrightarrow> st_token scored = st_token old \<and> st_decimals scored = st_decimals old \<and> rates_fit (st_rates scored)
     \<and> (\<exists>added. st_rates scored = st_rates old @ added \<and> (\<forall>r \<in> set added. t < from_block r))"

lemma new_token_checkpoint_at: "new_token_checkpoint scored start b h = checkpoint_at scored (to_ascii_lowercase h) (fresh_account start b)"
  by (simp add: new_token_checkpoint_def checkpoint_at_def fresh_account_def)

lemma zip_append_same: "list_ex (\<lambda>(a, b). a \<noteq> b) (zip xs (xs @ ys)) \<longleftrightarrow> False"
  by (induction xs) auto

lemma validate_checkpoint_at:
  assumes "extends_token old (last_block s) scored" "valid_hash h" "account_fits s"
  shows "validate_checkpoint (checkpoint_at old h s) scored = Ok (last_block s, s)"
proof -
  from assms(1) obtain added where ext: "st_token scored = st_token old" "st_decimals scored = st_decimals old"
      "st_rates scored = st_rates old @ added" "\<forall>r \<in> set added. last_block s < from_block r" "rates_fit (st_rates scored)"
    by (auto simp: extends_token_def)
  then have "rates_fit (st_rates old)" by (auto simp: rates_fit_def rates_ascending_append)
  moreover have "\<not> list_ex (\<lambda>r. from_block r \<le> last_block s) added" using ext(4) by (auto simp: list_ex_iff)
  ultimately show ?thesis using ext assms(2,3)
    by (simp add: validate_checkpoint_def checkpoint_at_def account_fits_def parse_persisted_rates parse_persisted_account zip_append_same)
qed

text \<open>Rates that start after a block leave the state at that block as it is.\<close>

lemma score_state_more_rates:
  assumes "rates_ascending (rates @ added)" "\<forall>r \<in> set added. t < from_block r"
  shows "score_state bal start d (rates @ added) t b = score_state bal start d rates t b"
proof -
  have future: "closed_sum bal start d t added = 0" "open_seg start t added = None"
    using future_segments [of added t bal start d] assms by (auto simp: rates_ascending_append intro: less_imp_le)
  have "closed_sum bal start d t (rates @ added) = closed_sum bal start d t rates \<and> open_seg start t (rates @ added) = open_seg start t rates"
  proof (induction rates)
    case (Cons p rest)
    have "closed_at (rest @ added) t = closed_at rest t" "seg_end (rest @ added) t = seg_end rest t"
      using assms(2) by (cases rest; cases added; force simp: closed_at_def seg_end_def next_from_def)+
    with Cons show ?case by simp
  qed (use future in simp)
  then show ?thesis by (simp add: score_state_def)
qed

lemma open_seg_fits: "rates_fit rates \<Longrightarrow> open_seg start t rates = Some p \<Longrightarrow> from_block p \<le> u64_max"
  by (induction rates) (auto simp: rates_fit_def rates_ascending_Cons split: if_splits)

lemma score_state_fits: "rates_fit rates \<Longrightarrow> t \<le> u64_max \<Longrightarrow> account_fits (score_state bal start d rates t b)"
  by (auto simp: account_fits_def score_state_def open_seg_fits split: option.splits)

section \<open>Advancing\<close>

definition ordered_transfers :: "u64 \<Rightarrow> u64 \<Rightarrow> token_transfer list \<Rightarrow> bool" where
  "ordered_transfers l t ts \<longleftrightarrow> sorted_wrt position_before (map (\<lambda>x. (tt_block_number x, tt_log_index x)) ts)
     \<and> (\<forall>x \<in> set ts. l < tt_block_number x \<and> tt_block_number x \<le> t)"

text \<open>The transfers of the account as the accumulator sees them; transfers of zero and of others are left out.\<close>

definition flows_of :: "address \<Rightarrow> token_transfer list \<Rightarrow> transfer list" where
  "flows_of account ts = filter (\<lambda>(_, i, u). i \<noteq> 0 \<or> u \<noteq> 0) (map (\<lambda>t. (tt_block_number t, transfer_flows account t)) ts)"

lemma advance_steps:
  assumes "replay_account s (flows_of account ts) (st_rates scored) (st_decimals scored) = Ok s'" "ordered_transfers l t ts"
    "\<forall>p' x. p = Some p' \<longrightarrow> x \<in> set ts \<longrightarrow> position_before p' (tt_block_number x, tt_log_index x)"
  shows "\<exists>p'. foldR (advance_step scored account l t) (p, s) ts = Ok (p', s')"
  using assms
proof (induction ts arbitrary: p s)
  case Nil
  then show ?case by (auto simp: flows_of_def replay_account_def)
next
  case (Cons x ts)
  obtain i u where flows: "transfer_flows account x = (i, u)" by force
  let ?pos = "(tt_block_number x, tt_log_index x)"
  have rest: "ordered_transfers l t ts" "\<forall>p' y. Some ?pos = Some p' \<longrightarrow> y \<in> set ts \<longrightarrow> position_before p' (tt_block_number y, tt_log_index y)"
    using Cons.prems(2) by (auto simp: ordered_transfers_def)
  have here: "l < tt_block_number x" "tt_block_number x \<le> t" "case p of None \<Rightarrow> True | Some p' \<Rightarrow> position_before p' ?pos"
    using Cons.prems by (auto simp: ordered_transfers_def split: option.splits)
  show ?case
  proof (cases "i = 0 \<and> u = 0")
    case True
    then have "replay_account s (flows_of account ts) (st_rates scored) (st_decimals scored) = Ok s'"
      using Cons.prems(1) flows by (simp add: flows_of_def)
    from Cons.IH [OF this rest] True here flows show ?thesis by (auto simp: advance_step_def split: option.splits)
  next
    case False
    then obtain s1 where s1: "apply_transfer s (tt_block_number x) i u (st_rates scored) (st_decimals scored) = Ok s1"
        "replay_account s1 (flows_of account ts) (st_rates scored) (st_decimals scored) = Ok s'"
      using Cons.prems(1) flows by (auto simp: flows_of_def replay_account_def bindR_eq_Inr)
    from Cons.IH [OF s1(2) rest] False s1(1) here flows show ?thesis by (auto simp: advance_step_def split: option.splits)
  qed
qed

lemma token_flows_sorted:
  assumes "ordered_transfers l t ts"
  shows "sorted (l # map fst (flows_of account ts))" "\<forall>f \<in> set (flows_of account ts). l < fst f \<and> fst f \<le> t"
proof -
  show range: "\<forall>f \<in> set (flows_of account ts). l < fst f \<and> fst f \<le> t"
    using assms by (auto simp: flows_of_def ordered_transfers_def)
  have "sorted_wrt (\<le>) (map tt_block_number ts)"
    using assms unfolding ordered_transfers_def sorted_wrt_map by (auto simp: position_before_def elim!: sorted_wrt_mono_rel [rotated])
  then have "sorted (map fst (flows_of account ts))"
    unfolding flows_of_def by (induction ts) auto
  with range show "sorted (l # map fst (flows_of account ts))" by (auto intro: less_imp_le)
qed

lemma flows_last: "ordered_transfers l t ts \<Longrightarrow> l \<le> t \<Longrightarrow> last (l # map fst (flows_of account ts)) \<le> t"
  using token_flows_sorted(2) [of l t ts account] by (auto simp: last_map)

text \<open>One slice: the advanced checkpoint is the persisted state of the extended history.\<close>

lemma advance_checkpoint_at:
  assumes "extends_token old l scored" "start \<le> l" "l \<le> t" "t \<le> u64_max" "valid_hash h" "valid_hash h'"
    "ordered_transfers l t ts" "covered b (flows_of account ts)"
  shows "advance_token_checkpoint (checkpoint_at old h (score_state bal start (st_decimals old) (st_rates old) l b)) scored account ts t h'
    = Ok (checkpoint_at scored (to_ascii_lowercase h')
        (score_state (extend_history bal l b (flows_of account ts)) start (st_decimals scored) (st_rates scored) t (final_balance b (flows_of account ts))))"
proof -
  let ?rates = "st_rates scored" and ?d = "st_decimals scored" and ?flows = "flows_of account ts"
  let ?s = "score_state bal start ?d ?rates l b" and ?bal = "extend_history bal l b ?flows"
  from assms(1) obtain added where added: "?rates = st_rates old @ added" "\<forall>r \<in> set added. l < from_block r" "rates_fit ?rates" "?d = st_decimals old"
      "st_token scored = st_token old"
    by (auto simp: extends_token_def)
  then have asc: "rates_ascending ?rates" by (simp add: rates_fit_def)
  have same: "score_state bal start (st_decimals old) (st_rates old) l b = ?s"
    using score_state_more_rates [of "st_rates old" added l bal start ?d b] asc added by simp
  have valid: "validate_checkpoint (checkpoint_at old h ?s) scored = Ok (l, ?s)"
    using validate_checkpoint_at [of old ?s scored h] assms score_state_fits [OF added(3), of l bal start ?d b] by (simp add: score_state_def)
  have replay: "replay_account ?s ?flows ?rates ?d = Ok (score_state ?bal start ?d ?rates (last (l # map fst ?flows)) (final_balance b ?flows))"
    by (rule replay_account_refines [OF asc assms(2) token_flows_sorted(1) [OF assms(7)] assms(8)])
  from advance_steps [OF replay assms(7), of None] obtain p where
    steps: "foldR (advance_step scored account l t) (None, ?s) ts
      = Ok (p, score_state ?bal start ?d ?rates (last (l # map fst ?flows)) (final_balance b ?flows))" by auto
  let ?m = "last (l # map fst ?flows)"
  have m: "l \<le> ?m" "?m \<le> t" by (rule sorted_Cons_le_last [OF token_flows_sorted(1) [OF assms(7)]]) (rule flows_last [OF assms(7,3)])
  have "?bal x = final_balance b ?flows" if "?m \<le> x" for x
    using history_of_late [OF token_flows_sorted(1) [OF assms(7)] that] that m(1) by (simp add: extend_history_def del: last.simps)
  then have final: "advance_account (score_state ?bal start ?d ?rates ?m (final_balance b ?flows)) t ?rates ?d
      = Ok (score_state ?bal start ?d ?rates t (final_balance b ?flows))"
    by (intro advance_account_refines [OF asc order_trans [OF assms(2) m(1)] m(2)])
  show ?thesis unfolding same
    using assms(3,6) asc valid steps final added
    by (simp add: advance_token_checkpoint_def validate_rates_cases checkpoint_at_def score_state_def)
qed

section \<open>Any slicing computes the same score\<close>

text \<open>A slice: the configuration read then, the transfers since the last slice, the block it ends at and its hash.\<close>

type_synonym slice = "scored_token \<times> token_transfer list \<times> u64 \<times> string"

fun advance_slices :: "address \<Rightarrow> token_checkpoint \<Rightarrow> slice list \<Rightarrow> (incremental_score_error, token_checkpoint) result" where
  "advance_slices account c [] = Ok c"
| "advance_slices account c ((scored, ts, t, h) # slices) =
     bindR (advance_token_checkpoint c scored account ts t h) (\<lambda>c'. advance_slices account c' slices)"

fun slices_ok :: "scored_token \<Rightarrow> u64 \<Rightarrow> slice list \<Rightarrow> bool" where
  "slices_ok old l [] \<longleftrightarrow> True"
| "slices_ok old l ((scored, ts, t, h) # slices) \<longleftrightarrow> extends_token old l scored \<and> l \<le> t \<and> t \<le> u64_max \<and> valid_hash h
     \<and> ordered_transfers l t ts \<and> slices_ok scored t slices"

definition slice_transfers :: "slice list \<Rightarrow> token_transfer list" where
  "slice_transfers slices = concat (map (\<lambda>(_, ts, _). ts) slices)"

definition last_scored :: "scored_token \<Rightarrow> slice list \<Rightarrow> scored_token" where
  "last_scored old slices = last (old # map fst slices)"

definition last_target :: "u64 \<Rightarrow> slice list \<Rightarrow> u64" where
  "last_target l slices = last (l # map (\<lambda>(_, _, t, _). t) slices)"

lemma slices_step [simp]:
  "slice_transfers ((scored, ts, t, h) # slices) = ts @ slice_transfers slices"
  "last_scored old ((scored, ts, t, h) # slices) = last_scored scored slices"
  "last_target l ((scored, ts, t, h) # slices) = last_target t slices"
  "slice_transfers [] = []" "last_scored old [] = old" "last_target l [] = l"
  by (simp_all add: slice_transfers_def last_scored_def last_target_def)

lemma flows_append: "flows_of account (xs @ ys) = flows_of account xs @ flows_of account ys"
  by (simp add: flows_of_def)

lemma covered_append: "covered b (xs @ ys) \<longleftrightarrow> covered b xs \<and> covered (final_balance b xs) ys"
  by (induction b xs rule: covered.induct) auto

lemma final_balance_append: "final_balance b (xs @ ys) = final_balance (final_balance b xs) ys"
  by (induction b xs rule: final_balance.induct) auto

lemma history_of_append:
  assumes "\<forall>f \<in> set xs. fst f \<le> t" "\<forall>f \<in> set ys. t < fst f"
  shows "history_of b (xs @ ys) x = (if x < t then history_of b xs x else history_of (final_balance b xs) ys x)"
  using assms(1)
proof (induction b xs rule: final_balance.induct)
  case (1 b)
  show ?case using assms(2) by (cases ys) auto
qed auto

lemma slices_range:
  "slices_ok old l slices \<Longrightarrow> l \<le> last_target l slices
     \<and> (\<forall>f \<in> set (flows_of account (slice_transfers slices)). l < fst f \<and> fst f \<le> last_target l slices)"
proof (induction slices arbitrary: old l)
  case (Cons s slices)
  obtain scored ts t h where s: "s = (scored, ts, t, h)" by (cases s)
  with Cons.prems have step: "l \<le> t" "ordered_transfers l t ts" "slices_ok scored t slices" by auto
  from Cons.IH [OF step(3)] token_flows_sorted(2) [OF step(2), of account] step(1) show ?case by (auto simp: s flows_append)
qed (simp add: flows_of_def)

lemma history_of_after: "\<forall>f \<in> set fs. fst f \<le> x \<Longrightarrow> history_of b fs x = final_balance b fs"
  by (induction b fs rule: final_balance.induct) auto

lemma score_spec_from_start:
  "score_spec (extend_history bal start b fs) start d t rates = score_spec (history_of b fs) start d t rates"
proof (induction rates)
  case (Cons p rest)
  have "seg_integral (extend_history bal start b fs) start p e = seg_integral (history_of b fs) start p e" for e
    unfolding seg_integral_def by (intro sum.cong) (auto simp: extend_history_def)
  with Cons show ?case by simp
qed simp

lemma extend_history_append:
  assumes "l \<le> t" "\<forall>f \<in> set xs. fst f \<le> t" "\<forall>f \<in> set ys. t < fst f"
  shows "extend_history (extend_history bal l b xs) t (final_balance b xs) ys = extend_history bal l b (xs @ ys)"
  using assms(1) history_of_append [OF assms(2,3)] by (auto simp: extend_history_def fun_eq_iff)

lemma advance_slices_at:
  assumes "slices_ok old l slices" "start \<le> l" "l \<le> u64_max" "valid_hash h" "covered b (flows_of account (slice_transfers slices))" "rates_fit (st_rates old)"
  shows "\<exists>h'. valid_hash h' \<and> advance_slices account (checkpoint_at old h (score_state bal start (st_decimals old) (st_rates old) l b)) slices
    = Ok (checkpoint_at (last_scored old slices) h' (score_state (extend_history bal l b (flows_of account (slice_transfers slices))) start
        (st_decimals (last_scored old slices)) (st_rates (last_scored old slices)) (last_target l slices)
        (final_balance b (flows_of account (slice_transfers slices)))))
    \<and> last_target l slices \<le> u64_max \<and> rates_fit (st_rates (last_scored old slices))"
  using assms
proof (induction slices arbitrary: old l h b bal)
  case Nil
  have "score_state bal start d rates l b = score_state (extend_history bal l b []) start d rates l b" for d rates
    by (rule score_state_cong) (simp add: extend_history_def)
  with Nil show ?case by (auto simp: flows_of_def)
next
  case (Cons s slices)
  obtain scored ts t h1 where s: "s = (scored, ts, t, h1)" by (cases s)
  with Cons.prems have step: "extends_token old l scored" "l \<le> t" "t \<le> u64_max" "valid_hash h1" "ordered_transfers l t ts" "slices_ok scored t slices"
    and cov: "covered b (flows_of account ts)" "covered (final_balance b (flows_of account ts)) (flows_of account (slice_transfers slices))"
    by (auto simp: flows_append covered_append)
  let ?xs = "flows_of account ts" and ?ys = "flows_of account (slice_transfers slices)"
  have one: "advance_token_checkpoint (checkpoint_at old h (score_state bal start (st_decimals old) (st_rates old) l b)) scored account ts t h1
      = Ok (checkpoint_at scored (to_ascii_lowercase h1)
          (score_state (extend_history bal l b ?xs) start (st_decimals scored) (st_rates scored) t (final_balance b ?xs)))"
    by (rule advance_checkpoint_at [OF step(1) Cons.prems(2) step(2,3) Cons.prems(4) step(4,5) cov(1)])
  have fit: "rates_fit (st_rates scored)" using step(1) by (simp add: extends_token_def)
  have hist: "extend_history (extend_history bal l b ?xs) t (final_balance b ?xs) ?ys = extend_history bal l b (?xs @ ?ys)"
    using token_flows_sorted(2) [OF step(5), of account] slices_range [OF step(6), of account] by (intro extend_history_append [OF step(2)]) auto
  from Cons.IH [OF step(6) order_trans [OF Cons.prems(2) step(2)] step(3) lowered_hash_valid [OF step(4)] cov(2) fit, of "extend_history bal l b ?xs"]
  show ?case by (simp add: s one flows_append final_balance_append hist)
qed

text \<open>
  C5.  The incremental score is the score of the whole history.  Start a checkpoint at any block with the balance there, advance it
  any number of times, each time by the ordered transfers since the last block and under the rates known then, where rates were only
  added for blocks after the cursor; then the numerator it projects to any later block is the one that the protocol defines for all transfers together
  under the final rates.  So it does not matter when and how often a checkpoint was stored, parsed and continued.\<close>

theorem incremental_score_exact:
  assumes "slices_ok scored start slices" "rates_fit (st_rates scored)" "start \<le> u64_max" "valid_hash h"
    "covered b (flows_of account (slice_transfers slices))" "last_target start slices \<le> t"
  shows "bindR (advance_slices account (new_token_checkpoint scored start b h) slices)
      (\<lambda>c. token_numerator c (last_scored scored slices) t)
    = Ok (score_spec (history_of b (flows_of account (slice_transfers slices))) start (st_decimals (last_scored scored slices)) t
        (st_rates (last_scored scored slices)))"
proof -
  let ?flows = "flows_of account (slice_transfers slices)" and ?fin = "last_scored scored slices" and ?l = "last_target start slices"
  let ?bal = "extend_history (\<lambda>_. 0) start b ?flows"
  let ?s = "score_state ?bal start (st_decimals ?fin) (st_rates ?fin) ?l (final_balance b ?flows)"
  from advance_slices_at [OF assms(1) order_refl assms(3) lowered_hash_valid [OF assms(4)] assms(5,2), of "\<lambda>_. 0"] obtain h' where
    run: "valid_hash h'" "advance_slices account (new_token_checkpoint scored start b h) slices = Ok (checkpoint_at ?fin h' ?s)"
      "?l \<le> u64_max" "rates_fit (st_rates ?fin)"
    unfolding new_token_checkpoint_at fresh_account_state [where bal = "\<lambda>_. 0" and d = "st_decimals scored" and rates = "st_rates scored"] by blast
  have self: "extends_token ?fin ?l ?fin" using run(4) by (simp add: extends_token_def)
  have valid: "validate_checkpoint (checkpoint_at ?fin h' ?s) ?fin = Ok (?l, ?s)"
    using validate_checkpoint_at [of ?fin ?s ?fin h'] self run(1) score_state_fits [OF run(4,3)] by (simp add: score_state_def)
  have late: "?bal x = final_balance b ?flows" if "?l \<le> x" for x
    using slices_range [OF assms(1), of account] that history_of_after [of ?flows x b] by (force simp: extend_history_def)
  have "projected_numerator ?s t (st_rates ?fin) (st_decimals ?fin) = Ok (score_spec ?bal start (st_decimals ?fin) t (st_rates ?fin))"
    using run(4) slices_range [OF assms(1)] late by (intro projected_numerator_refines [OF _ _ assms(6)]) (auto simp: rates_fit_def)
  then show ?thesis using run(2) valid assms(6) by (simp add: token_numerator_def score_spec_from_start)
qed

definition demo_scored :: "rate_point list \<Rightarrow> scored_token" where
  "demo_scored rates = \<lparr>st_token = Address (replicate 20 3), st_decimals = 18, st_rates = rates\<rparr>"

definition demo_moves :: "nat \<Rightarrow> bool \<Rightarrow> token_transfer list" where
  "demo_moves b out = [\<lparr>tt_from = Address (replicate 20 (if out then 5 else 6)), tt_to = Address (replicate 20 (if out then 6 else 5)), tt_value = 4,
     tt_block_number = b, tt_log_index = 2\<rparr>]"

definition demo_slices :: "slice list" where
  "demo_slices = [(demo_scored [\<lparr>from_block = 10, rate = 2\<rparr>], demo_moves 12 False, 15, ''0x'' @ replicate 64 CHR ''a''),
     (demo_scored [\<lparr>from_block = 10, rate = 2\<rparr>, \<lparr>from_block = 20, rate = 5\<rparr>], demo_moves 22 True, 30, ''0x'' @ replicate 64 CHR ''b'')]"

theorem incremental_score_exact_witness:
  "bindR (advance_slices (Address (replicate 20 5)) (new_token_checkpoint (demo_scored [\<lparr>from_block = 10, rate = 2\<rparr>]) 10 7 (''0x'' @ replicate 64 CHR ''c'')) demo_slices)
      (\<lambda>c. token_numerator c (demo_scored [\<lparr>from_block = 10, rate = 2\<rparr>, \<lparr>from_block = 20, rate = 5\<rparr>]) 40)
    = Ok (score_spec (history_of 7 [(12, 4, 0), (22, 0, 4)]) 10 18 40 [\<lparr>from_block = 10, rate = 2\<rparr>, \<lparr>from_block = 20, rate = 5\<rparr>])"
proof -
  let ?one = "demo_scored [\<lparr>from_block = 10, rate = 2\<rparr>]" and ?two = "demo_scored [\<lparr>from_block = 10, rate = 2\<rparr>, \<lparr>from_block = 20, rate = 5\<rparr>]"
  let ?account = "Address (replicate 20 5)"
  have hash: "valid_hash (''0x'' @ replicate 64 CHR ''a'')" "valid_hash (''0x'' @ replicate 64 CHR ''b'')" "valid_hash (''0x'' @ replicate 64 CHR ''c'')"
    by code_simp+
  have other: "Address (replicate 20 6) \<noteq> ?account" by simp
  have flows: "flows_of ?account (slice_transfers demo_slices) = [(12, 4, 0), (22, 0, 4)]"
    using other by (simp add: demo_slices_def demo_moves_def flows_of_def transfer_flows_def slice_transfers_def)
  have fit: "rates_fit (st_rates ?one)" "rates_fit (st_rates ?two)"
    by (simp_all add: rates_fit_def demo_scored_def rates_ascending_def u64_max_def)
  have ext: "extends_token ?one 10 ?one" "extends_token ?one 15 ?two"
    using fit by (auto simp: extends_token_def demo_scored_def)
  have slices: "slices_ok ?one 10 demo_slices"
    using ext hash by (simp add: demo_slices_def ordered_transfers_def demo_moves_def u64_max_def)
  have cov: "covered 7 (flows_of ?account (slice_transfers demo_slices))" unfolding flows by simp
  have "last_target 10 demo_slices \<le> 40" "(10 :: nat) \<le> u64_max" by (simp_all add: last_target_def demo_slices_def u64_max_def)
  from incremental_score_exact [OF slices fit(1) this(2) hash(3) cov this(1)] show ?thesis
    unfolding flows by (simp add: demo_slices_def) (simp add: demo_scored_def)
qed

section \<open>Scores per token\<close>

lemma gross_score_sum_le: "sum_list (map gross_score ns) \<le> gross_score (sum_list ns)"
proof (induction ns)
  case (Cons n ns)
  have "n div SCORE_SCALE + sum_list ns div SCORE_SCALE \<le> (n + sum_list ns) div SCORE_SCALE"
    using div_add1_eq [of n "sum_list ns" SCORE_SCALE] by simp
  with Cons show ?case by (simp add: gross_score_def)
qed (simp add: gross_score_def)

text \<open>The scores shown per token add up to the score of the account, and the subtraction in the code never underflows.\<close>

lemma token_scores_add_up: "ns \<noteq> [] \<Longrightarrow> sum_list (allocate_token_scores ns) = gross_score (sum_list ns)"
proof -
  assume ns: "ns \<noteq> []"
  let ?scores = "map gross_score ns"
  have "sum_list (butlast ?scores) + last ?scores = sum_list ?scores"
    using ns append_butlast_last_id [of ?scores] sum_list_append [of "butlast ?scores" "[last ?scores]"] by simp
  then show ?thesis using ns gross_score_sum_le [of ns] by (simp add: allocate_token_scores_def Let_def)
qed

end
