(* ===== verification/Instance_Scan.thy ===== *)
theory Instance_Scan
  imports Settlement_Verifier
begin

text \<open>
  Worker instances: the proof that no instance of a job can still run (\<^verbatim>\<open>offchain-rust/job-api/src/admission_reconciliation.rs\<close>),
  the termination check of the launcher (\<^verbatim>\<open>bin/lambda.rs\<close>) and the periodic removal of old instances (\<^verbatim>\<open>bin/janitor.rs\<close>).
  The records hold what the code reads of the instance service; the service itself is the parameter \<open>ec2_client\<close>.
\<close>

section \<open>The instance service\<close>

datatype instance_state_name = StatePending | StateRunning | StateShuttingDown | StateTerminated | StateStopping | StateStopped | StateOther string

record ec2_instance =
  ei_instance_id :: "string option"
  ei_state :: "instance_state_name option"
  ei_tags :: "(string option \<times> string option) list"
  ei_launch_time :: "int option"

record describe_request =
  dr_filters :: "(string \<times> string list) list"
  dr_max_results :: "nat option"
  dr_next_token :: "string option"

record describe_output =
  do_reservations :: "ec2_instance list list"
  do_next_token :: "string option"

record run_request =
  rr_image_id :: string
  rr_instance_type :: string
  rr_count :: "nat \<times> nat"
  rr_client_token :: string
  rr_shutdown_terminates :: bool
  rr_enclave :: bool
  rr_instance_profile :: string
  rr_metadata_endpoint :: bool
  rr_metadata_tokens_required :: bool
  rr_metadata_hop_limit :: nat
  rr_metadata_tags :: bool
  rr_network_device :: nat
  rr_network_public_ip :: bool
  rr_network_delete_on_termination :: bool
  rr_subnet_id :: string
  rr_security_group :: string
  rr_tags :: "(string \<times> string) list"
  rr_user_data :: string

text \<open>A failed launch carries the message of the service, when it has one; a launch answers with the identifiers of its instances.\<close>

record 'w ec2_client =
  ec_describe :: "describe_request \<Rightarrow> ('w, string, describe_output) act"
  ec_terminate :: "string list \<Rightarrow> ('w, string, unit) act"
  ec_run :: "run_request \<Rightarrow> ('w, string option, string option list) act"
  ec_clock_ms :: "'w \<Rightarrow> nat"

definition instances :: "describe_output \<Rightarrow> ec2_instance list" where
  "instances output = concat (do_reservations output)"

definition tagged_job :: "string \<Rightarrow> ec2_instance \<Rightarrow> bool" where
  "tagged_job job_id i \<longleftrightarrow> list_ex (\<lambda>(k, v). k = Some ''JobId'' \<and> v = Some job_id) (ei_tags i)"

definition is_terminated_instance :: "string \<Rightarrow> ec2_instance \<Rightarrow> bool" where
  "is_terminated_instance job_id i \<longleftrightarrow> ei_state i = Some StateTerminated \<and> tagged_job job_id i"

section \<open>No active instances\<close>

definition identified :: "ec2_instance \<Rightarrow> bool" where
  "identified i \<longleftrightarrow> (case ei_instance_id i of None \<Rightarrow> False | Some identifier \<Rightarrow> identifier \<noteq> [])"

definition job_inventory :: "string \<Rightarrow> string option \<Rightarrow> describe_request" where
  "job_inventory job_id token =
     \<lparr>dr_filters = [(''tag:JobId'', [job_id])], dr_max_results = Some 1000, dr_next_token = token\<rparr>"

text \<open>The loop over at most 32 pages; the first argument counts the pages left.\<close>

fun scan_pages ::
  "nat \<Rightarrow> ('w, 'z) ec2_client_scheme \<Rightarrow> string \<Rightarrow> string option \<Rightarrow> string set \<Rightarrow> ('w, service_error, bool) act" where
  "scan_pages 0 client job_id token seen = failA SvUnavailable"
| "scan_pages (Suc n) client job_id token seen =
     bindA (map_errA (\<lambda>_. SvUnavailable) (ec_describe client (job_inventory job_id token))) (\<lambda>output.
     if list_ex (\<lambda>i. \<not> (identified i \<and> is_terminated_instance job_id i)) (instances output) then retA False
     else case do_next_token output of
       None \<Rightarrow> retA True
     | Some next \<Rightarrow> if next \<noteq> [] \<and> next \<notin> seen then scan_pages n client job_id (Some next) (insert next seen)
                    else failA SvUnavailable)"

definition launch_fence :: "u64 \<Rightarrow> u64 option \<Rightarrow> u64 option" where
  "launch_fence launch_until ambiguity_seconds =
     (case ambiguity_seconds of
        None \<Rightarrow> None
      | Some bound \<Rightarrow>
          if bound = 0 then None
          else case checked_add64 launch_until 900 of None \<Rightarrow> None | Some v \<Rightarrow> checked_add64 v bound)"

definition no_active_instances ::
  "('w, 'z) ec2_client_scheme \<Rightarrow> string \<Rightarrow> u64 \<Rightarrow> u64 \<Rightarrow> u64 option \<Rightarrow> ('w, service_error, bool) act" where
  "no_active_instances client job_id launch_until now ambiguity_seconds =
     bindA (liftR (map_errR (\<lambda>_. SvInvalidRequest) (job_paths_new job_id))) (\<lambda>_.
     case launch_fence launch_until ambiguity_seconds of
       None \<Rightarrow> retA False
     | Some fence \<Rightarrow>
         if now \<le> fence then retA False
         else bindA (within_timeout (ec_clock_ms client) 10000 (scan_pages 32 client job_id None {})) (\<lambda>outcome.
              liftR (case outcome of Some r \<Rightarrow> r | None \<Rightarrow> Err SvUnavailable)))"

section \<open>Positive evidence of termination\<close>

definition is_terminated :: "('w, 'z) ec2_client_scheme \<Rightarrow> string \<Rightarrow> ('w, service_error, bool) act" where
  "is_terminated client job_id =
     bindA (liftR (map_errR (\<lambda>_. SvInvalidRequest) (job_paths_new job_id))) (\<lambda>_.
     bindA (within_timeout (ec_clock_ms client) 10000 (ec_describe client
              \<lparr>dr_filters = [(''tag:JobId'', [job_id])], dr_max_results = None, dr_next_token = None\<rparr>)) (\<lambda>outcome.
     case outcome of
       Some (Ok output) \<Rightarrow>
         retA (do_next_token output = None \<and> instances output \<noteq> [] \<and> list_all (is_terminated_instance job_id) (instances output))
     | _ \<Rightarrow> failA SvUnavailable))"

definition reconcile_reservation ::
  "('w, 'z) ec2_client_scheme \<Rightarrow> u64 option \<Rightarrow> string \<Rightarrow> u64 \<Rightarrow> u64 \<Rightarrow> ('w, service_error, bool) act" where
  "reconcile_reservation client ambiguity_seconds job_id launch_until now =
     (if ambiguity_seconds = None
      then if now \<le> saturating_add64 launch_until 900 then retA False else is_terminated client job_id
      else no_active_instances client job_id launch_until now ambiguity_seconds)"

section \<open>Removal of old instances\<close>

definition janitor_inventory :: "string option \<Rightarrow> describe_request" where
  "janitor_inventory token =
     \<lparr>dr_filters = [(''tag:Project'', [''USD8-TEE'']),
                    (''instance-state-name'', [''pending'', ''running'', ''stopping'', ''stopped''])],
      dr_max_results = None, dr_next_token = token\<rparr>"

definition expired_ids :: "int \<Rightarrow> int \<Rightarrow> ec2_instance list \<Rightarrow> string list" where
  "expired_ids now ttl_secs is =
     List.map_filter ei_instance_id
       (filter (\<lambda>i. case ei_launch_time i of Some t \<Rightarrow> is_expired t now ttl_secs | None \<Rightarrow> False) is)"

text \<open>One page: the identifiers terminated and the token of the next page.\<close>

definition janitor_page ::
  "('w, 'z) ec2_client_scheme \<Rightarrow> int \<Rightarrow> int \<Rightarrow> string option \<Rightarrow> ('w, string, nat \<times> string option) act" where
  "janitor_page client now ttl_secs token =
     bindA (ec_describe client (janitor_inventory token)) (\<lambda>output.
     let ids = expired_ids now ttl_secs (instances output) in
     bindA (if ids \<noteq> [] then ec_terminate client ids else retA ()) (\<lambda>_.
       retA (length ids, do_next_token output)))"

text \<open>The loop ends when the service stops to name a next page; \<open>None\<close> is a loop that never ends.\<close>

partial_function (option) janitor_loop ::
  "('w, 'z) ec2_client_scheme \<Rightarrow> int \<Rightarrow> int \<Rightarrow> string option \<Rightarrow> nat \<Rightarrow> 'w \<Rightarrow> ((string, nat) result \<times> 'w) option" where
  "janitor_loop client now ttl_secs token terminated w =
     (case janitor_page client now ttl_secs token w of
        (Inl e, w') \<Rightarrow> Some (Inl e, w')
      | (Inr (n, next), w') \<Rightarrow>
          if next = None then Some (Inr (terminated + n), w')
          else janitor_loop client now ttl_secs next (terminated + n) w')"

definition janitor_run ::
  "('w, 'z) ec2_client_scheme \<Rightarrow> ('w \<Rightarrow> int option) \<Rightarrow> int \<Rightarrow> 'w \<Rightarrow> ((string, nat) result \<times> 'w) option" where
  "janitor_run client system_secs ttl_secs w =
     (case system_secs w of
        None \<Rightarrow> Some (Err ''second time provided was later than self'', w)
      | Some now \<Rightarrow> janitor_loop client now ttl_secs None 0 w)"

end
