(* ===== verification/Web.thy ===== *)
theory Web
  imports Job_Protocol
begin

text \<open>What the two request handlers share: filtering an option, splitting a path, parsing a number, and responses.\<close>

definition filter_option :: "('a \<Rightarrow> bool) \<Rightarrow> 'a option \<Rightarrow> 'a option" where
  "filter_option P m = (case m of Some x \<Rightarrow> if P x then Some x else None | None \<Rightarrow> None)"

lemma filter_option_Some [simp]: "filter_option P m = Some x \<longleftrightarrow> m = Some x \<and> P x"
  by (auto simp: filter_option_def split: option.splits)

fun split_on :: "char \<Rightarrow> string \<Rightarrow> string list" where
  "split_on sep [] = [[]]"
| "split_on sep (c # s) = (if c = sep then [] # split_on sep s
     else case split_on sep s of [] \<Rightarrow> [[c]] | part # parts \<Rightarrow> (c # part) # parts)"

text \<open>\<^verbatim>\<open>str::parse::<u64>\<close>: an optional plus sign and at least one digit.\<close>

definition u64_from_str :: "string \<Rightarrow> u64 option" where
  "u64_from_str s =
     (let digits = (case s of [] \<Rightarrow> [] | c # r \<Rightarrow> if c = CHR ''+'' then r else s) in
      if digits = [] \<or> \<not> list_all is_ascii_digit digits \<or> decimal_value digits > u64_max then None else Some (decimal_value digits))"

record http_response =
  hr_status :: nat
  hr_body :: json

definition error_code :: "string \<Rightarrow> json" where
  "error_code code = JObj [(''error'', JStr code)]"

end
