(* ===== verification/Open_Advisory.thy ===== *)
theory Open_Advisory
  imports Incident_Open Settlement_Verifier Web
begin

text \<open>
  The cached price check before an opening (\<^verbatim>\<open>offchain-rust/job-api/src/open_advisory_cache.rs\<close> and
  \<^verbatim>\<open>open_advisory_rpc.rs\<close>): one stored object holds the last attempt and the last result; a result is fresh for a minute
  and only under the chain configuration it was computed for.  Instants count nanoseconds; a future whose deadline
  passes is dropped, and the environment may let the calls of a dropped future do nothing.
\<close>

section \<open>Types\<close>

datatype semantic = NoDrop | Qualifying u64 u64

datatype check_error = CeUnavailable | CeActive | CeUnapproved

record binding =
  bn_commitment :: string
  bn_head :: u64
  bn_finalized :: u64
  bn_max_age :: u64

record 'w advisory_source =
  as_binding :: "('w, check_error, binding) act"
  as_refresh :: "('w, check_error, semantic) act"

record advisory =
  ad_checked_at :: u64
  ad_expires_at :: u64
  ad_configuration :: string
  ad_result :: semantic

record decision =
  de_fresh :: bool
  de_advisory :: "advisory option"

record advisory_record =
  ar_attempt_at :: "u64 option"
  ar_snapshot :: "advisory option"

definition empty_record :: advisory_record where
  "empty_record = \<lparr>ar_attempt_at = None, ar_snapshot = None\<rparr>"

text \<open>The object store, the monotonic clock, the JSON codec of the record and SHA-256.\<close>

record 'w advisory_env =
  ae_get_versioned :: "string \<Rightarrow> nat \<Rightarrow> ('w, service_error, versioned_object option) act"
  ae_compare_exchange :: "string \<Rightarrow> string option \<Rightarrow> bytes \<Rightarrow> ('w, service_error, bool) act"
  ae_instant :: "'w \<Rightarrow> nat"
  ae_parse_record :: "bytes \<Rightarrow> advisory_record option"
  ae_render_record :: "advisory_record \<Rightarrow> bytes option"
  ae_sha256 :: "bytes \<Rightarrow> bytes"

definition NANOS :: nat where "NANOS = 1000000000"

definition CACHE_BUDGET :: nat where "CACHE_BUDGET = 24 * NANOS"

fun eligible :: "semantic \<Rightarrow> binding \<Rightarrow> bool" where
  "eligible result b =
     (if bn_head b = 0 \<or> bn_finalized b = 0 \<or> bn_finalized b > bn_head b \<or> bn_max_age b = 0 \<or> bn_commitment b = [] then False
      else case result of
        NoDrop \<Rightarrow> True
      | Qualifying reference_block observation_block \<Rightarrow>
          reference_block > 0 \<and> reference_block < bn_head b \<and> bn_head b - reference_block \<le> bn_max_age b
          \<and> observation_block > reference_block \<and> observation_block \<le> bn_finalized b)"

declare eligible.simps [simp del]

section \<open>Deadlines\<close>

definition within_deadline :: "('w \<Rightarrow> nat) \<Rightarrow> nat \<Rightarrow> ('w, 'e, 'a) act \<Rightarrow> ('w, check_error, ('e, 'a) result) act" where
  "within_deadline instant deadline future =
     bindA (getsA instant) (\<lambda>before.
     bindA (guardA (before \<ge> deadline) CeUnavailable) (\<lambda>_.
     bindA (tryA future) (\<lambda>result.
     bindA (getsA instant) (\<lambda>after.
     bindA (guardA (after \<ge> deadline) CeUnavailable) (\<lambda>_. retA result)))))"

text \<open>
  The fallback advisory is a variable of the caller that the future writes.  It is threaded beside the world; a write that
  a dropped future would only have made after its deadline does not happen.
\<close>

definition besides :: "('w, 'e, 'a) act \<Rightarrow> ('w \<times> 's, 'e, 'a) act" where
  "besides m = (\<lambda>(w, s). case m w of (r, w') \<Rightarrow> (r, w', s))"

definition set_fallback :: "('w \<Rightarrow> nat) \<Rightarrow> nat \<Rightarrow> advisory option \<Rightarrow> ('w \<times> advisory option, 'e, unit) act" where
  "set_fallback instant deadline v = (\<lambda>(w, s). (Ok (), w, if instant w < deadline then v else s))"

definition with_fallback :: "('w \<times> advisory option, 'e, 'a) act \<Rightarrow> ('w, 'f, ('e, 'a) result \<times> advisory option) act" where
  "with_fallback m = (\<lambda>w. case m (w, None) of (r, w', s) \<Rightarrow> (Ok (r, s), w'))"

section \<open>The cached check\<close>

definition advisory_key :: "('w, 'z) advisory_env_scheme \<Rightarrow> string \<Rightarrow> string" where
  "advisory_key env namespace = ''control/open-advisory/v1/'' @ hex_encode (ae_sha256 env (text_bytes namespace)) @ ''.json''"

definition load_record ::
  "('w, 'z) advisory_env_scheme \<Rightarrow> string \<Rightarrow> ('w, check_error, versioned_object option \<times> advisory_record) act" where
  "load_record env key =
     bindA (map_errA (\<lambda>_. CeUnavailable) (ae_get_versioned env key 16384)) (\<lambda>found.
     bindA (liftR (case found of Some v \<Rightarrow> ok_or CeUnavailable (ae_parse_record env (vo_bytes v)) | None \<Rightarrow> Ok empty_record)) (\<lambda>r.
       retA (found, r)))"

definition retainable :: "u64 \<Rightarrow> advisory \<Rightarrow> bool" where
  "retainable now s \<longleftrightarrow> now \<ge> ad_checked_at s \<and> now < ad_expires_at s \<and> ad_expires_at s = saturating_add64 (ad_checked_at s) 3600"

text \<open>Reservation of the attempt: \<open>None\<close> when another invocation wrote first.\<close>

definition reserve_refresh ::
  "('w, 'z) advisory_env_scheme \<Rightarrow> string \<Rightarrow> versioned_object option \<Rightarrow> advisory_record
    \<Rightarrow> ('w, check_error, versioned_object option) act" where
  "reserve_refresh env key found r =
     bindA (liftR (ok_or CeUnavailable (ae_render_record env r))) (\<lambda>bytes.
     bindA (map_errA (\<lambda>_. CeUnavailable) (ae_compare_exchange env key (map_option vo_revision found) bytes)) (\<lambda>won.
     if \<not> won then retA None
     else bindA (map_errA (\<lambda>_. CeUnavailable) (ae_get_versioned env key 16384)) (\<lambda>again.
          bindA (liftR (ok_or CeUnavailable again)) (\<lambda>reserved.
          bindA (guardA (vo_bytes reserved \<noteq> bytes) CeUnavailable) (\<lambda>_. retA (Some reserved))))))"

definition publish_refresh ::
  "('w, 'z) advisory_env_scheme \<Rightarrow> string \<Rightarrow> advisory_record \<Rightarrow> versioned_object \<Rightarrow> u64 \<Rightarrow> string \<Rightarrow> semantic
    \<Rightarrow> ('w, check_error, decision) act" where
  "publish_refresh env key r reserved now configuration result =
     bindA (liftR (ok_or CeUnavailable (checked_add64 now 3600))) (\<lambda>expires_at.
     let snapshot = \<lparr>ad_checked_at = now, ad_expires_at = expires_at, ad_configuration = configuration, ad_result = result\<rparr> in
     bindA (liftR (ok_or CeUnavailable (ae_render_record env (r\<lparr>ar_snapshot := Some snapshot\<rparr>)))) (\<lambda>bytes.
     bindA (map_errA (\<lambda>_. CeUnavailable) (ae_compare_exchange env key (Some (vo_revision reserved)) bytes)) (\<lambda>won.
     bindA (guardA (\<not> won) CeUnavailable) (\<lambda>_.
       retA \<lparr>de_fresh = True, de_advisory = Some snapshot\<rparr>))))"

abbreviation stale :: "advisory option \<Rightarrow> decision" where
  "stale a \<equiv> \<lparr>de_fresh = False, de_advisory = a\<rparr>"

definition refresh_reserved ::
  "('w, 'z) advisory_env_scheme \<Rightarrow> ('w, 'y) advisory_source_scheme \<Rightarrow> string \<Rightarrow> u64 \<Rightarrow> nat \<Rightarrow> binding \<Rightarrow> advisory option
    \<Rightarrow> advisory_record \<Rightarrow> versioned_object \<Rightarrow> ('w, check_error, decision) act" where
  "refresh_reserved env source key now deadline b prior r reserved =
     bindA (getsA (ae_instant env)) (\<lambda>instant.
     if instant \<ge> deadline then retA (stale prior)
     else bindA (tryA (within_deadline (ae_instant env) deadline (as_refresh source))) (\<lambda>refreshed.
     case refreshed of
       Ok (Ok result) \<Rightarrow>
         bindA (tryA (as_binding source)) (\<lambda>again.
         case again of
           Ok current \<Rightarrow>
             if bn_commitment current \<noteq> bn_commitment b then retA (stale None)
             else if \<not> eligible result current then retA (stale prior)
             else publish_refresh env key r reserved now (bn_commitment b) result
         | Err CeUnavailable \<Rightarrow> retA (stale prior)
         | Err _ \<Rightarrow> retA (stale None))
     | _ \<Rightarrow> retA (stale prior)))"

definition refresh_or_keep ::
  "('w, 'z) advisory_env_scheme \<Rightarrow> ('w, 'y) advisory_source_scheme \<Rightarrow> string \<Rightarrow> u64 \<Rightarrow> nat \<Rightarrow> binding \<Rightarrow> advisory option
    \<Rightarrow> versioned_object option \<Rightarrow> advisory_record \<Rightarrow> ('w, check_error, decision) act" where
  "refresh_or_keep env source key now deadline b prior found r =
     (case filter_option (\<lambda>s. now - ad_checked_at s < 60 \<and> eligible (ad_result s) b) prior of
        Some snapshot \<Rightarrow> retA \<lparr>de_fresh = True, de_advisory = Some snapshot\<rparr>
      | None \<Rightarrow>
          if (case ar_attempt_at r of Some attempt \<Rightarrow> now < saturating_add64 attempt 60 | None \<Rightarrow> False) then retA (stale prior)
          else let r1 = r\<lparr>ar_attempt_at := Some now\<rparr> in
               bindA (reserve_refresh env key found r1) (\<lambda>reservation.
               case reservation of
                 None \<Rightarrow> retA (stale prior)
               | Some reserved \<Rightarrow> refresh_reserved env source key now deadline b prior r1 reserved))"

definition check_inner ::
  "('w, 'z) advisory_env_scheme \<Rightarrow> ('w, 'y) advisory_source_scheme \<Rightarrow> string \<Rightarrow> u64 \<Rightarrow> nat
    \<Rightarrow> ('w \<times> advisory option, check_error, decision) act" where
  "check_inner env source namespace now deadline =
     (let key = advisory_key env namespace in
      bindA (besides (load_record env key)) (\<lambda>(found, r).
      let retained = filter_option (retainable now) (ar_snapshot r) in
      bindA (set_fallback (ae_instant env) deadline retained) (\<lambda>_.
      bindA (besides (tryA (as_binding source))) (\<lambda>bound.
      case bound of
        Err CeUnavailable \<Rightarrow> retA (stale retained)
      | Err e \<Rightarrow> failA e
      | Ok b \<Rightarrow>
          let prior = filter_option (\<lambda>s. ad_configuration s = bn_commitment b) retained in
          bindA (set_fallback (ae_instant env) deadline prior) (\<lambda>_.
            besides (refresh_or_keep env source key now deadline b prior found r))))))"

definition returned_decision :: "u64 \<Rightarrow> decision \<Rightarrow> decision" where
  "returned_decision returned_at d =
     (let a = filter_option (\<lambda>s. returned_at < ad_expires_at s) (de_advisory d) in
      \<lparr>de_fresh = (de_fresh d \<and> (case a of Some s \<Rightarrow> returned_at - ad_checked_at s < 60 | None \<Rightarrow> False)), de_advisory = a\<rparr>)"

definition advisory_check ::
  "('w, 'z) advisory_env_scheme \<Rightarrow> ('w, 'y) advisory_source_scheme \<Rightarrow> string \<Rightarrow> u64 \<Rightarrow> nat \<Rightarrow> ('w, check_error, decision) act" where
  "advisory_check env source namespace now outer_deadline =
     bindA (getsA (ae_instant env)) (\<lambda>started.
     let deadline = min outer_deadline (started + CACHE_BUDGET) in
     bindA (with_fallback (within_deadline (\<lambda>(w, _). ae_instant env w) deadline
              (check_inner env source namespace now deadline))) (\<lambda>(outcome, retained).
     bindA (liftR (case outcome of Ok result \<Rightarrow> result | Err _ \<Rightarrow> Ok (stale retained))) (\<lambda>d.
     bindA (getsA (ae_instant env)) (\<lambda>instant.
       retA (returned_decision (saturating_add64 now ((instant - started) div NANOS)) d)))))"

section \<open>The chain as source\<close>

record rpc_source =
  rs_registry :: address
  rs_module :: address
  rs_token :: address

text \<open>The reads that the commitment of the configuration covers.\<close>

definition active_incident_call :: "(bytes \<Rightarrow> hash) \<Rightarrow> address \<Rightarrow> call3" where
  "active_incident_call keccak module =
     \<lparr>c3_target = module, c3_allow_failure = False, c3_call_data = take 4 (keccak (text_bytes ''activeIncidentId()''))\<rparr>"

definition binding_reads :: "abi \<Rightarrow> (bytes \<Rightarrow> hash) \<Rightarrow> rpc_source \<Rightarrow> call3 list" where
  "binding_reads abi keccak s =
     [read_call (rs_module s) (registry_of abi) (), read_call (rs_module s) (nextIncidentId abi) (),
      read_call (rs_registry s) (incidentTimingConfig abi) (), read_call (rs_registry s) (incidentOpenPriceConfig abi) (),
      read_call (rs_module s) (getInsuredToken abi) (rs_token s), read_call (rs_module s) (incidentOpenEligibilityHash abi) (rs_token s),
      read_call (rs_registry s) (registry_teePcrHash abi) (), active_incident_call keccak (rs_module s)]"

definition binding_commitment :: "(bytes \<Rightarrow> hash) \<Rightarrow> bytes list \<Rightarrow> string" where
  "binding_commitment keccak reads =
     hex_encode (keccak (text_bytes ''usd8-open-advisory-config-v1'' @ concat (map (\<lambda>r. be_bytes 8 (length r) @ r) reads)))"

definition unavailable :: "('w, chain_error, 'a) act \<Rightarrow> ('w, check_error, 'a) act" where
  "unavailable m = map_errA (\<lambda>_. CeUnavailable) m"

definition decode_or :: "('a, 'r) sol_call \<Rightarrow> bytes \<Rightarrow> ('w, check_error, 'r) act" where
  "decode_or call data = unavailable (liftR (decode_read call data))"

definition binding_heads ::
  "('w, 'z) rpc_scheme \<Rightarrow> abi \<Rightarrow> rpc_source \<Rightarrow> ('w, check_error, block_anchor \<times> block_anchor) act" where
  "binding_heads rpc abi s =
     bindA (guardA (is_zero (rs_registry s) \<or> is_zero (rs_module s) \<or> is_zero (rs_token s)) CeUnavailable) (\<lambda>_.
     bindA (unavailable (chain_id rpc)) (\<lambda>actual.
     bindA (guardA (actual \<noteq> configured_chain_id) CeUnavailable) (\<lambda>_.
     bindA (unavailable (latest_block rpc)) (\<lambda>head.
     bindA (unavailable (finalized_block rpc)) (\<lambda>finalized.
     bindA (guardA (ba_number head = 0 \<or> ba_number finalized = 0 \<or> ba_number finalized > ba_number head) CeUnavailable) (\<lambda>_.
     bindA (unavailable (defi_insurance_at rpc abi (rs_registry s) (Some (ba_number head)))) (\<lambda>module.
     bindA (guardA (module \<noteq> rs_module s) CeUnavailable) (\<lambda>_.
       retA (head, finalized)))))))))"

text \<open>The checks on the decoded reads; the result is the age limit of the reference block.\<close>

definition check_binding_reads :: "abi \<Rightarrow> rpc_source \<Rightarrow> bytes list \<Rightarrow> ('w, check_error, u64) act" where
  "check_binding_reads abi s reads =
     bindA (decode_or (registry_of abi) (reads ! 0)) (\<lambda>reverse_registry.
     bindA (guardA (reverse_registry \<noteq> rs_registry s) CeUnavailable) (\<lambda>_.
     bindA (decode_or (nextIncidentId abi) (reads ! 1)) (\<lambda>next_incident.
     bindA (guardA (next_incident = 0) CeUnavailable) (\<lambda>_.
     bindA (decode_or (incidentTimingConfig abi) (reads ! 2)) (\<lambda>timing.
     bindA (decode_or (incidentOpenPriceConfig abi) (reads ! 3)) (\<lambda>price.
     bindA (decode_or (getInsuredToken abi) (reads ! 4)) (\<lambda>insured.
     bindA (decode_or (incidentOpenEligibilityHash abi) (reads ! 5)) (\<lambda>eligibility.
     bindA (decode_or (registry_teePcrHash abi) (reads ! 6)) (\<lambda>pcr.
     bindA (guardA (tc_max_reference_block_age timing = 0 \<or> op_twap_blocks price = 0 \<or> op_sample_step_blocks price = 0
              \<or> op_minimum_drop_bps price = 0 \<or> op_minimum_drop_bps price \<ge> 10000
              \<or> list_all (\<lambda>b. b = 0) eligibility \<or> list_all (\<lambda>b. b = 0) pcr \<or> length (reads ! 7) \<noteq> 32) CeUnavailable) (\<lambda>_.
     bindA (guardA (it_max_coverage_bps insured = 0) CeUnapproved) (\<lambda>_.
     bindA (guardA (list_ex (\<lambda>b. b \<noteq> 0) (reads ! 7)) CeActive) (\<lambda>_.
       retA (tc_max_reference_block_age timing)))))))))))))"

definition read_binding ::
  "('w, 'z) rpc_scheme \<Rightarrow> abi \<Rightarrow> (bytes \<Rightarrow> hash) \<Rightarrow> rpc_source \<Rightarrow> ('w, check_error, binding) act" where
  "read_binding rpc abi keccak s =
     bindA (binding_heads rpc abi s) (\<lambda>(head, finalized).
     bindA (unavailable (aggregate_reads rpc abi (binding_reads abi keccak s) (ba_number head))) (\<lambda>reads.
     bindA (check_binding_reads abi s reads) (\<lambda>max_age.
     bindA (unavailable (block_by_number rpc (ba_number head))) (\<lambda>again.
     bindA (guardA (again \<noteq> head) CeUnavailable) (\<lambda>_.
       retA \<lparr>bn_commitment = binding_commitment keccak reads, bn_head = ba_number head, bn_finalized = ba_number finalized,
             bn_max_age = max_age\<rparr>)))))"

definition source_binding ::
  "('w, 'z) rpc_scheme \<Rightarrow> abi \<Rightarrow> (bytes \<Rightarrow> hash) \<Rightarrow> rpc_source \<Rightarrow> ('w, check_error, binding) act" where
  "source_binding rpc abi keccak s =
     bindA (within_timeout (rpc_clock_ms rpc) 12000 (read_binding rpc abi keccak s)) (\<lambda>outcome.
     liftR (case outcome of Some r \<Rightarrow> r | None \<Rightarrow> Err CeUnavailable))"

definition source_refresh :: "('w, 'z) rpc_scheme \<Rightarrow> abi \<Rightarrow> rpc_source \<Rightarrow> ('w, check_error, semantic) act" where
  "source_refresh rpc abi s =
     bindA (tryA (precheck_incident_open rpc abi (rs_registry s) (rs_token s))) (\<lambda>outcome.
     liftR (case outcome of
       Ok result \<Rightarrow> if ip_defi_insurance result = address_to_string (rs_module s)
                    then Ok (Qualifying (ip_reference_block result) (ip_observation_block result)) else Err CeUnavailable
     | Err (IoInsufficientPriceDrop _) \<Rightarrow> Ok NoDrop
     | Err IoActiveIncident \<Rightarrow> Err CeActive
     | Err IoUnapprovedToken \<Rightarrow> Err CeUnapproved
     | Err _ \<Rightarrow> Err CeUnavailable))"

definition rpc_advisory_source ::
  "('w, 'z) rpc_scheme \<Rightarrow> abi \<Rightarrow> (bytes \<Rightarrow> hash) \<Rightarrow> rpc_source \<Rightarrow> 'w advisory_source" where
  "rpc_advisory_source rpc abi keccak s = \<lparr>as_binding = source_binding rpc abi keccak s, as_refresh = source_refresh rpc abi s\<rparr>"

end
