(* ===== verification/Job_Lambda.thy ===== *)
theory Job_Lambda
  imports Instance_Scan Open_Advisory "HOL-Library.AList"
begin

text \<open>
  The request handler of the job service (\<^verbatim>\<open>offchain-rust/job-api/src/bin/lambda.rs\<close>): the object store and the launcher
  that the service uses, the admission check of a settlement, the gate of an opening, the routes and the responses.  The
  cloud clients, the clocks, base64 and the JSON texts are parameters; a response is its status and its JSON document.
\<close>

section \<open>The object store\<close>

text \<open>
  An object as it is downloaded: its declared length and a reader that returns at most the given number of bytes.  A failed
  download is a missing key, another answer of the service with its code and message, or a transport failure; a failed
  upload carries the status of the answer, when there is one.
\<close>

datatype s3_error = S3NoSuchKey | S3Service "string option" "string option" | S3Transport

record 'w s3_object =
  s3_e_tag :: "string option"
  s3_content_length :: "int option"
  s3_read :: "nat option \<Rightarrow> ('w, string, bytes) act"

datatype put_condition = IfMatch string | IfNoneMatch string

record 'w s3_client =
  s3_get_object :: "string \<Rightarrow> ('w, s3_error, 'w s3_object) act"
  s3_put_object :: "string \<Rightarrow> put_condition \<Rightarrow> bytes \<Rightarrow> ('w, nat option, unit) act"
  s3_presign_get :: "string \<Rightarrow> u64 \<Rightarrow> ('w, string, string) act"
  s3_presign_put :: "string \<Rightarrow> u64 \<Rightarrow> ('w, string, string) act"

definition MAX_REQUEST_BYTES :: nat where "MAX_REQUEST_BYTES = 4096"
definition CAPABILITY_BOOT_MARGIN_SECONDS :: u64 where "CAPABILITY_BOOT_MARGIN_SECONDS = 900"
definition MAX_S3_PRESIGN_TTL_SECONDS :: u64 where "MAX_S3_PRESIGN_TTL_SECONDS = 604800"
definition SIGNER_OBJECT :: string where "SIGNER_OBJECT = ''secrets/signer.bin''"
definition DRPC_OBJECT :: string where "DRPC_OBJECT = ''secrets/drpc.bin''"
definition PRECHECK_TIMEOUT_SECONDS :: nat where "PRECHECK_TIMEOUT_SECONDS = 24"

definition create_conflict_read_limit :: "string \<Rightarrow> nat" where
  "create_conflict_read_limit key =
     (if starts_with ''settlements/'' key \<or> starts_with ''control/completions/'' key then MAX_RESULT_BYTES else MAX_REQUEST_BYTES)"

definition declared_too_long :: "('w, 'z) s3_object_scheme \<Rightarrow> nat \<Rightarrow> bool" where
  "declared_too_long output max_bytes \<longleftrightarrow>
     (case s3_content_length output of Some n \<Rightarrow> n < 0 \<or> nat n > max_bytes | None \<Rightarrow> False)"

definition s3_get_versioned ::
  "('w, 'z) s3_client_scheme \<Rightarrow> string \<Rightarrow> nat \<Rightarrow> ('w, service_error, versioned_object option) act" where
  "s3_get_versioned s3 key max_bytes =
     bindA (tryA (s3_get_object s3 key)) (\<lambda>answer.
     case answer of
       Err S3NoSuchKey \<Rightarrow> retA None
     | Err _ \<Rightarrow> failA SvRequestReadUnavailable
     | Ok output \<Rightarrow>
         bindA (liftR (ok_or SvInvalidStoredResult (filter_option (\<lambda>tag. tag \<noteq> []) (s3_e_tag output)))) (\<lambda>revision.
         bindA (guardA (declared_too_long output max_bytes) SvInvalidStoredResult) (\<lambda>_.
         bindA (map_errA (\<lambda>_. SvRequestReadUnavailable) (s3_read output (Some (max_bytes + 1)))) (\<lambda>bytes.
         bindA (guardA (length bytes > max_bytes) SvInvalidStoredResult) (\<lambda>_.
           retA (Some \<lparr>vo_bytes = bytes, vo_revision = revision\<rparr>))))))"

definition s3_compare_exchange ::
  "('w, 'z) s3_client_scheme \<Rightarrow> string \<Rightarrow> string option \<Rightarrow> bytes \<Rightarrow> ('w, service_error, bool) act" where
  "s3_compare_exchange s3 key revision value =
     bindA (tryA (s3_put_object s3 key (case revision of Some etag \<Rightarrow> IfMatch etag | None \<Rightarrow> IfNoneMatch ''*'') value)) (\<lambda>answer.
     case answer of
       Ok _ \<Rightarrow> retA True
     | Err status \<Rightarrow> if status = Some 409 \<or> status = Some 412 then retA False else failA SvRequestWriteUnavailable)"

definition s3_denied :: "string option \<Rightarrow> service_error" where
  "s3_denied message =
     (let text = (case message of Some m \<Rightarrow> m | None \<Rightarrow> []) in
      if text \<noteq> [] then SvRequestReadDeniedDetail text
      else if str_contains ''no identity-based policy'' text then SvRequestReadIdentityDenied
      else if str_contains ''explicit deny'' text then SvRequestReadExplicitDenied
      else SvRequestReadDenied)"

definition s3_get :: "('w, 'z) s3_client_scheme \<Rightarrow> string \<Rightarrow> nat \<Rightarrow> ('w, service_error, bytes option) act" where
  "s3_get s3 key max_bytes =
     bindA (tryA (s3_get_object s3 key)) (\<lambda>answer.
     case answer of
       Err S3NoSuchKey \<Rightarrow> retA None
     | Err (S3Service code message) \<Rightarrow>
         if code = Some ''AccessDenied'' then failA (s3_denied message) else failA SvRequestReadUnavailable
     | Err S3Transport \<Rightarrow> failA SvRequestReadUnavailable
     | Ok output \<Rightarrow>
         bindA (guardA (declared_too_long output max_bytes) SvInvalidStoredResult) (\<lambda>_.
         bindA (map_errA (\<lambda>_. SvRequestReadUnavailable) (s3_read output None)) (\<lambda>bytes.
         bindA (guardA (length bytes > max_bytes) SvInvalidStoredResult) (\<lambda>_. retA (Some bytes)))))"

definition s3_create :: "('w, 'z) s3_client_scheme \<Rightarrow> string \<Rightarrow> bytes \<Rightarrow> ('w, service_error, create_outcome) act" where
  "s3_create s3 key value =
     bindA (tryA (s3_put_object s3 key (IfNoneMatch ''*'') value)) (\<lambda>answer.
     case answer of
       Ok _ \<Rightarrow> retA Created
     | Err _ \<Rightarrow> bindA (s3_get s3 key (create_conflict_read_limit key)) (\<lambda>found.
         case found of Some existing \<Rightarrow> retA (Exists existing) | None \<Rightarrow> failA SvRequestWriteUnavailable))"

definition s3_download_url :: "('w, 'z) s3_client_scheme \<Rightarrow> string \<Rightarrow> u64 \<Rightarrow> ('w, service_error, string) act" where
  "s3_download_url s3 key ttl_seconds = map_errA (\<lambda>_. SvUnavailable) (s3_presign_get s3 key ttl_seconds)"

section \<open>The launcher\<close>

record ec2_launcher =
  el_registry :: address
  el_module :: address
  el_image_id :: string
  el_instance_type :: string
  el_instance_profile :: string
  el_subnet_id :: string
  el_security_group_id :: string
  el_launch_template :: string
  el_capability_ttl_seconds :: u64
  el_ec2_ambiguity_seconds :: "u64 option"

text \<open>The clients, the system clock in nanoseconds since the epoch, the monotonic clock, and the library codecs.\<close>

record 'w lambda_env =
  le_ec2 :: "'w ec2_client"
  le_s3 :: "'w s3_client"
  le_system_ns :: "'w \<Rightarrow> int"
  le_instant :: "'w \<Rightarrow> nat"
  le_capabilities :: "worker_capabilities \<Rightarrow> bytes option"
  le_parse_capabilities :: "bytes \<Rightarrow> worker_capabilities option"
  le_base64 :: "string \<Rightarrow> string"
  le_parse_biguint :: "string \<Rightarrow> biguint option"
  le_parse_record :: "bytes \<Rightarrow> advisory_record option"
  le_render_record :: "advisory_record \<Rightarrow> bytes option"

definition system_secs :: "('w, 'z) lambda_env_scheme \<Rightarrow> 'w \<Rightarrow> u64 option" where
  "system_secs env w = (if le_system_ns env w < 0 then None else Some (nat (le_system_ns env w) div NANOS))"

definition capability_ttl_seconds :: "u64 \<Rightarrow> (service_error, u64) result" where
  "capability_ttl_seconds job_ttl_seconds =
     ok_or SvInvalidRequest (filter_option (\<lambda>ttl. ttl \<le> MAX_S3_PRESIGN_TTL_SECONDS)
       (checked_add64 job_ttl_seconds CAPABILITY_BOOT_MARGIN_SECONDS))"

definition presign_get :: "('w, 'z) lambda_env_scheme \<Rightarrow> ec2_launcher \<Rightarrow> string \<Rightarrow> ('w, service_error, string) act" where
  "presign_get env l key = map_errA (\<lambda>_. SvCapabilitiesUnavailable) (s3_presign_get (le_s3 env) key (el_capability_ttl_seconds l))"

definition presign_terminal_put :: "('w, 'z) lambda_env_scheme \<Rightarrow> ec2_launcher \<Rightarrow> string \<Rightarrow> ('w, service_error, string) act" where
  "presign_terminal_put env l key =
     map_errA (\<lambda>_. SvCapabilitiesUnavailable) (s3_presign_put (le_s3 env) key (el_capability_ttl_seconds l))"

definition new_capabilities ::
  "('w, 'z) lambda_env_scheme \<Rightarrow> ec2_launcher \<Rightarrow> string \<Rightarrow> ('w, service_error, worker_capabilities) act" where
  "new_capabilities env l job_id =
     bindA (liftR (map_errR (\<lambda>_. SvInvalidRequest) (job_paths_new job_id))) (\<lambda>paths.
     bindA (presign_get env l (jp_request paths)) (\<lambda>request_url.
     bindA (presign_get env l SIGNER_OBJECT) (\<lambda>signer_url.
     bindA (presign_get env l DRPC_OBJECT) (\<lambda>drpc_url.
     bindA (presign_terminal_put env l (jp_terminal paths)) (\<lambda>terminal_url.
       retA \<lparr>wc_request_get_url = request_url, wc_signer_get_url = signer_url, wc_drpc_get_url = drpc_url,
             wc_terminal_put_url = terminal_url\<rparr>)))))"

definition read_existing_capabilities ::
  "('w, 'z) lambda_env_scheme \<Rightarrow> string \<Rightarrow> ('w, service_error, worker_capabilities) act" where
  "read_existing_capabilities env key =
     bindA (map_errA (\<lambda>_. SvCapabilitiesUnavailable) (s3_get_object (le_s3 env) key)) (\<lambda>output.
     bindA (map_errA (\<lambda>_. SvCapabilitiesUnavailable) (s3_read output None)) (\<lambda>existing.
     bindA (guardA (length existing > 20000) SvInvalidStoredResult) (\<lambda>_.
       liftR (ok_or SvInvalidStoredResult (le_parse_capabilities env existing)))))"

definition capabilities ::
  "('w, 'z) lambda_env_scheme \<Rightarrow> ec2_launcher \<Rightarrow> string \<Rightarrow> ('w, service_error, worker_capabilities) act" where
  "capabilities env l job_id =
     (let key = ''launch/'' @ job_id @ ''.json'' in
      bindA (new_capabilities env l job_id) (\<lambda>fresh.
      bindA (liftR (ok_or SvCapabilitiesUnavailable (le_capabilities env fresh))) (\<lambda>body.
      bindA (tryA (s3_put_object (le_s3 env) key (IfNoneMatch ''*'') body)) (\<lambda>created.
      case created of Ok _ \<Rightarrow> retA fresh | Err _ \<Rightarrow> read_existing_capabilities env key))))"

definition worker_request :: "('w, 'z) lambda_env_scheme \<Rightarrow> ec2_launcher \<Rightarrow> string \<Rightarrow> string \<Rightarrow> run_request" where
  "worker_request env l job_id script =
     \<lparr>rr_image_id = el_image_id l, rr_instance_type = el_instance_type l, rr_count = (1, 1), rr_client_token = job_id,
      rr_shutdown_terminates = True, rr_enclave = True, rr_instance_profile = el_instance_profile l,
      rr_metadata_endpoint = True, rr_metadata_tokens_required = True, rr_metadata_hop_limit = 1, rr_metadata_tags = False,
      rr_network_device = 0, rr_network_public_ip = True, rr_network_delete_on_termination = True, rr_subnet_id = el_subnet_id l,
      rr_security_group = el_security_group_id l, rr_tags = [(''Project'', ''USD8-TEE''), (''JobId'', job_id)],
      rr_user_data = le_base64 env script\<rparr>"

text \<open>The check of the clock before a step that must not start at or after the deadline.\<close>

definition before_deadline :: "('w, 'z) lambda_env_scheme \<Rightarrow> u64 \<Rightarrow> ('w, service_error, unit) act" where
  "before_deadline env deadline =
     bindA (getsA (system_secs env)) (\<lambda>clock.
     bindA (liftR (ok_or SvUnavailable clock)) (\<lambda>now. guardA (now \<ge> deadline) SvLaunchUnavailable))"

definition run_worker :: "('w, 'z) lambda_env_scheme \<Rightarrow> run_request \<Rightarrow> ('w, service_error, unit) act" where
  "run_worker env request =
     bindA (map_errA (\<lambda>message. SvLaunchUnavailableDetail
              (case message of Some m \<Rightarrow> m | None \<Rightarrow> ''EC2 RunInstances transport failure'')) (ec_run (le_ec2 env) request)) (\<lambda>started.
       guardA (length started \<noteq> 1 \<or> hd started = None) SvLaunchUnavailable)"

text \<open>A launch without a deadline is refused.\<close>

definition launcher_launch :: "string \<Rightarrow> ('w, service_error, unit) act" where
  "launcher_launch job_id = failA SvInvalidRequest"

definition launch_before ::
  "('w, 'z) lambda_env_scheme \<Rightarrow> ec2_launcher \<Rightarrow> string \<Rightarrow> u64 \<Rightarrow> ('w, service_error, unit) act" where
  "launch_before env l job_id deadline =
     bindA (before_deadline env deadline) (\<lambda>_.
     bindA (capabilities env l job_id) (\<lambda>c.
     bindA (liftR (user_data (el_launch_template l) job_id c)) (\<lambda>script.
     bindA (before_deadline env deadline) (\<lambda>_.
       run_worker env (worker_request env l job_id script)))))"

section \<open>Admission of a settlement\<close>

definition sv_unavailable :: "('w, chain_error, 'a) act \<Rightarrow> ('w, service_error, 'a) act" where
  "sv_unavailable m = map_errA (\<lambda>_. SvUnavailable) m"

definition preflight_window :: "incident \<Rightarrow> block_anchor \<Rightarrow> block_anchor \<Rightarrow> u64 \<Rightarrow> (service_error, unit) result" where
  "preflight_window inc head opened deadline =
     bindR (ok_or SvUnavailable (filter_option (\<lambda>window. window > 0) (checked_sub64 deadline (ba_timestamp opened)))) (\<lambda>window.
     bindR (ok_or SvUnavailable (checked_add64 deadline window)) (\<lambda>settlement_deadline.
     let unsettled = in_root inc = ''0x'' @ replicate 64 CHR ''0'' in
     failR_if (ba_timestamp head \<le> deadline \<or> (unsettled \<and> ba_timestamp head > settlement_deadline)) SvSettlementNotEligible))"

definition settlement_preflight ::
  "('w, 'z) rpc_scheme \<Rightarrow> abi \<Rightarrow> (string \<Rightarrow> biguint option) \<Rightarrow> address \<Rightarrow> address \<Rightarrow> string \<Rightarrow> ('w, service_error, unit) act" where
  "settlement_preflight rpc abi parse registry module incident_id =
     bindA (sv_unavailable (chain_id rpc)) (\<lambda>actual.
     bindA (guardA (actual \<noteq> configured_chain_id) SvUnavailable) (\<lambda>_.
     bindA (sv_unavailable (finalized_block rpc)) (\<lambda>head.
     bindA (sv_unavailable (defi_insurance_at rpc abi registry (Some (ba_number head)))) (\<lambda>found.
     bindA (guardA (found \<noteq> module) SvUnavailable) (\<lambda>_.
     bindA (liftR (ok_or SvInvalidRequest (parse incident_id))) (\<lambda>i.
     bindA (sv_unavailable (incident_at rpc abi module i (Some (ba_number head)))) (\<lambda>inc.
     bindA (guardA (is_zero (in_insured_token inc)) SvNotFound) (\<lambda>_.
     bindA (guardA (in_open_block inc > ba_number head \<or> in_reference_block inc > ba_number head) SvUnavailable) (\<lambda>_.
     bindA (sv_unavailable (block_by_number rpc (in_open_block inc))) (\<lambda>opened.
     bindA (sv_unavailable (incident_claim_deadline_at rpc abi module i (in_open_block inc))) (\<lambda>deadline.
     bindA (liftR (preflight_window inc head opened deadline)) (\<lambda>_.
     bindA (sv_unavailable (block_by_number rpc (ba_number head))) (\<lambda>head2.
     bindA (guardA (head2 \<noteq> head) SvUnavailable) (\<lambda>_.
     bindA (sv_unavailable (block_by_number rpc (ba_number opened))) (\<lambda>opened2.
       guardA (opened2 \<noteq> opened) SvUnavailable)))))))))))))))"

definition launcher_precheck ::
  "('w, 'y) rpc_scheme \<Rightarrow> abi \<Rightarrow> ('w, 'z) lambda_env_scheme \<Rightarrow> ec2_launcher \<Rightarrow> canonical_request \<Rightarrow> ('w, service_error, unit) act" where
  "launcher_precheck rpc abi env l request =
     (case request of
        RequestOpen _ \<Rightarrow> retA ()
      | RequestSettlement r \<Rightarrow>
          bindA (liftR (ok_or SvInvalidRequest (address_from_str (csr_registry r)))) (\<lambda>registry.
          bindA (guardA (registry \<noteq> el_registry l) SvInvalidRequest) (\<lambda>_.
          bindA (within_timeout (rpc_clock_ms rpc) (PRECHECK_TIMEOUT_SECONDS * 1000)
                   (settlement_preflight rpc abi (le_parse_biguint env) (el_registry l) (el_module l) (csr_incident_id r))) (\<lambda>outcome.
            liftR (case outcome of Some r \<Rightarrow> r | None \<Rightarrow> Err SvUnavailable)))))"

text \<open>The service's environment: the object store, the launcher, the completion verifier and the system clock.\<close>

definition service_env ::
  "('w, 'y) rpc_scheme \<Rightarrow> abi \<Rightarrow> ('w, 'z) lambda_env_scheme \<Rightarrow> ec2_launcher
    \<Rightarrow> (canonical_request \<Rightarrow> terminal_envelope \<Rightarrow> ('w, service_error, unit) act) \<Rightarrow> 'w job_env" where
  "service_env rpc abi env l verify =
     \<lparr>je_get_versioned = s3_get_versioned (le_s3 env), je_compare_exchange = s3_compare_exchange (le_s3 env),
      je_create = s3_create (le_s3 env), je_get = s3_get (le_s3 env), je_download_url = s3_download_url (le_s3 env),
      je_precheck = launcher_precheck rpc abi env l,
      je_can_release = reconcile_reservation (le_ec2 env) (el_ec2_ambiguity_seconds l),
      je_launch_before = launch_before env l, je_verify = Some verify,
      je_clock = getsA (\<lambda>w. case system_secs env w of Some t \<Rightarrow> t | None \<Rightarrow> 0), je_system_time = getsA (system_secs env)\<rparr>"

section \<open>The gate of an opening\<close>

datatype open_precheck_error = OpInvalidRequest | OpIncident incident_open_error | OpUnavailable

record open_prechecker =
  oc_registry :: address
  oc_configured_registry :: string
  oc_module :: address

definition advisory_env_of :: "('w, 'z) lambda_env_scheme \<Rightarrow> ('x) job_codec_scheme \<Rightarrow> 'w advisory_env" where
  "advisory_env_of env jc =
     \<lparr>ae_get_versioned = s3_get_versioned (le_s3 env), ae_compare_exchange = s3_compare_exchange (le_s3 env),
      ae_instant = le_instant env, ae_parse_record = le_parse_record env, ae_render_record = le_render_record env,
      ae_sha256 = jc_sha256 jc\<rparr>"

definition open_namespace :: "open_prechecker \<Rightarrow> address \<Rightarrow> string" where
  "open_namespace p token = show_nat configured_chain_id @ '':'' @ address_to_string (oc_registry p) @ '':''
     @ address_to_string (oc_module p) @ '':'' @ address_to_string token"

definition precheck_error_of :: "check_error \<Rightarrow> open_precheck_error" where
  "precheck_error_of e = (case e of
     CeActive \<Rightarrow> OpIncident IoActiveIncident | CeUnapproved \<Rightarrow> OpIncident IoUnapprovedToken | CeUnavailable \<Rightarrow> OpUnavailable)"

definition prechecker_source :: "open_prechecker \<Rightarrow> address \<Rightarrow> rpc_source" where
  "prechecker_source p token = \<lparr>rs_registry = oc_registry p, rs_module = oc_module p, rs_token = token\<rparr>"

definition prechecker_check ::
  "('w, 'y) rpc_scheme \<Rightarrow> abi \<Rightarrow> (bytes \<Rightarrow> hash) \<Rightarrow> ('w, 'z) lambda_env_scheme \<Rightarrow> ('x) job_codec_scheme \<Rightarrow> open_prechecker \<Rightarrow> bytes \<Rightarrow> nat
    \<Rightarrow> ('w, open_precheck_error, string \<times> decision) act" where
  "prechecker_check rpc abi keccak env jc p body deadline =
     bindA (liftR (map_errR (\<lambda>_. OpInvalidRequest) (canonicalize_open_request jc body (oc_configured_registry p)))) (\<lambda>request.
     case request of
       RequestSettlement _ \<Rightarrow> failA OpInvalidRequest
     | RequestOpen r \<Rightarrow>
         bindA (liftR (ok_or OpInvalidRequest (address_from_str (cor_insured_token r)))) (\<lambda>token.
         bindA (getsA (system_secs env)) (\<lambda>clock.
         bindA (liftR (ok_or OpUnavailable clock)) (\<lambda>now.
         bindA (map_errA precheck_error_of (advisory_check (advisory_env_of env jc)
                  (rpc_advisory_source rpc abi keccak (prechecker_source p token)) (open_namespace p token) now deadline)) (\<lambda>d.
           retA (cor_insured_token r, d))))))"

definition open_job_key :: "string \<Rightarrow> u64 \<Rightarrow> string" where
  "open_job_key insured_token reference_block = ''open:'' @ insured_token @ '':'' @ show_nat reference_block"

section \<open>Responses\<close>

definition json_response :: "nat \<Rightarrow> json \<Rightarrow> http_response" where
  "json_response status value = \<lparr>hr_status = status, hr_body = value\<rparr>"

definition error_response :: "service_error \<Rightarrow> http_response" where
  "error_response e = (case e of
     SvRequestReadDeniedDetail _ \<Rightarrow> json_response 503 (error_code ''REQUEST_READ_DENIED'')
   | SvLaunchUnavailableDetail _ \<Rightarrow> json_response 503 (error_code ''WORKER_LAUNCH_UNAVAILABLE'')
   | SvInvalidRequest \<Rightarrow> json_response 400 (error_code ''INVALID_REQUEST'')
   | SvNotFound \<Rightarrow> json_response 404 (error_code ''NOT_FOUND'')
   | SvAdmissionLimited \<Rightarrow> json_response 429 (JObj [(''error'', JStr ''WORKER_BUDGET_EXHAUSTED''),
       (''message'', JStr ''Worker launch capacity is currently full. Please retry.''), (''retryable'', JBool True)])
   | SvSettlementNotEligible \<Rightarrow> json_response 422 (error_code ''SETTLEMENT_NOT_ELIGIBLE'')
   | SvUnavailable \<Rightarrow> json_response 503 (error_code ''UNAVAILABLE'')
   | SvRequestWriteUnavailable \<Rightarrow> json_response 503 (error_code ''REQUEST_WRITE_UNAVAILABLE'')
   | SvRequestReadUnavailable \<Rightarrow> json_response 503 (error_code ''REQUEST_READ_UNAVAILABLE'')
   | SvRequestReadDenied \<Rightarrow> json_response 503 (error_code ''REQUEST_READ_DENIED'')
   | SvRequestReadIdentityDenied \<Rightarrow> json_response 503 (error_code ''REQUEST_READ_IDENTITY_DENIED'')
   | SvRequestReadExplicitDenied \<Rightarrow> json_response 503 (error_code ''REQUEST_READ_EXPLICIT_DENIED'')
   | SvCapabilitiesUnavailable \<Rightarrow> json_response 503 (error_code ''CAPABILITIES_UNAVAILABLE'')
   | SvLaunchUnavailable \<Rightarrow> json_response 503 (error_code ''WORKER_LAUNCH_UNAVAILABLE'')
   | SvInvalidStoredResult \<Rightarrow> json_response 500 (error_code ''INVALID_JOB_STATE''))"

definition precheck_error_response :: "open_precheck_error \<Rightarrow> http_response" where
  "precheck_error_response e = (case e of
     OpInvalidRequest \<Rightarrow> json_response 400 (error_code ''INVALID_REQUEST'')
   | OpIncident (IoInsufficientPriceDrop _) \<Rightarrow> json_response 422 (error_code ''PRICE_DROP_NOT_DETECTED'')
   | OpIncident IoActiveIncident \<Rightarrow> json_response 409 (error_code ''INCIDENT_ALREADY_ACTIVE'')
   | OpIncident IoUnapprovedToken \<Rightarrow> json_response 400 (error_code ''UNAPPROVED_TOKEN'')
   | _ \<Rightarrow> json_response 503 (error_code ''PRICE_PRECHECK_UNAVAILABLE''))"

definition advisory_rejection :: "decision \<Rightarrow> (nat \<times> string) option" where
  "advisory_rejection d =
     (case (de_fresh d, map_option ad_result (de_advisory d)) of
        (True, Some (Qualifying _ _)) \<Rightarrow> None
      | (True, Some NoDrop) \<Rightarrow> Some (422, ''PRICE_DROP_NOT_DETECTED'')
      | _ \<Rightarrow> Some (503, ''PRICE_PRECHECK_UNAVAILABLE''))"

text \<open>The texts of the outcomes as serde derives them.\<close>

definition json_of_semantic :: "semantic \<Rightarrow> json" where
  "json_of_semantic s = (case s of
     NoDrop \<Rightarrow> JObj [(''outcome'', JStr ''noDrop'')]
   | Qualifying reference_block observation_block \<Rightarrow> JObj [(''outcome'', JStr ''qualifying''),
       (''referenceBlock'', JInt (int reference_block)), (''observationBlock'', JInt (int observation_block))])"

definition json_of_advisory :: "advisory \<Rightarrow> json" where
  "json_of_advisory a = JObj [(''checkedAt'', JInt (int (ad_checked_at a))), (''expiresAt'', JInt (int (ad_expires_at a))),
     (''configuration'', JStr (ad_configuration a)), (''result'', json_of_semantic (ad_result a))]"

definition json_of_submit :: "submit_outcome \<Rightarrow> json" where
  "json_of_submit s = JObj [(''accepted'', JBool (so_accepted s)), (''jobId'', JStr (so_job_id s))]"

definition json_of_download :: "result_download \<Rightarrow> json" where
  "json_of_download d = JObj [(''url'', JStr (rd_url d)), (''sha256'', JStr (rd_sha256 d)), (''bytes'', JInt (int (rd_bytes d))),
     (''expiresInSeconds'', JInt (int (rd_expires_in_seconds d)))]"

definition json_of_poll :: "poll_outcome \<Rightarrow> json" where
  "json_of_poll p = JObj ([(''jobId'', JStr (pl_job_id p)), (''status'', JStr (pl_status p)), (''apiVerified'', JBool (pl_api_verified p))]
     @ (case pl_payload p of Some v \<Rightarrow> [(''payload'', v)] | None \<Rightarrow> [])
     @ (case pl_download p of Some d \<Rightarrow> [(''download'', json_of_download d)] | None \<Rightarrow> []))"

definition open_advisory_json :: "open_prechecker \<Rightarrow> string \<Rightarrow> decision \<Rightarrow> json" where
  "open_advisory_json p token d = JObj [(''schemaVersion'', JInt 1), (''chainId'', JInt (int configured_chain_id)),
     (''registry'', JStr (address_to_string (oc_registry p))), (''defiInsurance'', JStr (address_to_string (oc_module p))),
     (''insuredToken'', JStr token), (''stale'', JBool (\<not> de_fresh d)), (''displayOnly'', JBool True),
     (''snapshot'', case de_advisory d of Some a \<Rightarrow> json_of_advisory a | None \<Rightarrow> JNull)]"

text \<open>\<^verbatim>\<open>value["advisory"] = advisory\<close> on an object.\<close>

fun json_insert :: "string \<Rightarrow> json \<Rightarrow> json \<Rightarrow> json" where
  "json_insert k v (JObj kvs) = JObj (AList.update k v kvs)"
| "json_insert k v other = other"

section \<open>Routes\<close>

definition parse_settlement_route :: "string \<Rightarrow> (service_error, settlement_locator) result" where
  "parse_settlement_route path =
     bindR (ok_or SvInvalidRequest (strip_prefix ''/settlements/'' path)) (\<lambda>tail.
     case split_on CHR ''/'' tail of
       [chain, registry, defi_insurance, incident_id, root] \<Rightarrow>
         bindR (ok_or SvInvalidRequest (u64_from_str chain)) (\<lambda>i.
           map_errR (\<lambda>_. SvInvalidRequest) (settlement_locator_new i registry defi_insurance incident_id root))
     | _ \<Rightarrow> Err SvInvalidRequest)"

text \<open>A request: the idempotency key is the header's text, when it is present and visible ASCII.\<close>

record http_request =
  hq_method :: string
  hq_path :: string
  hq_idempotency_key :: "string option"
  hq_body :: bytes

text \<open>The service: its environment, codec, configuration and policy, with the prechecker and the provider of the advisory.\<close>

record 'w lambda_app =
  la_service :: "'w job_env"
  la_env :: "'w lambda_env"
  la_codec :: job_codec
  la_config :: app_config
  la_policy :: admission_policy
  la_prechecker :: open_prechecker
  la_rpc :: "'w rpc"
  la_abi :: abi
  la_keccak :: "bytes \<Rightarrow> hash"

definition respond :: "('a \<Rightarrow> json) \<Rightarrow> nat \<Rightarrow> (service_error, 'a) result \<Rightarrow> http_response" where
  "respond to_json status r = (case r of Ok v \<Rightarrow> json_response status (to_json v) | Err e \<Rightarrow> error_response e)"

text \<open>The submission of an opening under what is left of the advisory's minute.\<close>

definition submit_qualified ::
  "('w, 'z) lambda_app_scheme \<Rightarrow> bytes \<Rightarrow> nat \<Rightarrow> string \<Rightarrow> json \<Rightarrow> u64 \<Rightarrow> u64 \<Rightarrow> ('w, 'e, http_response) act" where
  "submit_qualified app body deadline token advisory checked_at reference_block =
     bindA (getsA (le_instant (la_env app))) (\<lambda>submit_started.
     bindA (getsA (le_system_ns (la_env app))) (\<lambda>system_now.
     let fresh_until = int (saturating_add64 checked_at 60 * NANOS) in
     if fresh_until < system_now then retA (precheck_error_response OpUnavailable)
     else let submit_deadline = min deadline (submit_started + nat (fresh_until - system_now)) in
     bindA (tryA (within_deadline (le_instant (la_env app)) submit_deadline
              (submit_open (la_service app) (la_codec app) (la_config app) (la_policy app)
                 (open_job_key token reference_block) body))) (\<lambda>submitted.
     retA (case (case submitted of Ok r \<Rightarrow> r | Err _ \<Rightarrow> Err SvUnavailable) of
         Ok value \<Rightarrow> json_response 202 (json_insert ''advisory'' advisory (json_of_submit value))
       | Err e \<Rightarrow> let response = error_response e in response\<lparr>hr_body := json_insert ''advisory'' advisory (hr_body response)\<rparr>))))"

definition handle_open :: "('w, 'z) lambda_app_scheme \<Rightarrow> bytes \<Rightarrow> nat \<Rightarrow> ('w, 'e, http_response) act" where
  "handle_open app body deadline =
     bindA (tryA (prechecker_check (la_rpc app) (la_abi app) (la_keccak app) (la_env app) (la_codec app) (la_prechecker app) body
              (deadline - 4 * NANOS))) (\<lambda>outcome.
     case outcome of
       Err e \<Rightarrow> retA (precheck_error_response e)
     | Ok (token, d) \<Rightarrow>
         let advisory = open_advisory_json (la_prechecker app) token d in
         case advisory_rejection d of
           Some (status, code) \<Rightarrow>
             retA (json_response status (JObj [(''error'', JStr code), (''advisory'', advisory), (''retryAfterSeconds'', JInt 60)]))
         | None \<Rightarrow>
             (case de_advisory d of
                Some a \<Rightarrow>
                  (case ad_result a of
                     Qualifying reference_block _ \<Rightarrow>
                       submit_qualified app body deadline token advisory (ad_checked_at a) reference_block
                   | NoDrop \<Rightarrow> retA (precheck_error_response OpUnavailable))
              | None \<Rightarrow> retA (precheck_error_response OpUnavailable)))"

definition handle_post :: "('w, 'z) lambda_app_scheme \<Rightarrow> http_request \<Rightarrow> nat \<Rightarrow> ('w, 'e, http_response) act" where
  "handle_post app request deadline =
     (case hq_idempotency_key request of
        None \<Rightarrow> retA (error_response SvInvalidRequest)
      | Some key \<Rightarrow>
          if length (hq_body request) > MAX_REQUEST_BYTES then retA (error_response SvInvalidRequest)
          else if hq_path request = ''/jobs/open'' then handle_open app (hq_body request) deadline
          else bindA (tryA (submit (la_service app) (la_codec app) (la_config app) (la_policy app) key (hq_body request))) (\<lambda>r.
               retA (respond json_of_submit 202 r)))"

definition handle_get :: "('w, 'z) lambda_app_scheme \<Rightarrow> string \<Rightarrow> ('w, 'e, http_response) act" where
  "handle_get app path =
     (if starts_with ''/settlements/'' path
      then case parse_settlement_route path of
             Err e \<Rightarrow> retA (error_response e)
           | Ok l \<Rightarrow> bindA (tryA (settlement_lookup (la_service app) (la_codec app) (la_config app) (sl_chain_id l) (sl_registry l)
                      (sl_defi_insurance l) (sl_incident_id l) (sl_root l))) (\<lambda>r. retA (respond json_of_poll 200 r))
      else case filter_option (\<lambda>job_id. CHR ''/'' \<notin> set job_id) (strip_prefix ''/jobs/'' path) of
             None \<Rightarrow> retA (error_response SvInvalidRequest)
           | Some job_id \<Rightarrow> bindA (tryA (poll (la_service app) (la_codec app) (la_config app) job_id)) (\<lambda>r.
               retA (respond json_of_poll 200 r)))"

definition handle_inner :: "('w, 'z) lambda_app_scheme \<Rightarrow> http_request \<Rightarrow> nat \<Rightarrow> ('w, 'e, http_response) act" where
  "handle_inner app request deadline =
     (if hq_method request = ''POST'' \<and> hq_path request \<in> {''/jobs'', ''/jobs/settlement'', ''/jobs/open''}
      then handle_post app request deadline
      else if hq_method request = ''GET'' then handle_get app (hq_path request)
      else retA (json_response 404 (error_code ''NOT_FOUND'')))"

definition handle :: "('w, 'z) lambda_app_scheme \<Rightarrow> http_request \<Rightarrow> ('w, 'e, http_response) act" where
  "handle app request =
     bindA (getsA (le_instant (la_env app))) (\<lambda>instant.
     let deadline = instant + 28 * NANOS in
     if hq_method request = ''POST'' \<and> hq_path request = ''/jobs/open''
     then bindA (tryA (within_deadline (le_instant (la_env app)) deadline
              (handle_inner app request deadline :: ('w, unit, http_response) act))) (\<lambda>outcome.
          retA (case outcome of Ok (Ok response) \<Rightarrow> response | _ \<Rightarrow> precheck_error_response OpUnavailable))
     else handle_inner app request deadline)"

end
