(* ===== verification/Lambda_Claims.thy ===== *)
theory Lambda_Claims
  imports Job_Lambda
begin

text \<open>
  Safety of the request handler: what a fresh advisory rests on, that an opening is submitted only under one, that a worker
  is launched only before its deadline, and that a reservation is released only after every launch of its job is over.
\<close>

section \<open>Deadlines and the fallback\<close>

lemma within_deadline_Ok:
  "within_deadline clock dl m w = (Ok r, w') \<longleftrightarrow> clock w < dl \<and> m w = (r, w') \<and> clock w' < dl"
  by (auto simp: within_deadline_def prod_eq_iff)

lemma within_timeout_Ok:
  "within_timeout clock limit m w = (Ok (Some r), w') \<longleftrightarrow> m w = (r, w') \<and> clock w' - clock w \<le> limit"
  by (auto simp: within_timeout_def prod_eq_iff)

lemma besides_apply: "besides m p = (r, q) \<longleftrightarrow> m (fst p) = (r, fst q) \<and> snd q = snd p"
  by (auto simp: besides_def split: prod.splits)

lemma set_fallback_apply: "set_fallback clock dl v p = (Ok (), fst p, if clock (fst p) < dl then v else snd p)"
  by (simp add: set_fallback_def split: prod.split)

lemma tryA_Ok: "tryA m w = (Ok r, w') \<longleftrightarrow> m w = (r, w')"
  by (auto simp: prod_eq_iff)

section \<open>Fresh advisories\<close>

text \<open>Where a fresh advisory comes from: a stored record, or a price check of this very invocation.\<close>

definition advisory_cached :: "('w, 'z) advisory_env_scheme \<Rightarrow> string \<Rightarrow> advisory \<Rightarrow> bool" where
  "advisory_cached env key a \<longleftrightarrow> (\<exists>v r. observed (ae_get_versioned env key 16384) (Some v)
     \<and> ae_parse_record env (vo_bytes v) = Some r \<and> ar_snapshot r = Some a)"

definition advisory_sound ::
  "('w, 'z) advisory_env_scheme \<Rightarrow> ('w, 'y) advisory_source_scheme \<Rightarrow> string \<Rightarrow> u64 \<Rightarrow> advisory \<Rightarrow> bool" where
  "advisory_sound env source key now a \<longleftrightarrow>
     (\<exists>b. observed (as_binding source) b \<and> ad_configuration a = bn_commitment b \<and> eligible (ad_result a) b)
     \<and> ad_checked_at a \<le> now \<and> ad_expires_at a = saturating_add64 (ad_checked_at a) 3600
     \<and> (advisory_cached env key a \<or> ad_checked_at a = now \<and> observed (as_refresh source) (ad_result a))"

lemma publish_refresh_Ok:
  assumes "publish_refresh env key r reserved now configuration result w = (Ok d, w')"
  shows "d = \<lparr>de_fresh = True, de_advisory = Some \<lparr>ad_checked_at = now, ad_expires_at = saturating_add64 now 3600,
    ad_configuration = configuration, ad_result = result\<rparr>\<rparr>"
  using assms by (auto simp: publish_refresh_def Let_def saturating_add64_def split: if_splits)

lemma refresh_reserved_fresh:
  assumes "refresh_reserved env source key now dl b prior r reserved w = (Ok d, w')" "de_fresh d"
  shows "\<exists>a. de_advisory d = Some a \<and> advisory_sound env source key now a"
proof -
  from assms obtain result current w1 w2 w3 where refreshed: "observed (as_refresh source) result"
    and again: "observed (as_binding source) current" "bn_commitment current = bn_commitment b" "eligible result current"
    and publish: "publish_refresh env key r reserved now (bn_commitment b) result w3 = (Ok d, w')"
    by (auto simp: refresh_reserved_def within_deadline_def act_Ok observed_def prod_eq_iff
        split: if_splits sum.splits check_error.splits)
  with publish_refresh_Ok [OF publish] show ?thesis unfolding advisory_sound_def by auto
qed

lemma refresh_or_keep_fresh:
  assumes "refresh_or_keep env source key now dl b prior found r w = (Ok d, w')" "de_fresh d"
    "observed (as_binding source) b"
    "\<And>a. prior = Some a \<Longrightarrow> retainable now a \<and> ad_configuration a = bn_commitment b \<and> advisory_cached env key a"
  shows "\<exists>a. de_advisory d = Some a \<and> advisory_sound env source key now a"
proof (cases "filter_option (\<lambda>s. now - ad_checked_at s < 60 \<and> eligible (ad_result s) b) prior")
  case None
  with assms(1,2) obtain reserved w1 where
    "refresh_reserved env source key now dl b prior (r\<lparr>ar_attempt_at := Some now\<rparr>) reserved w1 = (Ok d, w')"
    by (auto simp: refresh_or_keep_def Let_def split: if_splits option.splits)
  from refresh_reserved_fresh [OF this assms(2)] show ?thesis .
next
  case (Some a)
  with assms(1) have "d = \<lparr>de_fresh = True, de_advisory = Some a\<rparr>" by (simp add: refresh_or_keep_def)
  moreover from Some have "prior = Some a" "eligible (ad_result a) b" by simp_all
  ultimately show ?thesis using assms(3) assms(4) [of a] by (auto simp: advisory_sound_def retainable_def)
qed

lemma load_record_cached:
  assumes "load_record env key w = (Ok (found, r), w')" "ar_snapshot r = Some a"
  shows "advisory_cached env key a"
proof -
  from assms obtain v where "ae_get_versioned env key 16384 w = (Ok (Some v), w')" "ae_parse_record env (vo_bytes v) = Some r"
    by (auto simp: load_record_def empty_record_def act_Ok split: option.splits)
  with assms(2) show ?thesis unfolding advisory_cached_def by (blast intro: observedI)
qed

lemma check_inner_fresh:
  assumes "check_inner env source namespace now dl (w, s) = (Ok d, w', s')" "de_fresh d"
  shows "\<exists>a. de_advisory d = Some a \<and> advisory_sound env source (advisory_key env namespace) now a"
proof -
  let ?key = "advisory_key env namespace"
  from assms obtain found r w1 w2 b w3 where load: "load_record env ?key w = (Ok (found, r), w1)"
    and bound: "as_binding source w2 = (Ok b, w3)"
    and keep: "refresh_or_keep env source ?key now dl b
      (filter_option (\<lambda>s. ad_configuration s = bn_commitment b) (filter_option (retainable now) (ar_snapshot r))) found r w3 = (Ok d, w')"
    by (auto simp: check_inner_def Let_def besides_apply set_fallback_apply tryA_Ok simp del: tryA_apply
        split: prod.splits sum.splits check_error.splits)
  from bound have "observed (as_binding source) b" by (rule observedI)
  from refresh_or_keep_fresh [OF keep assms(2) this] load_record_cached [OF load] show ?thesis by simp
qed

text \<open>
  A fresh decision of the check is sound, under a minute old when it is returned, and was reached within the budget.
\<close>

lemma advisory_check_fresh:
  assumes "advisory_check env source namespace now outer w = (Ok d, w')" "de_fresh d"
  obtains a where "de_advisory d = Some a" "advisory_sound env source (advisory_key env namespace) now a"
    "saturating_add64 now ((ae_instant env w' - ae_instant env w) div NANOS) - ad_checked_at a < 60"
    "ae_instant env w' < min outer (ae_instant env w + CACHE_BUDGET)"
proof -
  let ?dl = "min outer (ae_instant env w + CACHE_BUDGET)"
  let ?at = "saturating_add64 now ((ae_instant env w' - ae_instant env w) div NANOS)"
  from assms obtain d0 s where inner: "check_inner env source namespace now ?dl (w, None) = (Ok d0, w', s)"
    and time: "ae_instant env w' < ?dl" and d: "d = returned_decision ?at d0" and fresh: "de_fresh d0"
    by (auto simp: advisory_check_def Let_def with_fallback_def within_deadline_Ok returned_decision_def
        split: prod.splits sum.splits)
  from check_inner_fresh [OF inner fresh] obtain a where a: "de_advisory d0 = Some a"
    "advisory_sound env source (advisory_key env namespace) now a" by blast
  show ?thesis
    by (rule that [of a]) (use a d time assms(2) in \<open>auto simp: returned_decision_def Let_def filter_option_def split: if_splits\<close>)
qed

section \<open>The gate of an opening\<close>

text \<open>What the configuration read at the head says when it is bound.\<close>

definition binding_justified :: "('w, 'z) rpc_scheme \<Rightarrow> abi \<Rightarrow> (bytes \<Rightarrow> hash) \<Rightarrow> rpc_source \<Rightarrow> binding \<Rightarrow> bool" where
  "binding_justified rpc abi keccak s b \<longleftrightarrow>
     (\<exists>reads insured. observed (aggregate_reads rpc abi (binding_reads abi keccak s) (bn_head b)) reads
        \<and> observed (defi_insurance_at rpc abi (rs_registry s) (Some (bn_head b))) (rs_module s)
        \<and> bn_commitment b = binding_commitment keccak reads
        \<and> decode_read (registry_of abi) (reads ! 0) = Ok (rs_registry s)
        \<and> decode_read (getInsuredToken abi) (reads ! 4) = Ok insured \<and> it_max_coverage_bps insured \<noteq> 0
        \<and> reads ! 7 = replicate 32 0)"

lemma all_zero_word: "length ws = n \<Longrightarrow> \<not> list_ex (\<lambda>b. b \<noteq> 0) ws \<Longrightarrow> ws = replicate n (0 :: 8 word)"
  by (rule nth_equalityI) (auto simp: list_ex_iff)

lemma unavailable_Ok [simp]: "unavailable m w = (Ok x, w') \<longleftrightarrow> m w = (Ok x, w')"
  by (simp add: unavailable_def)

lemma decode_or_Ok: "decode_or call data w = (Ok x, w') \<longleftrightarrow> decode_read call data = Ok x \<and> w' = w"
  by (auto simp: decode_or_def)

lemma check_binding_reads_Ok:
  assumes "check_binding_reads abi s reads w = (Ok age, w')"
  shows "\<exists>insured. decode_read (registry_of abi) (reads ! 0) = Ok (rs_registry s)
    \<and> decode_read (getInsuredToken abi) (reads ! 4) = Ok insured \<and> it_max_coverage_bps insured \<noteq> 0 \<and> reads ! 7 = replicate 32 0"
  using assms all_zero_word [of "reads ! 7" 32]
  by (auto simp: check_binding_reads_def decode_or_Ok split: if_splits)

lemma binding_heads_Ok:
  assumes "binding_heads rpc abi s w = (Ok (head, finalized), w')"
  shows "observed (defi_insurance_at rpc abi (rs_registry s) (Some (ba_number head))) (rs_module s)"
proof -
  from assms obtain w1 w2 where "defi_insurance_at rpc abi (rs_registry s) (Some (ba_number head)) w1 = (Ok (rs_module s), w2)"
    by (auto simp: binding_heads_def split: if_splits)
  then show ?thesis by (rule observedI)
qed

lemma source_binding_justified:
  assumes "observed (source_binding rpc abi keccak s) b"
  shows "binding_justified rpc abi keccak s b"
proof -
  from assms obtain w w' where read: "read_binding rpc abi keccak s w = (Ok b, w')"
    by (auto simp: observed_def source_binding_def within_timeout_Ok act_Ok split: option.splits)
  then obtain head finalized reads age w1 w2 w3 where heads: "binding_heads rpc abi s w = (Ok (head, finalized), w1)"
    and reads: "aggregate_reads rpc abi (binding_reads abi keccak s) (ba_number head) w1 = (Ok reads, w2)"
    and check: "check_binding_reads abi s reads w2 = (Ok age, w3)"
    and b: "bn_commitment b = binding_commitment keccak reads" "bn_head b = ba_number head"
    by (auto simp: read_binding_def split: if_splits prod.splits)
  from reads have "observed (aggregate_reads rpc abi (binding_reads abi keccak s) (ba_number head)) reads" by (rule observedI)
  with check_binding_reads_Ok [OF check] binding_heads_Ok [OF heads] show ?thesis unfolding binding_justified_def b by blast
qed

lemma prechecker_check_Ok:
  assumes "prechecker_check rpc abi keccak env jc p body dl w = (Ok (label, d), w')"
  obtains token r now where "canonicalize_open_request jc body (oc_configured_registry p) = Ok (RequestOpen r)"
    "label = cor_insured_token r" "address_from_str label = Some token" "system_secs env w = Some now"
    "advisory_check (advisory_env_of env jc) (rpc_advisory_source rpc abi keccak (prechecker_source p token))
       (open_namespace p token) now dl w = (Ok d, w')"
  using assms by (auto simp: prechecker_check_def act_Ok split: canonical_request.splits)

lemma advisory_rejection_None:
  "advisory_rejection d = None \<longleftrightarrow>
     de_fresh d \<and> (\<exists>a r b. de_advisory d = Some a \<and> ad_result a = Qualifying r b)"
  by (auto simp: advisory_rejection_def split: bool.splits option.splits semantic.splits)

lemma error_statuses: "hr_status (error_response e) \<noteq> 202" "hr_status (precheck_error_response p) \<noteq> 202"
  by (cases e; simp add: error_response_def json_response_def)
    (auto simp: precheck_error_response_def json_response_def split: open_precheck_error.splits incident_open_error.splits)

lemma submit_qualified_accepted:
  assumes "submit_qualified app body dl label advisory checked reference w = ((Ok resp :: (unit, http_response) result), w')" "hr_status resp = 202"
  obtains out where "submit_open (la_service app) (la_codec app) (la_config app) (la_policy app) (open_job_key label reference) body w = (Ok out, w')"
    "le_system_ns (la_env app) w \<le> int (saturating_add64 checked 60 * NANOS)" "le_instant (la_env app) w' < dl"
proof -
  let ?until = "int (saturating_add64 checked 60 * NANOS)"
  let ?submit = "submit_open (la_service app) (la_codec app) (la_config app) (la_policy app) (open_job_key label reference) body"
  let ?dl = "min dl (le_instant (la_env app) w + nat (?until - le_system_ns (la_env app) w))"
  have late: "\<not> ?until < le_system_ns (la_env app) w" using assms by (auto simp: submit_qualified_def error_statuses)
  then obtain submitted where run: "within_deadline (le_instant (la_env app)) ?dl ?submit w = (submitted, w')"
    and resp: "resp = (case (case submitted of Ok r \<Rightarrow> r | Err _ \<Rightarrow> Err SvUnavailable) of
       Ok value \<Rightarrow> json_response 202 (json_insert ''advisory'' advisory (json_of_submit value))
     | Err e \<Rightarrow> let response = error_response e in response\<lparr>hr_body := json_insert ''advisory'' advisory (hr_body response)\<rparr>)"
    using assms(1) by (auto simp: submit_qualified_def Let_def act_Ok tryA_Ok simp del: tryA_apply of_nat_mult)
  from resp assms(2) obtain out where "submitted = Ok (Ok out)"
    by (auto simp: error_statuses Let_def split: sum.splits)
  with run late show ?thesis by (intro that [of out]) (auto simp: tryA_Ok within_deadline_Ok simp del: tryA_apply)
qed

lemma handle_open_accepted:
  assumes "handle_open app body dl w = ((Ok resp :: (unit, http_response) result), w')" "hr_status resp = 202"
  obtains label d a r ob w1 where
    "prechecker_check (la_rpc app) (la_abi app) (la_keccak app) (la_env app) (la_codec app) (la_prechecker app) body (dl - 4 * NANOS) w
       = (Ok (label, d), w1)"
    "de_fresh d" "de_advisory d = Some a" "ad_result a = Qualifying r ob"
    "submit_qualified app body dl label (open_advisory_json (la_prechecker app) label d) (ad_checked_at a) r w1 = ((Ok resp :: (unit, http_response) result), w')"
proof -
  from assms(1) obtain outcome w1 where pre: "prechecker_check (la_rpc app) (la_abi app) (la_keccak app) (la_env app) (la_codec app)
      (la_prechecker app) body (dl - 4 * NANOS) w = (outcome, w1)" by fastforce
  have fail: "outcome = Ok (label, d) \<Longrightarrow> advisory_rejection d = None" for label d
  proof (rule ccontr)
    assume "outcome = Ok (label, d)" "advisory_rejection d \<noteq> None"
    with assms pre obtain status code where "advisory_rejection d = Some (status, code)" "status = 202"
      by (auto simp: handle_open_def bindA_apply tryA_def Let_def json_response_def split: prod.splits)
    then show False by (auto simp: advisory_rejection_def split: bool.splits option.splits semantic.splits)
  qed
  show ?thesis
  proof (cases outcome)
    case (Inl e)
    with assms pre error_statuses(2) show ?thesis by (auto simp: handle_open_def bindA_apply tryA_def)
  next
    case (Inr td)
    obtain label d where td: "td = (label, d)" by fastforce
    with Inr fail obtain a r ob where "de_fresh d" "de_advisory d = Some a" "ad_result a = Qualifying r ob"
      unfolding advisory_rejection_None by blast
    with assms(1) pre Inr td fail show ?thesis
      by (intro that [of label d w1 a r ob]) (auto simp: handle_open_def bindA_apply tryA_def Let_def)
  qed
qed


section \<open>Launch and release\<close>

lemma before_deadline_Ok:
  "before_deadline env dl w = (Ok u, w') \<longleftrightarrow> (\<exists>now. system_secs env w = Some now \<and> now < dl) \<and> w' = w"
  by (cases "system_secs env w") (auto simp: before_deadline_def)

lemma capabilities_client: "capabilities (env\<lparr>le_ec2 := client\<rparr>) = capabilities env"
  by (intro ext) (simp add: capabilities_def new_capabilities_def presign_get_def presign_terminal_put_def read_existing_capabilities_def)

lemma before_deadline_client: "before_deadline (env\<lparr>le_ec2 := client\<rparr>) = before_deadline env"
proof -
  have "system_secs (env\<lparr>le_ec2 := client\<rparr>) = system_secs env" by (rule ext) (simp add: system_secs_def)
  then show ?thesis by (intro ext) (simp add: before_deadline_def)
qed

text \<open>A launch sends one request and sends it before its deadline, or it fails whatever the instance service would have done.\<close>

lemma launch_before_cases:
  assumes "launch_before env l job_id dl w = (r, w')"
  shows "(\<exists>script w1 now. system_secs env w1 = Some now \<and> now < dl \<and> run_worker env (worker_request env l job_id script) w1 = (r, w'))
    \<or> (\<forall>client. launch_before (env\<lparr>le_ec2 := client\<rparr>) l job_id dl w = (r, w'))"
proof -
  define ready where "ready = bindA (before_deadline env dl) (\<lambda>_. bindA (capabilities env l job_id) (\<lambda>c.
    bindA (liftR (user_data (el_launch_template l) job_id c)) (\<lambda>script. bindA (before_deadline env dl) (\<lambda>_. retA script))))"
  have split: "launch_before (env\<lparr>le_ec2 := client\<rparr>) l job_id dl w
      = bindA ready (\<lambda>script. run_worker (env\<lparr>le_ec2 := client\<rparr>) (worker_request (env\<lparr>le_ec2 := client\<rparr>) l job_id script)) w" for client
    unfolding launch_before_def before_deadline_client capabilities_client ready_def
    by (auto simp: bindA_def split: prod.splits sum.splits)
  from split [of "le_ec2 env"] have same: "launch_before env l job_id dl w = bindA ready (\<lambda>script. run_worker env (worker_request env l job_id script)) w"
    by simp
  show ?thesis
  proof (cases "ready w")
    case (Pair result w1)
    show ?thesis
    proof (cases result)
      case (Inl e)
      with Pair same split assms show ?thesis by simp
    next
      case (Inr script)
      with Pair have "\<exists>now. system_secs env w1 = Some now \<and> now < dl" by (auto simp: ready_def before_deadline_Ok act_Ok)
      moreover from Inr Pair same assms have "run_worker env (worker_request env l job_id script) w1 = (r, w')" by simp
      ultimately show ?thesis by blast
    qed
  qed
qed

text \<open>A complete inventory: pages that follow each other's tokens from the first to the last.\<close>

fun page_chain :: "('w, 'z) ec2_client_scheme \<Rightarrow> string \<Rightarrow> string option \<Rightarrow> describe_output list \<Rightarrow> bool" where
  "page_chain client job_id token [] = False"
| "page_chain client job_id token (p # ps) =
     (observed (ec_describe client (job_inventory job_id token)) p
      \<and> (case do_next_token p of None \<Rightarrow> ps = [] | Some next \<Rightarrow> next \<noteq> [] \<and> page_chain client job_id (Some next) ps))"

lemma scan_pages_True:
  assumes "scan_pages n client job_id token seen w = (Ok True, w')"
  shows "\<exists>pages. page_chain client job_id token pages \<and> length pages \<le> n
    \<and> (\<forall>p \<in> set pages. \<forall>i \<in> set (instances p). is_terminated_instance job_id i)"
  using assms
proof (induction n arbitrary: token seen w)
  case (Suc n)
  then obtain p w1 where p: "ec_describe client (job_inventory job_id token) w = (Ok p, w1)"
    and gone: "\<forall>i \<in> set (instances p). is_terminated_instance job_id i"
    and next_page: "(case do_next_token p of None \<Rightarrow> retA True
       | Some next \<Rightarrow> if next \<noteq> [] \<and> next \<notin> seen then scan_pages n client job_id (Some next) (insert next seen)
                      else failA SvUnavailable) w1 = (Ok True, w')"
    by (auto simp: list_ex_iff split: if_splits)
  from p have obs: "observed (ec_describe client (job_inventory job_id token)) p" by (rule observedI)
  show ?case
  proof (cases "do_next_token p")
    case None
    with obs gone show ?thesis by (intro exI [of _ "[p]"]) simp
  next
    case (Some tok)
    with next_page have follow: "tok \<noteq> []" "scan_pages n client job_id (Some tok) (insert tok seen) w1 = (Ok True, w')"
      by (auto split: if_splits)
    from Suc.IH [OF follow(2)] obtain pages where "page_chain client job_id (Some tok) pages" "length pages \<le> n"
      "\<forall>p \<in> set pages. \<forall>i \<in> set (instances p). is_terminated_instance job_id i" by blast
    with obs gone Some follow(1) show ?thesis by (intro exI [of _ "p # pages"]) simp
  qed
qed simp

lemma no_active_instances_True:
  assumes "no_active_instances client job_id launch_until now (Some bound) w = (Ok True, w')"
  shows "launch_until + 900 + bound < now \<and> 0 < bound
    \<and> (\<exists>pages. page_chain client job_id None pages \<and> length pages \<le> 32
         \<and> (\<forall>p \<in> set pages. \<forall>i \<in> set (instances p). is_terminated_instance job_id i))"
proof -
  from assms obtain v where "0 < bound" "launch_until + 900 + bound < now" "scan_pages 32 client job_id None {} v = (Ok True, w')"
    by (auto simp: no_active_instances_def launch_fence_def within_timeout_Ok act_Ok split: option.splits if_splits)
  with scan_pages_True [of 32 client job_id None "{}" v w'] show ?thesis by simp
qed

lemma is_terminated_True:
  assumes "is_terminated client job_id w = (Ok True, w')"
  shows "\<exists>request p. observed (ec_describe client request) p \<and> dr_filters request = [(''tag:JobId'', [job_id])]
    \<and> do_next_token p = None \<and> instances p \<noteq> [] \<and> (\<forall>i \<in> set (instances p). is_terminated_instance job_id i)"
proof -
  let ?request = "\<lparr>dr_filters = [(''tag:JobId'', [job_id])], dr_max_results = None, dr_next_token = None\<rparr>"
  from assms obtain p w1 w2 where "ec_describe client ?request w1 = (Ok p, w2)" "do_next_token p = None" "instances p \<noteq> []"
    "list_all (is_terminated_instance job_id) (instances p)"
    by (auto simp: is_terminated_def within_timeout_Ok act_Ok split: option.splits sum.splits)
  then show ?thesis unfolding list_all_iff by (intro exI [of _ ?request] exI [of _ p]) (auto simp: observed_def)
qed

text \<open>The inventory that shows a job's instances all terminated, and the time that must have passed since the last launch.\<close>

definition instances_gone :: "('w, 'z) ec2_client_scheme \<Rightarrow> u64 option \<Rightarrow> string \<Rightarrow> bool" where
  "instances_gone client ambiguity job_id \<longleftrightarrow>
     (\<exists>pages. (\<forall>p \<in> set pages. \<forall>i \<in> set (instances p). is_terminated_instance job_id i)
      \<and> (case ambiguity of
           Some _ \<Rightarrow> page_chain client job_id None pages \<and> length pages \<le> 32
         | None \<Rightarrow> (\<exists>request p. pages = [p] \<and> observed (ec_describe client request) p \<and> dr_filters request = [(''tag:JobId'', [job_id])]
                       \<and> do_next_token p = None \<and> instances p \<noteq> [])))"

definition launch_margin :: "u64 option \<Rightarrow> u64" where
  "launch_margin ambiguity = 900 + (case ambiguity of Some bound \<Rightarrow> bound | None \<Rightarrow> 0)"

lemma reconcile_reservation_True:
  assumes "reconcile_reservation client ambiguity job_id launch_until now w = (Ok True, w')" "now \<le> u64_max"
  shows "instances_gone client ambiguity job_id \<and> launch_until + launch_margin ambiguity < now"
proof (cases ambiguity)
  case None
  with assms have late: "launch_until + 900 < now" and gone: "is_terminated client job_id w = (Ok True, w')"
    by (auto simp: reconcile_reservation_def saturating_add64_def min_def split: if_splits)
  from is_terminated_True [OF gone] obtain request p where "observed (ec_describe client request) p"
    "dr_filters request = [(''tag:JobId'', [job_id])]" "do_next_token p = None" "instances p \<noteq> []"
    "\<forall>i \<in> set (instances p). is_terminated_instance job_id i" by blast
  with None late show ?thesis unfolding instances_gone_def launch_margin_def by (auto intro!: exI [of _ "[p]"])
next
  case (Some bound)
  with assms(1) have "no_active_instances client job_id launch_until now (Some bound) w = (Ok True, w')"
    by (simp add: reconcile_reservation_def)
  from no_active_instances_True [OF this] Some show ?thesis unfolding instances_gone_def launch_margin_def by auto
qed

text \<open>
  C10.  A reservation is released only when its job can run no more.  Whenever the launcher reports that the slot of a job may be
  released at time \<open>now\<close>, the instance service has listed the job's instances completely (along at most 32 pages that follow each
  other's tokens, or, without an accepted visibility bound, on one page with at least one instance) and each of them is terminated;
  and every launch of that job under the slot's deadline either sends no instance request, whatever the service would answer, or
  sends it more than 900 seconds, and more than the visibility bound on top, before \<open>now\<close>.
\<close>

theorem reservation_release_safe:
  assumes "reconcile_reservation client ambiguity job_id launch_until now w = (Ok True, w')" "now \<le> u64_max"
  shows "instances_gone client ambiguity job_id
    \<and> (\<forall>v r v'. launch_before env l job_id launch_until v = (r, v') \<longrightarrow>
         (\<exists>script v1 sent. system_secs env v1 = Some sent \<and> sent + launch_margin ambiguity < now
            \<and> run_worker env (worker_request env l job_id script) v1 = (r, v'))
         \<or> (\<forall>other. launch_before (env\<lparr>le_ec2 := other\<rparr>) l job_id launch_until v = (r, v')))"
proof (intro conjI allI impI)
  note released = reconcile_reservation_True [OF assms]
  then show "instances_gone client ambiguity job_id" by simp
  fix v r v'
  assume "launch_before env l job_id launch_until v = (r, v')"
  from launch_before_cases [OF this] released
  show "(\<exists>script v1 sent. system_secs env v1 = Some sent \<and> sent + launch_margin ambiguity < now
            \<and> run_worker env (worker_request env l job_id script) v1 = (r, v'))
         \<or> (\<forall>other. launch_before (env\<lparr>le_ec2 := other\<rparr>) l job_id launch_until v = (r, v'))" by fastforce
qed

section \<open>Old instances\<close>

text \<open>A service that answers with the given pages and accepts every termination.\<close>

fun serves_janitor :: "('w, 'z) ec2_client_scheme \<Rightarrow> string option \<Rightarrow> describe_output list \<Rightarrow> bool" where
  "serves_janitor client token [] = False"
| "serves_janitor client token (p # ps) =
     (answers (ec_describe client (janitor_inventory token)) (Ok p)
      \<and> (case do_next_token p of None \<Rightarrow> ps = [] | Some tok \<Rightarrow> serves_janitor client (Some tok) ps))"

lemma expired_ids_append: "expired_ids now ttl (a @ b) = expired_ids now ttl a @ expired_ids now ttl b"
  by (simp add: expired_ids_def map_filter_def)

lemma janitor_page_answers:
  assumes "answers (ec_describe client (janitor_inventory token)) (Ok p)" "\<forall>ids. answers (ec_terminate client ids) (Ok ())"
  shows "\<exists>w'. janitor_page client now ttl token w = (Ok (length (expired_ids now ttl (instances p)), do_next_token p), w')"
proof -
  let ?ids = "expired_ids now ttl (instances p)"
  obtain w1 where "ec_describe client (janitor_inventory token) w = (Ok p, w1)" using assms(1) by (metis answers_def prod.collapse)
  moreover obtain w2 where "(if ?ids \<noteq> [] then ec_terminate client ?ids else retA ()) w1 = (Ok (), w2)"
    using assms(2) by (cases "?ids = []") (auto, metis answers_def prod.collapse)
  ultimately show ?thesis by (auto simp: janitor_page_def Let_def)
qed

lemma janitor_loop_answers:
  assumes "serves_janitor client token pages" "\<forall>ids. answers (ec_terminate client ids) (Ok ())"
  shows "\<exists>w'. janitor_loop client now ttl token n w = Some (Ok (n + length (expired_ids now ttl (concat (map instances pages)))), w')"
  using assms(1)
proof (induction pages arbitrary: token n w)
  case (Cons p ps)
  from Cons.prems janitor_page_answers [OF _ assms(2), of token p now ttl w] obtain w1 where
    page: "janitor_page client now ttl token w = (Ok (length (expired_ids now ttl (instances p)), do_next_token p), w1)" by auto
  show ?case
  proof (cases "do_next_token p")
    case None
    with Cons.prems have "ps = []" by simp
    with None page show ?thesis by (subst janitor_loop.simps) simp
  next
    case (Some tok)
    with Cons.prems Cons.IH [of "Some tok" "n + length (expired_ids now ttl (instances p))" w1] page show ?thesis
      by (subst janitor_loop.simps) (simp add: expired_ids_append add.assoc)
  qed
qed simp


section \<open>Denied reads\<close>

text \<open>
  A denied read is never classified further: a message is passed on as it is before its text is searched, and without a message
  there is nothing to search.
\<close>

lemma s3_denied_unclassified: "s3_denied message \<notin> {SvRequestReadIdentityDenied, SvRequestReadExplicitDenied}"
  by (auto simp: s3_denied_def starts_with_def Let_def split: option.splits)

end
