(* ===== verification/Lambda_Demo.thy ===== *)
theory Lambda_Demo
  imports Lambda_Claims Job_Store Verifier_Demo Incident_Open_Claims
begin

text \<open>Concrete runs of the request handler, of the release check and of the janitor.\<close>

section \<open>A provider without an active incident\<close>

text \<open>Every contract read answers with a zero word, which the codec reads as the fixed return values.\<close>

definition door_request :: "string \<Rightarrow> json \<Rightarrow> (unit, rpc_error, json) act" where
  "door_request mth params = (if mth = ''eth_call'' then retA (JStr (hash_hex (replicate 32 0))) else engine_request mth params)"

definition door_rpc :: "unit rpc" where
  "door_rpc = engine_rpc\<lparr>rpc_request := door_request\<rparr>"

definition zero_call :: "string \<Rightarrow> 'r \<Rightarrow> ('a, 'r) sol_call" where
  "zero_call name r = \<lparr>sc_signature = name, sc_encode = (\<lambda>_. [1, 2, 3, 4]), sc_decode_returns = (\<lambda>_. Ok r),
     sc_encode_returns = (\<lambda>_. replicate 32 0)\<rparr>"

definition door_abi :: abi where
  "door_abi = open_abi\<lparr>
     aggregate3 := zero_call ''aggregate3'' (replicate 8 \<lparr>mr_success = True, mr_return_data = replicate 32 0\<rparr>),
     defiInsurance := zero_call ''defiInsurance'' open_address, registry_of := zero_call ''registry_of'' open_address,
     nextIncidentId := zero_call ''nextIncidentId'' 1,
     incidentTimingConfig := zero_call ''incidentTimingConfig'' \<lparr>tc_phase_window = 60, tc_max_reference_block_age = 5\<rparr>,
     incidentOpenPriceConfig := zero_call ''incidentOpenPriceConfig''
       \<lparr>op_twap_blocks = 4, op_sample_step_blocks = 2, op_minimum_drop_bps = 500\<rparr>,
     getInsuredToken := zero_call ''getInsuredToken'' \<lparr>it_max_coverage_bps = 8000, it_underlying_price_oracle = open_address,
       it_conversion_address = open_address, it_conversion_call_data = []\<rparr>,
     incidentOpenEligibilityHash := zero_call ''incidentOpenEligibilityHash'' (replicate 32 9),
     registry_teePcrHash := zero_call ''registry_teePcrHash'' (replicate 32 9)\<rparr>"

abbreviation zero_reads :: "bytes list" where
  "zero_reads \<equiv> replicate 8 (replicate 32 0)"

lemma door_raw [simp]: "raw_call door_rpc to data b = retA (replicate 32 0)"
  by (simp add: raw_call_def door_rpc_def door_request_def Let_def fun_eq_iff decode_call_result_hex)

lemma door_decode [simp]: "decode_read (zero_call name r) (replicate 32 0) = Ok r"
  by (simp add: decode_read_def zero_call_def)

lemma door_blocks:
  "chain_id door_rpc = retA 1" "latest_block door_rpc = retA (demo_block 10)" "finalized_block door_rpc = retA (demo_block 10)"
  "block_by_number door_rpc 10 = retA (demo_block 10)"
proof -
  have same: "m \<noteq> ''eth_call'' \<Longrightarrow> rpc_request door_rpc m p = rpc_request engine_rpc m p" for m p
    by (simp add: door_rpc_def door_request_def engine_rpc_def)
  have b: "block_at door_rpc = block_at engine_rpc" by (intro ext) (simp add: block_at_def same)
  show "chain_id door_rpc = retA 1" using engine_chain by (simp add: chain_id_def same)
  show "latest_block door_rpc = retA (demo_block 10)" using gate_latest by (simp add: latest_block_def b)
  show "finalized_block door_rpc = retA (demo_block 10)" using engine_finalized by (simp add: finalized_block_def b)
  show "block_by_number door_rpc 10 = retA (demo_block 10)" using engine_block [of 10] by (simp add: block_by_number_def b)
qed

lemma door_aggregate:
  assumes "length calls = 8" "\<forall>c \<in> set calls. \<not> c3_allow_failure c \<and> 4 \<le> length (c3_call_data c)"
  shows "aggregate_reads door_rpc door_abi calls b = retA zero_reads"
proof -
  have one: "chunks MAX_CALLS calls = [calls]"
    using assms(1) by (subst chunks.simps) (auto simp: MAX_CALLS_def chunks.simps)
  have agg: "aggregate3 door_abi = zero_call ''aggregate3'' (replicate 8 \<lparr>mr_success = True, mr_return_data = replicate 32 0\<rparr>)"
    by (simp add: door_abi_def)
  have sub: "mapR subcall_data (zip (replicate n \<lparr>mr_success = True, mr_return_data = replicate 32 0\<rparr>) cs) = Ok (replicate n (replicate 32 0))"
    if "length cs = n" for n cs using that by (induction cs arbitrary: n) (auto simp: subcall_data_def)
  have "plan_chunk door_abi calls = Ok (calls, [1, 2, 3, 4])"
    by (simp add: plan_chunk_def agg zero_call_def Let_def MAX_INPUT_BYTES_def)
  moreover have "read_chunk door_rpc door_abi b [] (calls, [1, 2, 3, 4]) = retA zero_reads"
    using assms(1) sub [OF assms(1)] door_decode by (simp add: read_chunk_def agg Let_def fun_eq_iff)
  moreover have "\<not> list_ex (\<lambda>c. c3_allow_failure c \<or> length (c3_call_data c) < 4) calls" using assms(2) by (auto simp: list_ex_iff)
  ultimately show ?thesis by (simp add: aggregate_reads_def one fun_eq_iff)
qed

definition door_prechecker :: open_prechecker where
  "door_prechecker = \<lparr>oc_registry = open_address, oc_configured_registry = ''0x'' @ replicate 40 CHR ''3'', oc_module = open_address\<rparr>"

abbreviation door_token :: string where
  "door_token \<equiv> ''0x'' @ replicate 40 CHR ''3''"

abbreviation door_source :: rpc_source where
  "door_source \<equiv> prechecker_source door_prechecker (Address (replicate 20 0x33))"

definition door_binding :: binding where
  "door_binding = \<lparr>bn_commitment = binding_commitment toy_keccak zero_reads, bn_head = 10, bn_finalized = 10, bn_max_age = 5\<rparr>"

lemma door_fields [simp]:
  "defiInsurance door_abi = zero_call ''defiInsurance'' open_address" "registry_of door_abi = zero_call ''registry_of'' open_address"
  "nextIncidentId door_abi = zero_call ''nextIncidentId'' 1"
  "incidentTimingConfig door_abi = zero_call ''incidentTimingConfig'' \<lparr>tc_phase_window = 60, tc_max_reference_block_age = 5\<rparr>"
  "incidentOpenPriceConfig door_abi = zero_call ''incidentOpenPriceConfig''
     \<lparr>op_twap_blocks = 4, op_sample_step_blocks = 2, op_minimum_drop_bps = 500\<rparr>"
  "getInsuredToken door_abi = zero_call ''getInsuredToken'' \<lparr>it_max_coverage_bps = 8000, it_underlying_price_oracle = open_address,
     it_conversion_address = open_address, it_conversion_call_data = []\<rparr>"
  "incidentOpenEligibilityHash door_abi = zero_call ''incidentOpenEligibilityHash'' (replicate 32 9)"
  "registry_teePcrHash door_abi = zero_call ''registry_teePcrHash'' (replicate 32 9)"
  by (simp_all add: door_abi_def)

lemma door_reads: "aggregate_reads door_rpc door_abi (binding_reads door_abi toy_keccak door_source) 10 = retA zero_reads"
  by (rule door_aggregate) (simp_all add: binding_reads_def active_incident_call_def toy_keccak_length read_call_def zero_call_def)

lemma door_heads: "binding_heads door_rpc door_abi door_source = retA (demo_block 10, demo_block 10)"
proof -
  have "defi_insurance_at door_rpc door_abi a b = retA open_address" for a b
    by (simp add: defi_insurance_at_def contract_call_def zero_call_def fun_eq_iff)
  moreover have "is_zero (Address (replicate 20 a)) = (a = 0)" for a by (simp add: is_zero_def)
  ultimately show ?thesis
    by (simp add: binding_heads_def unavailable_def door_blocks configured_chain_id_def demo_block_def prechecker_source_def
        door_prechecker_def fun_eq_iff)
qed

lemma door_binds: "source_binding door_rpc door_abi toy_keccak door_source = retA door_binding"
proof -
  have nz: "\<not> list_all (\<lambda>b. b = 0) (replicate 32 (9 :: 8 word))" by (simp add: list_all_iff)
  have "check_binding_reads door_abi door_source zero_reads = (retA 5 :: (unit, check_error, u64) act)"
    using nz by (simp add: check_binding_reads_def decode_or_def unavailable_def prechecker_source_def door_prechecker_def nth_replicate
        list_ex_iff fun_eq_iff)
  moreover have "ba_number (demo_block 10) = 10" by (simp add: demo_block_def)
  ultimately have "read_binding door_rpc door_abi toy_keccak door_source = retA door_binding"
    using door_reads by (simp add: read_binding_def door_heads unavailable_def door_blocks door_binding_def fun_eq_iff)
  then show ?thesis by (simp add: source_binding_def within_timeout_def fun_eq_iff)
qed

section \<open>An accepted opening\<close>

text \<open>The store holds a price drop found at second 1000, which is the current second, and a launched attempt of the same work.\<close>

definition door_advisory :: advisory where
  "door_advisory = \<lparr>ad_checked_at = 1000, ad_expires_at = 4600, ad_configuration = bn_commitment door_binding, ad_result = Qualifying 6 10\<rparr>"

definition door_s3 :: "unit s3_client" where
  "door_s3 = \<lparr>s3_get_object = (\<lambda>_. retA \<lparr>s3_e_tag = Some ''r'', s3_content_length = None, s3_read = (\<lambda>_. retA [1])\<rparr>),
     s3_put_object = (\<lambda>_ _ _. retA ()), s3_presign_get = (\<lambda>key _. retA key), s3_presign_put = (\<lambda>key _. retA key)\<rparr>"

definition empty_page :: describe_output where
  "empty_page = \<lparr>do_reservations = [], do_next_token = None\<rparr>"

definition door_ec2 :: "unit ec2_client" where
  "door_ec2 = \<lparr>ec_describe = (\<lambda>_. retA empty_page), ec_terminate = (\<lambda>_. retA ()), ec_run = (\<lambda>_. retA [Some ''i'']), ec_clock_ms = (\<lambda>_. 0)\<rparr>"

definition door_env :: "unit lambda_env" where
  "door_env = \<lparr>le_ec2 = door_ec2, le_s3 = door_s3, le_system_ns = (\<lambda>_. int (1000 * NANOS)), le_instant = (\<lambda>_. 0),
     le_capabilities = (\<lambda>_. None), le_parse_capabilities = (\<lambda>_. None), le_base64 = id, le_parse_biguint = (\<lambda>_. None),
     le_parse_record = (\<lambda>_. Some \<lparr>ar_attempt_at = None, ar_snapshot = Some door_advisory\<rparr>), le_render_record = (\<lambda>_. None)\<rparr>"

definition door_open :: canonical_request where
  "door_open = RequestOpen \<lparr>cor_insured_token = door_token, cor_registry = door_token\<rparr>"

definition door_attempt :: work_attempt where
  "door_attempt = \<lparr>wa_generation = 0,
     wa_stored = \<lparr>sq_schema_version = 3, sq_job_id = demo_job, sq_request = door_open, sq_created_at = 1000, sq_expires_at = 1600\<rparr>,
     wa_launch_retry_at = 1060, wa_launched = True, wa_completed = False, wa_admission_denied = False\<rparr>"

definition door_codec :: job_codec where
  "door_codec = demo_jobs\<lparr>jc_open_api := (\<lambda>_. Some door_token), jc_parse_attempt := (\<lambda>_. Some door_attempt)\<rparr>"

definition door_service :: "unit job_env" where
  "door_service = \<lparr>je_get_versioned = (\<lambda>_ _. retA (Some \<lparr>vo_bytes = [4], vo_revision = ''r''\<rparr>)),
     je_compare_exchange = (\<lambda>_ _ _. retA True), je_create = (\<lambda>_ _. retA Created), je_get = (\<lambda>_ _. retA None),
     je_download_url = (\<lambda>_ _. retA []), je_precheck = (\<lambda>_. retA ()), je_can_release = (\<lambda>_ _ _. retA False),
     je_launch_before = (\<lambda>_ _. retA ()), je_verify = None, je_clock = retA 1000, je_system_time = retA (Some 1000)\<rparr>"

definition door_app :: "unit lambda_app" where
  "door_app = \<lparr>la_service = door_service, la_env = door_env, la_codec = door_codec, la_config = demo_app, la_policy = default_admission,
     la_prechecker = door_prechecker, la_rpc = door_rpc, la_abi = door_abi, la_keccak = toy_keccak\<rparr>"

definition door_http :: http_request where
  "door_http = \<lparr>hq_method = ''POST'', hq_path = ''/jobs/open'', hq_idempotency_key = Some ''k'', hq_body = [7]\<rparr>"

lemma door_texts:
  "normalize_address door_token = Ok door_token" "address_from_str door_token = Some (Address (replicate 20 0x33))"
  "list_all key_char_ok (open_job_key door_token 6)" "length (open_job_key door_token 6) = 49"
  by code_simp+

lemma door_canonical: "canonicalize_open_request door_codec body door_token = Ok door_open"
  using door_texts(1) by (simp add: canonicalize_open_request_def door_codec_def normalize_registry_def door_open_def)

lemma door_submits: "submit_open door_service door_codec demo_app default_admission (open_job_key door_token 6) body
    = retA \<lparr>so_accepted = True, so_job_id = demo_job\<rparr>"
proof -
  have bound: "verify_job_request_binding door_codec demo_job request = Ok ()" for request
    using demo_bound [of request] by (simp add: verify_job_request_binding_def door_codec_def request_commitment_def)
  have live: "stored_request_is_live door_codec (wa_stored door_attempt) 1000"
    using demo_job_paths bound by (simp add: stored_request_is_live_def door_attempt_def STORED_REQUEST_SCHEMA_VERSION_def is_ok_iff)
  have "decide_attempt door_service door_codec demo_app key door_open 1000 v = retA (Accepted demo_job)" for key v
    using live demo_job_paths
    by (simp add: decide_attempt_def door_codec_def [THEN arg_cong, of jc_parse_attempt] read_evidence_def verify_evidence_def
        completion_bytes_def door_service_def door_attempt_def door_open_def Let_def fun_eq_iff)
  then have "submit_canonical door_service door_codec demo_app default_admission work door_open
      = retA \<lparr>so_accepted = True, so_job_id = demo_job\<rparr>" for work
    by (simp add: submit_canonical_def submit_round_def door_service_def [THEN arg_cong, of je_clock]
        door_service_def [THEN arg_cong, of je_get_versioned] numeral_eq_Suc Let_def fun_eq_iff)
  moreover have "ap_registry demo_app = door_token" by (simp add: demo_app_def)
  moreover have "\<exists>i. derive_job_id door_codec (ap_job_secret demo_app) (open_job_key door_token 6) door_open = Ok i"
    using door_texts(3,4) by (auto simp: derive_job_id_def demo_app_def door_codec_def demo_jobs_def)
  moreover have "\<exists>i. canonical_work_id door_codec door_open (ap_defi_insurance demo_app) = Ok i"
  proof -
    have "normalize_address (''0x'' @ replicate 40 CHR ''4'') = Ok (''0x'' @ replicate 40 CHR ''4'')" by code_simp
    then show ?thesis by (simp add: canonical_work_id_def demo_app_def door_codec_def demo_jobs_def)
  qed
  ultimately show ?thesis by (auto simp: submit_open_def door_canonical [simplified] fun_eq_iff)
qed

lemma door_checks:
  "advisory_check (advisory_env_of door_env door_codec) (rpc_advisory_source door_rpc door_abi toy_keccak door_source) namespace 1000 (24 * NANOS)
     = retA \<lparr>de_fresh = True, de_advisory = Some door_advisory\<rparr>"
proof -
  let ?env = "advisory_env_of door_env door_codec" and ?source = "rpc_advisory_source door_rpc door_abi toy_keccak door_source"
  have instant: "ae_instant ?env = (\<lambda>_. 0)" by (simp add: advisory_env_of_def door_env_def)
  have record_read: "load_record ?env key = retA (Some \<lparr>vo_bytes = [1], vo_revision = ''r''\<rparr>, \<lparr>ar_attempt_at = None, ar_snapshot = Some door_advisory\<rparr>)" for key
    by (simp add: load_record_def advisory_env_of_def s3_get_versioned_def door_env_def door_s3_def declared_too_long_def filter_option_def fun_eq_iff)
  have kept: "retainable 1000 door_advisory" "ad_configuration door_advisory = bn_commitment door_binding"
    by (simp_all add: retainable_def door_advisory_def saturating_add64_def u64_max_def)
  have "bn_commitment door_binding \<noteq> []"
    using length_hex_encode [of "toy_keccak x" for x] by (auto simp: door_binding_def binding_commitment_def toy_keccak_length dest: arg_cong [of _ _ length])
  then have good: "1000 - ad_checked_at door_advisory < 60" "eligible (ad_result door_advisory) door_binding"
    by (simp_all add: eligible.simps door_advisory_def) (simp_all add: door_binding_def)
  have "check_inner ?env ?source namespace 1000 dl w = (Ok \<lparr>de_fresh = True, de_advisory = Some door_advisory\<rparr>, (),
      if 0 < dl then Some door_advisory else snd w)" for dl w
    using kept good
    by (simp add: check_inner_def Let_def besides_def record_read set_fallback_def bindA_apply tryA_def rpc_advisory_source_def door_binds
        filter_option_def refresh_or_keep_def instant split: prod.split)
  then show ?thesis
    by (simp add: advisory_check_def Let_def with_fallback_def within_deadline_def bindA_apply tryA_def getsA_def returned_decision_def filter_option_def
        door_advisory_def instant saturating_add64_def u64_max_def NANOS_def CACHE_BUDGET_def fun_eq_iff)
qed

lemma door_answers: "\<exists>resp. handle door_app door_http () = ((Ok resp :: (unit, http_response) result), ()) \<and> hr_status resp = 202"
proof -
  have checked: "prechecker_check door_rpc door_abi toy_keccak door_env door_codec door_prechecker [7] (24 * NANOS)
      = retA (door_token, \<lparr>de_fresh = True, de_advisory = Some door_advisory\<rparr>)"
    using door_checks door_texts(2)
    by (simp add: prechecker_check_def door_canonical [simplified] door_prechecker_def [THEN arg_cong, of oc_configured_registry] door_open_def
        system_secs_def door_env_def [THEN arg_cong, of le_system_ns] NANOS_def map_errA_def fun_eq_iff)
  show ?thesis using checked door_submits
    by (simp add: handle_def Let_def handle_inner_def handle_post_def handle_open_def door_http_def door_app_def
        within_deadline_def bindA_apply tryA_def advisory_rejection_def submit_qualified_def door_advisory_def json_response_def MAX_REQUEST_BYTES_def
        door_env_def [THEN arg_cong, of le_system_ns] door_env_def [THEN arg_cong, of le_instant] saturating_add64_def u64_max_def NANOS_def)
qed


section \<open>A released slot\<close>

text \<open>No instance is listed more than the fence after the deadline 2000.\<close>

lemma door_releases: "reconcile_reservation door_ec2 (Some 300) demo_job 2000 4000 () = (Ok True, ())"
proof -
  have "scan_pages (Suc n) door_ec2 demo_job None {} = retA True" for n
    by (simp add: door_ec2_def empty_page_def instances_def fun_eq_iff)
  from this [of 31] show ?thesis using demo_job_paths
  by (simp add: reconcile_reservation_def no_active_instances_def launch_fence_def checked_add64_def u64_max_def within_timeout_def
      bindA_apply tryA_def door_ec2_def [THEN arg_cong, of ec_clock_ms])
qed

definition door_launcher :: ec2_launcher where
  "door_launcher = \<lparr>el_registry = open_address, el_module = open_address, el_image_id = ''ami'', el_instance_type = ''m5'',
     el_instance_profile = ''worker'', el_subnet_id = ''subnet'', el_security_group_id = ''group'', el_launch_template = ''eu-central-1'',
     el_capability_ttl_seconds = 2700, el_ec2_ambiguity_seconds = Some 300\<rparr>"

theorem reservation_release_safe_witness:
  "\<exists>pages. page_chain door_ec2 demo_job None pages \<and> length pages \<le> 32"
proof -
  have "(4000 :: nat) \<le> u64_max" by (simp add: u64_max_def)
  from reservation_release_safe [OF door_releases this, of door_env door_launcher] show ?thesis by (auto simp: instances_gone_def)
qed

section \<open>A run of the janitor\<close>

definition old_instance :: ec2_instance where
  "old_instance = \<lparr>ei_instance_id = Some ''i-1'', ei_state = Some StateRunning, ei_tags = [], ei_launch_time = Some 100\<rparr>"

definition janitor_pages :: "describe_output list" where
  "janitor_pages = [\<lparr>do_reservations = [[old_instance]], do_next_token = Some ''p''\<rparr>,
     \<lparr>do_reservations = [[old_instance\<lparr>ei_launch_time := Some 4900\<rparr>], [old_instance]], do_next_token = None\<rparr>]"

definition janitor_ec2 :: "unit ec2_client" where
  "janitor_ec2 = door_ec2\<lparr>ec_describe := (\<lambda>r. retA (if dr_next_token r = None then janitor_pages ! 0 else janitor_pages ! 1))\<rparr>"


end
