(* ===== verification/Score_Lambda.thy ===== *)
theory Score_Lambda
  imports Incremental_Score Settlement_Verifier Web
begin

text \<open>
  The request handler of the score service (\<^verbatim>\<open>offchain-rust/score-api/src/bin/lambda.rs\<close>): configuration, routes, the table of
  account rows with its leases, versions and work budget, and the calculation of a score.  An update of the table is a
  syntax tree of the update and condition expressions the code sends; the table itself, the codecs, the clocks and the
  providers are parameters.
\<close>

section \<open>Constants and configuration\<close>

definition MAX_CHECKPOINT_BYTES :: nat where "MAX_CHECKPOINT_BYTES = 128 * 1024"
definition SCORE_LIST_CACHE_SECONDS :: u64 where "SCORE_LIST_CACHE_SECONDS = 300"
definition MAX_SCORE_LIST_PAGES :: nat where "MAX_SCORE_LIST_PAGES = 200"
definition DAILY_EPOCH_SECONDS :: u64 where "DAILY_EPOCH_SECONDS = 24 * 60 * 60"
definition REFRESH_COOLDOWN_SECONDS :: u64 where "REFRESH_COOLDOWN_SECONDS = 5 * 60"
definition LEGACY_SEPOLIA_CHAIN_ID :: u64 where "LEGACY_SEPOLIA_CHAIN_ID = 11155111"
definition DEFAULT_SEPOLIA_SCORE_RPC_URL :: string where "DEFAULT_SEPOLIA_SCORE_RPC_URL = ''https://rpc.sepolia.ethpandaops.io''"

definition completed_utc_epoch :: "u64 \<Rightarrow> u64 option" where
  "completed_utc_epoch finalized_timestamp =
     (let epoch = finalized_timestamp div DAILY_EPOCH_SECONDS * DAILY_EPOCH_SECONDS in
      if epoch \<ge> DAILY_EPOCH_SECONDS then Some epoch else None)"

definition daily_cache_max_age :: "u64 \<Rightarrow> u64 \<Rightarrow> u64" where
  "daily_cache_max_age epoch now = saturating_add64 epoch DAILY_EPOCH_SECONDS - now"

definition is_current_daily_snapshot :: "u64 option \<Rightarrow> nat \<Rightarrow> u64 \<Rightarrow> bool" where
  "is_current_daily_snapshot snapshot_epoch snapshot_version epoch \<longleftrightarrow>
     snapshot_epoch = Some epoch \<and> snapshot_version = SCORE_SNAPSHOT_VERSION"

definition refresh_requested :: "string option \<Rightarrow> bool" where
  "refresh_requested query \<longleftrightarrow> (case query of None \<Rightarrow> False | Some q \<Rightarrow> ''refresh=1'' \<in> set (split_on CHR ''&'' q))"

definition refresh_throttled :: "u64 option \<Rightarrow> u64 \<Rightarrow> bool" where
  "refresh_throttled last_refresh_at now \<longleftrightarrow>
     (case last_refresh_at of None \<Rightarrow> False | Some t \<Rightarrow> now < saturating_add64 t REFRESH_COOLDOWN_SECONDS)"

datatype score_error =
    SeText string
  | SeTable string
  | SeNumber
  | SeJson
  | SeClock
  | SeChain chain_error
  | SeScore incremental_score_error
  | SeRpc rpc_error

record work_policy =
  wp_calculation_timeout_ms :: u64
  wp_lease_seconds :: u64
  wp_failure_cooldown_seconds :: u64
  wp_budget_window_seconds :: u64
  wp_budget_max_attempts :: u64

definition default_work_policy :: work_policy where
  "default_work_policy = \<lparr>wp_calculation_timeout_ms = 20000, wp_lease_seconds = 30, wp_failure_cooldown_seconds = 30,
     wp_budget_window_seconds = 60, wp_budget_max_attempts = 10\<rparr>"

definition work_policy_ok :: "work_policy \<Rightarrow> bool" where
  "work_policy_ok p \<longleftrightarrow>
     (1 \<le> wp_calculation_timeout_ms p \<and> wp_calculation_timeout_ms p \<le> 25000) \<and> (1 \<le> wp_lease_seconds p \<and> wp_lease_seconds p \<le> 300)
     \<and> wp_lease_seconds p \<ge> div_ceil (wp_calculation_timeout_ms p) 1000 + 5
     \<and> (1 \<le> wp_failure_cooldown_seconds p \<and> wp_failure_cooldown_seconds p \<le> 3600)
     \<and> (wp_lease_seconds p \<le> wp_budget_window_seconds p \<and> wp_budget_window_seconds p \<le> 86400)
     \<and> (1 \<le> wp_budget_max_attempts p \<and> wp_budget_max_attempts p \<le> 1000)"

definition work_policy_from_json :: "(string \<Rightarrow> work_policy option) \<Rightarrow> string option \<Rightarrow> (score_error, work_policy) result" where
  "work_policy_from_json parse raw =
     bindR (case raw of Some text \<Rightarrow> ok_or SeJson (parse text) | None \<Rightarrow> Ok default_work_policy) (\<lambda>policy.
     if \<not> work_policy_ok policy then Err (SeText ''invalid USD8_SCORE_WORK_POLICY_JSON bounds'') else Ok policy)"

record score_network_config =
  nc_chain_id :: u64
  nc_name :: string
  nc_registry :: string
  nc_rpc_url :: string

definition is_whitespace :: "char \<Rightarrow> bool" where
  "is_whitespace c \<longleftrightarrow> (of_char c :: nat) = 32 \<or> (9 \<le> (of_char c :: nat) \<and> (of_char c :: nat) \<le> 13)"

definition network_config_step ::
  "(u64, score_network_config) btree_map \<Rightarrow> score_network_config \<Rightarrow> (score_error, (u64, score_network_config) btree_map) result" where
  "network_config_step by_chain c =
     (if nc_chain_id c = 0 \<or> list_all is_whitespace (nc_name c) \<or> list_all is_whitespace (nc_rpc_url c)
         \<or> address_from_str (nc_registry c) = None
      then Err (SeText ''USD8_SCORE_NETWORKS_JSON contains an invalid network profile'')
      else if map_of by_chain (nc_chain_id c) \<noteq> None
      then Err (SeText ''USD8_SCORE_NETWORKS_JSON contains a duplicate chain ID'')
      else Ok (om_insert (nc_chain_id c) c by_chain))"

definition network_configs_from_json ::
  "(string \<Rightarrow> score_network_config list option) \<Rightarrow> string \<Rightarrow> (score_error, (u64, score_network_config) btree_map) result" where
  "network_configs_from_json parse raw =
     bindR (ok_or SeJson (parse raw)) (\<lambda>configs.
     if configs = [] then Err (SeText ''USD8_SCORE_NETWORKS_JSON must configure at least one network'')
     else foldR network_config_step [] configs)"

definition configured_networks ::
  "(string \<Rightarrow> score_network_config list option) \<Rightarrow> string option \<Rightarrow> string option \<Rightarrow> string option
    \<Rightarrow> (score_error, (u64, score_network_config) btree_map) result" where
  "configured_networks parse network_json legacy_registry legacy_rpc_url =
     (case filter_option (\<lambda>v. v \<noteq> []) network_json of
        Some raw \<Rightarrow> network_configs_from_json parse raw
      | None \<Rightarrow>
          bindR (ok_or (SeText ''missing required environment variable: USD8_SCORE_NETWORKS_JSON or USD8_REGISTRY'')
                  (filter_option (\<lambda>v. v \<noteq> []) legacy_registry)) (\<lambda>registry.
          Ok [(LEGACY_SEPOLIA_CHAIN_ID, \<lparr>nc_chain_id = LEGACY_SEPOLIA_CHAIN_ID, nc_name = ''Sepolia'', nc_registry = registry,
             nc_rpc_url = (case filter_option (\<lambda>v. v \<noteq> []) legacy_rpc_url of Some u \<Rightarrow> u | None \<Rightarrow> DEFAULT_SEPOLIA_SCORE_RPC_URL)\<rparr>)]))"

record 'w runtime_network =
  rn_score :: score_network
  rn_registry :: address
  rn_rpc :: "'w rpc"

definition runtime_network_of ::
  "(string \<Rightarrow> (rpc_error, 'w rpc) result) \<Rightarrow> score_network_config \<Rightarrow> (score_error, u64 \<times> 'w runtime_network) result" where
  "runtime_network_of new_rpc c =
     bindR (ok_or (SeText ''USD8_SCORE_NETWORKS_JSON has an invalid Registry address'') (address_from_str (nc_registry c))) (\<lambda>registry.
     bindR (map_errR SeRpc (new_rpc (nc_rpc_url c))) (\<lambda>rpc.
     Ok (nc_chain_id c, \<lparr>rn_score = \<lparr>sn_chain_id = nc_chain_id c, sn_name = nc_name c\<rparr>, rn_registry = registry, rn_rpc = rpc\<rparr>)))"

definition runtime_networks_from_configs ::
  "(string \<Rightarrow> (rpc_error, 'w rpc) result) \<Rightarrow> (u64, score_network_config) btree_map
    \<Rightarrow> (score_error, (u64, 'w runtime_network) btree_map) result" where
  "runtime_networks_from_configs new_rpc configs =
     bindR (mapR (runtime_network_of new_rpc) (map snd configs)) (\<lambda>networks. Ok (om_of networks))"

section \<open>Routes\<close>

datatype score_request = ScoreExplicit u64 address | ScoreLegacy address

definition score_request_from_path :: "string \<Rightarrow> (unit, score_request) result option" where
  "score_request_from_path path =
     (case strip_prefix ''/score/'' path of
        None \<Rightarrow> None
      | Some tail \<Rightarrow>
          (case split_on CHR ''/'' tail of
             [first] \<Rightarrow> Some (bindR (ok_or () (address_from_str first)) (\<lambda>account. Ok (ScoreLegacy account)))
           | [first, second] \<Rightarrow>
               (case (u64_from_str first, address_from_str second) of
                  (Some chain, Some account) \<Rightarrow> Some (if chain \<noteq> 0 then Ok (ScoreExplicit chain account) else Err ())
                | _ \<Rightarrow> Some (Err ()))
           | _ \<Rightarrow> None))"

datatype score_list_request = ListExplicit u64 | ListLegacy

definition score_list_request_from_path :: "string \<Rightarrow> (unit, score_list_request) result option" where
  "score_list_request_from_path path =
     (case strip_prefix ''/scores'' path of
        None \<Rightarrow> None
      | Some tail \<Rightarrow>
          (let r = (if tail \<noteq> [] \<and> last tail = CHR ''/'' then butlast tail else tail) in
           if r = [] then Some (Ok ListLegacy)
           else case strip_prefix ''/'' r of
             None \<Rightarrow> None
           | Some chain \<Rightarrow>
               if CHR ''/'' \<in> set chain then None
               else Some (case u64_from_str chain of
                   Some i \<Rightarrow> if i \<noteq> 0 then Ok (ListExplicit i) else Err () | None \<Rightarrow> Err ())))"

definition legacy_chain_id :: "(u64, 'w runtime_network) btree_map \<Rightarrow> u64 option" where
  "legacy_chain_id networks =
     (if length networks = 1 then Some (fst (hd networks))
      else if map_of networks LEGACY_SEPOLIA_CHAIN_ID \<noteq> None then Some LEGACY_SEPOLIA_CHAIN_ID else None)"

section \<open>The table of accounts\<close>

text \<open>An attribute is a text, a number in its decimal text, or of another type; an item maps names to attributes.\<close>

datatype attribute = AttrS string | AttrN string | AttrOther

type_synonym item = "string \<rightharpoonup> attribute"

definition as_s :: "attribute \<Rightarrow> string option" where
  "as_s a = (case a of AttrS s \<Rightarrow> Some s | _ \<Rightarrow> None)"

definition as_n :: "attribute \<Rightarrow> string option" where
  "as_n a = (case a of AttrN s \<Rightarrow> Some s | _ \<Rightarrow> None)"

definition item_n :: "item \<Rightarrow> string \<Rightarrow> string option" where
  "item_n it name = Option.bind (it name) as_n"

definition N :: "nat \<Rightarrow> attribute" where
  "N n = AttrN (show_nat n)"

text \<open>The condition and update expressions, with the values the code substitutes.\<close>

datatype condition =
    NotExists string
  | AttrEq string nat
  | AttrLess string nat
  | AttrLe string nat
  | AttrGreater string nat
  | CondOr condition condition
  | CondAnd condition condition

datatype change = SetAttr string attribute | RemoveAttr string | AddAttr string nat

record update_request =
  ur_key :: string
  ur_changes :: "change list"
  ur_condition :: condition

datatype table_error = ConditionalCheckFailed | TableFailure string

record 'w table =
  tb_get :: "string \<Rightarrow> ('w, table_error, item option) act"
  tb_update :: "update_request \<Rightarrow> ('w, table_error, item) act"
  tb_scan :: "string \<Rightarrow> item option \<Rightarrow> ('w, table_error, item list \<times> item option) act"

record score_codec =
  sc_parse_persisted :: "string \<Rightarrow> (user_checkpoint \<times> cached_snapshot option \<times> u64 option) option"
  sc_parse_value :: "string \<Rightarrow> json option"
  sc_checkpoint_of :: "json \<Rightarrow> user_checkpoint option"
  sc_render_persisted :: "user_checkpoint \<times> cached_snapshot option \<times> u64 option \<Rightarrow> string option"
  sc_snapshot_json :: "cached_snapshot \<Rightarrow> json"

record stored_checkpoint =
  sk_checkpoint :: user_checkpoint
  sk_snapshot :: "cached_snapshot option"
  sk_snapshot_epoch :: "u64 option"
  sk_last_refresh_at :: "u64 option"
  sk_version :: u64

record 'w score_app =
  sa_table :: "'w table"
  sa_policy :: work_policy
  sa_networks :: "(u64, 'w runtime_network) btree_map"
  sa_origin :: string
  sa_codec :: score_codec
  sa_abi :: abi
  sa_events :: events
  sa_system_secs :: "'w \<Rightarrow> u64 option"
  sa_clock_ms :: "'w \<Rightarrow> nat"

definition decode_checkpoint_payload ::
  "('z) score_codec_scheme \<Rightarrow> string \<Rightarrow> (score_error, user_checkpoint \<times> cached_snapshot option \<times> u64 option) result" where
  "decode_checkpoint_payload sc payload =
     (case sc_parse_persisted sc payload of
        Some persisted \<Rightarrow> Ok persisted
      | None \<Rightarrow>
          bindR (ok_or SeJson (sc_parse_value sc payload)) (\<lambda>value.
          bindR (ok_or SeJson (sc_checkpoint_of sc (case json_get value ''checkpoint'' of Some c \<Rightarrow> c | None \<Rightarrow> value))) (\<lambda>checkpoint.
          Ok (checkpoint, None, None))))"

definition checkpoint_key :: "u64 \<Rightarrow> address \<Rightarrow> address \<Rightarrow> string" where
  "checkpoint_key chain registry account =
     show_nat chain @ ''#'' @ address_to_string registry @ ''#'' @ address_to_string account"

text \<open>The end of sending an update: a failed condition is an answer, any other failure an error.\<close>

definition send_update :: "('w, 'z) score_app_scheme \<Rightarrow> update_request \<Rightarrow> ('w, score_error, item option) act" where
  "send_update app request =
     bindA (tryA (tb_update (sa_table app) request)) (\<lambda>answer.
     case answer of
       Ok it \<Rightarrow> retA (Some it)
     | Err ConditionalCheckFailed \<Rightarrow> retA None
     | Err (TableFailure e) \<Rightarrow> failA (SeTable e))"

text \<open>The unchecked additions of the release build.\<close>

definition add64 :: "u64 \<Rightarrow> u64 \<Rightarrow> u64" where
  "add64 a b = (a + b) mod 2 ^ 64"

definition budget_request :: "work_policy \<Rightarrow> u64 \<Rightarrow> update_request" where
  "budget_request p now =
     \<lparr>ur_key = ''work-budget#'' @ show_nat (now div wp_budget_window_seconds p),
      ur_changes = [SetAttr ''expiresAt'' (N (add64 now DAILY_EPOCH_SECONDS)), AddAttr ''used'' 1],
      ur_condition = CondOr (NotExists ''used'') (AttrLess ''used'' (wp_budget_max_attempts p))\<rparr>"

definition reserve_budget :: "('w, 'z) score_app_scheme \<Rightarrow> u64 \<Rightarrow> ('w, score_error, bool) act" where
  "reserve_budget app now = bindA (send_update app (budget_request (sa_policy app) now)) (\<lambda>r. retA (r \<noteq> None))"

definition version_condition :: "u64 option \<Rightarrow> condition" where
  "version_condition expected = (case expected of Some v \<Rightarrow> AttrEq ''version'' v | None \<Rightarrow> NotExists ''version'')"

definition acquire_request :: "work_policy \<Rightarrow> string \<Rightarrow> u64 \<Rightarrow> u64 option \<Rightarrow> u64 \<Rightarrow> update_request" where
  "acquire_request p key epoch expected now =
     \<lparr>ur_key = key,
      ur_changes = [SetAttr ''leaseUntil'' (N (add64 now (wp_lease_seconds p))),
        SetAttr ''retryAfter'' (N (add64 (add64 now (wp_lease_seconds p)) (wp_failure_cooldown_seconds p))), SetAttr ''attemptedAt'' (N now),
        SetAttr ''snapshotGeneration'' (N epoch), RemoveAttr ''expiresAt'', AddAttr ''generation'' 1],
      ur_condition = CondAnd (CondOr (NotExists ''leaseUntil'') (AttrLe ''leaseUntil'' now))
        (CondAnd (CondOr (NotExists ''retryAfter'') (AttrLe ''retryAfter'' now)) (version_condition expected))\<rparr>"

definition acquire ::
  "('w, 'z) score_app_scheme \<Rightarrow> string \<Rightarrow> u64 \<Rightarrow> u64 option \<Rightarrow> u64 \<Rightarrow> ('w, score_error, u64 option) act" where
  "acquire app key epoch expected now =
     bindA (send_update app (acquire_request (sa_policy app) key epoch expected now)) (\<lambda>answer.
     case answer of
       None \<Rightarrow> retA None
     | Some it \<Rightarrow>
         bindA (liftR (ok_or (SeText ''lease generation missing'') (item_n it ''generation''))) (\<lambda>text.
         bindA (liftR (ok_or SeNumber (u64_from_str text))) (\<lambda>generation. retA (Some generation))))"

definition save_request ::
  "string \<Rightarrow> string \<Rightarrow> u64 \<Rightarrow> u64 \<Rightarrow> u64 \<Rightarrow> u64 option \<Rightarrow> u64 option \<Rightarrow> u64 \<Rightarrow> u64 \<Rightarrow> update_request" where
  "save_request key payload next_version cursor_block epoch expected_version last_refresh_at generation now =
     \<lparr>ur_key = key,
      ur_changes = [SetAttr ''payload'' (AttrS payload), SetAttr ''version'' (N next_version), SetAttr ''cursorBlock'' (N cursor_block),
        SetAttr ''snapshotEpoch'' (N epoch), SetAttr ''leaseUntil'' (N 0), SetAttr ''retryAfter'' (N 0)]
        @ (case last_refresh_at of Some t \<Rightarrow> [SetAttr ''lastRefreshAt'' (N t)] | None \<Rightarrow> []) @ [RemoveAttr ''expiresAt''],
      ur_condition = CondAnd (AttrEq ''generation'' generation) (CondAnd (AttrGreater ''leaseUntil'' now)
        (CondAnd (AttrEq ''snapshotGeneration'' epoch) (version_condition expected_version)))\<rparr>"

definition network_key :: "('w, 'z) runtime_network_scheme \<Rightarrow> address \<Rightarrow> string" where
  "network_key network account = checkpoint_key (sn_chain_id (rn_score network)) (rn_registry network) account"

definition now_secs :: "('w, 'z) score_app_scheme \<Rightarrow> ('w, score_error, u64) act" where
  "now_secs app = bindA (getsA (sa_system_secs app)) (\<lambda>clock. liftR (ok_or SeClock clock))"

definition save ::
  "('w, 'z) score_app_scheme \<Rightarrow> ('w, 'y) runtime_network_scheme \<Rightarrow> address \<Rightarrow> user_checkpoint \<Rightarrow> cached_snapshot \<Rightarrow> u64 \<Rightarrow> u64
    \<Rightarrow> u64 option \<Rightarrow> u64 option \<Rightarrow> u64 \<Rightarrow> ('w, score_error, bool) act" where
  "save app network account checkpoint snapshot epoch cursor_block expected_version last_refresh_at generation =
     bindA (liftR (ok_or SeJson (sc_render_persisted (sa_codec app) (checkpoint, Some snapshot, Some epoch)))) (\<lambda>payload.
     bindA (guardA (length payload > MAX_CHECKPOINT_BYTES) (SeText ''checkpoint payload exceeds size limit'')) (\<lambda>_.
     bindA (liftR (ok_or (SeText ''checkpoint version overflow'')
              (checked_add64 (case expected_version of Some v \<Rightarrow> v | None \<Rightarrow> 0) 1))) (\<lambda>next_version.
     bindA (now_secs app) (\<lambda>now.
     bindA (send_update app (save_request (network_key network account) payload next_version cursor_block epoch expected_version
              last_refresh_at generation now)) (\<lambda>answer. retA (answer \<noteq> None))))))"

definition load ::
  "('w, 'z) score_app_scheme \<Rightarrow> ('w, 'y) runtime_network_scheme \<Rightarrow> address \<Rightarrow> ('w, score_error, stored_checkpoint option) act" where
  "load app network account =
     bindA (map_errA (\<lambda>e. SeTable (case e of TableFailure t \<Rightarrow> t | ConditionalCheckFailed \<Rightarrow> []))
              (tb_get (sa_table app) (network_key network account))) (\<lambda>found.
     case Option.bind found (\<lambda>it. map_option (\<lambda>v. (it, v)) (it ''payload'')) of
       None \<Rightarrow> retA None
     | Some (it, value) \<Rightarrow>
         bindA (liftR (ok_or (SeText ''invalid checkpoint payload'') (as_s value))) (\<lambda>payload.
         bindA (guardA (length payload > MAX_CHECKPOINT_BYTES) (SeText ''checkpoint payload exceeds size limit'')) (\<lambda>_.
         bindA (liftR (ok_or (SeText ''checkpoint version missing'') (item_n it ''version''))) (\<lambda>text.
         bindA (liftR (ok_or SeNumber (u64_from_str text))) (\<lambda>version.
         bindA (liftR (decode_checkpoint_payload (sa_codec app) payload)) (\<lambda>(checkpoint, snapshot, snapshot_epoch).
           retA (Some \<lparr>sk_checkpoint = checkpoint, sk_snapshot = snapshot, sk_snapshot_epoch = snapshot_epoch,
             sk_last_refresh_at = Option.bind (item_n it ''lastRefreshAt'') u64_from_str, sk_version = version\<rparr>)))))))"

section \<open>Listing\<close>

record listed_score =
  li_account :: string
  li_gross_earned_score :: string
  li_available_score :: string
  li_score_spent :: string
  li_reference_block :: string
  li_snapshot_timestamp :: string
  li_last_refresh_at :: "u64 option"

text \<open>The first text is numerically below the second.\<close>

definition decimal_below :: "string \<Rightarrow> string \<Rightarrow> bool" where
  "decimal_below left right =
     (let l = dropWhile (\<lambda>c. c = CHR ''0'') left; r = dropWhile (\<lambda>c. c = CHR ''0'') right in
      length l < length r \<or> (length l = length r \<and> str_less l r))"

text \<open>The order of the rows: the first row may stand before the second.\<close>

definition listed_le :: "listed_score \<Rightarrow> listed_score \<Rightarrow> bool" where
  "listed_le a b \<longleftrightarrow> decimal_below (li_gross_earned_score b) (li_gross_earned_score a)
     \<or> (\<not> decimal_below (li_gross_earned_score a) (li_gross_earned_score b) \<and> \<not> str_less (li_account b) (li_account a))"

text \<open>\<^verbatim>\<open>slice::sort_by\<close> is stable; so is insertion.\<close>

fun insert_listed :: "listed_score \<Rightarrow> listed_score list \<Rightarrow> listed_score list" where
  "insert_listed a [] = [a]"
| "insert_listed a (b # bs) = (if listed_le a b then a # b # bs else b # insert_listed a bs)"

definition sort_listed_scores :: "listed_score list \<Rightarrow> listed_score list" where
  "sort_listed_scores rows = foldr insert_listed rows []"

definition listed_score_from_item :: "('z) score_codec_scheme \<Rightarrow> item \<Rightarrow> listed_score option" where
  "listed_score_from_item sc it =
     Option.bind (Option.bind (it ''payload'') as_s) (\<lambda>payload.
     if length payload > MAX_CHECKPOINT_BYTES then None
     else case decode_checkpoint_payload sc payload of
       Ok (_, Some s, _) \<Rightarrow> Some \<lparr>li_account = cs_account s, li_gross_earned_score = cs_gross_earned_score s,
         li_available_score = cs_available_score s, li_score_spent = cs_score_spent s, li_reference_block = cs_reference_block s,
         li_snapshot_timestamp = cs_snapshot_timestamp s, li_last_refresh_at = Option.bind (item_n it ''lastRefreshAt'') u64_from_str\<rparr>
     | _ \<Rightarrow> None)"

text \<open>The loop over at most 200 pages; the first argument counts the pages left.\<close>

fun list_pages ::
  "nat \<Rightarrow> ('w, 'z) score_app_scheme \<Rightarrow> string \<Rightarrow> item option \<Rightarrow> listed_score list \<Rightarrow> ('w, score_error, listed_score list) act" where
  "list_pages 0 app prefix start rows = failA (SeText ''score list exceeds the page limit'')"
| "list_pages (Suc n) app prefix start rows =
     bindA (map_errA (\<lambda>e. SeTable (case e of TableFailure t \<Rightarrow> t | ConditionalCheckFailed \<Rightarrow> [])) (tb_scan (sa_table app) prefix start))
       (\<lambda>(items, last_key).
     let found = rows @ List.map_filter (listed_score_from_item (sa_codec app)) items in
     case last_key of None \<Rightarrow> retA (sort_listed_scores found) | Some k \<Rightarrow> list_pages n app prefix (Some k) found)"

definition list_scores ::
  "('w, 'z) score_app_scheme \<Rightarrow> ('w, 'y) runtime_network_scheme \<Rightarrow> ('w, score_error, listed_score list) act" where
  "list_scores app network =
     list_pages MAX_SCORE_LIST_PAGES app
       (show_nat (sn_chain_id (rn_score network)) @ ''#'' @ address_to_string (rn_registry network) @ ''#'') None []"

section \<open>Calculation\<close>

record calculated_score =
  ca_value :: json
  ca_cache_max_age :: u64

definition registry_existed_at :: "('w, 'z) rpc_scheme \<Rightarrow> address \<Rightarrow> u64 \<Rightarrow> ('w, chain_error, bool) act" where
  "registry_existed_at rpc registry b =
     bindA (tryA (assert_contract_code_at rpc (address_to_string registry) ''Registry'' b)) (\<lambda>answer.
     case answer of Ok _ \<Rightarrow> retA True | Err (MissingCode _ _ _) \<Rightarrow> retA False | Err e \<Rightarrow> failA e)"

definition stale_checkpoint :: "incremental_score_error \<Rightarrow> bool" where
  "stale_checkpoint e = (case e of
     IsMalformed _ \<Rightarrow> True | IsTokenMismatch \<Rightarrow> True | IsDecimalsMismatch \<Rightarrow> True | IsRateHistoryMismatch \<Rightarrow> True
   | IsRetroactiveRate \<Rightarrow> True | IsCursorRollback \<Rightarrow> True | IsCheckpointIdentity \<Rightarrow> True | IsCheckpointBlockHash \<Rightarrow> True | _ \<Rightarrow> False)"

definition unavailable_checkpoint_history :: "incremental_score_error \<Rightarrow> bool" where
  "unavailable_checkpoint_history e = (case e of
     IsChain (ChainRpc (JsonRpc code message)) \<Rightarrow> code = - 32000
       \<and> str_contains ''historical state'' (to_ascii_lowercase message) \<and> str_contains ''not available'' (to_ascii_lowercase message)
   | _ \<Rightarrow> False)"

definition deferred_score ::
  "('z) score_codec_scheme \<Rightarrow> stored_checkpoint option \<Rightarrow> string \<Rightarrow> (score_error, calculated_score) result" where
  "deferred_score sc stored status =
     (case filter_option (\<lambda>s. cs_snapshot_version s = SCORE_SNAPSHOT_VERSION) (Option.bind stored sk_snapshot) of
        Some s \<Rightarrow> Ok \<lparr>ca_value = sc_snapshot_json sc (s\<lparr>cs_cache_status := status, cs_log_requests := ''0''\<rparr>), ca_cache_max_age = 0\<rparr>
      | None \<Rightarrow> Err (SeText ''score work deferred; retry later''))"

text \<open>The stored snapshot, when it answers the request without work.\<close>

definition current_snapshot :: "stored_checkpoint option \<Rightarrow> u64 \<Rightarrow> u64 \<Rightarrow> bool \<Rightarrow> cached_snapshot option" where
  "current_snapshot stored epoch now force_refresh =
     Option.bind (filter_option (\<lambda>v. is_current_daily_snapshot (sk_snapshot_epoch v)
         (case sk_snapshot v of Some s \<Rightarrow> cs_snapshot_version s | None \<Rightarrow> 0) epoch
       \<and> (\<not> force_refresh \<or> refresh_throttled (sk_last_refresh_at v) now)) stored) sk_snapshot"

definition reference_anchor ::
  "('w, 'y) runtime_network_scheme \<Rightarrow> u64 \<Rightarrow> bool \<Rightarrow> block_anchor \<Rightarrow> ('w, score_error, block_anchor) act" where
  "reference_anchor network epoch force_refresh finalized =
     (if force_refresh then retA finalized
      else bindA (map_errA SeChain (block_at_or_before_timestamp (rn_rpc network) (epoch - 1) (ba_number finalized))) (\<lambda>n.
           bindA (map_errA SeChain (registry_existed_at (rn_rpc network) (rn_registry network) n)) (\<lambda>existed.
           if existed then map_errA SeChain (block_by_number (rn_rpc network) n) else retA finalized)))"

definition compute_score ::
  "('w, 'z) score_app_scheme \<Rightarrow> ('w, 'y) runtime_network_scheme \<Rightarrow> address \<Rightarrow> block_anchor \<Rightarrow> stored_checkpoint option
    \<Rightarrow> ('w, score_error, cached_snapshot \<times> user_checkpoint) act" where
  "compute_score app network account reference stored =
     (let compute = compute_incremental_score_at (rn_rpc network) (sa_abi app) (sa_events app) (rn_score network) (rn_registry network)
            account reference in
      bindA (tryA (compute (map_option sk_checkpoint stored))) (\<lambda>computed.
      case computed of
        Ok value \<Rightarrow> retA value
      | Err e \<Rightarrow> if stored \<noteq> None \<and> (stale_checkpoint e \<or> unavailable_checkpoint_history e)
                 then map_errA SeScore (compute None) else failA (SeScore e)))"

text \<open>The work after a lease has been granted.\<close>

definition calculate_leased ::
  "('w, 'z) score_app_scheme \<Rightarrow> ('w, 'y) runtime_network_scheme \<Rightarrow> address \<Rightarrow> bool \<Rightarrow> u64 \<Rightarrow> u64 \<Rightarrow> stored_checkpoint option \<Rightarrow> u64
    \<Rightarrow> ('w, score_error, calculated_score) act" where
  "calculate_leased app network account force_refresh now epoch stored generation =
     bindA (now_secs app) (\<lambda>budget_now.
     bindA (reserve_budget app budget_now) (\<lambda>admitted.
     if \<not> admitted then liftR (deferred_score (sa_codec app) stored ''work-throttled'')
     else
     bindA (map_errA SeChain (finalized_block (rn_rpc network))) (\<lambda>finalized.
     if completed_utc_epoch (ba_timestamp finalized) \<noteq> Some epoch then liftR (deferred_score (sa_codec app) stored ''updating'')
     else
     bindA (reference_anchor network epoch force_refresh finalized) (\<lambda>reference.
     bindA (compute_score app network account reference stored) (\<lambda>(snapshot, checkpoint).
     bindA (liftR (ok_or SeNumber (u64_from_str (cs_reference_block snapshot)))) (\<lambda>cursor_block.
     bindA (save app network account checkpoint snapshot epoch cursor_block (map_option sk_version stored)
              (if force_refresh then Some now else None) generation) (\<lambda>saved.
     if saved
     then retA \<lparr>ca_value = sc_snapshot_json (sa_codec app) snapshot,
                ca_cache_max_age = (if force_refresh then 0 else daily_cache_max_age epoch now)\<rparr>
     else bindA (load app network account) (\<lambda>latest. liftR (deferred_score (sa_codec app) latest ''updating'')))))))))"

definition calculate_inner ::
  "('w, 'z) score_app_scheme \<Rightarrow> ('w, 'y) runtime_network_scheme \<Rightarrow> address \<Rightarrow> bool \<Rightarrow> ('w, score_error, calculated_score) act" where
  "calculate_inner app network account force_refresh =
     bindA (now_secs app) (\<lambda>now.
     bindA (liftR (ok_or (SeText ''score clock predates first UTC day'') (completed_utc_epoch now))) (\<lambda>epoch.
     bindA (load app network account) (\<lambda>stored.
     case current_snapshot stored epoch now force_refresh of
       Some s \<Rightarrow>
         retA \<lparr>ca_value = sc_snapshot_json (sa_codec app)
                 (s\<lparr>cs_cache_status := (if force_refresh then ''refresh-throttled'' else ''daily-hit''), cs_log_requests := ''0''\<rparr>),
               ca_cache_max_age = (if force_refresh then 0 else daily_cache_max_age epoch now)\<rparr>
     | None \<Rightarrow>
         bindA (acquire app (network_key network account) epoch (map_option sk_version stored) now) (\<lambda>lease.
         case lease of
           None \<Rightarrow> bindA (load app network account) (\<lambda>latest. liftR (deferred_score (sa_codec app) latest ''updating''))
         | Some generation \<Rightarrow> calculate_leased app network account force_refresh now epoch stored generation))))"

definition calculate ::
  "('w, 'z) score_app_scheme \<Rightarrow> ('w, 'y) runtime_network_scheme \<Rightarrow> address \<Rightarrow> bool \<Rightarrow> ('w, score_error, calculated_score) act" where
  "calculate app network account force_refresh =
     bindA (within_timeout (sa_clock_ms app) (wp_calculation_timeout_ms (sa_policy app))
              (calculate_inner app network account force_refresh)) (\<lambda>outcome.
     liftR (case outcome of Some r \<Rightarrow> r | None \<Rightarrow> Err (SeText ''score calculation deadline exceeded'')))"

section \<open>Responses\<close>

record score_response = http_response +
  sr_origin :: string
  sr_cache_control :: string
  sr_retry_after :: "string option"

definition score_response_of :: "nat \<Rightarrow> json \<Rightarrow> string \<Rightarrow> u64 option \<Rightarrow> score_response" where
  "score_response_of status value origin cache_max_age =
     \<lparr>hr_status = status, hr_body = value, sr_origin = origin,
      sr_cache_control = (case cache_max_age of
          None \<Rightarrow> ''no-store''
        | Some s \<Rightarrow> ''public, max-age='' @ show_nat s @ '', s-maxage='' @ show_nat s),
      sr_retry_after = (if status = 503 then Some ''60'' else None)\<rparr>"

definition json_of_listed :: "listed_score \<Rightarrow> json" where
  "json_of_listed l = JObj [(''account'', JStr (li_account l)), (''grossEarnedScore'', JStr (li_gross_earned_score l)),
     (''availableScore'', JStr (li_available_score l)), (''scoreSpent'', JStr (li_score_spent l)),
     (''referenceBlock'', JStr (li_reference_block l)), (''snapshotTimestamp'', JStr (li_snapshot_timestamp l)),
     (''lastRefreshAt'', case li_last_refresh_at l of Some t \<Rightarrow> JInt (int t) | None \<Rightarrow> JNull)]"

definition refuse :: "('w, 'z) score_app_scheme \<Rightarrow> nat \<Rightarrow> string \<Rightarrow> score_response" where
  "refuse app status code = score_response_of status (error_code code) (sa_origin app) None"

definition handle_list ::
  "('w, 'z) score_app_scheme \<Rightarrow> (unit, score_list_request) result \<Rightarrow> ('w, 'e, score_response) act" where
  "handle_list app list_request =
     (case (case list_request of
         Ok (ListExplicit chain) \<Rightarrow> Ok chain
       | Ok ListLegacy \<Rightarrow> ok_or (refuse app 404 ''LEGACY_ROUTE_AMBIGUOUS'') (legacy_chain_id (sa_networks app))
       | Err _ \<Rightarrow> Err (refuse app 400 ''INVALID_REQUEST'')) of
        Err response \<Rightarrow> retA response
      | Ok chain \<Rightarrow>
          (case map_of (sa_networks app) chain of
             None \<Rightarrow> retA (refuse app 404 ''UNSUPPORTED_CHAIN'')
           | Some network \<Rightarrow>
               bindA (tryA (list_scores app network)) (\<lambda>answer.
               retA (case answer of
                   Ok accounts \<Rightarrow> score_response_of 200 (JObj [(''chainId'', JStr (show_nat chain)),
                       (''registry'', JStr (address_to_string (rn_registry network))), (''count'', JInt (int (length accounts))),
                       (''accounts'', JArr (map json_of_listed accounts))]) (sa_origin app) (Some SCORE_LIST_CACHE_SECONDS)
                 | Err _ \<Rightarrow> refuse app 503 ''SCORE_LIST_UNAVAILABLE''))))"

definition handle_score ::
  "('w, 'z) score_app_scheme \<Rightarrow> score_request \<Rightarrow> string option \<Rightarrow> ('w, 'e, score_response) act" where
  "handle_score app request query =
     (case (case request of
         ScoreExplicit chain account \<Rightarrow> Ok (chain, account)
       | ScoreLegacy account \<Rightarrow>
           bindR (ok_or (refuse app 404 ''LEGACY_ROUTE_AMBIGUOUS'') (legacy_chain_id (sa_networks app))) (\<lambda>chain. Ok (chain, account))) of
        Err response \<Rightarrow> retA response
      | Ok (chain, account) \<Rightarrow>
          (case map_of (sa_networks app) chain of
             None \<Rightarrow> retA (refuse app 404 ''UNSUPPORTED_CHAIN'')
           | Some network \<Rightarrow>
               bindA (tryA (calculate app network account (refresh_requested query))) (\<lambda>answer.
               retA (case answer of
                   Ok c \<Rightarrow> score_response_of 200 (ca_value c) (sa_origin app) (Some (ca_cache_max_age c))
                 | Err _ \<Rightarrow> refuse app 503 ''SCORE_UNAVAILABLE''))))"

definition handle_score_request ::
  "('w, 'z) score_app_scheme \<Rightarrow> string \<Rightarrow> string \<Rightarrow> string option \<Rightarrow> ('w, 'e, score_response) act" where
  "handle_score_request app mth path query =
     (if mth \<noteq> ''GET'' then retA (refuse app 405 ''METHOD_NOT_ALLOWED'')
      else case score_list_request_from_path path of
        Some list_request \<Rightarrow> handle_list app list_request
      | None \<Rightarrow>
          (case score_request_from_path path of
             Some (Ok request) \<Rightarrow> handle_score app request query
           | Some (Err _) \<Rightarrow> retA (refuse app 400 ''INVALID_REQUEST'')
           | None \<Rightarrow> retA (refuse app 404 ''NOT_FOUND'')))"

end
