(* ===== verification/Score_Lambda_Claims.thy ===== *)
theory Score_Lambda_Claims
  imports Score_Lambda
begin

text \<open>
  Concurrent score calculations: the conditional updates that the service sends, interleaved in any order on the row of an
  account, keep the row consistent, and the shared work budget admits only its configured number of calculations per window.
\<close>

section \<open>The semantics of conditional updates\<close>

text \<open>The number an attribute holds, and the documented meaning of the expressions; an absent row is the empty item.\<close>

definition attr_num :: "item \<Rightarrow> string \<Rightarrow> nat option" where
  "attr_num it a = (case it a of Some (AttrN s) \<Rightarrow> if s \<noteq> [] \<and> list_all is_ascii_digit s then Some (decimal_value s) else None | _ \<Rightarrow> None)"

fun holds :: "condition \<Rightarrow> item \<Rightarrow> bool" where
  "holds (NotExists a) it = (it a = None)"
| "holds (AttrEq a n) it = (attr_num it a = Some n)"
| "holds (AttrLess a n) it = (case attr_num it a of Some m \<Rightarrow> m < n | None \<Rightarrow> False)"
| "holds (AttrLe a n) it = (case attr_num it a of Some m \<Rightarrow> m \<le> n | None \<Rightarrow> False)"
| "holds (AttrGreater a n) it = (case attr_num it a of Some m \<Rightarrow> m > n | None \<Rightarrow> False)"
| "holds (CondOr c d) it = (holds c it \<or> holds d it)"
| "holds (CondAnd c d) it = (holds c it \<and> holds d it)"

fun apply_change :: "change \<Rightarrow> item \<Rightarrow> item" where
  "apply_change (SetAttr a v) it = it(a \<mapsto> v)"
| "apply_change (RemoveAttr a) it = it(a := None)"
| "apply_change (AddAttr a n) it = it(a \<mapsto> N ((case attr_num it a of Some m \<Rightarrow> m | None \<Rightarrow> 0) + n))"

abbreviation updated :: "update_request \<Rightarrow> item \<Rightarrow> item" where
  "updated r it \<equiv> fold apply_change (ur_changes r) it"

lemma attr_num_upd [simp]:
  "attr_num (it(a \<mapsto> N n)) b = (if a = b then Some n else attr_num it b)"
  "attr_num (it(a \<mapsto> AttrS s)) b = (if a = b then None else attr_num it b)"
  "attr_num (it(a := None)) b = (if a = b then None else attr_num it b)"
  using show_nat_digits [of n] show_nat_nonempty [of n] by (auto simp: attr_num_def N_def)

lemma attr_num_empty [simp]: "attr_num Map.empty a = None"
  by (simp add: attr_num_def)

section \<open>The row of an account\<close>

text \<open>
  The steps of the row: any invocation may be granted a lease, and any invocation may save with the generation and the version
  it holds, whenever the condition of its request is met.  The log lists generation and version of the saves, newest first.
\<close>

inductive row_step :: "work_policy \<Rightarrow> string \<Rightarrow> item \<times> (u64 \<times> u64) list \<Rightarrow> item \<times> (u64 \<times> u64) list \<Rightarrow> bool" for policy key where
  granted: "holds (ur_condition (acquire_request policy key epoch expected now)) row
    \<Longrightarrow> row_step policy key (row, saves) (updated (acquire_request policy key epoch expected now) row, saves)"
| saved: "request = save_request key payload next_version cursor epoch expected refresh generation now
    \<Longrightarrow> next_version = (case expected of Some v \<Rightarrow> v | None \<Rightarrow> 0) + 1 \<Longrightarrow> holds (ur_condition request) row
    \<Longrightarrow> row_step policy key (row, saves) (updated request row, (generation, next_version) # saves)"

inductive_cases row_stepE: "row_step policy key s t"

definition row_generation :: "item \<Rightarrow> nat" where
  "row_generation row = (case attr_num row ''generation'' of Some g \<Rightarrow> g | None \<Rightarrow> 0)"

definition row_inv :: "item \<times> (u64 \<times> u64) list \<Rightarrow> bool" where
  "row_inv s = (let row = fst s; saves = snd s in
     (if saves = [] then row ''version'' = None else attr_num row ''version'' = Some (length saves))
     \<and> map snd saves = rev [1..<Suc (length saves)] \<and> sorted_wrt (\<lambda>a b. fst b < fst a) saves
     \<and> (\<forall>p \<in> set saves. fst p \<le> row_generation row \<and> (fst p = row_generation row \<longrightarrow> attr_num row ''leaseUntil'' = Some 0)))"

lemma acquire_updated:
  "row_generation (updated (acquire_request policy key epoch expected now) row) = Suc (row_generation row)"
  "updated (acquire_request policy key epoch expected now) row ''version'' = row ''version''"
  by (simp_all add: acquire_request_def row_generation_def)

lemma save_updated:
  fixes key payload next_version cursor epoch expected refresh generation now row
  defines "new \<equiv> updated (save_request key payload next_version cursor epoch expected refresh generation now) row"
  shows "row_generation new = row_generation row" "attr_num new ''version'' = Some next_version" "attr_num new ''leaseUntil'' = Some 0"
  by (cases refresh; simp add: new_def save_request_def row_generation_def)+

lemma row_inv_granted:
  assumes "row_inv (row, saves)"
  shows "row_inv (updated (acquire_request policy key epoch expected now) row, saves)"
proof -
  let ?new = "updated (acquire_request policy key epoch expected now) row"
  have "attr_num ?new ''version'' = attr_num row ''version''" using acquire_updated(2) [of policy key epoch expected now row] by (simp add: attr_num_def)
  with assms acquire_updated [of policy key epoch expected now row] show ?thesis by (auto simp: row_inv_def Let_def)
qed

lemma row_inv_saved:
  assumes "row_inv (row, saves)" "next_version = (case expected of Some v \<Rightarrow> v | None \<Rightarrow> 0) + 1"
    "holds (ur_condition (save_request key payload next_version cursor epoch expected refresh generation now)) row"
  shows "row_inv (updated (save_request key payload next_version cursor epoch expected refresh generation now) row, (generation, next_version) # saves)"
proof -
  from assms(3) have gen: "row_generation row = generation" and lease: "attr_num row ''leaseUntil'' \<noteq> Some 0"
    and version: "holds (version_condition expected) row"
    by (auto simp: save_request_def row_generation_def split: option.splits)
  from assms(1) gen lease have older: "\<forall>p \<in> set saves. fst p < generation" by (auto simp: row_inv_def Let_def order_le_less)
  have count: "next_version = Suc (length saves)"
  proof (cases "saves = []")
    case True
    with assms(1) have "row ''version'' = None" by (simp add: row_inv_def)
    with version have "expected = None" by (auto simp: version_condition_def attr_num_def split: option.splits)
    with True assms(2) show ?thesis by simp
  next
    case False
    with assms(1) have "attr_num row ''version'' = Some (length saves)" by (simp add: row_inv_def Let_def)
    with version have "expected = Some (length saves)" by (auto simp: version_condition_def attr_num_def split: option.splits)
    with assms(2) show ?thesis by simp
  qed
  with assms(1) older gen save_updated [where row = row] show ?thesis by (auto simp: row_inv_def Let_def)
qed

lemma row_inv_reachable: "(row_step policy key)\<^sup>*\<^sup>* (Map.empty, []) s \<Longrightarrow> row_inv s"
proof (induction rule: rtranclp_induct)
  case (step s t)
  from step.hyps(2) step.IH show ?case by (cases rule: row_step.cases) (auto intro: row_inv_granted row_inv_saved)
qed (simp add: row_inv_def row_generation_def)

text \<open>
  C6.  Saves of a score row are serialized.  However many invocations interleave their lease and save requests on a row, the
  stored versions count the saves one by one, the generations under which they were made strictly increase, so that a
  lease saves at most once and never after a newer lease has saved, and the row holds the version of the last save.
\<close>

theorem score_saves_serialized:
  assumes "(row_step policy key)\<^sup>*\<^sup>* (Map.empty, []) (row, saves)"
  shows "map snd saves = rev [1..<Suc (length saves)] \<and> sorted_wrt (\<lambda>a b. fst b < fst a) saves
    \<and> (saves \<noteq> [] \<longrightarrow> attr_num row ''version'' = Some (length saves))"
  using row_inv_reachable [OF assms] by (auto simp: row_inv_def Let_def split: if_splits)

text \<open>Two invocations in turn: a first lease at second 100 saves, a second lease at second 200 saves after it.\<close>

theorem score_saves_serialized_witness:
  "\<exists>row. (row_step default_work_policy ''k'')\<^sup>*\<^sup>* (Map.empty, []) (row, [(1, 1)]) \<and> attr_num row ''version'' = Some 1"
proof -
  let ?a = "acquire_request default_work_policy ''k'' 0 None 100" and ?s = "save_request ''k'' ''p'' 1 5 0 None None 1 110"
  let ?r1 = "updated ?a Map.empty" let ?r2 = "updated ?s ?r1"
  have "holds (ur_condition ?a) Map.empty" by (simp add: acquire_request_def version_condition_def)
  then have "row_step default_work_policy ''k'' (Map.empty, []) (?r1, [])" by (rule row_step.granted)
  moreover have "holds (ur_condition ?s) ?r1"
    by (simp add: acquire_request_def save_request_def version_condition_def default_work_policy_def add64_def)
  then have "row_step default_work_policy ''k'' (?r1, []) (?r2, [(1, 1)])" by (intro row_step.saved [where expected = None]) simp_all
  ultimately have run: "(row_step default_work_policy ''k'')\<^sup>*\<^sup>* (Map.empty, []) (?r2, [(1, 1)])"
    by (rule converse_rtranclp_into_rtranclp [OF _ r_into_rtranclp])
  with score_saves_serialized [OF run] show ?thesis by auto
qed

section \<open>The work budget\<close>

text \<open>The budget rows after requests at the given times, and which of the requests were admitted.\<close>

fun budget_run :: "work_policy \<Rightarrow> (string \<Rightarrow> item) \<Rightarrow> u64 list \<Rightarrow> u64 list" where
  "budget_run p rows [] = []"
| "budget_run p rows (now # clocks) =
     (let r = budget_request p now; row = rows (ur_key r) in
      if holds (ur_condition r) row then now # budget_run p (rows(ur_key r := updated r row)) clocks else budget_run p rows clocks)"

definition window_used :: "work_policy \<Rightarrow> (string \<Rightarrow> item) \<Rightarrow> u64 \<Rightarrow> nat" where
  "window_used p rows k = (case attr_num (rows (''work-budget#'' @ show_nat k)) ''used'' of Some n \<Rightarrow> n | None \<Rightarrow> 0)"

lemma budget_run_bounded:
  assumes "\<forall>k. rows (''work-budget#'' @ show_nat k) ''used'' = None \<or> window_used p rows k > 0" "window_used p rows k \<le> wp_budget_max_attempts p"
    "1 \<le> wp_budget_max_attempts p"
  shows "window_used p rows k + length (filter (\<lambda>t. t div wp_budget_window_seconds p = k) (budget_run p rows clocks)) \<le> wp_budget_max_attempts p"
  using assms(1,2)
proof (induction clocks arbitrary: rows)
  case (Cons now clocks)
  let ?r = "budget_request p now" and ?j = "now div wp_budget_window_seconds p"
  let ?row = "rows (ur_key ?r)" let ?rows = "rows(ur_key ?r := updated ?r ?row)"
  have key: "ur_key ?r = ''work-budget#'' @ show_nat ?j" by (simp add: budget_request_def)
  show ?case
  proof (cases "holds (ur_condition ?r) ?row")
    case True
    have used: "window_used p ?rows i = window_used p rows i + (if i = ?j then 1 else 0)" for i
      using show_nat_inj [of i ?j] by (auto simp: window_used_def key budget_request_def)
    from True Cons.prems(1) key have less: "window_used p rows ?j < wp_budget_max_attempts p"
      using assms(3) by (auto simp: budget_request_def window_used_def attr_num_def split: option.splits)
    define rows1 where "rows1 = ?rows"
    have first: "\<forall>i. rows1 (''work-budget#'' @ show_nat i) ''used'' = None \<or> window_used p rows1 i > 0"
      using Cons.prems(1) used unfolding rows1_def by (auto simp: key show_nat_inj)
    have "window_used p rows1 k \<le> wp_budget_max_attempts p" using used less Cons.prems(2) by (auto simp: rows1_def)
    from Cons.IH [OF first this] used [of k] have "window_used p rows k + (if k = ?j then 1 else 0)
        + length (filter (\<lambda>t. t div wp_budget_window_seconds p = k) (budget_run p rows1 clocks)) \<le> wp_budget_max_attempts p"
      by (simp only: rows1_def)
    with True show ?thesis by (auto simp: Let_def rows1_def)
  next
    case False
    with Cons show ?thesis by (simp add: Let_def)
  qed
qed simp

text \<open>However the requests arrive, a window of the shared budget admits at most its configured number of calculations.\<close>

lemma work_budget_bounded:
  assumes "work_policy_ok p"
  shows "length (filter (\<lambda>t. t div wp_budget_window_seconds p = k) (budget_run p (\<lambda>_. Map.empty) clocks)) \<le> wp_budget_max_attempts p"
  using budget_run_bounded [of "\<lambda>_. Map.empty" p k clocks] assms by (auto simp: work_policy_ok_def window_used_def)

section \<open>The order of a listing\<close>

lemma decimal_value_Cons: "decimal_value (c # s) = digit_val c * 10 ^ length s + decimal_value s"
proof (induction s rule: rev_induct)
  case (snoc d s)
  have "decimal_value (c # s @ [d]) = decimal_value (c # s) * 10 + digit_val d"
    using decimal_value_snoc [of "c # s" d] by simp
  with snoc show ?case by (simp add: decimal_value_snoc algebra_simps)
qed (simp add: decimal_value_def)

lemma decimal_value_strip: "decimal_value (dropWhile (\<lambda>c. c = CHR ''0'') s) = decimal_value s"
  by (induction s) (auto simp: decimal_value_Cons digit_val_def)

lemma decimal_value_leading: "is_ascii_digit c \<Longrightarrow> c \<noteq> CHR ''0'' \<Longrightarrow> 10 ^ length s \<le> decimal_value (c # s)"
proof -
  assume c: "is_ascii_digit c" "c \<noteq> CHR ''0''"
  with digit_val_zero [of c] have "1 \<le> digit_val c" by simp
  then have "1 * 10 ^ length s \<le> digit_val c * 10 ^ length s" by (rule mult_right_mono) simp
  then show ?thesis unfolding decimal_value_Cons by linarith
qed

lemma digit_order:
  "is_ascii_digit c \<Longrightarrow> is_ascii_digit d \<Longrightarrow> ((of_char c :: nat) < of_char d) = (digit_val c < digit_val d)"
  by (auto simp: is_ascii_digit_def digit_val_def)

lemma digit_val_eq: "is_ascii_digit c \<Longrightarrow> is_ascii_digit d \<Longrightarrow> (digit_val c = digit_val d) = (c = d)"
  using digit_char_val by metis

lemma str_less_value:
  "length l = length r \<Longrightarrow> list_all is_ascii_digit l \<Longrightarrow> list_all is_ascii_digit r
    \<Longrightarrow> str_less l r = (decimal_value l < decimal_value r)"
proof (induction l r rule: list_induct2)
  case (Cons c l d r)
  then have lt: "decimal_value l < 10 ^ length l" "decimal_value r < 10 ^ length l"
    using decimal_value_less by fastforce+
  have lex: "(x * b + v < y * b + w) = (x < y \<or> x = y \<and> v < w)" if "v < b" "w < b" for x y v w b :: nat
  proof (cases x y rule: linorder_cases)
    case less
    then have "(x + 1) * b \<le> y * b" by (intro mult_right_mono) auto
    with that less show ?thesis by simp
  next
    case greater
    then have "(y + 1) * b \<le> x * b" by (intro mult_right_mono) auto
    with that greater show ?thesis by simp
  qed simp
  from Cons lex [OF lt] show ?case by (simp add: decimal_value_Cons digit_order digit_val_eq)
qed simp

text \<open>The comparison of two scores as texts is the comparison of the numbers, leading zeros included.\<close>

lemma decimal_below_exact:
  assumes "list_all is_ascii_digit l" "list_all is_ascii_digit r"
  shows "decimal_below l r = (decimal_value l < decimal_value r)"
proof -
  define strip where "strip = dropWhile (\<lambda>c. c = CHR ''0'')"
  have digits: "list_all is_ascii_digit (strip s)" if "list_all is_ascii_digit s" for s
    using that set_dropWhileD unfolding strip_def list_all_iff by metis
  have longer: "decimal_value (strip s) < decimal_value (strip t)"
    if "length (strip s) < length (strip t)" "list_all is_ascii_digit s" "list_all is_ascii_digit t" for s t
  proof -
    from that(1) obtain c u where t: "strip t = c # u" by (cases "strip t") auto
    then have "c \<noteq> CHR ''0''" using hd_dropWhile [of "\<lambda>c. c = CHR ''0''" t] by (auto simp: strip_def)
    then have "10 ^ length u \<le> decimal_value (strip t)" using decimal_value_leading digits [OF that(3)] t by simp
    moreover have "decimal_value (strip s) < 10 ^ length (strip s)" by (rule decimal_value_less [OF digits [OF that(2)]])
    moreover have "(10::nat) ^ length (strip s) \<le> 10 ^ length u" using that(1) t by (intro power_increasing) auto
    ultimately show ?thesis by linarith
  qed
  have "decimal_below l r = (length (strip l) < length (strip r) \<or> length (strip l) = length (strip r) \<and> str_less (strip l) (strip r))"
    by (simp add: decimal_below_def strip_def Let_def)
  also have "\<dots> = (decimal_value (strip l) < decimal_value (strip r))"
    using longer [of l r] longer [of r l] str_less_value [of "strip l" "strip r"] digits assms
    by (cases "length (strip l)" "length (strip r)" rule: linorder_cases) auto
  finally show ?thesis by (simp add: strip_def decimal_value_strip)
qed

abbreviation score_of :: "listed_score \<Rightarrow> nat" where
  "score_of a \<equiv> decimal_value (li_gross_earned_score a)"

lemma listed_le_scores:
  assumes "list_all is_ascii_digit (li_gross_earned_score a)" "list_all is_ascii_digit (li_gross_earned_score b)"
  shows "listed_le a b \<Longrightarrow> score_of b \<le> score_of a" "\<not> listed_le a b \<Longrightarrow> score_of a \<le> score_of b"
  using assms by (auto simp: listed_le_def decimal_below_exact)

lemma mset_insert_listed [simp]: "mset (insert_listed a bs) = add_mset a (mset bs)"
  by (induction bs) auto

lemma set_insert_listed [simp]: "set (insert_listed a bs) = insert a (set bs)"
  by (induction bs) auto

lemma insert_listed_sorted:
  assumes "\<forall>b \<in> set (a # bs). list_all is_ascii_digit (li_gross_earned_score b)"
    "sorted_wrt (\<lambda>x y. score_of y \<le> score_of x) bs"
  shows "sorted_wrt (\<lambda>x y. score_of y \<le> score_of x) (insert_listed a bs)"
  using assms
proof (induction bs)
  case (Cons b bs)
  then show ?case using listed_le_scores [of a b] by (cases "listed_le a b") (auto intro: order_trans)
qed simp

text \<open>A listing keeps every row exactly once and shows them by descending score.\<close>

lemma sort_listed_scores_sorted:
  assumes "\<forall>b \<in> set rows. list_all is_ascii_digit (li_gross_earned_score b)"
  shows "mset (sort_listed_scores rows) = mset rows
    \<and> sorted_wrt (\<lambda>x y. score_of y \<le> score_of x) (sort_listed_scores rows)"
proof -
  have "mset (foldr insert_listed rows []) = mset rows" for rows by (induction rows) simp_all
  moreover from this have "set (foldr insert_listed rows []) = set rows" for rows by (metis set_mset_mset)
  with assms have "sorted_wrt (\<lambda>x y. score_of y \<le> score_of x) (foldr insert_listed rows [])"
    by (induction rows) (simp_all add: insert_listed_sorted)
  ultimately show ?thesis by (simp add: sort_listed_scores_def)
qed

end
