(* ===== verification/Spec2Isabelle.thy ===== *)
theory Spec2Isabelle
  imports Http_Rpc History_Claims Source_Claims Kernel_Json Score_Modes Incident_Open_Claims Insurance_Score Job_Store Verifier_Demo Incremental_Claims Lambda_Demo Score_Lambda_Claims
begin

text \<open>
  Verification of the off-chain part of USD8 (\<^verbatim>\<open>offchain-rust\<close>): the program that scores holders, settles insurance incidents,
  signs the results in an enclave, and the two services around it.

  \<^bold>\<open>The program.\<close>  An incident of the insurance contract is settled in stages.  The \<^emph>\<open>chain reader\<close> fetches finalized blocks,
  contract state and event logs through a JSON-RPC provider.  From transfer histories and rate schedules the \<^emph>\<open>score
  accumulator\<close> computes what each claimant has earned; scores come straight from the chain, from a bulk replay or from an
  authenticated \<^emph>\<open>checkpoint file\<close>.  The \<^emph>\<open>settlement kernel\<close> replays the committed stream of claim registrations, allocates
  payouts to the live claims within the budget of the pools, and commits to the rows with a Merkle tree.  The \<^emph>\<open>engine\<close> runs
  these stages with all checks, the \<^emph>\<open>artifact\<close> records the run and re-verifies it, and \<^emph>\<open>typed data\<close> gives the digest that
  is signed.  \<^emph>\<open>Incident opening\<close> finds a price drop and authorizes an incident.  The \<^emph>\<open>job service\<close> accepts requests,
  reserves and launches enclave workers against a shared admission ledger, and reports a result only after the
  \<^emph>\<open>settlement verifier\<close> has checked it against the chain.  The \<^emph>\<open>score service\<close> keeps incremental checkpoints per account.

  \<^bold>\<open>Theories and sources.\<close>
  \<^item> \<open>Prelude\<close>, \<open>Ordered_Map\<close>, \<open>Effects\<close>, \<open>Encoding\<close>: results as sums, 64-bit arithmetic, ordered maps (with the locale
    \<open>ordered_map\<close>), JSON documents, the action monad, decimal and hexadecimal texts, bytes and addresses (\<^verbatim>\<open>src/lib.rs\<close>).
  \<^item> \<open>Score_Core\<close> (\<^verbatim>\<open>score-core/src/lib.rs\<close>): the segment accumulator; it refines a specification that sums rate times
    balance over the blocks of a history.
  \<^item> \<open>Claim_Set\<close>, \<open>Merkle\<close>, \<open>Settlement_Kernel\<close> (\<^verbatim>\<open>src/lib.rs\<close>): the claim stream and its accumulator hash, the tree and its
    proofs, the allocation.  Shown: exact acceptance of streams, completeness and binding of the tree, solvency, budget,
    neutrality of empty claims, the exact success condition.
  \<^item> \<open>Rpc\<close>, \<open>Http_Rpc\<close> (\<^verbatim>\<open>src/rpc.rs\<close>): strict logs, chunked and bisected log queries, the HTTP client with its retry
    policy.  Shown: a successful query is complete and ordered.
  \<^item> \<open>Config\<close> (\<^verbatim>\<open>src/config.rs\<close>), \<open>Chain_Blocks\<close>, \<open>Chain_Reads\<close>, \<open>History\<close> (\<^verbatim>\<open>src/chain.rs\<close>, \<^verbatim>\<open>src/abi.rs\<close>), with
    \<open>History_Spec\<close>, \<open>Ledger_Node\<close>, \<open>History_Claims\<close>: block search, aggregated reads, balances, integrals, scores and ratios
    against a node that serves one ledger.
  \<^item> \<open>Checkpoint\<close>, \<open>Score_Sources\<close> (\<^verbatim>\<open>src/checkpoint.rs\<close>), with \<open>Checkpoint_Spec\<close>, \<open>Checkpoint_Claims\<close>, \<open>Source_Spec\<close>,
    \<open>Source_Claims\<close>, \<open>Demo_Codec\<close>, \<open>Score_Modes\<close>: the authenticated file, its lock as a step relation over interleaved
    processes, atomic replacement, incremental replay, and the equality of all score sources.
  \<^item> \<open>Typed_Data\<close> (\<^verbatim>\<open>src/typed_data.rs\<close>), \<open>Kernel_Json\<close> (\<^verbatim>\<open>src/json.rs\<close>), \<open>Settlement_Run\<close> (\<^verbatim>\<open>src/artifact.rs\<close>),
    \<open>Engine\<close>, \<open>Engine_Claims\<close>, \<open>Engine_Demo\<close> (\<^verbatim>\<open>src/engine.rs\<close>): digests bind their fields, the JSON front end reads what it
    prints, the independent verification is exact, and a completed settlement is justified by the chain it read.
  \<^item> \<open>Incident_Open\<close>, \<open>Incident_Open_Claims\<close> (\<^verbatim>\<open>src/incident_open.rs\<close>), \<open>Insurance_Score\<close> (\<^verbatim>\<open>src/score.rs\<close>): the sliding
    windows equal whole windows, panics are unreachable, an authorization is justified.
  \<^item> \<open>Job_Protocol\<close>, \<open>Job_Service\<close> (\<^verbatim>\<open>job-api/src/lib.rs\<close>), with \<open>Job_Claims\<close>, \<open>Job_Store\<close>: identifiers, frames, signatures, launch
    script; admission, submission, polling.  The locale \<open>admission_store\<close> states what the service relies on while other
    invocations write; it is interpreted on a store with interference.  Shown: the rate of launches is bounded, a
    reservation is one step of the sequential ledger, a submission launches, a completed job is verified.
  \<^item> \<open>Settlement_Verifier\<close> (\<^verbatim>\<open>job-api/src/settlement_verifier.rs\<close>, \<^verbatim>\<open>completion_verifier.rs\<close>), with \<open>Verifier_Claims\<close>,
    \<open>Verifier_Demo\<close>: the evidence budget, the call decoder and the trace search are exact, a promotion is justified.
  \<^item> \<open>Instance_Scan\<close> (\<^verbatim>\<open>job-api/src/admission_reconciliation.rs\<close>, \<^verbatim>\<open>bin/janitor.rs\<close>), \<open>Open_Advisory\<close>
    (\<^verbatim>\<open>open_advisory_cache.rs\<close>, \<^verbatim>\<open>open_advisory_rpc.rs\<close>), \<open>Job_Lambda\<close> (\<^verbatim>\<open>bin/lambda.rs\<close>), \<open>Web\<close>, with \<open>Lambda_Claims\<close>,
    \<open>Lambda_Demo\<close>: an opening passes only under a fresh advisory, a slot is released only when its job can no longer run,
    the janitor ends.
  \<^item> \<open>Incremental_Score\<close>, \<open>Incremental_Claims\<close> (\<^verbatim>\<open>score-api/src/lib.rs\<close>), \<open>Score_Lambda\<close>, \<open>Score_Lambda_Claims\<close>
    (\<^verbatim>\<open>score-api/src/bin/lambda.rs\<close>): advancing a persisted checkpoint in slices equals one pass over the history; interleaved
    saves of a row are serialized, the work budget is kept, and a listing shows every row once by descending score.

  \<^bold>\<open>How the code is read.\<close>  A struct is a record, an enum a datatype, \<^verbatim>\<open>Result\<close> a sum whose left side is the error, so that
  every early return is a branch.  \<^verbatim>\<open>BigUint\<close> is \<^typ>\<open>nat\<close>; \<^verbatim>\<open>u64\<close>, \<^verbatim>\<open>u16\<close> and \<^verbatim>\<open>usize\<close> are \<^typ>\<open>nat\<close> with the checked,
  saturating or wrapping operation of the source written out at each step; bytes are 8-bit words.  \<^verbatim>\<open>BTreeMap\<close> is an
  ascending association list, \<^verbatim>\<open>HashMap\<close> a map, a JSON object an association list.  A panic is an error value of its own
  (\<open>RpcPanic\<close>, \<open>ChainPanic\<close>, \<open>IoPanic\<close>).  Code with effects is an action on a world of arbitrary type: each call may change the
  world also when it fails, and clocks are functions of it.  Futures joined by \<^verbatim>\<open>try_join!\<close> run in their order.  A timeout
  runs its future and drops a late outcome; since the environment is arbitrary, it may let the calls after the deadline do
  nothing.  The lock of a checkpoint is released on every path by a clean-up action.  The constants are those of the default
  build (chain 1, release arithmetic).

  \<^bold>\<open>Parameters.\<close>  Keccak-256, SHA-256, HMAC, the elliptic-curve library, the Solidity codec, JSON texts, base64, the URL parser,
  the HTTP transport, the file system, the object store, the instance service, the account table and the clocks are
  arguments of the definitions that use them.  Where a theorem needs something of them (a node that serves one ledger, a codec
  whose decoder inverts its encoder, a table whose conditional updates are atomic), that is a hypothesis, and the
  theorem's witness instantiates it.  Binding theorems do not assume collision resistance: they exhibit the collision.

  \<^bold>\<open>Bounds.\<close>  Loops of the source with a fixed bound carry it: 16 rounds of \<open>retry_loop\<close> for \<^verbatim>\<open>for _ in 0..16\<close>, 32 inventory pages,
  200 list pages, 4096 requests per log chunk, 65536 nodes and depth 96 of evidence, 256 requests and 8 MiB per promotion.
  Loops that shrink their data end by a measure; the janitor's loop, whose end depends on the instance service, is a partial
  function whose result is shown to exist against a finite inventory.  No definition uses artificial fuel.

  \<^bold>\<open>Not modelled.\<close>  The attestation device, key service and envelope decoding (\<^verbatim>\<open>src/tee.rs\<close>, \<^verbatim>\<open>src/attested_runtime.rs\<close>,
  \<^verbatim>\<open>kms_recipient_cms.rs\<close>) and the enclave and parent processes (\<^verbatim>\<open>bin/enclave.rs\<close>, \<^verbatim>\<open>bin/parent.rs\<close>) are device, socket and
  process input and output around the modelled computation.  The command line (\<^verbatim>\<open>src/main.rs\<close>) and the foreign-function
  entry point (\<^verbatim>\<open>src/ffi.rs\<close>) convert arguments and print.  The start-up of the two handlers reads environment variables and
  builds cloud clients.  Proxy and TLS settings of the HTTP library are not visible in the source.  Tests and examples call
  the modelled functions.
\<close>

end
